(* ===== verification/Relay_Prelude.thy ===== *)
theory Relay_Prelude
  imports Main "HOL-Library.Word" "HOL-Library.AList" "HOL-Library.Sublist"
begin

text \<open>
  What the components share: named fact collections, the JavaScript list and string
  operations the sources use, insertion-ordered maps, and the state-and-error effect type in
  which the asynchronous handlers are written.

  Text is modelled in two ways. Where the code looks at UTF-16 code units (output batching)
  text is a list of 16-bit words. Everywhere else it is a \<open>string\<close> whose characters are code
  units below 256; the code compares them with ASCII characters only.
\<close>

named_theorems relay_simps \<open>defining equations that component proofs unfold\<close>
named_theorems relay_inv \<open>invariant preservation facts\<close>

section \<open>Strings and slices\<close>

type_synonym code_unit = "16 word"
type_synonym js_text = "code_unit list"

text \<open>
  \<open>xs.slice(k)\<close>: a negative start counts from the end and stops at the beginning; so
  \<open>slice(-0)\<close> keeps everything.
\<close>

definition js_slice :: "int \<Rightarrow> 'a list \<Rightarrow> 'a list" where
  "js_slice k xs = drop (nat (if k < 0 then max 0 (int (length xs) + k) else k)) xs"

lemma js_slice_neg: "0 < n \<Longrightarrow> js_slice (- int n) xs = drop (length xs - n) xs"
  by (cases "n \<le> length xs") (auto simp: js_slice_def max_def nat_diff_distrib' intro: arg_cong [where f = "\<lambda>k. drop k xs"])

lemma length_js_slice_neg [simp]:
  "0 < n \<Longrightarrow> length (js_slice (- int n) xs) = min n (length xs)"
  by (simp add: js_slice_neg min_def)

lemma js_slice_neg_append:
  "0 < n \<Longrightarrow> js_slice (- int n) (js_slice (- int n) xs @ ys) = js_slice (- int n) (xs @ ys)"
  by (cases "n \<le> length xs") (auto simp: js_slice_neg add.commute)

lemma js_slice_neg_short: "0 < n \<Longrightarrow> length xs \<le> n \<Longrightarrow> js_slice (- int n) xs = xs"
  by (simp add: js_slice_neg)

lemma js_slice_neg_skip:
  "0 < n \<Longrightarrow> n \<le> length ys \<Longrightarrow> js_slice (- int n) (xs @ ys) = js_slice (- int n) ys"
  by (simp add: js_slice_neg)

text \<open>White space as \<open>String.prototype.trim\<close> strips it (code units below 256).\<close>

definition js_space :: "char \<Rightarrow> bool" where
  "js_space c = (let n = (of_char c :: nat) in (9 \<le> n \<and> n \<le> 13) \<or> n = 32 \<or> n = 160)"

definition js_trim :: "string \<Rightarrow> string" where
  "js_trim s = rev (dropWhile js_space (rev (dropWhile js_space s)))"

definition js_lower :: "char \<Rightarrow> char" where
  "js_lower c = (let n = (of_char c :: nat)
     in if (65 \<le> n \<and> n \<le> 90) \<or> (192 \<le> n \<and> n \<le> 222 \<and> n \<noteq> 215)
        then char_of (n + 32) else c)"

definition js_starts_with :: "'a list \<Rightarrow> 'a list \<Rightarrow> bool" where
  "js_starts_with s p = (take (length p) s = p)"

definition js_ends_with :: "'a list \<Rightarrow> 'a list \<Rightarrow> bool" where
  "js_ends_with s p = js_starts_with (rev s) (rev p)"

lemma js_starts_with_iff [simp]: "js_starts_with s p \<longleftrightarrow> prefix p s"
  unfolding js_starts_with_def prefix_def by (metis append_eq_conv_conj append_take_drop_id)

definition js_includes :: "string \<Rightarrow> string \<Rightarrow> bool" where
  "js_includes s t = list_ex (\<lambda>k. js_starts_with (drop k s) t) [0 ..< length s + 1]"

lemma js_includes_iff: "js_includes s t \<longleftrightarrow> (\<exists>a b. s = a @ t @ b)"
proof
  assume "js_includes s t"
  then obtain k b where "drop k s = t @ b" by (auto simp: js_includes_def list_ex_iff prefix_def)
  then have "s = take k s @ t @ b" by (metis append_take_drop_id)
  then show "\<exists>a b. s = a @ t @ b" by blast
next
  assume "\<exists>a b. s = a @ t @ b"
  then obtain a b where s: "s = a @ t @ b" by blast
  then show "js_includes s t" unfolding js_includes_def list_ex_iff
    by (intro bexI [where x = "length a"]) simp_all
qed

text \<open>A JavaScript string is falsy exactly when it is empty; so is a missing one.\<close>

fun js_truthy :: "string option \<Rightarrow> bool" where
  "js_truthy None = False"
| "js_truthy (Some s) = (s \<noteq> [])"

definition truthy_or_none :: "string option \<Rightarrow> string option" where
  "truthy_or_none v = (if js_truthy v then v else None)"

lemma truthy_or_none_idem [simp]: "truthy_or_none (truthy_or_none v) = truthy_or_none v"
  by (simp add: truthy_or_none_def)

text \<open>\<open>a ?? b\<close> on optional values.\<close>

definition js_coalesce :: "'a option \<Rightarrow> 'a option \<Rightarrow> 'a option" where
  "js_coalesce a b = (case a of None \<Rightarrow> b | Some _ \<Rightarrow> a)"

text \<open>\<open>parts.join(sep)\<close> and \<open>String(n)\<close> for an integer.\<close>

fun js_join :: "string \<Rightarrow> string list \<Rightarrow> string" where
  "js_join sep [] = []"
| "js_join sep [x] = x"
| "js_join sep (x # y # ys) = x @ sep @ js_join sep (y # ys)"

fun show_nat :: "nat \<Rightarrow> string" where
  "show_nat n = (if n < 10 then [char_of (48 + n)] else show_nat (n div 10) @ [char_of (48 + n mod 10)])"

declare show_nat.simps [simp del]

definition show_int :: "int \<Rightarrow> string" where
  "show_int i = (if i < 0 then CHR ''-'' # show_nat (nat (- i)) else show_nat (nat i))"

definition newline :: string where
  "newline = [CHR 0x0A]"

section \<open>Error-state effects\<close>

text \<open>
  An asynchronous handler is a function from a state to a result and the next state; a thrown
  error is \<open>Inl\<close>. The state keeps what was done before the error, as the code does.
\<close>

type_synonym ('s, 'e, 'a) effect = "'s \<Rightarrow> ('e + 'a) \<times> 's"

definition eff_return :: "'a \<Rightarrow> ('s, 'e, 'a) effect" where
  "eff_return a = (\<lambda>s. (Inr a, s))"

definition eff_throw :: "'e \<Rightarrow> ('s, 'e, 'a) effect" where
  "eff_throw e = (\<lambda>s. (Inl e, s))"

definition eff_bind :: "('s, 'e, 'a) effect \<Rightarrow> ('a \<Rightarrow> ('s, 'e, 'b) effect) \<Rightarrow> ('s, 'e, 'b) effect" where
  "eff_bind m k = (\<lambda>s. case m s of (Inl e, t) \<Rightarrow> (Inl e, t) | (Inr a, t) \<Rightarrow> k a t)"

definition eff_catch :: "('s, 'e, 'a) effect \<Rightarrow> ('e \<Rightarrow> ('s, 'e, 'a) effect) \<Rightarrow> ('s, 'e, 'a) effect" where
  "eff_catch m h = (\<lambda>s. case m s of (Inl e, t) \<Rightarrow> h e t | (Inr a, t) \<Rightarrow> (Inr a, t))"

definition eff_modify :: "('s \<Rightarrow> 's) \<Rightarrow> ('s, 'e, unit) effect" where
  "eff_modify f = (\<lambda>s. (Inr (), f s))"

text \<open>
  A \<open>try\<close> whose outcome is inspected afterwards, \<open>try ... finally\<close> (an error of the second part
  replaces the outcome of the first), and a \<open>for\<close> loop of awaited steps.
\<close>

definition eff_try :: "('s, 'e, 'a) effect \<Rightarrow> ('s, 'e, 'e + 'a) effect" where
  "eff_try m = (\<lambda>s. case m s of (r, t) \<Rightarrow> (Inr r, t))"

definition eff_finally :: "('s, 'e, 'a) effect \<Rightarrow> ('s, 'e, unit) effect \<Rightarrow> ('s, 'e, 'a) effect" where
  "eff_finally m f = (\<lambda>s. case m s of (r, t) \<Rightarrow> (case f t of (Inl e, u) \<Rightarrow> (Inl e, u) | (Inr _, u) \<Rightarrow> (r, u)))"

fun eff_for :: "('b \<Rightarrow> ('s, 'e, unit) effect) \<Rightarrow> 'b list \<Rightarrow> ('s, 'e, unit) effect" where
  "eff_for f [] = eff_return ()"
| "eff_for f (x # xs) = eff_bind (f x) (\<lambda>_. eff_for f xs)"

text \<open>
  \<open>eff_inv I m\<close>: every run of \<open>m\<close> from a state satisfying \<open>I\<close> ends, by a return or by an
  error, in a state satisfying \<open>I\<close>.
\<close>

definition eff_inv :: "('s \<Rightarrow> bool) \<Rightarrow> ('s, 'e, 'a) effect \<Rightarrow> bool" where
  "eff_inv I m \<longleftrightarrow> (\<forall>s. I s \<longrightarrow> I (snd (m s)))"

lemma eff_inv_return [intro!, simp]: "eff_inv I (eff_return a)"
  by (simp add: eff_inv_def eff_return_def)

lemma eff_inv_throw [intro!, simp]: "eff_inv I (eff_throw e)"
  by (simp add: eff_inv_def eff_throw_def)

lemma eff_inv_bind [intro]:
  "eff_inv I m \<Longrightarrow> (\<And>a. eff_inv I (k a)) \<Longrightarrow> eff_inv I (eff_bind m k)"
  unfolding eff_inv_def eff_bind_def
  by (fastforce split: prod.splits sum.splits)

lemma eff_inv_catch [intro]:
  "eff_inv I m \<Longrightarrow> (\<And>e. eff_inv I (h e)) \<Longrightarrow> eff_inv I (eff_catch m h)"
  unfolding eff_inv_def eff_catch_def
  by (fastforce split: prod.splits sum.splits)

lemma eff_inv_modify [intro]: "(\<And>s. I s \<Longrightarrow> I (f s)) \<Longrightarrow> eff_inv I (eff_modify f)"
  by (simp add: eff_inv_def eff_modify_def)

lemma eff_invD: "eff_inv I m \<Longrightarrow> m s = (r, t) \<Longrightarrow> I s \<Longrightarrow> I t"
  unfolding eff_inv_def by (metis snd_conv)

lemmas eff_defs = eff_return_def eff_throw_def eff_bind_def eff_catch_def eff_modify_def

text \<open>
  Weakest preconditions: \<open>Q\<close> must hold of the result and final state of a normal end,
  \<open>E\<close> of the error and final state of a thrown one.
\<close>

definition eff_wp ::
  "('s, 'e, 'a) effect \<Rightarrow> ('a \<Rightarrow> 's \<Rightarrow> bool) \<Rightarrow> ('e \<Rightarrow> 's \<Rightarrow> bool) \<Rightarrow> 's \<Rightarrow> bool" where
  "eff_wp m Q E s = (case m s of (Inl e, t) \<Rightarrow> E e t | (Inr a, t) \<Rightarrow> Q a t)"

named_theorems eff_wps \<open>weakest preconditions of the effect combinators and of a model's primitives\<close>

lemma wp_return [eff_wps]: "eff_wp (eff_return a) Q E s = Q a s"
  by (simp add: eff_wp_def eff_return_def)

lemma wp_throw [eff_wps]: "eff_wp (eff_throw e) Q E s = E e s"
  by (simp add: eff_wp_def eff_throw_def)

lemma wp_bind [eff_wps]: "eff_wp (eff_bind m k) Q E s = eff_wp m (\<lambda>a. eff_wp (k a) Q E) E s"
  by (simp add: eff_wp_def eff_bind_def split: prod.split sum.split)

lemma wp_catch [eff_wps]: "eff_wp (eff_catch m h) Q E s = eff_wp m Q (\<lambda>e. eff_wp (h e) Q E) s"
  by (simp add: eff_wp_def eff_catch_def split: prod.split sum.split)

lemma wp_modify [eff_wps]: "eff_wp (eff_modify f) Q E s = Q () (f s)"
  by (simp add: eff_wp_def eff_modify_def)

lemma wp_try [eff_wps]:
  "eff_wp (eff_try m) Q E s = eff_wp m (\<lambda>a. Q (Inr a)) (\<lambda>e. Q (Inl e)) s"
  by (simp add: eff_wp_def eff_try_def split: prod.split sum.split)

lemma wp_finally [eff_wps]:
  "eff_wp (eff_finally m f) Q E s = eff_wp m (\<lambda>a. eff_wp f (\<lambda>_. Q a) E) (\<lambda>e. eff_wp f (\<lambda>_. E e) E) s"
  by (simp add: eff_wp_def eff_finally_def split: prod.split sum.split)

lemma wp_mono:
  "eff_wp m Q E s \<Longrightarrow> (\<And>a t. Q a t \<Longrightarrow> Q' a t) \<Longrightarrow> (\<And>e t. E e t \<Longrightarrow> E' e t) \<Longrightarrow> eff_wp m Q' E' s"
  by (auto simp: eff_wp_def split: prod.splits sum.splits)

lemma wp_conj:
  "eff_wp m Q E s \<Longrightarrow> eff_wp m Q' E' s \<Longrightarrow> eff_wp m (\<lambda>a t. Q a t \<and> Q' a t) (\<lambda>e t. E e t \<and> E' e t) s"
  by (auto simp: eff_wp_def split: prod.splits sum.splits)

lemma wpD_ok: "eff_wp m Q E s \<Longrightarrow> m s = (Inr a, t) \<Longrightarrow> Q a t"
  by (simp add: eff_wp_def)

lemma wpD_err: "eff_wp m Q E s \<Longrightarrow> m s = (Inl e, t) \<Longrightarrow> E e t"
  by (simp add: eff_wp_def)

section \<open>Hoare triples for effects\<close>

text \<open>
  \<open>eff_triple P m Q E\<close> states the weakest precondition for every start state in \<open>P\<close>. A component
  gives one rule per primitive in the collection \<open>eff_vcg\<close>; \<open>eff_norm\<close> brings a handler into the
  form in which repeated \<open>rule eff_vcg\<close> executes it symbolically.
\<close>

definition eff_triple ::
  "('s \<Rightarrow> bool) \<Rightarrow> ('s, 'e, 'a) effect \<Rightarrow> ('a \<Rightarrow> 's \<Rightarrow> bool) \<Rightarrow> ('e \<Rightarrow> 's \<Rightarrow> bool) \<Rightarrow> bool" where
  "eff_triple P m Q E \<longleftrightarrow> (\<forall>s. P s \<longrightarrow> eff_wp m Q E s)"

named_theorems eff_vcg \<open>rules for triples, one per combinator and per primitive\<close>
named_theorems eff_norm \<open>equations that sequence effects to the right\<close>

lemma eff_tripleD: "eff_triple P m Q E \<Longrightarrow> P s \<Longrightarrow> eff_wp m Q E s"
  by (simp add: eff_triple_def)

lemma triple_return [eff_vcg]: "(\<And>s. P s \<Longrightarrow> Q a s) \<Longrightarrow> eff_triple P (eff_return a) Q E"
  by (simp add: eff_triple_def eff_wps)

lemma triple_throw [eff_vcg]: "(\<And>s. P s \<Longrightarrow> E e s) \<Longrightarrow> eff_triple P (eff_throw e) Q E"
  by (simp add: eff_triple_def eff_wps)

lemma triple_bind [eff_vcg]:
  "eff_triple P m R E \<Longrightarrow> (\<And>a. eff_triple (R a) (k a) Q E) \<Longrightarrow> eff_triple P (eff_bind m k) Q E"
  unfolding eff_triple_def wp_bind by (blast intro: wp_mono)

lemma triple_catch:
  "eff_triple P m Q R \<Longrightarrow> (\<And>e. eff_triple (R e) (h e) Q E) \<Longrightarrow> eff_triple P (eff_catch m h) Q E"
  unfolding eff_triple_def wp_catch by (blast intro: wp_mono)

lemma triple_finally:
  "eff_triple P m R S \<Longrightarrow> (\<And>a. eff_triple (R a) f (\<lambda>_. Q a) E) \<Longrightarrow> (\<And>e. eff_triple (S e) f (\<lambda>_. E e) E) \<Longrightarrow>
   eff_triple P (eff_finally m f) Q E"
  unfolding eff_triple_def wp_finally by (blast intro: wp_mono)

lemma triple_if [eff_vcg]:
  "(b \<Longrightarrow> eff_triple P m Q E) \<Longrightarrow> (\<not> b \<Longrightarrow> eff_triple P m' Q E) \<Longrightarrow>
   eff_triple P (if b then m else m') Q E"
  by simp

lemma triple_option [eff_vcg]:
  "(x = None \<Longrightarrow> eff_triple P m Q E) \<Longrightarrow> (\<And>y. x = Some y \<Longrightarrow> eff_triple P (f y) Q E) \<Longrightarrow>
   eff_triple P (case x of None \<Rightarrow> m | Some y \<Rightarrow> f y) Q E"
  by (cases x) simp_all

lemma triple_sum [eff_vcg]:
  "(\<And>y. x = Inl y \<Longrightarrow> eff_triple P (f y) Q E) \<Longrightarrow> (\<And>y. x = Inr y \<Longrightarrow> eff_triple P (g y) Q E) \<Longrightarrow>
   eff_triple P (case x of Inl y \<Rightarrow> f y | Inr y \<Rightarrow> g y) Q E"
  by (cases x) simp_all

lemma triple_prod [eff_vcg]:
  "(\<And>a b. x = (a, b) \<Longrightarrow> eff_triple P (f a b) Q E) \<Longrightarrow> eff_triple P (case x of (a, b) \<Rightarrow> f a b) Q E"
  by (cases x) simp_all

lemma triple_conseq:
  "eff_triple P m Q E \<Longrightarrow> (\<And>s. P' s \<Longrightarrow> P s) \<Longrightarrow> (\<And>a s. Q a s \<Longrightarrow> Q' a s) \<Longrightarrow>
   (\<And>e s. E e s \<Longrightarrow> E' e s) \<Longrightarrow> eff_triple P' m Q' E'"
  unfolding eff_triple_def by (blast intro: wp_mono)

lemma triple_tail:
  "eff_triple P m R E \<Longrightarrow> (\<And>a s. R a s \<Longrightarrow> Q a s) \<Longrightarrow> eff_triple P m Q E"
  by (rule triple_conseq)

lemma triple_any: "eff_triple P m (\<lambda>_ _. True) (\<lambda>_ _. True)"
  by (simp add: eff_triple_def eff_wp_def split: prod.split sum.split)

lemma triple_for:
  "(\<And>x xs' k. eff_triple (P k) (f x) (\<lambda>_. P (Suc k)) E) \<Longrightarrow>
   eff_triple (P k) (eff_for f xs) (\<lambda>_. P (k + length xs)) E"
proof (induction xs arbitrary: k)
  case Nil
  then show ?case by (simp add: eff_triple_def eff_wps)
next
  case (Cons x xs)
  have "eff_triple (P (Suc k)) (eff_for f xs) (\<lambda>_. P (Suc k + length xs)) E"
    by (rule Cons.IH) (rule Cons.prems)
  then show ?case using Cons.prems by (auto intro: triple_bind)
qed

lemma bind_assoc [eff_norm]:
  "eff_bind (eff_bind m f) g = eff_bind m (\<lambda>x. eff_bind (f x) g)"
  by (rule ext) (simp add: eff_bind_def split: prod.split sum.split)

lemma bind_return [eff_norm]: "eff_bind (eff_return a) k = k a"
  by (rule ext) (simp add: eff_bind_def eff_return_def)

lemma bind_if [eff_norm]: "eff_bind (if b then m else m') k = (if b then eff_bind m k else eff_bind m' k)"
  by simp

lemma bind_option [eff_norm]:
  "eff_bind (case x of None \<Rightarrow> m | Some y \<Rightarrow> f y) k = (case x of None \<Rightarrow> eff_bind m k | Some y \<Rightarrow> eff_bind (f y) k)"
  by (cases x) simp_all

lemma bind_prod [eff_norm]:
  "eff_bind (case x of (a, b) \<Rightarrow> f a b) k = (case x of (a, b) \<Rightarrow> eff_bind (f a b) k)"
  by (cases x) simp_all

lemma find_sound: "List.find P xs = Some x \<Longrightarrow> x \<in> set xs \<and> P x"
  by (auto simp: find_Some_iff)

end
