(* ===== verification/Output_Buffer.thy ===== *)
theory Output_Buffer
  imports Relay_Prelude
begin

text \<open>
  Live output batching: \<open>packages/relay-daemon/src/output-event-buffer.ts\<close>. The object's state
  is the record \<open>output_event_buffer\<close>; its \<open>emit\<close> callback is modelled by the list of batches
  handed to it, oldest first. Text is UTF-16 code units, because the chunking rule looks at
  surrogate pairs.
\<close>

section \<open>State and operations\<close>

datatype output_stream = Stdout | Stderr

record buffered_output =
  bo_stream :: output_stream
  bo_text :: js_text

record output_event_buffer =
  ob_entries :: "buffered_output list"
  ob_bufferedChars :: nat
  ob_timer :: bool
  ob_delayMs :: int
  ob_maxChars :: nat
  ob_maxEntries :: nat
  ob_emitted :: "buffered_output list list"

definition new_output_buffer :: "int option \<Rightarrow> nat option \<Rightarrow> nat option \<Rightarrow> output_event_buffer" where
  "new_output_buffer delayMs maxChars maxEntries =
     \<lparr>ob_entries = [], ob_bufferedChars = 0, ob_timer = False,
      ob_delayMs = max 1 (case delayMs of None \<Rightarrow> 25 | Some d \<Rightarrow> d),
      ob_maxChars = max 1 (case maxChars of None \<Rightarrow> 256 * 1024 | Some m \<Rightarrow> m),
      ob_maxEntries = max 1 (case maxEntries of None \<Rightarrow> 1024 | Some m \<Rightarrow> m),
      ob_emitted = []\<rparr>"

definition high_surrogate :: "code_unit \<Rightarrow> bool" where
  "high_surrogate u \<longleftrightarrow> 0xD800 \<le> u \<and> u \<le> 0xDBFF"

definition low_surrogate :: "code_unit \<Rightarrow> bool" where
  "low_surrogate u \<longleftrightarrow> 0xDC00 \<le> u \<and> u \<le> 0xDFFF"

definition chunkEndWithoutSplittingSurrogate :: "js_text \<Rightarrow> nat \<Rightarrow> nat \<Rightarrow> nat" where
  "chunkEndWithoutSplittingSurrogate t offset capacity =
     (let e = min (length t) (offset + capacity)
      in if e < length t \<and> offset < e \<and> high_surrogate (t ! (e - 1)) \<and> low_surrogate (t ! e)
         then (if e - offset = 1 then e + 1 else e - 1)
         else e)"

definition ob_flush :: "output_event_buffer \<Rightarrow> output_event_buffer" where
  "ob_flush b =
     (let b1 = b\<lparr>ob_timer := False\<rparr>
      in if ob_entries b1 = [] then b1
         else b1\<lparr>ob_entries := [], ob_bufferedChars := 0,
                 ob_emitted := ob_emitted b1 @ [ob_entries b1]\<rparr>)"

definition ob_close :: "output_event_buffer \<Rightarrow> output_event_buffer" where
  "ob_close b = ob_flush b"

definition add_piece :: "output_stream \<Rightarrow> js_text \<Rightarrow> buffered_output list \<Rightarrow> buffered_output list" where
  "add_piece s p es =
     (if es \<noteq> [] \<and> bo_stream (last es) = s
      then butlast es @ [(last es)\<lparr>bo_text := bo_text (last es) @ p\<rparr>]
      else es @ [\<lparr>bo_stream = s, bo_text = p\<rparr>])"

definition ob_full :: "output_event_buffer \<Rightarrow> bool" where
  "ob_full b \<longleftrightarrow> ob_maxChars b \<le> ob_bufferedChars b \<or> ob_maxEntries b \<le> length (ob_entries b)"

definition ob_take :: "output_stream \<Rightarrow> js_text \<Rightarrow> nat \<Rightarrow> output_event_buffer \<Rightarrow> output_event_buffer \<times> nat" where
  "ob_take s t offset b =
     (let e = chunkEndWithoutSplittingSurrogate t offset (ob_maxChars b - ob_bufferedChars b);
          piece = drop offset (take e t);
          b1 = b\<lparr>ob_entries := add_piece s piece (ob_entries b),
                 ob_bufferedChars := ob_bufferedChars b + length piece\<rparr>
      in (if ob_full b1 then ob_flush b1 else b1, e))"

partial_function (option) ob_push_loop ::
  "output_stream \<Rightarrow> js_text \<Rightarrow> nat \<Rightarrow> output_event_buffer \<Rightarrow> output_event_buffer option" where
  "ob_push_loop s t offset b =
     (if offset < length t
      then (if ob_full b then ob_push_loop s t offset (ob_flush b)
            else ob_push_loop s t (snd (ob_take s t offset b)) (fst (ob_take s t offset b)))
      else Some b)"

definition ob_push :: "output_stream \<Rightarrow> js_text \<Rightarrow> output_event_buffer \<Rightarrow> output_event_buffer option" where
  "ob_push s t b =
     (if t = [] then Some b
      else map_option (\<lambda>b1. if ob_entries b1 = [] \<or> ob_timer b1 then b1 else b1\<lparr>ob_timer := True\<rparr>)
             (ob_push_loop s t 0 b))"

text \<open>A run of pushes, flushes (by the timer or by an explicit call) and the final close.\<close>

datatype buffer_event = Push output_stream js_text | TimerFires | FlushCall

fun ob_event :: "output_event_buffer \<Rightarrow> buffer_event \<Rightarrow> output_event_buffer option" where
  "ob_event b (Push s t) = ob_push s t b"
| "ob_event b TimerFires = Some (if ob_timer b then ob_flush b else b)"
| "ob_event b FlushCall = Some (ob_flush b)"

fun ob_run :: "output_event_buffer \<Rightarrow> buffer_event list \<Rightarrow> output_event_buffer option" where
  "ob_run b [] = Some b"
| "ob_run b (e # es) = (case ob_event b e of None \<Rightarrow> None | Some b1 \<Rightarrow> ob_run b1 es)"

section \<open>Specification\<close>

text \<open>The units of a batch in order, each with its stream.\<close>

definition units_of :: "buffered_output list \<Rightarrow> (output_stream \<times> code_unit) list" where
  "units_of es = concat (map (\<lambda>e. map (Pair (bo_stream e)) (bo_text e)) es)"

definition ob_content :: "output_event_buffer \<Rightarrow> (output_stream \<times> code_unit) list" where
  "ob_content b = units_of (concat (ob_emitted b)) @ units_of (ob_entries b)"

fun pushed_units :: "buffer_event list \<Rightarrow> (output_stream \<times> code_unit) list" where
  "pushed_units [] = []"
| "pushed_units (Push s t # es) = map (Pair s) t @ pushed_units es"
| "pushed_units (_ # es) = pushed_units es"

fun streams_alternate :: "buffered_output list \<Rightarrow> bool" where
  "streams_alternate (a # b # es) = (bo_stream a \<noteq> bo_stream b \<and> streams_alternate (b # es))"
| "streams_alternate _ = True"

text \<open>Well-formed UTF-16: every surrogate is part of a pair.\<close>

fun wf_utf16 :: "js_text \<Rightarrow> bool" where
  "wf_utf16 [] = True"
| "wf_utf16 [u] = (\<not> high_surrogate u \<and> \<not> low_surrogate u)"
| "wf_utf16 (u # v # us) =
     (if high_surrogate u then low_surrogate v \<and> wf_utf16 us
      else \<not> low_surrogate u \<and> wf_utf16 (v # us))"

definition batch_ok :: "output_event_buffer \<Rightarrow> buffered_output list \<Rightarrow> bool" where
  "batch_ok b es \<longleftrightarrow> es \<noteq> [] \<and> length (units_of es) \<le> Suc (ob_maxChars b) \<and>
     length es \<le> ob_maxEntries b \<and> streams_alternate es \<and>
     (\<forall>e \<in> set es. bo_text e \<noteq> [])"

definition ob_inv :: "output_event_buffer \<Rightarrow> bool" where
  "ob_inv b \<longleftrightarrow> 0 < ob_maxChars b \<and> 0 < ob_maxEntries b \<and>
     ob_bufferedChars b = length (units_of (ob_entries b)) \<and>
     (ob_entries b = [] \<longrightarrow> \<not> ob_timer b) \<and> \<not> ob_full b \<and>
     streams_alternate (ob_entries b) \<and> (\<forall>e \<in> set (ob_entries b). bo_text e \<noteq> []) \<and>
     (\<forall>es \<in> set (ob_emitted b). batch_ok b es)"

text \<open>Between pushes, buffered output always has a flush scheduled.\<close>

definition ob_idle_inv :: "output_event_buffer \<Rightarrow> bool" where
  "ob_idle_inv b \<longleftrightarrow> ob_inv b \<and> (ob_entries b \<noteq> [] \<longrightarrow> ob_timer b)"


section \<open>Chunking\<close>

lemma high_not_low: "high_surrogate u \<Longrightarrow> \<not> low_surrogate u"
  unfolding high_surrogate_def low_surrogate_def
  by (simp add: word_le_nat_alt)

lemma chunk_end_bounds:
  assumes "offset < length t" and "0 < capacity"
  shows "offset < chunkEndWithoutSplittingSurrogate t offset capacity"
    and "chunkEndWithoutSplittingSurrogate t offset capacity \<le> length t"
    and "chunkEndWithoutSplittingSurrogate t offset capacity \<le> Suc (offset + capacity)"
  using assms by (auto simp: chunkEndWithoutSplittingSurrogate_def Let_def)

lemma wf_utf16_append: "wf_utf16 xs \<Longrightarrow> wf_utf16 ys \<Longrightarrow> wf_utf16 (xs @ ys)"
proof (induction xs rule: wf_utf16.induct)
  case (2 u)
  then show ?case by (cases ys) auto
qed (auto split: if_splits)

definition splits_pair :: "js_text \<Rightarrow> nat \<Rightarrow> bool" where
  "splits_pair t k \<longleftrightarrow> 0 < k \<and> k < length t \<and> high_surrogate (t ! (k - 1)) \<and> low_surrogate (t ! k)"

lemma wf_utf16_split:
  "wf_utf16 t \<Longrightarrow> \<not> splits_pair t k \<Longrightarrow> wf_utf16 (take k t) \<and> wf_utf16 (drop k t)"
proof (induction t arbitrary: k rule: wf_utf16.induct)
  case 1
  then show ?case by simp
next
  case (2 u)
  then show ?case by (cases k) auto
next
  case (3 u v us)
  show ?case
  proof (cases "high_surrogate u")
    case True
    with 3 have lv: "low_surrogate v" and wf: "wf_utf16 us" by auto
    consider "k = 0" | "k = 1" | j where "k = Suc (Suc j)"
      by (metis One_nat_def not0_implies_Suc)
    then show ?thesis
    proof cases
      case 1
      with "3.prems" show ?thesis by simp
    next
      case 2
      with True lv "3.prems"(2) show ?thesis by (simp add: splits_pair_def)
    next
      case k: 3
      have "\<not> splits_pair us j"
        using "3.prems"(2) k by (auto simp: splits_pair_def nth_Cons split: nat.splits)
      with "3.IH"(1) [OF True wf] True lv k show ?thesis by simp
    qed
  next
    case False
    with 3 have nl: "\<not> low_surrogate u" and wf: "wf_utf16 (v # us)" by auto
    show ?thesis
    proof (cases k)
      case 0
      with "3.prems" show ?thesis by simp
    next
      case (Suc j)
      have "\<not> splits_pair (v # us) j"
        using "3.prems"(2) Suc by (auto simp: splits_pair_def nth_Cons split: nat.splits)
      with "3.IH"(2) [OF False wf] have "wf_utf16 (take j (v # us)) \<and> wf_utf16 (drop j (v # us))"
        by blast
      with Suc False nl show ?thesis
        by (cases j) auto
    qed
  qed
qed

lemma chunk_end_no_split:
  assumes "offset < length t" and "0 < capacity"
  shows "\<not> splits_pair (drop offset t) (chunkEndWithoutSplittingSurrogate t offset capacity - offset)"
proof -
  define e where "e = min (length t) (offset + capacity)"
  have e: "offset < e" "e \<le> length t" using assms by (auto simp: e_def)
  show ?thesis
  proof (cases "e < length t \<and> high_surrogate (t ! (e - 1)) \<and> low_surrogate (t ! e)")
    case False
    then have "chunkEndWithoutSplittingSurrogate t offset capacity = e"
      by (auto simp: chunkEndWithoutSplittingSurrogate_def e_def [symmetric])
    with False e show ?thesis by (auto simp: splits_pair_def)
  next
    case True
    then have hl: "high_surrogate (t ! (e - 1))" "low_surrogate (t ! e)" "e < length t" by auto
    show ?thesis
    proof (cases "e - offset = 1")
      case one: True
      then have "chunkEndWithoutSplittingSurrogate t offset capacity = e + 1"
        using True e by (auto simp: chunkEndWithoutSplittingSurrogate_def e_def [symmetric])
      moreover have "e + 1 - offset - 1 + offset = e" using one e by simp
      ultimately show ?thesis using hl high_not_low e
        by (auto simp: splits_pair_def)
    next
      case more: False
      then have "chunkEndWithoutSplittingSurrogate t offset capacity = e - 1"
        using True e by (auto simp: chunkEndWithoutSplittingSurrogate_def e_def [symmetric])
      moreover have "offset + (e - 1 - offset) = e - 1" using e by simp
      ultimately show ?thesis using hl high_not_low e
        by (auto simp: splits_pair_def)
    qed
  qed
qed

lemma chunk_wf:
  assumes "offset < length t" and "0 < capacity" and "wf_utf16 (drop offset t)"
  defines "e \<equiv> chunkEndWithoutSplittingSurrogate t offset capacity"
  shows "wf_utf16 (drop offset (take e t))" and "wf_utf16 (drop e t)"
proof -
  have "offset < e" using chunk_end_bounds(1) assms by simp
  moreover have "wf_utf16 (take (e - offset) (drop offset t)) \<and> wf_utf16 (drop (e - offset) (drop offset t))"
    using wf_utf16_split [OF assms(3)] chunk_end_no_split [OF assms(1,2)] by (simp add: e_def)
  ultimately show "wf_utf16 (drop offset (take e t))" and "wf_utf16 (drop e t)"
    by (simp_all add: drop_take)
qed

section \<open>Batches\<close>

lemma units_of_append [simp]: "units_of (xs @ ys) = units_of xs @ units_of ys"
  by (simp add: units_of_def)

lemma units_of_Nil [simp]: "units_of [] = []"
  by (simp add: units_of_def)

lemma units_of_Cons: "units_of (e # es) = map (Pair (bo_stream e)) (bo_text e) @ units_of es"
  by (simp add: units_of_def)

lemma units_of_add_piece [simp]: "units_of (add_piece s p es) = units_of es @ map (Pair s) p"
proof (cases "es \<noteq> [] \<and> bo_stream (last es) = s")
  case True
  then have "units_of es = units_of (butlast es) @ map (Pair s) (bo_text (last es))"
    by (metis append_butlast_last_id units_of_append units_of_Cons units_of_Nil append_Nil2)
  with True show ?thesis by (simp add: add_piece_def units_of_Cons)
next
  case False
  then show ?thesis by (auto simp: add_piece_def units_of_Cons)
qed

lemma streams_alternate_snoc:
  "streams_alternate (es @ [e]) \<longleftrightarrow>
     streams_alternate es \<and> (es \<noteq> [] \<longrightarrow> bo_stream (last es) \<noteq> bo_stream e)"
  by (induction es rule: streams_alternate.induct) auto

lemma streams_alternate_add_piece:
  assumes "streams_alternate es"
  shows "streams_alternate (add_piece s p es)"
proof (cases "es \<noteq> [] \<and> bo_stream (last es) = s")
  case True
  with assms streams_alternate_snoc [of "butlast es" "last es"]
  show ?thesis by (simp add: add_piece_def streams_alternate_snoc)
next
  case False
  with assms show ?thesis by (auto simp: add_piece_def streams_alternate_snoc)
qed

lemma add_piece_nonempty:
  "\<forall>e \<in> set es. bo_text e \<noteq> [] \<Longrightarrow> p \<noteq> [] \<Longrightarrow> e \<in> set (add_piece s p es) \<Longrightarrow> bo_text e \<noteq> []"
  by (auto simp: add_piece_def split: if_splits dest: in_set_butlastD)

lemma length_add_piece: "length (add_piece s p es) \<le> Suc (length es)"
  by (simp add: add_piece_def)

lemma add_piece_wf:
  "\<forall>e \<in> set es. wf_utf16 (bo_text e) \<Longrightarrow> wf_utf16 p \<Longrightarrow> e \<in> set (add_piece s p es) \<Longrightarrow> wf_utf16 (bo_text e)"
  by (auto simp: add_piece_def wf_utf16_append split: if_splits dest: in_set_butlastD)

lemma add_piece_not_Nil [simp]: "add_piece s p es \<noteq> []"
  by (simp add: add_piece_def)


section \<open>Every operation keeps the invariant\<close>

lemma ob_flush_config [simp]:
  "ob_maxChars (ob_flush b) = ob_maxChars b" "ob_maxEntries (ob_flush b) = ob_maxEntries b"
  "ob_entries (ob_flush b) = []" "\<not> ob_timer (ob_flush b)"
  by (simp_all add: ob_flush_def Let_def)

lemma ob_content_flush [simp]: "ob_content (ob_flush b) = ob_content b"
  by (simp add: ob_flush_def ob_content_def Let_def)

lemma batch_ok_cong:
  "ob_maxChars b = ob_maxChars c \<Longrightarrow> ob_maxEntries b = ob_maxEntries c \<Longrightarrow> batch_ok b es = batch_ok c es"
  by (simp add: batch_ok_def)

lemma ob_flush_inv:
  assumes "ob_inv b"
  shows "ob_inv (ob_flush b)"
proof (cases "ob_entries b = []")
  case True
  with assms show ?thesis by (simp add: ob_flush_def ob_inv_def ob_full_def batch_ok_def)
next
  case False
  with assms have "batch_ok b (ob_entries b)" by (auto simp: ob_inv_def batch_ok_def ob_full_def)
  with False assms show ?thesis
    by (auto simp: ob_flush_def Let_def ob_inv_def ob_full_def batch_ok_def)
qed

lemma ob_take_bounds:
  assumes "ob_inv b" and "offset < length t"
  shows "offset < snd (ob_take s t offset b)" and "snd (ob_take s t offset b) \<le> length t"
    and "snd (ob_take s t offset b) \<le> Suc (offset + (ob_maxChars b - ob_bufferedChars b))"
  using assms chunk_end_bounds [of offset t "ob_maxChars b - ob_bufferedChars b"]
  by (auto simp: ob_take_def Let_def ob_inv_def ob_full_def)

lemma ob_take_content:
  assumes "ob_inv b" and "offset < length t"
  shows "ob_content (fst (ob_take s t offset b)) @ map (Pair s) (drop (snd (ob_take s t offset b)) t) =
         ob_content b @ map (Pair s) (drop offset t)"
proof -
  let ?e = "snd (ob_take s t offset b)"
  have e: "offset < ?e" by (rule ob_take_bounds [OF assms])
  then have "drop offset t = drop offset (take ?e t) @ drop ?e t"
    by (metis append_take_drop_id drop_take le_add_diff_inverse2 less_imp_le drop_drop)
  moreover have "ob_content (fst (ob_take s t offset b)) =
      ob_content b @ map (Pair s) (drop offset (take ?e t))"
    by (simp add: ob_take_def Let_def) (simp add: ob_content_def)
  ultimately show ?thesis by (simp flip: map_append)
qed

lemma batch_ok_add_piece:
  assumes "ob_inv b" and "p \<noteq> []" and "length p \<le> Suc (ob_maxChars b - ob_bufferedChars b)"
    and "length (ob_entries b) < ob_maxEntries b"
  shows "batch_ok b (add_piece s p (ob_entries b))"
proof -
  have "\<forall>e \<in> set (add_piece s p (ob_entries b)). bo_text e \<noteq> []"
    using assms(1,2) by (intro ballI) (rule add_piece_nonempty, auto simp: ob_inv_def)
  moreover have "length (units_of (ob_entries b)) + length p \<le> Suc (ob_maxChars b)"
    using assms(1,3) by (auto simp: ob_inv_def ob_full_def)
  ultimately show ?thesis
    using assms(1,4) length_add_piece [of s p "ob_entries b"]
    by (simp add: batch_ok_def ob_inv_def streams_alternate_add_piece)
qed

text \<open>The buffer while a piece is being added, before the flush that may follow.\<close>

lemma ob_take_inv:
  assumes inv: "ob_inv b" and off: "offset < length t"
  shows "ob_inv (fst (ob_take s t offset b))"
proof -
  let ?e = "chunkEndWithoutSplittingSurrogate t offset (ob_maxChars b - ob_bufferedChars b)"
  let ?p = "drop offset (take ?e t)"
  define b1 where "b1 = b\<lparr>ob_entries := add_piece s ?p (ob_entries b),
                          ob_bufferedChars := ob_bufferedChars b + length ?p\<rparr>"
  have cap: "ob_bufferedChars b < ob_maxChars b" "length (ob_entries b) < ob_maxEntries b"
    using inv by (auto simp: ob_inv_def ob_full_def)
  then have e: "offset < ?e" "?e \<le> length t" "?e \<le> Suc (offset + (ob_maxChars b - ob_bufferedChars b))"
    using chunk_end_bounds [OF off, of "ob_maxChars b - ob_bufferedChars b"] by simp_all
  then have p: "?p \<noteq> []" "length ?p \<le> Suc (ob_maxChars b - ob_bufferedChars b)"
    by auto
  have "batch_ok b (add_piece s ?p (ob_entries b))" using inv p cap(2)
    by (rule batch_ok_add_piece)
  then have ok: "batch_ok b (ob_entries b1)" by (simp add: b1_def)
  have eq: "fst (ob_take s t offset b) = (if ob_full b1 then ob_flush b1 else b1)"
    by (simp add: ob_take_def Let_def b1_def)
  show ?thesis
  proof (cases "ob_full b1")
    case True
    have "ob_entries b1 \<noteq> []" by (simp add: b1_def)
    with ok inv True eq show ?thesis
      by (auto simp: ob_flush_def Let_def ob_inv_def ob_full_def batch_ok_def b1_def)
  next
    case False
    with ok inv eq show ?thesis
      by (auto simp: ob_inv_def batch_ok_def b1_def)
  qed
qed

lemma ob_take_config [simp]:
  "ob_maxChars (fst (ob_take s t offset b)) = ob_maxChars b"
  "ob_maxEntries (fst (ob_take s t offset b)) = ob_maxEntries b"
  by (simp_all add: ob_take_def Let_def)

text \<open>The loop of \<open>push\<close> ends, keeps the invariant and adds exactly the pushed text.\<close>

lemma ob_push_loop_total:
  assumes "ob_inv b"
  shows "\<exists>c. ob_push_loop s t offset b = Some c \<and> ob_inv c \<and>
             ob_content c = ob_content b @ map (Pair s) (drop offset t)"
  using assms
proof (induction "length t - offset" arbitrary: offset b rule: less_induct)
  case less
  show ?case
  proof (cases "offset < length t")
    case False
    with less.prems show ?thesis by (simp add: ob_push_loop.simps)
  next
    case True
    let ?c = "fst (ob_take s t offset b)" and ?e = "snd (ob_take s t offset b)"
    have nf: "\<not> ob_full b" using less.prems by (simp add: ob_inv_def)
    have "length t - ?e < length t - offset"
      using ob_take_bounds(1) [OF less.prems True, of s] True by linarith
    then obtain c where "ob_push_loop s t ?e ?c = Some c" "ob_inv c"
        "ob_content c = ob_content ?c @ map (Pair s) (drop ?e t)"
      using less.hyps ob_take_inv [OF less.prems True] by blast
    with True nf show ?thesis
      by (simp add: ob_push_loop.simps [of s t offset b] ob_take_content [OF less.prems True])
  qed
qed

lemma ob_event_total:
  assumes "ob_idle_inv b"
  shows "\<exists>c. ob_event b e = Some c \<and> ob_idle_inv c \<and> ob_content c = ob_content b @ pushed_units [e]"
proof (cases e)
  case (Push s t)
  obtain c where c: "ob_push_loop s t 0 b = Some c" "ob_inv c"
      "ob_content c = ob_content b @ map (Pair s) t"
    using ob_push_loop_total [of b s t 0] assms by (auto simp: ob_idle_inv_def)
  have "ob_idle_inv (c\<lparr>ob_timer := True\<rparr>)" if "ob_entries c \<noteq> []"
    using c(2) that by (simp add: ob_idle_inv_def ob_inv_def ob_full_def batch_ok_def)
  moreover have "ob_content (c\<lparr>ob_timer := True\<rparr>) = ob_content c"
    by (simp add: ob_content_def)
  ultimately show ?thesis
    using c assms Push by (auto simp: ob_push_def ob_idle_inv_def)
next
  case TimerFires
  with assms show ?thesis by (auto simp: ob_idle_inv_def ob_flush_inv)
next
  case FlushCall
  with assms show ?thesis by (auto simp: ob_idle_inv_def ob_flush_inv)
qed

lemma ob_run_total:
  assumes "ob_idle_inv b"
  shows "\<exists>c. ob_run b es = Some c \<and> ob_idle_inv c \<and> ob_content c = ob_content b @ pushed_units es"
  using assms
proof (induction es arbitrary: b)
  case Nil
  then show ?case by simp
next
  case (Cons e es)
  obtain c where c: "ob_event b e = Some c" "ob_idle_inv c" "ob_content c = ob_content b @ pushed_units [e]"
    using ob_event_total [OF Cons.prems] by blast
  moreover have "pushed_units (e # es) = pushed_units [e] @ pushed_units es"
    by (cases e) simp_all
  ultimately show ?case using Cons.IH [OF c(2)] by auto
qed

lemma new_output_buffer_inv: "ob_idle_inv (new_output_buffer d c e)"
  by (auto simp: ob_idle_inv_def ob_inv_def new_output_buffer_def ob_full_def)

lemma new_output_buffer_content [simp]: "ob_content (new_output_buffer d c e) = []"
  by (simp add: ob_content_def new_output_buffer_def)


section \<open>No batch carries half a surrogate pair\<close>

definition ob_wf :: "output_event_buffer \<Rightarrow> bool" where
  "ob_wf b \<longleftrightarrow> (\<forall>e \<in> set (concat (ob_emitted b)) \<union> set (ob_entries b). wf_utf16 (bo_text e))"

lemma ob_flush_wf: "ob_wf b \<Longrightarrow> ob_wf (ob_flush b)"
  by (auto simp: ob_wf_def ob_flush_def Let_def)

lemma ob_take_wf:
  assumes "ob_inv b" and "offset < length t" and "ob_wf b" and "wf_utf16 (drop offset t)"
  shows "ob_wf (fst (ob_take s t offset b))" and "wf_utf16 (drop (snd (ob_take s t offset b)) t)"
proof -
  let ?e = "chunkEndWithoutSplittingSurrogate t offset (ob_maxChars b - ob_bufferedChars b)"
  have "0 < ob_maxChars b - ob_bufferedChars b" using assms(1) by (auto simp: ob_inv_def ob_full_def)
  note wf = chunk_wf [OF assms(2) this assms(4)]
  define b1 where "b1 = b\<lparr>ob_entries := add_piece s (drop offset (take ?e t)) (ob_entries b),
      ob_bufferedChars := ob_bufferedChars b + length (drop offset (take ?e t))\<rparr>"
  have "ob_wf b1" using assms(3) wf(1) by (auto simp: ob_wf_def b1_def dest: add_piece_wf [rotated -1])
  moreover have "fst (ob_take s t offset b) = (if ob_full b1 then ob_flush b1 else b1)"
    by (simp add: ob_take_def Let_def b1_def)
  ultimately show "ob_wf (fst (ob_take s t offset b))" by (simp add: ob_flush_wf)
  show "wf_utf16 (drop (snd (ob_take s t offset b)) t)"
    using wf(2) by (simp add: ob_take_def Let_def)
qed

lemma ob_push_loop_wf:
  assumes "ob_inv b" and "ob_wf b" and "wf_utf16 (drop offset t)" and "ob_push_loop s t offset b = Some c"
  shows "ob_wf c"
  using assms
proof (induction "length t - offset" arbitrary: offset b rule: less_induct)
  case less
  show ?case
  proof (cases "offset < length t")
    case False
    with less.prems show ?thesis by (simp add: ob_push_loop.simps)
  next
    case True
    have nf: "\<not> ob_full b" using less.prems by (simp add: ob_inv_def)
    have step: "ob_push_loop s t (snd (ob_take s t offset b)) (fst (ob_take s t offset b)) = Some c"
      using less.prems(4) True nf by (simp add: ob_push_loop.simps [of s t offset b])
    have "length t - snd (ob_take s t offset b) < length t - offset"
      using ob_take_bounds(1) [OF less.prems(1) True, of s] True by linarith
    from less.hyps [OF this ob_take_inv [OF less.prems(1) True]
        ob_take_wf [OF less.prems(1) True less.prems(2,3)] step]
    show ?thesis .
  qed
qed

fun pushes_wf :: "buffer_event \<Rightarrow> bool" where
  "pushes_wf (Push s t) = wf_utf16 t"
| "pushes_wf _ = True"

lemma ob_event_wf:
  assumes "ob_idle_inv b" and "ob_wf b" and "pushes_wf e" and "ob_event b e = Some c"
  shows "ob_wf c"
proof (cases e)
  case (Push s t)
  show ?thesis
  proof (cases "t = []")
    case True
    with assms Push show ?thesis by (simp add: ob_push_def)
  next
    case False
    with assms(4) Push obtain d where d: "ob_push_loop s t 0 b = Some d"
        "c = (if ob_entries d = [] \<or> ob_timer d then d else d\<lparr>ob_timer := True\<rparr>)"
      by (auto simp: ob_push_def)
    have "ob_wf d" using ob_push_loop_wf [OF _ assms(2) _ d(1)] assms Push
      by (simp add: ob_idle_inv_def)
    with d(2) show ?thesis by (simp add: ob_wf_def)
  qed
qed (use assms in \<open>auto simp: ob_flush_wf\<close>)

lemma ob_run_wf:
  "ob_idle_inv b \<Longrightarrow> ob_wf b \<Longrightarrow> list_all pushes_wf es \<Longrightarrow> ob_run b es = Some c \<Longrightarrow> ob_wf c"
proof (induction es arbitrary: b)
  case Nil
  then show ?case by simp
next
  case (Cons e es)
  then obtain d where d: "ob_event b e = Some d" "ob_run d es = Some c"
    by (auto split: option.splits)
  moreover have "ob_idle_inv d" using ob_event_total [OF Cons.prems(1), of e] d(1) by auto
  moreover have "ob_wf d" using ob_event_wf Cons.prems d(1) by auto
  ultimately show ?case using Cons.IH Cons.prems by auto
qed

section \<open>Properties of a run of the buffer\<close>

lemma ob_push_loop_config:
  "ob_inv b \<Longrightarrow> ob_push_loop s t offset b = Some c \<Longrightarrow>
   ob_maxChars c = ob_maxChars b \<and> ob_maxEntries c = ob_maxEntries b"
proof (induction "length t - offset" arbitrary: offset b rule: less_induct)
  case less
  show ?case
  proof (cases "offset < length t")
    case False
    with less.prems show ?thesis by (simp add: ob_push_loop.simps)
  next
    case True
    have nf: "\<not> ob_full b" using less.prems by (simp add: ob_inv_def)
    have step: "ob_push_loop s t (snd (ob_take s t offset b)) (fst (ob_take s t offset b)) = Some c"
      using less.prems(2) True nf by (simp add: ob_push_loop.simps [of s t offset b])
    have "length t - snd (ob_take s t offset b) < length t - offset"
      using ob_take_bounds(1) [OF less.prems(1) True, of s] True by linarith
    from less.hyps [OF this ob_take_inv [OF less.prems(1) True] step] show ?thesis by simp
  qed
qed

lemma ob_event_config:
  "ob_idle_inv b \<Longrightarrow> ob_event b e = Some c \<Longrightarrow>
   ob_maxChars c = ob_maxChars b \<and> ob_maxEntries c = ob_maxEntries b"
  by (cases e) (auto simp: ob_push_def ob_idle_inv_def dest: ob_push_loop_config split: if_splits)

lemma ob_run_config:
  "ob_idle_inv b \<Longrightarrow> ob_run b es = Some c \<Longrightarrow>
   ob_maxChars c = ob_maxChars b \<and> ob_maxEntries c = ob_maxEntries b"
proof (induction es arbitrary: b)
  case (Cons e es)
  then obtain d where d: "ob_event b e = Some d" "ob_run d es = Some c"
    by (auto split: option.splits)
  moreover have "ob_idle_inv d" using ob_event_total [OF Cons.prems(1), of e] d(1) by auto
  ultimately show ?case using Cons.IH ob_event_config [OF Cons.prems(1) d(1)] by auto
qed simp

lemma ob_close_content [simp]: "units_of (concat (ob_emitted (ob_close b))) = ob_content b"
  by (simp add: ob_close_def ob_flush_def ob_content_def Let_def)

text \<open>C2. For every setting and every interleaving of pushes, timer firings and explicit flushes the
  loop of push ends, and the batches handed to the daemon by the final close carry exactly the pushed
  characters of both streams, in order: nothing is lost, repeated or reordered.\<close>

theorem output_buffer_lossless:
  "\<exists>c. ob_run (new_output_buffer delay chars entries) es = Some c \<and>
       units_of (concat (ob_emitted (ob_close c))) = pushed_units es"
  using ob_run_total [OF new_output_buffer_inv [of delay chars entries], of es] by auto

text \<open>Between two events a flush is scheduled exactly when output is buffered, and every batch ever
  emitted is non-empty, holds no empty entry, alternates between the streams, respects the entry
  limit and exceeds the character limit by at most the one unit that completes a surrogate pair.\<close>

theorem output_buffer_batches:
  "\<exists>c. ob_run (new_output_buffer delay chars entries) es = Some c \<and>
       (ob_timer c \<longleftrightarrow> ob_entries c \<noteq> []) \<and>
       list_all (batch_ok (new_output_buffer delay chars entries)) (ob_emitted (ob_close c))"
proof -
  let ?b = "new_output_buffer delay chars entries"
  obtain c where c: "ob_run ?b es = Some c" "ob_idle_inv c"
    using ob_run_total [OF new_output_buffer_inv] by blast
  have cfg: "ob_maxChars c = ob_maxChars ?b" "ob_maxEntries c = ob_maxEntries ?b"
    using ob_run_config [OF new_output_buffer_inv c(1)] by simp_all
  have "ob_inv (ob_flush c)" using c(2) by (simp add: ob_idle_inv_def ob_flush_inv)
  then have "list_all (batch_ok (ob_flush c)) (ob_emitted (ob_close c))"
    by (simp add: ob_inv_def ob_close_def list_all_iff)
  moreover have "batch_ok (ob_flush c) = batch_ok ?b"
    using cfg by (intro ext batch_ok_cong) simp_all
  moreover have "ob_timer c \<longleftrightarrow> ob_entries c \<noteq> []" using c(2) by (auto simp: ob_idle_inv_def ob_inv_def)
  ultimately show ?thesis using c(1) by metis
qed

text \<open>When every pushed text is well-formed UTF-16, so is every entry of every batch: chunking
  never separates the two halves of a surrogate pair, whatever the limits and the flush times.\<close>

theorem output_buffer_utf16:
  assumes "list_all pushes_wf es"
    and "ob_run (new_output_buffer delay chars entries) es = Some c"
  shows "list_all (\<lambda>e. wf_utf16 (bo_text e)) (concat (ob_emitted (ob_close c)))"
proof -
  have "ob_wf (new_output_buffer delay chars entries)" by (simp add: ob_wf_def new_output_buffer_def)
  from ob_flush_wf [OF ob_run_wf [OF new_output_buffer_inv this assms]]
  show ?thesis by (auto simp: ob_wf_def ob_close_def list_all_iff)
qed

theorem output_buffer_utf16_witness:
  "\<exists>c. ob_run (new_output_buffer None (Some 1) None) [Push Stdout [0xD83D, 0xDE00, 0x41]] = Some c \<and>
       list_all (\<lambda>e. wf_utf16 (bo_text e)) (concat (ob_emitted (ob_close c)))"
proof -
  let ?es = "[Push Stdout [0xD83D, 0xDE00, 0x41]]"
  obtain c where "ob_run (new_output_buffer None (Some 1) None) ?es = Some c"
    using ob_run_total [OF new_output_buffer_inv] by blast
  moreover have "list_all pushes_wf ?es"
    by (simp add: high_surrogate_def low_surrogate_def word_le_nat_alt)
  ultimately show ?thesis using output_buffer_utf16 by blast
qed

end
