(* ===== verification/Text_Capture.thy ===== *)
theory Text_Capture
  imports Relay_Prelude
begin

text \<open>
  Bounded transcript capture: \<open>packages/relay-daemon/src/bounded-text.ts\<close> and the budget it
  shares with the run log, \<open>agentTranscriptLimit\<close> and \<open>agentResultLog\<close> of
  \<open>packages/relay-core/src/nodes.ts\<close>. The captured text is a list over any unit type, since
  the class only measures and cuts it.
\<close>

definition DEFAULT_AGENT_TRANSCRIPT_LIMIT :: int where
  "DEFAULT_AGENT_TRANSCRIPT_LIMIT = 262144"

text \<open>\<open>None\<close> is a missing or non-numeric setting; \<open>0\<close> is falsy like \<open>NaN\<close>.\<close>

definition agentTranscriptLimit :: "int option \<Rightarrow> int" where
  "agentTranscriptLimit env =
     (case env of None \<Rightarrow> DEFAULT_AGENT_TRANSCRIPT_LIMIT
      | Some n \<Rightarrow> if n = 0 then DEFAULT_AGENT_TRANSCRIPT_LIMIT else n)"

record 'c bounded_text_capture =
  cap_text :: "'c list"
  cap_limit :: int

definition new_capture :: "int \<Rightarrow> 'c bounded_text_capture" where
  "new_capture limit = \<lparr>cap_text = [], cap_limit = limit\<rparr>"

definition capture_append :: "'c bounded_text_capture \<Rightarrow> 'c list \<Rightarrow> 'c bounded_text_capture" where
  "capture_append c value =
     (if value = [] then c
      else if cap_limit c \<le> int (length value)
      then c\<lparr>cap_text := js_slice (- cap_limit c) value\<rparr>
      else let t = cap_text c @ value
           in c\<lparr>cap_text := (if cap_limit c < int (length t) then js_slice (- cap_limit c) t else t)\<rparr>)"

definition capture_toString :: "'c bounded_text_capture \<Rightarrow> 'c list" where
  "capture_toString c = cap_text c"

definition capture_all :: "int \<Rightarrow> 'c list list \<Rightarrow> 'c bounded_text_capture" where
  "capture_all limit chunks = foldl capture_append (new_capture limit) chunks"

lemma capture_append_limit [simp]: "cap_limit (capture_append c v) = cap_limit c"
  by (simp add: capture_append_def Let_def)

lemma capture_append_text:
  assumes "0 < n" and "cap_limit c = int n" and "cap_text c = js_slice (- int n) xs"
  shows "cap_text (capture_append c v) = js_slice (- int n) (xs @ v)"
proof (cases "v = [] \<or> n \<le> length v")
  case True
  with assms show ?thesis
    by (auto simp: capture_append_def js_slice_neg_skip)
next
  case False
  then have "cap_text (capture_append c v) =
      js_slice (- int n) (js_slice (- int n) xs @ v)"
    using assms by (auto simp: capture_append_def Let_def js_slice_neg_short)
  with assms(1) show ?thesis by (simp add: js_slice_neg_append)
qed

lemma foldl_capture_text:
  assumes "0 < n" and "cap_limit c = int n" and "cap_text c = js_slice (- int n) xs"
  shows "cap_text (foldl capture_append c chunks) = js_slice (- int n) (xs @ concat chunks)"
  using assms(2,3)
proof (induction chunks arbitrary: c xs)
  case Nil
  then show ?case by simp
next
  case (Cons v chunks)
  then have "cap_text (capture_append c v) = js_slice (- int n) (xs @ v)"
    using assms(1) by (intro capture_append_text)
  with Cons show ?case by simp
qed

text \<open>The run log keeps the same tail of each stream.\<close>

record exec_result =
  exit_code :: int
  exec_stdout :: string
  exec_stderr :: string
  error_message :: "string option"

definition agentResultLog :: "string \<Rightarrow> exec_result \<Rightarrow> int \<Rightarrow> string" where
  "agentResultLog label r limit = js_join newline
     ([''['' @ label @ '' Exit '' @ show_int (exit_code r) @ '']'']
      @ (if js_truthy (error_message r) then [''Error: '' @ the (error_message r)] else [])
      @ (if js_trim (exec_stderr r) \<noteq> []
         then [''stderr:'' @ newline @ js_slice (- limit) (exec_stderr r)] else [])
      @ (if js_trim (exec_stdout r) \<noteq> []
         then [''stdout:'' @ newline @ js_slice (- limit) (exec_stdout r)] else []))"

lemma capture_all_text:
  "0 < n \<Longrightarrow> cap_text (capture_all (int n) chunks) = js_slice (- int n) (concat chunks)"
  using foldl_capture_text [of n "new_capture (int n)" "[]" chunks]
  by (simp add: capture_all_def new_capture_def js_slice_neg_short)

section \<open>Properties\<close>

text \<open>Whatever the chunks, a capture with a positive limit holds the last \<open>n\<close> characters of the
  stream: a suffix of it of length \<open>min n total\<close>, and the run log it produces shows the stream it
  would show had the whole stream been kept, for every stream whose tail is not blank.\<close>

theorem bounded_capture_is_tail:
  assumes "0 < n" and "js_trim (js_slice (- int n) (concat outs)) \<noteq> []" and "js_trim (concat outs) \<noteq> []"
  shows "capture_toString (capture_all (int n) outs) = js_slice (- int n) (concat outs) \<and>
         suffix (capture_toString (capture_all (int n) outs)) (concat outs) \<and>
         length (capture_toString (capture_all (int n) outs)) = min n (length (concat outs)) \<and>
         agentResultLog label (r\<lparr>exec_stdout := capture_toString (capture_all (int n) outs)\<rparr>) (int n) =
         agentResultLog label (r\<lparr>exec_stdout := concat outs\<rparr>) (int n)"
proof -
  have t: "capture_toString (capture_all (int n) outs) = js_slice (- int n) (concat outs)"
    using assms(1) by (simp add: capture_toString_def capture_all_text)
  have "js_slice (- int n) (js_slice (- int n) (concat outs)) = js_slice (- int n) (concat outs)"
    using assms(1) by (intro js_slice_neg_short) simp_all
  moreover have "suffix (js_slice (- int n) (concat outs)) (concat outs)"
    by (simp add: js_slice_def suffix_drop)
  ultimately show ?thesis using assms t by (simp add: agentResultLog_def)
qed

theorem bounded_capture_is_tail_witness:
  "capture_toString (capture_all 3 [''ab'', [], ''cde'', ''f'']) = ''def''"
  using bounded_capture_is_tail [of 3 "[''ab'', [], ''cde'', ''f'']"]
  by (simp add: js_slice_def js_trim_def js_space_def)

text \<open>A negative setting is not rejected: it makes the capture drop the head of each chunk.\<close>

lemma negative_limit_drops_head:
  "agentTranscriptLimit (Some (- 2)) = - 2 \<and> capture_toString (capture_all (- 2) [''abcde'']) = ''cde''"
  by (simp add: agentTranscriptLimit_def capture_toString_def capture_all_def new_capture_def
      capture_append_def js_slice_def)

end
