(* ===== verification/Js_Json.thy ===== *)
theory Js_Json
  imports Relay_Prelude Complex_Main
begin

text \<open>
  Parsed JSON values and the field reads the packages make on them. \<open>JSON.parse\<close> itself is an
  argument of the definitions that call it (\<open>None\<close> is the thrown \<open>SyntaxError\<close>), so that what
  is proved holds for whatever the parser returns. Numbers are rationals. Objects are
  association lists with the fields in insertion order.
\<close>

datatype json =
    JNull
  | JBool bool
  | JNum rat
  | JStr string
  | JArr "json list"
  | JObj "(string \<times> json) list"

type_synonym json_parser = "string \<Rightarrow> json option"

text \<open>A missing field reads as \<open>undefined\<close>, here \<open>None\<close>.\<close>

definition json_field :: "(string \<times> json) list \<Rightarrow> string \<Rightarrow> json option" where
  "json_field r k = map_of r k"

text \<open>\<open>a ?? b\<close>: both \<open>undefined\<close> and \<open>null\<close> fall through to the second operand.\<close>

definition json_coalesce :: "json option \<Rightarrow> json option \<Rightarrow> json option" where
  "json_coalesce a b = (case a of None \<Rightarrow> b | Some JNull \<Rightarrow> b | Some v \<Rightarrow> Some v)"

text \<open>\<open>asRecord\<close>, the variant that rejects arrays; anything else is the empty record.\<close>

fun json_record :: "json option \<Rightarrow> (string \<times> json) list" where
  "json_record (Some (JObj r)) = r"
| "json_record _ = []"

fun json_string :: "json option \<Rightarrow> string option" where
  "json_string (Some (JStr s)) = Some s"
| "json_string _ = None"

text \<open>Truth of a value, \<open>null\<close> and \<open>undefined\<close> included, and \<open>record.key === "text"\<close>.\<close>

fun json_truthy :: "json option \<Rightarrow> bool" where
  "json_truthy None = False"
| "json_truthy (Some JNull) = False"
| "json_truthy (Some (JBool b)) = b"
| "json_truthy (Some (JNum n)) = (n \<noteq> 0)"
| "json_truthy (Some (JStr s)) = (s \<noteq> [])"
| "json_truthy (Some (JArr vs)) = True"
| "json_truthy (Some (JObj r)) = True"

definition field_is :: "(string \<times> json) list \<Rightarrow> string \<Rightarrow> string \<Rightarrow> bool" where
  "field_is r k v \<longleftrightarrow> json_field r k = Some (JStr v)"

definition sub_record :: "(string \<times> json) list \<Rightarrow> string \<Rightarrow> (string \<times> json) list" where
  "sub_record r k = json_record (json_field r k)"

text \<open>\<open>String(v)\<close>; \<open>num\<close> prints numbers.\<close>

fun json_text :: "(rat \<Rightarrow> string) \<Rightarrow> json \<Rightarrow> string" where
  "json_text num JNull = ''null''"
| "json_text num (JBool b) = (if b then ''true'' else ''false'')"
| "json_text num (JNum n) = num n"
| "json_text num (JStr s) = s"
| "json_text num (JArr vs) = js_join '','' (map (\<lambda>v. case v of JNull \<Rightarrow> [] | _ \<Rightarrow> json_text num v) vs)"
| "json_text num (JObj r) = ''[object Object]''"

definition text_or :: "(rat \<Rightarrow> string) \<Rightarrow> json option \<Rightarrow> string \<Rightarrow> string" where
  "text_or num v d = (case json_coalesce v None of None \<Rightarrow> d | Some w \<Rightarrow> json_text num w)"

text \<open>
  Members every JavaScript object inherits from \<open>Object.prototype\<close>: a read \<open>table[key]\<close> of an
  object literal with one of these keys is not \<open>undefined\<close>.
\<close>

definition object_prototype_members :: "string list" where
  "object_prototype_members =
     [''constructor'', ''__defineGetter__'', ''__defineSetter__'', ''hasOwnProperty'',
      ''__lookupGetter__'', ''__lookupSetter__'', ''isPrototypeOf'', ''propertyIsEnumerable'',
      ''toString'', ''valueOf'', ''__proto__'', ''toLocaleString'']"

end
