(* ===== verification/Line_Stream.thy ===== *)
theory Line_Stream
  imports Relay_Prelude
begin

text \<open>
  The line splitting loop shared by the streaming parsers of relay-core
  (\<open>JsonLineRenderer.feed\<close>, \<open>StderrLineRenderer.feed\<close> and \<open>CodexCollaborationStream.feed\<close>):
  text is appended to a buffer and every complete line is cut off, trimmed and handled. The
  locale states what a line handler promises; the lemmas in it say that the way the text was
  cut into chunks does not matter.
\<close>

definition LF :: char where "LF = CHR 0x0A"

lemma tl_dropWhile_shorter:
  "x \<in> set xs \<Longrightarrow> length (dropWhile (\<lambda>c. c \<noteq> x) xs) - Suc 0 < length xs"
  by (induction xs) auto

text \<open>\<open>line_loop step buffer s\<close>: outputs, the remaining buffer and the handler's state.\<close>

function line_loop :: "('s \<Rightarrow> string \<Rightarrow> 'o list \<times> 's) \<Rightarrow> string \<Rightarrow> 's \<Rightarrow> 'o list \<times> string \<times> 's" where
  "line_loop step buffer s =
     (if LF \<in> set buffer
      then let line = js_trim (takeWhile (\<lambda>c. c \<noteq> LF) buffer);
               rest = tl (dropWhile (\<lambda>c. c \<noteq> LF) buffer);
               (outs, s1) = step s line;
               (more, b, s2) = line_loop step rest s1
           in (outs @ more, b, s2)
      else ([], buffer, s))"
  by pat_completeness auto
termination
  by (relation "measure (\<lambda>(step, buffer, s). length buffer)") (auto simp: tl_dropWhile_shorter)

declare line_loop.simps [simp del]

definition line_feed ::
  "('s \<Rightarrow> string \<Rightarrow> 'o list \<times> 's) \<Rightarrow> string \<times> 's \<Rightarrow> string \<Rightarrow> 'o list \<times> (string \<times> 's)" where
  "line_feed step st chunk = line_loop step (fst st @ chunk) (snd st)"

fun line_feeds ::
  "('s \<Rightarrow> string \<Rightarrow> 'o list \<times> 's) \<Rightarrow> string \<times> 's \<Rightarrow> string list \<Rightarrow> 'o list \<times> (string \<times> 's)" where
  "line_feeds step st [] = ([], st)"
| "line_feeds step st (c # cs) =
     (let (o1, st1) = line_feed step st c; (o2, st2) = line_feeds step st1 cs in (o1 @ o2, st2))"

section \<open>Facts about the loop\<close>

lemma line_loop_no_LF: "LF \<notin> set buffer \<Longrightarrow> line_loop step buffer s = ([], buffer, s)"
  by (simp add: line_loop.simps)

lemma line_loop_line:
  assumes "LF \<notin> set line"
  shows "line_loop step (line @ LF # rest) s =
    (let (outs, s1) = step s (js_trim line); (more, b, s2) = line_loop step rest s1 in (outs @ more, b, s2))"
proof -
  have "takeWhile (\<lambda>c. c \<noteq> LF) (line @ LF # rest) = line"
    and "dropWhile (\<lambda>c. c \<noteq> LF) (line @ LF # rest) = LF # rest"
    using assms by (auto simp: takeWhile_append dropWhile_append)
  then show ?thesis by (subst line_loop.simps) simp
qed

lemma line_loop_append:
  "line_loop step (xs @ ys) s =
     (let (o1, b1, s1) = line_loop step xs s; (o2, b2, s2) = line_loop step (b1 @ ys) s1
      in (o1 @ o2, b2, s2))"
proof (induction "length xs" arbitrary: xs s rule: less_induct)
  case less
  show ?case
  proof (cases "LF \<in> set xs")
    case False
    then show ?thesis by (simp add: line_loop_no_LF)
  next
    case True
    then obtain line rest where xs: "xs = line @ LF # rest" and l: "LF \<notin> set line"
      by (meson split_list_first)
    have "line_loop step (rest @ ys) t =
        (let (o1, b1, s1) = line_loop step rest t; (o2, b2, s2) = line_loop step (b1 @ ys) s1
         in (o1 @ o2, b2, s2))" for t
      using less.hyps [of rest t] xs by simp
    with xs show ?thesis
      by (simp add: line_loop_line [OF l] split: prod.split)
  qed
qed

lemma line_loop_rest_no_LF: "line_loop step buffer s = (os, b, t) \<Longrightarrow> LF \<notin> set b"
proof (induction "length buffer" arbitrary: buffer s os rule: less_induct)
  case less
  show ?case
  proof (cases "LF \<in> set buffer")
    case False
    with less.prems show ?thesis by (simp add: line_loop_no_LF)
  next
    case True
    then obtain line rest where xs: "buffer = line @ LF # rest" and l: "LF \<notin> set line"
      by (meson split_list_first)
    with less.prems obtain u os' where "line_loop step rest u = (os', b, t)"
      by (auto simp: line_loop_line [OF l] split: prod.splits)
    with less.hyps [of rest] xs show ?thesis by simp
  qed
qed

lemma line_feeds_concat:
  "LF \<notin> set (fst st) \<Longrightarrow> line_feeds step st cs = line_feed step st (concat cs)"
proof (induction cs arbitrary: st)
  case Nil
  then show ?case by (simp add: line_feed_def line_loop_no_LF)
next
  case (Cons c cs)
  obtain o1 b1 s1 where l: "line_loop step (fst st @ c) (snd st) = (o1, b1, s1)"
    by (metis prod_cases3)
  then have "LF \<notin> set b1" by (rule line_loop_rest_no_LF)
  with Cons.IH [of "(b1, s1)"] l show ?case
    using line_loop_append [of step "fst st @ c" "concat cs" "snd st"]
    by (simp add: line_feed_def split: prod.split)
qed

section \<open>The contract of a line handler\<close>

locale line_handler =
  fixes step :: "'s \<Rightarrow> string \<Rightarrow> 'o list \<times> 's"
  assumes step_blank: "step s [] = ([], s)"
begin

text \<open>However the text arrives, the outputs are those of the whole text.\<close>

lemma chunking_irrelevant:
  "concat cs = concat ds \<Longrightarrow> line_feeds step ([], s) cs = line_feeds step ([], s) ds"
  by (simp add: line_feeds_concat)

text \<open>Blank lines, and the carriage return of a CRLF ending, produce nothing.\<close>

lemma blank_line_ignored:
  assumes "LF \<notin> set line" and "js_trim line = []"
  shows "line_feed step ([], s) (line @ LF # rest) = line_feed step ([], s) rest"
  using assms(2) by (simp add: line_feed_def line_loop_line [OF assms(1)] step_blank split: prod.split)

lemma line_trimmed:
  assumes "LF \<notin> set line" and "LF \<notin> set line'" and "js_trim line = js_trim line'"
  shows "line_feed step ([], s) (line @ LF # rest) = line_feed step ([], s) (line' @ LF # rest)"
  using assms(3) by (simp add: line_feed_def line_loop_line [OF assms(1)] line_loop_line [OF assms(2)])

lemma incomplete_line_buffered:
  "LF \<notin> set line \<Longrightarrow> line_feed step ([], s) line = ([], (line, s))"
  by (simp add: line_feed_def line_loop_no_LF)

end

end
