(* ===== verification/Codex_Collaboration.thy ===== *)
theory Codex_Collaboration
  imports Js_Json Line_Stream
begin

text \<open>
  Codex collaboration items: \<open>packages/relay-core/src/codex-collaboration.ts\<close>. Two wire formats
  (the app server's camel case and \<open>exec --json\<close>'s snake case) are normalised into one event.
\<close>

datatype codex_tool = spawnAgent | sendInput | resumeAgent | waitAgent | closeAgent
  | inherited_tool string \<comment> \<open>a member of \<open>Object.prototype\<close> read through the alias table\<close>

datatype codex_call_status = inProgress | call_completed | call_failed

datatype codex_agent_status = pendingInit | agent_running | interrupted | agent_completed | errored
  | agent_shutdown | notFound | inherited_status string

record codex_agent_state =
  cas_status :: codex_agent_status
  cas_message :: "string option"

record codex_event =
  ce_id :: string
  ce_tool :: codex_tool
  ce_status :: codex_call_status
  ce_senderThreadId :: string
  ce_receiverThreadIds :: "string list"
  ce_prompt :: "string option"
  ce_model :: "string option"
  ce_reasoningEffort :: "string option"
  ce_agentsStates :: "(string \<times> codex_agent_state) list"

section \<open>Normalisation\<close>

definition tool_aliases :: "(string \<times> codex_tool) list" where
  "tool_aliases =
     [(''spawnAgent'', spawnAgent), (''spawn_agent'', spawnAgent),
      (''sendInput'', sendInput), (''send_input'', sendInput),
      (''resumeAgent'', resumeAgent), (''resume_agent'', resumeAgent),
      (''wait'', waitAgent),
      (''closeAgent'', closeAgent), (''close_agent'', closeAgent)]"

fun normalizeTool :: "json option \<Rightarrow> codex_tool option" where
  "normalizeTool (Some (JStr v)) =
     (case map_of tool_aliases v of
        Some t \<Rightarrow> Some t
      | None \<Rightarrow> if v \<in> set object_prototype_members then Some (inherited_tool v) else None)"
| "normalizeTool _ = None"

fun normalizeCallStatus :: "json option \<Rightarrow> codex_call_status option" where
  "normalizeCallStatus (Some (JStr v)) =
     (if v = ''inProgress'' \<or> v = ''in_progress'' then Some inProgress
      else if v = ''completed'' then Some call_completed
      else if v = ''failed'' then Some call_failed
      else None)"
| "normalizeCallStatus _ = None"

definition status_aliases :: "(string \<times> codex_agent_status) list" where
  "status_aliases =
     [(''pendingInit'', pendingInit), (''pending_init'', pendingInit),
      (''running'', agent_running), (''interrupted'', interrupted), (''completed'', agent_completed),
      (''errored'', errored), (''shutdown'', agent_shutdown),
      (''notFound'', notFound), (''not_found'', notFound)]"

fun normalizeAgentStatus :: "json option \<Rightarrow> codex_agent_status option" where
  "normalizeAgentStatus (Some (JStr v)) =
     (case map_of status_aliases v of
        Some t \<Rightarrow> Some t
      | None \<Rightarrow> if v \<in> set object_prototype_members then Some (inherited_status v) else None)"
| "normalizeAgentStatus _ = None"

definition stringValue :: "json option \<Rightarrow> string" where
  "stringValue v = (case json_string v of None \<Rightarrow> [] | Some s \<Rightarrow> s)"

text \<open>
  The loop over \<open>Object.entries(agentsStates)\<close>. Assigning to the key \<open>__proto__\<close> of an object
  literal sets its prototype and creates no entry.
\<close>

fun normalize_states ::
  "(string \<times> json) list \<Rightarrow> (string \<times> codex_agent_state) list \<Rightarrow> (string \<times> codex_agent_state) list" where
  "normalize_states [] acc = acc"
| "normalize_states ((tid, v) # rest) acc =
     (let state = json_record (Some v)
      in case normalizeAgentStatus (json_field state ''status'') of
           None \<Rightarrow> normalize_states rest acc
         | Some st \<Rightarrow>
             (if tid = ''__proto__'' then normalize_states rest acc
              else normalize_states rest
                (AList.update tid \<lparr>cas_status = st, cas_message = json_string (json_field state ''message'')\<rparr> acc)))"

fun receiver_ids :: "json option \<Rightarrow> string list" where
  "receiver_ids (Some (JArr vs)) = List.map_filter (\<lambda>v. json_string (Some v)) vs"
| "receiver_ids _ = []"

definition codex_item_event :: "(string \<times> json) list \<Rightarrow> codex_event option" where
  "codex_item_event item =
     (let either = (\<lambda>a b. json_coalesce (json_field item a) (json_field item b));
          id = stringValue (json_field item ''id'');
          sender = stringValue (either ''senderThreadId'' ''sender_thread_id'')
      in if json_field item ''type'' \<notin>
            {Some (JStr ''collabAgentToolCall''), Some (JStr ''collab_agent_tool_call''),
             Some (JStr ''collab_tool_call'')}
         then None
         else case (normalizeTool (json_field item ''tool''), normalizeCallStatus (json_field item ''status'')) of
           (Some tool, Some status) \<Rightarrow>
             (if id = [] \<or> sender = [] then None
              else Some \<lparr>ce_id = id, ce_tool = tool, ce_status = status, ce_senderThreadId = sender,
                ce_receiverThreadIds = receiver_ids (either ''receiverThreadIds'' ''receiver_thread_ids''),
                ce_prompt = json_string (json_field item ''prompt''),
                ce_model = json_string (json_field item ''model''),
                ce_reasoningEffort = json_string (either ''reasoningEffort'' ''reasoning_effort''),
                ce_agentsStates = normalize_states
                  (json_record (either ''agentsStates'' ''agents_states'')) []\<rparr>)
         | _ \<Rightarrow> None)"

definition parseCodexCollaborationLine :: "json_parser \<Rightarrow> string \<Rightarrow> codex_event option" where
  "parseCodexCollaborationLine parse line =
     (if line = [] then None
      else case parse line of
        None \<Rightarrow> None
      | Some value \<Rightarrow>
          (let record = json_record (Some value);
               params = json_record (json_field record ''params'');
               direct = json_record (json_field record ''item'');
               item = (if direct \<noteq> [] then direct else json_record (json_field params ''item''))
           in codex_item_event item))"

section \<open>The stream\<close>

definition codex_step :: "json_parser \<Rightarrow> unit \<Rightarrow> string \<Rightarrow> codex_event list \<times> unit" where
  "codex_step parse s line =
     (case parseCodexCollaborationLine parse line of None \<Rightarrow> ([], s) | Some e \<Rightarrow> ([e], s))"

definition codex_feed :: "json_parser \<Rightarrow> string \<Rightarrow> string \<Rightarrow> codex_event list \<times> string" where
  "codex_feed parse buffer chunk =
     (let (events, st) = line_feed (codex_step parse) (buffer, ()) chunk in (events, fst st))"

fun codex_feeds :: "json_parser \<Rightarrow> string \<Rightarrow> string list \<Rightarrow> codex_event list \<times> string" where
  "codex_feeds parse buffer [] = ([], buffer)"
| "codex_feeds parse buffer (c # cs) =
     (let (e1, b1) = codex_feed parse buffer c; (e2, b2) = codex_feeds parse b1 cs in (e1 @ e2, b2))"

interpretation codex: line_handler "codex_step parse" for parse
  by unfold_locales (simp add: codex_step_def parseCodexCollaborationLine_def)

lemma codex_feeds_line_feeds:
  "codex_feeds parse buffer cs =
     (let (events, st) = line_feeds (codex_step parse) (buffer, ()) cs in (events, fst st))"
proof (induction cs arbitrary: buffer)
  case (Cons c cs)
  obtain e1 b1 where "line_feed (codex_step parse) (buffer, ()) c = (e1, b1, ())"
    by (metis (full_types) prod_cases3 unit.exhaust)
  with Cons show ?case by (simp add: codex_feed_def split: prod.split)
qed simp

section \<open>The two wire formats\<close>

fun tool_name :: "bool \<Rightarrow> codex_tool \<Rightarrow> string" where
  "tool_name snake spawnAgent = (if snake then ''spawn_agent'' else ''spawnAgent'')"
| "tool_name snake sendInput = (if snake then ''send_input'' else ''sendInput'')"
| "tool_name snake resumeAgent = (if snake then ''resume_agent'' else ''resumeAgent'')"
| "tool_name snake waitAgent = ''wait''"
| "tool_name snake closeAgent = (if snake then ''close_agent'' else ''closeAgent'')"
| "tool_name snake (inherited_tool n) = n"

fun call_status_name :: "bool \<Rightarrow> codex_call_status \<Rightarrow> string" where
  "call_status_name snake inProgress = (if snake then ''in_progress'' else ''inProgress'')"
| "call_status_name snake call_completed = ''completed''"
| "call_status_name snake call_failed = ''failed''"

fun agent_status_name :: "bool \<Rightarrow> codex_agent_status \<Rightarrow> string" where
  "agent_status_name snake pendingInit = (if snake then ''pending_init'' else ''pendingInit'')"
| "agent_status_name snake agent_running = ''running''"
| "agent_status_name snake interrupted = ''interrupted''"
| "agent_status_name snake agent_completed = ''completed''"
| "agent_status_name snake errored = ''errored''"
| "agent_status_name snake agent_shutdown = ''shutdown''"
| "agent_status_name snake notFound = (if snake then ''not_found'' else ''notFound'')"
| "agent_status_name snake (inherited_status n) = n"

fun json_nullable :: "string option \<Rightarrow> json" where
  "json_nullable None = JNull"
| "json_nullable (Some s) = JStr s"

definition codex_wire_item :: "bool \<Rightarrow> codex_event \<Rightarrow> (string \<times> json) list" where
  "codex_wire_item snake e =
     [(''type'', JStr (if snake then ''collab_tool_call'' else ''collabAgentToolCall'')),
      (''id'', JStr (ce_id e)),
      (''tool'', JStr (tool_name snake (ce_tool e))),
      (''status'', JStr (call_status_name snake (ce_status e))),
      (if snake then ''sender_thread_id'' else ''senderThreadId'', JStr (ce_senderThreadId e)),
      (if snake then ''receiver_thread_ids'' else ''receiverThreadIds'',
         JArr (map JStr (ce_receiverThreadIds e))),
      (''prompt'', json_nullable (ce_prompt e)),
      (''model'', json_nullable (ce_model e)),
      (if snake then ''reasoning_effort'' else ''reasoningEffort'', json_nullable (ce_reasoningEffort e)),
      (if snake then ''agents_states'' else ''agentsStates'',
         JObj (map (\<lambda>(tid, st). (tid, JObj [(''status'', JStr (agent_status_name snake (cas_status st))),
                                             (''message'', json_nullable (cas_message st))]))
                 (ce_agentsStates e)))]"

text \<open>The app server wraps the item in \<open>params\<close>; \<open>exec --json\<close> has it at the top.\<close>

definition codex_wire :: "bool \<Rightarrow> codex_event \<Rightarrow> json" where
  "codex_wire snake e =
     (if snake then JObj [(''type'', JStr ''item.completed''), (''item'', JObj (codex_wire_item snake e))]
      else JObj [(''method'', JStr ''item/completed''),
                 (''params'', JObj [(''item'', JObj (codex_wire_item snake e))])])"

definition codex_event_ok :: "codex_event \<Rightarrow> bool" where
  "codex_event_ok e \<longleftrightarrow> ce_id e \<noteq> [] \<and> ce_senderThreadId e \<noteq> [] \<and>
     (\<forall>n. ce_tool e \<noteq> inherited_tool n) \<and> distinct (map fst (ce_agentsStates e)) \<and>
     (\<forall>(tid, st) \<in> set (ce_agentsStates e). tid \<noteq> ''__proto__'' \<and> (\<forall>n. cas_status st \<noteq> inherited_status n))"

lemma normalizeTool_name:
  "(\<And>n. t \<noteq> inherited_tool n) \<Longrightarrow> normalizeTool (Some (JStr (tool_name snake t))) = Some t"
  by (cases t; cases snake) (auto simp: tool_aliases_def)

lemma normalizeCallStatus_name: "normalizeCallStatus (Some (JStr (call_status_name snake s))) = Some s"
  by (cases s; cases snake) simp_all

lemma normalizeAgentStatus_name:
  "(\<And>n. t \<noteq> inherited_status n) \<Longrightarrow> normalizeAgentStatus (Some (JStr (agent_status_name snake t))) = Some t"
  by (cases t; cases snake) (auto simp: status_aliases_def)

declare normalizeTool.simps [simp del] normalizeAgentStatus.simps [simp del]
declare normalizeCallStatus.simps [simp del]

lemma json_string_nullable [simp]: "json_string (Some (json_nullable v)) = v"
  by (cases v) simp_all

lemma receiver_ids_wire [simp]: "receiver_ids (Some (JArr (map JStr xs))) = xs"
  by (induction xs) (simp_all add: List.map_filter_def)

declare receiver_ids.simps [simp del]

lemma AList_update_fresh: "k \<notin> fst ` set xs \<Longrightarrow> AList.update k v xs = xs @ [(k, v)]"
  by (induction xs) auto

lemma normalize_states_wire:
  "distinct (map fst (acc @ states)) \<Longrightarrow>
   \<forall>(tid, st) \<in> set states. tid \<noteq> ''__proto__'' \<and> (\<forall>n. cas_status st \<noteq> inherited_status n) \<Longrightarrow>
   normalize_states (map (\<lambda>(tid, st). (tid, JObj [(''status'', JStr (agent_status_name snake (cas_status st))),
        (''message'', json_nullable (cas_message st))])) states) acc = acc @ states"
proof (induction states arbitrary: acc)
  case (Cons x states)
  obtain tid st where x: "x = (tid, st)" by (cases x)
  have fresh: "tid \<notin> fst ` set acc" using Cons.prems(1) x by auto
  have "normalizeAgentStatus (Some (JStr (agent_status_name snake (cas_status st)))) = Some (cas_status st)"
    using Cons.prems(2) x by (intro normalizeAgentStatus_name) auto
  then show ?case
    using Cons.IH [of "acc @ [(tid, st)]"] Cons.prems fresh x
    by (cases st) (simp add: json_field_def AList_update_fresh)
qed simp

lemma codex_item_event_wire:
  assumes "codex_event_ok e"
  shows "codex_item_event (codex_wire_item snake e) = Some e"
proof -
  have t: "normalizeTool (Some (JStr (tool_name snake (ce_tool e)))) = Some (ce_tool e)"
    using assms by (intro normalizeTool_name) (simp add: codex_event_ok_def)
  have st: "normalize_states (map (\<lambda>(tid, st). (tid, JObj [(''status'', JStr (agent_status_name snake (cas_status st))),
        (''message'', json_nullable (cas_message st))])) (ce_agentsStates e)) [] = ce_agentsStates e"
    using assms normalize_states_wire [of "[]" "ce_agentsStates e"] by (simp add: codex_event_ok_def)
  have ok: "ce_id e \<noteq> []" "ce_senderThreadId e \<noteq> []" using assms by (simp_all add: codex_event_ok_def)
  have null: "json_string (json_coalesce (Some (json_nullable v)) None) = v" for v
    by (cases v) (simp_all add: json_coalesce_def)
  note fields = codex_item_event_def codex_wire_item_def json_field_def stringValue_def Let_def
  show ?thesis
  proof (cases snake)
    case True
    have "json_coalesce None (Some v) = Some v" for v by (simp add: json_coalesce_def)
    with True t st ok show ?thesis
      by (cases e) (simp add: fields normalizeCallStatus_name)
  next
    case False
    have "json_coalesce (Some (JStr v)) w = Some (JStr v)" "json_coalesce (Some (JArr vs)) w = Some (JArr vs)"
         "json_coalesce (Some (JObj r)) w = Some (JObj r)" for v vs r w
      by (simp_all add: json_coalesce_def)
    with False t st ok null show ?thesis
      by (cases e) (simp add: fields normalizeCallStatus_name)
  qed
qed

section \<open>Properties\<close>

text \<open>The events read from a Codex process and the unfinished line left in the buffer depend only
  on the text it wrote, never on how the pipe cut that text into chunks.\<close>

theorem codex_chunking_irrelevant:
  "codex_feeds parse [] chunks = codex_feed parse [] (concat chunks)"
  using codex.chunking_irrelevant [of chunks "[concat chunks]" parse "()"]
  by (simp add: codex_feeds_line_feeds codex_feed_def split: prod.split)

text \<open>C12. Both wire formats of a collaboration item, the camel case notification of the app server and the
  snake case line of exec, are read back as the event they encode, with all its fields.\<close>

theorem codex_wire_roundtrip:
  assumes "codex_event_ok e" and "line \<noteq> []" and "parse line = Some (codex_wire snake e)"
  shows "parseCodexCollaborationLine parse line = Some e"
proof (cases snake)
  case True
  have ne: "codex_wire_item True e \<noteq> []" by (simp add: codex_wire_item_def)
  with True assms codex_item_event_wire [OF assms(1), of True] show ?thesis
    by (simp add: parseCodexCollaborationLine_def codex_wire_def json_field_def)
next
  case False
  have ne: "codex_wire_item False e \<noteq> []" by (simp add: codex_wire_item_def)
  with False assms codex_item_event_wire [OF assms(1), of False] show ?thesis
    by (simp add: parseCodexCollaborationLine_def codex_wire_def json_field_def)
qed

definition sample_event :: codex_event where
  "sample_event = \<lparr>ce_id = ''i1'', ce_tool = spawnAgent, ce_status = inProgress,
     ce_senderThreadId = ''t0'', ce_receiverThreadIds = [''t1''], ce_prompt = Some ''go'',
     ce_model = None, ce_reasoningEffort = None,
     ce_agentsStates = [(''t1'', \<lparr>cas_status = pendingInit, cas_message = None\<rparr>)]\<rparr>"

theorem codex_wire_roundtrip_witness:
  "parseCodexCollaborationLine (\<lambda>_. Some (codex_wire True sample_event)) ''x'' = Some sample_event"
  by (rule codex_wire_roundtrip [where snake = True]) (simp_all add: sample_event_def codex_event_ok_def)

text \<open>A tool named like a member of \<open>Object.prototype\<close> is not rejected.\<close>

lemma inherited_names_accepted:
  "normalizeTool (Some (JStr ''toString'')) = Some (inherited_tool ''toString'')"
  "normalizeAgentStatus (Some (JStr ''constructor'')) = Some (inherited_status ''constructor'')"
  by (simp_all add: normalizeTool.simps normalizeAgentStatus.simps tool_aliases_def status_aliases_def
      object_prototype_members_def)

end
