(* ===== verification/Token_Usage.thy ===== *)
theory Token_Usage
  imports Js_Json Line_Stream
begin

text \<open>
  Token accounting: \<open>packages/relay-core/src/token-usage.ts\<close>. Counts are integers: \<open>numeric\<close>
  floors positive numbers and maps everything else to zero.
\<close>

record token_usage =
  tu_input :: int
  tu_output :: int
  tu_cache :: int
  tu_total :: int
  tu_source :: "string option"

definition INPUT_KEYS :: "string list" where
  "INPUT_KEYS = [''input'', ''inputTokens'', ''input_tokens'', ''promptTokens'', ''prompt_tokens'']"

definition OUTPUT_KEYS :: "string list" where
  "OUTPUT_KEYS =
     [''output'', ''outputTokens'', ''output_tokens'', ''completionTokens'', ''completion_tokens'']"

definition ADDITIVE_CACHE_KEYS :: "string list" where
  "ADDITIVE_CACHE_KEYS =
     [''cache'', ''cacheTokens'', ''cache_tokens'', ''cacheCreationInputTokens'',
      ''cache_creation_input_tokens'', ''cacheReadInputTokens'', ''cache_read_input_tokens'',
      ''cacheRead'', ''cacheWrite'']"

definition INCLUDED_CACHE_KEYS :: "string list" where
  "INCLUDED_CACHE_KEYS = [''cachedTokens'', ''cached_tokens'', ''cachedInputTokens'', ''cached_input_tokens'']"

fun numeric :: "json option \<Rightarrow> int" where
  "numeric (Some (JNum r)) = (if 0 < r then \<lfloor>r\<rfloor> else 0)"
| "numeric _ = 0"

fun as_record :: "json option \<Rightarrow> (string \<times> json) list option" where
  "as_record (Some (JObj r)) = Some r"
| "as_record _ = None"

fun sumNumericFields :: "(string \<times> json) list \<Rightarrow> string list \<Rightarrow> int" where
  "sumNumericFields r [] = 0"
| "sumNumericFields r (k # ks) = numeric (json_field r k) + sumNumericFields r ks"

definition sumNestedNumericFields :: "(string \<times> json) list \<Rightarrow> string \<Rightarrow> string list \<Rightarrow> int" where
  "sumNestedNumericFields r key names =
     (case as_record (json_field r key) of None \<Rightarrow> 0 | Some nested \<Rightarrow> sumNumericFields nested names)"

definition normalizeTokenUsage :: "json option \<Rightarrow> string option \<Rightarrow> token_usage option" where
  "normalizeTokenUsage v source =
     (case as_record v of None \<Rightarrow> None
      | Some r \<Rightarrow>
          (let rawInput = sumNumericFields r INPUT_KEYS;
               outp = sumNumericFields r OUTPUT_KEYS;
               includedCache = sumNumericFields r INCLUDED_CACHE_KEYS
                 + sumNestedNumericFields r ''prompt_tokens_details'' [''cached_tokens'', ''cachedTokens''];
               cache = sumNumericFields r ADDITIVE_CACHE_KEYS + includedCache;
               inp = max 0 (rawInput - includedCache)
           in if inp = 0 \<and> outp = 0 \<and> cache = 0 then None
              else Some \<lparr>tu_input = inp, tu_output = outp, tu_cache = cache,
                         tu_total = inp + outp + cache, tu_source = truthy_or_none source\<rparr>))"

text \<open>The accumulation loop of \<open>mergeTokenUsage\<close>; the merged record has no source.\<close>

fun merge_totals :: "token_usage option list \<Rightarrow> int \<times> int \<times> int \<Rightarrow> int \<times> int \<times> int" where
  "merge_totals [] acc = acc"
| "merge_totals (None # vs) acc = merge_totals vs acc"
| "merge_totals (Some u # vs) (i, c, k) =
     merge_totals vs (i + tu_input u, c + tu_output u, k + tu_cache u)"

definition mergeTokenUsage :: "token_usage option list \<Rightarrow> token_usage option" where
  "mergeTokenUsage vs =
     (let (i, c, k) = merge_totals vs (0, 0, 0)
      in if i = 0 \<and> c = 0 \<and> k = 0 then None
         else Some \<lparr>tu_input = i, tu_output = c, tu_cache = k, tu_total = i + c + k, tu_source = None\<rparr>)"

definition usageFromEvent :: "json \<Rightarrow> string option \<Rightarrow> token_usage option" where
  "usageFromEvent event source =
     (case as_record (Some event) of None \<Rightarrow> None
      | Some r \<Rightarrow>
          (let under = (\<lambda>k. case as_record (json_field r k) of
                              None \<Rightarrow> None | Some m \<Rightarrow> json_field m ''usage'')
           in js_coalesce (normalizeTokenUsage (json_field r ''usage'') source)
             (js_coalesce (normalizeTokenUsage (under ''message'') source)
             (js_coalesce (normalizeTokenUsage (under ''response'') source)
                          (normalizeTokenUsage (under ''result'') source)))))"

text \<open>One line of the log: the loop body of \<open>extractTokenUsageFromJsonl\<close>.\<close>

definition usage_line ::
  "json_parser \<Rightarrow> string option \<Rightarrow> token_usage option \<times> token_usage list \<Rightarrow> string
     \<Rightarrow> token_usage option \<times> token_usage list" where
  "usage_line parse source st line =
     (let (terminal, vals) = st; trimmed = js_trim line
      in if trimmed = [] then st
         else case parse trimmed of
           None \<Rightarrow> st
         | Some event \<Rightarrow>
             (let field = (\<lambda>k. case as_record (Some event) of None \<Rightarrow> None | Some r \<Rightarrow> json_field r k);
                  terminal' = (if source = Some ''claude'' \<and> field ''type'' = Some (JStr ''result'')
                               then js_coalesce (normalizeTokenUsage (field ''usage'') source) terminal
                               else terminal)
              in if source = Some ''pi'' \<and> field ''type'' \<noteq> Some (JStr ''message_end'')
                 then (terminal', vals)
                 else (terminal', vals @ (case usageFromEvent event source of None \<Rightarrow> [] | Some u \<Rightarrow> [u]))))"

text \<open>\<open>text.split(/\r?\n/)\<close>.\<close>

fun split_lines :: "string \<Rightarrow> string list" where
  "split_lines [] = [[]]"
| "split_lines (c # cs) =
     (case split_lines cs of
        [] \<Rightarrow> [[c]]
      | l # ls \<Rightarrow> if c = LF then [] # l # ls
                  else if c = CHR 0x0D \<and> cs \<noteq> [] \<and> hd cs = LF then l # ls
                  else (c # l) # ls)"

definition extractTokenUsageFromJsonl ::
  "json_parser \<Rightarrow> string \<Rightarrow> string option \<Rightarrow> token_usage option" where
  "extractTokenUsageFromJsonl parse t source =
     (let (terminal, vals) = foldl (usage_line parse source) (None, []) (split_lines t)
      in case terminal of
           Some u \<Rightarrow> Some u
         | None \<Rightarrow> (case mergeTokenUsage (map Some vals) of
                      None \<Rightarrow> None
                    | Some m \<Rightarrow> Some (case truthy_or_none source of
                                        None \<Rightarrow> m | Some s \<Rightarrow> m\<lparr>tu_source := Some s\<rparr>)))"

section \<open>Well-formed usage\<close>

definition usage_ok :: "token_usage \<Rightarrow> bool" where
  "usage_ok u \<longleftrightarrow> 0 \<le> tu_input u \<and> 0 \<le> tu_output u \<and> 0 \<le> tu_cache u \<and>
     tu_total u = tu_input u + tu_output u + tu_cache u \<and> 0 < tu_total u"

lemma numeric_nonneg [simp]: "0 \<le> numeric v"
  by (cases v rule: numeric.cases) auto

lemma sumNumericFields_nonneg [simp]: "0 \<le> sumNumericFields r ks"
  by (induction ks) (auto intro: add_nonneg_nonneg)

lemma sumNestedNumericFields_nonneg [simp]: "0 \<le> sumNestedNumericFields r k ks"
  by (simp add: sumNestedNumericFields_def split: option.split)

lemma normalizeTokenUsage_ok:
  assumes "normalizeTokenUsage v source = Some u"
  shows "usage_ok u"
proof -
  obtain r where r: "as_record v = Some r"
    using assms by (auto simp: normalizeTokenUsage_def split: option.splits)
  define included where "included = sumNumericFields r INPUT_KEYS - (sumNumericFields r INCLUDED_CACHE_KEYS
      + sumNestedNumericFields r ''prompt_tokens_details'' [''cached_tokens'', ''cachedTokens''])"
  define i where "i = max 0 included"
  define c where "c = sumNumericFields r OUTPUT_KEYS"
  define k where "k = sumNumericFields r ADDITIVE_CACHE_KEYS + (sumNumericFields r INCLUDED_CACHE_KEYS
      + sumNestedNumericFields r ''prompt_tokens_details'' [''cached_tokens'', ''cachedTokens''])"
  have nn: "0 \<le> i" "0 \<le> c" "0 \<le> k"
    by (simp_all add: i_def c_def k_def)
  have "(if i = 0 \<and> c = 0 \<and> k = 0 then None
      else Some \<lparr>tu_input = i, tu_output = c, tu_cache = k, tu_total = i + c + k,
                 tu_source = truthy_or_none source\<rparr>) = Some u"
    using assms r unfolding normalizeTokenUsage_def Let_def i_def c_def k_def included_def by simp
  with nn show ?thesis by (auto simp: usage_ok_def split: if_splits)
qed

fun usage_sum :: "(token_usage \<Rightarrow> int) \<Rightarrow> token_usage option list \<Rightarrow> int" where
  "usage_sum f [] = 0"
| "usage_sum f (None # vs) = usage_sum f vs"
| "usage_sum f (Some u # vs) = f u + usage_sum f vs"

lemma merge_totals_sum:
  "merge_totals vs (i, c, k) =
     (i + usage_sum tu_input vs, c + usage_sum tu_output vs, k + usage_sum tu_cache vs)"
proof (induction vs arbitrary: i c k)
  case (Cons v vs)
  then show ?case by (cases v) auto
qed simp

lemma usage_sum_append [simp]: "usage_sum f (xs @ ys) = usage_sum f xs + usage_sum f ys"
  by (induction f xs rule: usage_sum.induct) auto

lemma usage_sum_nonneg: "(\<And>u. Some u \<in> set vs \<Longrightarrow> 0 \<le> f u) \<Longrightarrow> 0 \<le> usage_sum f vs"
  by (induction f vs rule: usage_sum.induct) (auto intro: add_nonneg_nonneg)

lemma mergeTokenUsage_sum:
  "mergeTokenUsage vs =
     (let i = usage_sum tu_input vs; c = usage_sum tu_output vs; k = usage_sum tu_cache vs
      in if i = 0 \<and> c = 0 \<and> k = 0 then None
         else Some \<lparr>tu_input = i, tu_output = c, tu_cache = k, tu_total = i + c + k, tu_source = None\<rparr>)"
  by (simp add: mergeTokenUsage_def merge_totals_sum Let_def)

lemma mergeTokenUsage_ok:
  assumes "\<And>u. Some u \<in> set vs \<Longrightarrow> usage_ok u" and "mergeTokenUsage vs = Some m"
  shows "usage_ok m"
proof -
  have "0 \<le> usage_sum tu_input vs" "0 \<le> usage_sum tu_output vs" "0 \<le> usage_sum tu_cache vs"
    using assms(1) by (auto intro!: usage_sum_nonneg simp: usage_ok_def)
  with assms(2) show ?thesis
    unfolding mergeTokenUsage_sum Let_def usage_ok_def by (auto split: if_splits)
qed

lemma usage_sum_merge:
  "f \<in> {tu_input, tu_output, tu_cache} \<Longrightarrow> usage_sum f [mergeTokenUsage vs] = usage_sum f vs"
  by (auto simp: mergeTokenUsage_sum Let_def)

lemma usageFromEvent_ok: "usageFromEvent e source = Some u \<Longrightarrow> usage_ok u"
  by (auto simp: usageFromEvent_def js_coalesce_def Let_def
           split: option.splits dest: normalizeTokenUsage_ok)

definition usage_state_ok :: "token_usage option \<times> token_usage list \<Rightarrow> bool" where
  "usage_state_ok st \<longleftrightarrow> (\<forall>u. fst st = Some u \<longrightarrow> usage_ok u) \<and> (\<forall>u \<in> set (snd st). usage_ok u)"

lemma usage_line_ok: "usage_state_ok st \<Longrightarrow> usage_state_ok (usage_line parse source st line)"
  unfolding usage_line_def usage_state_ok_def Let_def
  by (auto simp: js_coalesce_def split: prod.splits option.splits if_splits
           dest: normalizeTokenUsage_ok usageFromEvent_ok usageFromEvent_ok [OF sym])

lemma foldl_usage_line_ok:
  "usage_state_ok st \<Longrightarrow> usage_state_ok (foldl (usage_line parse source) st ls)"
  by (induction ls arbitrary: st) (simp_all add: usage_line_ok)

section \<open>Properties\<close>

lemma usage_sum_merge_map:
  "f \<in> {tu_input, tu_output, tu_cache} \<Longrightarrow>
   usage_sum f (map mergeTokenUsage groups) = usage_sum f (concat groups)"
proof (induction groups)
  case (Cons g groups)
  then show ?case
    using usage_sum_merge [of f g] usage_sum_append [of f "[mergeTokenUsage g]" "map mergeTokenUsage groups"]
    by simp
qed simp

text \<open>Merging is regrouping-invariant: merging the merged usages of any groups of runs gives the
  usage of all the runs, so totals can be kept per run, per agent or per session alike.\<close>

theorem mergeTokenUsage_regroup:
  "mergeTokenUsage (map mergeTokenUsage groups) = mergeTokenUsage (concat groups)"
  by (simp add: mergeTokenUsage_sum usage_sum_merge_map)

text \<open>Whatever an agent prints and whatever its JSON says, a usage extracted from it has
  non-negative parts that add up to a positive total; events that carry none are skipped.\<close>

theorem extracted_usage_ok:
  "case extractTokenUsageFromJsonl parse t source of None \<Rightarrow> True | Some u \<Rightarrow> usage_ok u"
proof -
  obtain terminal vals where st: "foldl (usage_line parse source) (None, []) (split_lines t) = (terminal, vals)"
    by (metis prod.exhaust)
  have "usage_state_ok (terminal, vals)"
    unfolding st [symmetric] by (rule foldl_usage_line_ok) (simp add: usage_state_ok_def)
  then have ok: "\<And>u. terminal = Some u \<Longrightarrow> usage_ok u" "\<And>u. u \<in> set vals \<Longrightarrow> usage_ok u"
    unfolding usage_state_ok_def by simp_all
  have "usage_ok m" if "mergeTokenUsage (map Some vals) = Some m" for m
    by (rule mergeTokenUsage_ok [OF _ that]) (use ok(2) in auto)
  with ok(1) st show ?thesis
    by (auto simp: extractTokenUsageFromJsonl_def usage_ok_def split: option.split)
qed

end
