(* ===== verification/Agent_State.thy ===== *)
theory Agent_State
  imports Token_Usage Text_Capture
begin

text \<open>
  The state of one agent run: \<open>packages/relay-core/src/state.ts\<close>, and the patch that
  \<open>runAgentNode\<close> of \<open>nodes.ts\<close> returns after executing the agent's command line. The optional
  prompt-context fields of \<open>AgentState\<close> (bridge text, handoff note, role and so on), which no
  modelled code reads, are one association list from field name to value.
\<close>

datatype AgentName = Claude | Pi | Codex | Kimi

definition AGENT_NAMES :: "AgentName list" where
  "AGENT_NAMES = [Claude, Pi, Codex, Kimi]"

fun agent_id :: "AgentName \<Rightarrow> string" where
  "agent_id Claude = ''claude''"
| "agent_id Pi = ''pi''"
| "agent_id Codex = ''codex''"
| "agent_id Kimi = ''kimi''"

definition isAgentName :: "json \<Rightarrow> bool" where
  "isAgentName v = (case v of JStr s \<Rightarrow> s \<in> set (map agent_id AGENT_NAMES) | _ \<Rightarrow> False)"

instantiation AgentName :: linorder
begin

definition less_eq_AgentName :: "AgentName \<Rightarrow> AgentName \<Rightarrow> bool" where
  "less_eq_AgentName a b \<longleftrightarrow>
     length (takeWhile (\<lambda>x. x \<noteq> a) AGENT_NAMES) \<le> length (takeWhile (\<lambda>x. x \<noteq> b) AGENT_NAMES)"

definition less_AgentName :: "AgentName \<Rightarrow> AgentName \<Rightarrow> bool" where
  "less_AgentName a b \<longleftrightarrow> a \<le> b \<and> \<not> b \<le> a"

instance
proof
  fix a b c :: AgentName
  show "(a < b) = (a \<le> b \<and> \<not> b \<le> a)" by (simp add: less_AgentName_def)
  show "a \<le> a" by (simp add: less_eq_AgentName_def)
  show "a \<le> b \<Longrightarrow> b \<le> c \<Longrightarrow> a \<le> c" by (simp add: less_eq_AgentName_def)
  show "a \<le> b \<Longrightarrow> b \<le> a \<Longrightarrow> a = b"
    by (cases a; cases b) (simp_all add: less_eq_AgentName_def AGENT_NAMES_def)
  show "a \<le> b \<or> b \<le> a" by (auto simp: less_eq_AgentName_def)
qed

end

record agent_state =
  as_task_goal :: string
  as_agent_logs :: "string list"
  as_last_exit_code :: int
  as_agent_failures :: "AgentName \<rightharpoonup> nat"
  as_token_usage :: "token_usage option"
  as_context :: "(string \<times> json) list"

text \<open>
  A patch: \<open>None\<close> is an absent key. \<open>token_usage\<close> may be present with the value
  \<open>undefined\<close>, which still overrides (\<open>Some None\<close>).
\<close>

record agent_patch =
  ap_task_goal :: "string option"
  ap_agent_logs :: "string list option"
  ap_last_exit_code :: "int option"
  ap_agent_failures :: "(AgentName \<rightharpoonup> nat) option"
  ap_token_usage :: "token_usage option option"
  ap_context :: "(string \<times> json) list"

definition initialAgentState :: "string \<Rightarrow> agent_state" where
  "initialAgentState goal =
     \<lparr>as_task_goal = goal, as_agent_logs = [], as_last_exit_code = 0,
      as_agent_failures = Map.empty, as_token_usage = None, as_context = []\<rparr>"

definition mergeAgentState :: "agent_state \<Rightarrow> agent_patch \<Rightarrow> agent_state" where
  "mergeAgentState st p =
     \<lparr>as_task_goal = (case ap_task_goal p of None \<Rightarrow> as_task_goal st | Some g \<Rightarrow> g),
      as_agent_logs = as_agent_logs st @ (case ap_agent_logs p of None \<Rightarrow> [] | Some ls \<Rightarrow> ls),
      as_last_exit_code = (case ap_last_exit_code p of None \<Rightarrow> as_last_exit_code st | Some c \<Rightarrow> c),
      as_agent_failures = as_agent_failures st ++
        (case ap_agent_failures p of None \<Rightarrow> Map.empty | Some m \<Rightarrow> m),
      as_token_usage = (case ap_token_usage p of None \<Rightarrow> as_token_usage st | Some u \<Rightarrow> u),
      as_context = AList.updates (map fst (ap_context p)) (map snd (ap_context p)) (as_context st)\<rparr>"

definition nextFailureCount :: "bool \<Rightarrow> nat \<Rightarrow> nat" where
  "nextFailureCount failed currentCount = (if failed then currentCount + 1 else 0)"

definition failureCount :: "agent_state \<Rightarrow> AgentName \<Rightarrow> nat" where
  "failureCount st agent = (case as_agent_failures st agent of None \<Rightarrow> 0 | Some n \<Rightarrow> n)"

definition withFailure :: "agent_state \<Rightarrow> AgentName \<Rightarrow> bool \<Rightarrow> (AgentName \<rightharpoonup> nat)" where
  "withFailure st agent failed =
     (as_agent_failures st)(agent \<mapsto> nextFailureCount failed (failureCount st agent))"

fun agent_label :: "AgentName \<Rightarrow> string" where
  "agent_label Claude = ''Claude Code''"
| "agent_label Pi = ''Pi''"
| "agent_label Codex = ''Codex''"
| "agent_label Kimi = ''Kimi''"

text \<open>What \<open>runAgentNode\<close> returns once the executor has produced \<open>result\<close>.\<close>

definition run_patch :: "json_parser \<Rightarrow> AgentName \<Rightarrow> agent_state \<Rightarrow> exec_result \<Rightarrow> int \<Rightarrow> agent_patch" where
  "run_patch parse agent st result limit =
     \<lparr>ap_task_goal = None,
      ap_agent_logs = Some [agentResultLog (agent_label agent) result limit],
      ap_last_exit_code = Some (exit_code result),
      ap_agent_failures = Some (withFailure st agent (exit_code result \<noteq> 0)),
      ap_token_usage = Some (extractTokenUsageFromJsonl parse (exec_stdout result) (Some (agent_id agent))),
      ap_context = []\<rparr>"

definition apply_run :: "json_parser \<Rightarrow> int \<Rightarrow> agent_state \<Rightarrow> AgentName \<times> exec_result \<Rightarrow> agent_state" where
  "apply_run parse limit st run =
     mergeAgentState st (run_patch parse (fst run) st (snd run) limit)"

section \<open>Failure streaks\<close>

lemma failureCount_apply_run:
  "failureCount (apply_run parse limit st (a, r)) b =
     (if a = b then nextFailureCount (exit_code r \<noteq> 0) (failureCount st a) else failureCount st b)"
  by (auto simp: apply_run_def mergeAgentState_def run_patch_def failureCount_def withFailure_def
           map_add_def split: option.splits)

text \<open>The length of the agent's current streak of failed runs.\<close>

definition failure_streak :: "(AgentName \<times> exec_result) list \<Rightarrow> AgentName \<Rightarrow> nat" where
  "failure_streak runs agent =
     length (takeWhile (\<lambda>r. exit_code (snd r) \<noteq> 0) (rev (filter (\<lambda>r. fst r = agent) runs)))"

lemma failureCount_runs:
  "failureCount st agent = 0 \<Longrightarrow>
   failureCount (foldl (apply_run parse limit) st runs) agent = failure_streak runs agent"
proof (induction runs rule: rev_induct)
  case Nil
  then show ?case by (simp add: failure_streak_def)
next
  case (snoc x xs)
  then show ?case
    by (cases x) (auto simp: failureCount_apply_run failure_streak_def nextFailureCount_def)
qed

lemma agent_logs_runs:
  "length (as_agent_logs (foldl (apply_run parse limit) st runs)) = length (as_agent_logs st) + length runs"
  by (induction runs arbitrary: st) (auto simp: apply_run_def mergeAgentState_def run_patch_def)

section \<open>Properties\<close>

text \<open>After any sequence of runs of any agents, an agent's failure count is the length of its own
  current streak of failed runs, and the log holds one entry per run.\<close>

theorem failure_count_is_streak:
  "failureCount (foldl (apply_run parse limit) (initialAgentState goal) runs) agent = failure_streak runs agent \<and>
   length (as_agent_logs (foldl (apply_run parse limit) (initialAgentState goal) runs)) = length runs"
proof -
  have "failureCount (initialAgentState goal) agent = 0" "as_agent_logs (initialAgentState goal) = []"
    by (simp_all add: failureCount_def initialAgentState_def)
  then show ?thesis by (simp add: failureCount_runs agent_logs_runs)
qed

end
