(* ===== verification/Event_Log.thy ===== *)
theory Event_Log
  imports Relay_Prelude
begin

text \<open>
  The contract shared by the two event-sourced records of relay-core, sessions and tasks: a
  record is the fold of its log, it carries the log it was built from, and its update time is
  that of the last event.
\<close>

locale event_log =
  fixes apply_event :: "'s \<Rightarrow> 'e \<Rightarrow> 's"
    and events_of :: "'s \<Rightarrow> 'e list"
    and updated_at :: "'s \<Rightarrow> 't"
    and timestamp :: "'e \<Rightarrow> 't"
  assumes apply_records: "events_of (apply_event s e) = events_of s @ [e]"
    and apply_stamps: "updated_at (apply_event s e) = timestamp e"
begin

lemma replay_events: "events_of (foldl apply_event s es) = events_of s @ es"
  by (induction es arbitrary: s) (simp_all add: apply_records)

lemma replay_updated:
  "updated_at (foldl apply_event s es) = (if es = [] then updated_at s else timestamp (last es))"
  by (induction es rule: rev_induct) (simp_all add: apply_stamps)

text \<open>Replaying a longer log is replaying the new events on the record built so far.\<close>

lemma replay_append: "foldl apply_event s (es @ fs) = foldl apply_event (foldl apply_event s es) fs"
  by simp

lemma replay_inv:
  assumes "I s" and "\<And>s e. I s \<Longrightarrow> e \<in> set es \<Longrightarrow> I (apply_event s e)"
  shows "I (foldl apply_event s es)"
  using assms
proof (induction es arbitrary: s)
  case (Cons e es)
  then show ?case by simp
qed simp

text \<open>A relation every event respects holds between the record before and after a replay.\<close>

lemma replay_rel:
  assumes "\<And>s. R s s" and "\<And>s t u. R s t \<Longrightarrow> R t u \<Longrightarrow> R s u" and "\<And>s e. R s (apply_event s e)"
  shows "R s (foldl apply_event s es)"
proof (induction es arbitrary: s)
  case (Cons e es)
  show ?case using assms(2) [OF assms(3) Cons.IH] by simp
qed (simp add: assms(1))

end

end
