(* ===== verification/Session_Events.thy ===== *)
theory Session_Events
  imports Event_Log Codex_Collaboration Agent_State
begin

text \<open>
  Session records and their event log: \<open>packages/relay-core/src/session-store.ts\<close>.
  \<open>materializeEvents\<close> rebuilds a session from its log; the \<open>else if\<close> chain of its loop is the
  function \<open>apply_session_event\<close>. Times are the ISO strings of the events.
\<close>

section \<open>Data\<close>

datatype AgentRole = role_implementer | role_reviewer | role_planner | role_tester | role_fixer
datatype SessionStatus = ss_running | ss_waiting_for_human | ss_completed | ss_failed | ss_cancelled
datatype RelayArtifactKind = ak_plan | ak_diff | ak_review | ak_test_output | ak_command_log
  | ak_summary | ak_agent_output | ak_workspace_file
datatype HumanDecisionKind = hd_approve | hd_reject | hd_cancel | hd_rerun | hd_handoff | hd_mark_done
datatype WorkspaceLayout = node_root | thread_layout | project_layout | task_layout
datatype RunStatus = run_running | run_completed | run_failed | run_cancelled
datatype TeamPhase = phase_discussion | phase_execution | phase_review
datatype CollaborationPurpose = accomplish | discuss | purpose_review
datatype CollaborationStrategy = direct | room_strategy | review_strategy | coordinate
datatype CollaborationWorkKind = wk_coordination | wk_discussion | wk_planning | wk_implementation
  | wk_verification | wk_review | wk_repair | wk_synthesis
datatype DelegationAuthority = conductor

record team_snapshot =
  ts_teamId :: string
  ts_teamRevision :: "string option"
  ts_memberAgentIds :: "string list"
  ts_leadAgentId :: "string option"

record agent_run =
  ar_id :: string
  ar_assignmentId :: "string option"
  ar_workItemId :: "string option"
  ar_delegationAuthority :: "DelegationAuthority option"
  ar_dependsOnWorkItemIds :: "string list option"
  ar_workKind :: "CollaborationWorkKind option"
  ar_agent :: AgentName
  ar_logicalAgentId :: "string option"
  ar_daemonNodeId :: "string option"
  ar_placementId :: "string option"
  ar_agentVersion :: "int option"
  ar_workspaceIdentity :: "(string \<times> json) list option"
  ar_role :: "AgentRole option"
  ar_brief :: "string option"
  ar_coordinator :: bool
  ar_synthesizer :: bool
  ar_teamSnapshot :: "team_snapshot option"
  ar_teamPhase :: "TeamPhase option"
  ar_status :: RunStatus
  ar_startedAt :: string
  ar_completedAt :: "string option"
  ar_exitCode :: "int option"
  ar_agentLog :: "string option"
  ar_tokenUsage :: "token_usage option"
  ar_artifactIds :: "string list"

record relay_artifact =
  art_id :: string
  art_kind :: RelayArtifactKind
  art_title :: string
  art_path :: string
  art_createdAt :: string
  art_agentRunId :: "string option"
  art_bytes :: "int option"
  art_contentType :: "string option"
  art_workspaceRelativePath :: "string option"
  art_snapshotPath :: "string option"

record human_decision =
  hdec_id :: string
  hdec_kind :: HumanDecisionKind
  hdec_createdAt :: string
  hdec_note :: "string option"
  hdec_targetAgent :: "AgentName option"
  hdec_targetAgentId :: "string option"
  hdec_actorEmployeeId :: "string option"

record collaboration_work_item =
  wi_workItemId :: string
  wi_assignmentId :: string
  wi_ownerAgentId :: string
  wi_delegationAuthority :: DelegationAuthority
  wi_kind :: CollaborationWorkKind
  wi_objective :: string
  wi_dependsOnWorkItemIds :: "string list"
  wi_required :: bool

datatype round_address = RoomAddress | MembersAddress "string list"
datatype assignment_mode = mode_action | mode_ask | mode_review
datatype work_completion = all_required | synthesize

record round_assignment =
  ra_assignmentId :: string
  ra_agentId :: string
  ra_mode :: "assignment_mode option"
  ra_phase :: "TeamPhase option"
  ra_role :: "AgentRole option"
  ra_brief :: "string option"
  ra_coordinator :: "bool option"
  ra_synthesizer :: "bool option"

record work_graph =
  wg_contractVersion :: int
  wg_items :: "collaboration_work_item list"
  wg_completion :: work_completion
  wg_resultOwnerWorkItemId :: "string option"

record round_manifest =
  rm_contractVersion :: "int option"
  rm_collaborationId :: string
  rm_roundId :: string
  rm_source :: string
  rm_purpose :: CollaborationPurpose
  rm_strategy :: CollaborationStrategy
  rm_address :: round_address
  rm_teamSnapshot :: "team_snapshot option"
  rm_assignments :: "round_assignment list"
  rm_completionPolicy :: string
  rm_workGraph :: "work_graph option"

text \<open>The payload of \<open>session.created\<close> and of \<open>agent.started\<close>.\<close>

record session_created =
  sc_workspacePath :: string
  sc_workspaceLayout :: "WorkspaceLayout option"
  sc_projectId :: "string option"
  sc_workspaceSubpath :: "string option"
  sc_computerId :: "string option"
  sc_daemonNodeId :: "string option"
  sc_managedNodeId :: "string option"
  sc_ownerEmployeeId :: "string option"
  sc_teamId :: "string option"
  sc_taskGoal :: string
  sc_participants :: "string list"

record agent_started =
  st_runId :: string
  st_assignmentId :: "string option"
  st_workItemId :: "string option"
  st_delegationAuthority :: "DelegationAuthority option"
  st_dependsOnWorkItemIds :: "string list option"
  st_workKind :: "CollaborationWorkKind option"
  st_agent :: AgentName
  st_logicalAgentId :: "string option"
  st_placementId :: "string option"
  st_daemonNodeId :: "string option"
  st_managedNodeId :: "string option"
  st_agentVersion :: "int option"
  st_workspaceIdentity :: "(string \<times> json) list option"
  st_role :: "AgentRole option"
  st_brief :: "string option"
  st_coordinator :: "bool option"
  st_synthesizer :: "bool option"
  st_teamSnapshot :: "team_snapshot option"
  st_teamPhase :: "TeamPhase option"

datatype agent_stream = ast_stdout | ast_stderr

record output_entry =
  oe_stream :: agent_stream
  oe_text :: string
  oe_sequence :: int

text \<open>One constructor per \<open>type\<close> tag of \<open>RelayEvent\<close>.\<close>

datatype event_payload =
    SessionCreated session_created
  | UserMessage string "string option"
  | SessionStatusChanged SessionStatus string bool \<comment> \<open>status, phase, \<open>pendingDecision\<close> present\<close>
  | RoundStarted round_manifest
  | AgentStarted agent_started
  | AgentOutput string AgentName agent_stream string "int option"
  | AgentOutputBatch string AgentName "output_entry list"
  | AgentCollaboration string "string option" "string option" bool AgentName int codex_event
  | ArtifactCreated relay_artifact
  | HumanDecisionMade human_decision
  | AgentCompleted string "string option" AgentName RunStatus int "string option" "token_usage option"
  | SessionCompleted string
  | SessionFailed string
  | SessionArchived
  | RuntimeAffinity string
  | SessionRenamed string

record relay_event =
  ev_id :: string
  ev_sessionId :: string
  ev_timestamp :: string
  ev_payload :: event_payload

record relay_session =
  rs_id :: string
  rs_workspacePath :: string
  rs_workspaceLayout :: "WorkspaceLayout option"
  rs_projectId :: "string option"
  rs_workspaceSubpath :: "string option"
  rs_computerId :: "string option"
  rs_daemonNodeId :: "string option"
  rs_managedNodeId :: "string option"
  rs_ownerEmployeeId :: "string option"
  rs_teamId :: "string option"
  rs_title :: "string option"
  rs_taskGoal :: string
  rs_participants :: "string list"
  rs_status :: SessionStatus
  rs_phase :: string
  rs_createdAt :: string
  rs_updatedAt :: string
  rs_currentAgent :: "AgentName option"
  rs_pendingDecision :: bool
  rs_agentRuns :: "agent_run list"
  rs_artifacts :: "relay_artifact list"
  rs_decisions :: "human_decision list"
  rs_collaborationRounds :: "round_manifest list"
  rs_collaborationRevision :: nat
  rs_activeCollaborationId :: "string option"
  rs_activeRoundId :: "string option"
  rs_events :: "relay_event list"
  rs_finalOutcome :: "string option"
  rs_archived :: bool
  rs_tokenUsage :: "token_usage option"

section \<open>Materialisation\<close>

definition initial_session :: "relay_event \<Rightarrow> session_created \<Rightarrow> relay_session" where
  "initial_session ev c =
     \<lparr>rs_id = ev_sessionId ev,
      rs_workspacePath = sc_workspacePath c,
      rs_workspaceLayout = sc_workspaceLayout c,
      rs_projectId = None, rs_workspaceSubpath = None, rs_computerId = None,
      rs_daemonNodeId = truthy_or_none (sc_daemonNodeId c),
      rs_managedNodeId = truthy_or_none (sc_managedNodeId c),
      rs_ownerEmployeeId = truthy_or_none (sc_ownerEmployeeId c),
      rs_teamId = truthy_or_none (sc_teamId c),
      rs_title = None,
      rs_taskGoal = sc_taskGoal c,
      rs_participants = sc_participants c,
      rs_status = ss_running,
      rs_phase = ''created'',
      rs_createdAt = ev_timestamp ev,
      rs_updatedAt = ev_timestamp ev,
      rs_currentAgent = None, rs_pendingDecision = False,
      rs_agentRuns = [], rs_artifacts = [], rs_decisions = [], rs_collaborationRounds = [],
      rs_collaborationRevision = 0,
      rs_activeCollaborationId = None, rs_activeRoundId = None,
      rs_events = [],
      rs_finalOutcome = None, rs_archived = False, rs_tokenUsage = None\<rparr>"

text \<open>\<open>session.agentRuns.find((item) => item.id === runId)\<close> and a write to the run it finds.\<close>

fun update_first :: "('a \<Rightarrow> bool) \<Rightarrow> ('a \<Rightarrow> 'a) \<Rightarrow> 'a list \<Rightarrow> 'a list" where
  "update_first p f [] = []"
| "update_first p f (x # xs) = (if p x then f x # xs else x # update_first p f xs)"

definition started_run :: "agent_started \<Rightarrow> string \<Rightarrow> agent_run" where
  "started_run e t =
     \<lparr>ar_id = st_runId e,
      ar_assignmentId = truthy_or_none (st_assignmentId e),
      ar_workItemId = truthy_or_none (st_workItemId e),
      ar_delegationAuthority = st_delegationAuthority e,
      ar_dependsOnWorkItemIds = st_dependsOnWorkItemIds e,
      ar_workKind = st_workKind e,
      ar_agent = st_agent e,
      ar_logicalAgentId = truthy_or_none (st_logicalAgentId e),
      ar_daemonNodeId = truthy_or_none (st_daemonNodeId e),
      ar_placementId = truthy_or_none (st_placementId e),
      ar_agentVersion = st_agentVersion e,
      ar_workspaceIdentity = st_workspaceIdentity e,
      ar_role = st_role e,
      ar_brief = truthy_or_none (st_brief e),
      ar_coordinator = (st_coordinator e = Some True),
      ar_synthesizer = (st_synthesizer e = Some True),
      ar_teamSnapshot = st_teamSnapshot e,
      ar_teamPhase = st_teamPhase e,
      ar_status = run_running,
      ar_startedAt = t,
      ar_completedAt = None, ar_exitCode = None, ar_agentLog = None, ar_tokenUsage = None,
      ar_artifactIds = []\<rparr>"

definition complete_run ::
  "string \<Rightarrow> RunStatus \<Rightarrow> int \<Rightarrow> string option \<Rightarrow> token_usage option \<Rightarrow> agent_run \<Rightarrow> agent_run" where
  "complete_run t status code lg usage run =
     run\<lparr>ar_status := status, ar_completedAt := Some t, ar_exitCode := Some code,
         ar_agentLog := js_coalesce lg (ar_agentLog run),
         ar_tokenUsage := js_coalesce usage (ar_tokenUsage run)\<rparr>"

fun apply_payload :: "string \<Rightarrow> event_payload \<Rightarrow> relay_session \<Rightarrow> relay_session" where
  "apply_payload t (SessionStatusChanged status phase pending) s =
     s\<lparr>rs_status := status, rs_phase := phase, rs_pendingDecision := pending,
       rs_finalOutcome := (if status \<noteq> ss_completed \<and> status \<noteq> ss_failed then None else rs_finalOutcome s)\<rparr>"
| "apply_payload t (RoundStarted m) s =
     (let rounds = (if \<exists>r \<in> set (rs_collaborationRounds s). rm_roundId r = rm_roundId m
                    then rs_collaborationRounds s else rs_collaborationRounds s @ [m])
      in s\<lparr>rs_collaborationRounds := rounds,
           rs_collaborationRevision := length rounds,
           rs_activeCollaborationId := Some (rm_collaborationId m),
           rs_activeRoundId := Some (rm_roundId m)\<rparr>)"
| "apply_payload t (AgentStarted e) s =
     s\<lparr>rs_daemonNodeId := (if js_truthy (st_daemonNodeId e) \<and> \<not> js_truthy (rs_daemonNodeId s)
                           then st_daemonNodeId e else rs_daemonNodeId s),
       rs_managedNodeId := (if js_truthy (st_managedNodeId e) \<and> \<not> js_truthy (rs_managedNodeId s)
                            then st_managedNodeId e else rs_managedNodeId s),
       rs_status := ss_running,
       rs_phase := agent_id (st_agent e),
       rs_currentAgent := Some (st_agent e),
       rs_agentRuns := rs_agentRuns s @ [started_run e t]\<rparr>"
| "apply_payload t (AgentCompleted runId assignment agent status code lg usage) s =
     (let runs = update_first (\<lambda>r. ar_id r = runId) (complete_run t status code lg usage) (rs_agentRuns s)
      in s\<lparr>rs_agentRuns := runs,
           rs_tokenUsage := mergeTokenUsage (map ar_tokenUsage runs),
           rs_currentAgent := None,
           rs_phase := (if status = run_completed then ''agent_completed''
                        else if status = run_cancelled then ''cancelled'' else ''agent_failed'')\<rparr>)"
| "apply_payload t (ArtifactCreated a) s =
     s\<lparr>rs_artifacts := rs_artifacts s @ [a],
       rs_agentRuns :=
         (if js_truthy (art_agentRunId a)
          then update_first (\<lambda>r. Some (ar_id r) = art_agentRunId a)
                 (\<lambda>r. r\<lparr>ar_artifactIds := ar_artifactIds r @ [art_id a]\<rparr>) (rs_agentRuns s)
          else rs_agentRuns s)\<rparr>"
| "apply_payload t (HumanDecisionMade d) s =
     (let s1 = s\<lparr>rs_decisions := rs_decisions s @ [d],
                 rs_currentAgent := (if hdec_kind d = hd_handoff \<and> hdec_targetAgent d \<noteq> None
                                     then hdec_targetAgent d else rs_currentAgent s)\<rparr>
      in if hdec_kind d = hd_cancel
         then s1\<lparr>rs_status := ss_cancelled, rs_phase := ''cancelled'', rs_pendingDecision := False\<rparr>
         else s1)"
| "apply_payload t (SessionCompleted outcome) s =
     s\<lparr>rs_status := ss_completed, rs_phase := ''completed'', rs_finalOutcome := Some outcome,
       rs_currentAgent := None, rs_pendingDecision := False\<rparr>"
| "apply_payload t (SessionFailed outcome) s =
     s\<lparr>rs_status := ss_failed, rs_phase := ''failed'', rs_finalOutcome := Some outcome,
       rs_currentAgent := None, rs_pendingDecision := False\<rparr>"
| "apply_payload t SessionArchived s = s\<lparr>rs_archived := True\<rparr>"
| "apply_payload t (RuntimeAffinity node) s =
     (if js_truthy (rs_managedNodeId s) then s else s\<lparr>rs_managedNodeId := Some node\<rparr>)"
| "apply_payload t (SessionRenamed title) s = s\<lparr>rs_title := Some title\<rparr>"
| "apply_payload t _ s = s"

definition apply_session_event :: "relay_session \<Rightarrow> relay_event \<Rightarrow> relay_session" where
  "apply_session_event s ev =
     apply_payload (ev_timestamp ev) (ev_payload ev)
       (s\<lparr>rs_events := rs_events s @ [ev], rs_updatedAt := ev_timestamp ev\<rparr>)"

datatype store_error = MissingCreated string

fun find_session_created :: "relay_event list \<Rightarrow> (relay_event \<times> session_created) option" where
  "find_session_created [] = None"
| "find_session_created (ev # evs) =
     (case ev_payload ev of SessionCreated c \<Rightarrow> Some (ev, c) | _ \<Rightarrow> find_session_created evs)"

definition materializeEvents :: "relay_event list \<Rightarrow> store_error + relay_session" where
  "materializeEvents events =
     (case find_session_created events of
        None \<Rightarrow> Inl (MissingCreated ''Relay session event log is missing session.created.'')
      | Some (ev, c) \<Rightarrow> Inr (foldl apply_session_event (initial_session ev c) events))"


section \<open>The event log contract\<close>

lemma apply_payload_frame [simp]:
  "rs_events (apply_payload t p s) = rs_events s"
  "rs_updatedAt (apply_payload t p s) = rs_updatedAt s"
  "rs_id (apply_payload t p s) = rs_id s"
  "rs_workspacePath (apply_payload t p s) = rs_workspacePath s"
  "rs_workspaceLayout (apply_payload t p s) = rs_workspaceLayout s"
  "rs_projectId (apply_payload t p s) = rs_projectId s"
  "rs_workspaceSubpath (apply_payload t p s) = rs_workspaceSubpath s"
  "rs_ownerEmployeeId (apply_payload t p s) = rs_ownerEmployeeId s"
  "rs_teamId (apply_payload t p s) = rs_teamId s"
  "rs_taskGoal (apply_payload t p s) = rs_taskGoal s"
  "rs_participants (apply_payload t p s) = rs_participants s"
  "rs_createdAt (apply_payload t p s) = rs_createdAt s"
  by (induction t p s rule: apply_payload.induct) (simp_all add: Let_def)

interpretation session_log: event_log apply_session_event rs_events rs_updatedAt ev_timestamp
  by unfold_locales (simp_all add: apply_session_event_def)

lemma materializeEvents_cases:
  assumes "materializeEvents evs = Inr s"
  obtains ev c where "find_session_created evs = Some (ev, c)"
    and "s = foldl apply_session_event (initial_session ev c) evs"
  using assms by (auto simp: materializeEvents_def split: option.splits)

lemma find_session_created_append:
  "find_session_created xs = Some r \<Longrightarrow> find_session_created (xs @ ys) = Some r"
  by (induction xs) (auto split: event_payload.splits)

lemma find_session_created_None:
  "find_session_created evs = None \<longleftrightarrow> (\<forall>ev \<in> set evs. \<forall>c. ev_payload ev \<noteq> SessionCreated c)"
  by (induction evs) (auto split: event_payload.splits)

section \<open>The session invariant\<close>

text \<open>
  Every run points at artifacts the session has, the revision counts distinct rounds, the active
  round is one of them, the usage is the sum over the runs, a terminal outcome is only kept in
  a terminal state, and a run has an end time exactly when it is over.
\<close>

definition run_ok :: "agent_run \<Rightarrow> bool" where
  "run_ok r \<longleftrightarrow> (ar_completedAt r = None \<longleftrightarrow> ar_exitCode r = None) \<and>
     (ar_completedAt r = None \<longrightarrow> ar_status r = run_running \<and> ar_agentLog r = None \<and> ar_tokenUsage r = None)"

definition session_inv :: "relay_session \<Rightarrow> bool" where
  "session_inv s \<longleftrightarrow>
     (\<forall>r \<in> set (rs_agentRuns s). set (ar_artifactIds r) \<subseteq> art_id ` set (rs_artifacts s) \<and> run_ok r) \<and>
     distinct (map rm_roundId (rs_collaborationRounds s)) \<and>
     rs_collaborationRevision s = length (rs_collaborationRounds s) \<and>
     (\<forall>i. rs_activeRoundId s = Some i \<longrightarrow> i \<in> rm_roundId ` set (rs_collaborationRounds s)) \<and>
     rs_tokenUsage s = mergeTokenUsage (map ar_tokenUsage (rs_agentRuns s))"

lemma set_update_first: "x \<in> set (update_first p f xs) \<Longrightarrow> x \<in> set xs \<or> (\<exists>y \<in> set xs. p y \<and> x = f y)"
  by (induction xs) (auto split: if_splits)

lemma map_update_first [simp]: "(\<And>x. g (f x) = g x) \<Longrightarrow> map g (update_first p f xs) = map g xs"
  by (induction xs) auto

lemma length_update_first [simp]: "length (update_first p f xs) = length xs"
  by (induction xs) auto

lemma mergeTokenUsage_snoc_None [simp]: "mergeTokenUsage (vs @ [None]) = mergeTokenUsage vs"
  by (simp add: mergeTokenUsage_sum)

lemma apply_payload_inv: "session_inv s \<Longrightarrow> session_inv (apply_payload t p s)"
proof (induction t p s rule: apply_payload.induct)
  case (2 t m s)
  then show ?case by (auto simp: session_inv_def Let_def intro: rev_image_eqI)
next
  case (3 t e s)
  then show ?case by (auto simp: session_inv_def started_run_def run_ok_def)
next
  case (4 t runId assignment agent status code lg usage s)
  have "run_ok (complete_run t status code lg usage r)" for r
    by (simp add: run_ok_def complete_run_def)
  moreover have "ar_artifactIds (complete_run t status code lg usage r) = ar_artifactIds r" for r
    by (simp add: complete_run_def)
  ultimately show ?case using 4
    by (fastforce simp: session_inv_def Let_def dest!: set_update_first)
next
  case (5 t a s)
  then show ?case
    by (fastforce simp: session_inv_def run_ok_def dest!: set_update_first)
qed (auto simp: session_inv_def Let_def)

lemma initial_session_inv: "session_inv (initial_session ev c)"
  by (simp add: session_inv_def initial_session_def mergeTokenUsage_def)

lemma session_inv_replay: "session_inv s \<Longrightarrow> session_inv (foldl apply_session_event s evs)"
proof (rule session_log.replay_inv)
  fix s ev
  assume "session_inv s"
  then have "session_inv (s\<lparr>rs_events := rs_events s @ [ev], rs_updatedAt := ev_timestamp ev\<rparr>)"
    by (simp add: session_inv_def)
  then show "session_inv (apply_session_event s ev)"
    unfolding apply_session_event_def by (rule apply_payload_inv)
qed

section \<open>What never changes once set\<close>

text \<open>
  Runtime affinity: the computer a session runs on is adopted once. Runs, decisions and
  artifacts only grow, and archiving is permanent.
\<close>

definition session_grows :: "relay_session \<Rightarrow> relay_session \<Rightarrow> bool" where
  "session_grows s t \<longleftrightarrow>
     (js_truthy (rs_daemonNodeId s) \<longrightarrow> rs_daemonNodeId t = rs_daemonNodeId s) \<and>
     (js_truthy (rs_managedNodeId s) \<longrightarrow> rs_managedNodeId t = rs_managedNodeId s) \<and>
     prefix (map ar_id (rs_agentRuns s)) (map ar_id (rs_agentRuns t)) \<and>
     prefix (rs_artifacts s) (rs_artifacts t) \<and>
     prefix (rs_decisions s) (rs_decisions t) \<and>
     prefix (rs_collaborationRounds s) (rs_collaborationRounds t) \<and>
     (rs_archived s \<longrightarrow> rs_archived t)"

lemma session_grows_refl: "session_grows s s"
  by (simp add: session_grows_def)

lemma session_grows_trans: "session_grows s t \<Longrightarrow> session_grows t u \<Longrightarrow> session_grows s u"
  unfolding session_grows_def by (auto intro: prefix_order.trans)

lemma apply_payload_grows: "session_grows s (apply_payload t p s)"
  by (induction t p s rule: apply_payload.induct)
     (auto simp: session_grows_def Let_def complete_run_def)

lemma apply_session_event_grows: "session_grows s (apply_session_event s ev)"
proof -
  have "session_grows s (s\<lparr>rs_events := rs_events s @ [ev], rs_updatedAt := ev_timestamp ev\<rparr>)"
    by (simp add: session_grows_def)
  from session_grows_trans [OF this apply_payload_grows] show ?thesis
    by (simp add: apply_session_event_def)
qed

lemma session_grows_replay: "session_grows s (foldl apply_session_event s evs)"
  using session_grows_refl session_grows_trans apply_session_event_grows by (rule session_log.replay_rel)

section \<open>Properties\<close>

text \<open>C3. Every log either holds no \<open>session.created\<close> event and is rejected, or materialises to a session
  that satisfies the session invariant, carries the log and is stamped with its last event.\<close>

theorem materialized_session_ok:
  "case materializeEvents evs of
     Inl _ \<Rightarrow> list_all (\<lambda>ev. \<forall>c. ev_payload ev \<noteq> SessionCreated c) evs
   | Inr s \<Rightarrow> session_inv s \<and> rs_events s = evs \<and> rs_updatedAt s = ev_timestamp (last evs)"
proof (cases "materializeEvents evs")
  case (Inl a)
  then show ?thesis
    by (auto simp: materializeEvents_def find_session_created_None list_all_iff split: option.splits)
next
  case (Inr s)
  then obtain ev c where c: "find_session_created evs = Some (ev, c)"
      and s: "s = foldl apply_session_event (initial_session ev c) evs"
    by (rule materializeEvents_cases)
  have "evs \<noteq> []" using c by auto
  with s Inr show ?thesis
    by (simp add: session_inv_replay initial_session_inv session_log.replay_events
        session_log.replay_updated) (simp add: initial_session_def)
qed

text \<open>C5. Replay is incremental: appending events to a valid log continues from the session built so far,
  and on the way the computer a session is bound to never changes, runs, artifacts, decisions and
  rounds are only added, and an archived session stays archived.\<close>

theorem materialize_incremental:
  assumes "materializeEvents xs = Inr s"
  shows "materializeEvents (xs @ ys) = Inr (foldl apply_session_event s ys) \<and>
         session_grows s (foldl apply_session_event s ys)"
  using assms session_grows_replay
  by (auto simp: materializeEvents_def find_session_created_append split: option.splits)

definition sample_created :: relay_event where
  "sample_created = \<lparr>ev_id = ''e1'', ev_sessionId = ''s1'', ev_timestamp = ''t1'',
     ev_payload = SessionCreated \<lparr>sc_workspacePath = ''/w'', sc_workspaceLayout = None,
       sc_projectId = Some ''p1'', sc_workspaceSubpath = None, sc_computerId = None,
       sc_daemonNodeId = None, sc_managedNodeId = None, sc_ownerEmployeeId = None,
       sc_teamId = None, sc_taskGoal = ''g'', sc_participants = []\<rparr>\<rparr>"

theorem materialize_incremental_witness:
  "\<exists>s. materializeEvents [sample_created] = Inr s \<and>
       materializeEvents ([sample_created] @ [sample_created\<lparr>ev_payload := RuntimeAffinity ''n1''\<rparr>]) =
         Inr (foldl apply_session_event s [sample_created\<lparr>ev_payload := RuntimeAffinity ''n1''\<rparr>])"
proof -
  obtain s where "materializeEvents [sample_created] = Inr s"
    by (simp add: materializeEvents_def sample_created_def)
  with materialize_incremental show ?thesis by blast
qed

text \<open>The project of \<open>session.created\<close> is not copied into the session.\<close>

lemma created_project_dropped:
  "case materializeEvents [sample_created] of Inl _ \<Rightarrow> False | Inr s \<Rightarrow> rs_projectId s = None"
  by (simp add: materializeEvents_def sample_created_def apply_session_event_def initial_session_def)

end
