(* ===== verification/Task_Events.thy ===== *)
theory Task_Events
  imports Event_Log Agent_State
begin

text \<open>
  Backlog tasks and their event log: \<open>packages/relay-core/src/task-store.ts\<close>.
  \<open>materializeTaskEvents\<close> folds the log with \<open>apply_task_event\<close>, the \<open>else if\<close> chain of its loop.
\<close>

section \<open>Data\<close>

datatype TaskPriority = low | normal_priority | high
datatype TaskStatus = ts_backlog | ts_assigned | ts_running | ts_waiting_for_human | ts_review
  | ts_done | ts_blocked
datatype TaskRoutineType = routine_task | routine_job
datatype TaskRoutineCadence = daily | weekly | monthly | custom
datatype DispatchState = dispatch_started | dispatch_queued | dispatch_rejected

record task_activity =
  act_id :: string
  act_createdAt :: string
  act_message :: string
  act_agent :: "AgentName option"
  act_sessionId :: "string option"

record dispatch_claim =
  dc_id :: string
  dc_claimedAt :: string
  dc_expiresAt :: string

record dispatch_outcome =
  do_state :: DispatchState
  do_code :: "string option"
  do_message :: "string option"

text \<open>The routine fields of \<open>task.created\<close> and \<open>task.updated\<close>; \<open>None\<close> is \<open>undefined\<close>.\<close>

record routine_fields =
  rf_isRoutine :: "bool option"
  rf_routineType :: "TaskRoutineType option"
  rf_routineCadence :: "TaskRoutineCadence option"
  rf_routineNextRunDate :: "string option"
  rf_routineEnabled :: "bool option"

record task_created =
  tc_title :: string
  tc_description :: string
  tc_priority :: TaskPriority
  tc_ownerEmployeeId :: "string option"
  tc_projectId :: "string option"
  tc_assigneeEmployeeId :: "string option"
  tc_dueDate :: "string option"
  tc_routine :: routine_fields
  tc_sourceRoutineId :: "string option"
  tc_scheduledFor :: "string option"

record task_updated =
  up_title :: "string option"
  up_description :: "string option"
  up_priority :: "TaskPriority option"
  up_assigneeEmployeeId :: "string option"
  up_dueDate :: "string option"
  up_routine :: routine_fields

datatype task_payload =
    TaskCreated task_created
  | TaskUpdated task_updated
  | TaskAssignedAgent AgentName "string option"
  | TaskAssignedTeam string
  | TaskUnassigned
  | DispatchClaimed dispatch_claim
  | DispatchReleased string
  | DispatchOutcome dispatch_outcome
  | OccurrenceCreated string string
  | TaskStatusChanged TaskStatus "string option"
  | TaskDeleted
  | SessionLinked string
  | SessionUnlinked string
  | TaskActivity task_activity

record task_event =
  te_id :: string
  te_taskId :: string
  te_timestamp :: string
  te_payload :: task_payload

record relay_task =
  rt_id :: string
  rt_title :: string
  rt_description :: string
  rt_priority :: TaskPriority
  rt_status :: TaskStatus
  rt_ownerEmployeeId :: "string option"
  rt_projectId :: "string option"
  rt_assigneeEmployeeId :: "string option"
  rt_dueDate :: "string option"
  rt_isRoutine :: bool
  rt_routineType :: "TaskRoutineType option"
  rt_routineCadence :: "TaskRoutineCadence option"
  rt_routineNextRunDate :: "string option"
  rt_routineEnabled :: bool
  rt_sourceRoutineId :: "string option"
  rt_scheduledFor :: "string option"
  rt_occurrenceIds :: "string list"
  rt_assignedAgent :: "AgentName option"
  rt_assignedAgentId :: "string option"
  rt_assignedTeamId :: "string option"
  rt_dispatchClaim :: "dispatch_claim option"
  rt_dispatchOutcome :: "dispatch_outcome option"
  rt_linkedSessionIds :: "string list"
  rt_activity :: "task_activity list"
  rt_createdAt :: string
  rt_updatedAt :: string
  rt_deletedAt :: "string option"
  rt_events :: "task_event list"

section \<open>Materialisation\<close>

definition apply_routine_settings :: "routine_fields \<Rightarrow> relay_task \<Rightarrow> relay_task" where
  "apply_routine_settings e t =
     (if \<not> rt_isRoutine t then t
      else t\<lparr>rt_routineEnabled := (case rf_routineEnabled e of None \<Rightarrow> rt_routineEnabled t | Some b \<Rightarrow> b),
             rt_routineType := js_coalesce (rf_routineType e) (rt_routineType t),
             rt_routineCadence := js_coalesce (rf_routineCadence e) (rt_routineCadence t),
             rt_routineNextRunDate :=
               (case rf_routineNextRunDate e of
                  None \<Rightarrow> rt_routineNextRunDate t
                | Some d \<Rightarrow> if d = [] then None else Some d)\<rparr>)"

definition applyRoutineFields :: "routine_fields \<Rightarrow> relay_task \<Rightarrow> relay_task" where
  "applyRoutineFields e t =
     (case rf_isRoutine e of
        None \<Rightarrow> apply_routine_settings e t
      | Some False \<Rightarrow>
          t\<lparr>rt_isRoutine := False, rt_routineEnabled := False, rt_routineType := None,
            rt_routineCadence := None, rt_routineNextRunDate := None\<rparr>
      | Some True \<Rightarrow> apply_routine_settings e (t\<lparr>rt_isRoutine := True\<rparr>))"

definition initial_task :: "task_event \<Rightarrow> task_created \<Rightarrow> relay_task" where
  "initial_task ev c =
     applyRoutineFields (tc_routine c)
     \<lparr>rt_id = te_taskId ev, rt_title = tc_title c, rt_description = tc_description c,
      rt_priority = tc_priority c, rt_status = ts_backlog,
      rt_ownerEmployeeId = truthy_or_none (tc_ownerEmployeeId c),
      rt_projectId = truthy_or_none (tc_projectId c),
      rt_assigneeEmployeeId = truthy_or_none (tc_assigneeEmployeeId c),
      rt_dueDate = truthy_or_none (tc_dueDate c),
      rt_isRoutine = (rf_isRoutine (tc_routine c) = Some True),
      rt_routineType = None, rt_routineCadence = None, rt_routineNextRunDate = None,
      rt_routineEnabled = (rf_routineEnabled (tc_routine c) = Some True),
      rt_sourceRoutineId = truthy_or_none (tc_sourceRoutineId c),
      rt_scheduledFor = truthy_or_none (tc_scheduledFor c),
      rt_occurrenceIds = [], rt_assignedAgent = None, rt_assignedAgentId = None,
      rt_assignedTeamId = None, rt_dispatchClaim = None, rt_dispatchOutcome = None,
      rt_linkedSessionIds = [], rt_activity = [],
      rt_createdAt = te_timestamp ev, rt_updatedAt = te_timestamp ev, rt_deletedAt = None,
      rt_events = []\<rparr>"

fun apply_task_payload :: "string \<Rightarrow> task_payload \<Rightarrow> relay_task \<Rightarrow> relay_task" where
  "apply_task_payload ts (TaskUpdated u) t =
     applyRoutineFields (up_routine u)
       (t\<lparr>rt_title := (case up_title u of None \<Rightarrow> rt_title t | Some x \<Rightarrow> x),
          rt_description := (case up_description u of None \<Rightarrow> rt_description t | Some x \<Rightarrow> x),
          rt_priority := (case up_priority u of None \<Rightarrow> rt_priority t | Some x \<Rightarrow> x),
          rt_assigneeEmployeeId :=
            (case up_assigneeEmployeeId u of None \<Rightarrow> rt_assigneeEmployeeId t
             | Some x \<Rightarrow> if x = [] then None else Some x),
          rt_dueDate := (case up_dueDate u of None \<Rightarrow> rt_dueDate t
                         | Some x \<Rightarrow> if x = [] then None else Some x)\<rparr>)"
| "apply_task_payload ts (TaskAssignedTeam team) t =
     t\<lparr>rt_assignedTeamId := Some team, rt_assignedAgent := None, rt_assignedAgentId := None\<rparr>"
| "apply_task_payload ts (TaskAssignedAgent agent agentId) t =
     t\<lparr>rt_assignedAgent := Some agent, rt_assignedAgentId := truthy_or_none agentId,
       rt_assignedTeamId := None\<rparr>"
| "apply_task_payload ts TaskUnassigned t =
     t\<lparr>rt_assignedAgent := None, rt_assignedAgentId := None, rt_assignedTeamId := None\<rparr>"
| "apply_task_payload ts (DispatchClaimed claim) t = t\<lparr>rt_dispatchClaim := Some claim\<rparr>"
| "apply_task_payload ts (DispatchReleased claimId) t =
     (if map_option dc_id (rt_dispatchClaim t) = Some claimId then t\<lparr>rt_dispatchClaim := None\<rparr> else t)"
| "apply_task_payload ts (DispatchOutcome outcome) t = t\<lparr>rt_dispatchOutcome := Some outcome\<rparr>"
| "apply_task_payload ts (OccurrenceCreated occ scheduledFor) t =
     (if occ \<in> set (rt_occurrenceIds t) then t else t\<lparr>rt_occurrenceIds := rt_occurrenceIds t @ [occ]\<rparr>)"
| "apply_task_payload ts (TaskStatusChanged status reason) t = t\<lparr>rt_status := status\<rparr>"
| "apply_task_payload ts TaskDeleted t = t\<lparr>rt_deletedAt := Some ts\<rparr>"
| "apply_task_payload ts (SessionLinked sid) t =
     (if sid \<in> set (rt_linkedSessionIds t) then t
      else t\<lparr>rt_linkedSessionIds := rt_linkedSessionIds t @ [sid]\<rparr>)"
| "apply_task_payload ts (SessionUnlinked sid) t =
     t\<lparr>rt_linkedSessionIds := filter (\<lambda>x. x \<noteq> sid) (rt_linkedSessionIds t)\<rparr>"
| "apply_task_payload ts (TaskActivity a) t = t\<lparr>rt_activity := rt_activity t @ [a]\<rparr>"
| "apply_task_payload ts (TaskCreated c) t = t"

definition apply_task_event :: "relay_task \<Rightarrow> task_event \<Rightarrow> relay_task" where
  "apply_task_event t ev =
     apply_task_payload (te_timestamp ev) (te_payload ev)
       (t\<lparr>rt_events := rt_events t @ [ev], rt_updatedAt := te_timestamp ev\<rparr>)"

datatype task_store_error = MissingTaskCreated string

fun find_task_created :: "task_event list \<Rightarrow> (task_event \<times> task_created) option" where
  "find_task_created [] = None"
| "find_task_created (ev # evs) =
     (case te_payload ev of TaskCreated c \<Rightarrow> Some (ev, c) | _ \<Rightarrow> find_task_created evs)"

definition materializeTaskEvents :: "task_event list \<Rightarrow> task_store_error + relay_task" where
  "materializeTaskEvents events =
     (case find_task_created events of
        None \<Rightarrow> Inl (MissingTaskCreated ''Relay task event log is missing task.created.'')
      | Some (ev, c) \<Rightarrow> Inr (foldl apply_task_event (initial_task ev c) events))"

text \<open>The value parsers at the end of the file.\<close>

definition taskPriority :: "json \<Rightarrow> TaskPriority option" where
  "taskPriority v =
     (if v = JStr ''low'' then Some low else if v = JStr ''normal'' then Some normal_priority
      else if v = JStr ''high'' then Some high else None)"

definition taskStatus :: "json \<Rightarrow> TaskStatus option" where
  "taskStatus v =
     (if v = JStr ''backlog'' then Some ts_backlog else if v = JStr ''assigned'' then Some ts_assigned
      else if v = JStr ''running'' then Some ts_running
      else if v = JStr ''waiting_for_human'' then Some ts_waiting_for_human
      else if v = JStr ''review'' then Some ts_review else if v = JStr ''done'' then Some ts_done
      else if v = JStr ''blocked'' then Some ts_blocked else None)"

definition taskRoutineType :: "json \<Rightarrow> TaskRoutineType option" where
  "taskRoutineType v =
     (if v = JStr ''task'' then Some routine_task else if v = JStr ''job'' then Some routine_job else None)"

definition taskRoutineCadence :: "json \<Rightarrow> TaskRoutineCadence option" where
  "taskRoutineCadence v =
     (if v = JStr ''daily'' then Some daily else if v = JStr ''weekly'' then Some weekly
      else if v = JStr ''monthly'' then Some monthly else if v = JStr ''custom'' then Some custom else None)"

section \<open>The event log contract\<close>

lemma applyRoutineFields_frame [simp]:
  "rt_events (applyRoutineFields e t) = rt_events t"
  "rt_updatedAt (applyRoutineFields e t) = rt_updatedAt t"
  "rt_assignedAgent (applyRoutineFields e t) = rt_assignedAgent t"
  "rt_assignedAgentId (applyRoutineFields e t) = rt_assignedAgentId t"
  "rt_assignedTeamId (applyRoutineFields e t) = rt_assignedTeamId t"
  "rt_occurrenceIds (applyRoutineFields e t) = rt_occurrenceIds t"
  "rt_linkedSessionIds (applyRoutineFields e t) = rt_linkedSessionIds t"
  "rt_dispatchClaim (applyRoutineFields e t) = rt_dispatchClaim t"
  by (auto simp: applyRoutineFields_def apply_routine_settings_def split: option.split bool.split)

lemma apply_task_payload_frame [simp]:
  "rt_events (apply_task_payload ts p t) = rt_events t"
  "rt_updatedAt (apply_task_payload ts p t) = rt_updatedAt t"
  by (induction ts p t rule: apply_task_payload.induct) simp_all

interpretation task_log: event_log apply_task_event rt_events rt_updatedAt te_timestamp
  by unfold_locales (simp_all add: apply_task_event_def)

lemma materializeTaskEvents_cases:
  assumes "materializeTaskEvents evs = Inr t"
  obtains ev c where "find_task_created evs = Some (ev, c)" and "(ev :: task_event) \<in> set evs"
    and "te_payload ev = TaskCreated c" and "t = foldl apply_task_event (initial_task ev c) evs"
proof -
  have *: "find_task_created es = Some (ev, c) \<Longrightarrow> ev \<in> set es \<and> te_payload ev = TaskCreated c" for es ev c
    by (induction es) (auto split: task_payload.splits)
  show ?thesis using assms that
    by (auto simp: materializeTaskEvents_def dest: * split: option.splits)
qed

section \<open>The task invariant\<close>

definition task_inv :: "relay_task \<Rightarrow> bool" where
  "task_inv t \<longleftrightarrow>
     \<not> (rt_assignedTeamId t \<noteq> None \<and> rt_assignedAgent t \<noteq> None) \<and>
     (rt_assignedAgentId t \<noteq> None \<longrightarrow> rt_assignedAgent t \<noteq> None) \<and>
     distinct (rt_occurrenceIds t) \<and> distinct (rt_linkedSessionIds t) \<and>
     (\<not> rt_isRoutine t \<longrightarrow>
        rt_routineType t = None \<and> rt_routineCadence t = None \<and> rt_routineNextRunDate t = None)"

text \<open>A task that is no routine is not an enabled one either.\<close>

definition routine_switch_ok :: "relay_task \<Rightarrow> bool" where
  "routine_switch_ok t \<longleftrightarrow> (rt_routineEnabled t \<longrightarrow> rt_isRoutine t)"

lemma applyRoutineFields_inv: "task_inv t \<Longrightarrow> task_inv (applyRoutineFields e t)"
  by (auto simp: task_inv_def applyRoutineFields_def apply_routine_settings_def split: option.split bool.split)

lemma applyRoutineFields_switch: "routine_switch_ok t \<Longrightarrow> routine_switch_ok (applyRoutineFields e t)"
  by (auto simp: routine_switch_ok_def applyRoutineFields_def apply_routine_settings_def
           split: option.split bool.split)

lemma apply_task_payload_inv: "task_inv t \<Longrightarrow> task_inv (apply_task_payload ts p t)"
proof (induction ts p t rule: apply_task_payload.induct)
  case (1 ts u t)
  then show ?case
    unfolding apply_task_payload.simps by (intro applyRoutineFields_inv) (simp add: task_inv_def)
qed (auto simp: task_inv_def truthy_or_none_def)

lemma apply_task_payload_switch: "routine_switch_ok t \<Longrightarrow> routine_switch_ok (apply_task_payload ts p t)"
proof (induction ts p t rule: apply_task_payload.induct)
  case (1 ts u t)
  then show ?case
    unfolding apply_task_payload.simps by (intro applyRoutineFields_switch) (simp add: routine_switch_ok_def)
qed (auto simp: routine_switch_ok_def)

lemma initial_task_inv: "task_inv (initial_task ev c)"
  unfolding initial_task_def by (rule applyRoutineFields_inv) (simp add: task_inv_def)

lemma initial_task_switch:
  "rf_routineEnabled (tc_routine c) = Some True \<longrightarrow> rf_isRoutine (tc_routine c) \<noteq> None \<Longrightarrow>
   routine_switch_ok (initial_task ev c)"
  by (auto simp: initial_task_def routine_switch_ok_def applyRoutineFields_def apply_routine_settings_def
           split: option.split bool.split)

lemma task_inv_replay: "task_inv t \<Longrightarrow> task_inv (foldl apply_task_event t evs)"
proof (rule task_log.replay_inv)
  fix t ev
  assume "task_inv t"
  then have "task_inv (t\<lparr>rt_events := rt_events t @ [ev], rt_updatedAt := te_timestamp ev\<rparr>)"
    by (simp add: task_inv_def)
  then show "task_inv (apply_task_event t ev)"
    unfolding apply_task_event_def by (rule apply_task_payload_inv)
qed

lemma routine_switch_replay: "routine_switch_ok t \<Longrightarrow> routine_switch_ok (foldl apply_task_event t evs)"
proof (rule task_log.replay_inv)
  fix t ev
  assume "routine_switch_ok t"
  then have "routine_switch_ok (t\<lparr>rt_events := rt_events t @ [ev], rt_updatedAt := te_timestamp ev\<rparr>)"
    by (simp add: routine_switch_ok_def)
  then show "routine_switch_ok (apply_task_event t ev)"
    unfolding apply_task_event_def by (rule apply_task_payload_switch)
qed

section \<open>Dispatch claims\<close>

text \<open>The claim a log leaves: the last one claimed, unless that very claim was released later.\<close>

fun claim_after :: "dispatch_claim option \<Rightarrow> task_event list \<Rightarrow> dispatch_claim option" where
  "claim_after c [] = c"
| "claim_after c (ev # evs) =
     claim_after (case te_payload ev of
         DispatchClaimed d \<Rightarrow> Some d
       | DispatchReleased i \<Rightarrow> (if map_option dc_id c = Some i then None else c)
       | _ \<Rightarrow> c) evs"

lemma dispatchClaim_replay:
  "rt_dispatchClaim (foldl apply_task_event t evs) = claim_after (rt_dispatchClaim t) evs"
proof (induction evs arbitrary: t)
  case (Cons ev evs)
  have "rt_dispatchClaim (apply_task_event t ev) = (case te_payload ev of
         DispatchClaimed d \<Rightarrow> Some d
       | DispatchReleased i \<Rightarrow> (if map_option dc_id (rt_dispatchClaim t) = Some i then None else rt_dispatchClaim t)
       | _ \<Rightarrow> rt_dispatchClaim t)"
    by (cases "te_payload ev"; cases "rt_dispatchClaim t") (simp_all add: apply_task_event_def)
  with Cons.IH show ?case by simp
qed simp

section \<open>Properties\<close>

text \<open>C4. Every materialised task satisfies the task invariant: it is assigned to an agent or to a team but
  never to both, occurrences and linked sessions are listed once, and a task that is no routine has no
  routine schedule; the log is kept and the update time is that of the last event.\<close>

theorem materialized_task_ok:
  "case materializeTaskEvents evs of
     Inl _ \<Rightarrow> find_task_created evs = None
   | Inr t \<Rightarrow> task_inv t \<and> rt_events t = evs \<and> rt_updatedAt t = te_timestamp (last evs)"
proof (cases "materializeTaskEvents evs")
  case (Inl a)
  then show ?thesis by (auto simp: materializeTaskEvents_def split: option.splits)
next
  case (Inr t)
  then obtain ev c where c: "(ev :: task_event) \<in> set evs" and t: "t = foldl apply_task_event (initial_task ev c) evs"
    by (rule materializeTaskEvents_cases)
  have "evs \<noteq> []" using c by auto
  with t Inr show ?thesis
    by (simp add: task_inv_replay initial_task_inv task_log.replay_events task_log.replay_updated)
       (simp add: initial_task_def)
qed

text \<open>The dispatch claim a task carries is the last one claimed, unless that very claim was released
  after; releasing any other claim, by a dispatcher whose lease was taken over, changes nothing.\<close>

theorem dispatch_claim_last:
  "case materializeTaskEvents evs of
     Inl _ \<Rightarrow> True
   | Inr t \<Rightarrow> rt_dispatchClaim t = claim_after None evs"
  by (auto simp: materializeTaskEvents_def dispatchClaim_replay initial_task_def split: option.split)

text \<open>A created event that enables its routine switch only together with the routine flag never
  leads, by any later events, to an enabled task that is not a routine.\<close>

theorem routine_switch_consistent:
  assumes "materializeTaskEvents evs = Inr t" and "find_task_created evs = Some (ev, c)"
    and "rf_routineEnabled (tc_routine c) = Some True \<longrightarrow> rf_isRoutine (tc_routine c) \<noteq> None"
  shows "routine_switch_ok t"
  using assms by (auto simp: materializeTaskEvents_def intro!: routine_switch_replay initial_task_switch)

definition sample_task_created :: "bool option \<Rightarrow> task_event" where
  "sample_task_created isRoutine = \<lparr>te_id = ''e'', te_taskId = ''t'', te_timestamp = ''n'',
     te_payload = TaskCreated \<lparr>tc_title = ''x'', tc_description = [], tc_priority = low,
       tc_ownerEmployeeId = None, tc_projectId = None, tc_assigneeEmployeeId = None, tc_dueDate = None,
       tc_routine = \<lparr>rf_isRoutine = isRoutine, rf_routineType = None, rf_routineCadence = None,
         rf_routineNextRunDate = None, rf_routineEnabled = Some True\<rparr>,
       tc_sourceRoutineId = None, tc_scheduledFor = None\<rparr>\<rparr>"

theorem routine_switch_consistent_witness:
  "\<exists>t. materializeTaskEvents [sample_task_created (Some True)] = Inr t \<and> routine_switch_ok t"
proof -
  obtain c where c: "te_payload (sample_task_created (Some True)) = TaskCreated c"
      "rf_isRoutine (tc_routine c) = Some True"
    by (simp add: sample_task_created_def)
  then have f: "find_task_created [sample_task_created (Some True)] = Some (sample_task_created (Some True), c)"
    by simp
  then obtain t where t: "materializeTaskEvents [sample_task_created (Some True)] = Inr t"
    by (simp add: materializeTaskEvents_def)
  have "routine_switch_ok t" using c(2) by (intro routine_switch_consistent [OF t f]) simp
  with t show ?thesis by simp
qed

text \<open>Without the flag the switch stays on for a task that is no routine.\<close>

lemma routine_switch_left_on:
  "case materializeTaskEvents [sample_task_created None] of
     Inl _ \<Rightarrow> False | Inr t \<Rightarrow> \<not> routine_switch_ok t"
  by (simp add: materializeTaskEvents_def sample_task_created_def routine_switch_ok_def
      initial_task_def applyRoutineFields_def apply_routine_settings_def apply_task_event_def)

end
