(* ===== verification/Daemon_Protocol.thy ===== *)
theory Daemon_Protocol
  imports Session_Events
begin

text \<open>
  The wire types between the backend and a daemon node:
  \<open>packages/relay-core/src/daemon-node-protocol.ts\<close> and \<open>daemon-protocol.ts\<close>. A record per
  interface, a datatype per union; optional fields are options. Partial records keyed by agent
  name are maps.
\<close>

datatype DaemonNodeStatus = dn_ready | dn_busy | dn_stopped
datatype DaemonNodeSandboxMode = sandbox_none | sandbox_boxlite
datatype DaemonAgentAdapter = adapter_cli | adapter_service
datatype DaemonAgentHealthStatus = health_ready | health_failed
datatype DaemonMcpTransport = transport_stdio | transport_sse | transport_http
datatype DaemonNodeCapability = cap_generated_files | cap_workspace_read_shared
  | cap_structured_agent_events | cap_thread_workspaces | cap_project_workspaces
  | cap_task_workspaces | cap_round_result
datatype RoundStatus = round_done | round_continue | round_blocked
datatype DaemonWorkspaceErrorCode = we_invalid_path | we_not_found | we_is_directory | we_io_error

record agent_health =
  ah_status :: DaemonAgentHealthStatus
  ah_detail :: "string option"
  ah_version :: "string option"
  ah_adapter :: "DaemonAgentAdapter option"

record agent_skill =
  ask_name :: string
  ask_namespace :: "string option"
  ask_description :: "string option"

record agent_mcp_server =
  ams_name :: string
  ams_transport :: DaemonMcpTransport
  ams_command :: "string option"

record agent_inventory =
  inv_skills :: "agent_skill list"
  inv_mcpServers :: "agent_mcp_server list"

record executor_capability =
  xc_executorKind :: AgentName
  xc_status :: DaemonAgentHealthStatus
  xc_adapter :: DaemonAgentAdapter
  xc_maxConcurrentRuns :: int
  xc_inventory :: "agent_inventory option"
  xc_configurationFingerprint :: "string option"

definition DAEMON_NODE_PROTOCOL_VERSION :: int where
  "DAEMON_NODE_PROTOCOL_VERSION = 2"

definition DAEMON_NODE_SUPPORTED_PROTOCOL_VERSIONS :: "int list" where
  "DAEMON_NODE_SUPPORTED_PROTOCOL_VERSIONS = [2, 1]"

record round_result =
  rr_status :: RoundStatus
  rr_note :: "string option"

record generated_file =
  gf_relativePath :: string
  gf_title :: string
  gf_bytes :: int
  gf_contentType :: string
  gf_contentBase64 :: "string option"

record node_registration =
  reg_sandboxId :: string
  reg_employeeId :: "string option"
  reg_token :: string
  reg_workspacePath :: "string option"
  reg_workspaceId :: "string option"
  reg_sandboxMode :: "DaemonNodeSandboxMode option"
  reg_protocolVersion :: int
  reg_supportedAgents :: "AgentName list"
  reg_executorCapabilities :: "executor_capability list option"
  reg_capabilities :: "DaemonNodeCapability list option"
  reg_agentHealth :: "(AgentName \<rightharpoonup> agent_health) option"
  reg_agentInventory :: "(AgentName \<rightharpoonup> agent_inventory) option"
  reg_maxConcurrentRuns :: "int option"
  reg_status :: "DaemonNodeStatus option"

record heartbeat_settings =
  hb_intervalMs :: int
  hb_timeoutMs :: int
  hb_observedAt :: "string option"

record command_lease =
  cl_commandId :: string
  cl_leaseId :: "string option"

record node_heartbeat =
  nh_activeCommandLeases :: "command_lease list"

section \<open>Commands\<close>

record run_delivery =
  dl_attemptId :: string
  dl_collaborationId :: string
  dl_roundId :: string
  dl_assignmentId :: string
  dl_workItemId :: "string option"

record run_command =
  rc_id :: string
  rc_leaseId :: "string option"
  rc_leaseExpiresAt :: "string option"
  rc_attempt :: "int option"
  rc_sessionId :: string
  rc_runId :: string
  rc_taskGoal :: string
  rc_agent :: AgentName
  rc_logicalAgentId :: "string option"
  rc_placementId :: "string option"
  rc_agentVersion :: "int option"
  rc_assignmentId :: "string option"
  rc_phase :: "TeamPhase option"
  rc_role :: "AgentRole option"
  rc_delivery :: "run_delivery option"
  rc_workspacePath :: "string option"
  rc_workspaceLayout :: "WorkspaceLayout option"
  rc_workspaceSubpath :: "string option"
  rc_state :: "agent_state option"

record cancel_command =
  cc_id :: string
  cc_leaseId :: "string option"
  cc_leaseExpiresAt :: "string option"
  cc_attempt :: "int option"
  cc_commandId :: string
  cc_sessionId :: string
  cc_runId :: string
  cc_agent :: AgentName
  cc_reason :: string

datatype entry_kind = kind_directory | kind_file

record workspace_entry =
  wse_name :: string
  wse_path :: string
  wse_kind :: entry_kind
  wse_bytes :: "int option"
  wse_updatedAt :: string

text \<open>\<open>workspace.list\<close> and \<open>workspace.read\<close> have the same fields.\<close>

record workspace_command =
  wc_id :: string
  wc_leaseId :: "string option"
  wc_leaseExpiresAt :: "string option"
  wc_attempt :: "int option"
  wc_sessionId :: "string option"
  wc_workspaceLayout :: "WorkspaceLayout option"
  wc_workspaceSubpath :: "string option"
  wc_path :: string

datatype node_command = RunStart run_command | RunCancel cancel_command
  | WorkspaceList workspace_command | WorkspaceRead workspace_command

definition command_id :: "node_command \<Rightarrow> string" where
  "command_id c = (case c of RunStart r \<Rightarrow> rc_id r | RunCancel r \<Rightarrow> cc_id r
     | WorkspaceList w \<Rightarrow> wc_id w | WorkspaceRead w \<Rightarrow> wc_id w)"

definition command_lease_id :: "node_command \<Rightarrow> string option" where
  "command_lease_id c = (case c of RunStart r \<Rightarrow> rc_leaseId r | RunCancel r \<Rightarrow> cc_leaseId r
     | WorkspaceList w \<Rightarrow> wc_leaseId w | WorkspaceRead w \<Rightarrow> wc_leaseId w)"

section \<open>Events\<close>

text \<open>The fields every run event repeats from its command.\<close>

record run_ref =
  rx_commandId :: string
  rx_leaseId :: "string option"
  rx_sessionId :: string
  rx_runId :: string
  rx_agent :: AgentName

record stream_entry =
  se_stream :: agent_stream
  se_text :: string
  se_sequence :: int

datatype node_event =
    NodeRunOutput run_ref agent_stream string int
  | NodeRunOutputBatch run_ref "stream_entry list"
  | NodeRunCollaboration run_ref codex_event int
  | NodeRunCompleted run_ref int string "token_usage option" "generated_file list option" "round_result option"
      \<comment> \<open>exit code, agent log\<close>
  | NodeRunFailed run_ref string "string option" "int option" "generated_file list option"
      \<comment> \<open>error, agent log, exit code\<close>
  | NodeRunCancelled run_ref string
  | NodeWorkspaceListing string "string option" "string option" string bool "workspace_entry list"
  | NodeWorkspaceFile string "string option" "string option" string int bool bool "string option"
      \<comment> \<open>path, bytes, binary, truncated, content\<close>
  | NodeWorkspaceError string "string option" "string option" string DaemonWorkspaceErrorCode string

definition terminal_event :: "node_event \<Rightarrow> bool" where
  "terminal_event e = (case e of NodeRunCompleted _ _ _ _ _ _ \<Rightarrow> True | NodeRunFailed _ _ _ _ _ \<Rightarrow> True
     | NodeRunCancelled _ _ \<Rightarrow> True | _ \<Rightarrow> False)"

section \<open>Node records of the control plane\<close>

datatype SandboxStatus = sb_provisioning | sb_ready | sb_busy | sb_running | sb_stopped | sb_failed
datatype DaemonNodeLocation = employee_device | managed_location
datatype AgentReadiness = agent_unknown | agent_ready | agent_failed

record agent_detail =
  ad_detail :: "string option"
  ad_version :: "string option"
  ad_adapter :: "DaemonAgentAdapter option"

record active_run =
  act_commandId :: string
  act_sessionId :: string
  act_runId :: string
  act_agentName :: AgentName
  act_logicalAgentId :: "string option"
  act_placementId :: "string option"
  act_taskGoal :: string
  act_workspacePath :: "string option"
  act_startedAt :: string

record daemon_node_record =
  dn_id :: string
  dn_displayName :: "string option"
  dn_employeeId :: "string option"
  dn_workspacePath :: "string option"
  dn_workspaceId :: "string option"
  dn_sandboxMode :: "DaemonNodeSandboxMode option"
  dn_capabilities :: "DaemonNodeCapability list option"
  dn_nodeLocation :: "DaemonNodeLocation option"
  dn_managedNodeId :: "string option"
  dn_provisioningAttemptId :: "string option"
  dn_credentialVersion :: "int option"
  dn_retiredAt :: "string option"
  dn_status :: SandboxStatus
  dn_agents :: "AgentName \<Rightarrow> AgentReadiness"
  dn_agentDetails :: "(AgentName \<rightharpoonup> agent_detail) option"
  dn_disabledAgents :: "AgentName list option"
  dn_agentInventory :: "(AgentName \<rightharpoonup> agent_inventory) option"
  dn_agentRoleDefaults :: "(AgentName \<rightharpoonup> AgentRole) option"
  dn_agentRoleOverrides :: "(AgentName \<rightharpoonup> AgentRole) option"
  dn_maxConcurrentRuns :: "int option"
  dn_createdAt :: string
  dn_updatedAt :: string
  dn_lastSeenAt :: "string option"
  dn_lastError :: "string option"
  dn_queuedCommandCount :: int
  dn_activeRuns :: "active_run list"
  dn_online :: bool
  dn_stale :: bool
  dn_lastSeenAgeMs :: "int option"
  dn_provisioningPlaceholder :: "bool option"
  dn_nodeToken :: "string option"

end
