(* ===== verification/Managed_Reconcile.thy ===== *)
theory Managed_Reconcile
  imports Daemon_Protocol
begin

text \<open>
  The managed-node reconciler of the supervisor:
  \<open>packages/relay-supervisor/src/managed-reconcile.ts\<close> over the types of \<open>types.ts\<close>. The
  control-plane backend, the compute providers and the clock are arguments (the record
  \<open>managed_env\<close>): functions on a world of any type, which may fail at every call. The state of
  the reconciler is its map of tracked instances, the counters of the current pass and a trace of
  the calls it made, on which the safety monitor at the end of the file is stated.
\<close>

section \<open>Records of the supervisor\<close>

datatype ManagedNodeDesiredState = desired_running | desired_stopped | desired_deleted
datatype ManagedNodePhase = ph_requested | ph_allocating | ph_bootstrapping | ph_registering | ph_ready
  | ph_draining | ph_stopped | ph_deleting | ph_deleted | ph_failed
datatype assignmentMode = dedicated | pooled | shared
datatype instance_status = inst_running | inst_stopped | inst_unknown

record managed_node =
  mn_id :: string
  mn_displayName :: string
  mn_employeeId :: "string option"
  mn_assignmentMode :: assignmentMode
  mn_provider :: string
  mn_profile :: string
  mn_workspacePolicy :: "(string \<times> json) list"
  mn_desiredState :: ManagedNodeDesiredState
  mn_generation :: int
  mn_phase :: ManagedNodePhase
  mn_activeAttemptId :: "string option"
  mn_activeDaemonNodeId :: "string option"
  mn_conditions :: "(string \<times> json) list list"
  mn_createdAt :: string
  mn_updatedAt :: string

record provisioning_attempt =
  pa_id :: string
  pa_managedNodeId :: string
  pa_generation :: int
  pa_attemptNumber :: int
  pa_status :: string
  pa_providerInstanceId :: "string option"
  pa_providerOperationId :: "string option"
  pa_errorCode :: "string option"
  pa_errorMessage :: "string option"
  pa_retryAt :: "string option"
  pa_startedAt :: string
  pa_updatedAt :: string

record ensure_input =
  ei_node :: managed_node
  ei_attempt :: provisioning_attempt
  ei_backendUrl :: string
  ei_enrollmentCredential :: string
  ei_workspacePath :: string
  ei_workspaceId :: string

text \<open>The patches sent to the backend; an absent field is \<open>None\<close>.\<close>

record node_patch =
  np_phase :: ManagedNodePhase
  np_conditions :: "(string \<times> json) list list option"

record attempt_patch =
  pp_status :: string
  pp_providerInstanceId :: "string option"
  pp_errorCode :: "string option"
  pp_errorMessage :: "string option"
  pp_retryAt :: "string option"

text \<open>A thrown value: its \<open>status\<close> field, when it has one, and its message.\<close>

datatype js_error = JsError (err_status: "int option") (err_message: string)

definition isConflictResponse :: "js_error \<Rightarrow> bool" where
  "isConflictResponse e \<longleftrightarrow> err_status e = Some 409"

record 'w managed_env =
  me_listManagedNodes :: "('w, js_error, managed_node list) effect"
  me_listDaemonNodes :: "('w, js_error, daemon_node_record list) effect"
  me_listAttempts :: "string \<Rightarrow> ('w, js_error, provisioning_attempt list) effect"
  me_createAttempt :: "string \<Rightarrow> ('w, js_error, provisioning_attempt \<times> string) effect"
  me_updateAttempt :: "string \<Rightarrow> string \<Rightarrow> attempt_patch \<Rightarrow> ('w, js_error, unit) effect"
  me_updateNode :: "string \<Rightarrow> node_patch \<Rightarrow> ('w, js_error, unit) effect"
  me_retireRuntime :: "string \<Rightarrow> ('w, js_error, unit) effect"
  me_hasProvider :: "string \<Rightarrow> bool"
  me_ensure :: "string \<Rightarrow> ensure_input \<Rightarrow> ('w, js_error, string) effect"
  me_inspect :: "string \<Rightarrow> string \<Rightarrow> ('w, js_error, instance_status) effect"
  me_stop :: "string \<Rightarrow> string \<Rightarrow> ('w, js_error, unit) effect"
  me_delete :: "string \<Rightarrow> string \<Rightarrow> ('w, js_error, unit) effect"
  me_now :: "'w \<Rightarrow> int \<times> 'w"
  me_isoDate :: "int \<Rightarrow> string"
  me_dateParse :: "string \<Rightarrow> int option"
  me_workspacePathForNode :: "managed_node \<Rightarrow> js_error + string"
  me_backendUrl :: string
  me_recoveryGraceMs :: int
  me_retryBaseMs :: int
  me_retryMaxMs :: int
  me_deletionDeadlineMs :: int

section \<open>Back-off and naming\<close>

definition DEFAULT_RETRY_BASE_MS :: int where "DEFAULT_RETRY_BASE_MS = 10000"
definition DEFAULT_RETRY_MAX_MS :: int where "DEFAULT_RETRY_MAX_MS = 3600000"
definition DEFAULT_DELETION_DEADLINE_MS :: int where "DEFAULT_DELETION_DEADLINE_MS = 10 * 60000"

definition provisioningRetryDelayMs :: "int \<Rightarrow> int \<Rightarrow> int \<Rightarrow> int" where
  "provisioningRetryDelayMs attemptNumber baseMs maxMs =
     min (baseMs * 2 ^ nat (min (max attemptNumber 1 - 1) 20)) maxMs"

text \<open>The loop of \<open>provisioningRetryAt\<close>; \<open>parse\<close> is \<open>Date.parse\<close>, \<open>None\<close> for \<open>NaN\<close>.\<close>

fun retry_at_loop ::
  "(string \<Rightarrow> int option) \<Rightarrow> int \<Rightarrow> provisioning_attempt list \<Rightarrow> int option \<Rightarrow> int option" where
  "retry_at_loop parse generation [] latest = latest"
| "retry_at_loop parse generation (a # rest) latest =
     (if pa_generation a \<noteq> generation \<or> \<not> js_truthy (pa_retryAt a)
      then retry_at_loop parse generation rest latest
      else case parse (the (pa_retryAt a)) of
        None \<Rightarrow> retry_at_loop parse generation rest latest
      | Some deadline \<Rightarrow>
          retry_at_loop parse generation rest
            (case latest of None \<Rightarrow> Some deadline
             | Some l \<Rightarrow> if l < deadline then Some deadline else Some l))"

definition provisioningRetryAt ::
  "(string \<Rightarrow> int option) \<Rightarrow> provisioning_attempt list \<Rightarrow> int \<Rightarrow> int option" where
  "provisioningRetryAt parse attempts generation = retry_at_loop parse generation attempts None"

definition workspaceIdForManagedNode :: "managed_node \<Rightarrow> string" where
  "workspaceIdForManagedNode node =
     (case json_field (mn_workspacePolicy node) ''workspaceId'' of
        Some (JStr s) \<Rightarrow> if js_trim s \<noteq> [] then js_trim s
                         else ''managed-node:'' @ mn_id node @ '':workspace-root''
      | _ \<Rightarrow> ''managed-node:'' @ mn_id node @ '':workspace-root'')"

section \<open>State, trace and calls\<close>

record tracked_instance =
  ti_provider :: string
  ti_instance :: string
  ti_generation :: int

datatype call =
    BeginNode managed_node
  | CalledRetire | GotRetired
  | CalledStop string string | GotStopped string string
  | CalledDelete string string | GotDeleted string string
  | CalledCreate | GotCreated provisioning_attempt
  | CalledEnsure string ensure_input | GotEnsured string string
  | CalledUpdateAttempt string attempt_patch
  | CalledUpdateNode node_patch
  | GotAttempts "provisioning_attempt list"
  | GotStatus string string instance_status
  | GotClock int

record 'w reconciler =
  mr_world :: 'w
  mr_instances :: "string \<rightharpoonup> tracked_instance"
  mr_started :: nat
  mr_skipped :: nat
  mr_healthy :: nat
  mr_failed :: nat
  mr_trace :: "call list"

type_synonym ('w, 'a) rec_eff = "('w reconciler, js_error, 'a) effect"

definition run_call ::
  "call list \<Rightarrow> ('w, js_error, 'a) effect \<Rightarrow> ('a \<Rightarrow> call list) \<Rightarrow> ('w, 'a) rec_eff" where
  "run_call pre m post = (\<lambda>s. case m (mr_world s) of
       (Inl e, w) \<Rightarrow> (Inl e, s\<lparr>mr_world := w, mr_trace := mr_trace s @ pre\<rparr>)
     | (Inr a, w) \<Rightarrow> (Inr a, s\<lparr>mr_world := w, mr_trace := mr_trace s @ pre @ post a\<rparr>))"

definition call_listAttempts :: "'w managed_env \<Rightarrow> managed_node \<Rightarrow> ('w, provisioning_attempt list) rec_eff" where
  "call_listAttempts env n = run_call [] (me_listAttempts env (mn_id n)) (\<lambda>as. [GotAttempts as])"

definition call_inspect :: "'w managed_env \<Rightarrow> string \<Rightarrow> string \<Rightarrow> ('w, bool) rec_eff" where
  "call_inspect env p i =
     eff_bind (run_call [] (me_inspect env p i) (\<lambda>st. [GotStatus p i st])) (\<lambda>st. eff_return (st = inst_running))"

definition call_stop :: "'w managed_env \<Rightarrow> string \<Rightarrow> string \<Rightarrow> ('w, unit) rec_eff" where
  "call_stop env p i = run_call [CalledStop p i] (me_stop env p i) (\<lambda>_. [GotStopped p i])"

definition call_delete :: "'w managed_env \<Rightarrow> string \<Rightarrow> string \<Rightarrow> ('w, unit) rec_eff" where
  "call_delete env p i = run_call [CalledDelete p i] (me_delete env p i) (\<lambda>_. [GotDeleted p i])"

definition call_updateNode :: "'w managed_env \<Rightarrow> managed_node \<Rightarrow> node_patch \<Rightarrow> ('w, unit) rec_eff" where
  "call_updateNode env n patch = run_call [CalledUpdateNode patch] (me_updateNode env (mn_id n) patch) (\<lambda>_. [])"

definition call_updateAttempt ::
  "'w managed_env \<Rightarrow> managed_node \<Rightarrow> provisioning_attempt \<Rightarrow> attempt_patch \<Rightarrow> ('w, unit) rec_eff" where
  "call_updateAttempt env n a patch =
     run_call [CalledUpdateAttempt (pa_id a) patch] (me_updateAttempt env (mn_id n) (pa_id a) patch) (\<lambda>_. [])"

definition call_now :: "'w managed_env \<Rightarrow> ('w, int) rec_eff" where
  "call_now env = run_call [] (\<lambda>w. case me_now env w of (t, w1) \<Rightarrow> (Inr t, w1)) (\<lambda>t. [GotClock t])"

text \<open>\<open>new Date(t).toISOString()\<close>: a \<open>RangeError\<close> outside the range of JavaScript dates.\<close>

definition MAX_DATE_MS :: int where "MAX_DATE_MS = 8640000000000000"

definition to_iso :: "'w managed_env \<Rightarrow> int \<Rightarrow> ('w, string) rec_eff" where
  "to_iso env t = (if \<bar>t\<bar> \<le> MAX_DATE_MS then eff_return (me_isoDate env t)
                   else eff_throw (JsError None ''Invalid time value''))"

definition count_skipped :: "('w, unit) rec_eff" where
  "count_skipped = eff_modify (\<lambda>s. s\<lparr>mr_skipped := mr_skipped s + 1\<rparr>)"

definition count_healthy :: "('w, unit) rec_eff" where
  "count_healthy = eff_modify (\<lambda>s. s\<lparr>mr_healthy := mr_healthy s + 1\<rparr>)"

definition count_failed :: "('w, unit) rec_eff" where
  "count_failed = eff_modify (\<lambda>s. s\<lparr>mr_failed := mr_failed s + 1\<rparr>)"

definition count_started :: "('w, unit) rec_eff" where
  "count_started = eff_modify (\<lambda>s. s\<lparr>mr_started := mr_started s + 1\<rparr>)"

definition forget_instance :: "managed_node \<Rightarrow> ('w, unit) rec_eff" where
  "forget_instance n = eff_modify (\<lambda>s. s\<lparr>mr_instances := (mr_instances s)(mn_id n := None)\<rparr>)"

definition get_tracked :: "managed_node \<Rightarrow> ('w, tracked_instance option) rec_eff" where
  "get_tracked n = (\<lambda>s. (Inr (mr_instances s (mn_id n)), s))"

definition track_instance :: "managed_node \<Rightarrow> string \<Rightarrow> ('w, unit) rec_eff" where
  "track_instance n i = eff_modify (\<lambda>s. s\<lparr>mr_instances := (mr_instances s)(mn_id n \<mapsto>
     \<lparr>ti_provider = mn_provider n, ti_instance = i, ti_generation = mn_generation n\<rparr>)\<rparr>)"

definition retireRuntimeWhenDrained :: "'w managed_env \<Rightarrow> managed_node \<Rightarrow> ('w, bool) rec_eff" where
  "retireRuntimeWhenDrained env n =
     eff_catch
       (eff_bind (run_call [CalledRetire] (me_retireRuntime env (mn_id n)) (\<lambda>_. [GotRetired]))
          (\<lambda>_. eff_return True))
       (\<lambda>e. if isConflictResponse e then eff_return False else eff_throw e)"

text \<open>\<open>[...attempts].reverse().find((attempt) => attempt.providerInstanceId)\<close> and its instance.\<close>

definition last_provisioned :: "provisioning_attempt list \<Rightarrow> provisioning_attempt option" where
  "last_provisioned attempts = List.find (\<lambda>a. js_truthy (pa_providerInstanceId a)) (rev attempts)"

definition last_instance :: "provisioning_attempt list \<Rightarrow> string option" where
  "last_instance attempts = Option.bind (last_provisioned attempts) pa_providerInstanceId"

definition daemon_by_id :: "daemon_node_record list \<Rightarrow> string option \<Rightarrow> daemon_node_record option" where
  "daemon_by_id daemons i =
     (if js_truthy i then map_of (rev (map (\<lambda>d. (dn_id d, d)) daemons)) (the i) else None)"

section \<open>The branches of the pass over one node\<close>

definition unavailable_message :: "managed_node \<Rightarrow> string" where
  "unavailable_message n = ''Managed node provider '' @ mn_provider n @ '' is unavailable.''"

definition provider_unavailable :: "'w managed_env \<Rightarrow> managed_node \<Rightarrow> ('w, unit) rec_eff" where
  "provider_unavailable env n =
     (let gen = Some (JNum (of_int (mn_generation n)));
          current = list_ex (\<lambda>c. json_field c ''type'' = Some (JStr ''ProviderAvailable'')
              \<and> json_field c ''reason'' = Some (JStr ''ProviderUnavailable'')
              \<and> json_field c ''observedGeneration'' = gen
              \<and> json_field c ''message'' = Some (JStr (unavailable_message n))) (mn_conditions n);
          kept = filter (\<lambda>c. json_field c ''type'' \<noteq> Some (JStr ''ProviderAvailable'')
              \<or> json_field c ''observedGeneration'' \<noteq> gen) (mn_conditions n)
      in eff_bind
        (if mn_phase n \<noteq> ph_failed \<or> \<not> current
         then eff_bind (call_now env) (\<lambda>t. eff_bind (to_iso env t) (\<lambda>ts.
           call_updateNode env n \<lparr>np_phase = ph_failed, np_conditions = Some (kept @
             [[(''type'', JStr ''ProviderAvailable''), (''status'', JStr ''False''),
               (''reason'', JStr ''ProviderUnavailable''), (''message'', JStr (unavailable_message n)),
               (''observedGeneration'', JNum (of_int (mn_generation n))), (''updatedAt'', JStr ts)]])\<rparr>))
         else eff_return ())
        (\<lambda>_. count_failed))"

definition force_delete :: "'w managed_env \<Rightarrow> managed_node \<Rightarrow> int \<Rightarrow> bool" where
  "force_delete env n now =
     (mn_desiredState n = desired_deleted \<and>
      (case me_dateParse env (mn_updatedAt n) of None \<Rightarrow> False
       | Some u \<Rightarrow> me_deletionDeadlineMs env < now - u))"

definition converge_stopped :: "'w managed_env \<Rightarrow> managed_node \<Rightarrow> ('w, unit) rec_eff" where
  "converge_stopped env n =
     (let terminalPhase = (if mn_desiredState n = desired_deleted then ph_deleted else ph_stopped)
      in if mn_phase n = terminalPhase then count_skipped
         else eff_bind (call_now env) (\<lambda>now.
           eff_bind (if js_truthy (mn_activeDaemonNodeId n) \<and> \<not> force_delete env n now
                     then retireRuntimeWhenDrained env n else eff_return True) (\<lambda>drained.
             if \<not> drained then count_skipped
             else eff_bind (call_listAttempts env n) (\<lambda>attempts.
               eff_bind
                 (case last_instance attempts of
                    None \<Rightarrow> eff_return False
                  | Some i \<Rightarrow>
                      eff_bind (if mn_desiredState n = desired_deleted
                                then call_delete env (mn_provider n) i
                                else call_stop env (mn_provider n) i)
                        (\<lambda>_. call_inspect env (mn_provider n) i))
                 (\<lambda>running.
                    if running then count_skipped
                    else eff_bind (forget_instance n) (\<lambda>_.
                         eff_bind (call_updateNode env n \<lparr>np_phase = terminalPhase, np_conditions = None\<rparr>)
                           (\<lambda>_. count_skipped)))))))"

definition daemon_healthy :: "daemon_node_record option \<Rightarrow> bool" where
  "daemon_healthy d = (case d of None \<Rightarrow> False
     | Some r \<Rightarrow> dn_online r \<and> \<not> dn_stale r \<and> dn_status r \<in> {sb_ready, sb_busy, sb_running})"

text \<open>
  The block for a node in phase \<open>ready\<close>: \<open>None\<close> when the pass over the node ends there,
  otherwise \<open>runtimeRetired\<close>.
\<close>

definition recover_ready ::
  "'w managed_env \<Rightarrow> daemon_node_record list \<Rightarrow> managed_node \<Rightarrow> ('w, bool option) rec_eff" where
  "recover_ready env daemons n =
     (let daemon = daemon_by_id daemons (mn_activeDaemonNodeId n)
      in if daemon_healthy daemon
         then eff_bind count_skipped (\<lambda>_. eff_bind count_healthy (\<lambda>_. eff_return None))
         else eff_bind (call_listAttempts env n) (\<lambda>attempts.
           let instanceId = last_instance attempts in
           eff_bind (case instanceId of None \<Rightarrow> eff_return False
                     | Some i \<Rightarrow> call_inspect env (mn_provider n) i) (\<lambda>instanceRunning.
             if instanceRunning \<and> (case Option.bind daemon dn_lastSeenAgeMs of None \<Rightarrow> False
                                   | Some age \<Rightarrow> age \<le> me_recoveryGraceMs env)
             then eff_bind count_skipped (\<lambda>_. eff_return None)
             else eff_bind (if js_truthy (mn_activeDaemonNodeId n)
                            then retireRuntimeWhenDrained env n else eff_return True) (\<lambda>go.
               if \<not> go then eff_bind count_skipped (\<lambda>_. eff_return None)
               else eff_bind (if instanceRunning then call_stop env (mn_provider n) (the instanceId)
                              else eff_return ()) (\<lambda>_.
                    eff_bind (forget_instance n) (\<lambda>_.
                    eff_bind (call_updateNode env n \<lparr>np_phase = ph_requested, np_conditions = None\<rparr>) (\<lambda>_.
                    eff_return (Some (js_truthy (mn_activeDaemonNodeId n))))))))))"

text \<open>The remaining blocks return whether the pass over the node goes on.\<close>

definition linked_attempt ::
  "daemon_node_record list \<Rightarrow> managed_node \<Rightarrow> provisioning_attempt list \<Rightarrow> provisioning_attempt option" where
  "linked_attempt daemons n attempts =
     js_coalesce (case Option.bind (daemon_by_id daemons (mn_activeDaemonNodeId n)) dn_provisioningAttemptId of
                    None \<Rightarrow> None | Some i \<Rightarrow> List.find (\<lambda>a. pa_id a = i) attempts)
     (js_coalesce (case mn_activeAttemptId n of None \<Rightarrow> None
                   | Some i \<Rightarrow> List.find (\<lambda>a. pa_id a = i) attempts)
                  (last_provisioned attempts))"

definition retire_stale_runtime ::
  "'w managed_env \<Rightarrow> daemon_node_record list \<Rightarrow> managed_node \<Rightarrow> provisioning_attempt list \<Rightarrow> bool
     \<Rightarrow> ('w, bool) rec_eff" where
  "retire_stale_runtime env daemons n attempts runtimeRetired =
     (if mn_phase n \<noteq> ph_ready \<and> js_truthy (mn_activeDaemonNodeId n) \<and> \<not> runtimeRetired
      then (let linked = linked_attempt daemons n attempts;
                instanceId = truthy_or_none (Option.bind linked pa_providerInstanceId)
            in eff_bind
                 (case (linked, instanceId) of
                    (Some a, Some i) \<Rightarrow>
                      (if pa_generation a = mn_generation n then call_inspect env (mn_provider n) i
                       else eff_return False)
                  | _ \<Rightarrow> eff_return False) (\<lambda>currentRuntimeRunning.
               if currentRuntimeRunning then eff_bind count_skipped (\<lambda>_. eff_return False)
               else eff_bind (retireRuntimeWhenDrained env n) (\<lambda>go.
                 if \<not> go then eff_bind count_skipped (\<lambda>_. eff_return False)
                 else eff_bind (case instanceId of None \<Rightarrow> eff_return ()
                                | Some i \<Rightarrow> call_stop env (mn_provider n) i) (\<lambda>_.
                      eff_bind (forget_instance n) (\<lambda>_. eff_return True)))))
      else eff_return True)"

definition check_tracked :: "'w managed_env \<Rightarrow> managed_node \<Rightarrow> ('w, bool) rec_eff" where
  "check_tracked env n =
     eff_bind (get_tracked n) (\<lambda>tracked. case tracked of
        None \<Rightarrow> eff_return True
      | Some t \<Rightarrow>
          eff_bind (call_inspect env (ti_provider t) (ti_instance t)) (\<lambda>trackedRunning.
            if ti_generation t \<noteq> mn_generation n
            then eff_bind (if trackedRunning then call_stop env (ti_provider t) (ti_instance t)
                           else eff_return ()) (\<lambda>_. eff_bind (forget_instance n) (\<lambda>_. eff_return True))
            else if trackedRunning then eff_bind count_skipped (\<lambda>_. eff_return False)
            else eff_bind (forget_instance n) (\<lambda>_. eff_return True)))"

definition failed_patch :: "string \<Rightarrow> string \<Rightarrow> string \<Rightarrow> attempt_patch" where
  "failed_patch code message retryAt =
     \<lparr>pp_status = ''failed'', pp_providerInstanceId = None, pp_errorCode = Some code,
      pp_errorMessage = Some message, pp_retryAt = Some retryAt\<rparr>"

definition recovered_message :: string where
  "recovered_message =
     ''The controller could not recover the provider instance; a new attempt will be created.''"

definition check_active_attempt ::
  "'w managed_env \<Rightarrow> managed_node \<Rightarrow> provisioning_attempt list \<Rightarrow> ('w, bool) rec_eff" where
  "check_active_attempt env n attempts =
     (if \<not> js_truthy (mn_activeAttemptId n) then eff_return True
      else case List.find (\<lambda>a. Some (pa_id a) = mn_activeAttemptId n) attempts of
        None \<Rightarrow> eff_return True
      | Some active \<Rightarrow>
          eff_bind (if js_truthy (pa_providerInstanceId active)
                    then call_inspect env (mn_provider n) (the (pa_providerInstanceId active))
                    else eff_return False) (\<lambda>running.
            if running then eff_bind count_skipped (\<lambda>_. eff_return False)
            else eff_bind (call_now env) (\<lambda>t.
                 eff_bind (to_iso env (t + provisioningRetryDelayMs (pa_attemptNumber active)
                                             (me_retryBaseMs env) (me_retryMaxMs env))) (\<lambda>retryAt.
                 eff_bind (call_updateAttempt env n active
                             (failed_patch ''controller_recovered_unknown_instance'' recovered_message retryAt)) (\<lambda>_.
                 eff_bind count_failed (\<lambda>_. eff_return False))))))"

definition status_patch :: "string \<Rightarrow> attempt_patch" where
  "status_patch st = \<lparr>pp_status = st, pp_providerInstanceId = None, pp_errorCode = None,
     pp_errorMessage = None, pp_retryAt = None\<rparr>"

text \<open>The body of the inner \<open>try\<close> after the attempt was created, and its \<open>catch\<close>.\<close>

definition ensure_created ::
  "'w managed_env \<Rightarrow> managed_node \<Rightarrow> provisioning_attempt \<Rightarrow> string \<Rightarrow> ('w, unit) rec_eff" where
  "ensure_created env n attempt credential =
     eff_bind (call_updateAttempt env n attempt (status_patch ''allocating'')) (\<lambda>_.
       case me_workspacePathForNode env n of
         Inl e \<Rightarrow> eff_throw e
       | Inr path \<Rightarrow>
           (let input = \<lparr>ei_node = n, ei_attempt = attempt, ei_backendUrl = me_backendUrl env,
                         ei_enrollmentCredential = credential, ei_workspacePath = path,
                         ei_workspaceId = workspaceIdForManagedNode n\<rparr>
            in eff_bind (run_call [CalledEnsure (mn_provider n) input] (me_ensure env (mn_provider n) input)
                           (\<lambda>i. [GotEnsured (mn_provider n) i])) (\<lambda>i.
               eff_bind (track_instance n i) (\<lambda>_.
               eff_bind (call_updateAttempt env n attempt
                           ((status_patch ''registering'')\<lparr>pp_providerInstanceId := Some i\<rparr>)) (\<lambda>_.
               count_started)))))"

definition ensure_failed ::
  "'w managed_env \<Rightarrow> managed_node \<Rightarrow> provisioning_attempt \<Rightarrow> js_error \<Rightarrow> ('w, unit) rec_eff" where
  "ensure_failed env n attempt e =
     eff_bind count_failed (\<lambda>_.
     eff_bind (call_now env) (\<lambda>t.
     eff_bind (to_iso env (t + provisioningRetryDelayMs (pa_attemptNumber attempt)
                                 (me_retryBaseMs env) (me_retryMaxMs env))) (\<lambda>retryAt.
     eff_catch (call_updateAttempt env n attempt
                  (failed_patch ''provider_ensure_failed'' (err_message e) retryAt))
       (\<lambda>_. eff_return ()))))"

definition provision ::
  "'w managed_env \<Rightarrow> managed_node \<Rightarrow> provisioning_attempt list \<Rightarrow> ('w, unit) rec_eff" where
  "provision env n attempts =
     eff_bind (case provisioningRetryAt (me_dateParse env) attempts (mn_generation n) of
                 None \<Rightarrow> eff_return True
               | Some retryAt \<Rightarrow> eff_bind (call_now env) (\<lambda>t. eff_return (\<not> t < retryAt))) (\<lambda>due.
       if \<not> due then count_skipped
       else eff_bind (eff_try (run_call [CalledCreate] (me_createAttempt env (mn_id n))
                                 (\<lambda>c. [GotCreated (fst c)]))) (\<lambda>created.
         case created of
           Inl e \<Rightarrow> count_failed
         | Inr (attempt, credential) \<Rightarrow>
             eff_catch (ensure_created env n attempt credential) (ensure_failed env n attempt)))"

section \<open>The pass\<close>

text \<open>From the second read of the attempts on.\<close>

definition reconcile_runtime ::
  "'w managed_env \<Rightarrow> daemon_node_record list \<Rightarrow> managed_node \<Rightarrow> bool \<Rightarrow> ('w, unit) rec_eff" where
  "reconcile_runtime env daemons n runtimeRetired =
     eff_bind (call_listAttempts env n) (\<lambda>attempts.
     eff_bind (retire_stale_runtime env daemons n attempts runtimeRetired) (\<lambda>go1.
       if \<not> go1 then eff_return ()
       else eff_bind (check_tracked env n) (\<lambda>go2.
         if \<not> go2 then eff_return ()
         else eff_bind (check_active_attempt env n attempts) (\<lambda>go3.
           if \<not> go3 then eff_return () else provision env n attempts))))"

definition reconcile_node_body ::
  "'w managed_env \<Rightarrow> daemon_node_record list \<Rightarrow> managed_node \<Rightarrow> ('w, unit) rec_eff" where
  "reconcile_node_body env daemons n =
     (if \<not> me_hasProvider env (mn_provider n) then provider_unavailable env n
      else if mn_desiredState n \<noteq> desired_running then converge_stopped env n
      else eff_bind (if mn_phase n = ph_ready then recover_ready env daemons n
                     else eff_return (Some False)) (\<lambda>r.
        case r of None \<Rightarrow> eff_return ()
        | Some runtimeRetired \<Rightarrow> reconcile_runtime env daemons n runtimeRetired))"

definition begin_node :: "managed_node \<Rightarrow> ('w, unit) rec_eff" where
  "begin_node n = eff_modify (\<lambda>s. s\<lparr>mr_trace := mr_trace s @ [BeginNode n]\<rparr>)"

definition reconcile_node ::
  "'w managed_env \<Rightarrow> daemon_node_record list \<Rightarrow> managed_node \<Rightarrow> ('w, unit) rec_eff" where
  "reconcile_node env daemons n =
     eff_bind (begin_node n) (\<lambda>_.
     eff_catch (reconcile_node_body env daemons n) (\<lambda>e. count_failed))"

record reconcile_result =
  res_nodes :: nat
  res_started :: nat
  res_skipped :: nat
  res_healthy :: nat
  res_failed :: nat

definition lift_world :: "('w, js_error, 'a) effect \<Rightarrow> ('w, 'a) rec_eff" where
  "lift_world m = run_call [] m (\<lambda>_. [])"

definition reconcileOnce :: "'w managed_env \<Rightarrow> ('w, reconcile_result) rec_eff" where
  "reconcileOnce env =
     eff_bind (lift_world (me_listManagedNodes env)) (\<lambda>nodes.
     eff_bind (lift_world (me_listDaemonNodes env)) (\<lambda>daemons.
     eff_bind (eff_modify (\<lambda>s. s\<lparr>mr_started := 0, mr_skipped := 0, mr_healthy := 0, mr_failed := 0\<rparr>)) (\<lambda>_.
     eff_bind (eff_for (reconcile_node env daemons) nodes) (\<lambda>_ s.
       (Inr \<lparr>res_nodes = length nodes, res_started = mr_started s, res_skipped = mr_skipped s,
             res_healthy = mr_healthy s, res_failed = mr_failed s\<rparr>, s)))))"

definition reconciler_stop :: "'w reconciler \<Rightarrow> 'w reconciler" where
  "reconciler_stop s = s\<lparr>mr_instances := Map.empty\<rparr>"

definition new_reconciler :: "'w \<Rightarrow> 'w reconciler" where
  "new_reconciler w = \<lparr>mr_world = w, mr_instances = Map.empty, mr_started = 0, mr_skipped = 0,
     mr_healthy = 0, mr_failed = 0, mr_trace = []\<rparr>"

end
