(* ===== verification/Managed_Safety.thy ===== *)
theory Managed_Safety
  imports Managed_Reconcile
begin

text \<open>
  What the managed-node reconciler guarantees, whatever the backend, the providers and the clock
  answer: how a pass is counted, and the safety monitor that every trace of calls satisfies.
\<close>

section \<open>Weakest preconditions of the primitives\<close>

lemma wp_run_call [eff_wps]:
  "eff_wp (run_call pre m post) Q E s =
     (case m (mr_world s) of
        (Inl e, w) \<Rightarrow> E e (s\<lparr>mr_world := w, mr_trace := mr_trace s @ pre\<rparr>)
      | (Inr a, w) \<Rightarrow> Q a (s\<lparr>mr_world := w, mr_trace := mr_trace s @ pre @ post a\<rparr>))"
  by (simp add: eff_wp_def run_call_def split: prod.split sum.split)

lemma wp_now [eff_wps]:
  "eff_wp (call_now env) Q E s =
     (case me_now env (mr_world s) of (t, w) \<Rightarrow>
        Q t (s\<lparr>mr_world := w, mr_trace := mr_trace s @ [GotClock t]\<rparr>))"
  by (simp add: eff_wp_def call_now_def run_call_def split: prod.split)

lemma wp_get_tracked [eff_wps]: "eff_wp (get_tracked n) Q E s = Q (mr_instances s (mn_id n)) s"
  by (simp add: eff_wp_def get_tracked_def)

lemma wp_to_iso [eff_wps]:
  "eff_wp (to_iso env t) Q E s =
     (if \<bar>t\<bar> \<le> MAX_DATE_MS then Q (me_isoDate env t) s else E (JsError None ''Invalid time value'') s)"
  by (simp add: to_iso_def eff_wps)

lemmas primitive_defs = call_listAttempts_def call_inspect_def call_stop_def call_delete_def
  call_updateNode_def call_updateAttempt_def count_skipped_def count_healthy_def count_failed_def
  count_started_def forget_instance_def track_instance_def retireRuntimeWhenDrained_def begin_node_def

section \<open>Counting\<close>

text \<open>
  \<open>counts_at k sk h\<close>: \<open>k\<close> nodes are counted, \<open>sk\<close> of them skipped, and \<open>h\<close> healthy. Only the
  counting primitives change it.
\<close>

definition counts_at :: "nat \<Rightarrow> nat \<Rightarrow> nat \<Rightarrow> 'w reconciler \<Rightarrow> bool" where
  "counts_at k sk h s \<longleftrightarrow>
     mr_started s + mr_skipped s + mr_failed s = k \<and> mr_skipped s = sk \<and> mr_healthy s = h"

lemma counts_run_call:
  "(\<And>e s. counts_at k sk h s \<Longrightarrow> E e s) \<Longrightarrow>
   eff_triple (counts_at k sk h) (run_call pre m post) (\<lambda>_. counts_at k sk h) E"
  by (auto simp: eff_triple_def eff_wps counts_at_def split: prod.split sum.split)

lemma counts_retire:
  "(\<And>e s. counts_at k sk h s \<Longrightarrow> E e s) \<Longrightarrow>
   eff_triple (counts_at k sk h) (retireRuntimeWhenDrained env n) (\<lambda>_. counts_at k sk h) E"
  by (auto simp: eff_triple_def retireRuntimeWhenDrained_def eff_wps counts_at_def split: prod.split sum.split)

lemma counts_now: "eff_triple (counts_at k sk h) (call_now env) (\<lambda>_. counts_at k sk h) E"
  by (auto simp: eff_triple_def eff_wps counts_at_def split: prod.split)

lemma counts_to_iso:
  "(\<And>e s. counts_at k sk h s \<Longrightarrow> E e s) \<Longrightarrow>
   eff_triple (counts_at k sk h) (to_iso env t) (\<lambda>_. counts_at k sk h) E"
  by (auto simp: eff_triple_def eff_wps)

lemma counts_get_tracked: "eff_triple (counts_at k sk h) (get_tracked n) (\<lambda>_. counts_at k sk h) E"
  by (auto simp: eff_triple_def eff_wps)

lemma counts_updates:
  "eff_triple (counts_at k sk h) count_skipped (\<lambda>_. counts_at (Suc k) (Suc sk) h) E"
  "eff_triple (counts_at k sk h) count_healthy (\<lambda>_. counts_at k sk (Suc h)) E"
  "eff_triple (counts_at k sk h) count_failed (\<lambda>_. counts_at (Suc k) sk h) E"
  "eff_triple (counts_at k sk h) count_started (\<lambda>_. counts_at (Suc k) sk h) E"
  "eff_triple (counts_at k sk h) (forget_instance n) (\<lambda>_. counts_at k sk h) E"
  "eff_triple (counts_at k sk h) (track_instance n i) (\<lambda>_. counts_at k sk h) E"
  "eff_triple (counts_at k sk h) (begin_node n) (\<lambda>_. counts_at k sk h) E"
  by (simp_all add: eff_triple_def count_skipped_def count_healthy_def count_failed_def count_started_def
      forget_instance_def track_instance_def begin_node_def eff_wps counts_at_def)

lemmas counts_prims = counts_run_call counts_retire counts_now counts_to_iso counts_get_tracked counts_updates
lemmas counts_vcg = eff_vcg counts_prims counts_prims [THEN triple_tail]

text \<open>What a block of the pass does to the counters, when \<open>over r\<close> tells that the pass ends there.\<close>

definition counted :: "nat \<Rightarrow> 'w reconciler \<Rightarrow> bool" where
  "counted k s \<longleftrightarrow> mr_started s + mr_skipped s + mr_failed s = k \<and> mr_healthy s \<le> mr_skipped s"

definition counts_done :: "nat \<Rightarrow> ('a \<Rightarrow> bool) \<Rightarrow> ('w, 'a) rec_eff \<Rightarrow> bool" where
  "counts_done k over m \<longleftrightarrow>
     eff_triple (counted k) m (\<lambda>r. counted (if over r then Suc k else k)) (\<lambda>_. counted k)"

lemma counts_doneI:
  assumes "\<And>sk h. h \<le> sk \<Longrightarrow>
    eff_triple (counts_at k sk h) m (\<lambda>r. counted (if over r then Suc k else k)) (\<lambda>_. counted k)"
  shows "counts_done k over m"
  using assms by (auto simp: counts_done_def eff_triple_def counted_def counts_at_def)

lemmas counts_end = counts_at_def counted_def

lemmas call_defs = call_listAttempts_def call_inspect_def call_stop_def call_delete_def
  call_updateNode_def call_updateAttempt_def

lemma counts_unavailable: "counts_done k (\<lambda>_. True) (provider_unavailable env n)"
  unfolding provider_unavailable_def Let_def call_defs eff_norm
  by (rule counts_doneI) (rule counts_vcg | simp add: counts_end; fail)+

lemma counts_converge: "counts_done k (\<lambda>_. True) (converge_stopped env n)"
  unfolding converge_stopped_def Let_def call_defs eff_norm
  by (rule counts_doneI) (rule counts_vcg | simp add: counts_end; fail)+

lemma counts_recover: "counts_done k (\<lambda>r. r = None) (recover_ready env daemons n)"
  unfolding recover_ready_def Let_def call_defs eff_norm
  by (rule counts_doneI) (rule counts_vcg | simp add: counts_end; fail)+

lemma counts_retire_stale: "counts_done k Not (retire_stale_runtime env daemons n attempts retired)"
  unfolding retire_stale_runtime_def Let_def call_defs eff_norm
  by (rule counts_doneI) (rule counts_vcg | simp add: counts_end; fail)+

lemma counts_tracked: "counts_done k Not (check_tracked env n)"
  unfolding check_tracked_def Let_def call_defs eff_norm
  by (rule counts_doneI) (rule counts_vcg | simp add: counts_end; fail)+

lemma counts_active: "counts_done k Not (check_active_attempt env n attempts)"
  unfolding check_active_attempt_def Let_def call_defs eff_norm
  by (rule counts_doneI) (rule counts_vcg | simp add: counts_end; fail)+

lemma counts_created: "counts_done k (\<lambda>_. True) (ensure_created env n attempt credential)"
  unfolding ensure_created_def Let_def call_defs eff_norm
  by (rule counts_doneI) (rule counts_vcg | simp add: counts_end; fail)+

text \<open>Every retry deadline the pass computes is a date JavaScript can print.\<close>

definition dates_ok :: "'w managed_env \<Rightarrow> bool" where
  "dates_ok env \<longleftrightarrow> (\<forall>w a.
     \<bar>fst (me_now env w) + provisioningRetryDelayMs a (me_retryBaseMs env) (me_retryMaxMs env)\<bar> \<le> MAX_DATE_MS)"

lemma counts_ensure_failed:
  assumes "dates_ok env"
  shows "counts_done k (\<lambda>_. True) (ensure_failed env n attempt e)"
proof -
  have "\<bar>t + provisioningRetryDelayMs a (me_retryBaseMs env) (me_retryMaxMs env)\<bar> \<le> MAX_DATE_MS"
    if "me_now env w = (t, w')" for t w w' a
    using assms that unfolding dates_ok_def by (metis fst_conv)
  then show ?thesis
    unfolding counts_done_def eff_triple_def ensure_failed_def call_defs count_failed_def
    by (simp add: eff_wps counted_def split: prod.split sum.split)
qed

lemma counts_provision:
  assumes "dates_ok env"
  shows "counts_done k (\<lambda>_. True) (provision env n attempts)"
proof -
  have trycall: "eff_triple (counts_at k sk h) (eff_try (run_call pre m post)) (\<lambda>_. counts_at k sk h) E" for sk h E
      and pre post and m :: "('b, js_error, provisioning_attempt \<times> string) effect"
    by (auto simp: eff_triple_def eff_wps counts_at_def split: prod.split sum.split)
  have body: "eff_triple (counts_at k sk h) (eff_catch (ensure_created env n a c) (ensure_failed env n a))
      (\<lambda>_. counted (Suc k)) (\<lambda>_. counted k)" if "h \<le> sk" for sk h a c
  proof (rule triple_catch)
    show "eff_triple (counts_at k sk h) (ensure_created env n a c) (\<lambda>_. counted (Suc k)) (\<lambda>_. counted k)"
      by (rule triple_conseq [OF counts_created [unfolded counts_done_def, of k]])
         (use that in \<open>auto simp: counts_end\<close>)
  next
    fix e
    show "eff_triple (counted k) (ensure_failed env n a e) (\<lambda>_. counted (Suc k)) (\<lambda>_. counted k)"
      using counts_ensure_failed [OF assms] by (simp add: counts_done_def)
  qed
  show ?thesis
    unfolding provision_def Let_def eff_norm
    by (rule counts_doneI) (simp only: if_True, (rule trycall body counts_vcg | simp add: counts_end; fail)+)
qed

lemma counts_bind:
  assumes "counts_done k over m" and "\<And>r. over r \<Longrightarrow> f r = eff_return ()"
    and "\<And>r. \<not> over r \<Longrightarrow> counts_done k (\<lambda>_. True) (f r)"
  shows "counts_done k (\<lambda>_. True) (eff_bind m f)"
  unfolding counts_done_def
proof (rule triple_bind [OF assms(1) [unfolded counts_done_def]])
  fix r
  show "eff_triple (counted (if over r then Suc k else k)) (f r) (\<lambda>_. counted (if True then Suc k else k)) (\<lambda>_. counted k)"
  proof (cases "over r")
    case True
    then show ?thesis by (simp add: assms(2) eff_triple_def eff_wps)
  next
    case False
    then show ?thesis using assms(3) [of r] by (simp add: counts_done_def)
  qed
qed

lemma counts_node:
  assumes "dates_ok env"
  shows "eff_triple (counted k) (reconcile_node env daemons n) (\<lambda>_. counted (Suc k)) (\<lambda>_ _. False)"
proof -
  have list: "counts_done k (\<lambda>_. False) (call_listAttempts env n)"
    unfolding call_defs by (rule counts_doneI) (rule counts_vcg | simp add: counts_end; fail)+
  have skip: "counts_done k (\<lambda>r. r = None) (eff_return (Some False) :: ('a, bool option) rec_eff)"
    by (rule counts_doneI) (rule counts_vcg | simp add: counts_end; fail)+
  have recover: "counts_done k (\<lambda>r. r = None)
      (if mn_phase n = ph_ready then recover_ready env daemons n else eff_return (Some False))"
    by (simp add: counts_recover skip)
  have branch: "counts_done k over (if b then m else if c then m' else m'')"
    if "counts_done k over m" "counts_done k over m'" "counts_done k over m''"
    for b c over and m m' m'' :: "('a, unit) rec_eff" using that by simp
  have "counts_done k (\<lambda>_. True) (reconcile_node_body env daemons n)"
    unfolding reconcile_node_body_def reconcile_runtime_def
    by (rule branch [OF counts_unavailable counts_converge], rule counts_bind [OF recover])
       (auto intro!: counts_bind [OF list] counts_bind [OF counts_retire_stale]
        counts_bind [OF counts_tracked] counts_bind [OF counts_active] counts_provision [OF assms])
  then have body: "eff_triple (counted k) (reconcile_node_body env daemons n) (\<lambda>_. counted (Suc k)) (\<lambda>_. counted k)"
    by (simp add: counts_done_def)
  show ?thesis unfolding reconcile_node_def
  proof (rule triple_bind)
    show "eff_triple (counted k) (begin_node n) (\<lambda>_. counted k) (\<lambda>_ _. False)"
      by (simp add: eff_triple_def eff_wps begin_node_def counted_def)
    show "eff_triple (counted k) (eff_catch (reconcile_node_body env daemons n) (\<lambda>e. count_failed))
        (\<lambda>_. counted (Suc k)) (\<lambda>_ _. False)"
      by (rule triple_catch [OF body]) (simp add: eff_triple_def eff_wps count_failed_def counted_def)
  qed
qed

lemma counts_pass:
  "dates_ok env \<Longrightarrow> counted 0 s \<Longrightarrow>
   \<exists>t. eff_for (reconcile_node env daemons) nodes s = (Inr (), t) \<and> counted (length nodes) t"
proof -
  assume "dates_ok env" and "counted 0 s"
  then have "eff_wp (eff_for (reconcile_node env daemons) nodes) (\<lambda>_. counted (0 + length nodes)) (\<lambda>_ _. False) s"
    by (intro eff_tripleD [OF triple_for [where P = counted]] counts_node)
  then show ?thesis by (auto simp: eff_wp_def split: prod.splits sum.splits)
qed

section \<open>The safety monitor\<close>

text \<open>
  The monitor reads a trace. For the node being handled it remembers which provider instances
  the last answers said were running, whether the backend confirmed that the old runtime is
  drained and retired, the attempts and the clock last read, the attempt created, and whether an
  instance was requested. A call that must not be made in that situation clears \<open>mon_ok\<close> for
  good.
\<close>

record monitor =
  mon_ok :: bool
  mon_node :: "managed_node option"
  mon_live :: "(string \<times> string) list"
  mon_retired :: bool
  mon_attempts :: "provisioning_attempt list option"
  mon_clock :: "int option"
  mon_created :: "provisioning_attempt option"
  mon_ensured :: bool

definition mon_init :: monitor where
  "mon_init = \<lparr>mon_ok = True, mon_node = None, mon_live = [], mon_retired = False,
     mon_attempts = None, mon_clock = None, mon_created = None, mon_ensured = False\<rparr>"

definition drained :: "managed_node \<Rightarrow> monitor \<Rightarrow> bool" where
  "drained n m \<longleftrightarrow> js_truthy (mn_activeDaemonNodeId n) \<longrightarrow> mon_retired m"

definition retry_due :: "'w managed_env \<Rightarrow> managed_node \<Rightarrow> monitor \<Rightarrow> bool" where
  "retry_due env n m = (case mon_attempts m of None \<Rightarrow> False
     | Some attempts \<Rightarrow> (case provisioningRetryAt (me_dateParse env) attempts (mn_generation n) of
         None \<Rightarrow> True
       | Some d \<Rightarrow> (case mon_clock m of None \<Rightarrow> False | Some t \<Rightarrow> d \<le> t)))"

text \<open>Which calls may be made.\<close>

fun call_allowed :: "'w managed_env \<Rightarrow> managed_node \<Rightarrow> monitor \<Rightarrow> call \<Rightarrow> bool" where
  "call_allowed env n m CalledRetire = js_truthy (mn_activeDaemonNodeId n)"
| "call_allowed env n m (CalledStop p i) = (mn_desiredState n \<noteq> desired_deleted \<and> drained n m)"
| "call_allowed env n m (CalledDelete p i) =
     (mn_desiredState n = desired_deleted \<and>
      (drained n m \<or> (case mon_clock m of None \<Rightarrow> False | Some t \<Rightarrow> force_delete env n t)))"
| "call_allowed env n m CalledCreate =
     (mn_desiredState n = desired_running \<and> mon_live m = [] \<and> drained n m \<and>
      mon_created m = None \<and> retry_due env n m)"
| "call_allowed env n m (CalledEnsure p input) =
     (mn_desiredState n = desired_running \<and> mon_live m = [] \<and> drained n m \<and> \<not> mon_ensured m \<and>
      p = mn_provider n \<and> ei_node input = n \<and> mon_created m = Some (ei_attempt input))"
| "call_allowed env n m _ = True"

fun mon_observe :: "call \<Rightarrow> monitor \<Rightarrow> monitor" where
  "mon_observe (BeginNode n) m = mon_init\<lparr>mon_ok := mon_ok m, mon_node := Some n\<rparr>"
| "mon_observe GotRetired m = m\<lparr>mon_retired := True\<rparr>"
| "mon_observe (GotStatus p i st) m =
     m\<lparr>mon_live := (if st = inst_running then List.insert (p, i) (mon_live m) else removeAll (p, i) (mon_live m))\<rparr>"
| "mon_observe (GotStopped p i) m = m\<lparr>mon_live := removeAll (p, i) (mon_live m)\<rparr>"
| "mon_observe (GotAttempts attempts) m = m\<lparr>mon_attempts := Some attempts\<rparr>"
| "mon_observe (GotClock t) m = m\<lparr>mon_clock := Some t\<rparr>"
| "mon_observe (GotCreated a) m = m\<lparr>mon_created := Some a\<rparr>"
| "mon_observe (CalledEnsure p input) m = m\<lparr>mon_ensured := True\<rparr>"
| "mon_observe _ m = m"

definition mon_step :: "'w managed_env \<Rightarrow> monitor \<Rightarrow> call \<Rightarrow> monitor" where
  "mon_step env m c =
     mon_observe c (case mon_node m of None \<Rightarrow> m
                    | Some n \<Rightarrow> if call_allowed env n m c then m else m\<lparr>mon_ok := False\<rparr>)"

definition monitor_trace :: "'w managed_env \<Rightarrow> call list \<Rightarrow> monitor" where
  "monitor_trace env tr = foldl (mon_step env) mon_init tr"

definition trace_safe :: "'w managed_env \<Rightarrow> call list \<Rightarrow> bool" where
  "trace_safe env tr = mon_ok (monitor_trace env tr)"

definition mon_at :: "'w managed_env \<Rightarrow> monitor \<Rightarrow> 'w reconciler \<Rightarrow> bool" where
  "mon_at env m s \<longleftrightarrow> monitor_trace env (mr_trace s) = m"

lemma mon_run_call:
  "(\<And>e s. mon_at env (foldl (mon_step env) m pre) s \<Longrightarrow> E e s) \<Longrightarrow>
   eff_triple (mon_at env m) (run_call pre c post)
     (\<lambda>a. mon_at env (foldl (mon_step env) (foldl (mon_step env) m pre) (post a))) E"
  by (auto simp: eff_triple_def eff_wps mon_at_def monitor_trace_def split: prod.split sum.split)

lemma mon_retire:
  "(\<And>e s. mon_at env (mon_step env m CalledRetire) s \<Longrightarrow> E e s) \<Longrightarrow>
   eff_triple (mon_at env m) (retireRuntimeWhenDrained env n)
     (\<lambda>go. mon_at env (if go then mon_step env (mon_step env m CalledRetire) GotRetired
                       else mon_step env m CalledRetire)) E"
  by (auto simp: eff_triple_def retireRuntimeWhenDrained_def eff_wps mon_at_def monitor_trace_def
      split: prod.split sum.split)

lemma mon_now: "eff_triple (mon_at env m) (call_now env) (\<lambda>t. mon_at env (mon_step env m (GotClock t))) E"
  by (auto simp: eff_triple_def eff_wps mon_at_def monitor_trace_def split: prod.split)

lemma mon_to_iso:
  "(\<And>e s. mon_at env m s \<Longrightarrow> E e s) \<Longrightarrow> eff_triple (mon_at env m) (to_iso env t) (\<lambda>_. mon_at env m) E"
  by (auto simp: eff_triple_def eff_wps)

lemma mon_get_tracked: "eff_triple (mon_at env m) (get_tracked n) (\<lambda>_. mon_at env m) E"
  by (auto simp: eff_triple_def eff_wps)

lemma mon_updates:
  "eff_triple (mon_at env m) count_skipped (\<lambda>_. mon_at env m) E"
  "eff_triple (mon_at env m) count_healthy (\<lambda>_. mon_at env m) E"
  "eff_triple (mon_at env m) count_failed (\<lambda>_. mon_at env m) E"
  "eff_triple (mon_at env m) count_started (\<lambda>_. mon_at env m) E"
  "eff_triple (mon_at env m) (forget_instance n) (\<lambda>_. mon_at env m) E"
  "eff_triple (mon_at env m) (track_instance n i) (\<lambda>_. mon_at env m) E"
  by (simp_all add: eff_triple_def count_skipped_def count_healthy_def count_failed_def count_started_def
      forget_instance_def track_instance_def eff_wps mon_at_def)

lemmas mon_prims = mon_run_call mon_retire mon_now mon_to_iso mon_get_tracked mon_updates
lemmas mon_vcg = eff_vcg mon_prims mon_prims [THEN triple_tail]

definition safe_at :: "'w managed_env \<Rightarrow> 'w reconciler \<Rightarrow> bool" where
  "safe_at env s \<longleftrightarrow> trace_safe env (mr_trace s)"

lemmas mon_end = mon_at_def safe_at_def trace_safe_def mon_step_def drained_def retry_due_def

text \<open>Nothing is known to run, and everything before was allowed.\<close>

definition clear :: "managed_node \<Rightarrow> monitor \<Rightarrow> bool" where
  "clear n m \<longleftrightarrow> mon_ok m \<and> mon_node m = Some n \<and> mon_live m = [] \<and> mon_created m = None \<and> \<not> mon_ensured m"

definition mon_sat :: "'w managed_env \<Rightarrow> (monitor \<Rightarrow> bool) \<Rightarrow> 'w reconciler \<Rightarrow> bool" where
  "mon_sat env C s \<longleftrightarrow> C (monitor_trace env (mr_trace s))"

lemma mon_satI:
  "(\<And>m. C m \<Longrightarrow> eff_triple (mon_at env m) e Q E) \<Longrightarrow> eff_triple (mon_sat env C) e Q E"
  by (simp add: eff_triple_def mon_sat_def mon_at_def)

lemma force_delete_off: "mn_desiredState n \<noteq> desired_deleted \<Longrightarrow> \<not> force_delete env n t"
  by (simp add: force_delete_def)

lemma safe_converge:
  "mn_desiredState n \<noteq> desired_running \<Longrightarrow>
   eff_triple (mon_sat env (clear n)) (converge_stopped env n) (\<lambda>_. safe_at env) (\<lambda>_. safe_at env)"
  unfolding converge_stopped_def Let_def call_defs eff_norm
  by (rule mon_satI) (rule mon_vcg | simp add: mon_end clear_def force_delete_off; fail)+

text \<open>Ready to provision: also drained, and \<open>attempts\<close> is the last answer about attempts.\<close>

definition poised :: "managed_node \<Rightarrow> provisioning_attempt list \<Rightarrow> monitor \<Rightarrow> bool" where
  "poised n attempts m \<longleftrightarrow> clear n m \<and> drained n m \<and> mon_attempts m = Some attempts"

definition go_safe ::
  "'w managed_env \<Rightarrow> (monitor \<Rightarrow> bool) \<Rightarrow> bool \<Rightarrow> 'w reconciler \<Rightarrow> bool" where
  "go_safe env C go s \<longleftrightarrow> (if go then mon_sat env C s else safe_at env s)"

lemmas mon_simps = mon_end clear_def poised_def go_safe_def mon_sat_def

lemma safe_recover:
  "mn_desiredState n = desired_running \<Longrightarrow>
   eff_triple (mon_sat env (clear n)) (recover_ready env daemons n)
     (\<lambda>r. go_safe env (\<lambda>m. clear n m \<and> drained n m) (r \<noteq> None)) (\<lambda>_. safe_at env)"
  unfolding recover_ready_def Let_def call_defs eff_norm
  by (rule mon_satI) (rule mon_vcg | simp add: mon_simps; fail | clarsimp simp: mon_simps; blast)+

lemma safe_retire_stale:
  "mn_desiredState n = desired_running \<Longrightarrow>
   eff_triple (mon_sat env (\<lambda>m. clear n m \<and> (mn_phase n = ph_ready \<or> retired \<longrightarrow> drained n m) \<and> mon_attempts m = Some attempts))
     (retire_stale_runtime env daemons n attempts retired)
     (go_safe env (poised n attempts)) (\<lambda>_. safe_at env)"
  unfolding retire_stale_runtime_def Let_def call_defs eff_norm
  by (rule mon_satI) (rule mon_vcg | simp add: mon_simps; fail | clarsimp simp: mon_simps; blast)+

lemma safe_tracked:
  "mn_desiredState n = desired_running \<Longrightarrow>
   eff_triple (mon_sat env (poised n attempts)) (check_tracked env n)
     (go_safe env (poised n attempts)) (\<lambda>_. safe_at env)"
  unfolding check_tracked_def Let_def call_defs eff_norm
  by (rule mon_satI) (rule mon_vcg | simp add: mon_simps; fail | clarsimp simp: mon_simps; blast)+

lemma safe_active:
  "mn_desiredState n = desired_running \<Longrightarrow>
   eff_triple (mon_sat env (poised n attempts)) (check_active_attempt env n attempts)
     (go_safe env (poised n attempts)) (\<lambda>_. safe_at env)"
  unfolding check_active_attempt_def Let_def call_defs eff_norm
  by (rule mon_satI) (rule mon_vcg | simp add: mon_simps; fail | clarsimp simp: mon_simps; blast)+

lemma safe_unavailable:
  "eff_triple (mon_sat env (clear n)) (provider_unavailable env n) (\<lambda>_. safe_at env) (\<lambda>_. safe_at env)"
  unfolding provider_unavailable_def Let_def call_defs eff_norm
  by (rule mon_satI) (rule mon_vcg | simp add: mon_simps; fail | clarsimp simp: mon_simps; blast)+

lemma mon_try:
  "eff_triple (mon_at env m) (eff_try (run_call pre c post))
     (\<lambda>r. mon_at env (case r of Inl e \<Rightarrow> foldl (mon_step env) m pre
                       | Inr a \<Rightarrow> foldl (mon_step env) (foldl (mon_step env) m pre) (post a))) E"
  by (auto simp: eff_triple_def eff_wps mon_at_def monitor_trace_def split: prod.split sum.split)

lemma mon_quiet:
  "eff_triple (mon_at env m) (eff_catch (run_call pre c (\<lambda>_. [])) (\<lambda>_. eff_return ()))
     (\<lambda>_. mon_at env (foldl (mon_step env) m pre)) E"
  by (auto simp: eff_triple_def eff_wps mon_at_def monitor_trace_def split: prod.split sum.split)

lemma safe_ensure_failed:
  "eff_triple (safe_at env) (ensure_failed env n attempt e) (\<lambda>_. safe_at env) (\<lambda>_. safe_at env)"
proof -
  have "eff_triple (mon_sat env mon_ok) (ensure_failed env n attempt e) (\<lambda>_. safe_at env) (\<lambda>_. safe_at env)"
    unfolding ensure_failed_def Let_def call_defs eff_norm
    by (rule mon_satI)
       (rule mon_quiet [THEN triple_tail] mon_vcg | simp add: mon_simps split: option.split; fail)+
  then show ?thesis by (simp add: eff_triple_def mon_sat_def safe_at_def trace_safe_def)
qed

definition allocated :: "managed_node \<Rightarrow> provisioning_attempt \<Rightarrow> monitor \<Rightarrow> bool" where
  "allocated n a m \<longleftrightarrow> mon_ok m \<and> mon_node m = Some n \<and> mon_live m = [] \<and> drained n m \<and>
     mon_created m = Some a \<and> \<not> mon_ensured m"

lemma safe_ensure_created:
  "mn_desiredState n = desired_running \<Longrightarrow>
   eff_triple (mon_sat env (allocated n a)) (ensure_created env n a credential) (\<lambda>_. safe_at env) (\<lambda>_. safe_at env)"
  unfolding ensure_created_def Let_def call_defs eff_norm
  by (rule mon_satI) (rule mon_vcg | simp add: mon_simps allocated_def; fail)+

lemma safe_provision:
  assumes "mn_desiredState n = desired_running"
  shows "eff_triple (mon_sat env (poised n attempts)) (provision env n attempts)
           (\<lambda>_. safe_at env) (\<lambda>_. safe_at env)"
proof -
  have body: "eff_triple (mon_at env m) (eff_catch (ensure_created env n a c) (ensure_failed env n a))
      (\<lambda>_. safe_at env) (\<lambda>_. safe_at env)" if "allocated n a m" for m a c
    by (rule triple_catch [OF _ safe_ensure_failed])
       (rule triple_conseq [OF safe_ensure_created [OF assms]], auto simp: that mon_sat_def mon_at_def)
  show ?thesis
    unfolding provision_def Let_def eff_norm
    by (rule mon_satI)
       (rule mon_try body mon_vcg
        | use assms in \<open>simp add: mon_simps allocated_def split: option.splits\<close>; fail)+
qed

lemma safe_list:
  "eff_triple (mon_sat env (\<lambda>m. clear n m \<and> C m)) (call_listAttempts env n)
     (\<lambda>attempts. mon_sat env (\<lambda>m. clear n m \<and> (\<exists>m'. C m' \<and> m = m'\<lparr>mon_attempts := Some attempts\<rparr>)))
     (\<lambda>_. safe_at env)"
  unfolding call_defs
  by (rule mon_satI) (rule mon_vcg | simp add: mon_simps; fail | auto simp: mon_simps; fail)+

lemma go_safe_bind:
  assumes "eff_triple P m (\<lambda>go. go_safe env C (over go)) (\<lambda>_. safe_at env)"
    and "\<And>go. \<not> over go \<Longrightarrow> f go = eff_return ()"
    and "\<And>go. over go \<Longrightarrow> eff_triple (mon_sat env C) (f go) (\<lambda>_. safe_at env) (\<lambda>_. safe_at env)"
  shows "eff_triple P (eff_bind m f) (\<lambda>_. safe_at env) (\<lambda>_. safe_at env)"
proof (rule triple_bind [OF assms(1)])
  fix go
  show "eff_triple (go_safe env C (over go)) (f go) (\<lambda>_. safe_at env) (\<lambda>_. safe_at env)"
  proof (cases "over go")
    case True
    with assms(3) [OF True] show ?thesis by (simp add: go_safe_def eff_triple_def)
  next
    case False
    then show ?thesis by (simp add: assms(2) go_safe_def eff_triple_def eff_wps)
  qed
qed

lemma safe_runtime:
  assumes run: "mn_desiredState n = desired_running"
    and C: "\<And>m m' as. C m' \<Longrightarrow> m = m'\<lparr>mon_attempts := as\<rparr> \<Longrightarrow> mn_phase n = ph_ready \<or> retired \<Longrightarrow> drained n m"
  shows "eff_triple (mon_sat env (\<lambda>m. clear n m \<and> C m)) (reconcile_runtime env daemons n retired)
     (\<lambda>_. safe_at env) (\<lambda>_. safe_at env)"
  unfolding reconcile_runtime_def
proof (rule triple_bind [OF safe_list])
  fix attempts
  have st: "eff_triple (mon_sat env (\<lambda>m. clear n m \<and> (\<exists>m'. C m' \<and> m = m'\<lparr>mon_attempts := Some attempts\<rparr>)))
      (retire_stale_runtime env daemons n attempts retired) (go_safe env (poised n attempts)) (\<lambda>_. safe_at env)"
    using C by (intro triple_conseq [OF safe_retire_stale [OF run, where retired = retired]])
      (auto simp: mon_sat_def)
  show "eff_triple (mon_sat env (\<lambda>m. clear n m \<and> (\<exists>m'. C m' \<and> m = m'\<lparr>mon_attempts := Some attempts\<rparr>)))
     (eff_bind (retire_stale_runtime env daemons n attempts retired) (\<lambda>go1.
              if \<not> go1 then eff_return ()
              else eff_bind (check_tracked env n) (\<lambda>go2.
                if \<not> go2 then eff_return ()
                else eff_bind (check_active_attempt env n attempts) (\<lambda>go3.
                  if \<not> go3 then eff_return () else provision env n attempts))))
     (\<lambda>_. safe_at env) (\<lambda>_. safe_at env)"
    by (rule go_safe_bind [where over = "\<lambda>go. go", OF st])
       (auto intro!: go_safe_bind [where over = "\<lambda>go. go", OF safe_tracked [OF run]]
        go_safe_bind [where over = "\<lambda>go. go", OF safe_active [OF run]] safe_provision [OF run])
qed

lemma safe_body:
  "eff_triple (mon_sat env (clear n)) (reconcile_node_body env daemons n) (\<lambda>_. safe_at env) (\<lambda>_. safe_at env)"
proof -
  consider "\<not> me_hasProvider env (mn_provider n)"
    | "me_hasProvider env (mn_provider n)" "mn_desiredState n \<noteq> desired_running"
    | "me_hasProvider env (mn_provider n)" "mn_desiredState n = desired_running" by blast
  then show ?thesis
  proof cases
    case 1
    then show ?thesis by (simp add: reconcile_node_body_def safe_unavailable)
  next
    case 2
    then show ?thesis by (simp add: reconcile_node_body_def safe_converge)
  next
    case 3
    have ready: "eff_triple (mon_sat env (clear n))
        (eff_bind (recover_ready env daemons n)
           (\<lambda>r. case r of None \<Rightarrow> eff_return () | Some x \<Rightarrow> reconcile_runtime env daemons n x))
        (\<lambda>_. safe_at env) (\<lambda>_. safe_at env)"
      by (rule go_safe_bind [OF safe_recover [OF 3(2)]])
         (auto intro!: safe_runtime [OF 3(2)] simp: drained_def)
    have "eff_triple (mon_sat env (\<lambda>m. clear n m \<and> True)) (reconcile_runtime env daemons n False)
        (\<lambda>_. safe_at env) (\<lambda>_. safe_at env)" if "mn_phase n \<noteq> ph_ready"
      using that by (intro safe_runtime [OF 3(2)]) simp
    with ready 3 show ?thesis by (auto simp: reconcile_node_body_def eff_norm)
  qed
qed

lemma safe_node:
  "eff_triple (safe_at env) (reconcile_node env daemons n) (\<lambda>_. safe_at env) (\<lambda>_ _. False)"
  unfolding reconcile_node_def
proof (rule triple_bind)
  show "eff_triple (safe_at env) (begin_node n) (\<lambda>_. mon_sat env (clear n)) (\<lambda>_ _. False)"
    by (auto simp: eff_triple_def eff_wps begin_node_def mon_simps monitor_trace_def mon_init_def
        split: option.split)
  show "eff_triple (mon_sat env (clear n)) (eff_catch (reconcile_node_body env daemons n) (\<lambda>e. count_failed))
      (\<lambda>_. safe_at env) (\<lambda>_ _. False)"
    by (rule triple_catch [OF safe_body]) (simp add: eff_triple_def eff_wps count_failed_def safe_at_def)
qed

lemma safe_pass: "eff_triple (safe_at env) (reconcileOnce env) (\<lambda>_. safe_at env) (\<lambda>_. safe_at env)"
proof -
  have lift: "eff_triple (safe_at env) (lift_world m) (\<lambda>_. safe_at env) (\<lambda>_. safe_at env)"
    for m :: "('a, js_error, 'b) effect"
    by (auto simp: eff_triple_def lift_world_def eff_wps safe_at_def split: prod.split sum.split)
  have lift': "eff_triple (safe_at env) (lift_world m) (\<lambda>_. safe_at env) (\<lambda>_. safe_at env)"
    for m :: "('a, js_error, 'c) effect"
    by (auto simp: eff_triple_def lift_world_def eff_wps safe_at_def split: prod.split sum.split)
  have loop: "eff_triple (safe_at env) (eff_for (reconcile_node env daemons) nodes) (\<lambda>_. safe_at env) (\<lambda>_. safe_at env)"
    for daemons nodes
    by (rule triple_conseq [OF triple_for [where P = "\<lambda>_. safe_at env", OF safe_node]]) auto
  have reset: "eff_triple (safe_at env)
      (eff_modify (\<lambda>s. s\<lparr>mr_started := 0, mr_skipped := 0, mr_healthy := 0, mr_failed := 0\<rparr>))
      (\<lambda>_. safe_at env) (\<lambda>_. safe_at env)"
    by (simp add: eff_triple_def eff_wps safe_at_def)
  show ?thesis unfolding reconcileOnce_def
    by (rule triple_bind [OF lift], rule triple_bind [OF lift'], rule triple_bind [OF reset],
        rule triple_bind [OF loop]) (simp add: eff_triple_def eff_wp_def safe_at_def)
qed

section \<open>Properties\<close>

text \<open>C1. Whatever the backend, the providers and the clock answer, and however many passes are made,
  the calls of the reconciler are safe: an instance is requested only for a node that should run,
  at most once per pass, for the attempt just created, after the recorded retry deadline, and only
  when no instance is known to be running and the old runtime was confirmed drained; an instance is
  stopped or deleted only after the drain, or after the deletion deadline of a deleted node.\<close>

theorem reconciler_calls_safe:
  "trace_safe env (mr_trace (((\<lambda>s. snd (reconcileOnce env s)) ^^ k) (new_reconciler w)))"
proof -
  have "safe_at env (((\<lambda>s. snd (reconcileOnce env s)) ^^ k) (new_reconciler w))"
  proof (induction k)
    case 0
    show ?case by (simp add: new_reconciler_def safe_at_def trace_safe_def monitor_trace_def mon_init_def)
  next
    case (Suc k)
    from eff_tripleD [OF safe_pass this] show ?case
      by (auto simp: eff_wp_def split: prod.splits sum.splits)
  qed
  then show ?thesis by (simp add: safe_at_def)
qed

text \<open>Once the two lists are read, a pass always ends with a result, no failure of one node keeps the
  others from being handled, and every node is counted exactly once as started, skipped or failed,
  the healthy nodes among the skipped.\<close>

theorem reconcile_pass_counts:
  assumes "dates_ok env"
    and "me_listManagedNodes env (mr_world s) = (Inr nodes, w1)"
    and "me_listDaemonNodes env w1 = (Inr daemons, w2)"
  shows "\<exists>r t. reconcileOnce env s = (Inr r, t) \<and> res_nodes r = length nodes \<and>
     res_started r + res_skipped r + res_failed r = length nodes \<and> res_healthy r \<le> res_skipped r"
proof -
  let ?s = "s\<lparr>mr_world := w2, mr_started := 0, mr_skipped := 0, mr_healthy := 0, mr_failed := 0\<rparr>"
  have "counted 0 ?s" by (simp add: counted_def)
  from counts_pass [OF assms(1) this, of daemons nodes]
  obtain t where "eff_for (reconcile_node env daemons) nodes ?s = (Inr (), t)" "counted (length nodes) t"
    by blast
  with assms(2,3) show ?thesis
    by (simp add: reconcileOnce_def eff_bind_def lift_world_def run_call_def eff_modify_def counted_def)
qed

definition idle_env :: "unit managed_env" where
  "idle_env = \<lparr>me_listManagedNodes = (\<lambda>w. (Inr [], w)), me_listDaemonNodes = (\<lambda>w. (Inr [], w)),
     me_listAttempts = (\<lambda>_ w. (Inr [], w)), me_createAttempt = (\<lambda>n w. (Inr
       (\<lparr>pa_id = ''a1'', pa_managedNodeId = n, pa_generation = 1, pa_attemptNumber = 1, pa_status = ''created'',
         pa_providerInstanceId = None, pa_providerOperationId = None, pa_errorCode = None,
         pa_errorMessage = None, pa_retryAt = None, pa_startedAt = [], pa_updatedAt = []\<rparr>, ''secret''), w)),
     me_updateAttempt = (\<lambda>_ _ _ w. (Inr (), w)), me_updateNode = (\<lambda>_ _ w. (Inr (), w)),
     me_retireRuntime = (\<lambda>_ w. (Inr (), w)), me_hasProvider = (\<lambda>_. True),
     me_ensure = (\<lambda>_ _ w. (Inr ''i1'', w)), me_inspect = (\<lambda>_ _ w. (Inr inst_unknown, w)),
     me_stop = (\<lambda>_ _ w. (Inr (), w)), me_delete = (\<lambda>_ _ w. (Inr (), w)), me_now = (\<lambda>w. (0, w)),
     me_isoDate = (\<lambda>_. ''date''), me_dateParse = (\<lambda>_. None), me_workspacePathForNode = (\<lambda>_. Inr ''/w''),
     me_backendUrl = ''http://b'', me_recoveryGraceMs = 60000, me_retryBaseMs = DEFAULT_RETRY_BASE_MS,
     me_retryMaxMs = DEFAULT_RETRY_MAX_MS, me_deletionDeadlineMs = DEFAULT_DELETION_DEADLINE_MS\<rparr>"

definition sample_node :: managed_node where
  "sample_node = \<lparr>mn_id = ''n1'', mn_displayName = ''N'', mn_employeeId = None, mn_assignmentMode = pooled,
     mn_provider = ''local'', mn_profile = ''p'', mn_workspacePolicy = [], mn_desiredState = desired_running,
     mn_generation = 1, mn_phase = ph_requested, mn_activeAttemptId = None, mn_activeDaemonNodeId = None,
     mn_conditions = [], mn_createdAt = [], mn_updatedAt = []\<rparr>"

lemma provisioningRetryDelayMs_range:
  "0 \<le> base \<Longrightarrow> 0 \<le> limit \<Longrightarrow> 0 \<le> provisioningRetryDelayMs k base limit \<and> provisioningRetryDelayMs k base limit \<le> limit"
  by (simp add: provisioningRetryDelayMs_def)

lemma idle_env_dates: "dates_ok idle_env"
proof -
  have "0 \<le> provisioningRetryDelayMs a 10000 3600000 \<and> provisioningRetryDelayMs a 10000 3600000 \<le> 3600000" for a
    using provisioningRetryDelayMs_range [of 10000 3600000 a] by simp
  moreover have "(3600000 :: int) \<le> MAX_DATE_MS" by (simp add: MAX_DATE_MS_def)
  ultimately have "\<bar>provisioningRetryDelayMs a 10000 3600000\<bar> \<le> MAX_DATE_MS" for a
    by (metis abs_of_nonneg order_trans)
  then show ?thesis
    by (simp add: dates_ok_def idle_env_def DEFAULT_RETRY_BASE_MS_def DEFAULT_RETRY_MAX_MS_def)
qed

theorem reconcile_pass_counts_witness:
  "\<exists>r t. reconcileOnce (idle_env\<lparr>me_listManagedNodes := (\<lambda>w. (Inr [sample_node], w))\<rparr>) (new_reconciler ()) = (Inr r, t)
     \<and> res_started r + res_skipped r + res_failed r = 1"
proof -
  let ?env = "idle_env\<lparr>me_listManagedNodes := (\<lambda>w. (Inr [sample_node], w))\<rparr>"
  have "dates_ok ?env" using idle_env_dates by (simp add: dates_ok_def)
  from reconcile_pass_counts [OF this, of "new_reconciler ()" "[sample_node]" "()" "[]" "()"]
  show ?thesis by (auto simp: idle_env_def)
qed

text \<open>Progress: a node that should run, is new, has no previous runtime and is due is provisioned in one
  pass when the backend and the provider answer; the reconciler then tracks the instance under the
  node's current generation.\<close>

theorem requested_node_started:
  assumes "me_hasProvider env (mn_provider n)" and "mn_desiredState n = desired_running"
    and "mn_phase n \<noteq> ph_ready" and "mn_activeDaemonNodeId n = None" and "mn_activeAttemptId n = None"
    and "mr_instances s (mn_id n) = None"
    and "\<And>w. \<exists>w'. me_listAttempts env (mn_id n) w = (Inr [], w')"
    and "\<And>w. \<exists>w'. me_createAttempt env (mn_id n) w = (Inr (a, credential), w')"
    and "\<And>p w. \<exists>w'. me_updateAttempt env (mn_id n) (pa_id a) p w = (Inr (), w')"
    and "me_workspacePathForNode env n = Inr path"
    and "\<And>i w. \<exists>w'. me_ensure env (mn_provider n) i w = (Inr inst, w')"
  shows "\<exists>t. reconcile_node env daemons n s = (Inr (), t) \<and> mr_started t = mr_started s + 1 \<and>
     mr_instances t (mn_id n) =
       Some \<lparr>ti_provider = mn_provider n, ti_instance = inst, ti_generation = mn_generation n\<rparr>"
proof -
  obtain w1 where w1: "me_listAttempts env (mn_id n) (mr_world s) = (Inr [], w1)" using assms(7) by blast
  obtain w2 where w2: "me_createAttempt env (mn_id n) w1 = (Inr (a, credential), w2)" using assms(8) by blast
  obtain w3 where w3: "me_updateAttempt env (mn_id n) (pa_id a) (status_patch ''allocating'') w2 = (Inr (), w3)"
    using assms(9) by blast
  define input where "input = \<lparr>ei_node = n, ei_attempt = a, ei_backendUrl = me_backendUrl env,
    ei_enrollmentCredential = credential, ei_workspacePath = path, ei_workspaceId = workspaceIdForManagedNode n\<rparr>"
  obtain w4 where w4: "me_ensure env (mn_provider n) input w3 = (Inr inst, w4)" using assms(11) by blast
  obtain w5 where "me_updateAttempt env (mn_id n) (pa_id a)
      ((status_patch ''registering'')\<lparr>pp_providerInstanceId := Some inst\<rparr>) w4 = (Inr (), w5)"
    using assms(9) by blast
  with w1 w2 w3 w4 assms(1-6,10) show ?thesis
    by (simp add: reconcile_node_def reconcile_node_body_def reconcile_runtime_def retire_stale_runtime_def
        check_tracked_def check_active_attempt_def provision_def provisioningRetryAt_def get_tracked_def
        ensure_created_def call_defs run_call_def begin_node_def count_started_def track_instance_def
        eff_defs eff_try_def Let_def input_def)
qed

theorem requested_node_started_witness:
  "\<exists>t. reconcile_node idle_env [] sample_node (new_reconciler ()) = (Inr (), t) \<and> mr_started t = 1"
proof -
  have "\<exists>t. reconcile_node idle_env [] sample_node (new_reconciler ()) = (Inr (), t) \<and>
      mr_started t = mr_started (new_reconciler ()) + 1 \<and> mr_instances t (mn_id sample_node) =
       Some \<lparr>ti_provider = mn_provider sample_node, ti_instance = ''i1'', ti_generation = mn_generation sample_node\<rparr>"
    by (rule requested_node_started) (simp_all add: idle_env_def sample_node_def new_reconciler_def)
  then show ?thesis by (auto simp: new_reconciler_def)
qed

definition retry_deadlines ::
  "(string \<Rightarrow> int option) \<Rightarrow> provisioning_attempt list \<Rightarrow> int \<Rightarrow> int list" where
  "retry_deadlines parse attempts generation =
     List.map_filter (\<lambda>a. if pa_generation a = generation \<and> js_truthy (pa_retryAt a)
                          then parse (the (pa_retryAt a)) else None) attempts"

lemma retry_at_loop_max:
  "retry_at_loop parse g as latest =
     (let ds = retry_deadlines parse as g in
      case latest of None \<Rightarrow> if ds = [] then None else Some (Max (set ds))
      | Some l \<Rightarrow> Some (Max (insert l (set ds))))"
proof (induction parse g as latest rule: retry_at_loop.induct)
  case (1 parse g latest)
  then show ?case by (simp add: retry_deadlines_def List.map_filter_def split: option.split)
next
  case (2 parse g a rest latest)
  show ?case
  proof (cases "pa_generation a \<noteq> g \<or> \<not> js_truthy (pa_retryAt a) \<or> parse (the (pa_retryAt a)) = None")
    case True
    then have "retry_deadlines parse (a # rest) g = retry_deadlines parse rest g"
      by (auto simp: retry_deadlines_def List.map_filter_def)
    with True 2 show ?thesis by (auto split: option.splits)
  next
    case False
    then obtain d where d: "parse (the (pa_retryAt a)) = Some d" by blast
    with False have ds: "retry_deadlines parse (a # rest) g = d # retry_deadlines parse rest g"
      by (auto simp: retry_deadlines_def List.map_filter_def)
    have ins: "Max (insert d (insert l X)) = Max (insert (if l < d then d else l) X)" if "finite X" for l and X :: "int set"
      using that by (cases "X = {}") (auto simp: max_def)
    have "retry_at_loop parse g (a # rest) latest =
        Some (Max (insert (case latest of None \<Rightarrow> d | Some l \<Rightarrow> if l < d then d else l)
                     (set (retry_deadlines parse rest g))))"
      using 2 False d by (auto split: option.splits)
    with ds ins [of "set (retry_deadlines parse rest g)"] show ?thesis
      by (auto simp: insert_commute split: option.split)
  qed
qed

text \<open>The retry time of a node is the latest deadline recorded for its current generation: deadlines
  of other generations and unreadable dates are ignored, and the order of the attempts is irrelevant.\<close>

theorem provisioningRetryAt_latest:
  "provisioningRetryAt parse attempts generation =
     (let ds = retry_deadlines parse attempts generation in if ds = [] then None else Some (Max (set ds)))"
  by (simp add: provisioningRetryAt_def retry_at_loop_max)

end
