(* ===== verification/Supervisor_Reconcile.thy ===== *)
theory Supervisor_Reconcile
  imports Daemon_Protocol
begin

text \<open>
  The per-employee supervisor: \<open>packages/relay-supervisor/src/reconcile.ts\<close>. Backend and launcher
  are functions on a world of any type; a call that throws ends the pass, as in the code, which
  has no \<open>try\<close> here. The \<open>Map\<close> of managed daemons keeps its insertion order.
\<close>

record employee_record =
  emp_id :: string
  emp_displayName :: "string option"
  emp_email :: "string option"
  emp_departmentId :: "string option"
  emp_departmentName :: "string option"
  emp_createdAt :: "string option"
  emp_updatedAt :: "string option"

type_synonym env_map = "(string \<times> string) list"

record provisioned_node =
  pn_node :: daemon_node_record
  pn_nodeToken :: "string option"
  pn_daemonEnv :: env_map

record launch_request =
  lr_employee :: employee_record
  lr_node :: daemon_node_record
  lr_env :: env_map
  lr_workspacePath :: string

text \<open>A launched daemon; \<open>md_child\<close> identifies its process when there is one.\<close>

record managed_daemon =
  md_key :: string
  md_provider :: string
  md_child :: "nat option"

record ('w, 'e) supervisor_env =
  se_listEmployees :: "('w, 'e, employee_record list) effect"
  se_listDaemonNodes :: "('w, 'e, daemon_node_record list) effect"
  se_provision :: "string \<Rightarrow> string \<Rightarrow> ('w, 'e, provisioned_node) effect"
  se_start :: "launch_request \<Rightarrow> ('w, 'e, managed_daemon) effect"
  se_stop :: "managed_daemon \<Rightarrow> 'w \<Rightarrow> 'w"
  se_workspacePath :: "employee_record \<Rightarrow> string"
  se_exited :: "'w \<Rightarrow> nat \<Rightarrow> bool"

record 'w supervisor =
  sv_world :: 'w
  sv_managed :: "(string \<times> managed_daemon) list"
  sv_provisioned :: nat
  sv_started :: nat
  sv_skipped :: nat

record supervisor_result =
  sr_employees :: nat
  sr_provisioned :: nat
  sr_started :: nat
  sr_skipped :: nat

definition shouldStart :: "daemon_node_record \<Rightarrow> bool" where
  "shouldStart node = (if dn_online node \<and> \<not> dn_stale node then False else js_truthy (dn_nodeToken node))"

definition nodeRank :: "daemon_node_record \<Rightarrow> nat" where
  "nodeRank node =
     (if dn_online node \<and> dn_status node = sb_ready then 0
      else if dn_online node then 1
      else if js_truthy (dn_nodeToken node) then 2 else 3)"

text \<open>The loop that picks one node per employee, with a map as accumulator.\<close>

definition prefer_node ::
  "(string \<rightharpoonup> daemon_node_record) \<Rightarrow> daemon_node_record \<Rightarrow> (string \<rightharpoonup> daemon_node_record)" where
  "prefer_node byEmployee node =
     (if \<not> js_truthy (dn_employeeId node) then byEmployee
      else let e = the (dn_employeeId node) in
        case byEmployee e of
          None \<Rightarrow> byEmployee(e \<mapsto> node)
        | Some existing \<Rightarrow> if nodeRank node < nodeRank existing then byEmployee(e \<mapsto> node) else byEmployee)"

definition nodesByEmployee :: "daemon_node_record list \<Rightarrow> (string \<rightharpoonup> daemon_node_record)" where
  "nodesByEmployee nodes = foldl prefer_node Map.empty nodes"

definition pruneExitedDaemons :: "('w, 'e) supervisor_env \<Rightarrow> 'w supervisor \<Rightarrow> 'w supervisor" where
  "pruneExitedDaemons env s =
     s\<lparr>sv_managed := filter (\<lambda>(i, d). case md_child d of None \<Rightarrow> True
                               | Some c \<Rightarrow> \<not> se_exited env (sv_world s) c) (sv_managed s)\<rparr>"

definition in_world :: "('w, 'e, 'a) effect \<Rightarrow> ('w supervisor, 'e, 'a) effect" where
  "in_world m = (\<lambda>s. case m (sv_world s) of (r, w) \<Rightarrow> (r, s\<lparr>sv_world := w\<rparr>))"

text \<open>The loop body for one employee.\<close>

definition choose_node ::
  "('w, 'e) supervisor_env \<Rightarrow> daemon_node_record option \<Rightarrow> employee_record
     \<Rightarrow> ('w supervisor, 'e, daemon_node_record \<times> env_map option) effect" where
  "choose_node env known e =
     (case known of
        Some node \<Rightarrow> eff_return (node, None)
      | None \<Rightarrow>
          eff_bind (in_world (se_provision env (emp_id e) (se_workspacePath env e))) (\<lambda>created.
          eff_bind (eff_modify (\<lambda>s. s\<lparr>sv_provisioned := sv_provisioned s + 1\<rparr>)) (\<lambda>_.
          eff_return (pn_node created, Some (pn_daemonEnv created)))))"

definition launch_daemon ::
  "('w, 'e) supervisor_env \<Rightarrow> employee_record \<Rightarrow> daemon_node_record \<Rightarrow> env_map option
     \<Rightarrow> ('w supervisor, 'e, unit) effect" where
  "launch_daemon env e node denv =
     eff_bind (case denv of
         Some v \<Rightarrow> eff_return (node, v)
       | None \<Rightarrow> eff_bind (in_world (se_provision env (emp_id e) (se_workspacePath env e)))
                   (\<lambda>created. eff_return (pn_node created, pn_daemonEnv created)))
       (\<lambda>(n, v).
         eff_bind (in_world (se_start env \<lparr>lr_employee = e, lr_node = n, lr_env = v,
                                            lr_workspacePath = se_workspacePath env e\<rparr>)) (\<lambda>d.
         eff_modify (\<lambda>s. s\<lparr>sv_managed := AList.update (dn_id n) d (sv_managed s),
                           sv_started := sv_started s + 1\<rparr>)))"

definition supervise_employee ::
  "('w, 'e) supervisor_env \<Rightarrow> (string \<rightharpoonup> daemon_node_record) \<Rightarrow> employee_record
     \<Rightarrow> ('w supervisor, 'e, unit) effect" where
  "supervise_employee env byEmployee e =
     eff_bind (choose_node env (byEmployee (emp_id e)) e) (\<lambda>(node, denv) s.
       if \<not> shouldStart node \<or> dn_id node \<in> fst ` set (sv_managed s)
       then (Inr (), s\<lparr>sv_skipped := sv_skipped s + 1\<rparr>)
       else launch_daemon env e node denv s)"

definition supervisor_reconcileOnce ::
  "('w, 'e) supervisor_env \<Rightarrow> ('w supervisor, 'e, supervisor_result) effect" where
  "supervisor_reconcileOnce env =
     eff_bind (eff_modify (pruneExitedDaemons env)) (\<lambda>_.
     eff_bind (in_world (se_listEmployees env)) (\<lambda>employees.
     eff_bind (in_world (se_listDaemonNodes env)) (\<lambda>nodes.
     eff_bind (eff_modify (\<lambda>s. s\<lparr>sv_provisioned := 0, sv_started := 0, sv_skipped := 0\<rparr>)) (\<lambda>_.
     eff_bind (eff_for (supervise_employee env (nodesByEmployee nodes)) employees) (\<lambda>_ s.
       (Inr \<lparr>sr_employees = length employees, sr_provisioned = sv_provisioned s,
             sr_started = sv_started s, sr_skipped = sv_skipped s\<rparr>, s))))))"

text \<open>\<open>stop\<close>: every daemon is asked to stop, and none is tracked any more.\<close>

definition supervisor_stop :: "('w, 'e) supervisor_env \<Rightarrow> 'w supervisor \<Rightarrow> 'w supervisor" where
  "supervisor_stop env s =
     s\<lparr>sv_managed := [], sv_world := foldl (\<lambda>w d. se_stop env d w) (sv_world s) (map snd (sv_managed s))\<rparr>"

section \<open>Node selection\<close>

text \<open>The first node of lowest rank among the employee's nodes.\<close>

fun best_node :: "daemon_node_record list \<Rightarrow> daemon_node_record option" where
  "best_node [] = None"
| "best_node (n # ns) = (case best_node ns of None \<Rightarrow> Some n
     | Some b \<Rightarrow> if nodeRank b < nodeRank n then Some b else Some n)"

lemma best_node_snoc:
  "best_node (ns @ [n]) = (case best_node ns of None \<Rightarrow> Some n
     | Some b \<Rightarrow> if nodeRank n < nodeRank b then Some n else Some b)"
  by (induction ns) (auto split: option.splits)

lemma best_node_least:
  "best_node ns = Some b \<Longrightarrow> b \<in> set ns \<and> (\<forall>n \<in> set ns. nodeRank b \<le> nodeRank n)"
proof (induction ns arbitrary: b)
  case (Cons n ns)
  show ?case
  proof (cases "best_node ns")
    case None
    then have "ns = []" by (cases ns) (auto split: option.splits if_splits)
    with Cons.prems None show ?thesis by simp
  next
    case (Some c)
    from Cons.IH [OF this] Cons.prems Some show ?thesis
      by (auto split: if_splits intro: order.trans less_imp_le)
  qed
qed simp

section \<open>Counting\<close>

definition supervised :: "nat \<Rightarrow> 'w supervisor \<Rightarrow> bool" where
  "supervised k s \<longleftrightarrow> sv_started s + sv_skipped s = k \<and> sv_provisioned s \<le> k"

lemma supervise_counts:
  "eff_triple (supervised k) (supervise_employee env byEmployee e) (\<lambda>_. supervised (Suc k)) (\<lambda>_ _. True)"
  unfolding eff_triple_def supervise_employee_def choose_node_def launch_daemon_def
  by (auto simp: supervised_def eff_wp_def eff_defs in_world_def split: prod.splits sum.splits option.splits)

section \<open>Properties\<close>

text \<open>Each employee is served by the first of its nodes with the best rank: online and ready before
  online, before offline with a token, before the rest; nodes without an employee are ignored.\<close>

theorem nodesByEmployee_best:
  "nodesByEmployee nodes e = best_node (filter (\<lambda>n. dn_employeeId n = Some e \<and> e \<noteq> []) nodes)"
proof (induction nodes rule: rev_induct)
  case Nil
  then show ?case by (simp add: nodesByEmployee_def)
next
  case (snoc n ns)
  have "nodesByEmployee (ns @ [n]) = prefer_node (nodesByEmployee ns) n"
    by (simp add: nodesByEmployee_def)
  then show ?case
    by (cases "dn_employeeId n") (auto simp: prefer_node_def Let_def best_node_snoc snoc split: option.split)
qed

text \<open>A pass that returns has handled every employee once: each was started or skipped, and at most
  one node per employee was newly provisioned.\<close>

theorem supervisor_pass_counts:
  "case supervisor_reconcileOnce env s of
     (Inl _, _) \<Rightarrow> True
   | (Inr r, t) \<Rightarrow> sr_started r + sr_skipped r = sr_employees r \<and> sr_provisioned r \<le> sr_employees r"
proof -
  let ?ok = "\<lambda>r. sr_started r + sr_skipped r = sr_employees r \<and> sr_provisioned r \<le> sr_employees r"
  have loop: "eff_triple (supervised 0) (eff_for (supervise_employee env m) es)
      (\<lambda>_. supervised (0 + length es)) (\<lambda>_ _. True)" for es m
    by (rule triple_for [where P = supervised], rule supervise_counts)
  have reset: "eff_triple (\<lambda>_. True) (eff_modify (\<lambda>s. s\<lparr>sv_provisioned := 0, sv_started := 0, sv_skipped := 0\<rparr>))
      (\<lambda>_. supervised 0) (\<lambda>_ _. True)"
    by (simp add: eff_triple_def eff_wps supervised_def)
  have "eff_triple (\<lambda>_. True) (supervisor_reconcileOnce env) (\<lambda>r _. ?ok r) (\<lambda>_ _. True)"
    unfolding supervisor_reconcileOnce_def
    by (rule triple_bind [OF triple_any], rule triple_bind [OF triple_any], rule triple_bind [OF triple_any],
        rule triple_bind [OF reset], rule triple_bind [OF loop])
       (simp add: eff_triple_def eff_wp_def supervised_def)
  then show ?thesis
    by (auto simp: eff_triple_def eff_wp_def split: prod.split sum.split)
qed

text \<open>An employee whose node is online and fresh, has no token, or is already managed costs nothing:
  the pass makes no backend or launcher call for it and changes only the skipped counter.\<close>

theorem settled_employee_untouched:
  assumes "byEmployee (emp_id e) = Some node"
    and "dn_online node \<and> \<not> dn_stale node \<or> \<not> js_truthy (dn_nodeToken node) \<or> dn_id node \<in> fst ` set (sv_managed s)"
  shows "supervise_employee env byEmployee e s = (Inr (), s\<lparr>sv_skipped := sv_skipped s + 1\<rparr>)"
  using assms by (auto simp: supervise_employee_def choose_node_def shouldStart_def eff_defs)

definition sample_daemon :: daemon_node_record where
  "sample_daemon = \<lparr>dn_id = ''d1'', dn_displayName = None, dn_employeeId = Some ''e1'',
     dn_workspacePath = None, dn_workspaceId = None, dn_sandboxMode = None, dn_capabilities = None,
     dn_nodeLocation = None, dn_managedNodeId = None, dn_provisioningAttemptId = None,
     dn_credentialVersion = None, dn_retiredAt = None, dn_status = sb_ready, dn_agents = (\<lambda>_. agent_ready),
     dn_agentDetails = None, dn_disabledAgents = None, dn_agentInventory = None, dn_agentRoleDefaults = None,
     dn_agentRoleOverrides = None, dn_maxConcurrentRuns = None, dn_createdAt = [], dn_updatedAt = [],
     dn_lastSeenAt = None, dn_lastError = None, dn_queuedCommandCount = 0, dn_activeRuns = [],
     dn_online = True, dn_stale = False, dn_lastSeenAgeMs = None, dn_provisioningPlaceholder = None,
     dn_nodeToken = Some ''t''\<rparr>"

definition sample_employee :: employee_record where
  "sample_employee = \<lparr>emp_id = ''e1'', emp_displayName = None, emp_email = None, emp_departmentId = None,
     emp_departmentName = None, emp_createdAt = None, emp_updatedAt = None\<rparr>"

theorem settled_employee_untouched_witness:
  "\<forall>(env :: (unit, string) supervisor_env) s.
     supervise_employee env (nodesByEmployee [sample_daemon]) sample_employee s =
     (Inr (), s\<lparr>sv_skipped := sv_skipped s + 1\<rparr>)"
  by (intro allI settled_employee_untouched [where node = sample_daemon])
     (simp_all add: nodesByEmployee_def prefer_node_def sample_daemon_def sample_employee_def)

end
