(* ===== verification/Daemon_Retry.thy ===== *)
theory Daemon_Retry
  imports Managed_Reconcile
begin

text \<open>
  Talking to a backend that may be away: the retry loops and their back-off in
  \<open>packages/relay-daemon/src/index.ts\<close>. A loop that may retry for ever is a
  \<open>partial_function (option)\<close>; what it calls (the request, the timer, the abort signal, the random
  source) are arguments over a world of any type. The locale \<open>capped_backoff\<close> is the contract
  of a back-off; the three back-offs of the program are its instances.
\<close>

section \<open>Errors and settings\<close>

datatype daemon_error =
    DaemonHttpError string int
  | DaemonStoppedError
  | OtherError string

definition daemon_error_message :: "daemon_error \<Rightarrow> string" where
  "daemon_error_message e = (case e of DaemonHttpError m _ \<Rightarrow> m
     | DaemonStoppedError \<Rightarrow> ''Relay daemon stopped.'' | OtherError m \<Rightarrow> m)"

text \<open>\<open>error instanceof DaemonHttpError && error.status < 500\<close>.\<close>

definition fatal_error :: "daemon_error \<Rightarrow> bool" where
  "fatal_error e = (case e of DaemonHttpError _ st \<Rightarrow> st < 500 | _ \<Rightarrow> False)"

text \<open>Numbers read from the outside; \<open>None\<close> is \<open>NaN\<close> or an infinity.\<close>

definition boundedNumber :: "rat option \<Rightarrow> rat \<Rightarrow> rat \<Rightarrow> rat" where
  "boundedNumber v minimum maximum =
     (case v of None \<Rightarrow> minimum | Some x \<Rightarrow> min (max x minimum) maximum)"

definition positiveInt :: "rat option \<Rightarrow> int option" where
  "positiveInt v = (case v of None \<Rightarrow> None | Some x \<Rightarrow> if 0 < x then Some \<lfloor>x\<rfloor> else None)"

definition validHeartbeatSettings :: "heartbeat_settings option \<Rightarrow> heartbeat_settings option" where
  "validHeartbeatSettings v = (case v of None \<Rightarrow> None
     | Some h \<Rightarrow> if hb_intervalMs h \<le> 0 then None
                 else if hb_timeoutMs h \<le> hb_intervalMs h then None else Some h)"

section \<open>Back-off\<close>

definition BACKEND_RECONNECT_MAX_DELAY_MS :: int where "BACKEND_RECONNECT_MAX_DELAY_MS = 10000"
definition BACKEND_RECONNECT_BASE_DELAY_MS :: int where "BACKEND_RECONNECT_BASE_DELAY_MS = 2000"
definition EVENT_POST_RETRY_INITIAL_DELAY_MS :: int where "EVENT_POST_RETRY_INITIAL_DELAY_MS = 200"
definition EVENT_POST_RETRY_MAX_DELAY_MS :: int where "EVENT_POST_RETRY_MAX_DELAY_MS = 10000"

definition reconnect_ceiling :: "nat \<Rightarrow> int" where
  "reconnect_ceiling attempt =
     min (BACKEND_RECONNECT_BASE_DELAY_MS * 2 ^ min (attempt - 1) 3) BACKEND_RECONNECT_MAX_DELAY_MS"

text \<open>\<open>Math.round(x)\<close> is \<open>\<lfloor>x + 1/2\<rfloor>\<close>; \<open>r\<close> is the value of \<open>random()\<close>.\<close>

definition js_round :: "rat \<Rightarrow> int" where
  "js_round x = \<lfloor>x + 1 / 2\<rfloor>"

definition backendReconnectDelayMs :: "nat \<Rightarrow> rat \<Rightarrow> int" where
  "backendReconnectDelayMs attempt r =
     js_round (of_int (reconnect_ceiling attempt) * (1 / 2 + r * (1 / 2)))"

definition eventPostBackoff :: "nat \<Rightarrow> int" where
  "eventPostBackoff attempt =
     min (EVENT_POST_RETRY_INITIAL_DELAY_MS * 2 ^ min attempt 5) EVENT_POST_RETRY_MAX_DELAY_MS"

locale capped_backoff =
  fixes backoff :: "nat \<Rightarrow> int" and base cap :: int
  assumes base_pos: "0 < base"
    and backoff_low: "base \<le> backoff i"
    and backoff_cap: "backoff i \<le> cap"
    and backoff_step: "backoff i \<le> backoff (Suc i)"
begin

lemma backoff_mono: "i \<le> j \<Longrightarrow> backoff i \<le> backoff j"
  by (rule lift_Suc_mono_le) (rule backoff_step)

lemma backoff_pos: "0 < backoff i"
  using base_pos backoff_low [of i] by linarith

text \<open>The time \<open>n\<close> retries take, and that a capped back-off stays capped.\<close>

lemma total_wait: "int n * base \<le> (\<Sum>i < n. backoff i) \<and> (\<Sum>i < n. backoff i) \<le> int n * cap"
proof (induction n)
  case (Suc n)
  with backoff_low [of n] backoff_cap [of n] show ?case
    by (simp add: distrib_right)
qed simp

lemma stays_capped: "backoff i = cap \<Longrightarrow> i \<le> j \<Longrightarrow> backoff j = cap"
  using backoff_mono [of i j] backoff_cap [of j] by simp

end

lemma min_pow_Suc: "min (b * 2 ^ min n k) (c :: int) \<le> min (b * 2 ^ min (Suc n) k) c" if "0 \<le> b"
proof -
  have "b * 2 ^ min n k \<le> b * 2 ^ min (Suc n) k"
    using that by (intro mult_left_mono power_increasing) auto
  then show ?thesis by (simp add: min_def)
qed

lemma min_pow_low: "b \<le> min (b * 2 ^ n) (c :: int)" if "0 \<le> b" "b \<le> c"
proof -
  have "b * 1 \<le> b * 2 ^ n" using that by (intro mult_left_mono) auto
  with that show ?thesis by simp
qed

interpretation event_post: capped_backoff eventPostBackoff 200 6400
proof
  fix i
  show "200 \<le> eventPostBackoff i"
    using min_pow_low [of 200 10000] by (simp add: eventPostBackoff_def EVENT_POST_RETRY_INITIAL_DELAY_MS_def
        EVENT_POST_RETRY_MAX_DELAY_MS_def)
  have "(2 :: int) ^ min i 5 \<le> 2 ^ 5" by (rule power_increasing) simp_all
  then show "eventPostBackoff i \<le> 6400"
    by (simp add: eventPostBackoff_def EVENT_POST_RETRY_INITIAL_DELAY_MS_def EVENT_POST_RETRY_MAX_DELAY_MS_def)
  show "eventPostBackoff i \<le> eventPostBackoff (Suc i)"
    unfolding eventPostBackoff_def by (rule min_pow_Suc) (simp add: EVENT_POST_RETRY_INITIAL_DELAY_MS_def)
qed simp

interpretation reconnect: capped_backoff "\<lambda>i. reconnect_ceiling (Suc i)" 2000 10000
proof
  fix i
  show "2000 \<le> reconnect_ceiling (Suc i)"
    using min_pow_low [of 2000 10000] by (simp add: reconnect_ceiling_def
        BACKEND_RECONNECT_BASE_DELAY_MS_def BACKEND_RECONNECT_MAX_DELAY_MS_def)
  show "reconnect_ceiling (Suc i) \<le> 10000"
    by (simp add: reconnect_ceiling_def BACKEND_RECONNECT_MAX_DELAY_MS_def)
  show "reconnect_ceiling (Suc i) \<le> reconnect_ceiling (Suc (Suc i))"
    unfolding reconnect_ceiling_def
    using min_pow_Suc [of BACKEND_RECONNECT_BASE_DELAY_MS i 3 BACKEND_RECONNECT_MAX_DELAY_MS]
    by (simp add: BACKEND_RECONNECT_BASE_DELAY_MS_def)
qed simp

lemma provisioningRetryDelayMs_nat:
  "provisioningRetryDelayMs (int i + 1) b c = min (b * 2 ^ min i 20) c"
proof -
  have "nat (min (max (int i + 1) 1 - 1) 20) = min i 20" by (auto simp: min_def max_def)
  then show ?thesis by (simp add: provisioningRetryDelayMs_def)
qed

interpretation provisioning: capped_backoff
  "\<lambda>i. provisioningRetryDelayMs (int i + 1) DEFAULT_RETRY_BASE_MS DEFAULT_RETRY_MAX_MS" 10000 3600000
proof
  fix i
  show "10000 \<le> provisioningRetryDelayMs (int i + 1) DEFAULT_RETRY_BASE_MS DEFAULT_RETRY_MAX_MS"
    using min_pow_low [of 10000 3600000]
    by (simp only: provisioningRetryDelayMs_nat DEFAULT_RETRY_BASE_MS_def DEFAULT_RETRY_MAX_MS_def)
  show "provisioningRetryDelayMs (int i + 1) DEFAULT_RETRY_BASE_MS DEFAULT_RETRY_MAX_MS \<le> 3600000"
    by (simp add: provisioningRetryDelayMs_def DEFAULT_RETRY_MAX_MS_def)
  have "provisioningRetryDelayMs (int i + 1) DEFAULT_RETRY_BASE_MS DEFAULT_RETRY_MAX_MS
      \<le> provisioningRetryDelayMs (int (Suc i) + 1) DEFAULT_RETRY_BASE_MS DEFAULT_RETRY_MAX_MS"
    unfolding provisioningRetryDelayMs_nat by (rule min_pow_Suc) (simp add: DEFAULT_RETRY_BASE_MS_def)
  then show "provisioningRetryDelayMs (int i + 1) DEFAULT_RETRY_BASE_MS DEFAULT_RETRY_MAX_MS
      \<le> provisioningRetryDelayMs (int (Suc i) + 1) DEFAULT_RETRY_BASE_MS DEFAULT_RETRY_MAX_MS" .
qed simp

section \<open>The retry loops\<close>

text \<open>
  \<open>re_stop\<close> is \<open>control.signal?.aborted || control.shouldStop?.()\<close>; \<open>re_delay\<close> waits and tells
  whether the wait ended (\<open>True\<close>) or was aborted; \<open>re_random\<close> is \<open>Math.random\<close>.
\<close>

record 'w retry_env =
  re_stop :: "'w \<Rightarrow> bool"
  re_delay :: "int \<Rightarrow> 'w \<Rightarrow> bool \<times> 'w"
  re_random :: "'w \<Rightarrow> rat \<times> 'w"

definition delay_aborted :: daemon_error where
  "delay_aborted = OtherError ''Delay aborted.''"

partial_function (option) reconnect_loop ::
  "'w retry_env \<Rightarrow> ('w, daemon_error, 'a) effect \<Rightarrow> nat \<Rightarrow> 'w \<Rightarrow> ((daemon_error + 'a) \<times> 'w) option" where
  "reconnect_loop env action attempt w =
     (if re_stop env w then Some (Inl DaemonStoppedError, w)
      else case action w of
        (Inr a, w1) \<Rightarrow> Some (Inr a, w1)
      | (Inl e, w1) \<Rightarrow>
          if re_stop env w1 then Some (Inl DaemonStoppedError, w1)
          else if fatal_error e then Some (Inl e, w1)
          else case re_random env w1 of (r, w2) \<Rightarrow>
               case re_delay env (backendReconnectDelayMs (attempt + 1) r) w2 of (ok, w3) \<Rightarrow>
                 if ok then reconnect_loop env action (attempt + 1) w3
                 else if re_stop env w3 then Some (Inl DaemonStoppedError, w3)
                 else Some (Inl delay_aborted, w3))"

definition withBackendReconnect ::
  "'w retry_env \<Rightarrow> ('w, daemon_error, 'a) effect \<Rightarrow> 'w \<Rightarrow> ((daemon_error + 'a) \<times> 'w) option" where
  "withBackendReconnect env action w = reconnect_loop env action 0 w"

partial_function (option) event_post_loop ::
  "'w retry_env \<Rightarrow> ('w, daemon_error, unit) effect \<Rightarrow> nat \<Rightarrow> 'w \<Rightarrow> ((daemon_error + unit) \<times> 'w) option" where
  "event_post_loop env post attempt w =
     (if re_stop env w then Some (Inl (OtherError ''Aborted before event post.''), w)
      else case post w of
        (Inr _, w1) \<Rightarrow> Some (Inr (), w1)
      | (Inl e, w1) \<Rightarrow>
          if fatal_error e then Some (Inl e, w1)
          else case re_delay env (eventPostBackoff attempt) w1 of (ok, w2) \<Rightarrow>
                 if ok then event_post_loop env post (attempt + 1) w2
                 else Some (Inl delay_aborted, w2))"

definition postJsonWithRetry ::
  "'w retry_env \<Rightarrow> ('w, daemon_error, unit) effect \<Rightarrow> 'w \<Rightarrow> ((daemon_error + unit) \<times> 'w) option" where
  "postJsonWithRetry env post w = event_post_loop env post 0 w"

section \<open>Outages\<close>

text \<open>
  \<open>outage env action n w k v\<close>: starting with attempt number \<open>k\<close> in world \<open>w\<close>, the action
  fails \<open>n\<close> times with retryable errors, every wait completes and no stop is requested; \<open>v\<close> is the
  world in which the next attempt is made.
\<close>

fun outage ::
  "'w retry_env \<Rightarrow> ('w, daemon_error, 'a) effect \<Rightarrow> nat \<Rightarrow> nat \<Rightarrow> 'w \<Rightarrow> 'w option" where
  "outage env action 0 k w = (if re_stop env w then None else Some w)"
| "outage env action (Suc n) k w =
     (if re_stop env w then None
      else case action w of
        (Inr _, _) \<Rightarrow> None
      | (Inl e, w1) \<Rightarrow>
          if re_stop env w1 \<or> fatal_error e then None
          else case re_random env w1 of (r, w2) \<Rightarrow>
               case re_delay env (backendReconnectDelayMs (k + 1) r) w2 of (ok, w3) \<Rightarrow>
                 if ok then outage env action n (k + 1) w3 else None)"

lemma reconnect_after_outage:
  "outage env action n k w = Some v \<Longrightarrow> reconnect_loop env action k w = reconnect_loop env action (k + n) v"
proof (induction n arbitrary: k w)
  case 0
  then show ?case by (simp split: if_splits)
next
  case (Suc n)
  then show ?case
    by (subst reconnect_loop.simps) (auto split: if_splits prod.splits sum.splits)
qed

text \<open>A run of the loop that ends, ends for one of these reasons.\<close>

definition reconnect_outcome ::
  "'w retry_env \<Rightarrow> ('w, daemon_error, 'a) effect \<Rightarrow> (daemon_error + 'a) \<times> 'w \<Rightarrow> bool" where
  "reconnect_outcome env action out \<longleftrightarrow>
     (case out of (Inr a, v) \<Rightarrow> \<exists>u. \<not> re_stop env u \<and> action u = (Inr a, v)
      | (Inl e, v) \<Rightarrow> (e = DaemonStoppedError \<and> re_stop env v) \<or>
          (fatal_error e \<and> (\<exists>u. action u = (Inl e, v))) \<or> e = delay_aborted)"

lemma reconnect_loop_outcome:
  assumes "reconnect_loop env action k w = Some out"
  shows "reconnect_outcome env action out"
proof (rule reconnect_loop.raw_induct
    [where P = "\<lambda>env action k w out. reconnect_outcome env action out", OF _ assms], goal_cases)
  case (1 loop env action attempt w out)
  show ?case
  proof (cases "\<exists>v. loop env action (attempt + 1) v = Some out")
    case True
    with 1(1) show ?thesis by blast
  next
    case False
    with 1(2) show ?thesis
      by (auto simp: reconnect_outcome_def split: if_splits prod.splits sum.splits)
  qed
qed

lemma outage_not_stopped: "outage env action n k w = Some v \<Longrightarrow> \<not> re_stop env v"
  by (induction n arbitrary: k w) (auto split: if_splits prod.splits sum.splits)

section \<open>Properties\<close>

text \<open>Every back-off wait of the daemon and of the supervisor stays within its bounds: reconnects
  between one and ten seconds for every value of the random source, event posts between 0.2 and
  6.4 seconds, provisioning between ten seconds and one hour, none ever shorter than the one
  before it (for reconnects: their ceiling).\<close>

theorem backoff_bounds:
  "(0 \<le> r \<and> r < 1 \<longrightarrow> 1000 \<le> backendReconnectDelayMs (i + 1) r \<and> backendReconnectDelayMs (i + 1) r \<le> 10000) \<and>
   200 \<le> eventPostBackoff i \<and> eventPostBackoff i \<le> eventPostBackoff (i + j) \<and> eventPostBackoff i \<le> 6400 \<and>
   reconnect_ceiling (i + 1) \<le> reconnect_ceiling (i + j + 1) \<and>
   provisioningRetryDelayMs (int i + 1) DEFAULT_RETRY_BASE_MS DEFAULT_RETRY_MAX_MS \<in> {10000..3600000}"
proof -
  have "1000 \<le> backendReconnectDelayMs (i + 1) r \<and> backendReconnectDelayMs (i + 1) r \<le> 10000"
    if r: "0 \<le> r" "r < 1"
  proof -
    define c :: rat where "c = of_int (reconnect_ceiling (Suc i))"
    have c: "2000 \<le> c" "c \<le> 10000"
      using reconnect.backoff_low [of i] reconnect.backoff_cap [of i] by (simp_all add: c_def)
    have "0 \<le> c * r" using c(1) r(1) by simp
    moreover have "c * r \<le> c" using c(1) r(2) mult_left_mono [of r 1 c] by simp
    moreover have "c * (1 / 2 + r * (1 / 2)) = c / 2 + c * r / 2" by (simp add: algebra_simps)
    ultimately have "1000 \<le> c * (1 / 2 + r * (1 / 2)) \<and> c * (1 / 2 + r * (1 / 2)) \<le> 10000"
      using c by linarith
    then show ?thesis
      unfolding backendReconnectDelayMs_def js_round_def c_def [symmetric] Suc_eq_plus1 [symmetric]
      by (auto simp: le_floor_iff floor_le_iff)
  qed
  moreover have "reconnect_ceiling (Suc i) \<le> reconnect_ceiling (Suc (i + j))"
    by (rule reconnect.backoff_mono) simp
  moreover have "eventPostBackoff i \<le> eventPostBackoff (i + j)" by (rule event_post.backoff_mono) simp
  ultimately show ?thesis
    using event_post.backoff_low [of i] event_post.backoff_cap [of i]
      provisioning.backoff_low [of i] provisioning.backoff_cap [of i] by simp
qed

theorem backoff_bounds_witness:
  "1000 \<le> backendReconnectDelayMs 1 (1 / 2) \<and> backendReconnectDelayMs 1 (1 / 2) \<le> 10000"
  using backoff_bounds [of "1 / 2" 0 0] by simp

text \<open>An outage of any length is survived: after any number of retryable failures the call returns what
  the first attempt that succeeds, or fails with a client error, returns; no wait is skipped.\<close>

theorem reconnect_survives_outage:
  assumes "outage env action n 0 w = Some v" and "action v = (r, v1)"
    and "case r of Inl e \<Rightarrow> fatal_error e \<and> \<not> re_stop env v1 | Inr _ \<Rightarrow> True"
  shows "withBackendReconnect env action w = Some (r, v1)"
proof -
  have stop: "\<not> re_stop env v" using assms(1) by (rule outage_not_stopped)
  have "reconnect_loop env action n v = Some (r, v1)"
    using assms(2,3) stop by (subst reconnect_loop.simps) (auto split: sum.splits)
  with reconnect_after_outage [OF assms(1)] show ?thesis by (simp add: withBackendReconnect_def)
qed

definition counting_env :: "nat retry_env" where
  "counting_env = \<lparr>re_stop = (\<lambda>_. False), re_delay = (\<lambda>_ w. (True, w)), re_random = (\<lambda>w. (0, w))\<rparr>"

definition failing_twice :: "(nat, daemon_error, string) effect" where
  "failing_twice w = (if w < 2 then (Inl (DaemonHttpError ''busy'' 503), Suc w) else (Inr ''ok'', w))"

theorem reconnect_survives_outage_witness:
  "withBackendReconnect counting_env failing_twice 0 = Some (Inr ''ok'', 2)"
  by (rule reconnect_survives_outage [where n = 2 and v = 2])
     (simp_all add: counting_env_def failing_twice_def fatal_error_def numeral_2_eq_2)

text \<open>A reconnect loop never reports a transient failure: when it returns, it returns a result of the
  action, a client error the backend answered, or that the daemon is stopping.\<close>

theorem reconnect_outcomes:
  "case withBackendReconnect env action w of
     None \<Rightarrow> True | Some out \<Rightarrow> reconnect_outcome env action out"
  unfolding withBackendReconnect_def using reconnect_loop_outcome by (auto split: option.split)

end
