(* ===== verification/Output_Delivery.thy ===== *)
theory Output_Delivery
  imports Output_Buffer Codex_Collaboration
begin

text \<open>
  Delivery of a run's live output to the backend: the queue inside \<open>executeCommand\<close> of
  \<open>packages/relay-daemon/src/index.ts\<close> and the event sink that feeds it from the output buffer.
  The code is asynchronous: posts complete later, one at a time, and the drain's \<open>finally\<close>
  callback runs after that. Each of these is an event, so every interleaving with new output is
  covered. Three fields record history for the specification: the items ever offered to
  \<open>enqueueOutputPost\<close>, those the backend accepted, and the post in flight.
\<close>

section \<open>The delivery queue\<close>

datatype delivery_item =
    OutputBatch "(output_stream \<times> js_text \<times> nat) list" nat \<comment> \<open>entries with sequence numbers, bytes\<close>
  | CollaborationPost codex_event nat nat \<comment> \<open>sequence number, bytes\<close>

fun item_bytes :: "delivery_item \<Rightarrow> nat" where
  "item_bytes (OutputBatch es n) = n"
| "item_bytes (CollaborationPost c q n) = n"

text \<open>\<open>outputPostDrain\<close>: no drain, a post in flight, or ended with its \<open>finally\<close> still to run.\<close>

datatype drain_state = DrainIdle | Posting delivery_item | DrainEnded

record delivery =
  dq_queue :: "delivery_item list"
  dq_head :: nat
  dq_backlog :: int
  dq_max :: int
  dq_failure :: "string option"
  dq_drain :: drain_state
  dq_offered :: "delivery_item list"
  dq_delivered :: "delivery_item list"

definition new_delivery :: "int option \<Rightarrow> delivery" where
  "new_delivery limit =
     \<lparr>dq_queue = [], dq_head = 0, dq_backlog = 0,
      dq_max = (case limit of None \<Rightarrow> 16777216 | Some n \<Rightarrow> n),
      dq_failure = None, dq_drain = DrainIdle, dq_offered = [], dq_delivered = []\<rparr>"

text \<open>The head of the \<open>while\<close> loop of \<open>drainOutputPosts\<close>, and what follows the loop.\<close>

definition drain_next :: "delivery \<Rightarrow> delivery" where
  "drain_next d =
     (if dq_head d < length (dq_queue d) \<and> dq_failure d = None
      then d\<lparr>dq_head := dq_head d + 1, dq_drain := Posting (dq_queue d ! dq_head d)\<rparr>
      else d\<lparr>dq_queue := [], dq_head := 0, dq_drain := DrainEnded\<rparr>)"

definition startOutputDrain :: "delivery \<Rightarrow> delivery" where
  "startOutputDrain d =
     (if dq_drain d \<noteq> DrainIdle \<or> dq_failure d \<noteq> None \<or> dq_queue d = [] then d else drain_next d)"

definition backlog_message :: "int \<Rightarrow> string" where
  "backlog_message n = ''Output delivery backlog exceeded '' @ show_int n @ '' bytes.''"

definition enqueueOutputPost :: "delivery_item \<Rightarrow> delivery \<Rightarrow> delivery" where
  "enqueueOutputPost item d =
     (let d1 = d\<lparr>dq_offered := dq_offered d @ [item]\<rparr>
      in if dq_failure d1 \<noteq> None then d1
         else if dq_max d1 < dq_backlog d1 + int (item_bytes item)
         then d1\<lparr>dq_failure := Some (backlog_message (dq_max d1)),
                 dq_queue := take (dq_head d1) (dq_queue d1)\<rparr>
         else startOutputDrain
           (d1\<lparr>dq_backlog := dq_backlog d1 + int (item_bytes item), dq_queue := dq_queue d1 @ [item]\<rparr>))"

text \<open>The awaited post ends; \<open>None\<close> is success, \<open>Some m\<close> the error that exhausted its retries.\<close>

definition post_finished :: "string option \<Rightarrow> delivery \<Rightarrow> delivery" where
  "post_finished outcome d =
     (case dq_drain d of
        Posting item \<Rightarrow>
          drain_next
            (d\<lparr>dq_failure := (case outcome of None \<Rightarrow> dq_failure d | Some m \<Rightarrow> Some m),
               dq_delivered := (case outcome of None \<Rightarrow> dq_delivered d @ [item] | Some _ \<Rightarrow> dq_delivered d),
               dq_backlog := max 0 (dq_backlog d - int (item_bytes item))\<rparr>)
      | _ \<Rightarrow> d)"

definition drain_finally :: "delivery \<Rightarrow> delivery" where
  "drain_finally d =
     (if dq_drain d = DrainEnded then startOutputDrain (d\<lparr>dq_drain := DrainIdle\<rparr>) else d)"

section \<open>The event sink\<close>

text \<open>\<open>Buffer.byteLength\<close>: the UTF-8 size of a UTF-16 text; a lone surrogate counts as U+FFFD.\<close>

fun utf8_length :: "js_text \<Rightarrow> nat" where
  "utf8_length [] = 0"
| "utf8_length [u] = (if u < 0x80 then 1 else if u < 0x800 then 2 else 3)"
| "utf8_length (u # v # us) =
     (if high_surrogate u \<and> low_surrogate v then 4 + utf8_length us
      else (if u < 0x80 then 1 else if u < 0x800 then 2 else 3) + utf8_length (v # us))"

record run_sink =
  sk_buffer :: output_event_buffer
  sk_delivery :: delivery
  sk_sequence :: nat

definition new_sink :: "int option \<Rightarrow> run_sink" where
  "new_sink limit = \<lparr>sk_buffer = new_output_buffer None None None, sk_delivery = new_delivery limit, sk_sequence = 0\<rparr>"

definition emitOutputBatch :: "run_sink \<Rightarrow> buffered_output list \<Rightarrow> run_sink" where
  "emitOutputBatch s buffered =
     (let entries = map (\<lambda>(b, q). (bo_stream b, bo_text b, q)) (zip buffered [sk_sequence s ..< sk_sequence s + length buffered])
      in s\<lparr>sk_sequence := sk_sequence s + length buffered,
           sk_delivery := enqueueOutputPost
             (OutputBatch entries (sum_list (map (\<lambda>(st, t, q). utf8_length t) entries))) (sk_delivery s)\<rparr>)"

text \<open>The buffer moves from \<open>sk_buffer s\<close> to \<open>b\<close>; the batches it emitted on the way are enqueued.\<close>

definition with_buffer :: "run_sink \<Rightarrow> output_event_buffer \<Rightarrow> run_sink" where
  "with_buffer s b =
     foldl emitOutputBatch (s\<lparr>sk_buffer := b\<rparr>)
       (drop (length (ob_emitted (sk_buffer s))) (ob_emitted b))"

datatype sink_event = AgentOutputEvent output_stream js_text | AgentCollaborationEvent codex_event
  | FlushTimer | CloseBuffer | PostSucceeded | PostFailed string | DrainFinally

definition agentCollaboration :: "(codex_event \<Rightarrow> nat) \<Rightarrow> codex_event \<Rightarrow> run_sink \<Rightarrow> run_sink" where
  "agentCollaboration json_bytes c s =
     (let s1 = with_buffer s (ob_flush (sk_buffer s))
      in s1\<lparr>sk_sequence := sk_sequence s1 + 1,
            sk_delivery := enqueueOutputPost (CollaborationPost c (sk_sequence s1) (json_bytes c)) (sk_delivery s1)\<rparr>)"

fun sink_step :: "(codex_event \<Rightarrow> nat) \<Rightarrow> run_sink \<Rightarrow> sink_event \<Rightarrow> run_sink option" where
  "sink_step jb s (AgentOutputEvent st t) = map_option (with_buffer s) (ob_push st t (sk_buffer s))"
| "sink_step jb s (AgentCollaborationEvent c) = Some (agentCollaboration jb c s)"
| "sink_step jb s FlushTimer = map_option (with_buffer s) (ob_event (sk_buffer s) TimerFires)"
| "sink_step jb s CloseBuffer = Some (with_buffer s (ob_close (sk_buffer s)))"
| "sink_step jb s PostSucceeded = Some (s\<lparr>sk_delivery := post_finished None (sk_delivery s)\<rparr>)"
| "sink_step jb s (PostFailed m) = Some (s\<lparr>sk_delivery := post_finished (Some m) (sk_delivery s)\<rparr>)"
| "sink_step jb s DrainFinally = Some (s\<lparr>sk_delivery := drain_finally (sk_delivery s)\<rparr>)"

fun sink_run :: "(codex_event \<Rightarrow> nat) \<Rightarrow> run_sink \<Rightarrow> sink_event list \<Rightarrow> run_sink option" where
  "sink_run jb s [] = Some s"
| "sink_run jb s (e # es) = (case sink_step jb s e of None \<Rightarrow> None | Some t \<Rightarrow> sink_run jb t es)"

section \<open>The queue invariant\<close>

fun drain_items :: "drain_state \<Rightarrow> delivery_item list" where
  "drain_items (Posting i) = [i]"
| "drain_items _ = []"

definition in_flight :: "delivery \<Rightarrow> delivery_item list" where
  "in_flight d = drain_items (dq_drain d)"

definition pending :: "delivery \<Rightarrow> delivery_item list" where
  "pending d = drop (dq_head d) (dq_queue d)"

definition queue_inv :: "delivery \<Rightarrow> bool" where
  "queue_inv d \<longleftrightarrow>
     prefix (dq_delivered d @ in_flight d) (dq_offered d) \<and>
     (dq_failure d = None \<longrightarrow>
        dq_offered d = dq_delivered d @ in_flight d @ pending d \<and>
        dq_backlog d = int (sum_list (map item_bytes (in_flight d @ pending d)))) \<and>
     (dq_failure d \<noteq> None \<longrightarrow> pending d = []) \<and>
     (dq_drain d = DrainIdle \<longrightarrow> dq_queue d = [] \<and> dq_head d = 0) \<and>
     (dq_drain d = DrainEnded \<longrightarrow> dq_head d = 0) \<and>
     dq_head d \<le> length (dq_queue d) \<and>
     0 \<le> dq_backlog d \<and> dq_backlog d \<le> max 0 (dq_max d)"

lemma new_delivery_inv: "queue_inv (new_delivery limit)"
  by (simp add: queue_inv_def new_delivery_def in_flight_def pending_def)

lemma post_finished_inv:
  assumes "queue_inv d"
  shows "queue_inv (post_finished outcome d)"
proof (cases "dq_drain d")
  case (Posting item)
  have p: "pending d = dq_queue d ! dq_head d # drop (Suc (dq_head d)) (dq_queue d)"
    if "dq_head d < length (dq_queue d)"
    using that by (simp add: pending_def Cons_nth_drop_Suc)
  have pre: "prefix (dq_delivered d) (dq_offered d)"
    using assms by (auto simp: queue_inv_def dest: append_prefixD)
  show ?thesis
  proof (cases "dq_head d < length (dq_queue d) \<and> dq_failure d = None \<and> outcome = None")
    case True
    with assms Posting p show ?thesis
      by (simp add: queue_inv_def post_finished_def drain_next_def in_flight_def pending_def)
  next
    case False
    with assms Posting pre show ?thesis
      by (cases outcome; cases "dq_failure d")
         (auto simp: queue_inv_def post_finished_def drain_next_def in_flight_def pending_def max_def)
  qed
qed (use assms in \<open>auto simp: post_finished_def\<close>)

lemma startOutputDrain_inv:
  assumes "queue_inv (d\<lparr>dq_drain := DrainEnded\<rparr>)" and "dq_drain d = DrainIdle" and "dq_head d = 0"
  shows "queue_inv (startOutputDrain d)"
proof (cases "dq_queue d")
  case Nil
  with assms show ?thesis
    by (auto simp: queue_inv_def startOutputDrain_def in_flight_def pending_def)
next
  case (Cons i xs)
  with assms show ?thesis
    by (auto simp: queue_inv_def startOutputDrain_def drain_next_def in_flight_def pending_def)
qed

lemma drain_finally_inv:
  assumes "queue_inv d"
  shows "queue_inv (drain_finally d)"
proof (cases "dq_drain d = DrainEnded")
  case True
  then have same: "d\<lparr>dq_drain := DrainIdle\<rparr>\<lparr>dq_drain := DrainEnded\<rparr> = d" by (cases d) simp
  have "queue_inv (startOutputDrain (d\<lparr>dq_drain := DrainIdle\<rparr>))"
  proof (rule startOutputDrain_inv)
    show "queue_inv (d\<lparr>dq_drain := DrainIdle\<rparr>\<lparr>dq_drain := DrainEnded\<rparr>)" unfolding same by (rule assms)
    show "dq_head (d\<lparr>dq_drain := DrainIdle\<rparr>) = 0" using assms True by (simp add: queue_inv_def)
  qed simp
  with True show ?thesis by (simp add: drain_finally_def)
qed (simp add: drain_finally_def assms)

lemma enqueue_inv:
  assumes "queue_inv d"
  shows "queue_inv (enqueueOutputPost item d)"
proof -
  define d1 where "d1 = d\<lparr>dq_offered := dq_offered d @ [item]\<rparr>"
  define d2 where "d2 = d1\<lparr>dq_backlog := dq_backlog d1 + int (item_bytes item), dq_queue := dq_queue d1 @ [item]\<rparr>"
  consider "dq_failure d \<noteq> None" | "dq_failure d = None" "dq_max d < dq_backlog d + int (item_bytes item)"
    | "dq_failure d = None" "\<not> dq_max d < dq_backlog d + int (item_bytes item)" by blast
  then show ?thesis
  proof cases
    case 1
    with assms show ?thesis
      by (auto simp: enqueueOutputPost_def queue_inv_def in_flight_def pending_def)
  next
    case 2
    with assms show ?thesis
      by (auto simp: enqueueOutputPost_def queue_inv_def in_flight_def pending_def)
  next
    case 3
    then have eq: "enqueueOutputPost item d = startOutputDrain d2"
      by (simp add: enqueueOutputPost_def Let_def d1_def d2_def)
    have idle: "queue_inv (d2\<lparr>dq_drain := (if dq_drain d = DrainIdle then DrainEnded else dq_drain d)\<rparr>)"
      using assms 3 by (auto simp: queue_inv_def in_flight_def pending_def d1_def d2_def)
    show ?thesis
    proof (cases "dq_drain d = DrainIdle")
      case True
      with assms have "dq_head d2 = 0" by (simp add: queue_inv_def d1_def d2_def)
      with True idle show ?thesis unfolding eq
        by (intro startOutputDrain_inv) (simp_all add: d1_def d2_def)
    next
      case False
      have "d2\<lparr>dq_drain := dq_drain d\<rparr> = d2" by (simp add: d1_def d2_def)
      with idle False have "queue_inv d2" by simp
      with False show ?thesis unfolding eq by (simp add: startOutputDrain_def d1_def d2_def)
    qed
  qed
qed

lemma delivery_offered [simp]:
  "dq_offered (enqueueOutputPost item d) = dq_offered d @ [item]"
  "dq_offered (post_finished outcome d) = dq_offered d"
  "dq_offered (drain_finally d) = dq_offered d"
  by (auto simp: enqueueOutputPost_def startOutputDrain_def drain_next_def post_finished_def
      drain_finally_def Let_def split: drain_state.split option.split)

section \<open>The sink invariant\<close>

text \<open>What an item, a list of items and the input events carry, in order.\<close>

type_synonym content = "((output_stream \<times> code_unit) + codex_event) list"

fun item_content :: "delivery_item \<Rightarrow> content" where
  "item_content (OutputBatch es n) = concat (map (\<lambda>(st, t, q). map (\<lambda>u. Inl (st, u)) t) es)"
| "item_content (CollaborationPost c q n) = [Inr c]"

fun item_sequences :: "delivery_item \<Rightarrow> nat list" where
  "item_sequences (OutputBatch es n) = map (\<lambda>(st, t, q). q) es"
| "item_sequences (CollaborationPost c q n) = [q]"

definition items_content :: "delivery_item list \<Rightarrow> content" where
  "items_content items = concat (map item_content items)"

fun input_content :: "sink_event list \<Rightarrow> content" where
  "input_content [] = []"
| "input_content (AgentOutputEvent st t # es) = map (\<lambda>u. Inl (st, u)) t @ input_content es"
| "input_content (AgentCollaborationEvent c # es) = Inr c # input_content es"
| "input_content (_ # es) = input_content es"

definition sink_content :: "run_sink \<Rightarrow> content" where
  "sink_content s = items_content (dq_offered (sk_delivery s)) @ map Inl (units_of (ob_entries (sk_buffer s)))"

definition sink_inv :: "run_sink \<Rightarrow> bool" where
  "sink_inv s \<longleftrightarrow> ob_idle_inv (sk_buffer s) \<and> queue_inv (sk_delivery s) \<and>
     concat (map item_sequences (dq_offered (sk_delivery s))) = [0 ..< sk_sequence s]"

lemma items_content_simps [simp]:
  "items_content [] = []" "items_content (xs @ ys) = items_content xs @ items_content ys"
  "items_content (x # xs) = item_content x @ items_content xs"
  by (simp_all add: items_content_def)

lemma batch_sequences: "map (\<lambda>(st, t, q). q) (map (\<lambda>(b, q). (f b, g b, q)) (zip bs qs)) = take (length bs) qs"
  by (induction bs arbitrary: qs) (auto simp: zip_Cons1 split: list.split)

lemma batch_sequences_upt:
  "item_sequences (OutputBatch (map (\<lambda>(b, q). (bo_stream b, bo_text b, q)) (zip bs [k ..< k + length bs])) n)
   = [k ..< k + length bs]"
  unfolding item_sequences.simps by (subst batch_sequences) simp

lemma batch_content:
  "length bs \<le> length qs \<Longrightarrow>
   concat (map (\<lambda>(st, t, q). map (\<lambda>u. Inl (st, u)) t) (map (\<lambda>(b, q). (bo_stream b, bo_text b, q)) (zip bs qs)))
   = map Inl (units_of bs)"
proof (induction bs arbitrary: qs)
  case (Cons b bs)
  then show ?case by (cases qs) (simp_all add: units_of_Cons)
qed simp

lemma emit_item:
  obtains n where "sk_delivery (emitOutputBatch s bs) = enqueueOutputPost (OutputBatch
      (map (\<lambda>(b, q). (bo_stream b, bo_text b, q)) (zip bs [sk_sequence s ..< sk_sequence s + length bs])) n) (sk_delivery s)"
    and "sk_sequence (emitOutputBatch s bs) = sk_sequence s + length bs"
    and "sk_buffer (emitOutputBatch s bs) = sk_buffer s"
  by (simp add: emitOutputBatch_def Let_def)

lemma emit_batch:
  "queue_inv (sk_delivery s) \<Longrightarrow> queue_inv (sk_delivery (emitOutputBatch s bs))"
  "items_content (dq_offered (sk_delivery (emitOutputBatch s bs))) =
     items_content (dq_offered (sk_delivery s)) @ map Inl (units_of bs)"
  "concat (map item_sequences (dq_offered (sk_delivery s))) = [0 ..< sk_sequence s] \<Longrightarrow>
   concat (map item_sequences (dq_offered (sk_delivery (emitOutputBatch s bs)))) = [0 ..< sk_sequence (emitOutputBatch s bs)]"
proof -
  obtain n where d: "sk_delivery (emitOutputBatch s bs) = enqueueOutputPost (OutputBatch
      (map (\<lambda>(b, q). (bo_stream b, bo_text b, q)) (zip bs [sk_sequence s ..< sk_sequence s + length bs])) n) (sk_delivery s)"
    and q: "sk_sequence (emitOutputBatch s bs) = sk_sequence s + length bs"
    by (rule emit_item)
  have len: "length bs \<le> length [sk_sequence s ..< sk_sequence s + length bs]" by simp
  show "queue_inv (sk_delivery s) \<Longrightarrow> queue_inv (sk_delivery (emitOutputBatch s bs))"
    unfolding d by (rule enqueue_inv)
  show "items_content (dq_offered (sk_delivery (emitOutputBatch s bs))) =
     items_content (dq_offered (sk_delivery s)) @ map Inl (units_of bs)"
    unfolding d delivery_offered items_content_simps item_content.simps batch_content [OF len] by simp
  assume "concat (map item_sequences (dq_offered (sk_delivery s))) = [0 ..< sk_sequence s]"
  then show "concat (map item_sequences (dq_offered (sk_delivery (emitOutputBatch s bs)))) = [0 ..< sk_sequence (emitOutputBatch s bs)]"
    unfolding d q delivery_offered map_append concat_append list.map concat.simps batch_sequences_upt
    using upt_add_eq_append [of 0 "sk_sequence s" "length bs"] by simp
qed

lemma emit_buffer [simp]: "sk_buffer (emitOutputBatch s bs) = sk_buffer s"
  by (rule emit_item)

lemma emit_batches:
  "queue_inv (sk_delivery s) \<Longrightarrow> concat (map item_sequences (dq_offered (sk_delivery s))) = [0 ..< sk_sequence s] \<Longrightarrow>
   sk_buffer (foldl emitOutputBatch s bss) = sk_buffer s \<and>
   queue_inv (sk_delivery (foldl emitOutputBatch s bss)) \<and>
   items_content (dq_offered (sk_delivery (foldl emitOutputBatch s bss))) =
     items_content (dq_offered (sk_delivery s)) @ map Inl (units_of (concat bss)) \<and>
   concat (map item_sequences (dq_offered (sk_delivery (foldl emitOutputBatch s bss)))) =
     [0 ..< sk_sequence (foldl emitOutputBatch s bss)]"
proof (induction bss arbitrary: s)
  case (Cons bs bss)
  from Cons.IH [OF emit_batch(1) [OF Cons.prems(1)] emit_batch(3) [OF Cons.prems(2)]]
  show ?case using emit_batch(2) [of s bs] by simp
qed simp

text \<open>The buffer only appends to what it emitted.\<close>

lemma ob_flush_emitted: "prefix (ob_emitted b) (ob_emitted (ob_flush b))"
  by (simp add: ob_flush_def Let_def)

lemma ob_take_emitted: "prefix (ob_emitted b) (ob_emitted (fst (ob_take s t offset b)))"
  unfolding ob_take_def Let_def fst_conv
  by (auto intro: prefix_order.trans [OF _ ob_flush_emitted])

lemma ob_push_loop_emitted:
  "ob_inv b \<Longrightarrow> ob_push_loop s t offset b = Some c \<Longrightarrow> prefix (ob_emitted b) (ob_emitted c)"
proof (induction "length t - offset" arbitrary: offset b rule: less_induct)
  case less
  show ?case
  proof (cases "offset < length t")
    case False
    with less.prems show ?thesis by (simp add: ob_push_loop.simps)
  next
    case True
    have nf: "\<not> ob_full b" using less.prems by (simp add: ob_inv_def)
    have step: "ob_push_loop s t (snd (ob_take s t offset b)) (fst (ob_take s t offset b)) = Some c"
      using less.prems(2) True nf by (simp add: ob_push_loop.simps [of s t offset b])
    have "length t - snd (ob_take s t offset b) < length t - offset"
      using ob_take_bounds(1) [OF less.prems(1) True, of s] True by linarith
    from less.hyps [OF this ob_take_inv [OF less.prems(1) True] step] show ?thesis
      using ob_take_emitted prefix_order.trans by blast
  qed
qed

lemma ob_event_emitted: "ob_idle_inv b \<Longrightarrow> ob_event b e = Some c \<Longrightarrow> prefix (ob_emitted b) (ob_emitted c)"
  by (cases e)
     (auto simp: ob_push_def ob_idle_inv_def ob_flush_emitted dest: ob_push_loop_emitted split: if_splits)

lemma with_buffer_inv:
  assumes "sink_inv s" and "ob_event (sk_buffer s) e = Some b"
  shows "sink_inv (with_buffer s b)"
    and "sink_content (with_buffer s b) = sink_content s @ map Inl (pushed_units [e])"
    and "sk_buffer (with_buffer s b) = b"
proof -
  have inv: "ob_idle_inv (sk_buffer s)" using assms(1) by (simp add: sink_inv_def)
  have b: "ob_idle_inv b" "ob_content b = ob_content (sk_buffer s) @ pushed_units [e]"
    using ob_event_total [OF inv, of e] assms(2) by auto
  obtain new where new: "ob_emitted b = ob_emitted (sk_buffer s) @ new"
    using ob_event_emitted [OF inv assms(2)] by (auto simp: prefix_def)
  have eq: "with_buffer s b = foldl emitOutputBatch (s\<lparr>sk_buffer := b\<rparr>) new"
    by (simp add: with_buffer_def new)
  note em = emit_batches [of "s\<lparr>sk_buffer := b\<rparr>" new]
  show "sink_inv (with_buffer s b)" and "sk_buffer (with_buffer s b) = b"
    using em assms(1) b(1) unfolding eq by (auto simp: sink_inv_def)
  have "units_of (concat new) @ units_of (ob_entries b) = units_of (ob_entries (sk_buffer s)) @ pushed_units [e]"
    using b(2) new by (simp add: ob_content_def)
  then have "map Inl (units_of (concat new)) @ map Inl (units_of (ob_entries b)) =
      map Inl (units_of (ob_entries (sk_buffer s))) @ map Inl (pushed_units [e])"
    by (metis map_append)
  then show "sink_content (with_buffer s b) = sink_content s @ map Inl (pushed_units [e])"
    using em assms(1) unfolding eq by (auto simp: sink_content_def sink_inv_def)
qed

lemma sink_step_total:
  assumes "sink_inv s"
  shows "\<exists>t. sink_step jb s e = Some t \<and> sink_inv t \<and> sink_content t = sink_content s @ input_content [e] \<and>
     (e = CloseBuffer \<longrightarrow> ob_entries (sk_buffer t) = [])"
proof -
  have inv: "ob_idle_inv (sk_buffer s)" using assms by (simp add: sink_inv_def)
  show ?thesis
  proof (cases e)
    case (AgentOutputEvent st t)
    obtain b where "ob_event (sk_buffer s) (Push st t) = Some b"
      using ob_event_total [OF inv] by blast
    with with_buffer_inv [OF assms this] AgentOutputEvent show ?thesis by simp
  next
    case (AgentCollaborationEvent c)
    let ?s1 = "with_buffer s (ob_flush (sk_buffer s))"
    have f: "ob_event (sk_buffer s) FlushCall = Some (ob_flush (sk_buffer s))" by simp
    have one: "sink_inv ?s1" "sink_content ?s1 = sink_content s" "ob_entries (sk_buffer ?s1) = []"
      using with_buffer_inv [OF assms f] by simp_all
    with AgentCollaborationEvent show ?thesis
      by (simp add: agentCollaboration_def Let_def sink_inv_def sink_content_def enqueue_inv)
  next
    case FlushTimer
    obtain b where "ob_event (sk_buffer s) TimerFires = Some b"
      using ob_event_total [OF inv] by blast
    with with_buffer_inv [OF assms this] FlushTimer show ?thesis by simp
  next
    case CloseBuffer
    have f: "ob_event (sk_buffer s) FlushCall = Some (ob_close (sk_buffer s))" by (simp add: ob_close_def)
    from with_buffer_inv [OF assms f] CloseBuffer show ?thesis by (simp add: ob_close_def)
  qed (use assms in \<open>simp_all add: sink_inv_def sink_content_def post_finished_inv drain_finally_inv\<close>)
qed

lemma input_content_Cons: "input_content (e # es) = input_content [e] @ input_content es"
  by (cases e) simp_all

lemma sink_run_total:
  "sink_inv s \<Longrightarrow> \<exists>t. sink_run jb s es = Some t \<and> sink_inv t \<and> sink_content t = sink_content s @ input_content es"
proof (induction es arbitrary: s)
  case (Cons e es)
  from sink_step_total [OF Cons.prems, of jb e] obtain u where u: "sink_step jb s e = Some u" "sink_inv u"
      "sink_content u = sink_content s @ input_content [e]" by blast
  with Cons.IH [OF u(2)] show ?case by (simp add: input_content_Cons [of e es])
qed simp

lemma new_sink_inv: "sink_inv (new_sink limit)" "sink_content (new_sink limit) = []"
  by (simp_all add: sink_inv_def sink_content_def new_sink_def new_output_buffer_inv new_delivery_inv)
     (simp_all add: new_delivery_def new_output_buffer_def)

lemma items_content_prefix: "prefix xs ys \<Longrightarrow> prefix (items_content xs) (items_content ys)"
  by (auto simp: prefix_def)

lemma sink_run_append:
  "sink_run jb s (xs @ ys) = (case sink_run jb s xs of None \<Rightarrow> None | Some t \<Rightarrow> sink_run jb t ys)"
  by (induction xs arbitrary: s) (auto split: option.split)

lemma quiet_posts:
  "list_all (\<lambda>e. e \<in> {PostSucceeded, DrainFinally} \<union> range PostFailed) ps \<Longrightarrow> sink_run jb w ps = Some t \<Longrightarrow>
   sk_buffer t = sk_buffer w \<and> input_content ps = []"
  by (induction ps arbitrary: w) auto

lemma closed_sink_everything:
  assumes "sink_run jb (new_sink limit) (es @ [CloseBuffer] @ posts) = Some s"
    and "list_all (\<lambda>e. e \<in> {PostSucceeded, DrainFinally} \<union> range PostFailed) posts" and "dq_drain (sk_delivery s) = DrainIdle"
  shows "dq_failure (sk_delivery s) \<noteq> None \<or> items_content (dq_delivered (sk_delivery s)) = input_content es"
proof -
  obtain u where u: "sink_run jb (new_sink limit) es = Some u" "sink_inv u" "sink_content u = input_content es"
    using sink_run_total [OF new_sink_inv(1), of jb limit es] new_sink_inv(2) by auto
  obtain v where v: "sink_step jb u CloseBuffer = Some v" "sink_inv v" "sink_content v = input_content es"
      "ob_entries (sk_buffer v) = []"
    using sink_step_total [OF u(2), of jb CloseBuffer] u(3) by auto
  have run: "sink_run jb v posts = Some s"
    using assms(1) u(1) v(1) by (simp add: sink_run_append)
  then have s: "sink_inv s" "sink_content s = input_content es @ input_content posts"
    using sink_run_total [OF v(2), of jb posts] v(3) by auto
  have "sk_buffer s = sk_buffer v" "input_content posts = []" using quiet_posts [OF assms(2) run] by auto
  then have "items_content (dq_offered (sk_delivery s)) = input_content es"
    using s(2) v(4) by (simp add: sink_content_def)
  moreover have "in_flight (sk_delivery s) = []" "pending (sk_delivery s) = []"
    using assms(3) s(1) by (auto simp: sink_inv_def queue_inv_def in_flight_def pending_def)
  ultimately show ?thesis
    using s(1) by (cases "dq_failure (sk_delivery s)") (auto simp: sink_inv_def queue_inv_def)
qed

section \<open>Properties\<close>

text \<open>What the backend has accepted is, at every moment and for every interleaving of output,
  collaboration events, timers and completed posts, an initial piece of what the agent produced, in
  its order, with sequence numbers 0, 1, 2 and so on without a gap; the bytes waiting never exceed
  the configured backlog.\<close>

theorem delivered_output_is_prefix:
  "\<exists>s. sink_run jb (new_sink limit) es = Some s \<and>
     prefix (items_content (dq_delivered (sk_delivery s))) (input_content es) \<and>
     prefix (concat (map item_sequences (dq_delivered (sk_delivery s)))) [0 ..< sk_sequence s] \<and>
     dq_backlog (sk_delivery s) \<le> max 0 (dq_max (sk_delivery s))"
proof -
  obtain s where s: "sink_run jb (new_sink limit) es = Some s" "sink_inv s" "sink_content s = input_content es"
    using sink_run_total [OF new_sink_inv(1), of jb limit es] new_sink_inv(2) by auto
  have pre: "prefix (dq_delivered (sk_delivery s)) (dq_offered (sk_delivery s))"
    using s(2) by (auto simp: sink_inv_def queue_inv_def dest: append_prefixD)
  have "prefix (items_content (dq_offered (sk_delivery s))) (input_content es)"
    using s(3) by (metis prefixI sink_content_def)
  moreover have "prefix (concat (map item_sequences (dq_delivered (sk_delivery s)))) [0 ..< sk_sequence s]"
    using pre s(2) by (auto simp: sink_inv_def prefix_def) (metis concat_append map_append)
  ultimately show ?thesis
    using s items_content_prefix [OF pre] by (auto simp: sink_inv_def queue_inv_def intro: prefix_order.trans)
qed

text \<open>C14. No output is lost silently: once the buffer is closed and no drain is running, which is when the
  run's terminal event is posted, either a delivery failure is recorded or the backend has accepted
  everything the agent produced.\<close>

theorem output_delivered_or_failed:
  "\<exists>s. sink_run jb (new_sink limit) (es @ [CloseBuffer] @ posts) = Some s \<and>
     (list_all (\<lambda>e. e \<in> {PostSucceeded, DrainFinally} \<union> range PostFailed) posts \<and> dq_drain (sk_delivery s) = DrainIdle \<longrightarrow>
      dq_failure (sk_delivery s) \<noteq> None \<or>
      items_content (dq_delivered (sk_delivery s)) = input_content es)"
proof -
  obtain s where "sink_run jb (new_sink limit) (es @ [CloseBuffer] @ posts) = Some s"
    using sink_run_total [OF new_sink_inv(1), of jb limit "es @ [CloseBuffer] @ posts"] by blast
  with closed_sink_everything [OF this] show ?thesis by blast
qed

theorem output_delivered_or_failed_witness:
  "\<exists>s. sink_run (\<lambda>_. 0) (new_sink None) ([AgentCollaborationEvent sample_event] @ [CloseBuffer] @ [PostSucceeded, DrainFinally]) = Some s \<and>
     (dq_failure (sk_delivery s) \<noteq> None \<or> items_content (dq_delivered (sk_delivery s)) = [Inr sample_event])"
proof -
  define es where "es = [AgentCollaborationEvent sample_event] @ [CloseBuffer] @ [PostSucceeded, DrainFinally]"
  obtain s where s: "sink_run (\<lambda>_. 0) (new_sink None) es = Some s"
      "dq_drain (sk_delivery s) = DrainIdle \<Longrightarrow> dq_failure (sk_delivery s) \<noteq> None \<or>
       items_content (dq_delivered (sk_delivery s)) = [Inr sample_event]"
    using output_delivered_or_failed [of "\<lambda>_. 0" None "[AgentCollaborationEvent sample_event]" "[PostSucceeded, DrainFinally]"]
    by (auto simp: es_def)
  have "map_option (\<lambda>s. dq_drain (sk_delivery s)) (sink_run (\<lambda>_. 0) (new_sink None) es) = Some DrainIdle"
    by (simp add: es_def agentCollaboration_def with_buffer_def ob_flush_def ob_close_def new_sink_def
        new_output_buffer_def new_delivery_def enqueueOutputPost_def startOutputDrain_def drain_next_def
        post_finished_def drain_finally_def Let_def)
  with s show ?thesis by (auto simp: es_def)
qed

end
