(* ===== verification/File_Paths.thy ===== *)
theory File_Paths
  imports Relay_Prelude
begin

text \<open>
  POSIX paths as the daemon uses them (\<open>resolve\<close> and \<open>sep\<close> of \<open>node:path\<close>), and what it asks of
  the file system. A path is a string; \<open>path_segments\<close> splits it at slashes. The file system is
  the record \<open>file_system\<close> of answers to \<open>lstat\<close>, \<open>stat\<close>, \<open>realpath\<close> and \<open>access\<close>.
\<close>

definition SEP :: char where "SEP = CHR ''/''"

text \<open>\<open>s.split("/")\<close>: never the empty list.\<close>

fun path_segments :: "string \<Rightarrow> string list" where
  "path_segments [] = [[]]"
| "path_segments (c # cs) =
     (if c = SEP then [] # path_segments cs
      else case path_segments cs of [] \<Rightarrow> [[c]] | s # ss \<Rightarrow> (c # s) # ss)"

definition absolute_path :: "string \<Rightarrow> bool" where
  "absolute_path p \<longleftrightarrow> (p \<noteq> [] \<and> hd p = SEP)"

text \<open>The normalisation of \<open>resolve\<close>: empty and \<open>.\<close> segments vanish, \<open>..\<close> drops one.\<close>

fun walk_segments :: "string list \<Rightarrow> string list \<Rightarrow> string list" where
  "walk_segments acc [] = acc"
| "walk_segments acc (s # ss) =
     (if s = [] \<or> s = ''.'' then walk_segments acc ss
      else if s = ''..'' then walk_segments (butlast acc) ss
      else walk_segments (acc @ [s]) ss)"

definition render_path :: "string list \<Rightarrow> string" where
  "render_path segs = SEP # js_join [SEP] segs"

text \<open>\<open>resolve(base, p)\<close> for an absolute \<open>base\<close>.\<close>

definition path_resolve :: "string \<Rightarrow> string \<Rightarrow> string" where
  "path_resolve base p =
     (if absolute_path p then render_path (walk_segments [] (path_segments p))
      else render_path (walk_segments (walk_segments [] (path_segments base)) (path_segments p)))"

text \<open>A path that \<open>resolve\<close> has produced.\<close>

text \<open>\<open>normalize\<close> and \<open>join\<close>: unlike \<open>resolve\<close> they keep a relative path relative.\<close>

fun normal_segments :: "bool \<Rightarrow> string list \<Rightarrow> string list \<Rightarrow> string list" where
  "normal_segments rooted acc [] = acc"
| "normal_segments rooted acc (s # ss) =
     (if s = [] \<or> s = ''.'' then normal_segments rooted acc ss
      else if s = ''..''
      then (if acc \<noteq> [] \<and> last acc \<noteq> ''..'' then normal_segments rooted (butlast acc) ss
            else if rooted then normal_segments rooted acc ss else normal_segments rooted (acc @ [s]) ss)
      else normal_segments rooted (acc @ [s]) ss)"

definition path_normalize :: "string \<Rightarrow> string" where
  "path_normalize p =
     (if p = [] then ''.''
      else let body = js_join [SEP] (normal_segments (absolute_path p) [] (path_segments p));
               trailing = last p = SEP
           in if body = [] then (if absolute_path p then [SEP] else if trailing then ''./'' else ''.'')
              else (if absolute_path p then [SEP] else []) @ body @ (if trailing then [SEP] else []))"

definition path_join :: "string \<Rightarrow> string \<Rightarrow> string" where
  "path_join a b = path_normalize (js_join [SEP] (filter (\<lambda>s. s \<noteq> []) [a, b]))"

definition clean_segment :: "string \<Rightarrow> bool" where
  "clean_segment s \<longleftrightarrow> s \<noteq> [] \<and> s \<noteq> ''.'' \<and> s \<noteq> ''..'' \<and> SEP \<notin> set s"

definition resolved_path :: "string \<Rightarrow> bool" where
  "resolved_path p \<longleftrightarrow> (\<exists>segs. list_all clean_segment segs \<and> p = render_path segs)"

datatype file_kind = FileRegular | FileDirectory | FileSymlink | FileOther

datatype fs_error = ENOENT | FsError string

record file_stat =
  fst_kind :: file_kind
  fst_size :: int
  fst_mtimeMs :: int

record file_system =
  fs_lstat :: "string \<Rightarrow> fs_error + file_stat"
  fs_stat :: "string \<Rightarrow> fs_error + file_stat"
  fs_realpath :: "string \<Rightarrow> fs_error + string"
  fs_access :: "string \<Rightarrow> fs_error + unit"

text \<open>\<open>path === root || path.startsWith(root + sep)\<close>.\<close>

definition inside_or_equal :: "string \<Rightarrow> string \<Rightarrow> bool" where
  "inside_or_equal root p \<longleftrightarrow> p = root \<or> js_starts_with p (root @ [SEP])"

section \<open>Facts about resolution\<close>

lemma path_segments_not_Nil [simp]: "path_segments p \<noteq> []"
  by (induction p) (auto split: list.splits)

lemma path_segments_no_sep: "s \<in> set (path_segments p) \<Longrightarrow> SEP \<notin> set s"
proof (induction p arbitrary: s)
  case (Cons c p)
  then show ?case
    by (cases "path_segments p") (auto split: if_splits)
qed simp

lemma list_all_butlast: "list_all P xs \<Longrightarrow> list_all P (butlast xs)"
  by (auto simp: list_all_iff dest: in_set_butlastD)

lemma walk_segments_clean:
  "list_all clean_segment acc \<Longrightarrow> \<forall>s \<in> set ss. SEP \<notin> set s \<Longrightarrow> list_all clean_segment (walk_segments acc ss)"
proof (induction acc ss rule: walk_segments.induct)
  case (2 acc s ss)
  consider "s = [] \<or> s = ''.''" | "s = ''..''" | "clean_segment s" "\<not> (s = [] \<or> s = ''.'')" "s \<noteq> ''..''"
    using "2.prems"(2) by (auto simp: clean_segment_def)
  then show ?case
  proof cases
    case 1
    with 2 show ?thesis by simp
  next
    case 2
    with "2.IH"(2) "2.prems" show ?thesis by (simp add: list_all_butlast)
  next
    case 3
    with "2.IH"(3) "2.prems" show ?thesis by simp
  qed
qed simp

lemma path_resolve_resolved: "resolved_path (path_resolve base p)"
proof -
  have seg: "\<forall>s \<in> set (path_segments q). SEP \<notin> set s" for q
    using path_segments_no_sep by blast
  have base: "list_all clean_segment (walk_segments [] (path_segments base))"
    by (rule walk_segments_clean) (simp_all add: seg)
  have "list_all clean_segment (walk_segments [] (path_segments p))"
    by (rule walk_segments_clean) (simp_all add: seg)
  moreover have "list_all clean_segment (walk_segments (walk_segments [] (path_segments base)) (path_segments p))"
    by (rule walk_segments_clean [OF base]) (rule seg)
  ultimately show ?thesis unfolding path_resolve_def resolved_path_def by auto
qed

lemma path_segments_one: "SEP \<notin> set x \<Longrightarrow> path_segments x = [x]"
  by (induction x) auto

lemma path_segments_Cons: "SEP \<notin> set x \<Longrightarrow> path_segments (x @ SEP # z) = x # path_segments z"
  by (induction x) auto

lemma path_segments_join:
  "list_all clean_segment segs \<Longrightarrow> segs \<noteq> [] \<Longrightarrow> path_segments (js_join [SEP] segs) = segs"
proof (induction segs)
  case (Cons x xs)
  then show ?case
    by (cases xs) (simp_all add: path_segments_one path_segments_Cons clean_segment_def)
qed simp

text \<open>Resolved paths are determined by their segments.\<close>

lemma walk_clean: "list_all clean_segment segs \<Longrightarrow> walk_segments acc segs = acc @ segs"
proof (induction segs arbitrary: acc)
  case (Cons x xs)
  then have "x \<noteq> []" "x \<noteq> ''.''" "x \<noteq> ''..''" by (simp_all add: clean_segment_def)
  with Cons show ?case by simp
qed simp

lemma resolve_render:
  assumes "list_all clean_segment segs"
  shows "walk_segments [] (path_segments (render_path segs)) = segs"
proof (cases "segs = []")
  case True
  then show ?thesis by (simp add: render_path_def SEP_def)
next
  case False
  with assms show ?thesis by (simp add: render_path_def path_segments_join walk_clean)
qed

lemma js_join_append:
  "xs \<noteq> [] \<Longrightarrow> ys \<noteq> [] \<Longrightarrow> js_join sep (xs @ ys) = js_join sep xs @ sep @ js_join sep ys"
proof (induction xs)
  case (Cons x xs)
  then show ?case by (cases xs; cases ys) simp_all
qed simp

lemma first_separator:
  "a @ c # u = b @ c # v \<Longrightarrow> c \<notin> set a \<Longrightarrow> c \<notin> set b \<Longrightarrow> a = b \<and> u = v"
proof (induction a arbitrary: b)
  case Nil
  then show ?case by (cases b) auto
next
  case (Cons x a)
  then show ?case by (cases b) auto
qed

text \<open>Below the root: textual containment is containment of segments.\<close>

lemma render_prefix:
  assumes "list_all clean_segment root" and "list_all clean_segment segs" and "root \<noteq> []"
    and "js_starts_with (render_path segs) (render_path root @ [SEP])"
  shows "\<exists>rest. rest \<noteq> [] \<and> segs = root @ rest"
  using assms
proof (induction root arbitrary: segs)
  case (Cons r rs)
  have r: "SEP \<notin> set r" using Cons.prems(1) by (simp add: clean_segment_def)
  have ne: "segs \<noteq> []" using Cons.prems(4) by (cases rs) (auto simp: render_path_def prefix_def)
  then obtain x xs where segs: "segs = x # xs" by (cases segs) auto
  have x: "SEP \<notin> set x" using Cons.prems(2) segs by (simp add: clean_segment_def)
  have split: "js_join [SEP] (a # as) = a @ (if as = [] then [] else SEP # js_join [SEP] as)" for a as
    by (cases as) simp_all
  have head: "a = b \<and> u = v" if "a @ SEP # u = b @ SEP # v" "SEP \<notin> set a" "SEP \<notin> set b" for a b u v
    using that by (rule first_separator)
  from Cons.prems(4) obtain zs where zs: "js_join [SEP] (x # xs) = js_join [SEP] (r # rs) @ SEP # zs"
    by (auto simp: render_path_def segs prefix_def)
  have xs: "xs \<noteq> []"
  proof
    assume "xs = []"
    with zs have "x = js_join [SEP] (r # rs) @ SEP # zs" by simp
    with x show False by auto
  qed
  with zs have eq: "x @ SEP # js_join [SEP] xs = r @ SEP # (if rs = [] then zs else js_join [SEP] rs @ SEP # zs)"
    unfolding split [of x xs] split [of r rs] by (cases "rs = []") auto
  from head [OF eq x r] have xr: "x = r" and tail: "js_join [SEP] xs = (if rs = [] then zs else js_join [SEP] rs @ SEP # zs)"
    by simp_all
  show ?case
  proof (cases "rs = []")
    case True
    with xs xr segs show ?thesis by auto
  next
    case False
    with tail have "js_starts_with (render_path xs) (render_path rs @ [SEP])"
      by (simp add: render_path_def prefix_def)
    with Cons.IH [of xs] Cons.prems segs False xr show ?thesis by auto
  qed
qed simp

lemma render_below:
  assumes "root \<noteq> []" and "rest \<noteq> []"
  shows "render_path (root @ rest) = render_path root @ [SEP] @ js_join [SEP] rest"
  using assms by (simp add: render_path_def js_join_append)

end
