(* ===== verification/Thread_Workspace.thy ===== *)
theory Thread_Workspace
  imports File_Paths Daemon_Protocol
begin

text \<open>
  Where a run may write: \<open>packages/relay-daemon/src/thread-workspace.ts\<close>. The manager maps a
  thread id or a durable workspace path to a directory below the node's rootDir. The file system is
  an argument, read anew at every check; \<open>mkdir\<close> is a function that changes it.
\<close>

datatype workspace_error = WorkspaceError string | WorkspaceFsError fs_error

record thread_workspace =
  tw_sessionId :: string
  tw_hostPath :: string
  tw_executionPath :: string

record workspace_manager =
  wm_rootPath :: string
  wm_sandboxMode :: DaemonNodeSandboxMode

definition GUEST_WORKSPACE :: string where "GUEST_WORKSPACE = ''/workspace''"

section \<open>Names\<close>

definition alnum :: "char \<Rightarrow> bool" where
  "alnum c = (let n = (of_char c :: nat) in
     (48 \<le> n \<and> n \<le> 57) \<or> (65 \<le> n \<and> n \<le> 90) \<or> (97 \<le> n \<and> n \<le> 122))"

text \<open>\<open>/^[A-Za-z0-9][A-Za-z0-9._-]{0,199}$/\<close>.\<close>

fun THREAD_ID_PATTERN :: "string \<Rightarrow> bool" where
  "THREAD_ID_PATTERN [] = False"
| "THREAD_ID_PATTERN (c # cs) =
     (alnum c \<and> length cs \<le> 199 \<and> list_all (\<lambda>d. alnum d \<or> d \<in> set ''._-'') cs)"

text \<open>\<open>/^(con|prn|aux|nul|com[1-9]|lpt[1-9])(?:\.|$)/i\<close>.\<close>

definition reserved_names :: "string list" where
  "reserved_names = [''con'', ''prn'', ''aux'', ''nul''] @
     concat (map (\<lambda>d. [''com'' @ [d], ''lpt'' @ [d]]) ''123456789'')"

definition WINDOWS_RESERVED_NAME :: "string \<Rightarrow> bool" where
  "WINDOWS_RESERVED_NAME s =
     list_ex (\<lambda>r. js_starts_with (map js_lower s) r \<and>
                   (let rest = drop (length r) s in rest = [] \<or> hd rest = CHR ''.'')) reserved_names"

definition bad_segment :: "string \<Rightarrow> bool" where
  "bad_segment s = (\<not> THREAD_ID_PATTERN s \<or> s = ''.'' \<or> s = ''..'' \<or> js_ends_with s ''.'' \<or> WINDOWS_RESERVED_NAME s)"

definition validateThreadId :: "string \<Rightarrow> workspace_error + unit" where
  "validateThreadId sessionId =
     (if bad_segment sessionId then Inl (WorkspaceError ''Invalid thread id.'') else Inr ())"

definition validateWorkspaceSubpath :: "string \<Rightarrow> workspace_error + string list" where
  "validateWorkspaceSubpath p =
     (if p = [] \<or> CHR 0x5C \<in> set p \<or> absolute_path p
      then Inl (WorkspaceError ''Invalid durable workspace path.'')
      else if list_ex bad_segment (path_segments p)
      then Inl (WorkspaceError ''Invalid durable workspace path.'')
      else Inr (path_segments p))"

section \<open>File system checks\<close>

definition assertWorkspaceRoot :: "file_system \<Rightarrow> string \<Rightarrow> workspace_error + unit" where
  "assertWorkspaceRoot fs rootDir =
     (case fs_stat fs rootDir of
        Inl e \<Rightarrow> Inl (WorkspaceFsError e)
      | Inr info \<Rightarrow>
          if fst_kind info \<noteq> FileDirectory
          then Inl (WorkspaceError ''Configured workspace root is not a directory.'')
          else case fs_access fs rootDir of Inl e \<Rightarrow> Inl (WorkspaceFsError e) | Inr _ \<Rightarrow> Inr ())"

definition new_manager ::
  "file_system \<Rightarrow> string \<Rightarrow> string \<Rightarrow> DaemonNodeSandboxMode \<Rightarrow> workspace_error + workspace_manager" where
  "new_manager fs cwd rootDir mode =
     (let r = path_resolve cwd rootDir
      in case assertWorkspaceRoot fs r of Inl e \<Rightarrow> Inl e
         | Inr _ \<Rightarrow> Inr \<lparr>wm_rootPath = r, wm_sandboxMode = mode\<rparr>)"

definition rejectSymbolicLink :: "file_system \<Rightarrow> string \<Rightarrow> workspace_error + unit" where
  "rejectSymbolicLink fs p =
     (case fs_lstat fs p of
        Inl ENOENT \<Rightarrow> Inr ()
      | Inl (FsError m) \<Rightarrow> Inl (WorkspaceFsError (FsError m))
      | Inr st \<Rightarrow> if fst_kind st = FileSymlink
                   then Inl (WorkspaceError ''Thread workspace must not be a symbolic link.'') else Inr ())"

fun rejectSymlinkComponents :: "file_system \<Rightarrow> string \<Rightarrow> string list \<Rightarrow> workspace_error + unit" where
  "rejectSymlinkComponents fs current [] = Inr ()"
| "rejectSymlinkComponents fs current (s # ss) =
     (let nxt = path_resolve current s
      in case fs_lstat fs nxt of
           Inl ENOENT \<Rightarrow> Inr ()
         | Inl (FsError m) \<Rightarrow> Inl (WorkspaceFsError (FsError m))
         | Inr st \<Rightarrow> if fst_kind st = FileSymlink
                      then Inl (WorkspaceError ''Durable workspace must not contain a symbolic link.'')
                      else rejectSymlinkComponents fs nxt ss)"

text \<open>\<open>assertContainedRealPath\<close>, and the same check written out in \<open>resolve\<close>.\<close>

definition assertContainedRealPath :: "file_system \<Rightarrow> string \<Rightarrow> string \<Rightarrow> workspace_error + unit" where
  "assertContainedRealPath fs rootDir target =
     (case fs_realpath fs rootDir of
        Inl e \<Rightarrow> Inl (WorkspaceFsError e)
      | Inr realRoot \<Rightarrow>
          (case fs_realpath fs target of
             Inl ENOENT \<Rightarrow> Inr ()
           | Inl (FsError m) \<Rightarrow> Inl (WorkspaceFsError (FsError m))
           | Inr realTarget \<Rightarrow> if inside_or_equal realRoot realTarget then Inr ()
                          else Inl (WorkspaceError ''Workspace escapes the configured root.'')))"

definition execution_path :: "workspace_manager \<Rightarrow> string \<Rightarrow> string" where
  "execution_path m p = (if wm_sandboxMode m = sandbox_boxlite then GUEST_WORKSPACE else p)"

section \<open>The manager\<close>

definition sum_bind :: "'e + 'a \<Rightarrow> ('a \<Rightarrow> 'e + 'b) \<Rightarrow> 'e + 'b" where
  "sum_bind r k = (case r of Inl e \<Rightarrow> Inl e | Inr a \<Rightarrow> k a)"

definition tw_resolve :: "file_system \<Rightarrow> workspace_manager \<Rightarrow> string \<Rightarrow> workspace_error + thread_workspace" where
  "tw_resolve fs m sessionId =
     sum_bind (validateThreadId sessionId) (\<lambda>_.
       let hostPath = path_resolve (wm_rootPath m) sessionId
       in if \<not> js_starts_with hostPath (wm_rootPath m @ [SEP])
          then Inl (WorkspaceError ''Invalid thread id.'')
          else sum_bind (rejectSymbolicLink fs hostPath) (\<lambda>_.
               sum_bind (assertContainedRealPath fs (wm_rootPath m) hostPath) (\<lambda>_.
               Inr \<lparr>tw_sessionId = sessionId, tw_hostPath = hostPath,
                    tw_executionPath = execution_path m hostPath\<rparr>)))"

definition tw_resolveSubpath ::
  "file_system \<Rightarrow> workspace_manager \<Rightarrow> string \<Rightarrow> string \<Rightarrow> workspace_error + thread_workspace" where
  "tw_resolveSubpath fs m sessionId sub =
     sum_bind (validateThreadId sessionId) (\<lambda>_.
     sum_bind (validateWorkspaceSubpath sub) (\<lambda>segments.
       let hostPath = foldl path_resolve (wm_rootPath m) segments
       in if \<not> js_starts_with hostPath (wm_rootPath m @ [SEP])
          then Inl (WorkspaceError ''Invalid durable workspace path.'')
          else sum_bind (rejectSymlinkComponents fs (wm_rootPath m) segments) (\<lambda>_.
               sum_bind (assertContainedRealPath fs (wm_rootPath m) hostPath) (\<lambda>_.
               Inr \<lparr>tw_sessionId = sessionId, tw_hostPath = hostPath,
                    tw_executionPath = execution_path m hostPath\<rparr>))))"

text \<open>\<open>ensure\<close> and \<open>ensureSubpath\<close>: resolve, create, and resolve again in the changed file system.\<close>

definition tw_ensure ::
  "(string \<Rightarrow> file_system \<Rightarrow> fs_error + file_system) \<Rightarrow> file_system \<Rightarrow> workspace_manager \<Rightarrow> string
     \<Rightarrow> workspace_error + (thread_workspace \<times> file_system)" where
  "tw_ensure mkdir fs m sessionId =
     sum_bind (tw_resolve fs m sessionId) (\<lambda>w.
       case mkdir (tw_hostPath w) fs of
         Inl e \<Rightarrow> Inl (WorkspaceFsError e)
       | Inr fs1 \<Rightarrow> sum_bind (tw_resolve fs1 m sessionId) (\<lambda>w1. Inr (w1, fs1)))"

definition tw_ensureSubpath ::
  "(string \<Rightarrow> file_system \<Rightarrow> fs_error + file_system) \<Rightarrow> file_system \<Rightarrow> workspace_manager \<Rightarrow> string \<Rightarrow> string
     \<Rightarrow> workspace_error + (thread_workspace \<times> file_system)" where
  "tw_ensureSubpath mkdir fs m sessionId sub =
     sum_bind (tw_resolveSubpath fs m sessionId sub) (\<lambda>w.
       case mkdir (tw_hostPath w) fs of
         Inl e \<Rightarrow> Inl (WorkspaceFsError e)
       | Inr fs1 \<Rightarrow> sum_bind (tw_resolveSubpath fs1 m sessionId sub) (\<lambda>w1. Inr (w1, fs1)))"

definition tw_nodeRoot :: "workspace_manager \<Rightarrow> string \<Rightarrow> thread_workspace" where
  "tw_nodeRoot m sessionId =
     \<lparr>tw_sessionId = sessionId, tw_hostPath = wm_rootPath m,
      tw_executionPath = execution_path m (wm_rootPath m)\<rparr>"

section \<open>Accepted names\<close>

lemma pattern_chars: "THREAD_ID_PATTERN s \<Longrightarrow> c \<in> set s \<Longrightarrow> alnum c \<or> c \<in> set ''._-''"
  by (cases s) (auto simp: list_all_iff)

lemma not_alnum [simp]: "\<not> alnum (CHR ''/'')" "\<not> alnum (CHR 0x5C)" "\<not> alnum (CHR ''.'')"
  by (simp_all add: alnum_def)

lemma clean_not_absolute: "clean_segment s \<Longrightarrow> \<not> absolute_path s"
  by (cases s) (auto simp: clean_segment_def absolute_path_def)

lemma good_segment_clean: "\<not> bad_segment s \<Longrightarrow> clean_segment s"
  using pattern_chars [of s SEP] by (auto simp: bad_segment_def clean_segment_def SEP_def)

lemma validateWorkspaceSubpath_ok:
  assumes "validateWorkspaceSubpath p = Inr segs"
  shows "segs \<noteq> []" and "list_all clean_segment segs" and "list_all (\<lambda>s. \<not> bad_segment s) segs"
  using assms good_segment_clean
  by (auto simp: validateWorkspaceSubpath_def list_all_iff list_ex_iff split: if_splits)

lemma resolve_clean_segment:
  assumes "resolved_path rootDir" and "clean_segment s"
  shows "\<exists>segs. list_all clean_segment segs \<and> rootDir = render_path segs \<and> path_resolve rootDir s = render_path (segs @ [s])"
proof -
  obtain segs where segs: "list_all clean_segment segs" "rootDir = render_path segs"
    using assms(1) by (auto simp: resolved_path_def)
  have s: "SEP \<notin> set s" "s \<noteq> []" "s \<noteq> ''.''" "s \<noteq> ''..''" using assms(2) by (simp_all add: clean_segment_def)
  moreover have "\<not> absolute_path s" using assms(2) by (rule clean_not_absolute)
  ultimately show ?thesis using segs
    by (auto simp: path_resolve_def resolve_render path_segments_one)
qed

lemma resolve_segments:
  "list_all clean_segment segs \<Longrightarrow> list_all clean_segment rsegs \<Longrightarrow>
   foldl path_resolve (render_path rsegs) segs = render_path (rsegs @ segs)"
proof (induction segs arbitrary: rsegs)
  case (Cons s segs)
  have "\<not> absolute_path s" "path_segments s = [s]" "s \<noteq> []" "s \<noteq> ''.''" "s \<noteq> ''..''"
    using Cons.prems(1) clean_not_absolute [of s] by (simp_all add: clean_segment_def path_segments_one)
  then have "path_resolve (render_path rsegs) s = render_path (rsegs @ [s])"
    using Cons.prems(2) by (simp add: path_resolve_def resolve_render)
  with Cons.IH [of "rsegs @ [s]"] Cons.prems show ?case by simp
qed simp

text \<open>The directories of a durable path, from the first below the root to the workspace itself.\<close>

definition component_paths :: "string \<Rightarrow> string list \<Rightarrow> string list" where
  "component_paths rootDir segs = map (\<lambda>k. foldl path_resolve rootDir (take (Suc k) segs)) [0 ..< length segs]"

lemma component_paths_Cons:
  "component_paths rootDir (s # ss) = path_resolve rootDir s # component_paths (path_resolve rootDir s) ss"
proof -
  have "[0 ..< length (s # ss)] = 0 # map Suc [0 ..< length ss]"
    by (simp only: map_Suc_upt list.size upt_conv_Cons zero_less_Suc) simp
  then show ?thesis by (simp add: component_paths_def)
qed

definition not_symlink :: "file_system \<Rightarrow> string \<Rightarrow> bool" where
  "not_symlink fs p = (case fs_lstat fs p of Inl _ \<Rightarrow> True | Inr st \<Rightarrow> fst_kind st \<noteq> FileSymlink)"

lemma rejectSymlinkComponents_ok:
  "rejectSymlinkComponents fs rootDir segs = Inr u \<Longrightarrow>
   list_all (not_symlink fs) (takeWhile (\<lambda>p. fs_lstat fs p \<noteq> Inl ENOENT) (component_paths rootDir segs))"
proof (induction fs rootDir segs rule: rejectSymlinkComponents.induct)
  case (2 fs current s ss)
  show ?case
  proof (cases "fs_lstat fs (path_resolve current s)")
    case (Inl e)
    with "2.prems" show ?thesis by (cases e) (simp_all add: component_paths_Cons)
  next
    case (Inr st)
    with "2.prems" "2.IH" show ?thesis
      by (simp add: component_paths_Cons not_symlink_def [of fs "path_resolve current s"] split: if_splits)
  qed
qed (simp add: component_paths_def)

definition really_inside :: "file_system \<Rightarrow> string \<Rightarrow> string \<Rightarrow> bool" where
  "really_inside fs rootDir target =
     (case fs_realpath fs rootDir of
        Inl _ \<Rightarrow> False
      | Inr realRoot \<Rightarrow> (case fs_realpath fs target of
            Inl e \<Rightarrow> e = ENOENT | Inr realTarget \<Rightarrow> inside_or_equal realRoot realTarget))"

lemma assertContainedRealPath_ok:
  "assertContainedRealPath fs rootDir target = Inr u \<Longrightarrow> really_inside fs rootDir target"
  by (auto simp: assertContainedRealPath_def really_inside_def split: sum.splits fs_error.splits if_splits)

lemma tw_resolveSubpath_inside:
  "tw_resolveSubpath fs m sessionId sub = Inr w \<Longrightarrow> really_inside fs (wm_rootPath m) (tw_hostPath w)"
  by (auto simp: tw_resolveSubpath_def sum_bind_def Let_def intro: assertContainedRealPath_ok
      split: sum.splits if_splits)

section \<open>Properties\<close>

text \<open>C13. A durable workspace handed to a run is strictly below the node's root: its path is the root's
  followed by the segments of the requested path, none of them empty, a dot or a dot-dot; no existing
  directory on the way is a symbolic link; and its real path, when it exists, lies in the real root.\<close>

theorem durable_workspace_contained:
  assumes "resolved_path (wm_rootPath m)" and "tw_resolveSubpath fs m sessionId sub = Inr w"
  shows "\<exists>rsegs segs. wm_rootPath m = render_path rsegs \<and> segs = path_segments sub \<and> segs \<noteq> [] \<and>
     list_all clean_segment segs \<and> tw_hostPath w = render_path (rsegs @ segs) \<and>
     list_all (not_symlink fs)
       (takeWhile (\<lambda>p. fs_lstat fs p \<noteq> Inl ENOENT) (component_paths (wm_rootPath m) segs)) \<and>
     really_inside fs (wm_rootPath m) (tw_hostPath w)"
proof -
  obtain rsegs where r: "list_all clean_segment rsegs" "wm_rootPath m = render_path rsegs"
    using assms(1) by (auto simp: resolved_path_def)
  obtain segs u v where v: "validateWorkspaceSubpath sub = Inr segs"
      "rejectSymlinkComponents fs (wm_rootPath m) segs = Inr u"
      "assertContainedRealPath fs (wm_rootPath m) (tw_hostPath w) = Inr v"
      "tw_hostPath w = foldl path_resolve (wm_rootPath m) segs"
    using assms(2) by (auto simp: tw_resolveSubpath_def sum_bind_def Let_def split: sum.splits if_splits)
  have "segs = path_segments sub" using v(1) by (auto simp: validateWorkspaceSubpath_def split: if_splits)
  moreover have "tw_hostPath w = render_path (rsegs @ segs)"
    unfolding v(4) r(2) by (rule resolve_segments [OF validateWorkspaceSubpath_ok(2) [OF v(1)] r(1)])
  ultimately show ?thesis
    using r(2) validateWorkspaceSubpath_ok(1,2) [OF v(1)] rejectSymlinkComponents_ok [OF v(2)]
      assertContainedRealPath_ok [OF v(3)] by blast
qed

definition plain_fs :: file_system where
  "plain_fs = \<lparr>fs_lstat = (\<lambda>_. Inl ENOENT), fs_stat = (\<lambda>_. Inl ENOENT),
     fs_realpath = (\<lambda>p. if p = ''/srv'' then Inr p else Inl ENOENT), fs_access = (\<lambda>_. Inr ())\<rparr>"

definition plain_manager :: workspace_manager where
  "plain_manager = \<lparr>wm_rootPath = ''/srv'', wm_sandboxMode = sandbox_none\<rparr>"

lemma plain_root: "resolved_path (wm_rootPath plain_manager)"
  unfolding resolved_path_def
  by (rule exI [of _ "[''srv'']"]) (simp add: plain_manager_def render_path_def clean_segment_def SEP_def)

lemma plain_subpath: "tw_resolveSubpath plain_fs plain_manager ''s1'' ''p/q'' =
  Inr \<lparr>tw_sessionId = ''s1'', tw_hostPath = ''/srv/p/q'', tw_executionPath = ''/srv/p/q''\<rparr>"
  by (simp add: tw_resolveSubpath_def sum_bind_def validateThreadId_def validateWorkspaceSubpath_def
      bad_segment_def alnum_def js_ends_with_def WINDOWS_RESERVED_NAME_def reserved_names_def js_lower_def
      absolute_path_def SEP_def path_resolve_def render_path_def plain_fs_def plain_manager_def
      assertContainedRealPath_def prefix_def execution_path_def Let_def)

theorem durable_workspace_contained_witness:
  "really_inside plain_fs ''/srv'' ''/srv/p/q'' \<and> path_segments ''p/q'' \<noteq> []"
  using durable_workspace_contained [OF plain_root plain_subpath] by (auto simp: plain_manager_def)

text \<open>Distinct threads never share a directory: two accepted thread ids that resolve to the same host
  path are the same id.\<close>

theorem thread_directories_disjoint:
  assumes "resolved_path (wm_rootPath m)"
    and "tw_resolve fs m s1 = Inr w1" and "tw_resolve fs' m s2 = Inr w2" and "tw_hostPath w1 = tw_hostPath w2"
  shows "s1 = s2"
proof -
  obtain rsegs where r: "list_all clean_segment rsegs" "wm_rootPath m = render_path rsegs"
    using assms(1) by (auto simp: resolved_path_def)
  have host: "list_all clean_segment [s] \<and> tw_hostPath w = render_path (rsegs @ [s])"
    if "tw_resolve g m s = Inr w" for g s w
  proof -
    have "clean_segment s" and "tw_hostPath w = path_resolve (wm_rootPath m) s"
      using that good_segment_clean
      by (auto simp: tw_resolve_def sum_bind_def validateThreadId_def Let_def split: sum.splits if_splits)
    with resolve_segments [of "[s]" rsegs] r show ?thesis by simp
  qed
  have "rsegs @ [s1] = rsegs @ [s2]"
    using host [OF assms(2)] host [OF assms(3)] assms(4) r(1)
      resolve_render [of "rsegs @ [s1]"] resolve_render [of "rsegs @ [s2]"] by simp
  then show ?thesis by simp
qed

theorem thread_directories_disjoint_witness:
  "tw_resolve plain_fs plain_manager ''a'' = Inr \<lparr>tw_sessionId = ''a'', tw_hostPath = ''/srv/a'', tw_executionPath = ''/srv/a''\<rparr>
   \<and> ''a'' = (''a'' :: string)"
proof
  show one: "tw_resolve plain_fs plain_manager ''a'' = Inr \<lparr>tw_sessionId = ''a'', tw_hostPath = ''/srv/a'', tw_executionPath = ''/srv/a''\<rparr>"
    by (simp add: tw_resolve_def sum_bind_def validateThreadId_def bad_segment_def alnum_def js_ends_with_def
        WINDOWS_RESERVED_NAME_def reserved_names_def js_lower_def absolute_path_def SEP_def path_resolve_def
        render_path_def plain_fs_def plain_manager_def assertContainedRealPath_def rejectSymbolicLink_def
        prefix_def execution_path_def Let_def)
  show "''a'' = (''a'' :: string)"
    by (rule thread_directories_disjoint [OF plain_root one one]) simp
qed

text \<open>Every durable path that is empty, absolute, has a backslash or goes up a directory is refused
  before the file system is looked at.\<close>

theorem escaping_subpath_refused:
  assumes "sub = [] \<or> absolute_path sub \<or> CHR 0x5C \<in> set sub \<or> ''..'' \<in> set (path_segments sub)"
  shows "\<exists>e. tw_resolveSubpath fs m sessionId sub = Inl (WorkspaceError e)"
proof -
  have "bad_segment ''..''" by (simp add: bad_segment_def)
  with assms have "\<exists>e. validateWorkspaceSubpath sub = Inl (WorkspaceError e)"
    by (auto simp: validateWorkspaceSubpath_def list_ex_iff)
  then show ?thesis by (auto simp: tw_resolveSubpath_def sum_bind_def validateThreadId_def)
qed

theorem escaping_subpath_refused_witness:
  "\<exists>e. tw_resolveSubpath plain_fs plain_manager ''s1'' ''a/../../etc'' = Inl (WorkspaceError e)"
  by (rule escaping_subpath_refused) (simp add: SEP_def)

end
