(* ===== verification/Workspace_Read.thy ===== *)
theory Workspace_Read
  imports File_Paths Daemon_Protocol "HOL-Library.Product_Lexorder" "HOL-Library.Multiset"
begin

text \<open>
  Live workspace listings and previews: \<open>packages/relay-daemon/src/workspace-read.ts\<close>. File
  contents are bytes. The strict UTF-8 decoder of the platform is the predicate \<open>valid_utf8\<close>, the
  well-formed byte sequences of the Unicode standard; the two UTF-16 decoders, base64, the date
  printer and the collation of file names are arguments.
\<close>

type_synonym byte = "8 word"

definition DEFAULT_READ_LIMIT_BYTES :: nat where "DEFAULT_READ_LIMIT_BYTES = 256 * 1024"

section \<open>UTF-8\<close>

definition cont_byte :: "byte \<Rightarrow> bool" where
  "cont_byte b \<longleftrightarrow> 0x80 \<le> b \<and> b \<le> 0xBF"

definition lead_length :: "byte \<Rightarrow> nat" where
  "lead_length b = (if b < 0x80 then 1 else if b < 0xC2 then 0 else if b < 0xE0 then 2
     else if b < 0xF0 then 3 else if b < 0xF5 then 4 else 0)"

definition second_ok :: "byte \<Rightarrow> byte \<Rightarrow> bool" where
  "second_ok l b \<longleftrightarrow> cont_byte b \<and> (l = 0xE0 \<longrightarrow> 0xA0 \<le> b) \<and> (l = 0xED \<longrightarrow> b \<le> 0x9F) \<and>
     (l = 0xF0 \<longrightarrow> 0x90 \<le> b) \<and> (l = 0xF4 \<longrightarrow> b \<le> 0x8F)"

text \<open>A character: a lead byte and the bytes that belong to it.\<close>

definition utf8_char :: "byte list \<Rightarrow> bool" where
  "utf8_char cs \<longleftrightarrow> cs \<noteq> [] \<and> length cs = lead_length (hd cs) \<and> list_all cont_byte (tl cs) \<and>
     (tl cs \<noteq> [] \<longrightarrow> second_ok (hd cs) (hd (tl cs)))"

fun valid_utf8 :: "byte list \<Rightarrow> bool" where
  "valid_utf8 [] = True"
| "valid_utf8 (b # bs) =
     (utf8_char (b # take (lead_length b - 1) bs) \<and> valid_utf8 (drop (lead_length b - 1) bs))"

definition utf8_sequence_length :: "byte \<Rightarrow> int" where
  "utf8_sequence_length b =
     (if b < 0x80 then 0 else if b < 0xC2 then -1 else if b < 0xE0 then 2
      else if b < 0xF0 then 3 else if b < 0xF8 then 4 else -1)"

definition cut_at :: "byte list \<Rightarrow> nat \<Rightarrow> bool" where
  "cut_at raw i \<longleftrightarrow> 0 < utf8_sequence_length (raw ! i) \<and> int (length raw) < int i + utf8_sequence_length (raw ! i)"

definition completeUtf8PrefixLength :: "byte list \<Rightarrow> nat" where
  "completeUtf8PrefixLength raw =
     (case List.find (cut_at raw) [length raw - 3 ..< length raw] of Some i \<Rightarrow> i | None \<Rightarrow> length raw)"

text \<open>\<open>utf16 le bytes\<close>: the UTF-8 form of what the little or big endian decoder returns.\<close>

definition decodePreviewContent :: "(bool \<Rightarrow> byte list \<Rightarrow> byte list) \<Rightarrow> byte list \<Rightarrow> byte list option" where
  "decodePreviewContent utf16 raw =
     (if 2 \<le> length raw \<and> raw ! 0 = 0xFF \<and> raw ! 1 = 0xFE then Some (utf16 True (drop 2 raw))
      else if 2 \<le> length raw \<and> raw ! 0 = 0xFE \<and> raw ! 1 = 0xFF then Some (utf16 False (drop 2 raw))
      else if 0 \<in> set raw then None
      else let pre = take (completeUtf8PrefixLength raw) raw in if valid_utf8 pre then Some pre else None)"

section \<open>Paths below the workspace\<close>

datatype read_error = WorkspaceReadError DaemonWorkspaceErrorCode string | OtherReadError string

fun fs_message :: "fs_error \<Rightarrow> string" where
  "fs_message ENOENT = ''ENOENT: no such file or directory''"
| "fs_message (FsError m) = m"

definition relativeHomePath :: "string \<Rightarrow> string \<Rightarrow> string" where
  "relativeHomePath home target = (if target = home then [] else drop (length home + 1) target)"

definition resolveInsideBase :: "file_system \<Rightarrow> string \<Rightarrow> string \<Rightarrow> read_error + (string \<times> string)" where
  "resolveInsideBase fs home relativePath =
     (let requested = js_trim relativePath
      in if js_starts_with requested [SEP]
         then Inl (WorkspaceReadError we_invalid_path ''Path must be relative to the workspace.'')
         else let lexicalTarget = path_resolve home requested
              in if lexicalTarget \<noteq> home \<and> \<not> js_starts_with lexicalTarget (home @ [SEP])
                 then Inl (WorkspaceReadError we_invalid_path ''Path escapes the workspace.'')
                 else let path = relativeHomePath home lexicalTarget
                      in case fs_lstat fs lexicalTarget of
                           Inl _ \<Rightarrow> Inr (path, lexicalTarget)
                         | Inr _ \<Rightarrow>
                             (case fs_realpath fs home of
                                Inl e \<Rightarrow> Inl (WorkspaceReadError we_io_error (fs_message e))
                              | Inr realHome \<Rightarrow>
                                  (case fs_realpath fs lexicalTarget of
                                     Inl e \<Rightarrow> Inl (WorkspaceReadError we_io_error (fs_message e))
                                   | Inr realTarget \<Rightarrow>
                                       if realTarget \<noteq> realHome \<and> \<not> js_starts_with realTarget (realHome @ [SEP])
                                       then Inl (WorkspaceReadError we_invalid_path
                                              ''Path escapes the workspace through a symbolic link.'')
                                       else Inr (path, realTarget))))"

section \<open>Listing and reading\<close>

record 'k read_env =
  rd_fs :: file_system
  rd_readdir :: "string \<Rightarrow> fs_error + string list"
  rd_bytes :: "string \<Rightarrow> nat \<Rightarrow> fs_error + byte list"
  rd_isoDate :: "int \<Rightarrow> string"
  rd_base64 :: "byte list \<Rightarrow> string"
  rd_utf16 :: "bool \<Rightarrow> byte list \<Rightarrow> byte list"
  rd_collate :: "string \<Rightarrow> 'k"
  rd_cwd :: string

record listing =
  ls_path :: string
  ls_exists :: bool
  ls_entries :: "workspace_entry list"

definition list_entry :: "'k read_env \<Rightarrow> string \<Rightarrow> string \<Rightarrow> string \<Rightarrow> workspace_entry option" where
  "list_entry env target path name =
     (case fs_lstat (rd_fs env) (path_resolve target name) of
        Inl _ \<Rightarrow> None
      | Inr info \<Rightarrow>
          if fst_kind info \<noteq> FileDirectory \<and> fst_kind info \<noteq> FileRegular then None
          else Some \<lparr>wse_name = name, wse_path = (if path \<noteq> [] then path @ [SEP] @ name else name),
                     wse_kind = (if fst_kind info = FileDirectory then kind_directory else kind_file),
                     wse_bytes = (if fst_kind info = FileDirectory then None else Some (fst_size info)),
                     wse_updatedAt = rd_isoDate env (fst_mtimeMs info)\<rparr>)"

definition entry_key :: "'k read_env \<Rightarrow> workspace_entry \<Rightarrow> bool \<times> 'k" where
  "entry_key env e = (wse_kind e \<noteq> kind_directory, rd_collate env (map js_lower (wse_name e)))"

definition listWorkspace :: "('k :: linorder) read_env \<Rightarrow> string \<Rightarrow> string \<Rightarrow> read_error + listing" where
  "listWorkspace env workspaceRoot relativePath =
     (case resolveInsideBase (rd_fs env) (path_resolve (rd_cwd env) workspaceRoot) relativePath of
        Inl e \<Rightarrow> Inl e
      | Inr (path, target) \<Rightarrow>
          (case fs_lstat (rd_fs env) target of
             Inl _ \<Rightarrow> Inr \<lparr>ls_path = path, ls_exists = False, ls_entries = []\<rparr>
           | Inr info \<Rightarrow>
               if fst_kind info \<noteq> FileDirectory
               then Inl (WorkspaceReadError we_invalid_path ''Listing target is not a directory.'')
               else case rd_readdir env target of
                      Inl e \<Rightarrow> Inl (OtherReadError (fs_message e))
                    | Inr names \<Rightarrow>
                        Inr \<lparr>ls_path = path, ls_exists = True,
                             ls_entries = sort_key (entry_key env) (List.map_filter (list_entry env target path) names)\<rparr>))"

record file_preview =
  fp_path :: string
  fp_bytes :: int
  fp_isBinary :: bool
  fp_truncated :: bool
  fp_contentBase64 :: string

definition readWorkspaceFile :: "'k read_env \<Rightarrow> string \<Rightarrow> string \<Rightarrow> nat \<Rightarrow> read_error + file_preview" where
  "readWorkspaceFile env workspaceRoot relativePath limitBytes =
     (case resolveInsideBase (rd_fs env) (path_resolve (rd_cwd env) workspaceRoot) relativePath of
        Inl e \<Rightarrow> Inl e
      | Inr (path, target) \<Rightarrow>
          (case fs_lstat (rd_fs env) target of
             Inl _ \<Rightarrow> Inl (WorkspaceReadError we_not_found ''Workspace file was not found.'')
           | Inr info \<Rightarrow>
               if fst_kind info = FileDirectory
               then Inl (WorkspaceReadError we_is_directory ''Workspace path is a directory.'')
               else if fst_kind info \<noteq> FileRegular
               then Inl (WorkspaceReadError we_not_found ''Workspace path is not a regular file.'')
               else case fs_stat (rd_fs env) target of
                 Inl e \<Rightarrow> Inl (WorkspaceReadError we_io_error (fs_message e))
               | Inr st \<Rightarrow>
                   (case rd_bytes env target (min (nat (fst_size st)) limitBytes) of
                      Inl e \<Rightarrow> Inl (WorkspaceReadError we_io_error (fs_message e))
                    | Inr raw \<Rightarrow>
                        let content = decodePreviewContent (rd_utf16 env) raw
                        in Inr \<lparr>fp_path = path, fp_bytes = fst_size st, fp_isBinary = (content = None),
                                fp_truncated = (int limitBytes < fst_size st),
                                fp_contentBase64 = rd_base64 env (case content of None \<Rightarrow> raw | Some c \<Rightarrow> c)\<rparr>)))"

fun read_error_event :: "workspace_command \<Rightarrow> read_error \<Rightarrow> node_event" where
  "read_error_event c (WorkspaceReadError code m) =
     NodeWorkspaceError (wc_id c) (truthy_or_none (wc_leaseId c)) None (wc_path c) code m"
| "read_error_event c (OtherReadError m) =
     NodeWorkspaceError (wc_id c) (truthy_or_none (wc_leaseId c)) None (wc_path c) we_io_error m"

text \<open>\<open>isList\<close> is \<open>command.type === "workspace.list"\<close>.\<close>

definition workspaceCommandEvent ::
  "('k :: linorder) read_env \<Rightarrow> string \<Rightarrow> bool \<Rightarrow> workspace_command \<Rightarrow> node_event" where
  "workspaceCommandEvent env workspaceRoot isList c =
     (if isList
      then case listWorkspace env workspaceRoot (wc_path c) of
             Inl e \<Rightarrow> read_error_event c e
           | Inr l \<Rightarrow> NodeWorkspaceListing (wc_id c) (truthy_or_none (wc_leaseId c)) None
                        (ls_path l) (ls_exists l) (ls_entries l)
      else case readWorkspaceFile env workspaceRoot (wc_path c) DEFAULT_READ_LIMIT_BYTES of
             Inl e \<Rightarrow> read_error_event c e
           | Inr f \<Rightarrow> NodeWorkspaceFile (wc_id c) (truthy_or_none (wc_leaseId c)) None (fp_path f)
                        (fp_bytes f) (fp_isBinary f) (fp_truncated f) (Some (fp_contentBase64 f)))"

section \<open>Cutting UTF-8\<close>

lemma char_not_cut:
  assumes "utf8_char cs" and "i < length cs"
  shows "\<not> cut_at (cs @ ys) i"
proof (cases i)
  case 0
  obtain b bs where cs: "cs = b # bs" using assms(2) by (cases cs) auto
  have "length cs = lead_length b" "lead_length b \<noteq> 0"
    using assms(1) by (auto simp: utf8_char_def cs)
  then have "utf8_sequence_length b \<le> int (length cs)"
    by (auto simp: utf8_sequence_length_def lead_length_def word_less_nat_alt split: if_splits)
  with 0 cs show ?thesis by (simp add: cut_at_def)
next
  case (Suc j)
  obtain b bs where cs: "cs = b # bs" using assms(2) by (cases cs) auto
  with assms Suc have "cont_byte (bs ! j)" by (simp add: utf8_char_def list_all_length)
  then have "utf8_sequence_length (bs ! j) \<le> 0"
    by (auto simp: cont_byte_def utf8_sequence_length_def word_less_nat_alt word_le_nat_alt)
  with Suc cs assms(2) show ?thesis by (simp add: cut_at_def nth_append)
qed

lemma cut_at_append: "cut_at (cs @ ys) (length cs + i) = cut_at ys i"
  by (simp add: cut_at_def)

lemma find_append_None: "list_all (\<lambda>x. \<not> P x) xs \<Longrightarrow> List.find P (xs @ ys) = List.find P ys"
  by (induction xs) auto

lemma find_map: "List.find P (map f xs) = map_option f (List.find (P \<circ> f) xs)"
  by (induction xs) auto

lemma complete_append:
  assumes "utf8_char cs"
  shows "completeUtf8PrefixLength (cs @ ys) = length cs + completeUtf8PrefixLength ys"
proof -
  have shift: "[length cs + a ..< length cs + b] = map (\<lambda>i. length cs + i) [a ..< b]" for a b
    by (rule nth_equalityI) simp_all
  let ?n = "length cs + length ys"
  have "List.find (cut_at (cs @ ys)) [?n - 3 ..< ?n] =
      List.find (cut_at (cs @ ys)) [length cs + (length ys - 3) ..< ?n]"
  proof (cases "3 \<le> length ys")
    case True
    then show ?thesis by simp
  next
    case False
    then have "[?n - 3 ..< ?n] = [?n - 3 ..< length cs] @ [length cs ..< ?n]"
      by (simp add: upt_add_eq_append [of _ _ "length ys", symmetric])
    with False show ?thesis
      by (simp add: find_append_None list_all_iff char_not_cut [OF assms])
  qed
  then have "List.find (cut_at (cs @ ys)) [?n - 3 ..< ?n] =
      map_option (\<lambda>i. length cs + i) (List.find (cut_at ys) [length ys - 3 ..< length ys])"
    by (simp add: shift find_map comp_def cut_at_append)
  then show ?thesis
    by (simp add: completeUtf8PrefixLength_def split: option.split)
qed

lemma valid_utf8_append: "utf8_char cs \<Longrightarrow> valid_utf8 (cs @ ys) = valid_utf8 ys"
  by (cases cs) (auto simp: utf8_char_def)

lemma take_append_more: "take (length cs + k) (cs @ ys) = cs @ take k ys"
  by simp

lemma valid_utf8_cut:
  "valid_utf8 bs \<Longrightarrow> valid_utf8 (take (completeUtf8PrefixLength (take n bs)) (take n bs)) \<and>
     completeUtf8PrefixLength (take n bs) \<le> length (take n bs) \<and>
     length (take n bs) < completeUtf8PrefixLength (take n bs) + 4"
proof (induction bs arbitrary: n rule: valid_utf8.induct)
  case 1
  show ?case by (simp add: completeUtf8PrefixLength_def)
next
  case (2 b bs)
  define k where "k = lead_length b"
  define cs where "cs = b # take (k - 1) bs"
  define rest where "rest = drop (k - 1) bs"
  have char: "utf8_char cs" and rest: "valid_utf8 rest" and bs: "b # bs = cs @ rest"
    using "2.prems" by (simp_all add: cs_def rest_def k_def)
  have len: "length cs = k" using char by (simp add: utf8_char_def cs_def k_def)
  have k: "0 < k" "k \<le> 4" using len by (auto simp: cs_def k_def lead_length_def)
  show ?case
  proof (cases "k \<le> n")
    case True
    then have take: "take n (b # bs) = cs @ take (n - k) rest" using bs len by simp
    have "valid_utf8 (take (completeUtf8PrefixLength (take (n - k) rest)) (take (n - k) rest)) \<and>
        completeUtf8PrefixLength (take (n - k) rest) \<le> length (take (n - k) rest) \<and>
        length (take (n - k) rest) < completeUtf8PrefixLength (take (n - k) rest) + 4"
      using "2.IH" [folded k_def, folded rest_def, OF rest, of "n - k"] .
    then show ?thesis
      unfolding take complete_append [OF char] take_append_more
      by (simp only: valid_utf8_append [OF char] length_append add_le_cancel_left add.assoc add_less_cancel_left)
  next
    case False
    show ?thesis
    proof (cases "n = 0")
      case True
      then show ?thesis by (simp add: completeUtf8PrefixLength_def)
    next
      case n: False
      have take: "take n (b # bs) = take n cs" using bs len False by simp
      have l: "length (take n cs) = n" using len False by simp
      have hd: "take n cs ! 0 = b" using n by (cases n) (simp_all add: cs_def)
      have "utf8_sequence_length b = int k"
        using False n by (auto simp: k_def lead_length_def utf8_sequence_length_def word_less_nat_alt split: if_splits)
      then have "cut_at (take n cs) 0" using False hd l by (simp add: cut_at_def)
      moreover have "[n - 3 ..< n] = 0 # [1 ..< n]" using False n k by (simp add: upt_conv_Cons)
      ultimately have "completeUtf8PrefixLength (take n cs) = 0"
        unfolding completeUtf8PrefixLength_def l by simp
      with l False k show ?thesis unfolding take by simp
    qed
  qed
qed

lemma valid_utf8_nul: "valid_utf8 bs \<Longrightarrow> 0 \<notin> set bs \<Longrightarrow> 0 \<notin> set (take n bs)"
  by (auto dest: in_set_takeD)

lemma lead_not_bom: "utf8_char (b # cs) \<Longrightarrow> b \<noteq> 0xFF \<and> b \<noteq> 0xFE"
  by (auto simp: utf8_char_def lead_length_def)

lemma valid_utf8_no_bom:
  assumes "valid_utf8 bs" and "2 \<le> length (take n bs)"
  shows "take n bs ! 0 \<noteq> 0xFF \<and> take n bs ! 0 \<noteq> 0xFE"
proof (cases bs)
  case (Cons b cs)
  then have "take n bs ! 0 = b" using assms(2) by (cases n) auto
  with assms(1) Cons show ?thesis by (auto dest: lead_not_bom)
qed (use assms in simp)

section \<open>Containment\<close>

lemmas read_splits = if_splits sum.splits option.splits prod.splits

lemma resolveInsideBase_target:
  assumes "resolveInsideBase fs home rel = Inr (path, target)"
  shows "\<exists>lexical. lexical = path_resolve home (js_trim rel) \<and> inside_or_equal home lexical \<and>
      path = relativeHomePath home lexical \<and>
      (target = lexical \<and> (\<exists>e. fs_lstat fs lexical = Inl e) \<or>
       fs_realpath fs lexical = Inr target \<and>
         (\<exists>realHome. fs_realpath fs home = Inr realHome \<and> inside_or_equal realHome target))"
  using assms by (auto simp: resolveInsideBase_def Let_def inside_or_equal_def split: read_splits)

lemma relativeHomePath_inverse:
  "inside_or_equal home p \<Longrightarrow> p = (if relativeHomePath home p = [] \<and> p = home then home else home @ [SEP] @ relativeHomePath home p)"
  by (auto simp: inside_or_equal_def relativeHomePath_def prefix_def)

text \<open>C15. Whatever relative path the backend asks for, a preview that comes back shows bytes of a regular file whose
  lexical path is inside the workspace; the path reported is that path relative to the workspace; and
  the path opened is the real path of that file and is inside the real workspace: no symbolic link
  leads out. The file system is one snapshot.\<close>

theorem preview_contained:
  assumes "readWorkspaceFile env workspaceRoot relativePath limit = Inr f"
  shows "let home = path_resolve (rd_cwd env) workspaceRoot;
             lexical = path_resolve home (js_trim relativePath)
         in inside_or_equal home lexical \<and> lexical = (if lexical = home then home else home @ [SEP] @ fp_path f) \<and>
            (\<exists>target info. fs_lstat (rd_fs env) target = Inr info \<and> fst_kind info = FileRegular \<and>
               (\<exists>raw. rd_bytes env target (min (nat (fp_bytes f)) limit) = Inr raw) \<and>
               fs_realpath (rd_fs env) lexical = Inr target \<and>
               (\<exists>realHome. fs_realpath (rd_fs env) home = Inr realHome \<and> inside_or_equal realHome target))"
proof -
  let ?home = "path_resolve (rd_cwd env) workspaceRoot"
  obtain path target where res: "resolveInsideBase (rd_fs env) ?home relativePath = Inr (path, target)"
    using assms by (auto simp: readWorkspaceFile_def split: sum.splits)
  from assms res have read: "fp_path f = path" "\<exists>info raw. fs_lstat (rd_fs env) target = Inr info \<and> fst_kind info = FileRegular \<and>
       rd_bytes env target (min (nat (fp_bytes f)) limit) = Inr raw"
    by (auto simp: readWorkspaceFile_def Let_def split: read_splits)
  from resolveInsideBase_target [OF res] read(2)
  have inside: "inside_or_equal ?home (path_resolve ?home (js_trim relativePath))"
    and path: "path = relativeHomePath ?home (path_resolve ?home (js_trim relativePath))"
    and target: "fs_realpath (rd_fs env) (path_resolve ?home (js_trim relativePath)) = Inr target"
      "\<exists>realHome. fs_realpath (rd_fs env) ?home = Inr realHome \<and> inside_or_equal realHome target" by auto
  with read inside path target relativeHomePath_inverse [OF inside] show ?thesis
    unfolding Let_def by metis
qed

text \<open>A text file is never shown as binary because the preview was cut: when a regular file inside the workspace holds
  valid UTF-8 without NUL characters, its preview is text for every limit. The text shown is valid
  UTF-8, a prefix of the file, and at most three bytes shorter than the limit allows.\<close>

theorem text_preview_is_text:
  assumes "valid_utf8 content" and "0 \<notin> set content"
  shows "\<exists>shown. decodePreviewContent utf16 (take limit content) = Some shown \<and> valid_utf8 shown \<and>
           prefix shown (take limit content) \<and> length (take limit content) < length shown + 4"
proof -
  let ?raw = "take limit content"
  let ?shown = "take (completeUtf8PrefixLength ?raw) ?raw"
  note cut = valid_utf8_cut [OF assms(1), of limit]
  have "decodePreviewContent utf16 ?raw = Some ?shown"
    using valid_utf8_no_bom [OF assms(1), of limit] valid_utf8_nul [OF assms, of limit] cut
    unfolding decodePreviewContent_def Let_def by auto
  moreover have "length ?raw < length ?shown + 4" using cut by simp
  moreover have "prefix ?shown ?raw" by (rule take_is_prefix)
  ultimately show ?thesis using cut by blast
qed

section \<open>Listings\<close>

lemma sorted_directories_first:
  assumes "sorted (map (entry_key env) es)" and "i < j" and "j < length es" and "wse_kind (es ! j) = kind_directory"
  shows "wse_kind (es ! i) = kind_directory"
proof -
  have "entry_key env (es ! i) \<le> entry_key env (es ! j)"
    using sorted_nth_mono [OF assms(1), of i j] assms(2,3) by simp
  with assms(4) show ?thesis by (auto simp: entry_key_def)
qed

lemma list_entry_shape:
  "list_entry env target path name = Some e \<Longrightarrow>
   wse_name e = name \<and> wse_path e = (if path \<noteq> [] then path @ [SEP] @ name else name) \<and>
   (wse_bytes e = None \<longleftrightarrow> wse_kind e = kind_directory) \<and>
   (\<exists>info. fs_lstat (rd_fs env) (path_resolve target name) = Inr info \<and>
      fst_kind info \<in> {FileDirectory, FileRegular})"
  by (auto simp: list_entry_def split: sum.splits if_splits)

text \<open>A listing holds exactly the directory's names that are directories or regular files when they are
  looked at (links and everything else are left out), directories come before files, a size is
  given exactly for files.\<close>

theorem listing_complete_sorted:
  assumes "listWorkspace env workspaceRoot relativePath = Inr l" and "ls_exists l"
  shows "\<exists>target names. rd_readdir env target = Inr names \<and>
           mset (ls_entries l) = mset (List.map_filter (list_entry env target (ls_path l)) names) \<and>
           (\<forall>i j. i < j \<and> j < length (ls_entries l) \<and> wse_kind (ls_entries l ! j) = kind_directory \<longrightarrow>
              wse_kind (ls_entries l ! i) = kind_directory) \<and>
           (\<forall>e \<in> set (ls_entries l). wse_bytes e = None \<longleftrightarrow> wse_kind e = kind_directory) \<and>
           wse_name ` set (ls_entries l) =
             {n \<in> set names. \<exists>info. fs_lstat (rd_fs env) (path_resolve target n) = Inr info \<and>
                fst_kind info \<in> {FileDirectory, FileRegular}}"
proof -
  obtain target names where dir: "rd_readdir env target = Inr names"
    and entries: "ls_entries l = sort_key (entry_key env) (List.map_filter (list_entry env target (ls_path l)) names)"
    using assms by (auto simp: listWorkspace_def split: read_splits)
  have sorted: "sorted (map (entry_key env) (ls_entries l))" by (simp add: entries)
  have set: "set (ls_entries l) = {e. \<exists>n \<in> set names. list_entry env target (ls_path l) n = Some e}"
    by (auto simp: entries List.map_filter_def image_def)
  have names: "wse_name ` set (ls_entries l) =
             {n \<in> set names. \<exists>info. fs_lstat (rd_fs env) (path_resolve target n) = Inr info \<and>
                fst_kind info \<in> {FileDirectory, FileRegular}}" (is "?L = ?R")
  proof
    show "?L \<subseteq> ?R" by (auto simp: set dest: list_entry_shape)
    show "?R \<subseteq> ?L"
    proof
      fix n assume "n \<in> ?R"
      then have n: "n \<in> set names" and "list_entry env target (ls_path l) n \<noteq> None"
        by (auto simp: list_entry_def)
      then obtain e where "list_entry env target (ls_path l) n = Some e" by auto
      with n show "n \<in> ?L" unfolding set by (force dest: list_entry_shape)
    qed
  qed
  have bytes: "wse_bytes e = None \<longleftrightarrow> wse_kind e = kind_directory" if "e \<in> set (ls_entries l)" for e
    using that unfolding set by (auto dest: list_entry_shape)
  show ?thesis
  proof (intro exI conjI)
    show "rd_readdir env target = Inr names" by (rule dir)
    show "mset (ls_entries l) = mset (List.map_filter (list_entry env target (ls_path l)) names)"
      by (simp add: entries)
    show "\<forall>i j. i < j \<and> j < length (ls_entries l) \<and> wse_kind (ls_entries l ! j) = kind_directory \<longrightarrow>
              wse_kind (ls_entries l ! i) = kind_directory"
      using sorted_directories_first [OF sorted] by blast
  qed (use bytes names in auto)
qed

section \<open>Witnesses\<close>

definition sample_stat :: "file_kind \<Rightarrow> file_stat" where
  "sample_stat k = \<lparr>fst_kind = k, fst_size = 5, fst_mtimeMs = 0\<rparr>"

definition sample_fs :: file_system where
  "sample_fs =
     \<lparr>fs_lstat = (\<lambda>p. if p = ''/w'' \<or> p = ''/w/d'' then Inr (sample_stat FileDirectory)
                      else if p = ''/w/a'' then Inr (sample_stat FileRegular)
                      else if p = ''/w/l'' then Inr (sample_stat FileSymlink) else Inl ENOENT),
      fs_stat = (\<lambda>p. Inr (sample_stat FileRegular)),
      fs_realpath = (\<lambda>p. Inr (if p = ''/w/l'' then ''/etc'' else p)),
      fs_access = (\<lambda>p. Inr ())\<rparr>"

definition sample_env :: "nat read_env" where
  "sample_env =
     \<lparr>rd_fs = sample_fs, rd_readdir = (\<lambda>p. Inr [''a'', ''d'', ''l'']),
      rd_bytes = (\<lambda>p n. Inr (take n [0x68, 0x69, 0xE2, 0x82, 0xAC])),
      rd_isoDate = (\<lambda>t. ''1970-01-01T00:00:00.000Z''), rd_base64 = map (\<lambda>b. char_of (unat b)),
      rd_utf16 = (\<lambda>le bs. bs), rd_collate = length, rd_cwd = ''/''\<rparr>"

lemmas sample_defs = sample_env_def sample_fs_def sample_stat_def

lemma sample_paths: "path_resolve ''/'' ''/w'' = ''/w''" "path_resolve ''/w'' '' a '' = ''/w/ a ''"
  "path_resolve ''/w'' ''a'' = ''/w/a''" "path_resolve ''/w'' ''d'' = ''/w/d''" "path_resolve ''/w'' ''l'' = ''/w/l''"
  "path_resolve ''/w'' ''d/../a'' = ''/w/a''" "path_resolve ''/w'' [] = ''/w''"
  by code_simp+

lemma sample_trim: "js_trim '' d/../a'' = ''d/../a''" "js_trim [] = []"
  by code_simp+

lemma sample_read:
  "readWorkspaceFile sample_env ''/w'' '' d/../a'' 3 =
     Inr \<lparr>fp_path = ''a'', fp_bytes = 5, fp_isBinary = False, fp_truncated = True, fp_contentBase64 = ''hi''\<rparr>"
  by code_simp

theorem preview_contained_witness:
  "inside_or_equal ''/w'' ''/w/a''"
  using preview_contained [OF sample_read] by (simp add: sample_env_def sample_paths sample_trim Let_def SEP_def)

theorem text_preview_is_text_witness:
  "\<forall>utf16. \<exists>shown. decodePreviewContent utf16 (take 3 [0x68, 0x69, 0xE2, 0x82, 0xAC]) = Some shown \<and> length shown < 4"
proof
  fix utf16 :: "bool \<Rightarrow> byte list \<Rightarrow> byte list"
  have "valid_utf8 [0x68, 0x69, 0xE2, 0x82, 0xAC]" by code_simp
  then show "\<exists>shown. decodePreviewContent utf16 (take 3 [0x68, 0x69, 0xE2, 0x82, 0xAC]) = Some shown \<and> length shown < 4"
    using text_preview_is_text [of "[0x68, 0x69, 0xE2, 0x82, 0xAC]" utf16 3] by (auto dest: prefix_length_le)
qed

definition sample_listing :: listing where
  "sample_listing =
     \<lparr>ls_path = [], ls_exists = True,
      ls_entries = [\<lparr>wse_name = ''d'', wse_path = ''d'', wse_kind = kind_directory, wse_bytes = None,
                      wse_updatedAt = ''1970-01-01T00:00:00.000Z''\<rparr>,
                    \<lparr>wse_name = ''a'', wse_path = ''a'', wse_kind = kind_file, wse_bytes = Some 5,
                      wse_updatedAt = ''1970-01-01T00:00:00.000Z''\<rparr>]\<rparr>"

lemma sample_list: "listWorkspace sample_env ''/w'' [] = Inr sample_listing"
  unfolding sample_listing_def by code_simp

lemma sample_list_exists: "ls_exists sample_listing"
  by (simp add: sample_listing_def)

theorem listing_complete_sorted_witness:
  "\<exists>names. {''a'', ''d''} \<subseteq> set names \<and> wse_name ` set (ls_entries sample_listing) \<subseteq> set names"
proof -
  from listing_complete_sorted [OF sample_list sample_list_exists]
  obtain target names where names: "wse_name ` set (ls_entries sample_listing) =
      {n \<in> set names. \<exists>info. fs_lstat (rd_fs sample_env) (path_resolve target n) = Inr info \<and>
         fst_kind info \<in> {FileDirectory, FileRegular}}" by (elim exE conjE)
  have sub: "wse_name ` set (ls_entries sample_listing) \<subseteq> set names"
    unfolding names by (rule Collect_restrict)
  then have "{''a'', ''d''} \<subseteq> set names" by (simp add: sample_listing_def)
  with sub show ?thesis by blast
qed

end
