(* ===== verification/Pattern_Match.thy ===== *)
theory Pattern_Match
  imports Relay_Prelude
begin

text \<open>
  Regular expressions of the sources, written with combinators that return every way to match the beginning
  of a text. \<open>rx_test\<close> is \<open>RegExp.test\<close>.
\<close>

section \<open>Matchers\<close>

text \<open>A matcher returns what is left of the text after each way to match its beginning.\<close>

type_synonym matcher = "string \<Rightarrow> string list"

fun rx_class :: "(char \<Rightarrow> bool) \<Rightarrow> matcher" where
  "rx_class P [] = []"
| "rx_class P (c # cs) = (if P c then [cs] else [])"

fun rx_many :: "(char \<Rightarrow> bool) \<Rightarrow> matcher" where
  "rx_many P [] = [[]]"
| "rx_many P (c # cs) = (c # cs) # (if P c then rx_many P cs else [])"

fun rx_seq :: "matcher list \<Rightarrow> matcher" where
  "rx_seq [] s = [s]"
| "rx_seq (m # ms) s = concat (map (rx_seq ms) (m s))"

definition rx_alt :: "matcher list \<Rightarrow> matcher" where
  "rx_alt ms s = concat (map (\<lambda>m. m s) ms)"

definition rx_opt :: "matcher \<Rightarrow> matcher" where
  "rx_opt m s = m s @ [s]"

text \<open>A literal under the flag \<open>i\<close>; \<open>w\<close> is given in lower case.\<close>

fun rx_word :: "string \<Rightarrow> matcher" where
  "rx_word [] s = [s]"
| "rx_word (w # ws) [] = []"
| "rx_word (w # ws) (c # cs) = (if js_lower c = w then rx_word ws cs else [])"

text \<open>A literal.\<close>

definition rx_text :: "string \<Rightarrow> matcher" where
  "rx_text w s = (if js_starts_with s w then [drop (length w) s] else [])"

definition rx_end :: matcher where
  "rx_end s = (if s = [] then [[]] else [])"

definition rx_at_least :: "nat \<Rightarrow> (char \<Rightarrow> bool) \<Rightarrow> matcher" where
  "rx_at_least n P = rx_seq (replicate n (rx_class P) @ [rx_many P])"

text \<open>\<open>test\<close>: a match starts somewhere; \<open>m\<close> sees the character before the start.\<close>

fun rx_test_from :: "(char option \<Rightarrow> matcher) \<Rightarrow> char option \<Rightarrow> string \<Rightarrow> bool" where
  "rx_test_from m prior [] = (m prior [] \<noteq> [])"
| "rx_test_from m prior (c # cs) = (m prior (c # cs) \<noteq> [] \<or> rx_test_from m (Some c) cs)"

definition rx_test :: "(char option \<Rightarrow> matcher) \<Rightarrow> string \<Rightarrow> bool" where
  "rx_test m s = rx_test_from m None s"

definition ascii_between :: "nat \<Rightarrow> nat \<Rightarrow> char \<Rightarrow> bool" where
  "ascii_between a b c = (let n = (of_char c :: nat) in a \<le> n \<and> n \<le> b)"

definition ascii_letter :: "char \<Rightarrow> bool" where
  "ascii_letter c = (ascii_between 65 90 c \<or> ascii_between 97 122 c)"

definition ascii_alnum :: "char \<Rightarrow> bool" where
  "ascii_alnum c = (ascii_letter c \<or> ascii_between 48 57 c)"

definition word_char :: "char \<Rightarrow> bool" where
  "word_char c = (ascii_alnum c \<or> c = CHR ''_'')"

definition word_boundary :: "char option \<Rightarrow> string \<Rightarrow> bool" where
  "word_boundary prior s =
     ((case prior of None \<Rightarrow> False | Some c \<Rightarrow> word_char c) \<noteq> (s \<noteq> [] \<and> word_char (hd s)))"

end
