(* ===== verification/Generated_Files.thy ===== *)
theory Generated_Files
  imports File_Paths Daemon_Protocol Pattern_Match
begin

text \<open>
  Which files a run reports: \<open>packages/relay-daemon/src/generated-files.ts\<close>. The walk below the
  workspace is the code's stack of directories with its bound on visited entries; it ends because
  every entry visited may push at most one directory. The two regular expressions are written with
  the combinators of Pattern_Match. Directory listings, \<open>lstat\<close>, file contents and base64
  are arguments; paths are absolute, as \<open>ThreadWorkspaceManager\<close> makes them.
\<close>

section \<open>Tables\<close>

definition GENERATED_FILE_EXTENSIONS :: "string list" where
  "GENERATED_FILE_EXTENSIONS = [''.csv'', ''.doc'', ''.docx'', ''.gif'', ''.html'', ''.jpeg'', ''.jpg'', ''.pdf'',
     ''.png'', ''.ppt'', ''.pptx'', ''.svg'', ''.tsv'', ''.webp'', ''.xls'', ''.xlsx'']"

definition OUTPUT_FILE_TEXT_EXTENSIONS :: "string list" where
  "OUTPUT_FILE_TEXT_EXTENSIONS = [''.json'', ''.log'', ''.md'', ''.txt'']"

definition GENERATED_FILE_EXCLUDED_DIRS :: "string list" where
  "GENERATED_FILE_EXCLUDED_DIRS = [''.cache'', ''.git'', ''.gradle'', ''.mypy_cache'', ''.next'', ''.oci'',
     ''.pytest_cache'', ''.relay'', ''.ruff_cache'', ''.tox'', ''.turbo'', ''.venv'', ''__pycache__'', ''coverage'',
     ''dist'', ''node_modules'', ''out'', ''target'', ''venv'']"

definition GENERATED_FILE_LIMIT :: nat where "GENERATED_FILE_LIMIT = 20"
definition GENERATED_FILE_CONTENT_MAX_BYTES :: int where "GENERATED_FILE_CONTENT_MAX_BYTES = 2 * 1024 * 1024"
definition GENERATED_FILE_CONTENT_TOTAL_MAX_BYTES :: int where
  "GENERATED_FILE_CONTENT_TOTAL_MAX_BYTES = 8 * 1024 * 1024"
definition GENERATED_FILE_WALK_MAX_ENTRIES :: nat where "GENERATED_FILE_WALK_MAX_ENTRIES = 50000"

definition CONTENT_TYPES :: "(string \<times> string) list" where
  "CONTENT_TYPES =
     [(''.csv'', ''text/csv''), (''.doc'', ''application/msword''),
      (''.docx'', ''application/vnd.openxmlformats-officedocument.wordprocessingml.document''),
      (''.gif'', ''image/gif''), (''.html'', ''text/html''), (''.jpeg'', ''image/jpeg''), (''.jpg'', ''image/jpeg''),
      (''.json'', ''application/json''), (''.log'', ''text/plain''), (''.md'', ''text/markdown''),
      (''.pdf'', ''application/pdf''), (''.png'', ''image/png''), (''.ppt'', ''application/vnd.ms-powerpoint''),
      (''.pptx'', ''application/vnd.openxmlformats-officedocument.presentationml.presentation''),
      (''.svg'', ''image/svg+xml''), (''.tsv'', ''text/tab-separated-values''), (''.txt'', ''text/plain''),
      (''.webp'', ''image/webp''), (''.xls'', ''application/vnd.ms-excel''),
      (''.xlsx'', ''application/vnd.openxmlformats-officedocument.spreadsheetml.sheet'')]"

section \<open>The regular expressions\<close>

definition separator :: "char \<Rightarrow> bool" where
  "separator c = (c \<in> set ''._-'')"

definition sensitive_words :: "matcher list" where
  "sensitive_words =
     map rx_word [''credential'', ''credentials'', ''secret'', ''secrets'', ''token'', ''tokens'', ''password'', ''passwd''] @
     [rx_seq [rx_word ''api'', rx_opt (rx_class separator), rx_word ''key''],
      rx_seq [rx_word ''private'', rx_opt (rx_class separator), rx_word ''key'']]"

definition SENSITIVE_FILE_NAME :: "string \<Rightarrow> bool" where
  "SENSITIVE_FILE_NAME name =
     rx_test (\<lambda>prior s.
       (if prior = None then rx_seq [rx_alt sensitive_words, rx_alt [rx_class separator, rx_end]] s else []) @
       rx_seq [rx_class separator, rx_alt sensitive_words, rx_alt [rx_class separator, rx_end]] s) name"

definition quote_char :: "char \<Rightarrow> bool" where
  "quote_char c = (c = CHR 0x22 \<or> c = CHR 0x27)"

definition assigned_secret :: matcher where
  "assigned_secret =
     rx_seq [rx_opt (rx_alt (map rx_word [''openai'', ''anthropic'', ''aws'', ''github'', ''google'', ''relay''])),
       rx_opt (rx_word ''_''),
       rx_alt [rx_seq [rx_word ''api'', rx_opt (rx_word ''_''), rx_word ''key''],
               rx_seq [rx_word ''access'', rx_opt (rx_word ''_''), rx_word ''token''],
               rx_word ''secret'', rx_word ''password''],
       rx_many js_space, rx_opt (rx_class quote_char), rx_many js_space,
       rx_class (\<lambda>c. c = CHR '':'' \<or> c = CHR ''=''), rx_many js_space, rx_opt (rx_class quote_char),
       rx_at_least 8 (\<lambda>c. ascii_alnum c \<or> c \<in> set ''_./+-='')]"

definition private_key_block :: matcher where
  "private_key_block =
     rx_seq [rx_word ''-----begin '', rx_many (\<lambda>c. ascii_letter c \<or> c = CHR '' ''), rx_word ''private key-----'']"

definition known_token :: matcher where
  "known_token = rx_alt
     [assigned_secret,
      rx_seq [rx_word ''sk-'', rx_at_least 8 (\<lambda>c. ascii_alnum c \<or> c \<in> set ''_-'')],
      rx_seq [rx_word ''gh'', rx_class (\<lambda>c. js_lower c \<in> set ''pousr''), rx_word ''_'', rx_at_least 20 ascii_alnum],
      rx_seq (rx_word ''akia'' # replicate 16 (rx_class ascii_alnum))]"

definition LIKELY_SECRET_CONTENT :: "string \<Rightarrow> bool" where
  "LIKELY_SECRET_CONTENT text =
     rx_test (\<lambda>prior s. private_key_block s @ (if word_boundary prior s then known_token s else [])) text"

section \<open>Candidates\<close>

record dir_entry =
  de_name :: string
  de_kind :: file_kind

record scan_env =
  sn_readdir :: "string \<Rightarrow> fs_error + dir_entry list"
  sn_lstat :: "string \<Rightarrow> fs_error + file_stat"
  sn_text :: "string \<Rightarrow> fs_error + string"
  sn_bytes :: "string \<Rightarrow> fs_error + 8 word list"
  sn_base64 :: "8 word list \<Rightarrow> string"

record candidate =
  gc_path :: string
  gc_relativePath :: string
  gc_title :: string
  gc_bytes :: int
  gc_mtimeMs :: int
  gc_contentType :: string

text \<open>\<open>relative(from, to)\<close> of two absolute paths.\<close>

definition path_segs :: "string \<Rightarrow> string list" where
  "path_segs p = walk_segments [] (path_segments p)"

fun strip_common :: "string list \<Rightarrow> string list \<Rightarrow> string list \<times> string list" where
  "strip_common (a # as) (b # bs) = (if a = b then strip_common as bs else (a # as, b # bs))"
| "strip_common as bs = (as, bs)"

definition relative_path :: "string \<Rightarrow> string \<Rightarrow> string" where
  "relative_path base p =
     (case strip_common (path_segs base) (path_segs p) of (up, down) \<Rightarrow> js_join [SEP] (map (\<lambda>_. ''..'') up @ down))"

text \<open>\<open>name.slice(name.lastIndexOf("."))\<close>; empty without a dot or when the only dot comes first.\<close>

definition fileExtension :: "string \<Rightarrow> string" where
  "fileExtension name =
     (let tail = takeWhile (\<lambda>c. c \<noteq> CHR ''.'') (rev name)
      in if length tail + 1 < length name then map js_lower (CHR ''.'' # rev tail) else [])"

definition isTextDocumentFile :: "string \<Rightarrow> string \<Rightarrow> bool" where
  "isTextDocumentFile relativePath extension =
     (if extension \<notin> set OUTPUT_FILE_TEXT_EXTENSIONS then False
      else let parts = path_segments relativePath;
               scoped = (if 3 \<le> length parts \<and> parts ! 0 = ''agents'' \<and> js_starts_with (parts ! 1) ''agent-''
                         then drop 2 parts else parts)
           in length scoped = 1 \<or> scoped ! 0 = ''output'')"

definition isSiblingAgentHome :: "string \<Rightarrow> string option \<Rightarrow> bool" where
  "isSiblingAgentHome relativeDir own =
     (if \<not> js_truthy own then False
      else if \<not> (js_starts_with relativeDir ''agents/'' \<and> drop 7 relativeDir \<noteq> [] \<and> SEP \<notin> set (drop 7 relativeDir))
      then False
      else Some relativeDir \<noteq> own)"

definition isSensitiveCandidate :: "scan_env \<Rightarrow> string \<Rightarrow> string \<Rightarrow> string \<Rightarrow> int \<Rightarrow> bool" where
  "isSensitiveCandidate env path name extension bytes =
     (if SENSITIVE_FILE_NAME name \<or> name = ''.env'' \<or> js_starts_with name ''.env.'' then True
      else let textLike = extension \<in> set OUTPUT_FILE_TEXT_EXTENSIONS \<or> extension = ''.csv'' \<or> extension = ''.html''
                 \<or> extension = ''.svg'' \<or> extension = ''.tsv''
           in if \<not> textLike \<or> bytes > GENERATED_FILE_CONTENT_MAX_BYTES then False
              else case sn_text env path of Inr t \<Rightarrow> LIKELY_SECRET_CONTENT t | Inl _ \<Rightarrow> True)"

section \<open>The walk\<close>

text \<open>\<open>sc_pending\<close> is the stack, its top first.\<close>

record scan =
  sc_files :: "candidate list"
  sc_pending :: "string list"
  sc_visited :: nat

definition scan_entry :: "scan_env \<Rightarrow> string \<Rightarrow> string option \<Rightarrow> string \<Rightarrow> dir_entry \<Rightarrow> scan \<Rightarrow> scan" where
  "scan_entry env workspacePath own dir e s =
     (let path = path_resolve dir (de_name e)
      in if de_kind e = FileDirectory
         then let relativeDir = relative_path workspacePath path
              in if de_name e \<in> set GENERATED_FILE_EXCLUDED_DIRS then s
                 else if isSiblingAgentHome relativeDir own then s
                 else s\<lparr>sc_pending := path # sc_pending s\<rparr>
         else if de_kind e \<noteq> FileRegular \<or> js_starts_with (de_name e) ''~$'' then s
         else let extension = fileExtension (de_name e)
              in case sn_lstat env path of
                   Inl _ \<Rightarrow> s
                 | Inr st \<Rightarrow>
                     if fst_kind st \<noteq> FileRegular then s
                     else let relativePath = relative_path workspacePath path
                          in if extension \<notin> set GENERATED_FILE_EXTENSIONS \<and> \<not> isTextDocumentFile relativePath extension
                             then s
                             else if isSensitiveCandidate env path (de_name e) extension (fst_size st) then s
                             else s\<lparr>sc_files := sc_files s @
                                    [\<lparr>gc_path = path, gc_relativePath = relativePath, gc_title = de_name e,
                                      gc_bytes = fst_size st, gc_mtimeMs = fst_mtimeMs st,
                                      gc_contentType = (case map_of CONTENT_TYPES extension of
                                          Some t \<Rightarrow> t | None \<Rightarrow> ''application/octet-stream'')\<rparr>]\<rparr>)"

text \<open>\<open>True\<close>: the bound is reached and the walk returns what it has.\<close>

fun scan_entries ::
  "scan_env \<Rightarrow> string \<Rightarrow> string option \<Rightarrow> string \<Rightarrow> dir_entry list \<Rightarrow> scan \<Rightarrow> bool \<times> scan" where
  "scan_entries env workspacePath own dir [] s = (False, s)"
| "scan_entries env workspacePath own dir (e # es) s =
     (if GENERATED_FILE_WALK_MAX_ENTRIES \<le> sc_visited s then (True, s)
      else scan_entries env workspacePath own dir es
             (scan_entry env workspacePath own dir e (s\<lparr>sc_visited := sc_visited s + 1\<rparr>)))"

lemma scan_entry_visited [simp]: "sc_visited (scan_entry env w own dir e s) = sc_visited s"
  by (simp add: scan_entry_def Let_def split: sum.split)

lemma scan_entry_pending: "length (sc_pending (scan_entry env w own dir e s)) \<le> length (sc_pending s) + 1"
  by (simp add: scan_entry_def Let_def split: sum.split)

definition scan_work :: "scan \<Rightarrow> nat" where
  "scan_work s = length (sc_pending s) + (GENERATED_FILE_WALK_MAX_ENTRIES - sc_visited s)"

lemma scan_entries_work: "scan_work (snd (scan_entries env w own dir es s)) \<le> scan_work s"
proof (induction env w own dir es s rule: scan_entries.induct)
  case (2 env w own dir e es s)
  have "scan_work (scan_entry env w own dir e (s\<lparr>sc_visited := sc_visited s + 1\<rparr>)) \<le> scan_work s"
    if "\<not> GENERATED_FILE_WALK_MAX_ENTRIES \<le> sc_visited s"
    using that scan_entry_pending [of env w own dir e "s\<lparr>sc_visited := sc_visited s + 1\<rparr>"]
    by (simp add: scan_work_def)
  with "2.IH" show ?case by force
qed simp

function scan_loop :: "scan_env \<Rightarrow> string \<Rightarrow> string option \<Rightarrow> scan \<Rightarrow> candidate list" where
  "scan_loop env workspacePath own s =
     (case sc_pending s of
        [] \<Rightarrow> sc_files s
      | dir # rest \<Rightarrow>
          (case sn_readdir env dir of
             Inl _ \<Rightarrow> scan_loop env workspacePath own (s\<lparr>sc_pending := rest\<rparr>)
           | Inr entries \<Rightarrow>
               let r = scan_entries env workspacePath own dir entries (s\<lparr>sc_pending := rest\<rparr>)
               in if fst r then sc_files (snd r) else scan_loop env workspacePath own (snd r)))"
  by pat_completeness auto
termination
proof (relation "measure (\<lambda>(env, w, own, s). scan_work s)", goal_cases)
  case 1
  show ?case by simp
next
  case (2 env w own s dir rest e)
  then show ?case by (simp add: scan_work_def)
next
  case (3 env w own s dir rest entries r)
  then have "scan_work (s\<lparr>sc_pending := rest\<rparr>) < scan_work s" by (simp add: scan_work_def)
  then show ?case
    using scan_entries_work [of env w own dir entries "s\<lparr>sc_pending := rest\<rparr>"] 3 by simp
qed

declare scan_loop.simps [simp del]

definition listCandidates :: "scan_env \<Rightarrow> string option \<Rightarrow> string option \<Rightarrow> candidate list" where
  "listCandidates env workspacePath own =
     (if \<not> js_truthy workspacePath then []
      else let w = the workspacePath
           in case sn_lstat env w of
                Inl _ \<Rightarrow> []
              | Inr st \<Rightarrow> if fst_kind st \<noteq> FileDirectory then []
                           else scan_loop env w own \<lparr>sc_files = [], sc_pending = [w], sc_visited = 0\<rparr>)"

section \<open>Snapshot and difference\<close>

type_synonym snapshot = "string \<rightharpoonup> int \<times> int"

definition snapshotGeneratedFiles :: "scan_env \<Rightarrow> string option \<Rightarrow> string option \<Rightarrow> snapshot" where
  "snapshotGeneratedFiles env workspacePath own =
     foldl (\<lambda>m c. m(gc_path c \<mapsto> (gc_mtimeMs c, gc_bytes c))) Map.empty (listCandidates env workspacePath own)"

definition candidate_changed :: "snapshot \<Rightarrow> candidate \<Rightarrow> bool" where
  "candidate_changed prior c =
     (case prior (gc_path c) of None \<Rightarrow> True | Some (t, b) \<Rightarrow> t \<noteq> gc_mtimeMs c \<or> b \<noteq> gc_bytes c)"

fun inline_files :: "scan_env \<Rightarrow> int \<Rightarrow> candidate list \<Rightarrow> generated_file list" where
  "inline_files env budget [] = []"
| "inline_files env budget (c # cs) =
     (let file = \<lparr>gf_relativePath = gc_relativePath c, gf_title = gc_title c, gf_bytes = gc_bytes c,
                  gf_contentType = gc_contentType c, gf_contentBase64 = None\<rparr>
      in if gc_bytes c \<le> GENERATED_FILE_CONTENT_MAX_BYTES \<and> gc_bytes c \<le> budget
         then case sn_bytes env (gc_path c) of
                Inl _ \<Rightarrow> file # inline_files env budget cs
              | Inr body \<Rightarrow> file\<lparr>gf_bytes := int (length body), gf_contentBase64 := Some (sn_base64 env body)\<rparr>
                             # inline_files env (budget - int (length body)) cs
         else file # inline_files env budget cs)"

definition diffGeneratedFiles :: "scan_env \<Rightarrow> string option \<Rightarrow> snapshot \<Rightarrow> string option \<Rightarrow> generated_file list" where
  "diffGeneratedFiles env workspacePath prior own =
     inline_files env GENERATED_FILE_CONTENT_TOTAL_MAX_BYTES
       (take GENERATED_FILE_LIMIT
         (sort_key (\<lambda>c. - gc_mtimeMs c)
           (filter (candidate_changed prior) (listCandidates env workspacePath own))))"

section \<open>Where candidates are\<close>

text \<open>
  \<open>private_dirs own dirs\<close>: none of the directories is excluded, and when the agent has a home of its
  own, an \<open>agents/x\<close> on the way is that home.
\<close>

definition private_dirs :: "string option \<Rightarrow> string list \<Rightarrow> bool" where
  "private_dirs own dirs \<longleftrightarrow> list_all clean_segment dirs \<and> set dirs \<inter> set GENERATED_FILE_EXCLUDED_DIRS = {} \<and>
     (js_truthy own \<and> 2 \<le> length dirs \<and> dirs ! 0 = ''agents'' \<longrightarrow> own = Some (''agents/'' @ dirs ! 1))"

definition good_candidate :: "scan_env \<Rightarrow> string list \<Rightarrow> string option \<Rightarrow> candidate \<Rightarrow> bool" where
  "good_candidate env w own c \<longleftrightarrow>
     (\<exists>dirs name. private_dirs own dirs \<and> clean_segment name \<and> gc_title c = name \<and>
        gc_path c = render_path (w @ dirs @ [name]) \<and> gc_relativePath c = js_join [SEP] (dirs @ [name]) \<and>
        \<not> SENSITIVE_FILE_NAME name \<and>
        (\<exists>st. sn_lstat env (gc_path c) = Inr st \<and> fst_kind st = FileRegular \<and>
           gc_bytes c = fst_size st \<and> gc_mtimeMs c = fst_mtimeMs st))"

definition good_scan :: "scan_env \<Rightarrow> string list \<Rightarrow> string option \<Rightarrow> scan \<Rightarrow> bool" where
  "good_scan env w own s \<longleftrightarrow>
     (\<forall>c \<in> set (sc_files s). good_candidate env w own c) \<and>
     (\<forall>d \<in> set (sc_pending s). \<exists>dirs. private_dirs own dirs \<and> d = render_path (w @ dirs)) \<and>
     sc_visited s \<le> GENERATED_FILE_WALK_MAX_ENTRIES"

lemma path_segs_render: "list_all clean_segment segs \<Longrightarrow> path_segs (render_path segs) = segs"
  by (simp add: path_segs_def resolve_render)

lemma resolve_child:
  assumes "list_all clean_segment segs" and "clean_segment name"
  shows "path_resolve (render_path segs) name = render_path (segs @ [name])"
proof -
  have "\<not> absolute_path name" using assms(2) by (cases name) (auto simp: absolute_path_def clean_segment_def)
  moreover have "walk_segments segs (path_segments name) = segs @ [name]"
    using assms(2) by (auto simp: path_segments_one clean_segment_def)
  ultimately show ?thesis by (simp add: path_resolve_def resolve_render [OF assms(1)])
qed

lemma strip_common_append: "strip_common w (w @ xs) = ([], xs)"
  by (induction w) simp_all

lemma relative_child:
  assumes "list_all clean_segment (w @ xs)"
  shows "relative_path (render_path w) (render_path (w @ xs)) = js_join [SEP] xs"
  using assms by (simp add: relative_path_def path_segs_render strip_common_append)

lemma sibling_join:
  assumes "clean_segment x" and "js_truthy own"
  shows "isSiblingAgentHome (js_join [SEP] [''agents'', x]) own \<longleftrightarrow> own \<noteq> Some (''agents/'' @ x)"
proof -
  have "x \<noteq> []" "SEP \<notin> set x" using assms(1) by (simp_all add: clean_segment_def)
  with assms(2) show ?thesis by (auto simp: isSiblingAgentHome_def SEP_def)
qed

lemma private_dirs_snoc:
  assumes "private_dirs own dirs" and "clean_segment name" and "name \<notin> set GENERATED_FILE_EXCLUDED_DIRS"
    and "\<not> isSiblingAgentHome (js_join [SEP] (dirs @ [name])) own"
  shows "private_dirs own (dirs @ [name])"
proof -
  consider "dirs = []" | x where "dirs = [x]" | x y zs where "dirs = x # y # zs"
    by (metis list.exhaust)
  then show ?thesis
  proof cases
    case 2
    with assms sibling_join [OF assms(2)] show ?thesis by (auto simp: private_dirs_def)
  qed (use assms in \<open>auto simp: private_dirs_def\<close>)
qed

text \<open>Names returned by a directory listing are single path segments.\<close>

definition plain_listing :: "scan_env \<Rightarrow> bool" where
  "plain_listing env \<longleftrightarrow> (\<forall>d es. sn_readdir env d = Inr es \<longrightarrow> (\<forall>e \<in> set es. clean_segment (de_name e)))"

lemma scan_entry_good:
  assumes "good_scan env w own s" and "list_all clean_segment w" and "private_dirs own dirs"
    and "clean_segment (de_name e)"
  shows "good_scan env w own (scan_entry env (render_path w) own (render_path (w @ dirs)) e s)"
proof -
  have dirs: "list_all clean_segment dirs" using assms(3) by (simp add: private_dirs_def)
  have path: "path_resolve (render_path (w @ dirs)) (de_name e) = render_path (w @ dirs @ [de_name e])"
    using resolve_child [of "w @ dirs" "de_name e"] assms(2,4) dirs by simp
  have rel: "relative_path (render_path w) (render_path (w @ dirs @ [de_name e])) = js_join [SEP] (dirs @ [de_name e])"
    using relative_child [of w "dirs @ [de_name e]"] assms(2,4) dirs by simp
  have push: "\<exists>ds. private_dirs own ds \<and> render_path (w @ dirs @ [de_name e]) = render_path (w @ ds)"
    if "de_name e \<notin> set GENERATED_FILE_EXCLUDED_DIRS"
      "\<not> isSiblingAgentHome (js_join [SEP] (dirs @ [de_name e])) own"
    using private_dirs_snoc [OF assms(3,4) that] by blast
  have regular: "good_candidate env w own
      \<lparr>gc_path = render_path (w @ dirs @ [de_name e]), gc_relativePath = js_join [SEP] (dirs @ [de_name e]),
       gc_title = de_name e, gc_bytes = fst_size st, gc_mtimeMs = fst_mtimeMs st, gc_contentType = t\<rparr>"
    if "sn_lstat env (render_path (w @ dirs @ [de_name e])) = Inr st" "fst_kind st = FileRegular"
      "\<not> isSensitiveCandidate env p (de_name e) ext b" for st t p ext b
    using that assms(3,4) by (auto simp: good_candidate_def isSensitiveCandidate_def)
  show ?thesis
    using assms(1) push regular unfolding scan_entry_def Let_def path rel
    by (auto simp: good_scan_def split: sum.split)
qed

lemma scan_entries_good:
  assumes "good_scan env w own s" and "list_all clean_segment w" and "private_dirs own dirs"
    and "\<forall>e \<in> set es. clean_segment (de_name e)"
  shows "good_scan env w own (snd (scan_entries env (render_path w) own (render_path (w @ dirs)) es s))"
  using assms(1,4)
proof (induction es arbitrary: s)
  case (Cons e es)
  show ?case
  proof (cases "GENERATED_FILE_WALK_MAX_ENTRIES \<le> sc_visited s")
    case False
    then have "good_scan env w own (s\<lparr>sc_visited := sc_visited s + 1\<rparr>)"
      using Cons.prems(1) by (simp add: good_scan_def)
    with Cons assms(2,3) False show ?thesis by (simp add: scan_entry_good)
  qed (use Cons.prems in simp)
qed simp

lemma scan_loop_good:
  "good_scan env w own s \<Longrightarrow> list_all clean_segment w \<Longrightarrow> plain_listing env \<Longrightarrow>
   \<forall>c \<in> set (scan_loop env (render_path w) own s). good_candidate env w own c"
proof (induction env "render_path w" own s rule: scan_loop.induct)
  case (1 env own s)
  show ?case
  proof (cases "sc_pending s")
    case Nil
    with "1.prems" show ?thesis by (simp add: scan_loop.simps good_scan_def)
  next
    case (Cons d rest)
    have pop: "good_scan env w own (s\<lparr>sc_pending := rest\<rparr>)"
      using "1.prems"(1) Cons by (simp add: good_scan_def)
    obtain dirs where dirs: "private_dirs own dirs" "d = render_path (w @ dirs)"
      using "1.prems"(1) Cons by (auto simp: good_scan_def)
    show ?thesis
    proof (cases "sn_readdir env d")
      case (Inl e)
      with "1.hyps"(1) [OF Cons Inl] "1.prems"(2,3) pop Cons show ?thesis by (simp add: scan_loop.simps)
    next
      case (Inr es)
      let ?r = "scan_entries env (render_path w) own d es (s\<lparr>sc_pending := rest\<rparr>)"
      have "\<forall>e \<in> set es. clean_segment (de_name e)"
        using "1.prems"(3) Inr by (auto simp: plain_listing_def)
      then have good: "good_scan env w own (snd ?r)"
        unfolding dirs(2) by (intro scan_entries_good pop "1.prems"(2) dirs(1))
      show ?thesis
      proof (cases "fst ?r")
        case True
        with good Cons Inr show ?thesis by (simp add: scan_loop.simps Let_def good_scan_def)
      next
        case False
        with "1.hyps"(2) [OF Cons Inr refl] good "1.prems"(2,3) Cons Inr show ?thesis
          by (simp add: scan_loop.simps Let_def)
      qed
    qed
  qed
qed

text \<open>Independently of names: a candidate carries what \<open>lstat\<close> says of its path.\<close>

definition stat_candidate :: "scan_env \<Rightarrow> candidate \<Rightarrow> bool" where
  "stat_candidate env c \<longleftrightarrow>
     (\<exists>st. sn_lstat env (gc_path c) = Inr st \<and> gc_bytes c = fst_size st \<and> gc_mtimeMs c = fst_mtimeMs st)"

lemma scan_entry_stat:
  "list_all (stat_candidate env) (sc_files s) \<Longrightarrow> list_all (stat_candidate env) (sc_files (scan_entry env w own dir e s))"
  by (auto simp: scan_entry_def Let_def stat_candidate_def split: sum.split)

lemma scan_entries_stat:
  "list_all (stat_candidate env) (sc_files s) \<Longrightarrow>
   list_all (stat_candidate env) (sc_files (snd (scan_entries env w own dir es s)))"
  by (induction env w own dir es s rule: scan_entries.induct) (simp_all add: scan_entry_stat)

lemma scan_loop_stat:
  "list_all (stat_candidate env) (sc_files s) \<Longrightarrow> list_all (stat_candidate env) (scan_loop env w own s)"
proof (induction env w own s rule: scan_loop.induct)
  case (1 env w own s)
  show ?case
  proof (cases "sc_pending s")
    case (Cons d rest)
    then show ?thesis
      using 1 scan_entries_stat [of env "s\<lparr>sc_pending := rest\<rparr>" w own d]
      by (subst scan_loop.simps) (auto simp: Let_def split: sum.split)
  qed (use 1 in \<open>simp add: scan_loop.simps\<close>)
qed

lemma listCandidates_stat: "list_all (stat_candidate env) (listCandidates env w own)"
  by (auto simp: listCandidates_def Let_def intro: scan_loop_stat split: sum.split)

lemma snapshot_lookup:
  "list_all (stat_candidate env) cs \<Longrightarrow> c \<in> set cs \<Longrightarrow>
   foldl (\<lambda>m c. m(gc_path c \<mapsto> (gc_mtimeMs c, gc_bytes c))) m cs (gc_path c) = Some (gc_mtimeMs c, gc_bytes c)"
proof (induction cs rule: rev_induct)
  case (snoc x xs)
  then have "gc_bytes x = gc_bytes c \<and> gc_mtimeMs x = gc_mtimeMs c" if "gc_path x = gc_path c"
    using that by (auto simp: stat_candidate_def list_all_iff)
  with snoc show ?case by (cases "gc_path x = gc_path c") auto
qed simp

section \<open>Properties\<close>

text \<open>C16. Only the run's own documents are ever collected, whatever the workspace holds: every candidate is a
  regular file below the workspace, on a path without excluded directories such as \<open>.git\<close> or
  \<open>.relay\<close> and outside the homes of other agents; its name is not that of a credential file, and
  the relative path reported is the path below the workspace.\<close>

theorem candidates_private:
  assumes "plain_listing env" and "list_all clean_segment w" and "c \<in> set (listCandidates env (Some (render_path w)) own)"
  shows "\<exists>dirs name. private_dirs own dirs \<and> gc_path c = render_path (w @ dirs @ [name]) \<and>
           gc_relativePath c = js_join [SEP] (dirs @ [name]) \<and> gc_title c = name \<and> \<not> SENSITIVE_FILE_NAME name \<and>
           (\<exists>st. sn_lstat env (gc_path c) = Inr st \<and> fst_kind st = FileRegular)"
proof -
  let ?s = "\<lparr>sc_files = [], sc_pending = [render_path w], sc_visited = 0\<rparr>"
  have "\<exists>dirs. private_dirs own dirs \<and> render_path w = render_path (w @ dirs)"
    by (rule exI [where x = "[]"]) (simp add: private_dirs_def)
  then have "good_scan env w own ?s" by (simp add: good_scan_def)
  from scan_loop_good [OF this assms(2,1)] assms(3) have "good_candidate env w own c"
    by (auto simp: listCandidates_def Let_def split: sum.splits if_splits)
  then show ?thesis by (auto simp: good_candidate_def)
qed

text \<open>A run that changes nothing reports nothing: the difference between a workspace and its own snapshot
  is empty.\<close>

theorem unchanged_workspace_silent:
  "diffGeneratedFiles env w (snapshotGeneratedFiles env w own) own = []"
proof -
  have "\<not> candidate_changed (snapshotGeneratedFiles env w own) c" if "c \<in> set (listCandidates env w own)" for c
    using snapshot_lookup [OF listCandidates_stat that] by (simp add: candidate_changed_def snapshotGeneratedFiles_def)
  then have "filter (candidate_changed (snapshotGeneratedFiles env w own)) (listCandidates env w own) = []"
    by (simp add: filter_empty_conv)
  then show ?thesis by (simp add: diffGeneratedFiles_def)
qed

definition inline_bytes :: "generated_file list \<Rightarrow> int" where
  "inline_bytes fs = sum_list (map (\<lambda>f. if gf_contentBase64 f = None then 0 else gf_bytes f) fs)"

lemma inline_files_budget:
  "0 \<le> budget \<Longrightarrow> (\<forall>c \<in> set cs. \<forall>b. sn_bytes env (gc_path c) = Inr b \<longrightarrow> int (length b) = gc_bytes c) \<Longrightarrow>
   inline_bytes (inline_files env budget cs) \<le> budget"
proof (induction env budget cs rule: inline_files.induct)
  case (2 env budget c cs)
  show ?case
  proof (cases "gc_bytes c \<le> GENERATED_FILE_CONTENT_MAX_BYTES \<and> gc_bytes c \<le> budget")
    case True
    show ?thesis
    proof (cases "sn_bytes env (gc_path c)")
      case (Inl e)
      with 2 True show ?thesis by (simp add: Let_def inline_bytes_def)
    next
      case (Inr body)
      with "2.prems" True have "int (length body) \<le> budget" "int (length body) = gc_bytes c" by auto
      with "2.IH"(2) [OF refl True Inr] "2.prems" Inr True show ?thesis
        by (simp add: Let_def inline_bytes_def)
    qed
  next
    case False
    with 2 show ?thesis by (auto simp: Let_def inline_bytes_def)
  qed
qed (simp add: inline_bytes_def)

lemma inline_files_paths: "map gf_relativePath (inline_files env budget cs) = map gc_relativePath cs"
  by (induction env budget cs rule: inline_files.induct) (simp_all add: Let_def split: sum.split)

text \<open>A completion event stays small and complete: it names at most twenty files and carries at most eight
  megabytes of content when files are read with the size the walk saw; when at most twenty files
  changed, exactly the changed candidates are named, the newest first.\<close>

theorem generated_files_bounded:
  assumes "\<forall>c \<in> set (listCandidates env w own). \<forall>b. sn_bytes env (gc_path c) = Inr b \<longrightarrow> int (length b) = gc_bytes c"
  shows "length (diffGeneratedFiles env w prior own) \<le> 20 \<and>
         inline_bytes (diffGeneratedFiles env w prior own) \<le> 8 * 1024 * 1024 \<and>
         (length (filter (candidate_changed prior) (listCandidates env w own)) \<le> 20 \<longrightarrow>
           (\<exists>cs. map gf_relativePath (diffGeneratedFiles env w prior own) = map gc_relativePath cs \<and>
              set cs = {c \<in> set (listCandidates env w own). candidate_changed prior c} \<and>
              sorted_wrt (\<lambda>a b. gc_mtimeMs b \<le> gc_mtimeMs a) cs))"
proof -
  let ?cs = "sort_key (\<lambda>c. - gc_mtimeMs c) (filter (candidate_changed prior) (listCandidates env w own))"
  have len: "length (diffGeneratedFiles env w prior own) \<le> 20"
    using arg_cong [where f = length, OF inline_files_paths]
    by (simp add: diffGeneratedFiles_def GENERATED_FILE_LIMIT_def)
  have sub: "\<forall>c \<in> set (take GENERATED_FILE_LIMIT ?cs). \<forall>b. sn_bytes env (gc_path c) = Inr b \<longrightarrow> int (length b) = gc_bytes c"
    using assms by (auto dest!: in_set_takeD)
  have "inline_bytes (diffGeneratedFiles env w prior own) \<le> GENERATED_FILE_CONTENT_TOTAL_MAX_BYTES"
    unfolding diffGeneratedFiles_def
    by (rule inline_files_budget [OF _ sub]) (simp add: GENERATED_FILE_CONTENT_TOTAL_MAX_BYTES_def)
  moreover have "\<exists>cs. map gf_relativePath (diffGeneratedFiles env w prior own) = map gc_relativePath cs \<and>
              set cs = {c \<in> set (listCandidates env w own). candidate_changed prior c} \<and>
              sorted_wrt (\<lambda>a b. gc_mtimeMs b \<le> gc_mtimeMs a) cs"
    if "length (filter (candidate_changed prior) (listCandidates env w own)) \<le> 20"
  proof (intro exI conjI)
    have "take GENERATED_FILE_LIMIT ?cs = ?cs" using that by (simp add: GENERATED_FILE_LIMIT_def)
    then show "map gf_relativePath (diffGeneratedFiles env w prior own) = map gc_relativePath ?cs"
      by (simp add: diffGeneratedFiles_def inline_files_paths)
    show "set ?cs = {c \<in> set (listCandidates env w own). candidate_changed prior c}" by auto
    have "sorted (map (\<lambda>c. - gc_mtimeMs c) ?cs)" by simp
    then show "sorted_wrt (\<lambda>a b. gc_mtimeMs b \<le> gc_mtimeMs a) ?cs"
      unfolding sorted_map by simp
  qed
  ultimately show ?thesis using len by (simp add: GENERATED_FILE_CONTENT_TOTAL_MAX_BYTES_def)
qed

section \<open>Witnesses\<close>

definition sample_scan_env :: scan_env where
  "sample_scan_env =
     \<lparr>sn_readdir = (\<lambda>d. if d = ''/w'' then Inr [\<lparr>de_name = ''a.csv'', de_kind = FileRegular\<rparr>,
                                                \<lparr>de_name = ''.git'', de_kind = FileDirectory\<rparr>]
                        else Inl ENOENT),
      sn_lstat = (\<lambda>p. Inr \<lparr>fst_kind = (if p = ''/w'' then FileDirectory else FileRegular), fst_size = 2, fst_mtimeMs = 7\<rparr>),
      sn_text = (\<lambda>p. Inr ''x,y''), sn_bytes = (\<lambda>p. Inr [0x78, 0x79]), sn_base64 = (\<lambda>b. ''eHk='')\<rparr>"

definition sample_candidate :: candidate where
  "sample_candidate = \<lparr>gc_path = ''/w/a.csv'', gc_relativePath = ''a.csv'', gc_title = ''a.csv'', gc_bytes = 2,
     gc_mtimeMs = 7, gc_contentType = ''text/csv''\<rparr>"

lemma sample_candidates: "listCandidates sample_scan_env (Some (render_path [''w''])) None = [sample_candidate]"
proof -
  have w: "render_path [''w''] = ''/w''" by (simp add: render_path_def SEP_def)
  have one: "scan_entry sample_scan_env ''/w'' None ''/w'' \<lparr>de_name = ''a.csv'', de_kind = FileRegular\<rparr>
      \<lparr>sc_files = [], sc_pending = [], sc_visited = 1\<rparr> = \<lparr>sc_files = [sample_candidate], sc_pending = [], sc_visited = 1\<rparr>"
    by code_simp
  have two: "scan_entry sample_scan_env ''/w'' None ''/w'' \<lparr>de_name = ''.git'', de_kind = FileDirectory\<rparr>
      \<lparr>sc_files = fs, sc_pending = [], sc_visited = n\<rparr> = \<lparr>sc_files = fs, sc_pending = [], sc_visited = n\<rparr>" for fs n
    by (simp add: scan_entry_def GENERATED_FILE_EXCLUDED_DIRS_def)
  have entries: "scan_entries sample_scan_env ''/w'' None ''/w''
      [\<lparr>de_name = ''a.csv'', de_kind = FileRegular\<rparr>, \<lparr>de_name = ''.git'', de_kind = FileDirectory\<rparr>]
      \<lparr>sc_files = [], sc_pending = [], sc_visited = 0\<rparr> =
      (False, \<lparr>sc_files = [sample_candidate], sc_pending = [], sc_visited = 2\<rparr>)"
    using one by (simp add: two GENERATED_FILE_WALK_MAX_ENTRIES_def)
  have dir: "sn_readdir sample_scan_env ''/w'' = Inr [\<lparr>de_name = ''a.csv'', de_kind = FileRegular\<rparr>,
      \<lparr>de_name = ''.git'', de_kind = FileDirectory\<rparr>]"
    "sn_lstat sample_scan_env ''/w'' = Inr \<lparr>fst_kind = FileDirectory, fst_size = 2, fst_mtimeMs = 7\<rparr>"
    by (simp_all add: sample_scan_env_def)
  show ?thesis
    unfolding w by (simp add: listCandidates_def scan_loop.simps dir entries Let_def del: scan_entries.simps)
qed

theorem candidates_private_witness:
  "\<exists>dirs name. private_dirs None dirs \<and> gc_relativePath sample_candidate = js_join [SEP] (dirs @ [name])"
proof -
  have "plain_listing sample_scan_env"
    by (auto simp: plain_listing_def sample_scan_env_def clean_segment_def SEP_def)
  moreover have "list_all clean_segment [''w'']" by (simp add: clean_segment_def SEP_def)
  moreover have "sample_candidate \<in> set (listCandidates sample_scan_env (Some (render_path [''w''])) None)"
    by (simp add: sample_candidates)
  ultimately show ?thesis using candidates_private by blast
qed

theorem generated_files_bounded_witness:
  "inline_bytes (diffGeneratedFiles sample_scan_env (Some (render_path [''w''])) Map.empty None) \<le> 8 * 1024 * 1024"
  using generated_files_bounded [of sample_scan_env "Some (render_path [''w''])" None Map.empty]
  by (simp add: sample_candidates) (simp add: sample_scan_env_def sample_candidate_def)

section \<open>A gap in the content filter\<close>

lemma sample_lower: "js_lower CHR ''A'' = CHR ''a''" "js_lower CHR ''W'' = CHR ''w''" "js_lower CHR ''S'' = CHR ''s''"
  "js_lower CHR ''_'' = CHR ''_''" "js_lower CHR ''E'' = CHR ''e''" "js_lower CHR ''C'' = CHR ''c''"
  "js_lower CHR ''R'' = CHR ''r''" "js_lower CHR ''T'' = CHR ''t''" "js_lower CHR ''K'' = CHR ''k''"
  "js_lower CHR ''Y'' = CHR ''y''" "js_lower CHR ''='' = CHR ''=''" "js_lower CHR ''x'' = CHR ''x''"
  by code_simp+

lemma sample_word: "c \<in> set ''AWSECRTKYx_'' \<Longrightarrow> word_char c" "\<not> word_char CHR ''=''"
  by (auto simp: word_char_def ascii_alnum_def ascii_letter_def ascii_between_def)

lemma sample_space: "c \<in> set ''AWSECRTKY=x_'' \<Longrightarrow> \<not> js_space c"
  by (auto simp: js_space_def)

lemmas secret_simps = LIKELY_SECRET_CONTENT_def rx_test_def private_key_block_def known_token_def rx_alt_def rx_opt_def
  assigned_secret_def word_boundary_def quote_char_def sample_lower sample_word sample_space

text \<open>The content filter names \<open>AWS\<close> among the vendors, yet misses the standard name of its secret.\<close>

lemma aws_secret_not_recognised:
  "LIKELY_SECRET_CONTENT ''AWS_SECRET=xxxxxxxxxx'' \<and> \<not> LIKELY_SECRET_CONTENT ''AWS_SECRET_ACCESS_KEY=xxxxxxxxxx''"
proof
  show "LIKELY_SECRET_CONTENT ''AWS_SECRET=xxxxxxxxxx''"
    by (simp add: secret_simps rx_at_least_def numeral_eq_Suc ascii_alnum_def ascii_letter_def ascii_between_def)
  show "\<not> LIKELY_SECRET_CONTENT ''AWS_SECRET_ACCESS_KEY=xxxxxxxxxx''"
    by (simp add: secret_simps)
qed

end
