(* ===== verification/Step_Machine.thy ===== *)
theory Step_Machine
  imports Relay_Prelude
begin

text \<open>
  Components that react to events in any order: a partial step function (\<open>None\<close>: the event
  cannot happen in that state) and its runs over event lists. The locale holds the contract the
  component proofs share, an invariant every step keeps.
\<close>

fun run_events :: "('s \<Rightarrow> 'e \<Rightarrow> 's option) \<Rightarrow> 's \<Rightarrow> 'e list \<Rightarrow> 's option" where
  "run_events step s [] = Some s"
| "run_events step s (e # es) = (case step s e of None \<Rightarrow> None | Some t \<Rightarrow> run_events step t es)"

lemma run_events_append:
  "run_events step s (es @ fs) = (case run_events step s es of None \<Rightarrow> None | Some t \<Rightarrow> run_events step t fs)"
  by (induction es arbitrary: s) (simp_all split: option.split)

locale guarded_machine =
  fixes step :: "'s \<Rightarrow> 'e \<Rightarrow> 's option"
    and allowed :: "'e \<Rightarrow> bool"
    and inv :: "'s \<Rightarrow> bool"
  assumes step_keeps: "step s e = Some t \<Longrightarrow> allowed e \<Longrightarrow> inv s \<Longrightarrow> inv t"
begin

lemma run_keeps: "run_events step s es = Some t \<Longrightarrow> list_all allowed es \<Longrightarrow> inv s \<Longrightarrow> inv t"
proof (induction es arbitrary: s)
  case (Cons e es)
  then show ?case by (auto split: option.splits dest: step_keeps)
qed simp

text \<open>The invariant also holds in between.\<close>

lemma prefix_keeps:
  "run_events step s (es @ fs) = Some t \<Longrightarrow> list_all allowed es \<Longrightarrow> inv s \<Longrightarrow>
   \<exists>u. run_events step s es = Some u \<and> inv u"
  by (auto simp: run_events_append split: option.splits dest: run_keeps)

end

end
