(* ===== verification/Run_Gate.thy ===== *)
theory Run_Gate
  imports Step_Machine File_Paths Js_Json
begin

text \<open>
  One writer per project workspace: \<open>packages/relay-daemon/src/workspace-run-gate.ts\<close>. Inside a
  process runs of one key queue behind each other's promises; across processes they compete for a
  lock file. Both are machines whose events are the steps between two awaits, respectively single
  system calls, in any interleaving.
\<close>

section \<open>The queue of a process\<close>

text \<open>
  Runs are numbered in the order of their calls of \<open>run\<close>. \<open>RunsFree\<close> is a run without a key; a
  keyed run waits for its predecessor's tail (\<open>WaitsTurn\<close>), for the lock file (\<open>WaitsLock\<close>), works,
  and has then released its own turn. \<open>gt_settled n\<close>: the promise \<open>tail\<close> of run \<open>n\<close> is resolved.
\<close>

datatype run_phase = NotCalled | RunsFree | WaitsTurn | WaitsLock | Works | Released

record gate =
  gt_called :: nat
  gt_key :: "nat \<Rightarrow> string"
  gt_phase :: "nat \<Rightarrow> run_phase"
  gt_predecessor :: "nat \<Rightarrow> nat option"
  gt_settled :: "nat \<Rightarrow> bool"
  gt_tails :: "string \<rightharpoonup> nat"

definition new_gate :: gate where
  "new_gate = \<lparr>gt_called = 0, gt_key = (\<lambda>_. []), gt_phase = (\<lambda>_. NotCalled), gt_predecessor = (\<lambda>_. None),
               gt_settled = (\<lambda>_. False), gt_tails = Map.empty\<rparr>"

datatype gate_event =
    CallRun "string option"   \<comment> \<open>\<open>run(key, signal, work)\<close> up to the first await\<close>
  | TurnComes nat             \<comment> \<open>\<open>await waitForTurn\<close> returns and the signal is not aborted\<close>
  | LockComes nat             \<comment> \<open>\<open>await acquireFileLock\<close> returns and the signal is not aborted\<close>
  | LeaveGate nat             \<comment> \<open>\<open>finally\<close>: work ended, or the signal or an error ended a wait\<close>
  | TailSettles nat           \<comment> \<open>\<open>predecessor.then(() => ownTurn)\<close> resolves\<close>
  | DropTail nat              \<comment> \<open>the \<open>tail.finally\<close> callback deletes the map entry\<close>

fun gate_step :: "gate \<Rightarrow> gate_event \<Rightarrow> gate option" where
  "gate_step g (CallRun key) =
     (let n = gt_called g
      in if \<not> js_truthy key
         then Some (g\<lparr>gt_called := n + 1, gt_phase := (gt_phase g)(n := RunsFree)\<rparr>)
         else Some (g\<lparr>gt_called := n + 1, gt_key := (gt_key g)(n := the key), gt_phase := (gt_phase g)(n := WaitsTurn),
                      gt_predecessor := (gt_predecessor g)(n := gt_tails g (the key)),
                      gt_tails := (gt_tails g)(the key \<mapsto> n)\<rparr>))"
| "gate_step g (TurnComes n) =
     (if gt_phase g n = WaitsTurn \<and> (case gt_predecessor g n of None \<Rightarrow> True | Some p \<Rightarrow> gt_settled g p)
      then Some (g\<lparr>gt_phase := (gt_phase g)(n := WaitsLock)\<rparr>) else None)"
| "gate_step g (LockComes n) =
     (if gt_phase g n = WaitsLock then Some (g\<lparr>gt_phase := (gt_phase g)(n := Works)\<rparr>) else None)"
| "gate_step g (LeaveGate n) =
     (if gt_phase g n \<in> {WaitsTurn, WaitsLock, Works} then Some (g\<lparr>gt_phase := (gt_phase g)(n := Released)\<rparr>) else None)"
| "gate_step g (TailSettles n) =
     (if gt_phase g n = Released \<and> (case gt_predecessor g n of None \<Rightarrow> True | Some p \<Rightarrow> gt_settled g p)
      then Some (g\<lparr>gt_settled := (gt_settled g)(n := True)\<rparr>) else None)"
| "gate_step g (DropTail n) =
     (if gt_settled g n \<and> gt_tails g (gt_key g n) = Some n
      then Some (g\<lparr>gt_tails := (gt_tails g)(gt_key g n := None)\<rparr>) else None)"

text \<open>Inside the gate: past the queue and not yet released.\<close>

definition inside_gate :: "gate \<Rightarrow> nat \<Rightarrow> bool" where
  "inside_gate g n \<longleftrightarrow> gt_phase g n \<in> {WaitsLock, Works}"

definition keyed :: "gate \<Rightarrow> string \<Rightarrow> nat \<Rightarrow> bool" where
  "keyed g k n \<longleftrightarrow> gt_phase g n \<notin> {NotCalled, RunsFree} \<and> gt_key g n = k"

text \<open>\<open>all_released g k n\<close>: every run of the key called before \<open>n\<close> has released.\<close>

definition all_released :: "gate \<Rightarrow> string \<Rightarrow> nat \<Rightarrow> bool" where
  "all_released g k n \<longleftrightarrow> (\<forall>m < n. keyed g k m \<longrightarrow> gt_phase g m = Released)"

text \<open>
  The invariant: a settled tail has only released runs of its key up to it; a run past the queue
  has only released ones before it; the map's tail of a key is its last run, and without a tail all
  its runs are released; the predecessor of a run is the run of the key called just before it.
\<close>

definition gate_inv :: "gate \<Rightarrow> bool" where
  "gate_inv g \<longleftrightarrow>
     (\<forall>n \<ge> gt_called g. gt_phase g n = NotCalled) \<and>
     (\<forall>n. gt_settled g n \<longrightarrow> gt_phase g n = Released \<and> all_released g (gt_key g n) n) \<and>
     (\<forall>n. inside_gate g n \<longrightarrow> all_released g (gt_key g n) n) \<and>
     (\<forall>k n. gt_tails g k = Some n \<longrightarrow> keyed g k n \<and> (\<forall>m. keyed g k m \<longrightarrow> m \<le> n)) \<and>
     (\<forall>k. gt_tails g k = None \<longrightarrow> all_released g k (gt_called g)) \<and>
     (\<forall>n. keyed g (gt_key g n) n \<longrightarrow>
        (case gt_predecessor g n of
           None \<Rightarrow> all_released g (gt_key g n) n
         | Some p \<Rightarrow> p < n \<and> keyed g (gt_key g n) p \<and> (\<forall>m < n. keyed g (gt_key g n) m \<longrightarrow> m \<le> p)))"

lemma gate_inv_new: "gate_inv new_gate"
  by (simp add: gate_inv_def new_gate_def keyed_def inside_gate_def all_released_def)

lemma keyed_called: "gate_inv g \<Longrightarrow> keyed g k n \<Longrightarrow> n < gt_called g"
  by (auto simp: gate_inv_def keyed_def not_le [symmetric])

text \<open>Behind a settled predecessor, everything before is released.\<close>

lemma predecessor_settled:
  assumes "gate_inv g" and "keyed g (gt_key g n) n"
    and "case gt_predecessor g n of None \<Rightarrow> True | Some p \<Rightarrow> gt_settled g p"
  shows "all_released g (gt_key g n) n"
proof (cases "gt_predecessor g n")
  case None
  with assms show ?thesis by (auto simp: gate_inv_def)
next
  case (Some p)
  with assms have p: "keyed g (gt_key g n) p" "\<And>m. m < n \<Longrightarrow> keyed g (gt_key g n) m \<Longrightarrow> m \<le> p"
    and "gt_phase g p = Released" "all_released g (gt_key g p) p"
    by (force simp: gate_inv_def)+
  then show ?thesis by (auto simp: all_released_def keyed_def le_less)
qed

lemma gate_invD:
  assumes "gate_inv g"
  shows "gt_called g \<le> n \<Longrightarrow> gt_phase g n = NotCalled"
    and "gt_settled g n \<Longrightarrow> gt_phase g n = Released"
    and "gt_settled g n \<Longrightarrow> all_released g (gt_key g n) n"
    and "inside_gate g n \<Longrightarrow> all_released g (gt_key g n) n"
    and "gt_tails g k = Some n \<Longrightarrow> keyed g k n"
    and "gt_tails g k = Some n \<Longrightarrow> keyed g k m \<Longrightarrow> m \<le> n"
    and "gt_tails g k = None \<Longrightarrow> all_released g k (gt_called g)"
    and "keyed g (gt_key g n) n \<Longrightarrow> gt_predecessor g n = None \<Longrightarrow> all_released g (gt_key g n) n"
    and "keyed g (gt_key g n) n \<Longrightarrow> gt_predecessor g n = Some p \<Longrightarrow>
      p < n \<and> keyed g (gt_key g n) p \<and> (\<forall>m < n. keyed g (gt_key g n) m \<longrightarrow> m \<le> p)"
  using assms unfolding gate_inv_def by (blast, blast, blast, blast, blast, blast, blast, force+)

lemma gate_invI:
  assumes "\<And>n. gt_called g \<le> n \<Longrightarrow> gt_phase g n = NotCalled"
    and "\<And>n. gt_settled g n \<Longrightarrow> gt_phase g n = Released \<and> all_released g (gt_key g n) n"
    and "\<And>n. inside_gate g n \<Longrightarrow> all_released g (gt_key g n) n"
    and "\<And>k n. gt_tails g k = Some n \<Longrightarrow> keyed g k n \<and> (\<forall>m. keyed g k m \<longrightarrow> m \<le> n)"
    and "\<And>k. gt_tails g k = None \<Longrightarrow> all_released g k (gt_called g)"
    and "\<And>n. keyed g (gt_key g n) n \<Longrightarrow> gt_predecessor g n = None \<Longrightarrow> all_released g (gt_key g n) n"
    and "\<And>n p. keyed g (gt_key g n) n \<Longrightarrow> gt_predecessor g n = Some p \<Longrightarrow>
      p < n \<and> keyed g (gt_key g n) p \<and> (\<forall>m < n. keyed g (gt_key g n) m \<longrightarrow> m \<le> p)"
  shows "gate_inv g"
  unfolding gate_inv_def using assms by (intro conjI allI impI) (simp_all split: option.split)

text \<open>Changing the phase of a keyed run keeps who is keyed, and keeps releases.\<close>

lemma phase_change_inv:
  assumes inv: "gate_inv g" and old: "gt_phase g n \<notin> {NotCalled, RunsFree, Released}" and new: "ph \<notin> {NotCalled, RunsFree}"
    and inside: "ph \<in> {WaitsLock, Works} \<Longrightarrow> all_released g (gt_key g n) n"
  shows "gate_inv (g\<lparr>gt_phase := (gt_phase g)(n := ph)\<rparr>)" (is "gate_inv ?h")
proof -
  note D = gate_invD [OF inv]
  have keyed: "keyed ?h k m = keyed g k m" for k m using old new by (auto simp: keyed_def)
  have released: "all_released ?h k l" if "all_released g k l" for k l
    using that old unfolding all_released_def keyed by auto
  have unsettled: "\<not> gt_settled g n" using D(2) old by auto
  have called: "n < gt_called g" using D(1) [of n] old by (auto simp: not_le [symmetric])
  show ?thesis
  proof (rule gate_invI)
    show "gt_phase ?h m = NotCalled" if "gt_called ?h \<le> m" for m using that called D(1) by auto
    show "gt_phase ?h m = Released \<and> all_released ?h (gt_key ?h m) m" if "gt_settled ?h m" for m
      using that unsettled D(2,3) released by auto
    show "all_released ?h (gt_key ?h m) m" if "inside_gate ?h m" for m
      using that inside D(4) by (auto simp: inside_gate_def split: if_splits intro!: released)
    show "keyed ?h k m \<and> (\<forall>l. keyed ?h k l \<longrightarrow> l \<le> m)" if "gt_tails ?h k = Some m" for k m
      using that D(5,6) by (simp add: keyed)
    show "all_released ?h k (gt_called ?h)" if "gt_tails ?h k = None" for k
      using that released [OF D(7)] by simp
    show "all_released ?h (gt_key ?h m) m" if "keyed ?h (gt_key ?h m) m" "gt_predecessor ?h m = None" for m
      using that released [OF D(8)] by (simp add: keyed)
    show "p < m \<and> keyed ?h (gt_key ?h m) p \<and> (\<forall>l < m. keyed ?h (gt_key ?h m) l \<longrightarrow> l \<le> p)"
      if "keyed ?h (gt_key ?h m) m" "gt_predecessor ?h m = Some p" for m p
      using that D(9) by (simp add: keyed)
  qed
qed

lemma call_inv:
  assumes inv: "gate_inv g" and "k \<noteq> []" and step: "gate_step g (CallRun (Some k)) = Some h"
  shows "gate_inv h"
proof -
  note D = gate_invD [OF inv]
  let ?n = "gt_called g"
  have h [simp]: "gt_called h = ?n + 1" "gt_key h = (gt_key g)(?n := k)" "gt_phase h = (gt_phase g)(?n := WaitsTurn)"
    "gt_predecessor h = (gt_predecessor g)(?n := gt_tails g k)" "gt_tails h = (gt_tails g)(k \<mapsto> ?n)"
    "gt_settled h = gt_settled g"
    using step assms(2) by (auto simp: Let_def)
  have called: "m < ?n" if "keyed g k' m" for k' m using keyed_called [OF inv that] .
  have settled: "m < ?n" if "gt_settled g m" for m using D(1,2) [of m] that by (auto simp: not_le [symmetric])
  have keyed: "keyed h k' m = (if m = ?n then k' = k else keyed g k' m)" for k' m by (auto simp: keyed_def)
  have released: "all_released h k' m = all_released g k' m" if "m \<le> ?n" for k' m
    using that by (auto simp: all_released_def keyed)
  show ?thesis
  proof (rule gate_invI)
    show "gt_phase h m = NotCalled" if "gt_called h \<le> m" for m using that D(1) by auto
    show "gt_phase h m = Released \<and> all_released h (gt_key h m) m" if "gt_settled h m" for m
      using that settled [of m] D(2,3) [of m] by (simp add: released)
    show "all_released h (gt_key h m) m" if "inside_gate h m" for m
    proof -
      have "m \<noteq> ?n" using that by (auto simp: inside_gate_def)
      moreover from this that have "inside_gate g m" by (simp add: inside_gate_def)
      moreover from this D(1) have "m < ?n" by (auto simp: inside_gate_def not_le [symmetric])
      ultimately show ?thesis using D(4) by (simp add: released)
    qed
    show "keyed h k' m \<and> (\<forall>l. keyed h k' l \<longrightarrow> l \<le> m)" if "gt_tails h k' = Some m" for k' m
    proof (cases "k' = k")
      case True
      with that called show ?thesis by (auto simp: keyed less_imp_le)
    next
      case False
      with that D(5) have "keyed g k' m" by simp
      with called [OF this] False that D(6) show ?thesis by (auto simp: keyed)
    qed
    show "all_released h k' (gt_called h)" if "gt_tails h k' = None" for k'
    proof -
      have "k' \<noteq> k" "all_released g k' ?n" using that D(7) by (auto split: if_splits)
      then show ?thesis by (auto simp: all_released_def keyed less_Suc_eq)
    qed
    show "all_released h (gt_key h m) m" if "keyed h (gt_key h m) m" "gt_predecessor h m = None" for m
    proof (cases "m = ?n")
      case True
      with that(2) D(7) [of k] show ?thesis by (simp add: released)
    next
      case False
      with that D(8) [of m] called [of "gt_key g m" m] show ?thesis by (simp add: released keyed)
    qed
    show "p < m \<and> keyed h (gt_key h m) p \<and> (\<forall>l < m. keyed h (gt_key h m) l \<longrightarrow> l \<le> p)"
      if "keyed h (gt_key h m) m" "gt_predecessor h m = Some p" for m p
    proof (cases "m = ?n")
      case True
      with that(2) D(5,6) [of k p] called show ?thesis by (auto simp: keyed)
    next
      case False
      then have "keyed g (gt_key g m) m" "gt_predecessor g m = Some p" using that by (simp_all add: keyed)
      from D(9) [OF this] called [OF this(1)] False show ?thesis by (auto simp: keyed)
    qed
  qed
qed

lemma gate_step_inv:
  assumes "gate_step g e = Some h" and "gate_inv g"
  shows "gate_inv h"
proof (cases e)
  case (CallRun key)
  show ?thesis
  proof (cases "js_truthy key")
    case True
    then obtain k where "key = Some k" "k \<noteq> []" by (cases key) auto
    with call_inv assms CallRun show ?thesis by blast
  next
    case False
    then have h: "h = g\<lparr>gt_called := gt_called g + 1, gt_phase := (gt_phase g)(gt_called g := RunsFree)\<rparr>"
      using assms(1) CallRun by (simp add: Let_def)
    note D = gate_invD [OF assms(2)]
    have new: "gt_phase g (gt_called g) = NotCalled" using D(1) by simp
    have keyed: "keyed h k m = keyed g k m" for k m using new by (auto simp: keyed_def h)
    have released: "all_released h k m = all_released g k m" for k m
    proof -
      have "gt_phase h l = gt_phase g l" if "keyed g k l" for l using that new by (auto simp: keyed_def h)
      then show ?thesis by (auto simp: all_released_def keyed)
    qed
    have nk: "\<not> keyed g k (gt_called g)" for k using new by (simp add: keyed_def)
    have more: "all_released g k (Suc (gt_called g))" if "all_released g k (gt_called g)" for k
      using that nk by (auto simp: all_released_def less_Suc_eq)
    have unsettled: "\<not> gt_settled g (gt_called g)" using D(2) new by fastforce
    show ?thesis
      using D new more unsettled by (intro gate_invI) (auto simp: keyed released, auto simp: h inside_gate_def split: if_splits)
  qed
next
  case (TurnComes n)
  then have step: "gt_phase g n = WaitsTurn" "case gt_predecessor g n of None \<Rightarrow> True | Some p \<Rightarrow> gt_settled g p"
    and h: "h = g\<lparr>gt_phase := (gt_phase g)(n := WaitsLock)\<rparr>"
    using assms(1) by (auto split: if_splits)
  have "all_released g (gt_key g n) n"
    using step by (intro predecessor_settled [OF assms(2)]) (simp_all add: keyed_def)
  with step show ?thesis unfolding h by (intro phase_change_inv [OF assms(2)]) simp_all
next
  case (LockComes n)
  then have step: "gt_phase g n = WaitsLock" and h: "h = g\<lparr>gt_phase := (gt_phase g)(n := Works)\<rparr>"
    using assms(1) by (auto split: if_splits)
  have "all_released g (gt_key g n) n" using gate_invD(4) [OF assms(2)] step by (simp add: inside_gate_def)
  with step show ?thesis unfolding h by (intro phase_change_inv [OF assms(2)]) simp_all
next
  case (LeaveGate n)
  then have "gt_phase g n \<in> {WaitsTurn, WaitsLock, Works}" and h: "h = g\<lparr>gt_phase := (gt_phase g)(n := Released)\<rparr>"
    using assms(1) by (auto split: if_splits)
  then show ?thesis unfolding h by (intro phase_change_inv [OF assms(2)]) auto
next
  case (TailSettles n)
  then have step: "gt_phase g n = Released" "case gt_predecessor g n of None \<Rightarrow> True | Some p \<Rightarrow> gt_settled g p"
    and h: "h = g\<lparr>gt_settled := (gt_settled g)(n := True)\<rparr>"
    using assms(1) by (auto split: if_splits)
  note D = gate_invD [OF assms(2)]
  have behind: "all_released g (gt_key g n) n"
    using step by (intro predecessor_settled [OF assms(2)]) (simp_all add: keyed_def)
  have same: "keyed h = keyed g" "all_released h = all_released g" "inside_gate h = inside_gate g"
    "gt_called h = gt_called g" "gt_phase h = gt_phase g" "gt_key h = gt_key g" "gt_tails h = gt_tails g"
    "gt_predecessor h = gt_predecessor g"
    by (simp_all add: fun_eq_iff keyed_def all_released_def inside_gate_def h)
  have settled: "gt_settled h m \<longleftrightarrow> m = n \<or> gt_settled g m" for m by (auto simp: h)
  show ?thesis
    by (rule gate_invI) (use D behind step(1) in \<open>auto simp: same settled\<close>)
next
  case (DropTail n)
  then have step: "gt_settled g n" "gt_tails g (gt_key g n) = Some n"
    and h: "h = g\<lparr>gt_tails := (gt_tails g)(gt_key g n := None)\<rparr>"
    using assms(1) by (auto split: if_splits)
  note D = gate_invD [OF assms(2)]
  have "all_released g (gt_key g n) (gt_called g)"
    using D(2,3) [OF step(1)] D(6) [OF step(2)] by (auto simp: all_released_def le_less)
  note dropped = this
  have same: "keyed h = keyed g" "all_released h = all_released g" "inside_gate h = inside_gate g"
    "gt_called h = gt_called g" "gt_phase h = gt_phase g" "gt_key h = gt_key g" "gt_settled h = gt_settled g"
    "gt_predecessor h = gt_predecessor g"
    by (simp_all add: fun_eq_iff keyed_def all_released_def inside_gate_def h)
  have tails: "gt_tails h k = (if k = gt_key g n then None else gt_tails g k)" for k by (simp add: h)
  show ?thesis
    by (rule gate_invI) (use D dropped in \<open>auto simp: same tails split: if_splits\<close>)
qed

interpretation gates: guarded_machine gate_step "\<lambda>_. True" gate_inv
  by unfold_locales (rule gate_step_inv)

text \<open>
  Settling tails changes nothing else, and can always be brought up to a released run whose
  predecessors have all released.
\<close>

definition only_settled :: "gate \<Rightarrow> gate \<Rightarrow> bool" where
  "only_settled g h \<longleftrightarrow> (\<exists>f. h = g\<lparr>gt_settled := f\<rparr>) \<and> (\<forall>n. gt_settled g n \<longrightarrow> gt_settled h n)"

lemma only_settled_trans: "only_settled g h \<Longrightarrow> only_settled h i \<Longrightarrow> only_settled g i"
  by (auto simp: only_settled_def)

lemma settle_chain:
  assumes "gate_inv g" and "keyed g k n" and "gt_phase g n = Released" and "all_released g k n"
  shows "\<exists>es h. run_events gate_step g (map TailSettles es) = Some h \<and> only_settled g h \<and> gt_settled h n"
  using assms
proof (induction n arbitrary: g rule: less_induct)
  case (less n)
  have k: "gt_key g n = k" using less.prems(2) by (simp add: keyed_def)
  show ?case
  proof (cases "gt_predecessor g n")
    case None
    with less.prems(3) have "run_events gate_step g (map TailSettles [n]) = Some (g\<lparr>gt_settled := (gt_settled g)(n := True)\<rparr>)"
      by simp
    then show ?thesis
      by (intro exI [where x = "[n]"] exI conjI) (auto simp: only_settled_def)
  next
    case (Some p)
    from gate_invD(9) [OF less.prems(1), of n p] less.prems(2) k Some
    have p: "p < n" "keyed g k p" by simp_all
    then have "gt_phase g p = Released" "all_released g k p"
      using less.prems(4) by (auto simp: all_released_def)
    with less.IH [OF p(1) less.prems(1) p(2)] obtain es h
      where run: "run_events gate_step g (map TailSettles es) = Some h" and h: "only_settled g h" "gt_settled h p" by blast
    let ?i = "h\<lparr>gt_settled := (gt_settled h)(n := True)\<rparr>"
    have "gate_step h (TailSettles n) = Some ?i"
      using h less.prems(3) Some by (auto simp: only_settled_def)
    then have "run_events gate_step g (map TailSettles (es @ [n])) = Some ?i"
      by (simp add: run_events_append run)
    moreover have "only_settled g ?i"
      by (rule only_settled_trans [OF h(1)]) (auto simp: only_settled_def)
    moreover have "gt_settled ?i n" by simp
    ultimately show ?thesis by blast
  qed
qed

section \<open>The lock file\<close>

definition LOCK_RETRY_MS :: int where "LOCK_RETRY_MS = 25"
definition INCOMPLETE_LOCK_STALE_MS :: int where "INCOMPLETE_LOCK_STALE_MS = 30000"

text \<open>The serialised \<open>LockOwner\<close>.\<close>

definition owner_json :: "int \<Rightarrow> string \<Rightarrow> int \<Rightarrow> json" where
  "owner_json pid token createdAt =
     JObj [(''pid'', JNum (of_int pid)), (''token'', JStr token), (''createdAt'', JNum (of_int createdAt))]"

text \<open>The answer of \<open>process.kill(pid, 0)\<close>; an error carries its code.\<close>

datatype kill_answer = KillSent | KillError string

definition processIsAlive :: "(int \<Rightarrow> kill_answer) \<Rightarrow> int \<Rightarrow> bool" where
  "processIsAlive kill pid = (case kill pid of KillSent \<Rightarrow> True | KillError code \<Rightarrow> code \<noteq> ''ESRCH'')"

text \<open>The \<open>pid\<close> of a parsed lock when it is an integer; every failure on the way is \<open>None\<close>.\<close>

definition lock_pid :: "json option \<Rightarrow> int option" where
  "lock_pid content =
     (case content of
        Some (JObj r) \<Rightarrow> (case json_field r ''pid'' of
            Some (JNum q) \<Rightarrow> if q = of_int \<lfloor>q\<rfloor> then Some \<lfloor>q\<rfloor> else None | _ \<Rightarrow> None)
      | _ \<Rightarrow> None)"

text \<open>\<open>content\<close> is the parsed lock file, \<open>None\<close> when reading or parsing fails; \<open>mtime\<close> is \<open>None\<close> when \<open>stat\<close> fails.\<close>

definition staleLock :: "(int \<Rightarrow> kill_answer) \<Rightarrow> int \<Rightarrow> json option \<Rightarrow> int option \<Rightarrow> bool" where
  "staleLock kill now content mtime =
     (case lock_pid content of
        Some pid \<Rightarrow> \<not> processIsAlive kill pid
      | None \<Rightarrow> (case mtime of None \<Rightarrow> False | Some t \<Rightarrow> INCOMPLETE_LOCK_STALE_MS < now - t))"

definition lock_token :: "json option \<Rightarrow> string option" where
  "lock_token content = (case content of Some (JObj r) \<Rightarrow> json_string (json_field r ''token'') | _ \<Rightarrow> None)"

text \<open>
  Contenders are calls of \<open>acquireFileLock\<close>; contender \<open>i\<close> lives in process \<open>lk_pid i\<close> and has drawn
  the token \<open>lk_token i\<close>. A file remembers who created it: writing goes to the file one has opened,
  even when its name has been unlinked since.
\<close>

datatype lock_phase =
    Trying        \<comment> \<open>before \<open>openSync(lockPath, "wx")\<close>\<close>
  | Inspecting    \<comment> \<open>after \<open>EEXIST\<close>, before \<open>staleLock\<close>\<close>
  | SawStale      \<comment> \<open>\<open>staleLock\<close> was true, before \<open>unlinkSync\<close>\<close>
  | Opened        \<comment> \<open>before \<open>writeFileSync\<close>\<close>
  | Holds         \<comment> \<open>the lock has been handed out\<close>
  | OwnsFile      \<comment> \<open>in \<open>releaseOwnedLock\<close>, after the token matched\<close>
  | LockOver

record lock_file =
  lf_creator :: nat
  lf_content :: "json option"
  lf_mtime :: int

record locks =
  lk_file :: "lock_file option"
  lk_phase :: "nat \<Rightarrow> lock_phase"
  lk_pid :: "nat \<Rightarrow> int"
  lk_token :: "nat \<Rightarrow> string"
  lk_kill :: "int \<Rightarrow> kill_answer"
  lk_now :: int

datatype lock_event =
    OpenExclusive nat | Inspect nat | UnlinkStale nat | WriteOwner nat | WriteFails nat
  | CheckToken nat | UnlinkOwn nat | AbortWait nat | ProcessDies int | TimePasses nat

definition move :: "locks \<Rightarrow> nat \<Rightarrow> lock_phase \<Rightarrow> locks" where
  "move s i p = s\<lparr>lk_phase := (lk_phase s)(i := p)\<rparr>"

fun lock_move :: "locks \<Rightarrow> lock_event \<Rightarrow> locks" where
  "lock_move s (OpenExclusive i) =
     (case lk_file s of
        Some _ \<Rightarrow> move s i Inspecting
      | None \<Rightarrow> move (s\<lparr>lk_file := Some \<lparr>lf_creator = i, lf_content = None, lf_mtime = lk_now s\<rparr>\<rparr>) i Opened)"
| "lock_move s (Inspect i) =
     (if staleLock (lk_kill s) (lk_now s) (Option.bind (lk_file s) lf_content) (map_option lf_mtime (lk_file s))
      then move s i SawStale else move s i Trying)"
| "lock_move s (UnlinkStale i) = move (s\<lparr>lk_file := None\<rparr>) i Trying"
| "lock_move s (WriteOwner i) =
     move (s\<lparr>lk_file := map_option (\<lambda>f. if lf_creator f = i
         then f\<lparr>lf_content := Some (owner_json (lk_pid s i) (lk_token s i) (lk_now s)), lf_mtime := lk_now s\<rparr> else f) (lk_file s)\<rparr>)
       i Holds"
| "lock_move s (WriteFails i) = move (s\<lparr>lk_file := None\<rparr>) i LockOver"
| "lock_move s (CheckToken i) =
     (if lock_token (Option.bind (lk_file s) lf_content) = Some (lk_token s i) then move s i OwnsFile else move s i LockOver)"
| "lock_move s (UnlinkOwn i) = move (s\<lparr>lk_file := None\<rparr>) i LockOver"
| "lock_move s (AbortWait i) = move s i LockOver"
| "lock_move s (ProcessDies p) = s\<lparr>lk_kill := (lk_kill s)(p := KillError ''ESRCH'')\<rparr>"
| "lock_move s (TimePasses d) = s\<lparr>lk_now := lk_now s + int d\<rparr>"

text \<open>Where each step starts, and that a dead process makes none.\<close>

fun lock_guard :: "lock_event \<Rightarrow> (nat \<times> lock_phase set) option" where
  "lock_guard (OpenExclusive i) = Some (i, {Trying})"
| "lock_guard (Inspect i) = Some (i, {Inspecting})"
| "lock_guard (UnlinkStale i) = Some (i, {SawStale})"
| "lock_guard (WriteOwner i) = Some (i, {Opened})"
| "lock_guard (WriteFails i) = Some (i, {Opened})"
| "lock_guard (CheckToken i) = Some (i, {Holds})"
| "lock_guard (UnlinkOwn i) = Some (i, {OwnsFile})"
| "lock_guard (AbortWait i) = Some (i, {Trying, Inspecting})"
| "lock_guard _ = None"

definition lock_step :: "locks \<Rightarrow> lock_event \<Rightarrow> locks option" where
  "lock_step s e =
     (case lock_guard e of
        None \<Rightarrow> Some (lock_move s e)
      | Some (i, ps) \<Rightarrow>
          if lk_phase s i \<in> ps \<and> processIsAlive (lk_kill s) (lk_pid s i) then Some (lock_move s e) else None)"

definition new_locks :: "(nat \<Rightarrow> int) \<Rightarrow> (nat \<Rightarrow> string) \<Rightarrow> locks" where
  "new_locks pids tokens = \<lparr>lk_file = None, lk_phase = (\<lambda>_. Trying), lk_pid = pids, lk_token = tokens,
     lk_kill = (\<lambda>_. KillSent), lk_now = 0\<rparr>"

definition holds_lock :: "locks \<Rightarrow> nat \<Rightarrow> bool" where
  "holds_lock s i \<longleftrightarrow> lk_phase s i \<in> {Holds, OwnsFile} \<and> processIsAlive (lk_kill s) (lk_pid s i)"

text \<open>
  \<open>prompt_step\<close>: no process dies, and nobody stalls for thirty seconds between opening the lock
  and writing its owner, two consecutive synchronous calls.
\<close>

definition stalled :: "locks \<Rightarrow> bool" where
  "stalled s \<longleftrightarrow> (case lk_file s of None \<Rightarrow> False
     | Some f \<Rightarrow> lf_content f = None \<and> INCOMPLETE_LOCK_STALE_MS < lk_now s - lf_mtime f)"

definition prompt_step :: "locks \<Rightarrow> lock_event \<Rightarrow> locks option" where
  "prompt_step s e =
     (case e of ProcessDies _ \<Rightarrow> None
      | _ \<Rightarrow> (case lock_step s e of None \<Rightarrow> None | Some t \<Rightarrow> if stalled t then None else Some t))"

text \<open>\<open>file_of s i b\<close>: the lock file is the one contender \<open>i\<close> created; \<open>b\<close> tells whether its owner is written.\<close>

definition file_of :: "locks \<Rightarrow> nat \<Rightarrow> bool \<Rightarrow> bool" where
  "file_of s i b \<longleftrightarrow> (case lk_file s of None \<Rightarrow> False | Some f \<Rightarrow> lf_creator f = i \<and> (lf_content f \<noteq> None) = b)"

definition lock_inv :: "locks \<Rightarrow> bool" where
  "lock_inv s \<longleftrightarrow> lk_kill s = (\<lambda>_. KillSent) \<and> \<not> stalled s \<and>
     (\<forall>i. lk_phase s i \<noteq> SawStale) \<and>
     (\<forall>i. lk_phase s i = Opened \<longrightarrow> file_of s i False) \<and>
     (\<forall>i. lk_phase s i \<in> {Holds, OwnsFile} \<longrightarrow> file_of s i True) \<and>
     (\<forall>f. lk_file s = Some f \<longrightarrow> lf_content f = None \<or> lock_pid (lf_content f) \<noteq> None)"

lemma file_of_unique: "file_of s i b \<Longrightarrow> file_of s j c \<Longrightarrow> i = j \<and> b = c"
  by (auto simp: file_of_def split: option.splits)

lemma lock_invI:
  assumes "lk_kill s = (\<lambda>_. KillSent)" and "\<not> stalled s" and "\<And>i. lk_phase s i \<noteq> SawStale"
    and "\<And>i. lk_phase s i = Opened \<Longrightarrow> file_of s i False"
    and "\<And>i. lk_phase s i \<in> {Holds, OwnsFile} \<Longrightarrow> file_of s i True"
    and "\<And>f. lk_file s = Some f \<Longrightarrow> lf_content f = None \<or> lock_pid (lf_content f) \<noteq> None"
  shows "lock_inv s"
  using assms unfolding lock_inv_def by blast

lemma lock_invD:
  assumes "lock_inv s"
  shows "lk_kill s = (\<lambda>_. KillSent)" and "lk_phase s i \<noteq> SawStale"
    and "lk_phase s i = Opened \<Longrightarrow> file_of s i False"
    and "lk_phase s i \<in> {Holds, OwnsFile} \<Longrightarrow> file_of s i True"
    and "lk_file s = Some f \<Longrightarrow> lf_content f = None \<or> lock_pid (lf_content f) \<noteq> None"
  using assms unfolding lock_inv_def by blast+

text \<open>A step of one contender that leaves the file alone and neither opens nor acquires.\<close>

lemma move_inv:
  assumes "lock_inv s" and "\<not> stalled (move s i p)" and "p \<in> {Trying, Inspecting, LockOver} \<or> lk_phase s i = Holds \<and> p = OwnsFile"
  shows "lock_inv (move s i p)"
proof (rule lock_invI)
  note D = lock_invD [OF assms(1)]
  show "lk_phase (move s i p) j \<noteq> SawStale" for j using assms(3) D(2) by (auto simp: move_def)
  show "file_of (move s i p) j False" if "lk_phase (move s i p) j = Opened" for j
    using that assms(3) D(3) by (auto simp: move_def file_of_def split: if_splits)
  show "file_of (move s i p) j True" if "lk_phase (move s i p) j \<in> {Holds, OwnsFile}" for j
    using that assms(3) D(4) by (auto simp: move_def file_of_def split: if_splits)
qed (use assms lock_invD [OF assms(1)] in \<open>auto simp: move_def\<close>)

text \<open>Unlinking is only ever done by the one contender the file belongs to.\<close>

lemma unlink_inv:
  assumes "lock_inv s" and "file_of s i b"
  shows "lock_inv (move (s\<lparr>lk_file := None\<rparr>) i LockOver)"
proof (rule lock_invI)
  note D = lock_invD [OF assms(1)]
  have other: "lk_phase s j \<notin> {Opened, Holds, OwnsFile}" if "j \<noteq> i" for j
    using that file_of_unique [OF assms(2)] D(3,4) [of j] by blast
  show "lk_phase (move (s\<lparr>lk_file := None\<rparr>) i LockOver) j \<noteq> SawStale" for j
    using D(2) by (simp add: move_def)
  show "file_of (move (s\<lparr>lk_file := None\<rparr>) i LockOver) j False"
    if "lk_phase (move (s\<lparr>lk_file := None\<rparr>) i LockOver) j = Opened" for j
    using that other by (auto simp: move_def split: if_splits)
  show "file_of (move (s\<lparr>lk_file := None\<rparr>) i LockOver) j True"
    if "lk_phase (move (s\<lparr>lk_file := None\<rparr>) i LockOver) j \<in> {Holds, OwnsFile}" for j
    using that other by (auto simp: move_def split: if_splits)
qed (use lock_invD(1) [OF assms(1)] in \<open>simp_all add: move_def stalled_def\<close>)

lemma lock_pid_owner [simp]: "lock_pid (Some (owner_json p t c)) = Some p"
  by (simp add: lock_pid_def owner_json_def json_field_def)

lemma lock_token_owner [simp]: "lock_token (Some (owner_json p t c)) = Some t"
  by (simp add: lock_token_def owner_json_def json_field_def)

lemma lock_inv_fresh: "lock_inv s \<Longrightarrow>
    \<not> staleLock (lk_kill s) (lk_now s) (Option.bind (lk_file s) lf_content) (map_option lf_mtime (lk_file s))"
  by (cases "lk_file s")
     (auto simp: lock_inv_def staleLock_def stalled_def processIsAlive_def lock_pid_def split: option.splits)

lemma prompt_step_inv:
  assumes "prompt_step s e = Some t" and "lock_inv s"
  shows "lock_inv t"
proof -
  from assms(1) have step: "lock_step s e = Some t" and "\<not> stalled t" and "\<And>p. e \<noteq> ProcessDies p"
    by (auto simp: prompt_step_def split: lock_event.splits option.splits if_splits)
  note D = lock_invD [OF assms(2)]
  show ?thesis
  proof (cases e)
    case (OpenExclusive i)
    show ?thesis
    proof (cases "lk_file s")
      case None
      then have free: "lk_phase s j \<notin> {Opened, Holds, OwnsFile}" for j
        using D(3,4) [of j] by (auto simp: file_of_def)
      have t: "t = move (s\<lparr>lk_file := Some \<lparr>lf_creator = i, lf_content = None, lf_mtime = lk_now s\<rparr>\<rparr>) i Opened"
        using \<open>lock_step s e = Some t\<close> OpenExclusive None by (simp add: lock_step_def split: if_splits)
      show ?thesis
        by (rule lock_invI)
           (use D(1,2) free \<open>\<not> stalled t\<close> in \<open>auto simp: t move_def file_of_def split: if_splits\<close>)
    next
      case (Some f)
      then have t: "t = move s i Inspecting"
        using \<open>lock_step s e = Some t\<close> OpenExclusive by (simp add: lock_step_def split: if_splits)
      show ?thesis using \<open>\<not> stalled t\<close> unfolding t by (intro move_inv assms(2)) simp_all
    qed
  next
    case (Inspect i)
    then have t: "t = move s i Trying"
      using \<open>lock_step s e = Some t\<close> lock_inv_fresh [OF assms(2)] by (simp add: lock_step_def split: if_splits)
    show ?thesis using \<open>\<not> stalled t\<close> unfolding t by (intro move_inv assms(2)) simp_all
  next
    case (UnlinkStale i)
    then show ?thesis using \<open>lock_step s e = Some t\<close> D(2) by (simp add: lock_step_def)
  next
    case (WriteOwner i)
    then have own: "file_of s i False" and step: "lk_phase s i = Opened" "t = lock_move s e"
      using \<open>lock_step s e = Some t\<close> D(3) by (auto simp: lock_step_def split: if_splits)
    then obtain f where f: "lk_file s = Some f" "lf_creator f = i" by (auto simp: file_of_def split: option.splits)
    have other: "lk_phase s j \<notin> {Opened, Holds, OwnsFile}" if "j \<noteq> i" for j
      using that file_of_unique [OF own] D(3,4) [of j] by blast
    have t: "lk_file t = Some (f\<lparr>lf_content := Some (owner_json (lk_pid s i) (lk_token s i) (lk_now s)), lf_mtime := lk_now s\<rparr>)"
      "lk_phase t = (lk_phase s)(i := Holds)" "lk_kill t = lk_kill s"
      using step(2) WriteOwner f by (simp_all add: move_def)
    show ?thesis
      by (rule lock_invI)
         (use D(1,2) other f \<open>\<not> stalled t\<close> in \<open>auto simp: t file_of_def split: if_splits\<close>)
  next
    case (WriteFails i)
    then have "file_of s i False" and t: "t = move (s\<lparr>lk_file := None\<rparr>) i LockOver"
      using \<open>lock_step s e = Some t\<close> D(3) by (auto simp: lock_step_def split: if_splits)
    then show ?thesis using unlink_inv [OF assms(2)] by simp
  next
    case (CheckToken i)
    then have "lk_phase s i = Holds" and t: "t = move s i OwnsFile \<or> t = move s i LockOver"
      using \<open>lock_step s e = Some t\<close> by (auto simp: lock_step_def split: if_splits)
    then show ?thesis using \<open>\<not> stalled t\<close> move_inv [OF assms(2)] by auto
  next
    case (UnlinkOwn i)
    then have "file_of s i True" and t: "t = move (s\<lparr>lk_file := None\<rparr>) i LockOver"
      using \<open>lock_step s e = Some t\<close> D(4) [of i] by (auto simp: lock_step_def split: if_splits)
    then show ?thesis using unlink_inv [OF assms(2)] by simp
  next
    case (AbortWait i)
    then have t: "t = move s i LockOver"
      using \<open>lock_step s e = Some t\<close> by (simp add: lock_step_def split: if_splits)
    show ?thesis using \<open>\<not> stalled t\<close> unfolding t by (intro move_inv assms(2)) simp_all
  next
    case (ProcessDies p)
    then show ?thesis using \<open>\<And>p. e \<noteq> ProcessDies p\<close> by simp
  next
    case (TimePasses d)
    then have t: "t = s\<lparr>lk_now := lk_now s + int d\<rparr>"
      using \<open>lock_step s e = Some t\<close> by (simp add: lock_step_def)
    show ?thesis
      by (rule lock_invI) (use D \<open>\<not> stalled t\<close> in \<open>auto simp: t file_of_def\<close>)
  qed
qed

interpretation file_locks: guarded_machine prompt_step "\<lambda>_. True" lock_inv
  by unfold_locales (rule prompt_step_inv)

section \<open>The lock directory\<close>

text \<open>
  \<open>canonicalPhysicalPath\<close>: the real path of the deepest existing ancestor, and below it the missing
  segments. \<open>realpath\<close> of a path given by its segments.
\<close>

function canonical_loop ::
  "(string \<Rightarrow> fs_error + string) \<Rightarrow> string list \<Rightarrow> string list \<Rightarrow> fs_error + string" where
  "canonical_loop realpath cursor missing =
     (case realpath (render_path cursor) of
        Inr r \<Rightarrow> Inr (foldl path_resolve r missing)
      | Inl (FsError m) \<Rightarrow> Inl (FsError m)
      | Inl ENOENT \<Rightarrow>
          if cursor = [] then Inl ENOENT
          else canonical_loop realpath (butlast cursor) (last cursor # missing))"
  by pat_completeness auto
termination by (relation "measure (\<lambda>(r, cursor, m). length cursor)") (auto simp: length_butlast)

declare canonical_loop.simps [simp del]

definition canonicalPhysicalPath :: "(string \<Rightarrow> fs_error + string) \<Rightarrow> string \<Rightarrow> string \<Rightarrow> fs_error + string" where
  "canonicalPhysicalPath realpath cwd path =
     canonical_loop realpath (walk_segments [] (path_segments (path_resolve cwd path))) []"

definition workspaceLockBase :: "string \<Rightarrow> int option \<Rightarrow> string" where
  "workspaceLockBase tmpdir uid =
     path_join tmpdir (''relay-workspace-locks'' @ (case uid of None \<Rightarrow> [] | Some u \<Rightarrow> CHR ''-'' # show_int u))"

definition workspaceLockDirectory ::
  "(string \<Rightarrow> fs_error + string) \<Rightarrow> (string \<Rightarrow> string) \<Rightarrow> string \<Rightarrow> int option \<Rightarrow> string \<Rightarrow> string \<Rightarrow> fs_error + string" where
  "workspaceLockDirectory realpath sha256 tmpdir uid cwd workspaceRoot =
     (case canonicalPhysicalPath realpath cwd workspaceRoot of
        Inl e \<Rightarrow> Inl e
      | Inr r \<Rightarrow> Inr (path_join (workspaceLockBase tmpdir uid) (sha256 r)))"

definition lock_path ::
  "(string \<Rightarrow> fs_error + string) \<Rightarrow> (string \<Rightarrow> string) \<Rightarrow> string \<Rightarrow> string \<Rightarrow> string \<Rightarrow> fs_error + string" where
  "lock_path realpath sha256 cwd lockDirectory key =
     (case canonicalPhysicalPath realpath cwd key of
        Inl e \<Rightarrow> Inl e | Inr r \<Rightarrow> Inr (path_join lockDirectory (sha256 r @ ''.lock'')))"

text \<open>What \<open>lstat\<close> tells of a directory that must be private.\<close>

record owned_stat =
  os_symlink :: bool
  os_uid :: int
  os_mode :: "16 word"

record 'w dir_env =
  dr_mkdir :: "string \<Rightarrow> ('w, string, unit) effect"
  dr_lstat :: "string \<Rightarrow> ('w, string, owned_stat) effect"
  dr_chmod :: "string \<Rightarrow> ('w, string, unit) effect"
  dr_uid :: "int option"

definition ensurePrivateDirectory :: "'w dir_env \<Rightarrow> string \<Rightarrow> string \<Rightarrow> ('w, string, unit) effect" where
  "ensurePrivateDirectory env path label =
     eff_bind (dr_mkdir env path) (\<lambda>_.
     eff_bind (dr_lstat env path) (\<lambda>initial.
     if os_symlink initial then eff_throw (label @ '' must not be a symbolic link: '' @ path @ ''.'')
     else if dr_uid env \<noteq> None \<and> Some (os_uid initial) \<noteq> dr_uid env
     then eff_throw (label @ '' is owned by another user: '' @ path @ ''.'')
     else eff_bind (dr_chmod env path) (\<lambda>_.
     eff_bind (dr_lstat env path) (\<lambda>final.
     if and (os_mode final) 0x3F \<noteq> 0
     then eff_throw (label @ '' permissions are too broad: '' @ path @ ''.'')
     else eff_return ()))))"

definition ensureLockDirectory :: "'w dir_env \<Rightarrow> string \<Rightarrow> string \<Rightarrow> ('w, string, unit) effect" where
  "ensureLockDirectory env lockBase lockDirectory =
     eff_bind (ensurePrivateDirectory env lockBase ''Workspace lock root'') (\<lambda>_.
     ensurePrivateDirectory env lockDirectory ''Workspace lock directory'')"

lemma private_directory_checked:
  "ensurePrivateDirectory env path label w = (Inr (), w') \<Longrightarrow>
   \<exists>v st. dr_lstat env path v = (Inr st, w') \<and> and (os_mode st) 0x3F = 0"
  by (auto simp: ensurePrivateDirectory_def eff_defs split: prod.splits sum.splits if_splits)

text \<open>Every spelling of an existing directory leads to the same lock file.\<close>

lemma resolve_stable: "render_path (walk_segments [] (path_segments (path_resolve cwd p))) = path_resolve cwd p"
  using path_resolve_resolved [of cwd p] by (auto simp: resolved_path_def resolve_render)

lemma canonical_existing:
  "realpath (path_resolve cwd p) = Inr r \<Longrightarrow> canonicalPhysicalPath realpath cwd p = Inr r"
  by (simp add: canonicalPhysicalPath_def canonical_loop.simps resolve_stable)

lemma lock_path_aliases:
  "realpath (path_resolve cwd p) = Inr r \<Longrightarrow> realpath (path_resolve cwd q) = Inr r \<Longrightarrow>
   lock_path realpath sha256 cwd d p = lock_path realpath sha256 cwd d q"
  by (simp add: lock_path_def canonical_existing)

text \<open>When the root exists and the only errors are missing entries, a path has a canonical form.\<close>

lemma canonical_loop_total:
  "(\<And>p e. realpath p = Inl e \<Longrightarrow> e = ENOENT) \<Longrightarrow> realpath (render_path []) = Inr r \<Longrightarrow>
   \<exists>q. canonical_loop realpath cursor missing = Inr q"
proof (induction realpath cursor missing rule: canonical_loop.induct)
  case (1 realpath cursor missing)
  show ?case
  proof (cases "realpath (render_path cursor)")
    case (Inl e)
    with "1.prems"(1) have e: "e = ENOENT" by blast
    with Inl "1.prems"(2) have "cursor \<noteq> []" by auto
    with 1 Inl e show ?thesis by (subst canonical_loop.simps) simp
  qed (simp add: canonical_loop.simps)
qed

section \<open>Properties\<close>

text \<open>C17. Runs of one workspace never overlap within a process and start in the order they were requested: when
  a run is past the queue, every run of its key called earlier has left the gate and none called
  later is past it, for every interleaving of calls, waits, cancellations and promise callbacks.\<close>

theorem gate_fifo_exclusive:
  assumes "run_events gate_step new_gate es = Some g" and "inside_gate g n" and "keyed g (gt_key g n) m" and "m \<noteq> n"
  shows "\<not> inside_gate g m \<and> (m < n \<longrightarrow> gt_phase g m = Released)"
proof -
  have inv: "gate_inv g" using gates.run_keeps [OF assms(1) _ gate_inv_new] by (simp add: list_all_iff)
  have same: "gt_key g m = gt_key g n" using assms(3) by (simp add: keyed_def)
  have n: "keyed g (gt_key g n) n" using assms(2) by (auto simp: inside_gate_def keyed_def)
  have before: "gt_phase g m = Released" if "m < n"
    using gate_invD(4) [OF inv assms(2)] that assms(3) by (simp add: all_released_def)
  moreover have "\<not> inside_gate g m" if "n < m"
  proof
    assume m: "inside_gate g m"
    have "gt_phase g n = Released"
      using gate_invD(4) [OF inv m] that n same by (simp add: all_released_def)
    with assms(2) show False by (simp add: inside_gate_def)
  qed
  ultimately show ?thesis using assms(4) by (auto simp: inside_gate_def neq_iff)
qed

text \<open>The queue never gets stuck: in every reachable state, a run whose earlier runs have all left the gate,
  by finishing, failing or being cancelled while they waited, gets its turn after finitely many
  promise callbacks.\<close>

theorem gate_queue_moves:
  assumes "run_events gate_step new_gate es = Some g" and "gt_phase g n = WaitsTurn" and "all_released g (gt_key g n) n"
  shows "\<exists>ms h. run_events gate_step g (map TailSettles ms @ [TurnComes n]) = Some h \<and> inside_gate h n"
proof -
  have inv: "gate_inv g" using gates.run_keeps [OF assms(1) _ gate_inv_new] by (simp add: list_all_iff)
  have n: "keyed g (gt_key g n) n" using assms(2) by (simp add: keyed_def)
  show ?thesis
  proof (cases "gt_predecessor g n")
    case None
    with assms(2) show ?thesis by (intro exI [where x = "[]"]) (simp add: inside_gate_def)
  next
    case (Some p)
    from gate_invD(9) [OF inv n Some] have p: "p < n" "keyed g (gt_key g n) p" by simp_all
    with assms(3) have "gt_phase g p = Released" "all_released g (gt_key g n) p" by (auto simp: all_released_def)
    with settle_chain [OF inv p(2)] obtain ms h
      where run: "run_events gate_step g (map TailSettles ms) = Some h" and h: "only_settled g h" "gt_settled h p" by blast
    have "gate_step h (TurnComes n) = Some (h\<lparr>gt_phase := (gt_phase h)(n := WaitsLock)\<rparr>)"
      using h assms(2) Some by (auto simp: only_settled_def)
    then have "run_events gate_step g (map TailSettles ms @ [TurnComes n]) = Some (h\<lparr>gt_phase := (gt_phase h)(n := WaitsLock)\<rparr>)"
      by (simp add: run_events_append run)
    then show ?thesis by (intro exI conjI) (auto simp: inside_gate_def)
  qed
qed

text \<open>C21. Two daemons never hold the lock file of a workspace together, for every interleaving of their system
  calls, as long as no daemon dies and none stalls thirty seconds between creating the lock and
  writing its owner; and the holder's file is the one on disk.\<close>

theorem file_lock_exclusive:
  assumes "run_events prompt_step (new_locks pids tokens) es = Some s" and "holds_lock s i"
  shows "file_of s i True \<and> (holds_lock s j \<longrightarrow> j = i)"
proof -
  have "lock_inv (new_locks pids tokens)"
    by (simp add: lock_inv_def new_locks_def stalled_def file_of_def)
  then have inv: "lock_inv s" using file_locks.run_keeps [OF assms(1)] by (simp add: list_all_iff)
  have "file_of s k True" if "holds_lock s k" for k
    using that lock_invD(4) [OF inv] by (simp add: holds_lock_def)
  with assms(2) file_of_unique show ?thesis by blast
qed

text \<open>A lock left behind by a dead daemon does not block its workspace: a live contender that finds it
  acquires the lock in five system calls of its own.\<close>

theorem dead_lock_recovered:
  assumes "lk_file s = Some f" and "lock_pid (lf_content f) = Some p" and "lk_kill s p = KillError ''ESRCH''"
    and "lk_phase s i = Trying" and "processIsAlive (lk_kill s) (lk_pid s i)"
  shows "\<exists>t. run_events lock_step s [OpenExclusive i, Inspect i, UnlinkStale i, OpenExclusive i, WriteOwner i] = Some t \<and>
             holds_lock t i \<and> file_of t i True"
  using assms by (simp add: lock_step_def move_def staleLock_def processIsAlive_def holds_lock_def file_of_def)

text \<open>
  With a death the exclusion fails: two contenders that both find the dead daemon's lock can both
  end up holding it, because the second one unlinks the lock the first has just created.
\<close>

definition race_events :: "lock_event list" where
  "race_events = [OpenExclusive 0, WriteOwner 0, ProcessDies 10, OpenExclusive 1, OpenExclusive 2, Inspect 1, Inspect 2,
     UnlinkStale 1, OpenExclusive 1, WriteOwner 1, UnlinkStale 2, OpenExclusive 2, WriteOwner 2]"

lemma stale_lock_race:
  "\<exists>s. run_events lock_step (new_locks (\<lambda>i. 10 + int i) (\<lambda>i. show_nat i)) race_events = Some s \<and>
       holds_lock s 1 \<and> holds_lock s 2"
  by (simp add: race_events_def new_locks_def lock_step_def move_def staleLock_def processIsAlive_def holds_lock_def
      fun_upd_def)

section \<open>Witnesses\<close>

definition two_runs :: "gate_event list" where
  "two_runs = [CallRun (Some ''k''), CallRun (Some ''k''), TurnComes 0, LockComes 0, LeaveGate 0]"

definition two_runs_gate :: gate where
  "two_runs_gate = the (run_events gate_step new_gate two_runs)"

lemma two_runs_run: "run_events gate_step new_gate two_runs = Some two_runs_gate"
  by (simp add: two_runs_gate_def two_runs_def new_gate_def Let_def)

lemma two_runs_state: "gt_phase two_runs_gate = (\<lambda>n. if n = 0 then Released else if n = 1 then WaitsTurn else NotCalled)"
  "gt_key two_runs_gate 0 = ''k''" "gt_key two_runs_gate 1 = ''k''"
  by (auto simp: two_runs_gate_def two_runs_def new_gate_def Let_def fun_upd_def)

theorem gate_fifo_exclusive_witness:
  "\<exists>g. run_events gate_step new_gate (two_runs @ [TailSettles 0, TurnComes 1]) = Some g \<and> inside_gate g 1 \<and>
       \<not> inside_gate g 0 \<and> gt_phase g 0 = Released"
proof -
  obtain g where run: "run_events gate_step new_gate (two_runs @ [TailSettles 0, TurnComes 1]) = Some g"
    and "inside_gate g 1" "keyed g (gt_key g 1) 0"
    by (simp add: two_runs_def new_gate_def Let_def inside_gate_def keyed_def)
  with gate_fifo_exclusive [OF run, of 1 0] show ?thesis using run by simp
qed

theorem gate_queue_moves_witness:
  "\<exists>ms h. run_events gate_step two_runs_gate (map TailSettles ms @ [TurnComes 1]) = Some h \<and> inside_gate h 1"
  by (rule gate_queue_moves [OF two_runs_run]) (auto simp: two_runs_state all_released_def)

definition one_holder :: locks where
  "one_holder = the (run_events prompt_step (new_locks (\<lambda>i. 10 + int i) show_nat) [OpenExclusive 0, WriteOwner 0])"

lemma one_holder_run:
  "run_events prompt_step (new_locks (\<lambda>i. 10 + int i) show_nat) [OpenExclusive 0, WriteOwner 0] = Some one_holder"
  "holds_lock one_holder 0"
  by (simp_all add: one_holder_def prompt_step_def lock_step_def new_locks_def move_def stalled_def processIsAlive_def
      INCOMPLETE_LOCK_STALE_MS_def holds_lock_def)

theorem file_lock_exclusive_witness: "file_of one_holder 0 True \<and> \<not> holds_lock one_holder 1"
  using file_lock_exclusive [OF one_holder_run, of 1] by simp

theorem dead_lock_recovered_witness:
  "\<exists>t. run_events lock_step (lock_move one_holder (ProcessDies 10))
         [OpenExclusive 1, Inspect 1, UnlinkStale 1, OpenExclusive 1, WriteOwner 1] = Some t \<and> holds_lock t 1 \<and> file_of t 1 True"
  by (rule dead_lock_recovered [where f = "\<lparr>lf_creator = 0, lf_content = Some (owner_json 10 (show_nat 0) 0), lf_mtime = 0\<rparr>"
      and p = 10])
     (simp_all add: one_holder_def prompt_step_def lock_step_def new_locks_def move_def stalled_def processIsAlive_def
      INCOMPLETE_LOCK_STALE_MS_def)

end
