(* ===== verification/Utf8_Text.thy ===== *)
theory Utf8_Text
  imports Relay_Prelude
begin

text \<open>
  The UTF-8 bytes of a text with code units below 256, and the text of bytes as the lenient decoders read it: reading the
  bytes of a text gives the text.
\<close>

text \<open>\<open>Buffer.from(s)\<close>: the UTF-8 bytes of a text with code units below 256.\<close>

definition utf8_bytes :: "string \<Rightarrow> nat list" where
  "utf8_bytes s = concat (map (\<lambda>c. let n = of_char c in if n < 128 then [n] else [192 + n div 64, 128 + n mod 64]) s)"

text \<open>\<open>Buffer.toString("utf8")\<close> and the decoder of query parameters; a byte that is not part of a character of the model
reads as \<open>?\<close>.\<close>

fun utf8_text :: "nat list \<Rightarrow> string" where
  "utf8_text [] = []"
| "utf8_text (b # bs) =
     (if b < 128 then char_of b # utf8_text bs
      else case bs of
             c # cs \<Rightarrow> if 194 \<le> b \<and> b < 196 \<and> 128 \<le> c \<and> c < 192 then char_of ((b - 192) * 64 + (c - 128)) # utf8_text cs
                       else CHR ''?'' # utf8_text bs
           | [] \<Rightarrow> [CHR ''?''])"

section \<open>Reading the bytes of a text\<close>

text \<open>Splitting a byte into its high and low bits and joining neighbours.\<close>

lemma join_div [simp]: "y < m \<Longrightarrow> (x * m + y) div m = (x :: nat)"
  by (simp add: div_plus_div_distrib_dvd_left)

lemma join_mod [simp]: "y < m \<Longrightarrow> (x * m + y) mod m = (y :: nat)"
  by simp

lemma byte_high: "b < 256 \<Longrightarrow> b div 4 < 64" "b < 256 \<Longrightarrow> b div 16 < 16" "b < 256 \<Longrightarrow> b div 64 < (4 :: nat)"
  by (simp_all add: less_mult_imp_div_less)

lemma byte_low: "b mod 4 < (4 :: nat)" "b mod 16 < (16 :: nat)" "b mod 64 < (64 :: nat)"
  by simp_all

lemma join_bound: "x < 4 \<Longrightarrow> y < 16 \<Longrightarrow> x * 16 + y < (64 :: nat)" "x < 16 \<Longrightarrow> y < 4 \<Longrightarrow> x * 4 + y < (64 :: nat)"
  "x < 4 \<Longrightarrow> x * 16 < (64 :: nat)" "x < 16 \<Longrightarrow> x * 4 < (64 :: nat)"
  by linarith+

lemma of_char_less [simp]: "(of_char c :: nat) < 256"
  by simp

lemma utf8_bytes_bound: "list_all (\<lambda>b. b < 256) (utf8_bytes s)"
proof -
  have "192 + n div 64 < (256 :: nat)" "128 + n mod 64 < (256 :: nat)" if "n < 256" for n :: nat
    using byte_high(3) [OF that] byte_low(3) [of n] by linarith+
  then show ?thesis by (auto simp: utf8_bytes_def list_all_iff Let_def)
qed

lemma utf8_text_bytes: "utf8_text (utf8_bytes s) = s"
proof (induction s)
  case (Cons c cs)
  let ?n = "of_char c :: nat"
  have cons: "utf8_bytes (c # cs) = (if ?n < 128 then [?n] else [192 + ?n div 64, 128 + ?n mod 64]) @ utf8_bytes cs"
    by (simp add: utf8_bytes_def Let_def)
  show ?case
  proof (cases "?n < 128")
    case True
    with Cons show ?thesis by (simp add: cons)
  next
    case False
    have high: "2 \<le> ?n div 64" "?n div 64 < 4"
      using False byte_high(3) [OF of_char_less [of c]] by (simp_all add: div_le_mono [of 128 _ 64, simplified])
    have "char_of (?n div 64 * 64 + ?n mod 64) = c" by (simp add: div_mult_mod_eq)
    with Cons False high show ?thesis by (simp add: cons)
  qed
qed (simp add: utf8_bytes_def)

lemma utf8_bytes_inj: "utf8_bytes s = utf8_bytes t \<Longrightarrow> s = t"
  by (metis utf8_text_bytes)

end
