(* ===== verification/Agent_Home.thy ===== *)
theory Agent_Home
  imports File_Paths Utf8_Text
begin

text \<open>
  Where an agent keeps its private files: \<open>packages/relay-daemon/src/agent-workspace.ts\<close>. The
  directory name is the base64url form of the agent id's UTF-8 bytes, written out here over byte
  values so that distinct agents provably get distinct directories.
\<close>

section \<open>base64url\<close>

definition base64url_alphabet :: string where
  "base64url_alphabet = ''ABCDEFGHIJKLMNOPQRSTUVWXYZabcdefghijklmnopqrstuvwxyz0123456789-_''"

definition sextet_char :: "nat \<Rightarrow> char" where
  "sextet_char n = base64url_alphabet ! n"

fun sextets :: "nat list \<Rightarrow> nat list" where
  "sextets [] = []"
| "sextets [a] = [a div 4, a mod 4 * 16]"
| "sextets [a, b] = [a div 4, a mod 4 * 16 + b div 16, b mod 16 * 4]"
| "sextets (a # b # c # bs) = a div 4 # (a mod 4 * 16 + b div 16) # (b mod 16 * 4 + c div 64) # c mod 64 # sextets bs"

definition base64url :: "nat list \<Rightarrow> string" where
  "base64url bs = map sextet_char (sextets bs)"

definition agentWorkspaceSubpath :: "string \<Rightarrow> string" where
  "agentWorkspaceSubpath agentId = ''agents'' @ [SEP] @ ''agent-'' @ base64url (utf8_bytes agentId)"

definition ensureAgentWorkspaceDir ::
  "(string \<Rightarrow> 'w \<Rightarrow> (string + unit) \<times> 'w) \<Rightarrow> string \<Rightarrow> string \<Rightarrow> 'w \<Rightarrow> (string + string) \<times> 'w" where
  "ensureAgentWorkspaceDir mkdir workspaceRoot agentId w =
     (let dir = path_resolve workspaceRoot (agentWorkspaceSubpath agentId)
      in case mkdir dir w of (Inl e, v) \<Rightarrow> (Inl e, v) | (Inr _, v) \<Rightarrow> (Inr dir, v))"

section \<open>Decoding\<close>

fun unsextets :: "nat list \<Rightarrow> nat list" where
  "unsextets (p # q # r # s # xs) = (p * 4 + q div 16) # (q mod 16 * 16 + r div 4) # (r mod 4 * 64 + s) # unsextets xs"
| "unsextets [p, q, r] = [p * 4 + q div 16, q mod 16 * 16 + r div 4]"
| "unsextets [p, q] = [p * 4 + q div 16]"
| "unsextets _ = []"

lemma unsextets_sextets: "list_all (\<lambda>b. b < 256) bs \<Longrightarrow> unsextets (sextets bs) = bs"
  by (induction bs rule: sextets.induct) (simp_all add: byte_high)

lemma sextets_bound: "list_all (\<lambda>b. b < 256) bs \<Longrightarrow> list_all (\<lambda>x. x < 64) (sextets bs)"
  by (induction bs rule: sextets.induct) (simp_all add: byte_high byte_low join_bound)

lemma length_alphabet: "length base64url_alphabet = 64" and distinct_alphabet: "distinct base64url_alphabet"
  by (simp_all add: base64url_alphabet_def)

lemma sextet_char_inj: "x < 64 \<Longrightarrow> y < 64 \<Longrightarrow> sextet_char x = sextet_char y \<longleftrightarrow> x = y"
  by (simp add: sextet_char_def nth_eq_iff_index_eq distinct_alphabet length_alphabet)

lemma map_sextet_inj:
  "list_all (\<lambda>x. x < 64) xs \<Longrightarrow> list_all (\<lambda>x. x < 64) ys \<Longrightarrow> map sextet_char xs = map sextet_char ys \<Longrightarrow> xs = ys"
proof (induction xs arbitrary: ys)
  case (Cons x xs)
  then obtain z zs where "ys = z # zs" by (cases ys) auto
  with Cons.prems Cons.IH [of zs] show ?case by (simp add: sextet_char_inj)
qed simp

lemma base64url_inj:
  assumes "list_all (\<lambda>b. b < 256) xs" and "list_all (\<lambda>b. b < 256) ys" and "base64url xs = base64url ys"
  shows "xs = ys"
proof -
  have "sextets xs = sextets ys"
    using assms by (auto simp: base64url_def intro: map_sextet_inj sextets_bound)
  then show ?thesis using unsextets_sextets assms(1,2) by metis
qed

lemma base64url_chars: "list_all (\<lambda>b. b < 256) bs \<Longrightarrow> c \<in> set (base64url bs) \<Longrightarrow> c \<in> set base64url_alphabet"
  using sextets_bound [of bs]
  by (auto simp: base64url_def sextet_char_def list_all_iff length_alphabet intro!: nth_mem)

text \<open>The home is a single directory below \<open>agents\<close>.\<close>

lemma agent_home_segment: "clean_segment (''agent-'' @ base64url (utf8_bytes agentId))"
proof -
  have "SEP \<notin> set base64url_alphabet" by (simp add: base64url_alphabet_def SEP_def)
  then have "SEP \<notin> set (base64url (utf8_bytes agentId))"
    using base64url_chars [OF utf8_bytes_bound] by blast
  then show ?thesis by (simp add: clean_segment_def SEP_def)
qed

section \<open>Property\<close>

text \<open>Every agent has a home of its own: two agent ids with the same home directory are the same id, and
  the home is one directory directly below \<open>agents\<close>.\<close>

theorem agent_homes_distinct:
  "(agentWorkspaceSubpath a = agentWorkspaceSubpath b) = (a = b) \<and>
   (\<exists>x. clean_segment x \<and> agentWorkspaceSubpath a = js_join [SEP] [''agents'', x])"
proof -
  have "a = b" if "agentWorkspaceSubpath a = agentWorkspaceSubpath b"
  proof -
    have "base64url (utf8_bytes a) = base64url (utf8_bytes b)" using that by (simp add: agentWorkspaceSubpath_def)
    then have "utf8_bytes a = utf8_bytes b" by (intro base64url_inj utf8_bytes_bound)
    then show ?thesis by (rule utf8_bytes_inj)
  qed
  moreover have "agentWorkspaceSubpath a = js_join [SEP] [''agents'', ''agent-'' @ base64url (utf8_bytes a)]"
    by (simp add: agentWorkspaceSubpath_def)
  ultimately show ?thesis using agent_home_segment by blast
qed

end
