(* ===== verification/Round_Result.thy ===== *)
theory Round_Result
  imports Daemon_Protocol Js_Json
begin

text \<open>
  The verdict an agent leaves behind: \<open>packages/relay-daemon/src/round-result.ts\<close>. The three file
  operations are effects that may fail; \<open>JSON.parse\<close> is an argument.
\<close>

definition ROUND_RESULT_RELATIVE_PATH :: string where "ROUND_RESULT_RELATIVE_PATH = ''.relay/round-result.json''"
definition ROUND_RESULT_MAX_BYTES :: int where "ROUND_RESULT_MAX_BYTES = 64 * 1024"
definition NOTE_MAX_CHARS :: nat where "NOTE_MAX_CHARS = 2000"

definition ROUND_RESULT_STATUSES :: "(string \<times> RoundStatus) list" where
  "ROUND_RESULT_STATUSES = [(''done'', round_done), (''continue'', round_continue), (''blocked'', round_blocked)]"

definition parseRoundResult :: "json_parser \<Rightarrow> string \<Rightarrow> round_result option" where
  "parseRoundResult parse raw =
     (case parse raw of
        Some (JObj r) \<Rightarrow>
          (case json_string (json_field r ''status'') of
             None \<Rightarrow> None
           | Some st \<Rightarrow>
               (case map_of ROUND_RESULT_STATUSES st of
                  None \<Rightarrow> None
                | Some status \<Rightarrow>
                    Some \<lparr>rr_status = status,
                          rr_note = (case json_string (json_field r ''note'') of
                             None \<Rightarrow> None
                           | Some n \<Rightarrow> if js_trim n = [] then None else Some (take NOTE_MAX_CHARS (js_trim n)))\<rparr>))
      | _ \<Rightarrow> None)"

record 'w round_files =
  rf_size :: "string \<Rightarrow> ('w, unit, int) effect"
  rf_read :: "string \<Rightarrow> ('w, unit, string) effect"
  rf_remove :: "string \<Rightarrow> ('w, unit, unit) effect"

definition removeQuietly :: "'w round_files \<Rightarrow> string \<Rightarrow> ('w, unit, unit) effect" where
  "removeQuietly env path = eff_catch (rf_remove env path) (\<lambda>_. eff_return ())"

text \<open>\<open>Inl ()\<close>: the outer \<open>catch\<close>.\<close>

definition consumeRoundResult ::
  "'w round_files \<Rightarrow> json_parser \<Rightarrow> string \<Rightarrow> ('w, unit, round_result option) effect" where
  "consumeRoundResult env parse workspacePath =
     (let path = workspacePath @ CHR ''/'' # ROUND_RESULT_RELATIVE_PATH
      in eff_bind (eff_try
           (eff_bind (rf_size env path) (\<lambda>size.
            if ROUND_RESULT_MAX_BYTES < size
            then eff_bind (removeQuietly env path) (\<lambda>_. eff_return None)
            else eff_bind (rf_read env path) (\<lambda>raw. eff_return (Some raw)))))
         (\<lambda>r. case r of
            Inl _ \<Rightarrow> eff_return None
          | Inr None \<Rightarrow> eff_return None
          | Inr (Some raw) \<Rightarrow> eff_bind (removeQuietly env path) (\<lambda>_. eff_return (parseRoundResult parse raw))))"

text \<open>Reading the verdict never fails a run.\<close>

lemma consumeRoundResult_total: "\<exists>r v. consumeRoundResult env parse p w = (Inr r, v)"
  by (simp add: consumeRoundResult_def removeQuietly_def eff_defs eff_try_def Let_def
      split: prod.split sum.split option.split)

lemma parse_note_bounded:
  "parseRoundResult parse raw = Some r \<Longrightarrow> rr_note r = Some n \<Longrightarrow> n \<noteq> [] \<and> length n \<le> 2000"
  by (auto simp: parseRoundResult_def NOTE_MAX_CHARS_def split: option.splits json.splits if_splits)

text \<open>
  One file that holds at most one verdict: the state is its content. What was left is returned
  once; afterwards nothing is left.
\<close>

definition one_file :: "string option round_files" where
  "one_file = \<lparr>rf_size = (\<lambda>p w. case w of None \<Rightarrow> (Inl (), w) | Some t \<Rightarrow> (Inr (int (length t)), w)),
               rf_read = (\<lambda>p w. case w of None \<Rightarrow> (Inl (), w) | Some t \<Rightarrow> (Inr t, w)),
               rf_remove = (\<lambda>p w. (Inr (), None))\<rparr>"

lemma consume_once: "snd (consumeRoundResult one_file parse p w) = None"
  by (simp add: consumeRoundResult_def removeQuietly_def one_file_def eff_defs eff_try_def Let_def split: option.split)

lemma consume_reads:
  "int (length t) \<le> ROUND_RESULT_MAX_BYTES \<Longrightarrow>
   fst (consumeRoundResult one_file parse p (Some t)) = Inr (parseRoundResult parse t)"
  by (simp add: consumeRoundResult_def removeQuietly_def one_file_def eff_defs eff_try_def Let_def)

end
