(* ===== verification/Execute_Command.thy ===== *)
theory Execute_Command
  imports Output_Delivery Generated_Files Thread_Workspace Agent_Home Round_Result
begin

text \<open>
  One run from command to terminal event: \<open>executeCommand\<close> of
  \<open>packages/relay-daemon/src/index.ts\<close> and the task the poll loop wraps around it. What the daemon
  calls (the agent process, posts, the abort signal, the file system) are effects of \<open>exec_env\<close> on a
  world of any type. \<open>ex_posts\<close> records every terminal event handed to \<open>postJsonWithRetry\<close>, whether
  or not the post succeeds. Logging is left out.
\<close>

section \<open>Environment\<close>

record 'w exec_env =
  xe_cwd :: string
  xe_nodeWorkspacePath :: string
  xe_manager :: workspace_manager
  xe_fs :: "'w \<Rightarrow> file_system"
  xe_put_fs :: "file_system \<Rightarrow> 'w \<Rightarrow> 'w"
  xe_mkdir :: "string \<Rightarrow> file_system \<Rightarrow> fs_error + file_system"
  xe_makeHome :: "string \<Rightarrow> ('w, string, unit) effect"
  xe_ensureReady :: "AgentName \<Rightarrow> string \<Rightarrow> ('w, string, unit) effect"
  xe_aborted :: "'w \<Rightarrow> bool"
  xe_reason :: "'w \<Rightarrow> string option"
  xe_lease :: "'w \<Rightarrow> string option"
  xe_scan :: "'w \<Rightarrow> scan_env"
  xe_runAgent :: "AgentName \<Rightarrow> agent_state \<Rightarrow> string \<Rightarrow> ('w, string, agent_patch \<times> run_sink) effect"
  xe_parse :: json_parser
  xe_files :: "'w round_files"
  xe_post :: "node_event \<Rightarrow> ('w, string, unit) effect"
  xe_postCancelled :: "node_event \<Rightarrow> ('w, string, unit) effect"

record 'w exec =
  ex_world :: 'w
  ex_posts :: "node_event list"
  ex_sink :: "run_sink option"

text \<open>
  \<open>xe_runAgent\<close> is \<open>runAgentNode\<close> with what follows in the \<open>finally\<close>: the buffer is closed and the
  posts are waited for; with the patch it gives the event sink of the run as it is then
  (Output_Delivery), which \<open>ex_sink\<close> keeps. \<open>xe_lease\<close> is
  \<open>command.leaseId\<close>, which the poll loop may replace while the run goes on.
\<close>

definition in_exec :: "('w, 'e, 'a) effect \<Rightarrow> ('w exec, 'e, 'a) effect" where
  "in_exec m = (\<lambda>s. case m (ex_world s) of (r, w) \<Rightarrow> (r, s\<lparr>ex_world := w\<rparr>))"

definition exec_get :: "('w \<Rightarrow> 'a) \<Rightarrow> ('w exec, 'e, 'a) effect" where
  "exec_get f = (\<lambda>s. (Inr (f (ex_world s)), s))"

definition command_ref :: "run_command \<Rightarrow> string option \<Rightarrow> run_ref" where
  "command_ref c lease = \<lparr>rx_commandId = rc_id c, rx_leaseId = truthy_or_none lease, rx_sessionId = rc_sessionId c,
     rx_runId = rc_runId c, rx_agent = rc_agent c\<rparr>"

text \<open>Post an event made from the command's fields and its lease of the moment.\<close>

definition post_terminal ::
  "'w exec_env \<Rightarrow> run_command \<Rightarrow> (node_event \<Rightarrow> ('w, string, unit) effect) \<Rightarrow> (run_ref \<Rightarrow> node_event)
     \<Rightarrow> ('w exec, string, unit) effect" where
  "post_terminal env c post mk =
     eff_bind (exec_get (\<lambda>w. mk (command_ref c (xe_lease env w)))) (\<lambda>e.
     eff_bind (eff_modify (\<lambda>s. s\<lparr>ex_posts := ex_posts s @ [e]\<rparr>)) (\<lambda>_. in_exec (post e)))"

section \<open>The handler\<close>

definition normalizeWorkspacePath :: "string \<Rightarrow> string option \<Rightarrow> string option" where
  "normalizeWorkspacePath cwd v =
     (case v of None \<Rightarrow> None
      | Some s \<Rightarrow> if js_trim s = [] then None else Some (path_resolve cwd (js_trim s)))"

definition workspacePathsMatch :: "string \<Rightarrow> string option \<Rightarrow> string option \<Rightarrow> bool" where
  "workspacePathsMatch cwd a b =
     (case (normalizeWorkspacePath cwd a, normalizeWorkspacePath cwd b) of
        (Some l, Some r) \<Rightarrow> l = r | _ \<Rightarrow> False)"

definition durableWorkspaceLayout :: "WorkspaceLayout option \<Rightarrow> bool" where
  "durableWorkspaceLayout l = (l = Some project_layout \<or> l = Some task_layout)"

definition requiredWorkspaceSubpath :: "string option \<Rightarrow> string + string" where
  "requiredWorkspaceSubpath v =
     (if js_truthy v then Inr (the v) else Inl ''Durable workspace command is missing workspaceSubpath.'')"

fun workspace_error_message :: "workspace_error \<Rightarrow> string" where
  "workspace_error_message (WorkspaceError m) = m"
| "workspace_error_message (WorkspaceFsError ENOENT) = ''ENOENT: no such file or directory''"
| "workspace_error_message (WorkspaceFsError (FsError m)) = m"

definition ensured ::
  "'w exec_env \<Rightarrow> (file_system \<Rightarrow> workspace_error + (thread_workspace \<times> file_system)) \<Rightarrow> ('w, string, thread_workspace) effect" where
  "ensured env f = (\<lambda>w. case f (xe_fs env w) of
       Inl e \<Rightarrow> (Inl (workspace_error_message e), w)
     | Inr (tw, fs) \<Rightarrow> (Inr tw, xe_put_fs env fs w))"

definition run_workspace :: "'w exec_env \<Rightarrow> run_command \<Rightarrow> ('w, string, thread_workspace) effect" where
  "run_workspace env c =
     (if rc_workspaceLayout c = Some thread_layout
      then ensured env (\<lambda>fs. tw_ensure (xe_mkdir env) fs (xe_manager env) (rc_sessionId c))
      else if durableWorkspaceLayout (rc_workspaceLayout c)
      then (case requiredWorkspaceSubpath (rc_workspaceSubpath c) of
              Inl m \<Rightarrow> eff_throw m
            | Inr sub \<Rightarrow> ensured env (\<lambda>fs. tw_ensureSubpath (xe_mkdir env) fs (xe_manager env) (rc_sessionId c) sub))
      else eff_return (tw_nodeRoot (xe_manager env) (rc_sessionId c)))"

definition postRunCancelled :: "'w exec_env \<Rightarrow> run_command \<Rightarrow> ('w exec, string, unit) effect" where
  "postRunCancelled env c =
     eff_bind (exec_get (xe_reason env)) (\<lambda>reason.
     post_terminal env c (xe_postCancelled env)
       (\<lambda>r. NodeRunCancelled r (if js_truthy reason then the reason else ''Cancelled by human.'')))"

text \<open>\<open>postRunCancelled(...).catch(log)\<close>.\<close>

definition report_cancelled :: "'w exec_env \<Rightarrow> run_command \<Rightarrow> ('w exec, string, unit) effect" where
  "report_cancelled env c = eff_catch (postRunCancelled env c) (\<lambda>_. eff_return ())"

definition agent_home_subdir :: "run_command \<Rightarrow> string option" where
  "agent_home_subdir c = (if js_truthy (rc_logicalAgentId c) then Some (agentWorkspaceSubpath (the (rc_logicalAgentId c))) else None)"

definition run_state :: "agent_state \<Rightarrow> string option \<Rightarrow> agent_state" where
  "run_state st home = (case home of None \<Rightarrow> st
     | Some h \<Rightarrow> st\<lparr>as_context := AList.update ''agent_home_subdir'' (JStr h) (as_context st)\<rparr>)"

definition last_log :: "agent_state \<Rightarrow> string" where
  "last_log st = (if as_agent_logs st = [] then [] else last (as_agent_logs st))"

text \<open>From the end of the agent process to the terminal event.\<close>

definition finish_run ::
  "'w exec_env \<Rightarrow> run_command \<Rightarrow> thread_workspace \<Rightarrow> snapshot \<Rightarrow> run_sink \<Rightarrow> agent_state \<Rightarrow> ('w exec, string, unit) effect" where
  "finish_run env c tw before_run sink st =
     eff_bind (exec_get (xe_aborted env)) (\<lambda>aborted.
     if aborted then report_cancelled env c
     else eff_bind (exec_get (\<lambda>w. if as_last_exit_code st = 0
              then diffGeneratedFiles (xe_scan env w) (Some (tw_hostPath tw)) before_run (agent_home_subdir c) else [])) (\<lambda>files.
     case dq_failure (sk_delivery sink) of
       Some m \<Rightarrow> post_terminal env c (xe_post env)
         (\<lambda>r. NodeRunFailed r (''Daemon lost agent output: '' @ m) (Some (last_log st))
           (Some (if as_last_exit_code st = 0 then 1 else as_last_exit_code st)) (if files = [] then None else Some files))
     | None \<Rightarrow>
         eff_bind (in_exec (\<lambda>w. case consumeRoundResult (xe_files env) (xe_parse env) (tw_hostPath tw) w of
                      (Inl _, v) \<Rightarrow> (Inr None, v) | (Inr r, v) \<Rightarrow> (Inr r, v))) (\<lambda>verdict.
         post_terminal env c (xe_post env)
           (\<lambda>r. NodeRunCompleted r (as_last_exit_code st) (last_log st) (as_token_usage st)
             (if files = [] then None else Some files) verdict))))"

definition executeCommand :: "'w exec_env \<Rightarrow> run_command \<Rightarrow> ('w exec, string, unit) effect" where
  "executeCommand env c =
     (let st = (case rc_state c of None \<Rightarrow> initialAgentState (rc_taskGoal c) | Some s \<Rightarrow> s)
      in if js_truthy (rc_workspacePath c) \<and>
            \<not> workspacePathsMatch (xe_cwd env) (rc_workspacePath c) (Some (xe_nodeWorkspacePath env))
         then eff_throw (''Daemon workspace mismatch: command expects '' @ the (rc_workspacePath c) @
                '' but this daemon serves '' @ xe_nodeWorkspacePath env @ ''.'')
         else eff_bind (in_exec (run_workspace env c)) (\<lambda>tw.
              eff_bind (in_exec (xe_ensureReady env (rc_agent c) (tw_hostPath tw))) (\<lambda>_.
              eff_bind (exec_get (xe_aborted env)) (\<lambda>aborted.
              if aborted then report_cancelled env c
              else eff_bind (if js_truthy (rc_logicalAgentId c)
                             then in_exec (\<lambda>w. case ensureAgentWorkspaceDir (xe_makeHome env) (tw_hostPath tw)
                                                (the (rc_logicalAgentId c)) w of (r, v) \<Rightarrow>
                                    (case r of Inl e \<Rightarrow> Inl e | Inr _ \<Rightarrow> Inr (), v))
                             else eff_return ()) (\<lambda>_.
              eff_bind (exec_get (\<lambda>w. snapshotGeneratedFiles (xe_scan env w) (Some (tw_hostPath tw)) (agent_home_subdir c))) (\<lambda>snap.
              eff_bind (in_exec (xe_runAgent env (rc_agent c) (run_state st (agent_home_subdir c)) (tw_executionPath tw))) (\<lambda>(patch, sink).
              eff_bind (eff_modify (\<lambda>s. s\<lparr>ex_sink := Some sink\<rparr>)) (\<lambda>_.
              finish_run env c tw snap sink (mergeAgentState st patch)))))))))"

section \<open>The task of the poll loop\<close>

text \<open>
  \<open>gate\<close> is \<open>workspaceRunGate.run\<close> around the handler: what happens before it may fail, what happens
  after it may not. A rejection posts \<open>run.cancelled\<close> or \<open>run.failed\<close>; a failing post is logged.
\<close>

definition failure_event :: "'w exec_env \<Rightarrow> string \<Rightarrow> 'w \<Rightarrow> run_ref \<Rightarrow> node_event" where
  "failure_event env message w r =
     (if xe_aborted env w
      then NodeRunCancelled r (case xe_reason env w of Some m \<Rightarrow> m | None \<Rightarrow> ''Daemon run cancelled.'')
      else NodeRunFailed r message None None None)"

definition report_failure :: "'w exec_env \<Rightarrow> run_command \<Rightarrow> string \<Rightarrow> ('w exec, string, unit) effect" where
  "report_failure env c message =
     eff_bind (exec_get (xe_aborted env)) (\<lambda>aborted.
     eff_bind (exec_get (failure_event env message)) (\<lambda>mk.
     eff_catch (post_terminal env c (if aborted then xe_postCancelled env else xe_post env) mk) (\<lambda>_. eff_return ())))"

definition run_task ::
  "'w exec_env \<Rightarrow> ('w, string, unit) effect \<Rightarrow> ('w \<Rightarrow> 'w) \<Rightarrow> run_command \<Rightarrow> ('w exec, string, unit) effect" where
  "run_task env enter leave c =
     eff_catch
       (eff_bind (in_exec enter) (\<lambda>_ s. case executeCommand env c s of (r, t) \<Rightarrow> (r, t\<lparr>ex_world := leave (ex_world t)\<rparr>)))
       (report_failure env c)"

section \<open>Triples for the primitives\<close>

text \<open>\<open>posted ps s\<close>: exactly \<open>ps\<close> has been posted since the posts were \<open>h\<close>.\<close>

definition posted :: "node_event list \<Rightarrow> node_event list \<Rightarrow> 'w exec \<Rightarrow> bool" where
  "posted h ps s \<longleftrightarrow> ex_posts s = h @ ps"

definition quiet :: "('w exec, string, 'a) effect \<Rightarrow> bool" where
  "quiet m \<longleftrightarrow> (\<forall>s. ex_posts (snd (m s)) = ex_posts s)"

lemma quiet_in_exec [simp]: "quiet (in_exec m)"
  by (simp add: quiet_def in_exec_def split: prod.split)

lemma quiet_get [simp]: "quiet (exec_get f)"
  by (simp add: quiet_def exec_get_def)

lemma quiet_return [simp]: "quiet (eff_return a)"
  by (simp add: quiet_def eff_return_def)

lemma quiet_sink [simp]: "quiet (eff_modify (\<lambda>s. s\<lparr>ex_sink := k\<rparr>))"
  by (simp add: quiet_def eff_modify_def)

lemma triple_quiet: "quiet m \<Longrightarrow> eff_triple (posted h ps) m (\<lambda>_. posted h ps) (\<lambda>_. posted h ps)"
  by (auto simp: quiet_def eff_triple_def eff_wp_def posted_def split: prod.splits sum.splits) (metis snd_conv)+

lemma triple_post:
  assumes "\<And>lease t. posted h (ps @ [mk (command_ref c lease)]) t \<Longrightarrow> Q t"
  shows "eff_triple (posted h ps) (post_terminal env c post mk) (\<lambda>_. Q) (\<lambda>_. Q)"
  using assms
  by (auto simp: post_terminal_def eff_triple_def eff_wp_def posted_def eff_defs in_exec_def exec_get_def
      split: prod.split sum.split)

text \<open>The events a run of the command may end with.\<close>

definition refers_to :: "run_command \<Rightarrow> run_ref \<Rightarrow> bool" where
  "refers_to c r \<longleftrightarrow> (\<exists>lease. r = command_ref c lease)"

lemma refers_to_ref [simp]: "refers_to c (command_ref c lease)"
  by (auto simp: refers_to_def)

definition ends_run :: "run_command \<Rightarrow> node_event \<Rightarrow> bool" where
  "ends_run c e \<longleftrightarrow> terminal_event e \<and>
     (case e of NodeRunCompleted r _ _ _ _ _ \<Rightarrow> refers_to c r | NodeRunFailed r _ _ _ _ \<Rightarrow> refers_to c r
      | NodeRunCancelled r _ \<Rightarrow> refers_to c r | _ \<Rightarrow> False)"

definition one_end :: "run_command \<Rightarrow> node_event list \<Rightarrow> 'w exec \<Rightarrow> bool" where
  "one_end c h s \<longleftrightarrow> (\<exists>e. ends_run c e \<and> posted h [e] s)"

lemma ends_run_simps [simp]:
  "ends_run c (NodeRunCompleted r x l u fs v) \<longleftrightarrow> refers_to c r"
  "ends_run c (NodeRunFailed r m al xc fs') \<longleftrightarrow> refers_to c r"
  "ends_run c (NodeRunCancelled r m) \<longleftrightarrow> refers_to c r"
  by (simp_all add: ends_run_def terminal_event_def)

lemma one_endI: "ends_run c e \<Longrightarrow> posted h [e] s \<Longrightarrow> one_end c h s"
  by (auto simp: one_end_def)

definition at_most_one_end :: "run_command \<Rightarrow> node_event list \<Rightarrow> 'w exec \<Rightarrow> bool" where
  "at_most_one_end c h s \<longleftrightarrow> posted h [] s \<or> one_end c h s"

lemma triple_final:
  assumes "\<And>lease. ends_run c (mk (command_ref c lease))"
  shows "eff_triple (posted h []) (post_terminal env c post mk) (\<lambda>_. one_end c h) (\<lambda>_. at_most_one_end c h)"
  by (rule triple_conseq [OF triple_post [where Q = "one_end c h"]])
     (use assms in \<open>auto simp: at_most_one_end_def intro: one_endI\<close>)

lemma triple_quiet_then:
  assumes "quiet m" and "\<And>a. eff_triple (posted h []) (k a) Q (\<lambda>_. at_most_one_end c h)"
  shows "eff_triple (posted h []) (eff_bind m k) Q (\<lambda>_. at_most_one_end c h)"
  by (rule triple_bind [OF _ assms(2)])
     (rule triple_conseq [OF triple_quiet [OF assms(1)]], auto simp: at_most_one_end_def)

lemma triple_report_cancelled:
  "eff_triple (posted h []) (report_cancelled env c) (\<lambda>_. one_end c h) (\<lambda>_. at_most_one_end c h)"
  unfolding report_cancelled_def
proof (rule triple_catch [where R = "\<lambda>_. one_end c h"])
  show "eff_triple (posted h []) (postRunCancelled env c) (\<lambda>_. one_end c h) (\<lambda>_. one_end c h)"
    unfolding postRunCancelled_def
  proof (rule triple_bind)
    show "eff_triple (posted h []) (exec_get (xe_reason env)) (\<lambda>_. posted h []) (\<lambda>_. one_end c h)"
      by (simp add: eff_triple_def eff_wp_def exec_get_def)
    show "eff_triple (posted h []) (post_terminal env c (xe_postCancelled env)
        (\<lambda>r. NodeRunCancelled r (if js_truthy reason then the reason else ''Cancelled by human.'')))
        (\<lambda>_. one_end c h) (\<lambda>_. one_end c h)" for reason
      by (rule triple_post, unfold append_Nil, erule one_endI [rotated], simp)
  qed
  show "eff_triple (one_end c h) (eff_return ()) (\<lambda>_. one_end c h) (\<lambda>_. at_most_one_end c h)" for e
    by (rule triple_return)
qed

lemma triple_finish_run:
  "eff_triple (posted h []) (finish_run env c tw snap k st) (\<lambda>_. one_end c h) (\<lambda>_. at_most_one_end c h)"
  unfolding finish_run_def
  by (intro triple_quiet_then quiet_get triple_if triple_report_cancelled triple_option triple_final quiet_in_exec)
     simp_all

lemma triple_executeCommand:
  "eff_triple (posted h []) (executeCommand env c) (\<lambda>_. one_end c h) (\<lambda>_. at_most_one_end c h)"
  unfolding executeCommand_def Let_def
  by (intro triple_if triple_quiet_then triple_prod quiet_get quiet_in_exec quiet_sink triple_report_cancelled
      triple_finish_run triple_throw)
     (auto simp: at_most_one_end_def)

section \<open>What a completed run guarantees\<close>

text \<open>
  \<open>honest ok h s\<close>: a \<open>run.completed\<close> among the posts since \<open>h\<close> means the sink of the run satisfies \<open>ok\<close>.
  \<open>during h k s\<close>: nothing is posted yet and \<open>k\<close> is the sink.
\<close>

fun completed_event :: "node_event \<Rightarrow> bool" where
  "completed_event (NodeRunCompleted _ _ _ _ _ _) = True"
| "completed_event _ = False"

definition honest :: "(run_sink \<Rightarrow> bool) \<Rightarrow> node_event list \<Rightarrow> 'w exec \<Rightarrow> bool" where
  "honest ok h s \<longleftrightarrow> (\<exists>ps. posted h ps s \<and> (list_ex completed_event ps \<longrightarrow> (\<exists>k. ex_sink s = Some k \<and> ok k)))"

definition during :: "node_event list \<Rightarrow> run_sink \<Rightarrow> 'w exec \<Rightarrow> bool" where
  "during h k s \<longleftrightarrow> posted h [] s \<and> ex_sink s = Some k"

definition frames_sink :: "('w exec, string, 'a) effect \<Rightarrow> bool" where
  "frames_sink m \<longleftrightarrow> quiet m \<and> (\<forall>s. ex_sink (snd (m s)) = ex_sink s)"

lemma frames_sink_prims [simp]: "frames_sink (in_exec m)" "frames_sink (exec_get f)"
  unfolding frames_sink_def
  by (rule conjI [OF quiet_in_exec], simp add: in_exec_def split: prod.split)
     (rule conjI [OF quiet_get], simp add: exec_get_def)

lemma honest_posted: "posted h [] s \<Longrightarrow> honest ok h s"
  by (auto simp: honest_def)

lemma triple_honest_quiet:
  assumes "quiet m" and "\<And>a. eff_triple (posted h []) (k a) Q (\<lambda>_. honest ok h)"
  shows "eff_triple (posted h []) (eff_bind m k) Q (\<lambda>_. honest ok h)"
  by (rule triple_bind [OF _ assms(2)])
     (rule triple_conseq [OF triple_quiet [OF assms(1)]], auto intro: honest_posted)

lemma triple_during:
  assumes "frames_sink m" and "\<And>a. eff_triple (during h k) (f a) Q (\<lambda>_. honest ok h)"
  shows "eff_triple (during h k) (eff_bind m f) Q (\<lambda>_. honest ok h)"
proof (rule triple_bind [OF _ assms(2)])
  show "eff_triple (during h k) m (\<lambda>_. during h k) (\<lambda>_. honest ok h)"
    unfolding eff_triple_def eff_wp_def
  proof (intro allI impI)
    fix s :: "'a exec"
    assume "during h k s"
    then have "during h k (snd (m s))" using assms(1) by (simp add: frames_sink_def quiet_def during_def posted_def)
    then show "case m s of (Inl e, t) \<Rightarrow> honest ok h t | (Inr a, t) \<Rightarrow> during h k t"
      by (auto simp: during_def intro: honest_posted split: prod.split sum.split)
  qed
qed

lemma triple_honest_final:
  assumes "\<And>r. \<not> completed_event (mk r)"
  shows "eff_triple (posted h []) (post_terminal env c post mk) (\<lambda>_. honest ok h) (\<lambda>_. honest ok h)"
  by (rule triple_post) (use assms in \<open>auto simp: honest_def\<close>)

lemma triple_completed:
  assumes "ok k"
  shows "eff_triple (during h k) (post_terminal env c post mk) (\<lambda>_. honest ok h) (\<lambda>_. honest ok h)"
  using assms
  by (auto simp: post_terminal_def eff_triple_def eff_wp_def posted_def honest_def during_def eff_defs in_exec_def exec_get_def
      split: prod.split sum.split)

lemma triple_honest_cancelled:
  "eff_triple (posted h []) (report_cancelled env c) (\<lambda>_. honest ok h) (\<lambda>_. honest ok h)"
  unfolding report_cancelled_def postRunCancelled_def
  by (rule triple_catch [where R = "\<lambda>_. honest ok h"])
     (intro triple_honest_quiet quiet_get triple_honest_final triple_return; simp)+

lemma triple_from_during:
  "eff_triple (posted h []) m Q E \<Longrightarrow> eff_triple (during h k) m Q E"
  by (auto simp: eff_triple_def during_def)

lemma triple_honest_finish:
  assumes "dq_failure (sk_delivery k) = None \<Longrightarrow> ok k"
  shows "eff_triple (during h k) (finish_run env c tw snap k st) (\<lambda>_. honest ok h) (\<lambda>_. honest ok h)"
  unfolding finish_run_def
proof (intro triple_during triple_if frames_sink_prims)
  show "eff_triple (during h k) (report_cancelled env c) (\<lambda>_. honest ok h) (\<lambda>_. honest ok h)"
    by (rule triple_from_during [OF triple_honest_cancelled])
  show "eff_triple (during h k)
      (case dq_failure (sk_delivery k) of
         Some m \<Rightarrow> post_terminal env c (xe_post env)
           (\<lambda>r. NodeRunFailed r (''Daemon lost agent output: '' @ m) (Some (last_log st))
             (Some (if as_last_exit_code st = 0 then 1 else as_last_exit_code st)) (if files = [] then None else Some files))
       | None \<Rightarrow>
           eff_bind (in_exec (\<lambda>w. case consumeRoundResult (xe_files env) (xe_parse env) (tw_hostPath tw) w of
                        (Inl _, v) \<Rightarrow> (Inr None, v) | (Inr r, v) \<Rightarrow> (Inr r, v))) (\<lambda>verdict.
           post_terminal env c (xe_post env)
             (\<lambda>r. NodeRunCompleted r (as_last_exit_code st) (last_log st) (as_token_usage st)
               (if files = [] then None else Some files) verdict)))
      (\<lambda>_. honest ok h) (\<lambda>_. honest ok h)" for files
  proof (cases "dq_failure (sk_delivery k)")
    case None
    show ?thesis unfolding None option.case by (intro triple_during triple_completed assms None frames_sink_prims)
  next
    case (Some m)
    show ?thesis unfolding Some option.case by (intro triple_from_during triple_honest_final) simp
  qed
qed

text \<open>The value of an agent run keeps the property \<open>good\<close> all its results have.\<close>

lemma triple_run_agent:
  assumes "\<And>w p k v. m w = (Inr (p, k), v) \<Longrightarrow> good k" and "\<And>p k. good k \<Longrightarrow> eff_triple (during h k) (f p k) Q (\<lambda>_. honest ok h)"
  shows "eff_triple (posted h []) (eff_bind (in_exec m) (\<lambda>(p, k). eff_bind (eff_modify (\<lambda>s. s\<lparr>ex_sink := Some k\<rparr>)) (\<lambda>_. f p k)))
           Q (\<lambda>_. honest ok h)"
proof (rule triple_bind [where R = "\<lambda>r s. posted h [] s \<and> good (snd r)"])
  show "eff_triple (posted h []) (in_exec m) (\<lambda>r s. posted h [] s \<and> good (snd r)) (\<lambda>_. honest ok h)"
    using assms(1) by (fastforce simp: eff_triple_def eff_wp_def in_exec_def posted_def intro: honest_posted
        split: prod.split sum.split)
  show "eff_triple (\<lambda>s. posted h [] s \<and> good (snd r))
      (case r of (p, k) \<Rightarrow> eff_bind (eff_modify (\<lambda>s. s\<lparr>ex_sink := Some k\<rparr>)) (\<lambda>_. f p k)) Q (\<lambda>_. honest ok h)" for r
    using assms(2) by (cases r) (auto simp: eff_triple_def eff_wps during_def posted_def)
qed

lemma triple_honest_execute:
  assumes "\<And>a st p w patch k v. xe_runAgent env a st p w = (Inr (patch, k), v) \<Longrightarrow> good k"
    and "\<And>k. good k \<Longrightarrow> dq_failure (sk_delivery k) = None \<Longrightarrow> ok k"
  shows "eff_triple (posted h []) (executeCommand env c) (\<lambda>_. honest ok h) (\<lambda>_. honest ok h)"
  unfolding executeCommand_def Let_def
  by (intro triple_if triple_run_agent [where good = good] triple_honest_finish triple_honest_quiet quiet_get quiet_in_exec
      triple_honest_cancelled triple_throw)
     (auto intro: honest_posted assms)

text \<open>The event sink of a run after \<open>close\<close> and the wait: some interleaving that produced \<open>out\<close>.\<close>

definition closed_sink :: "run_sink \<Rightarrow> content \<Rightarrow> bool" where
  "closed_sink s out \<longleftrightarrow>
     (\<exists>jb limit es posts. sink_run jb (new_sink limit) (es @ [CloseBuffer] @ posts) = Some s \<and>
        list_all (\<lambda>e. e \<in> {PostSucceeded, DrainFinally} \<union> range PostFailed) posts \<and>
        dq_drain (sk_delivery s) = DrainIdle \<and> input_content es = out)"

lemma closed_sink_delivered:
  assumes "closed_sink s out" and "dq_failure (sk_delivery s) = None"
  shows "items_content (dq_delivered (sk_delivery s)) = out"
proof -
  obtain jb limit es posts where s: "sink_run jb (new_sink limit) (es @ [CloseBuffer] @ posts) = Some s"
    and rest: "list_all (\<lambda>e. e \<in> {PostSucceeded, DrainFinally} \<union> range PostFailed) posts"
      "dq_drain (sk_delivery s) = DrainIdle" "input_content es = out"
    using assms(1) unfolding closed_sink_def by (elim exE conjE)
  show ?thesis using closed_sink_everything [OF s rest(1,2)] assms(2) rest(3) by simp
qed

section \<open>Properties\<close>

text \<open>C18. Every run the daemon starts is reported: whatever fails in between (the gate, the workspace, the
  agent, the posts), the task of the run returns normally and has handed over one or two terminal
  events, all of this command, run and session; two only when the first could not be delivered.\<close>

theorem every_run_reported:
  "case run_task env enter leave c s of (r, t) \<Rightarrow> r = Inr () \<and>
     (\<exists>ps. ex_posts t = ex_posts s @ ps \<and> list_all (ends_run c) ps \<and> length ps \<in> {1, 2})"
proof -
  define h where "h = ex_posts s"
  let ?reported = "\<lambda>t :: 'a exec. \<exists>ps. posted h ps t \<and> list_all (ends_run c) ps \<and> length ps \<in> {1, 2}"
  let ?body = "eff_bind (in_exec enter) (\<lambda>_ s. case executeCommand env c s of (r, t) \<Rightarrow> (r, t\<lparr>ex_world := leave (ex_world t)\<rparr>))"
  have handler: "eff_triple (posted h []) (\<lambda>s. case executeCommand env c s of (r, t) \<Rightarrow> (r, t\<lparr>ex_world := leave (ex_world t)\<rparr>))
      (\<lambda>_. one_end c h) (\<lambda>_. at_most_one_end c h)"
    using triple_executeCommand [of h env c]
    by (auto simp: eff_triple_def eff_wp_def one_end_def at_most_one_end_def posted_def split: prod.splits sum.splits)
  have body: "eff_triple (posted h []) ?body (\<lambda>_. one_end c h) (\<lambda>_. at_most_one_end c h)"
    by (rule triple_quiet_then [OF quiet_in_exec handler])
  have report: "eff_triple (at_most_one_end c h) (report_failure env c m) (\<lambda>_. ?reported) (\<lambda>_ _. False)" for m
  proof -
    have "eff_triple (posted h ps) (report_failure env c m)
        (\<lambda>_ t. \<exists>e. ends_run c e \<and> posted h (ps @ [e]) t) (\<lambda>_ _. False)" for ps
      by (auto simp: report_failure_def eff_triple_def eff_wp_def eff_defs exec_get_def post_terminal_def in_exec_def
          posted_def failure_event_def split: prod.split sum.split)
    note after = this
    have one: "eff_triple (posted h [e]) (report_failure env c m) (\<lambda>_. ?reported) (\<lambda>_ _. False)" if "ends_run c e" for e
      by (rule triple_conseq [OF after [of "[e]"]]) (use that in force)+
    have none: "eff_triple (posted h []) (report_failure env c m) (\<lambda>_. ?reported) (\<lambda>_ _. False)"
      by (rule triple_conseq [OF after [of "[]"]]) force+
    show ?thesis using one none by (auto simp: eff_triple_def at_most_one_end_def one_end_def)
  qed
  have "eff_triple (posted h []) (run_task env enter leave c) (\<lambda>_. ?reported) (\<lambda>_ _. False)"
    unfolding run_task_def
  proof (rule triple_catch [where R = "\<lambda>_. at_most_one_end c h"])
    show "eff_triple (posted h []) ?body (\<lambda>_. ?reported) (\<lambda>_. at_most_one_end c h)"
      by (rule triple_conseq [OF body]) (auto simp: one_end_def)
  qed (rule report)
  then have "eff_wp (run_task env enter leave c) (\<lambda>_. ?reported) (\<lambda>_ _. False) s"
    by (rule eff_tripleD) (simp add: posted_def h_def)
  then show ?thesis by (auto simp: eff_wp_def posted_def h_def split: prod.splits sum.splits)
qed

text \<open>C20. A run is reported as completed only when nothing of it is missing: if \<open>run.completed\<close> is posted,
  the backend has by then accepted everything the agent wrote, in order.\<close>

theorem completed_means_delivered:
  assumes "\<And>a st p w patch k v. xe_runAgent env a st p w = (Inr (patch, k), v) \<Longrightarrow> \<exists>out. closed_sink k out"
    and "executeCommand env c s = (r, t)" and "ex_posts t = ex_posts s @ ps" and "list_ex completed_event ps"
  shows "\<exists>k out. ex_sink t = Some k \<and> closed_sink k out \<and> items_content (dq_delivered (sk_delivery k)) = out"
proof -
  let ?ok = "\<lambda>k. \<exists>out. closed_sink k out \<and> items_content (dq_delivered (sk_delivery k)) = out"
  have "eff_wp (executeCommand env c) (\<lambda>_. honest ?ok (ex_posts s)) (\<lambda>_. honest ?ok (ex_posts s)) s"
    by (rule eff_tripleD [OF triple_honest_execute [where good = "\<lambda>k. \<exists>out. closed_sink k out"]])
       (use assms(1) closed_sink_delivered in \<open>auto simp: posted_def\<close>)
  then have "honest ?ok (ex_posts s) t"
    using assms(2) by (auto simp: eff_wp_def split: sum.splits)
  with assms(3,4) show ?thesis by (auto simp: honest_def posted_def)
qed

section \<open>Examples\<close>

text \<open>A world that is one verdict file; the agent writes \<open>verdict\<close>, and \<open>cancels\<close> aborts once it has.\<close>

definition quiet_sink :: run_sink where
  "quiet_sink = with_buffer (new_sink None) (ob_close (sk_buffer (new_sink None)))"

lemma quiet_sink_closed: "closed_sink quiet_sink []"
proof -
  have "sink_run (\<lambda>_. 0) (new_sink None) ([] @ [CloseBuffer] @ []) = Some quiet_sink"
    by (simp add: quiet_sink_def)
  moreover have "dq_drain (sk_delivery quiet_sink) = DrainIdle"
    by (simp add: quiet_sink_def with_buffer_def ob_close_def ob_flush_def new_sink_def new_output_buffer_def new_delivery_def Let_def)
  ultimately show ?thesis
    unfolding closed_sink_def by (intro exI [where x = "[]"] exI conjI) simp_all
qed

lemma quiet_sink_ok: "dq_failure (sk_delivery quiet_sink) = None"
  by (simp add: quiet_sink_def with_buffer_def ob_close_def ob_flush_def new_sink_def new_output_buffer_def new_delivery_def Let_def)

definition no_scan :: scan_env where
  "no_scan = \<lparr>sn_readdir = (\<lambda>_. Inl ENOENT), sn_lstat = (\<lambda>_. Inl ENOENT), sn_text = (\<lambda>_. Inl ENOENT),
     sn_bytes = (\<lambda>_. Inl ENOENT), sn_base64 = (\<lambda>_. [])\<rparr>"

definition idle_patch :: agent_patch where
  "idle_patch = \<lparr>ap_task_goal = None, ap_agent_logs = Some [''log''], ap_last_exit_code = Some 0, ap_agent_failures = None,
     ap_token_usage = None, ap_context = []\<rparr>"

definition sample_exec :: "string option \<Rightarrow> bool \<Rightarrow> string option exec_env" where
  "sample_exec verdict cancels =
     \<lparr>xe_cwd = ''/'', xe_nodeWorkspacePath = ''/w'',
      xe_manager = \<lparr>wm_rootPath = ''/w'', wm_sandboxMode = sandbox_none\<rparr>,
      xe_fs = (\<lambda>_. plain_fs), xe_put_fs = (\<lambda>_ w. w), xe_mkdir = (\<lambda>_ fs. Inr fs),
      xe_makeHome = (\<lambda>_ w. (Inr (), w)), xe_ensureReady = (\<lambda>_ _ w. (Inr (), w)),
      xe_aborted = (\<lambda>w. cancels \<and> w \<noteq> None), xe_reason = (\<lambda>_. None), xe_lease = (\<lambda>_. None), xe_scan = (\<lambda>_. no_scan),
      xe_runAgent = (\<lambda>_ _ _ w. (Inr (idle_patch, quiet_sink), js_coalesce verdict w)),
      xe_parse = (\<lambda>t. Some (JObj [(''status'', JStr t)])), xe_files = one_file,
      xe_post = (\<lambda>_ w. (Inr (), w)), xe_postCancelled = (\<lambda>_ w. (Inr (), w))\<rparr>"

definition sample_run :: run_command where
  "sample_run = \<lparr>rc_id = ''c1'', rc_leaseId = None, rc_leaseExpiresAt = None, rc_attempt = None, rc_sessionId = ''s1'',
     rc_runId = ''r1'', rc_taskGoal = ''goal'', rc_agent = Codex, rc_logicalAgentId = None, rc_placementId = None,
     rc_agentVersion = None, rc_assignmentId = None, rc_phase = None, rc_role = None, rc_delivery = None,
     rc_workspacePath = None, rc_workspaceLayout = None, rc_workspaceSubpath = None, rc_state = None\<rparr>"

lemma no_files: "diffGeneratedFiles no_scan w m own = []" "listCandidates no_scan w own = []"
  by (simp_all add: diffGeneratedFiles_def listCandidates_def no_scan_def GENERATED_FILE_LIMIT_def Let_def)

lemmas exec_simps = executeCommand_def sample_exec_def sample_run_def run_workspace_def durableWorkspaceLayout_def
  eff_defs in_exec_def exec_get_def finish_run_def post_terminal_def report_cancelled_def postRunCancelled_def
  no_files quiet_sink_ok mergeAgentState_def idle_patch_def initialAgentState_def agent_home_subdir_def
  last_log_def js_coalesce_def tw_nodeRoot_def Let_def

lemma sample_run_completes:
  "executeCommand (sample_exec None False) sample_run \<lparr>ex_world = Some ''done'', ex_posts = [], ex_sink = None\<rparr> =
     (Inr (), \<lparr>ex_world = None,
       ex_posts = [NodeRunCompleted (command_ref sample_run None) 0 ''log'' None None (Some \<lparr>rr_status = round_done, rr_note = None\<rparr>)],
       ex_sink = Some quiet_sink\<rparr>)"
  by (simp add: exec_simps consumeRoundResult_def removeQuietly_def one_file_def eff_try_def ROUND_RESULT_MAX_BYTES_def
      parseRoundResult_def ROUND_RESULT_STATUSES_def json_field_def)

theorem completed_means_delivered_witness:
  "\<exists>k out. ex_sink (snd (executeCommand (sample_exec None False) sample_run \<lparr>ex_world = Some ''done'', ex_posts = [], ex_sink = None\<rparr>)) = Some k \<and>
     closed_sink k out \<and> items_content (dq_delivered (sk_delivery k)) = out"
  unfolding sample_run_completes snd_conv
proof (rule completed_means_delivered [OF _ sample_run_completes, where ps =
    "[NodeRunCompleted (command_ref sample_run None) 0 ''log'' None None (Some \<lparr>rr_status = round_done, rr_note = None\<rparr>)]"])
  show "\<exists>out. closed_sink k out" if "xe_runAgent (sample_exec None False) a st p w = (Inr (patch, k), v)" for a st p w patch k v
    using quiet_sink_closed that by (auto simp: sample_exec_def)
qed simp_all

text \<open>
  A cancelled round leaves its verdict behind, and the next round, whose agent wrote nothing,
  reports it as its own.
\<close>

lemma stale_verdict_inherited:
  "executeCommand (sample_exec (Some ''done'') True) sample_run \<lparr>ex_world = None, ex_posts = [], ex_sink = None\<rparr> =
     (Inr (), \<lparr>ex_world = Some ''done'', ex_posts = [NodeRunCancelled (command_ref sample_run None) ''Cancelled by human.''], ex_sink = Some quiet_sink\<rparr>) \<and>
   ex_posts (snd (executeCommand (sample_exec None False) sample_run \<lparr>ex_world = Some ''done'', ex_posts = [], ex_sink = None\<rparr>)) =
     [NodeRunCompleted (command_ref sample_run None) 0 ''log'' None None (Some \<lparr>rr_status = round_done, rr_note = None\<rparr>)]"
proof
  show "executeCommand (sample_exec (Some ''done'') True) sample_run \<lparr>ex_world = None, ex_posts = [], ex_sink = None\<rparr> =
     (Inr (), \<lparr>ex_world = Some ''done'', ex_posts = [NodeRunCancelled (command_ref sample_run None) ''Cancelled by human.''], ex_sink = Some quiet_sink\<rparr>)"
    by (simp add: exec_simps)
qed (simp add: sample_run_completes)

end
