(* ===== verification/Daemon_Loop.thy ===== *)
theory Daemon_Loop
  imports Execute_Command Workspace_Read Daemon_Retry Step_Machine
begin

text \<open>
  The poll loop of a daemon: \<open>runRelayDaemon\<close> of \<open>packages/relay-daemon/src/index.ts\<close> from
  registration to the command dispatch. \<open>activeRuns\<close> is an association list in insertion order; a
  started run is the entry and the trace \<open>dm_started\<close> (its task is \<open>run_task\<close> of Execute_Command).
  Posts, requests, the clock and the agent checks are effects of \<open>loop_env\<close>. Logging and the
  health display are left out.
\<close>

section \<open>State\<close>

record ('w, 'k) loop_env =
  le_maxConcurrentRuns :: int
  le_workspacePath :: string
  le_manager :: workspace_manager
  le_fs :: "'w \<Rightarrow> file_system"
  le_read :: "'w \<Rightarrow> 'k read_env"
  le_post :: "node_event \<Rightarrow> ('w, daemon_error, unit) effect"
  le_register :: "bool \<Rightarrow> ('w, daemon_error, heartbeat_settings option) effect"
  le_heartbeat :: "command_lease list \<Rightarrow> ('w, daemon_error, heartbeat_settings option) effect"
  le_discover :: "('w, daemon_error, unit) effect"
  le_poll :: "command_lease list \<Rightarrow> ('w, daemon_error, int + node_command list) effect"
  le_now :: "'w \<Rightarrow> int"
  le_refreshMs :: int
  le_configuredEmployee :: bool
  le_configuredInterval :: "int option"

record 'w daemon =
  dm_world :: 'w
  dm_active :: "(string \<times> run_command) list"
  dm_started :: "run_command list"
  dm_cancelled :: "(string \<times> string) list"
  dm_posted :: "node_event list"
  dm_lastRegisteredAt :: int
  dm_intervalMs :: int

definition in_daemon :: "('w, 'e, 'a) effect \<Rightarrow> ('w daemon, 'e, 'a) effect" where
  "in_daemon m = (\<lambda>s. case m (dm_world s) of (r, w) \<Rightarrow> (r, s\<lparr>dm_world := w\<rparr>))"

text \<open>\<open>postJsonWithRetry\<close> of an event; what was handed over is recorded.\<close>

definition post_event :: "('w, 'k) loop_env \<Rightarrow> node_event \<Rightarrow> ('w daemon, daemon_error, unit) effect" where
  "post_event env e =
     eff_bind (eff_modify (\<lambda>s. s\<lparr>dm_posted := dm_posted s @ [e]\<rparr>)) (\<lambda>_. in_daemon (le_post env e))"

section \<open>Registration and heartbeats\<close>

definition employee_required :: "daemon_error \<Rightarrow> bool" where
  "employee_required e = (case e of
     DaemonHttpError m st \<Rightarrow> st = 400 \<and> js_includes m ''employeeId is required for unprovisioned daemon node registration''
   | _ \<Rightarrow> False)"

definition register :: "('w, 'k) loop_env \<Rightarrow> ('w daemon, daemon_error, heartbeat_settings option) effect" where
  "register env =
     eff_bind (eff_catch (in_daemon (le_register env (le_configuredEmployee env)))
       (\<lambda>e. if employee_required e then in_daemon (le_register env True) else eff_throw e))
     (\<lambda>h. eff_return (validHeartbeatSettings h))"

definition updateHeartbeatSettings :: "('w, 'k) loop_env \<Rightarrow> heartbeat_settings option \<Rightarrow> 'w daemon \<Rightarrow> 'w daemon" where
  "updateHeartbeatSettings env settings s =
     (case settings of None \<Rightarrow> s
      | Some h \<Rightarrow> if le_configuredInterval env = None then s\<lparr>dm_intervalMs := hb_intervalMs h\<rparr> else s)"

definition DEFAULT_LIVENESS_HEARTBEAT_MS :: int where "DEFAULT_LIVENESS_HEARTBEAT_MS = 5000"

text \<open>The cadence after the first registration.\<close>

definition initial_interval ::
  "('w, 'k) loop_env \<Rightarrow> heartbeat_settings option \<Rightarrow> heartbeat_settings option \<Rightarrow> int" where
  "initial_interval env registered enrolled =
     (case js_coalesce (le_configuredInterval env)
             (js_coalesce (map_option hb_intervalMs registered) (map_option hb_intervalMs enrolled)) of
        Some i \<Rightarrow> i | None \<Rightarrow> DEFAULT_LIVENESS_HEARTBEAT_MS)"

definition mark_registered :: "('w, 'k) loop_env \<Rightarrow> 'w daemon \<Rightarrow> 'w daemon" where
  "mark_registered env s = s\<lparr>dm_lastRegisteredAt := le_now env (dm_world s)\<rparr>"

definition active_leases :: "'w daemon \<Rightarrow> command_lease list" where
  "active_leases s = map (\<lambda>(i, c). \<lparr>cl_commandId = rc_id c, cl_leaseId = truthy_or_none (rc_leaseId c)\<rparr>) (dm_active s)"

text \<open>An older backend has no heartbeat route: registration is the fallback.\<close>

definition no_heartbeat_route :: "daemon_error \<Rightarrow> bool" where
  "no_heartbeat_route e = (case e of DaemonHttpError _ st \<Rightarrow> st = 404 | _ \<Rightarrow> False)"

definition sendHeartbeat :: "('w, 'k) loop_env \<Rightarrow> ('w daemon, daemon_error, unit) effect" where
  "sendHeartbeat env = (\<lambda>s.
     eff_catch
       (eff_bind (in_daemon (le_heartbeat env (active_leases s))) (\<lambda>h.
        eff_modify (updateHeartbeatSettings env (validHeartbeatSettings h))))
       (\<lambda>e. if no_heartbeat_route e
            then eff_bind (register env) (\<lambda>h.
                 eff_bind (eff_modify (updateHeartbeatSettings env h)) (\<lambda>_. eff_modify (mark_registered env)))
            else eff_throw e) s)"

section \<open>Polling\<close>

definition refresh_registration :: "('w, 'k) loop_env \<Rightarrow> ('w daemon, daemon_error, unit) effect" where
  "refresh_registration env = (\<lambda>s.
     if dm_active s = [] \<and> le_refreshMs env \<le> le_now env (dm_world s) - dm_lastRegisteredAt s
     then eff_bind (in_daemon (le_discover env)) (\<lambda>_.
          eff_bind (register env) (\<lambda>h.
          eff_bind (eff_modify (updateHeartbeatSettings env h)) (\<lambda>_. eff_modify (mark_registered env)))) s
     else (Inr (), s))"

text \<open>\<open>le_poll\<close> answers \<open>Inl status\<close> for a response that is not ok.\<close>

definition poll_commands :: "('w, 'k) loop_env \<Rightarrow> ('w daemon, daemon_error, node_command list) effect" where
  "poll_commands env =
     eff_bind (refresh_registration env) (\<lambda>_ s.
     eff_bind (in_daemon (le_poll env (active_leases s))) (\<lambda>answer.
       case answer of
         Inl _ \<Rightarrow> eff_bind (register env) (\<lambda>_. eff_bind (eff_modify (mark_registered env)) (\<lambda>_. eff_return []))
       | Inr commands \<Rightarrow> eff_return commands) s)"

section \<open>Commands\<close>

definition refreshCommandLease :: "run_command \<Rightarrow> run_command \<Rightarrow> run_command" where
  "refreshCommandLease active received =
     active\<lparr>rc_leaseId := (if js_truthy (rc_leaseId received) then rc_leaseId received else rc_leaseId active),
            rc_leaseExpiresAt := (if js_truthy (rc_leaseExpiresAt received) then rc_leaseExpiresAt received
                                  else rc_leaseExpiresAt active),
            rc_attempt := (if rc_attempt received \<noteq> None then rc_attempt received else rc_attempt active)\<rparr>"

definition canStartCommand :: "(string \<times> run_command) list \<Rightarrow> int \<Rightarrow> bool" where
  "canStartCommand active maxConcurrentRuns \<longleftrightarrow> int (length active) < maxConcurrentRuns"

definition busy_message :: string where
  "busy_message = ''Daemon node has no available execution slot for this run.''"

definition rejection :: "run_command \<Rightarrow> string \<Rightarrow> node_event" where
  "rejection c m = NodeRunFailed (command_ref c (rc_leaseId c)) m None (Some 1) None"

definition sharedWorkspaceKey :: "('w, 'k) loop_env \<Rightarrow> 'w \<Rightarrow> run_command \<Rightarrow> string + string option" where
  "sharedWorkspaceKey env w c =
     (if \<not> durableWorkspaceLayout (rc_workspaceLayout c) then Inr None
      else case requiredWorkspaceSubpath (rc_workspaceSubpath c) of
             Inl m \<Rightarrow> Inl m
           | Inr sub \<Rightarrow> (case tw_resolveSubpath (le_fs env w) (le_manager env) (rc_sessionId c) sub of
               Inl e \<Rightarrow> Inl (workspace_error_message e) | Inr tw \<Rightarrow> Inr (Some (tw_hostPath tw))))"

definition start_run :: "run_command \<Rightarrow> 'w daemon \<Rightarrow> 'w daemon" where
  "start_run c s = s\<lparr>dm_active := AList.update (rc_id c) c (dm_active s), dm_started := dm_started s @ [c]\<rparr>"

definition handle_run_start :: "('w, 'k) loop_env \<Rightarrow> run_command \<Rightarrow> ('w daemon, daemon_error, unit) effect" where
  "handle_run_start env c = (\<lambda>s.
     case map_of (dm_active s) (rc_id c) of
       Some active \<Rightarrow> (Inr (), s\<lparr>dm_active := AList.update (rc_id c) (refreshCommandLease active c) (dm_active s)\<rparr>)
     | None \<Rightarrow>
         if \<not> canStartCommand (dm_active s) (le_maxConcurrentRuns env) then post_event env (rejection c busy_message) s
         else case sharedWorkspaceKey env (dm_world s) c of
                Inl m \<Rightarrow> post_event env (rejection c m) s
              | Inr _ \<Rightarrow> (Inr (), start_run c s))"

definition command_workspace :: "('w, 'k) loop_env \<Rightarrow> 'w \<Rightarrow> workspace_command \<Rightarrow> string + string" where
  "command_workspace env w c =
     (if durableWorkspaceLayout (wc_workspaceLayout c) \<and> js_truthy (wc_sessionId c)
      then case requiredWorkspaceSubpath (wc_workspaceSubpath c) of
             Inl m \<Rightarrow> Inl m
           | Inr sub \<Rightarrow> (case tw_resolveSubpath (le_fs env w) (le_manager env) (the (wc_sessionId c)) sub of
               Inl e \<Rightarrow> Inl (workspace_error_message e) | Inr tw \<Rightarrow> Inr (tw_hostPath tw))
      else Inr (le_workspacePath env))"

definition workspace_event :: "('w, 'k :: linorder) loop_env \<Rightarrow> 'w \<Rightarrow> bool \<Rightarrow> workspace_command \<Rightarrow> node_event" where
  "workspace_event env w isList c =
     (case command_workspace env w c of
        Inr p \<Rightarrow> workspaceCommandEvent (le_read env w) p isList c
      | Inl m \<Rightarrow> NodeWorkspaceError (wc_id c) (truthy_or_none (wc_leaseId c)) None (wc_path c) we_invalid_path m)"

definition handle_workspace ::
  "('w, 'k :: linorder) loop_env \<Rightarrow> bool \<Rightarrow> workspace_command \<Rightarrow> ('w daemon, daemon_error, unit) effect" where
  "handle_workspace env isList c = (\<lambda>s.
     eff_catch (post_event env (workspace_event env (dm_world s) isList c)) (\<lambda>_. eff_return ()) s)"

fun handle_command :: "('w, 'k :: linorder) loop_env \<Rightarrow> node_command \<Rightarrow> ('w daemon, daemon_error, unit) effect" where
  "handle_command env (RunStart c) = handle_run_start env c"
| "handle_command env (RunCancel c) =
     eff_modify (\<lambda>s. if map_of (dm_active s) (cc_commandId c) = None then s
                     else s\<lparr>dm_cancelled := dm_cancelled s @ [(cc_commandId c, cc_reason c)]\<rparr>)"
| "handle_command env (WorkspaceList c) = handle_workspace env True c"
| "handle_command env (WorkspaceRead c) = handle_workspace env False c"

text \<open>One turn of the loop, and how its errors end the daemon.\<close>

definition poll_turn :: "('w, 'k :: linorder) loop_env \<Rightarrow> ('w daemon, daemon_error, unit) effect" where
  "poll_turn env = eff_bind (poll_commands env) (\<lambda>commands. eff_for (handle_command env) commands)"

datatype loop_end = NodeDeleted | StoppedByRequest | LoopFails daemon_error

definition loop_outcome :: "bool \<Rightarrow> daemon_error \<Rightarrow> loop_end" where
  "loop_outcome stopping e =
     (case e of DaemonHttpError _ st \<Rightarrow> if st = 410 then NodeDeleted else if stopping then StoppedByRequest else LoopFails e
      | DaemonStoppedError \<Rightarrow> if stopping then StoppedByRequest else LoopFails e
      | OtherError _ \<Rightarrow> if stopping then StoppedByRequest else LoopFails e)"

section \<open>The loop as a machine\<close>

text \<open>Between the loop's turns runs end: \<open>finally\<close> deletes the entry.\<close>

datatype daemon_event = Deliver node_command | RunEnds string

fun daemon_step :: "('w, 'k :: linorder) loop_env \<Rightarrow> 'w daemon \<Rightarrow> daemon_event \<Rightarrow> 'w daemon option" where
  "daemon_step env s (Deliver c) = (case handle_command env c s of (Inr _, t) \<Rightarrow> Some t | (Inl _, t) \<Rightarrow> None)"
| "daemon_step env s (RunEnds i) =
     (if map_of (dm_active s) i = None then None else Some (s\<lparr>dm_active := AList.delete i (dm_active s)\<rparr>))"

definition new_daemon :: "'w \<Rightarrow> int \<Rightarrow> int \<Rightarrow> 'w daemon" where
  "new_daemon w now interval = \<lparr>dm_world = w, dm_active = [], dm_started = [], dm_cancelled = [], dm_posted = [],
     dm_lastRegisteredAt = now, dm_intervalMs = interval\<rparr>"

section \<open>Invariant\<close>

text \<open>Every entry of \<open>activeRuns\<close> is filed under its own id, once, and there are no more than allowed.\<close>

definition daemon_inv :: "('w, 'k) loop_env \<Rightarrow> 'w daemon \<Rightarrow> bool" where
  "daemon_inv env s \<longleftrightarrow> distinct (map fst (dm_active s)) \<and> list_all (\<lambda>(i, c). rc_id c = i) (dm_active s) \<and>
     int (length (dm_active s)) \<le> max 0 (le_maxConcurrentRuns env)"

lemma AList_update_new: "map_of xs k = None \<Longrightarrow> AList.update k v xs = xs @ [(k, v)]"
  by (induction xs) (auto split: if_splits)

lemma AList_update_keys: "map_of xs k \<noteq> None \<Longrightarrow> map fst (AList.update k v xs) = map fst xs"
  by (induction xs) (auto split: if_splits)

lemma AList_update_length: "map_of xs k \<noteq> None \<Longrightarrow> length (AList.update k v xs) = length xs"
  using AList_update_keys [of xs k v] by (metis length_map)

lemma AList_update_all: "list_all P xs \<Longrightarrow> P (k, v) \<Longrightarrow> list_all P (AList.update k v xs)"
  by (induction xs) auto

lemma AList_delete_all: "list_all P xs \<Longrightarrow> list_all P (AList.delete k xs)"
  by (simp add: AList.delete_eq list_all_iff)

lemma AList_delete_length: "length (AList.delete k xs) \<le> length xs"
  by (simp add: AList.delete_eq)

lemma refresh_id [simp]: "rc_id (refreshCommandLease a c) = rc_id a"
  by (simp add: refreshCommandLease_def)

text \<open>Posting and the world do not touch the runs.\<close>

lemma post_event_frame:
  "post_event env e s = (r, t) \<Longrightarrow> dm_active t = dm_active s \<and> dm_started t = dm_started s \<and>
     dm_cancelled t = dm_cancelled s \<and> dm_posted t = dm_posted s @ [e]"
  by (auto simp: post_event_def eff_defs in_daemon_def split: prod.splits)

lemma handle_workspace_frame:
  "handle_workspace env l c s = (r, t) \<Longrightarrow> r = Inr () \<and> dm_active t = dm_active s \<and> dm_started t = dm_started s \<and>
     dm_posted t = dm_posted s @ [workspace_event env (dm_world s) l c]"
proof -
  assume h: "handle_workspace env l c s = (r, t)"
  obtain q u where p: "post_event env (workspace_event env (dm_world s) l c) s = (q, u)" by (cases "post_event env (workspace_event env (dm_world s) l c) s")
  with h have "t = u" "r = Inr ()" by (cases q; auto simp: handle_workspace_def eff_catch_def eff_return_def)+
  with post_event_frame [OF p] show ?thesis by simp
qed

text \<open>What a \<open>run.start\<close> does, by cases.\<close>

lemma handle_run_start_cases:
  assumes "handle_run_start env c s = (r, t)"
  obtains (refreshed) a where "map_of (dm_active s) (rc_id c) = Some a" "r = Inr ()"
      "t = s\<lparr>dm_active := AList.update (rc_id c) (refreshCommandLease a c) (dm_active s)\<rparr>"
  | (rejected) m where "map_of (dm_active s) (rc_id c) = None" "post_event env (rejection c m) s = (r, t)"
      "canStartCommand (dm_active s) (le_maxConcurrentRuns env) \<longrightarrow> sharedWorkspaceKey env (dm_world s) c = Inl m"
  | (started) k where "map_of (dm_active s) (rc_id c) = None" "r = Inr ()" "t = start_run c s"
      "canStartCommand (dm_active s) (le_maxConcurrentRuns env)" "sharedWorkspaceKey env (dm_world s) c = Inr k"
  using assms by (auto simp: handle_run_start_def split: option.splits if_splits sum.splits)

lemma daemon_step_inv:
  assumes "daemon_step env s e = Some t" and "daemon_inv env s"
  shows "daemon_inv env t"
proof (cases e)
  case (RunEnds i)
  with assms show ?thesis
    using AList_delete_length [of i "dm_active s"]
    by (auto simp: daemon_inv_def distinct_delete AList_delete_all split: if_splits)
next
  case (Deliver cmd)
  then obtain r where step: "handle_command env cmd s = (Inr r, t)"
    using assms(1) by (auto split: prod.splits sum.splits)
  show ?thesis
  proof (cases cmd)
    case (RunStart c)
    with step have "handle_run_start env c s = (Inr r, t)" by simp
    then show ?thesis
    proof (cases rule: handle_run_start_cases)
      case (refreshed a)
      then have "rc_id a = rc_id c" using assms(2) by (auto simp: daemon_inv_def list_all_iff dest: map_of_SomeD)
      with refreshed assms(2) show ?thesis
        by (simp add: daemon_inv_def AList_update_keys AList_update_length AList_update_all)
    next
      case (rejected m)
      with assms(2) post_event_frame [OF rejected(2)] show ?thesis by (simp add: daemon_inv_def)
    next
      case (started k)
      then have "rc_id c \<notin> fst ` set (dm_active s)" by (simp add: map_of_eq_None_iff)
      with started assms(2) show ?thesis
        by (simp add: daemon_inv_def start_run_def AList_update_new canStartCommand_def)
    qed
  next
    case (RunCancel c)
    with step assms(2) show ?thesis by (auto simp: eff_modify_def daemon_inv_def split: if_splits)
  qed (use step assms(2) in \<open>auto simp: daemon_inv_def dest!: handle_workspace_frame\<close>)
qed

interpretation daemons: guarded_machine "daemon_step env" "\<lambda>_. True" "daemon_inv env" for env :: "('w, 'k :: linorder) loop_env"
  by unfold_locales (rule daemon_step_inv)

lemma new_daemon_inv: "daemon_inv env (new_daemon w now i)"
  by (simp add: daemon_inv_def new_daemon_def)

text \<open>Starts and ends of one command id.\<close>

definition starts_of :: "string \<Rightarrow> 'w daemon \<Rightarrow> nat" where
  "starts_of i s = length (filter (\<lambda>c. rc_id c = i) (dm_started s))"

definition ends_of :: "string \<Rightarrow> daemon_event list \<Rightarrow> nat" where
  "ends_of i es = length (filter (\<lambda>e. e = RunEnds i) es)"

definition running :: "string \<Rightarrow> 'w daemon \<Rightarrow> nat" where
  "running i s = (if map_of (dm_active s) i = None then 0 else 1)"

lemma step_counts:
  assumes "daemon_step env s e = Some t" and "daemon_inv env s"
  shows "starts_of i t + running i s = starts_of i s + running i t + (if e = RunEnds i then 1 else 0)"
proof (cases e)
  case (RunEnds j)
  with assms show ?thesis
    by (auto simp: starts_of_def running_def AList.delete_conv' split: if_splits)
next
  case (Deliver cmd)
  then obtain r where step: "handle_command env cmd s = (Inr r, t)"
    using assms(1) by (auto split: prod.splits sum.splits)
  show ?thesis
  proof (cases cmd)
    case (RunStart c)
    with step have "handle_run_start env c s = (Inr r, t)" by simp
    then show ?thesis
    proof (cases rule: handle_run_start_cases)
      case (rejected m)
      with Deliver post_event_frame [OF rejected(2)] show ?thesis by (simp add: starts_of_def running_def)
    qed (use Deliver in \<open>auto simp: starts_of_def running_def start_run_def AList.update_conv' split: if_splits\<close>)
  next
    case (RunCancel c)
    with step Deliver show ?thesis by (auto simp: eff_modify_def starts_of_def running_def split: if_splits)
  qed (use step Deliver in \<open>auto simp: starts_of_def running_def dest!: handle_workspace_frame\<close>)
qed

lemma run_counts:
  "run_events (daemon_step env) s es = Some t \<Longrightarrow> daemon_inv env s \<Longrightarrow>
   starts_of i t + running i s = starts_of i s + running i t + ends_of i es"
proof (induction es arbitrary: s)
  case (Cons e es)
  then obtain u where u: "daemon_step env s e = Some u" "run_events (daemon_step env) u es = Some t"
    by (auto split: option.splits)
  with Cons.IH [OF u(2)] daemon_step_inv [OF u(1)] step_counts [OF u(1) Cons.prems(2), of i] Cons.prems(2)
  show ?case by (cases "e = RunEnds i") (simp_all add: ends_of_def)
qed (simp add: ends_of_def)

section \<open>Properties\<close>

text \<open>C19. The daemon never runs a command twice at once and never more runs than it has slots: in every state
  reached by any deliveries, redeliveries, cancellations and ends of runs, a command has been started
  exactly as often as its runs have ended, plus one if it is running; and the active runs are at most
  the configured number.\<close>

theorem runs_exactly_once:
  assumes "run_events (daemon_step env) (new_daemon w now interval) es = Some s"
  shows "starts_of i s = ends_of i es + running i s \<and> int (length (dm_active s)) \<le> max 0 (le_maxConcurrentRuns env)"
proof -
  have "daemon_inv env s" using daemons.run_keeps [OF assms _ new_daemon_inv] by (simp add: list_all_iff)
  moreover have "starts_of i s + 0 = 0 + running i s + ends_of i es"
    using run_counts [OF assms new_daemon_inv, of i] by (simp add: new_daemon_def starts_of_def running_def)
  ultimately show ?thesis by (simp add: daemon_inv_def)
qed

text \<open>No \<open>run.start\<close> goes unanswered: it renews the lease of the run it names when that is active, or starts a
  run that has a free slot and, when it works in a durable workspace, one really inside the node's
  root, or a \<open>run.failed\<close> event for it is posted; never two of these.\<close>

theorem run_start_answered:
  "case handle_command env (RunStart c) s of (r, t) \<Rightarrow>
     (case map_of (dm_active s) (rc_id c) of
        Some a \<Rightarrow> r = Inr () \<and> dm_started t = dm_started s \<and> dm_posted t = dm_posted s \<and>
          map_of (dm_active t) = (map_of (dm_active s))(rc_id c \<mapsto> refreshCommandLease a c)
      | None \<Rightarrow>
          (r = Inr () \<and> dm_started t = dm_started s @ [c] \<and> dm_posted t = dm_posted s \<and>
             int (length (dm_active s)) < le_maxConcurrentRuns env \<and> map_of (dm_active t) (rc_id c) = Some c \<and>
             (durableWorkspaceLayout (rc_workspaceLayout c) \<longrightarrow>
               (\<exists>p. sharedWorkspaceKey env (dm_world s) c = Inr (Some p) \<and>
                    really_inside (le_fs env (dm_world s)) (wm_rootPath (le_manager env)) p))) \<or>
          (dm_started t = dm_started s \<and> dm_active t = dm_active s \<and>
             (\<exists>m. dm_posted t = dm_posted s @ [rejection c m])))"
proof -
  obtain r t where rt: "handle_run_start env c s = (r, t)" by (cases "handle_run_start env c s")
  have inside: "\<exists>p. k = Some p \<and> really_inside (le_fs env (dm_world s)) (wm_rootPath (le_manager env)) p"
    if "sharedWorkspaceKey env (dm_world s) c = Inr k" "durableWorkspaceLayout (rc_workspaceLayout c)" for k
    using that by (auto simp: sharedWorkspaceKey_def intro: tw_resolveSubpath_inside split: sum.splits)
  from rt show ?thesis
  proof (cases rule: handle_run_start_cases)
    case (refreshed a)
    with rt show ?thesis by (simp add: AList.update_conv')
  next
    case (rejected m)
    with rt post_event_frame [OF rejected(2)] show ?thesis by auto
  next
    case (started k)
    with rt inside show ?thesis by (auto simp: start_run_def AList.update_conv' canStartCommand_def)
  qed
qed

text \<open>A workspace request can neither fail the daemon nor go unanswered: whatever path or layout it names and
  whatever happens to the post, the handler returns normally after handing over exactly one
  workspace event for it, and no run is touched.\<close>

theorem workspace_request_answered:
  "case handle_command env (if l then WorkspaceList c else WorkspaceRead c) s of (r, t) \<Rightarrow>
     r = Inr () \<and> dm_active t = dm_active s \<and> dm_started t = dm_started s \<and>
     dm_posted t = dm_posted s @ [workspace_event env (dm_world s) l c]"
  by (cases l) (auto dest: handle_workspace_frame split: prod.split)

text \<open>
  The answer to a rejected command is posted outside any \<open>catch\<close>: a client error of the backend, for
  example that the lease is gone, leaves the loop and ends the daemon.
\<close>

lemma rejected_post_ends_daemon:
  assumes "map_of (dm_active s) (rc_id c) = None" and "le_maxConcurrentRuns env \<le> int (length (dm_active s))"
    and "le_post env (rejection c busy_message) (dm_world s) = (Inl (DaemonHttpError ''gone'' 409), w)"
  shows "fst (handle_command env (RunStart c) s) = Inl (DaemonHttpError ''gone'' 409) \<and>
         loop_outcome False (DaemonHttpError ''gone'' 409) = LoopFails (DaemonHttpError ''gone'' 409)"
  using assms by (simp add: handle_run_start_def canStartCommand_def post_event_def eff_defs in_daemon_def loop_outcome_def)

section \<open>Witness\<close>

definition sample_loop :: "(unit, nat) loop_env" where
  "sample_loop = \<lparr>le_maxConcurrentRuns = 1, le_workspacePath = ''/srv'',
     le_manager = plain_manager, le_fs = (\<lambda>_. plain_fs),
     le_read = (\<lambda>_. sample_env), le_post = (\<lambda>_ w. (Inr (), w)), le_register = (\<lambda>_ w. (Inr None, w)),
     le_heartbeat = (\<lambda>_ w. (Inr None, w)), le_discover = (\<lambda>w. (Inr (), w)), le_poll = (\<lambda>_ w. (Inr (Inr []), w)),
     le_now = (\<lambda>_. 0), le_refreshMs = 300000, le_configuredEmployee = False, le_configuredInterval = None\<rparr>"

definition sample_deliveries :: "daemon_event list" where
  "sample_deliveries = [Deliver (RunStart sample_run), Deliver (RunStart (sample_run\<lparr>rc_leaseId := Some ''l2''\<rparr>)),
     RunEnds ''c1'', Deliver (RunStart sample_run)]"

definition sample_daemon_state :: "unit daemon" where
  "sample_daemon_state = (new_daemon () 0 5000)\<lparr>dm_active := [(''c1'', sample_run)], dm_started := [sample_run, sample_run]\<rparr>"

lemma sample_deliveries_run:
  "run_events (daemon_step sample_loop) (new_daemon () 0 5000) sample_deliveries = Some sample_daemon_state"
  by (simp add: sample_deliveries_def sample_loop_def new_daemon_def handle_run_start_def canStartCommand_def
      sharedWorkspaceKey_def durableWorkspaceLayout_def start_run_def sample_run_def sample_daemon_state_def)

theorem runs_exactly_once_witness:
  "starts_of ''c1'' sample_daemon_state = ends_of ''c1'' sample_deliveries + running ''c1'' sample_daemon_state \<and>
   starts_of ''c1'' sample_daemon_state = 2"
  using runs_exactly_once [OF sample_deliveries_run, of "''c1''"]
  by (simp add: sample_daemon_state_def new_daemon_def starts_of_def sample_run_def)

definition project_run :: run_command where
  "project_run = sample_run\<lparr>rc_workspaceLayout := Some project_layout, rc_workspaceSubpath := Some ''p/q''\<rparr>"

theorem run_start_answered_witness:
  "\<exists>p. sharedWorkspaceKey sample_loop () project_run = Inr (Some p) \<and> really_inside plain_fs ''/srv'' p"
proof -
  have "sharedWorkspaceKey sample_loop () project_run = Inr (Some ''/srv/p/q'')"
    by (simp add: sharedWorkspaceKey_def durableWorkspaceLayout_def requiredWorkspaceSubpath_def project_run_def
        sample_run_def sample_loop_def plain_subpath)
  then have step: "handle_command sample_loop (RunStart project_run) (new_daemon () 0 5000) =
      (Inr (), start_run project_run (new_daemon () 0 5000))"
    by (simp add: handle_run_start_def new_daemon_def canStartCommand_def sample_loop_def)
  show ?thesis
    using run_start_answered [where env = sample_loop and c = project_run and s = "new_daemon () 0 5000"]
    unfolding step by (auto simp: new_daemon_def project_run_def sample_run_def sample_loop_def
        start_run_def durableWorkspaceLayout_def plain_manager_def)
qed

end
