(* ===== verification/Shell_Words.thy ===== *)
theory Shell_Words
  imports Relay_Prelude
begin

text \<open>
  Building shell commands: \<open>packages/relay-core/src/shell.ts\<close>, and what a POSIX shell makes of such a
  text. \<open>sh_tokens\<close> is a reference tokenizer for the part of the shell grammar without expansions:
  blanks, operators, single quotes and backslashes; for any other special character it gives no
  answer (\<open>None\<close>).
\<close>

section \<open>The code\<close>

definition quote_mark :: char where "quote_mark = CHR 0x27"
definition backslash :: char where "backslash = CHR 0x5C"

definition shell_safe :: "char \<Rightarrow> bool" where
  "shell_safe c \<longleftrightarrow> (let n = (of_char c :: nat) in (65 \<le> n \<and> n \<le> 90) \<or> (97 \<le> n \<and> n \<le> 122) \<or> (48 \<le> n \<and> n \<le> 57)) \<or>
     c \<in> set ''_@%+=:,./-''"

definition escape_quotes :: "string \<Rightarrow> string" where
  "escape_quotes v = concat (map (\<lambda>c. if c = quote_mark then [quote_mark, backslash, quote_mark, quote_mark] else [c]) v)"

definition shellQuote :: "string \<Rightarrow> string" where
  "shellQuote v =
     (if v = [] then [quote_mark, quote_mark]
      else if list_all shell_safe v then v
      else quote_mark # escape_quotes v @ [quote_mark])"

definition shellCommand :: "string list \<Rightarrow> string" where
  "shellCommand argv = js_join '' '' (map shellQuote argv) @ '' < /dev/null''"

definition escapeRegExp :: "string \<Rightarrow> string" where
  "escapeRegExp v = concat (map (\<lambda>c. if c \<in> set ''.*+?^${}()|[]'' \<or> c = backslash then [backslash, c] else [c]) v)"

section \<open>The shell\<close>

datatype sh_token = Word string | Op char

datatype sh_mode = Unquoted | Quoted | Escaped

definition sh_blank :: "char \<Rightarrow> bool" where
  "sh_blank c \<longleftrightarrow> c = CHR '' '' \<or> c = CHR 0x09"

definition sh_operator :: "char \<Rightarrow> bool" where
  "sh_operator c \<longleftrightarrow> c \<in> set ''&|;<>()'' \<or> c = CHR 0x0A"

fun flush_word :: "string option \<Rightarrow> sh_token list" where
  "flush_word None = []"
| "flush_word (Some w) = [Word w]"

fun word_so_far :: "string option \<Rightarrow> string" where
  "word_so_far None = []"
| "word_so_far (Some w) = w"

fun sh_scan :: "sh_mode \<Rightarrow> string option \<Rightarrow> string \<Rightarrow> sh_token list option" where
  "sh_scan Unquoted w [] = Some (flush_word w)"
| "sh_scan _ w [] = None"
| "sh_scan Quoted w (c # cs) =
     (if c = quote_mark then sh_scan Unquoted w cs else sh_scan Quoted (Some (word_so_far w @ [c])) cs)"
| "sh_scan Escaped w (c # cs) =
     (if c = CHR 0x0A then sh_scan Unquoted w cs else sh_scan Unquoted (Some (word_so_far w @ [c])) cs)"
| "sh_scan Unquoted w (c # cs) =
     (if sh_blank c then map_option ((@) (flush_word w)) (sh_scan Unquoted None cs)
      else if sh_operator c then map_option ((@) (flush_word w @ [Op c])) (sh_scan Unquoted None cs)
      else if c = quote_mark then sh_scan Quoted (Some (word_so_far w)) cs
      else if c = backslash then sh_scan Escaped w cs
      else if shell_safe c then sh_scan Unquoted (Some (word_so_far w @ [c])) cs
      else None)"

definition sh_tokens :: "string \<Rightarrow> sh_token list option" where
  "sh_tokens s = sh_scan Unquoted None s"

section \<open>Quoted text is one word\<close>

lemma shell_safe_plain: "shell_safe c \<Longrightarrow> \<not> sh_blank c \<and> \<not> sh_operator c \<and> c \<noteq> quote_mark \<and> c \<noteq> backslash"
  by (auto simp: shell_safe_def sh_blank_def sh_operator_def quote_mark_def backslash_def Let_def)

lemma quote_mark_special [simp]: "\<not> sh_blank quote_mark" "\<not> sh_operator quote_mark" "\<not> sh_blank backslash" "\<not> sh_operator backslash"
  "quote_mark \<noteq> backslash" "backslash \<noteq> quote_mark" "quote_mark \<noteq> CHR 0x0A"
  by (simp_all add: sh_blank_def sh_operator_def quote_mark_def backslash_def)

lemma blank_simps [simp]: "sh_blank CHR '' ''" "\<not> sh_blank CHR ''&''" "\<not> sh_blank CHR ''<''" "sh_operator CHR ''&''" "sh_operator CHR ''<''"
  "\<not> sh_blank CHR '';''" "sh_operator CHR '';''" "\<not> sh_operator CHR '' ''"
  by (simp_all add: sh_blank_def sh_operator_def)

lemma scan_safe:
  "list_all shell_safe v \<Longrightarrow> v \<noteq> [] \<or> w \<noteq> None \<Longrightarrow>
   sh_scan Unquoted w (v @ rest) = sh_scan Unquoted (Some (word_so_far w @ v)) rest"
proof (induction v arbitrary: w)
  case (Cons c cs)
  then show ?case using shell_safe_plain [of c] by simp
qed auto

lemma scan_escaped: "sh_scan Quoted (Some w) (escape_quotes v @ quote_mark # rest) = sh_scan Unquoted (Some (w @ v)) rest"
  by (induction v arbitrary: w) (simp_all add: escape_quotes_def)

lemma scan_shellQuote:
  "sh_scan Unquoted w (shellQuote v @ rest) = sh_scan Unquoted (Some (word_so_far w @ v)) rest"
  by (simp add: shellQuote_def scan_safe scan_escaped)

text \<open>What is tokenized before a blank does not depend on what comes after it.\<close>

lemma scan_blank_append:
  "sh_scan m w a = Some ts \<Longrightarrow> sh_scan m w (a @ CHR '' '' # b) = map_option ((@) ts) (sh_scan Unquoted None b)"
proof (induction m w a arbitrary: ts rule: sh_scan.induct)
  case (5 w c cs)
  then show ?case
    by (cases "sh_scan Unquoted None b") (auto split: if_splits simp: option.map_comp comp_def)
qed (auto split: if_splits)

lemma scan_operator_append:
  "sh_scan m w a = Some ts \<Longrightarrow> sh_operator c \<Longrightarrow> \<not> sh_blank c \<Longrightarrow>
   sh_scan m w (a @ c # b) = map_option ((@) (ts @ [Op c])) (sh_scan Unquoted None b)"
proof (induction m w a arbitrary: ts rule: sh_scan.induct)
  case (5 w d cs)
  then show ?case
    by (cases "sh_scan Unquoted None b") (auto split: if_splits simp: option.map_comp comp_def)
qed (auto split: if_splits)

lemma tokens_blank:
  "sh_tokens a = Some ts \<Longrightarrow> sh_tokens b = Some us \<Longrightarrow> sh_tokens (a @ CHR '' '' # b) = Some (ts @ us)"
  by (simp add: sh_tokens_def scan_blank_append)

lemma tokens_shellQuote [simp]: "sh_tokens (shellQuote v) = Some [Word v]"
  using scan_shellQuote [of None v "[]"] by (simp add: sh_tokens_def)

lemma tokens_assign:
  "list_all shell_safe k \<Longrightarrow> k \<noteq> [] \<Longrightarrow> sh_tokens (k @ shellQuote v) = Some [Word (k @ v)]"
  using scan_shellQuote [of "Some k" v "[]"] by (simp add: sh_tokens_def scan_safe)

lemma tokens_words: "sh_tokens (js_join '' '' (map shellQuote argv)) = Some (map Word argv)"
proof (induction argv)
  case Nil
  then show ?case by (simp add: sh_tokens_def)
next
  case (Cons a argv)
  show ?case
  proof (cases argv)
    case Nil
    then show ?thesis by simp
  next
    case (Cons b bs)
    with Cons.IH tokens_blank [of "shellQuote a" "[Word a]"] show ?thesis by simp
  qed
qed

definition ampersands :: "sh_token list" where
  "ampersands = [Op CHR ''&'', Op CHR ''&'']"

text \<open>A list of commands joined by \<open>&&\<close>.\<close>

lemma tokens_and:
  assumes "sh_tokens a = Some ts" and "sh_tokens b = Some us"
  shows "sh_tokens (a @ '' && '' @ b) = Some (ts @ ampersands @ us)"
  using assms by (simp add: sh_tokens_def scan_blank_append ampersands_def)

fun and_list :: "sh_token list list \<Rightarrow> sh_token list" where
  "and_list [] = []"
| "and_list [ts] = ts"
| "and_list (ts # us # rest) = ts @ ampersands @ and_list (us # rest)"

lemma tokens_and_list:
  "list_all2 (\<lambda>p ts. sh_tokens p = Some ts) ps tss \<Longrightarrow> ps \<noteq> [] \<Longrightarrow> sh_tokens (js_join '' && '' ps) = Some (and_list tss)"
proof (induction ps tss rule: list_all2_induct)
  case (Cons p ps ts tss)
  show ?case
  proof (cases ps)
    case Nil
    with Cons show ?thesis by simp
  next
    case (Cons q qs)
    with Cons.hyps obtain us uss where tss: "tss = us # uss" by (auto simp: list_all2_Cons1)
    from Cons.IH Cons have "sh_tokens (js_join '' && '' ps) = Some (and_list tss)" by simp
    with tokens_and [OF Cons.hyps(1) this] Cons tss show ?thesis by simp
  qed
qed simp

definition redirected :: "string list \<Rightarrow> sh_token list" where
  "redirected argv = map Word argv @ [Op CHR ''<'', Word ''/dev/null'']"

lemma tokens_shellCommand: "sh_tokens (shellCommand argv) = Some (redirected argv)"
proof -
  have "sh_tokens ''< /dev/null'' = Some [Op CHR ''<'', Word ''/dev/null'']"
    by (simp add: sh_tokens_def shell_safe_def sh_blank_def sh_operator_def quote_mark_def backslash_def)
  with tokens_blank [OF tokens_words] show ?thesis by (simp add: shellCommand_def redirected_def)
qed

end
