(* ===== verification/Agent_Environment.thy ===== *)
theory Agent_Environment
  imports Agent_State File_Paths
begin

text \<open>
  What a coding agent finds in its environment: the credential resolvers of
  \<open>packages/relay-core/src/env.ts\<close> and \<open>guest.ts\<close>, and the environment in which \<open>relay-daemon/src/index.ts\<close>
  starts the processes of a local node. \<open>process.env\<close> is a map; \<open>new URL\<close> is a parameter.
\<close>

type_synonym process_env = "string \<rightharpoonup> string"

section \<open>Provider settings\<close>

text \<open>\<open>a || b\<close> on optional strings: the last operand is returned even when it is falsy.\<close>

definition js_or :: "string option \<Rightarrow> string option \<Rightarrow> string option" where
  "js_or a b = (if js_truthy a then a else b)"

definition openaiApiKey :: "process_env \<Rightarrow> string option" where
  "openaiApiKey p = js_or (p ''OPENAI_API_KEY'') (js_or (p ''CODEX_API_KEY'') (p ''LLM_API_KEY''))"

definition openaiBaseUrl :: "process_env \<Rightarrow> string option" where
  "openaiBaseUrl p = js_or (p ''OPENAI_BASE_URL'') (p ''LLM_BASE_URL'')"

definition openaiModel :: "process_env \<Rightarrow> string option" where
  "openaiModel p = js_or (p ''OPENAI_MODEL'') (p ''LLM_MODEL'')"

definition anthropicApiKey :: "process_env \<Rightarrow> string option" where
  "anthropicApiKey p = js_or (p ''ANTHROPIC_API_KEY'') (p ''CLAUDE_API_KEY'')"

definition anthropicBaseUrl :: "process_env \<Rightarrow> string option" where
  "anthropicBaseUrl p = js_or (p ''ANTHROPIC_BASE_URL'') (p ''CLAUDE_BASE_URL'')"

definition anthropicModel :: "process_env \<Rightarrow> string option" where
  "anthropicModel p = js_or (p ''ANTHROPIC_MODEL'') (p ''CLAUDE_MODEL'')"

definition kimiApiKey :: "process_env \<Rightarrow> string option" where
  "kimiApiKey p = js_or (p ''KIMI_API_KEY'') (p ''MOONSHOT_API_KEY'')"

definition kimiBaseUrl :: "process_env \<Rightarrow> string option" where
  "kimiBaseUrl p = js_or (p ''KIMI_BASE_URL'') (p ''MOONSHOT_BASE_URL'')"

definition kimiModel :: "process_env \<Rightarrow> string option" where
  "kimiModel p = js_or (p ''KIMI_MODEL'') (p ''MOONSHOT_MODEL'')"

definition requireOpenaiApiKey :: "process_env \<Rightarrow> string + string" where
  "requireOpenaiApiKey p =
     (if js_truthy (openaiApiKey p) then Inr (the (openaiApiKey p))
      else Inl (''OPENAI_API_KEY (or CODEX_API_KEY) is required for Codex. '' @
                ''Set it in packages/.env or a package-local .env file.''))"

text \<open>A parsed URL: \<open>protocol\<close>, \<open>hostname\<close> and \<open>port\<close>; \<open>None\<close> is the thrown error.\<close>

record url_parts =
  up_protocol :: string
  up_hostname :: string
  up_port :: string

type_synonym url_parser = "string \<Rightarrow> url_parts option"

definition minimaxPiProviderForBaseUrl :: "url_parser \<Rightarrow> string option \<Rightarrow> string option" where
  "minimaxPiProviderForBaseUrl url baseUrl =
     (if \<not> js_truthy baseUrl then None
      else let hostname = map js_lower (case url (the baseUrl) of Some u \<Rightarrow> up_hostname u | None \<Rightarrow> the baseUrl)
           in if hostname = ''api.minimaxi.com'' \<or> js_ends_with hostname ''.minimaxi.com'' then Some ''minimax-cn''
              else if hostname = ''api.minimax.io'' \<or> js_ends_with hostname ''.minimax.io'' then Some ''minimax''
              else None)"

definition minimaxAnthropicBaseUrl :: "url_parser \<Rightarrow> string \<Rightarrow> string option" where
  "minimaxAnthropicBaseUrl url baseUrl =
     (if minimaxPiProviderForBaseUrl url (Some baseUrl) = None then None
      else case url baseUrl of None \<Rightarrow> None
           | Some u \<Rightarrow> Some (up_protocol u @ ''//'' @ up_hostname u @
               (if up_port u = [] then [] else CHR '':'' # up_port u) @ ''/anthropic''))"

definition piSourceBaseUrl :: "process_env \<Rightarrow> string option" where
  "piSourceBaseUrl p = js_or (p ''PI_BASE_URL'') (openaiBaseUrl p)"

definition piModel :: "process_env \<Rightarrow> string option" where
  "piModel p = js_or (p ''PI_MODEL'') (openaiModel p)"

definition piProvider :: "url_parser \<Rightarrow> process_env \<Rightarrow> string" where
  "piProvider url p =
     (if js_truthy (p ''PI_PROVIDER'') then the (p ''PI_PROVIDER'')
      else case minimaxPiProviderForBaseUrl url (piSourceBaseUrl p) of
             Some provider \<Rightarrow> provider
           | None \<Rightarrow> if js_truthy (piSourceBaseUrl p) then ''openai''
                     else if js_truthy (anthropicApiKey p) then ''anthropic''
                     else if js_truthy (openaiApiKey p) then ''openai'' else ''anthropic'')"

text \<open>\<open>PI_NATIVE_BASE_URL_PROVIDERS\<close> is the empty set.\<close>

definition piBaseUrl :: "url_parser \<Rightarrow> process_env \<Rightarrow> string option" where
  "piBaseUrl url p =
     (if js_truthy (p ''PI_BASE_URL'') then p ''PI_BASE_URL''
      else if \<not> js_truthy (openaiBaseUrl p) then None
      else js_coalesce (minimaxAnthropicBaseUrl url (the (openaiBaseUrl p))) (openaiBaseUrl p))"

definition piApi :: "url_parser \<Rightarrow> process_env \<Rightarrow> string" where
  "piApi url p =
     (if js_truthy (p ''PI_API'') then the (p ''PI_API'')
      else if piProvider url p \<in> {''anthropic'', ''minimax'', ''minimax-cn''} then ''anthropic-messages''
      else ''openai-completions'')"

definition piApiKey :: "url_parser \<Rightarrow> process_env \<Rightarrow> string option" where
  "piApiKey url p =
     (if js_truthy (p ''PI_API_KEY'') then p ''PI_API_KEY''
      else if piProvider url p = ''anthropic'' then js_or (anthropicApiKey p) (openaiApiKey p)
      else js_or (openaiApiKey p) (anthropicApiKey p))"

definition requirePiConfig :: "url_parser \<Rightarrow> process_env \<Rightarrow> string + unit" where
  "requirePiConfig url p =
     (if js_truthy (piBaseUrl url p) \<and> \<not> js_truthy (piModel p)
      then Inl (''PI_MODEL or OPENAI_MODEL is required for Pi when using an '' @ ''OpenAI/Anthropic-compatible base URL.'')
      else if \<not> js_truthy (piApiKey url p)
      then Inl ''Pi requires PI_API_KEY, OPENAI_API_KEY/CODEX_API_KEY, or ANTHROPIC_API_KEY.''
      else Inr ())"

section \<open>Credentials of one agent\<close>

definition AGENT_CREDENTIAL_ENV_NAMES :: "AgentName \<Rightarrow> string list" where
  "AGENT_CREDENTIAL_ENV_NAMES a = (case a of
       Claude \<Rightarrow> [''ANTHROPIC_API_KEY'', ''ANTHROPIC_BASE_URL'', ''ANTHROPIC_MODEL'']
     | Codex \<Rightarrow> [''OPENAI_API_KEY'', ''CODEX_API_KEY'', ''OPENAI_BASE_URL'', ''OPENAI_MODEL'']
     | Pi \<Rightarrow> [''PI_API_KEY'', ''PI_BASE_URL'', ''PI_MODEL'', ''PI_PROVIDER'', ''PI_API'']
     | Kimi \<Rightarrow> [''KIMI_API_KEY'', ''KIMI_BASE_URL'', ''KIMI_MODEL'',
               ''MOONSHOT_API_KEY'', ''MOONSHOT_BASE_URL'', ''MOONSHOT_MODEL''])"

definition pushEnv :: "string \<Rightarrow> string option \<Rightarrow> (string \<times> string) list" where
  "pushEnv key v = (if js_truthy v then [(key, the v)] else [])"

definition agentCredentialEnv :: "url_parser \<Rightarrow> process_env \<Rightarrow> AgentName \<Rightarrow> (string \<times> string) list" where
  "agentCredentialEnv url p a = (case a of
       Claude \<Rightarrow> pushEnv ''ANTHROPIC_API_KEY'' (anthropicApiKey p) @ pushEnv ''ANTHROPIC_BASE_URL'' (anthropicBaseUrl p) @
         pushEnv ''ANTHROPIC_MODEL'' (anthropicModel p)
     | Codex \<Rightarrow> pushEnv ''OPENAI_API_KEY'' (openaiApiKey p) @ pushEnv ''CODEX_API_KEY'' (openaiApiKey p) @
         pushEnv ''OPENAI_BASE_URL'' (openaiBaseUrl p) @ pushEnv ''OPENAI_MODEL'' (openaiModel p)
     | Pi \<Rightarrow> concat (map (\<lambda>key. pushEnv key (p key)) (AGENT_CREDENTIAL_ENV_NAMES Pi)) @
         (if js_truthy (p ''PI_API_KEY'') then [] else pushEnv ''PI_API_KEY'' (piApiKey url p))
     | Kimi \<Rightarrow> concat (map (\<lambda>key. pushEnv key (p key)) (AGENT_CREDENTIAL_ENV_NAMES Kimi)))"

definition allAgentCredentialEnvNames :: "string list" where
  "allAgentCredentialEnvNames = remdups (concat (map AGENT_CREDENTIAL_ENV_NAMES [Claude, Codex, Pi, Kimi]))"

section \<open>The environment of a local agent process\<close>

definition AGENT_SUBPROCESS_ENV_DENY :: "string list" where
  "AGENT_SUBPROCESS_ENV_DENY = [''DATABASE_URL'', ''RELAY_CONTROL_PANEL_VERSION'', ''RELAY_DATABASE_URL'',
     ''RELAY_DATA_DIR'', ''RELAY_EMPLOYEE_ID'', ''RELAY_ENROLLMENT_TOKEN'', ''RELAY_SANDBOX_ID'', ''RELAY_SANDBOX_MODE'',
     ''RELAY_STORAGE'', ''RELAY_USE_LOCAL_AGENT_HOME'', ''RELAY_WEB_UI_DIST_DIR'']"

definition AGENT_SUBPROCESS_ENV_DENY_PREFIXES :: "string list" where
  "AGENT_SUBPROCESS_ENV_DENY_PREFIXES = [''RELAY_ADMIN_'', ''RELAY_AUTH_'', ''RELAY_BACKEND_'', ''RELAY_CHAT_'',
     ''RELAY_DAEMON_'', ''RELAY_SUPERVISOR_'', ''RELAY_TASK_SCHEDULER_'']"

definition isDeniedAgentSubprocessEnv :: "string \<Rightarrow> bool" where
  "isDeniedAgentSubprocessEnv key \<longleftrightarrow>
     key \<in> set AGENT_SUBPROCESS_ENV_DENY \<or> list_ex (js_starts_with key) AGENT_SUBPROCESS_ENV_DENY_PREFIXES"

definition agentHomePath :: "process_env \<Rightarrow> string" where
  "agentHomePath p = (if js_truthy (p ''RELAY_AGENT_HOME'') then the (p ''RELAY_AGENT_HOME'') else ''/home/agent'')"

definition home_variables :: "string \<Rightarrow> process_env" where
  "home_variables home = [''HOME'' \<mapsto> home, ''CODEX_HOME'' \<mapsto> path_join home ''.codex'',
     ''PI_CODING_AGENT_DIR'' \<mapsto> path_join (path_join home ''.pi'') ''agent'',
     ''KIMI_CODE_HOME'' \<mapsto> path_join home ''.kimi-code'']"

definition localAgentSubprocessEnv :: "process_env \<Rightarrow> process_env" where
  "localAgentSubprocessEnv p =
     (\<lambda>key. if isDeniedAgentSubprocessEnv key \<or> key \<in> set allAgentCredentialEnvNames then None else p key)
       ++ home_variables (agentHomePath p)"

text \<open>
  \<open>Object.fromEntries\<close> (the last entry of a key wins) and the spread \<open>\{ ...env, ...options.env \}\<close> with
  which \<open>localProcessExecStream\<close> starts the process; \<open>runAgentNode\<close> passes the agent's credentials.
\<close>

definition from_entries :: "(string \<times> string) list \<Rightarrow> process_env" where
  "from_entries es = map_of (rev es)"

definition local_process_env :: "process_env \<Rightarrow> process_env \<Rightarrow> process_env" where
  "local_process_env p extra = localAgentSubprocessEnv p ++ extra"

definition agent_process_env :: "url_parser \<Rightarrow> process_env \<Rightarrow> AgentName \<Rightarrow> process_env" where
  "agent_process_env url p a = local_process_env p (from_entries (agentCredentialEnv url p a))"

section \<open>Facts\<close>

lemma pushEnv_keys: "fst ` set (pushEnv key v) \<subseteq> {key}"
  by (auto simp: pushEnv_def)


lemma credential_truthy: "(k, v) \<in> set (agentCredentialEnv url p a) \<Longrightarrow> v \<noteq> []"
proof -
  have "(k, v) \<in> set (pushEnv key x) \<Longrightarrow> v \<noteq> []" for key x
    by (cases x) (auto simp: pushEnv_def split: if_splits)
  then show "(k, v) \<in> set (agentCredentialEnv url p a) \<Longrightarrow> v \<noteq> []"
    by (cases a) (auto simp: agentCredentialEnv_def split: if_splits)
qed


lemma names_disjoint: "a \<noteq> b \<Longrightarrow> set (AGENT_CREDENTIAL_ENV_NAMES a) \<inter> set (AGENT_CREDENTIAL_ENV_NAMES b) = {}"
  by (cases a; cases b) (simp_all add: AGENT_CREDENTIAL_ENV_NAMES_def)




lemma from_entries_key: "from_entries es k = Some v \<Longrightarrow> (k, v) \<in> set es"
  by (metis from_entries_def map_of_SomeD set_rev)


section \<open>Properties\<close>


text \<open>
  The resolvers also read older names (\<open>CLAUDE_API_KEY\<close>, \<open>LLM_API_KEY\<close> and their URLs and models), which
  the daemon does not strip: every local agent inherits them.
\<close>

lemma alias_credential_inherited:
  "agent_process_env url [''CLAUDE_API_KEY'' \<mapsto> ''sk''] Kimi ''CLAUDE_API_KEY'' = Some ''sk''"
  "from_entries (agentCredentialEnv url [''CLAUDE_API_KEY'' \<mapsto> ''sk''] Claude) ''ANTHROPIC_API_KEY'' = Some ''sk''"
  by (simp_all add: agent_process_env_def local_process_env_def localAgentSubprocessEnv_def isDeniedAgentSubprocessEnv_def
      AGENT_SUBPROCESS_ENV_DENY_def AGENT_SUBPROCESS_ENV_DENY_PREFIXES_def allAgentCredentialEnvNames_def home_variables_def
      AGENT_CREDENTIAL_ENV_NAMES_def from_entries_def agentCredentialEnv_def pushEnv_def anthropicApiKey_def
      anthropicBaseUrl_def anthropicModel_def js_or_def map_add_def)

end
