(* ===== verification/Agent_Command.thy ===== *)
theory Agent_Command
  imports Shell_Words Agent_Environment
begin

text \<open>
  From the state of a run to the command line of its agent: the prompt of
  \<open>packages/relay-core/src/prompts.ts\<close>, the wrapper and configuration files of \<open>guest.ts\<close> and the
  commands of \<open>commands.ts\<close>. \<open>p\<close> is \<open>process.env\<close>, \<open>sess\<close> the module variable \<open>sessionGuestEnv\<close>;
  \<open>JSON.stringify\<close> and \<open>new URL\<close> are parameters.
\<close>

section \<open>The prompt\<close>

definition context_text :: "agent_state \<Rightarrow> string \<Rightarrow> string option" where
  "context_text st k = truthy_or_none (json_string (map_of (as_context st) k))"

fun string_items :: "json option \<Rightarrow> string list" where
  "string_items (Some (JArr xs)) = concat (map (\<lambda>x. case x of JStr s \<Rightarrow> [s] | _ \<Rightarrow> []) xs)"
| "string_items _ = []"

definition text_lines :: "string list \<Rightarrow> string" where
  "text_lines ls = js_join newline ls"

definition optional_prelude :: "string option \<Rightarrow> (string \<Rightarrow> string list) \<Rightarrow> string list" where
  "optional_prelude v f = (case v of None \<Rightarrow> [] | Some s \<Rightarrow> [text_lines (f s)])"

definition execution_policy :: "agent_state \<Rightarrow> string" where
  "execution_policy st = text_lines ([''[Execution policy]'',
     ''Decide the smallest useful way to handle the user's goal.'',
     ''You may answer directly, investigate, plan, modify the workspace, validate, or ask for missing input.'',
     ''Do not change files merely because write access is available; do change them when that is needed to complete the goal.''] @
     (if context_text st ''team_phase'' \<noteq> None
      then [''Respond to the prior teammates' work directly: refine it, challenge it, implement the next distinct part, or validate it.'',
            ''Avoid repeating completed work and leave the shared thread and workspace clearer for the next teammate.'']
      else []))"

definition work_item_prelude :: "agent_state \<Rightarrow> string \<Rightarrow> string list" where
  "work_item_prelude st item =
     [''[Delegated work item]'', ''Work item: '' @ item @ ''.''] @
     (if map_of (as_context st) ''delegation_authority'' = Some (JStr ''conductor'')
      then [''Assigned by the collaboration conductor from the immutable round policy.''] else []) @
     (let ids = string_items (map_of (as_context st) ''depends_on_work_item_ids'')
      in if ids \<noteq> [] then [''Prerequisite work items: '' @ js_join '', '' ids @ ''.'']
         else [''This work item has no prerequisites.'']) @
     [''Own this work item only; treat prerequisite results as completed team context.'']"

definition backtick :: string where "backtick = [CHR 0x60]"
definition dquote :: string where "dquote = [CHR 0x22]"

definition promptPreludes :: "agent_state \<Rightarrow> string list" where
  "promptPreludes st = (let field = context_text st in
     [execution_policy st] @
     optional_prelude (field ''agent_display_name'') (\<lambda>s. [''[Agent identity]'', ''Your name is '' @ s @ ''.'']) @
     optional_prelude (field ''agent_role'') (\<lambda>s. [''[Role]'', ''You are the '' @ s @ '' on this task.'',
       ''Other agents on the thread hold the other roles; do your own and rely on theirs.'']) @
     optional_prelude (field ''assignment_brief'') (\<lambda>s. [''[Your assignment]'', s,
       ''Treat the user task below as the shared team goal; own this assignment boundary and preserve completed teammate work.'']) @
     optional_prelude (field ''work_item_id'') (work_item_prelude st) @
     optional_prelude (field ''team_phase'') (\<lambda>s. [''[Team phase]'', ''This assignment is in the '' @ s @ '' phase.'']) @
     optional_prelude (field ''agent_instructions'') (\<lambda>s. [''[Agent personality]'',
       ''Apply this personality consistently throughout the task.'', s]) @
     optional_prelude (field ''agent_home_subdir'') (\<lambda>s. [''[Workspace]'',
       ''The current directory is the workspace for this thread; files here are shared with the other agents participating in this thread.'',
       ''Your private directory is '' @ backtick @ s @ ''/'' @ backtick @
         ''; keep personal state there and collaborate through the shared workspace.'']) @
     optional_prelude (field ''round_result_file'') (\<lambda>s. [''[Finishing]'',
       ''When you stop, write '' @ backtick @ s @ backtick @ '' as JSON: {'' @ dquote @ ''status'' @ dquote @ '': '' @
         dquote @ ''done'' @ dquote @ '' | '' @ dquote @ ''continue'' @ dquote @ '' | '' @ dquote @ ''blocked'' @ dquote @ '', '' @
         dquote @ ''note'' @ dquote @ '': '' @ dquote @ ''<one line>'' @ dquote @ ''}.'',
       dquote @ ''done'' @ dquote @ '' means the task is complete, '' @ dquote @ ''continue'' @ dquote @
         '' means real work remains, '' @ dquote @ ''blocked'' @ dquote @ '' means you cannot proceed without a human.'',
       ''This file is how the task is closed out; without it the task waits for a person.'']) @
     optional_prelude (field ''repair_note'') (\<lambda>s. [''[Repair]'', s]) @
     optional_prelude (field ''progress_file'') (\<lambda>s. [''[Progress log]'',
       backtick @ s @ backtick @ '' in the workspace is this task's durable record across turns and agents.'',
       ''Read it before you start; the conversation below may be truncated, but this file is not.'',
       ''Before you finish, update it: what you decided, what is done, what is left, and anything the next agent would otherwise have to rediscover.'']) @
     optional_prelude (field ''prior_conversation'') (\<lambda>s. [s]) @
     optional_prelude (field ''prior_agent_bridge'') (\<lambda>s. [s]) @
     optional_prelude (field ''prior_handoff_note'') (\<lambda>s. [s]))"

definition user_heading :: string where
  "user_heading = newline @ newline @ ''[User]'' @ newline"

definition agentTaskPrompt :: "agent_state \<Rightarrow> string" where
  "agentTaskPrompt st =
     (if promptPreludes st = [] then as_task_goal st
      else js_join (newline @ newline) (promptPreludes st) @ user_heading @ as_task_goal st)"

section \<open>Running as the agent\<close>

definition AGENT_USER :: string where "AGENT_USER = ''agent''"
definition DEFAULT_GUEST_WORKSPACE :: string where "DEFAULT_GUEST_WORKSPACE = ''/workspace''"

definition agentWorkspacePath :: "process_env \<Rightarrow> string" where
  "agentWorkspacePath p =
     (if js_truthy (p ''RELAY_AGENT_WORKSPACE'') then the (p ''RELAY_AGENT_WORKSPACE'') else DEFAULT_GUEST_WORKSPACE)"

definition workspace_or_default :: "process_env \<Rightarrow> string option \<Rightarrow> string" where
  "workspace_or_default p ws = (case ws of Some w \<Rightarrow> w | None \<Rightarrow> agentWorkspacePath p)"

definition envExports :: "(string \<times> string) list \<Rightarrow> string" where
  "envExports env = js_join '' && '' (map (\<lambda>(k, v). ''export '' @ (k @ ''='') @ shellQuote v) env)"

definition export_home :: "string \<Rightarrow> string \<Rightarrow> string" where
  "export_home k v = ''export '' @ (k @ ''='') @ shellQuote v"

definition current_user :: "process_env \<Rightarrow> bool" where
  "current_user p \<longleftrightarrow> p ''RELAY_RUN_AS_CURRENT_USER'' = Some ''1''"

definition home_exports :: "process_env \<Rightarrow> string list" where
  "home_exports p =
     (if current_user p
      then let home = agentHomePath p in
        [export_home ''HOME'' home, export_home ''CODEX_HOME'' (home @ ''/.codex''),
         export_home ''PI_CODING_AGENT_DIR'' (home @ ''/.pi/agent''), export_home ''KIMI_CODE_HOME'' (home @ ''/.kimi-code'')]
      else [''export HOME=/home/agent'', ''export CODEX_HOME=/home/agent/.codex'',
            ''export PI_CODING_AGENT_DIR=/home/agent/.pi/agent'', ''export KIMI_CODE_HOME=/home/agent/.kimi-code'',
            ''export PATH=/usr/local/sbin:/usr/local/bin:/usr/sbin:/usr/bin:/sbin:/bin'', ''umask 002''])"

definition agent_script_parts :: "process_env \<Rightarrow> (string \<times> string) list \<Rightarrow> string \<Rightarrow> string option \<Rightarrow> string list" where
  "agent_script_parts p sess cmd ws =
     filter (\<lambda>s. s \<noteq> []) (home_exports p @ [envExports sess, ''cd '' @ shellQuote (workspace_or_default p ws), cmd])"

definition agent_script :: "process_env \<Rightarrow> (string \<times> string) list \<Rightarrow> string \<Rightarrow> string option \<Rightarrow> string" where
  "agent_script p sess cmd ws = js_join '' && '' (agent_script_parts p sess cmd ws)"

definition runAsAgent :: "process_env \<Rightarrow> (string \<times> string) list \<Rightarrow> string \<Rightarrow> string option \<Rightarrow> string" where
  "runAsAgent p sess cmd ws =
     (if current_user p then agent_script p sess cmd ws
      else ''su '' @ AGENT_USER @ '' -s /bin/bash -c '' @ shellQuote (agent_script p sess cmd ws))"

section \<open>The commands\<close>

definition codexMultiAgentEnabled :: "process_env \<Rightarrow> bool" where
  "codexMultiAgentEnabled p =
     (case p ''RELAY_CODEX_MULTI_AGENT'' of None \<Rightarrow> True
      | Some v \<Rightarrow> map js_lower (js_trim v) \<notin> {''0'', ''false'', ''off''})"

definition show_bool :: "bool \<Rightarrow> string" where
  "show_bool b = (if b then ''true'' else ''false'')"

definition codexCliConfigOverrides :: "(json \<Rightarrow> string) \<Rightarrow> process_env \<Rightarrow> string list" where
  "codexCliConfigOverrides stringify p =
     [''-c'', ''model_provider='' @ dquote @ ''dashscope'' @ dquote,
      ''-c'', ''features.multi_agent='' @ show_bool (codexMultiAgentEnabled p)] @
     (if js_truthy (openaiModel p) then [''-c'', ''model='' @ stringify (JStr (the (openaiModel p)))] else []) @
     (if js_truthy (openaiBaseUrl p)
      then [''-c'', ''model_providers.dashscope.name='' @ dquote @ ''DashScope'' @ dquote,
            ''-c'', ''model_providers.dashscope.base_url='' @ stringify (JStr (the (openaiBaseUrl p))),
            ''-c'', ''model_providers.dashscope.env_key='' @ dquote @ ''OPENAI_API_KEY'' @ dquote,
            ''-c'', ''model_providers.dashscope.requires_openai_auth=false'']
      else [])"

definition option_flag :: "string \<Rightarrow> string option \<Rightarrow> string list" where
  "option_flag flag v = (if js_truthy v then [flag, the v] else [])"

definition codexBaseArgv :: "(json \<Rightarrow> string) \<Rightarrow> process_env \<Rightarrow> string option \<Rightarrow> string list" where
  "codexBaseArgv stringify p ws =
     [''stdbuf'', ''-oL'', ''-eL'', ''codex''] @ codexCliConfigOverrides stringify p @
     [''-C'', workspace_or_default p ws, ''exec'', ''--json'', ''--skip-git-repo-check'',
      ''--dangerously-bypass-approvals-and-sandbox''] @ option_flag ''-m'' (openaiModel p)"

definition claudeArgv :: "process_env \<Rightarrow> string option \<Rightarrow> string list" where
  "claudeArgv p ws =
     [''stdbuf'', ''-oL'', ''-eL'', ''claude'', ''-p'', ''--permission-mode'', ''bypassPermissions'', ''--add-dir'',
      workspace_or_default p ws, ''--verbose'', ''--output-format'', ''stream-json'', ''--include-partial-messages''] @
     option_flag ''--model'' (anthropicModel p)"

definition kimiArgv :: "process_env \<Rightarrow> string list" where
  "kimiArgv p = [''kimi'', ''--auto''] @ option_flag ''--model'' (kimiModel p) @
     [''--output-format'', ''stream-json'', ''--prompt'']"

definition piArgv :: "url_parser \<Rightarrow> process_env \<Rightarrow> string list" where
  "piArgv url p = [''stdbuf'', ''-oL'', ''-eL'', ''pi'', ''--no-session''] @
     option_flag ''--provider'' (Some (piProvider url p)) @ option_flag ''--model'' (piModel p)"

definition supportsJsonMode :: string where
  "supportsJsonMode = ''pi --help 2>&1 | grep -Eq '' @ [quote_mark] @ ''(^|[[:space:]])--mode([=,[:space:]]|$)'' @ [quote_mark]"

definition supportsStreamingPrint :: string where
  "supportsStreamingPrint =
     ''pi --help 2>&1 | grep -Eq '' @ [quote_mark] @ ''(^|[[:space:]])(-P|--print-streaming)([=,[:space:]]|$)'' @ [quote_mark]"

definition piInvocation :: "url_parser \<Rightarrow> process_env \<Rightarrow> string \<Rightarrow> string" where
  "piInvocation url p prompt =
     ''if '' @ supportsJsonMode @ ''; then '' @ shellCommand (piArgv url p @ [''--mode'', ''json'', prompt]) @
     ''; elif '' @ supportsStreamingPrint @ ''; then '' @ shellCommand (piArgv url p @ [''-P'', prompt]) @
     ''; else '' @ shellCommand (piArgv url p @ [''-p'', prompt]) @ ''; fi''"

definition buildCommand ::
  "(json \<Rightarrow> string) \<Rightarrow> url_parser \<Rightarrow> process_env \<Rightarrow> (string \<times> string) list \<Rightarrow> AgentName \<Rightarrow> agent_state \<Rightarrow> string option \<Rightarrow> string" where
  "buildCommand stringify url p sess a st ws =
     (let prompt = agentTaskPrompt st in
      runAsAgent p sess (case a of
          Codex \<Rightarrow> shellCommand (codexBaseArgv stringify p ws @ [prompt])
        | Claude \<Rightarrow> shellCommand (claudeArgv p ws @ [prompt])
        | Pi \<Rightarrow> piInvocation url p prompt
        | Kimi \<Rightarrow> shellCommand (kimiArgv p @ [prompt])) ws)"

definition buildPiPreflightCommand :: "url_parser \<Rightarrow> process_env \<Rightarrow> (string \<times> string) list \<Rightarrow> string" where
  "buildPiPreflightCommand url p sess =
     (let provider = piProvider url p;
          check = (if js_truthy (piModel p)
            then let model = the (piModel p);
                     rowPattern = shellQuote (CHR ''^'' # escapeRegExp provider @ ''[[:space:]]+'' @ escapeRegExp model @ ''([[:space:]]|$)'');
                     print = ''printf '' @ dquote @ ''%s'' @ [backslash] @ ''n'' @ dquote @ '' '' @ dquote @ ''$model_output'' @ dquote
                 in js_join ''; '' [''model_output=$('' @ shellCommand [''pi'', ''--list-models'', provider @ '' '' @ model] @ '' 2>&1)'',
                      print, print @ '' | grep -E '' @ rowPattern]
            else shellCommand [''pi'', ''--list-models''])
      in runAsAgent p sess (js_join '' && '' [''node --version'', ''command -v pi'', ''pi --version'', check]) None)"

section \<open>The agent registry\<close>

text \<open>The renderer of an agent and its avatar initial are left out.\<close>

record agent_definition =
  ad_displayName :: string
  ad_maxFailures :: nat
  ad_label :: string
  ad_needsGuestAuth :: bool
  ad_preflightLabel :: string
  ad_preflightCommand :: string

definition AGENT_REGISTRY :: "url_parser \<Rightarrow> process_env \<Rightarrow> (string \<times> string) list \<Rightarrow> AgentName \<Rightarrow> agent_definition" where
  "AGENT_REGISTRY url p sess a = (case a of
     Claude \<Rightarrow> \<lparr>ad_displayName = ''Claude Code'', ad_maxFailures = 3, ad_label = ''Claude Code'', ad_needsGuestAuth = False,
       ad_preflightLabel = ''Claude Code auth'',
       ad_preflightCommand = runAsAgent p sess (''if [ -n '' @ dquote @ ''${ANTHROPIC_API_KEY:-}'' @ dquote @
         '' ]; then claude --version; else claude auth status; fi'') None\<rparr>
   | Pi \<Rightarrow> \<lparr>ad_displayName = ''Pi'', ad_maxFailures = 2, ad_label = ''Pi'', ad_needsGuestAuth = True,
       ad_preflightLabel = ''Pi coding agent'', ad_preflightCommand = buildPiPreflightCommand url p sess\<rparr>
   | Codex \<Rightarrow> \<lparr>ad_displayName = ''Codex'', ad_maxFailures = 2, ad_label = ''Codex'', ad_needsGuestAuth = True,
       ad_preflightLabel = ''Codex auth'', ad_preflightCommand = runAsAgent p sess ''codex login status'' None\<rparr>
   | Kimi \<Rightarrow> \<lparr>ad_displayName = ''Kimi'', ad_maxFailures = 2, ad_label = ''Kimi'', ad_needsGuestAuth = True,
       ad_preflightLabel = ''Kimi'', ad_preflightCommand = runAsAgent p sess ''kimi --version && kimi doctor'' None\<rparr>)"

section \<open>Configuration files of a guest\<close>

definition quoted_line :: "string \<Rightarrow> string \<Rightarrow> string" where
  "quoted_line k v = k @ '' = '' @ dquote @ v @ dquote"

definition guestCodexConfigToml :: "(json \<Rightarrow> string) \<Rightarrow> process_env \<Rightarrow> string" where
  "guestCodexConfigToml stringify p =
     text_lines ([''[sandbox]'', quoted_line ''default_mode'' ''danger-full-access'', quoted_line ''model_provider'' ''dashscope''] @
       (if js_truthy (openaiModel p) then [''model = '' @ stringify (JStr (the (openaiModel p)))] else []) @
       (if js_truthy (openaiBaseUrl p)
        then [[], ''[model_providers.dashscope]'', quoted_line ''name'' ''DashScope'',
              ''base_url = '' @ stringify (JStr (the (openaiBaseUrl p))), quoted_line ''env_key'' ''OPENAI_API_KEY'',
              ''requires_openai_auth = false'']
        else []) @
       [[], ''[features]'', ''multi_agent = '' @ show_bool (codexMultiAgentEnabled p)]) @ newline"

definition guestCodexAuthJson :: "(json \<Rightarrow> string) \<Rightarrow> string \<Rightarrow> string" where
  "guestCodexAuthJson stringify apiKey = stringify (JObj [(''auth_mode'', JStr ''apikey''), (''OPENAI_API_KEY'', JStr apiKey)])"

definition api_key_entry :: "string \<Rightarrow> string option \<Rightarrow> (string \<times> json) list \<Rightarrow> (string \<times> json) list" where
  "api_key_entry provider key auth =
     (if js_truthy key then AList.update provider (JObj [(''type'', JStr ''api_key''), (''key'', JStr (the key))]) auth else auth)"

definition guestPiAuthJson :: "(json \<Rightarrow> string) \<Rightarrow> url_parser \<Rightarrow> process_env \<Rightarrow> string" where
  "guestPiAuthJson stringify url p =
     stringify (JObj (api_key_entry (piProvider url p) (piApiKey url p)
       (api_key_entry ''openai'' (openaiApiKey p) (api_key_entry ''anthropic'' (anthropicApiKey p) []))))"

definition pi_model_entry :: "string \<Rightarrow> json" where
  "pi_model_entry model = JObj [(''id'', JStr model), (''name'', JStr model), (''reasoning'', JBool False),
     (''input'', JArr [JStr ''text'', JStr ''image'']),
     (''cost'', JObj [(''input'', JNum 0), (''output'', JNum 0), (''cacheRead'', JNum 0), (''cacheWrite'', JNum 0)]),
     (''contextWindow'', JNum 128000), (''maxTokens'', JNum 4096)]"

definition guestPiModelsJson :: "(json \<Rightarrow> string) \<Rightarrow> url_parser \<Rightarrow> process_env \<Rightarrow> string" where
  "guestPiModelsJson stringify url p =
     (let provider = piProvider url p; model = piModel p; baseUrl = piBaseUrl url p
      in if \<not> js_truthy baseUrl \<or> \<not> js_truthy model then stringify (JObj [(''providers'', JObj [])])
         else stringify (JObj [(''providers'', JObj [(provider, JObj
           ([(''name'', JStr (provider @ '' compatible'')), (''baseUrl'', JStr (the baseUrl)), (''apiKey'', JStr ''$PI_API_KEY''),
             (''api'', JStr (piApi url p)), (''models'', JArr [pi_model_entry (the model)])] @
            (if piApi url p = ''openai-completions''
             then [(''authHeader'', JBool True),
                   (''compat'', JObj [(''supportsDeveloperRole'', JBool False), (''supportsStore'', JBool False),
                     (''supportsUsageInStreaming'', JBool False), (''maxTokensField'', JStr ''max_tokens'')])]
             else [])))])]))"

section \<open>What the shell is meant to run\<close>

definition export_words :: "string \<Rightarrow> string \<Rightarrow> sh_token list" where
  "export_words k v = [Word ''export'', Word (k @ ''='' @ v)]"

definition setup_words :: "process_env \<Rightarrow> (string \<times> string) list \<Rightarrow> string option \<Rightarrow> sh_token list list" where
  "setup_words p sess ws =
     (let home = if current_user p then agentHomePath p else ''/home/agent'' in
      [export_words ''HOME'' home, export_words ''CODEX_HOME'' (home @ ''/.codex''),
       export_words ''PI_CODING_AGENT_DIR'' (home @ ''/.pi/agent''), export_words ''KIMI_CODE_HOME'' (home @ ''/.kimi-code'')] @
      (if current_user p then []
       else [export_words ''PATH'' ''/usr/local/sbin:/usr/local/bin:/usr/sbin:/usr/bin:/sbin:/bin'', [Word ''umask'', Word ''002'']]) @
      map (\<lambda>(k, v). export_words k v) sess @ [[Word ''cd'', Word (workspace_or_default p ws)]])"

definition pi_help_words :: "string \<Rightarrow> sh_token list" where
  "pi_help_words pat = [Word ''pi'', Word ''--help'', Word ''2'', Op CHR ''>'', Op CHR ''&'', Word ''1'', Op CHR ''|'',
     Word ''grep'', Word ''-Eq'', Word pat, Op CHR '';'', Word ''then'']"

definition intended_words ::
  "(json \<Rightarrow> string) \<Rightarrow> url_parser \<Rightarrow> process_env \<Rightarrow> AgentName \<Rightarrow> string \<Rightarrow> string option \<Rightarrow> sh_token list" where
  "intended_words stringify url p a prompt ws = (case a of
       Codex \<Rightarrow> redirected (codexBaseArgv stringify p ws @ [prompt])
     | Claude \<Rightarrow> redirected (claudeArgv p ws @ [prompt])
     | Kimi \<Rightarrow> redirected (kimiArgv p @ [prompt])
     | Pi \<Rightarrow> [Word ''if''] @ pi_help_words ''(^|[[:space:]])--mode([=,[:space:]]|$)'' @
         redirected (piArgv url p @ [''--mode'', ''json'', prompt]) @
         [Op CHR '';'', Word ''elif''] @ pi_help_words ''(^|[[:space:]])(-P|--print-streaming)([=,[:space:]]|$)'' @
         redirected (piArgv url p @ [''-P'', prompt]) @
         [Op CHR '';'', Word ''else''] @ redirected (piArgv url p @ [''-p'', prompt]) @ [Op CHR '';'', Word ''fi''])"

definition plain_names :: "(string \<times> string) list \<Rightarrow> bool" where
  "plain_names env \<longleftrightarrow> list_all (\<lambda>(k, v). k \<noteq> [] \<and> list_all shell_safe k) env"

lemma shell_safe_simps [simp]:
  "shell_safe c = (c \<in> set ''ABCDEFGHIJKLMNOPQRSTUVWXYZabcdefghijklmnopqrstuvwxyz0123456789_@%+=:,./-'')"
  unfolding shell_safe_def by (rule char.induct [of _ c]) (auto simp: Let_def of_char_def)

lemma tokens_export:
  assumes "list_all shell_safe k"
  shows "sh_tokens (''export '' @ (k @ ''='') @ shellQuote v) = Some (export_words k v)"
proof -
  have "sh_tokens ''export'' = Some [Word ''export'']"
    by (simp add: sh_tokens_def sh_blank_def sh_operator_def quote_mark_def backslash_def)
  moreover have "sh_tokens ((k @ ''='') @ shellQuote v) = Some [Word ((k @ ''='') @ v)]"
    by (rule tokens_assign) (use assms in simp_all)
  ultimately have "sh_tokens (''export'' @ CHR '' '' # ((k @ ''='') @ shellQuote v)) = Some ([Word ''export''] @ [Word ((k @ ''='') @ v)])"
    by (rule tokens_blank)
  then show ?thesis by (simp add: export_words_def)
qed

lemma join_join:
  assumes "ys \<noteq> []"
  shows "js_join sep (xs @ [js_join sep ys] @ zs) = js_join sep (xs @ ys @ zs)"
proof -
  have tail: "js_join sep ([js_join sep ys] @ zs) = js_join sep (ys @ zs)"
    using js_join_append [OF assms, of zs sep] js_join_append [of "[js_join sep ys]" zs sep] by (cases "zs = []") simp_all
  show ?thesis
    using js_join_append [of xs "[js_join sep ys] @ zs" sep] js_join_append [of xs "ys @ zs" sep] assms tail
    by (cases "xs = []") simp_all
qed

lemma export_home_not_Nil [simp]: "export_home k v \<noteq> []"
  by (simp add: export_home_def)

lemma home_exports_not_Nil: "filter (\<lambda>s. s \<noteq> []) (home_exports p) = home_exports p"
  by (simp add: home_exports_def Let_def)

definition setup_parts :: "process_env \<Rightarrow> (string \<times> string) list \<Rightarrow> string option \<Rightarrow> string list" where
  "setup_parts p sess ws =
     home_exports p @ map (\<lambda>(k, v). export_home k v) sess @ [''cd '' @ shellQuote (workspace_or_default p ws)]"

lemma agent_script_flat:
  assumes "cmd \<noteq> []"
  shows "agent_script p sess cmd ws = js_join '' && '' (setup_parts p sess ws @ [cmd])"
proof -
  have env: "envExports sess = js_join '' && '' (map (\<lambda>(k, v). export_home k v) sess)"
    by (simp add: envExports_def export_home_def)
  have "envExports sess = [] \<longleftrightarrow> sess = []"
  proof (cases sess)
    case (Cons kv rest)
    then show ?thesis by (cases kv; cases rest) (simp_all add: envExports_def)
  qed (simp add: envExports_def)
  moreover have "js_join '' && '' (xs @ [envExports sess] @ zs) = js_join '' && '' (xs @ map (\<lambda>(k, v). export_home k v) sess @ zs)"
    if "sess \<noteq> []" for xs zs
    unfolding env by (rule join_join) (use that in simp)
  ultimately show ?thesis using assms
    by (cases "sess = []") (simp_all add: agent_script_def agent_script_parts_def setup_parts_def home_exports_not_Nil)
qed

lemma tokens_cd: "sh_tokens (''cd '' @ shellQuote w) = Some [Word ''cd'', Word w]"
proof -
  have "sh_tokens ''cd'' = Some [Word ''cd'']"
    by (simp add: sh_tokens_def sh_blank_def sh_operator_def quote_mark_def backslash_def)
  from tokens_blank [OF this tokens_shellQuote] show ?thesis by simp
qed

lemma tokens_export_home: "list_all shell_safe k \<Longrightarrow> sh_tokens (export_home k v) = Some (export_words k v)"
  unfolding export_home_def by (rule tokens_export)

lemma tokens_guest_homes:
  "sh_tokens ''export HOME=/home/agent'' = Some (export_words ''HOME'' ''/home/agent'')"
  "sh_tokens ''export CODEX_HOME=/home/agent/.codex'' = Some (export_words ''CODEX_HOME'' ''/home/agent/.codex'')"
  "sh_tokens ''export PI_CODING_AGENT_DIR=/home/agent/.pi/agent'' = Some (export_words ''PI_CODING_AGENT_DIR'' ''/home/agent/.pi/agent'')"
  "sh_tokens ''export KIMI_CODE_HOME=/home/agent/.kimi-code'' = Some (export_words ''KIMI_CODE_HOME'' ''/home/agent/.kimi-code'')"
  "sh_tokens ''export PATH=/usr/local/sbin:/usr/local/bin:/usr/sbin:/usr/bin:/sbin:/bin'' =
     Some (export_words ''PATH'' ''/usr/local/sbin:/usr/local/bin:/usr/sbin:/usr/bin:/sbin:/bin'')"
  "sh_tokens ''umask 002'' = Some [Word ''umask'', Word ''002'']"
  by (simp_all add: sh_tokens_def sh_blank_def sh_operator_def quote_mark_def backslash_def export_words_def)

lemma tokens_home_exports:
  "list_all2 (\<lambda>s ts. sh_tokens s = Some ts) (home_exports p) (take (length (home_exports p)) (setup_words p sess ws))"
  by (simp add: home_exports_def setup_words_def Let_def tokens_guest_homes tokens_export_home)

lemma tokens_setup:
  assumes "plain_names sess"
  shows "list_all2 (\<lambda>s ts. sh_tokens s = Some ts) (setup_parts p sess ws) (setup_words p sess ws)"
proof -
  have envs: "list_all2 (\<lambda>s ts. sh_tokens s = Some ts) (map (\<lambda>(k, v). export_home k v) sess) (map (\<lambda>(k, v). export_words k v) sess)"
    using assms by (induction sess) (auto simp: plain_names_def intro: tokens_export_home)
  have split: "setup_words p sess ws = take (length (home_exports p)) (setup_words p sess ws) @
      map (\<lambda>(k, v). export_words k v) sess @ [[Word ''cd'', Word (workspace_or_default p ws)]]"
    by (simp add: setup_words_def home_exports_def Let_def)
  show ?thesis
    unfolding setup_parts_def
    by (subst split, intro list_all2_appendI tokens_home_exports envs)
       (use tokens_cd [of "workspace_or_default p ws"] in simp)
qed

lemma setup_words_not_Nil [simp]: "setup_words p sess ws \<noteq> []"
  by (simp add: setup_words_def Let_def)

lemma tokens_agent_script:
  assumes "plain_names sess" and "sh_tokens cmd = Some ts" and "cmd \<noteq> []"
  shows "sh_tokens (agent_script p sess cmd ws) = Some (and_list (setup_words p sess ws @ [ts]))"
proof -
  have "list_all2 (\<lambda>s ts. sh_tokens s = Some ts) (setup_parts p sess ws @ [cmd]) (setup_words p sess ws @ [ts])"
    using tokens_setup [OF assms(1)] assms(2) by (intro list_all2_appendI) simp_all
  with tokens_and_list show ?thesis by (simp add: agent_script_flat [OF assms(3)])
qed

definition su_words :: "string \<Rightarrow> sh_token list" where
  "su_words script = map Word [''su'', ''agent'', ''-s'', ''/bin/bash'', ''-c'', script]"

lemma tokens_su: "sh_tokens (''su '' @ AGENT_USER @ '' -s /bin/bash -c '' @ shellQuote script) = Some (su_words script)"
proof -
  have "sh_tokens ''su agent -s /bin/bash -c'' = Some (map Word [''su'', ''agent'', ''-s'', ''/bin/bash'', ''-c''])"
    by (simp add: sh_tokens_def sh_blank_def sh_operator_def quote_mark_def backslash_def)
  from tokens_blank [OF this tokens_shellQuote [of script]] show ?thesis by (simp add: AGENT_USER_def su_words_def)
qed

lemma tokens_semicolon:
  assumes "sh_tokens a = Some ts" and "sh_tokens b = Some us"
  shows "sh_tokens (a @ ''; '' @ b) = Some (ts @ [Op CHR '';''] @ us)"
  using assms scan_operator_append [of Unquoted None a ts "CHR '';''" "CHR '' '' # b"]
  by (simp add: sh_tokens_def option.map_comp comp_def)

lemma tokens_supports:
  "sh_tokens (''if '' @ supportsJsonMode) = Some ([Word ''if''] @ butlast (butlast (pi_help_words ''(^|[[:space:]])--mode([=,[:space:]]|$)'')))"
  "sh_tokens (''elif '' @ supportsStreamingPrint) =
     Some ([Word ''elif''] @ butlast (butlast (pi_help_words ''(^|[[:space:]])(-P|--print-streaming)([=,[:space:]]|$)'')))"
  by (simp_all add: sh_tokens_def sh_blank_def sh_operator_def quote_mark_def backslash_def supportsJsonMode_def
      supportsStreamingPrint_def pi_help_words_def)

lemma tokens_keyword:
  "sh_tokens b = Some us \<Longrightarrow> sh_tokens (''then '' @ b) = Some (Word ''then'' # us)"
  "sh_tokens b = Some us \<Longrightarrow> sh_tokens (''else '' @ b) = Some (Word ''else'' # us)"
  by (simp_all add: sh_tokens_def sh_blank_def sh_operator_def quote_mark_def backslash_def)

lemma tokens_fi: "sh_tokens ''fi'' = Some [Word ''fi'']"
  by (simp add: sh_tokens_def sh_blank_def sh_operator_def quote_mark_def backslash_def)

lemma tokens_piInvocation:
  "sh_tokens (piInvocation url p prompt) = Some (intended_words stringify url p Pi prompt ws)"
proof -
  let ?run = "\<lambda>extra. shellCommand (piArgv url p @ extra)"
  have "sh_tokens ((''if '' @ supportsJsonMode) @ ''; '' @ (''then '' @ ?run [''--mode'', ''json'', prompt]) @ ''; '' @
      (''elif '' @ supportsStreamingPrint) @ ''; '' @ (''then '' @ ?run [''-P'', prompt]) @ ''; '' @
      (''else '' @ ?run [''-p'', prompt]) @ ''; '' @ ''fi'') =
    Some (([Word ''if''] @ butlast (butlast (pi_help_words ''(^|[[:space:]])--mode([=,[:space:]]|$)''))) @ [Op CHR '';''] @
      (Word ''then'' # redirected (piArgv url p @ [''--mode'', ''json'', prompt])) @ [Op CHR '';''] @
      ([Word ''elif''] @ butlast (butlast (pi_help_words ''(^|[[:space:]])(-P|--print-streaming)([=,[:space:]]|$)''))) @ [Op CHR '';''] @
      (Word ''then'' # redirected (piArgv url p @ [''-P'', prompt])) @ [Op CHR '';''] @
      (Word ''else'' # redirected (piArgv url p @ [''-p'', prompt])) @ [Op CHR '';''] @ [Word ''fi''])"
    by (intro tokens_semicolon tokens_supports tokens_keyword tokens_shellCommand tokens_fi)
  then show ?thesis by (simp add: piInvocation_def intended_words_def pi_help_words_def)
qed

lemma agent_command_not_Nil [simp]: "shellCommand argv \<noteq> []" "piInvocation url p prompt \<noteq> []"
  by (simp_all add: shellCommand_def piInvocation_def)

section \<open>Properties\<close>

text \<open>C26. Nothing in a prompt, a path or a setting can become shell syntax. Whatever they contain, the command
  line of every agent is read by the shell (for a guest twice, by the outer one and by the one \<open>su\<close>
  starts) as exactly the intended words: the home variables, the session variables, the change to the
  workspace and the agent's argument vector, with the whole prompt as one argument.\<close>

theorem agent_command_exact:
  assumes "plain_names sess"
  shows "\<exists>script. sh_tokens script =
      Some (and_list (setup_words p sess ws @ [intended_words stringify url p a (agentTaskPrompt st) ws])) \<and>
    (if current_user p then buildCommand stringify url p sess a st ws = script
     else sh_tokens (buildCommand stringify url p sess a st ws) = Some (su_words script))"
proof -
  obtain cmd where cmd: "buildCommand stringify url p sess a st ws = runAsAgent p sess cmd ws" "cmd \<noteq> []"
    and tokens: "sh_tokens cmd = Some (intended_words stringify url p a (agentTaskPrompt st) ws)"
  proof (cases a)
    case Pi
    then show ?thesis
      using that [of "piInvocation url p (agentTaskPrompt st)"] tokens_piInvocation [of url p "agentTaskPrompt st" stringify ws]
      by (simp add: buildCommand_def)
  qed (use that in \<open>auto simp: buildCommand_def intended_words_def tokens_shellCommand\<close>)
  show ?thesis
    using tokens_agent_script [OF assms tokens cmd(2)] tokens_su
    by (intro exI [where x = "agent_script p sess cmd ws"]) (simp add: cmd(1) runAsAgent_def)
qed

theorem agent_command_exact_witness:
  "\<exists>script. sh_tokens script =
      Some (and_list (setup_words Map.empty [(''RELAY_HOST_UID'', ''501'')] None @
        [intended_words (\<lambda>_. []) (\<lambda>_. None) Map.empty Kimi (agentTaskPrompt (initialAgentState ''it's; rm -rf /'')) None])) \<and>
    sh_tokens (buildCommand (\<lambda>_. []) (\<lambda>_. None) Map.empty [(''RELAY_HOST_UID'', ''501'')] Kimi
      (initialAgentState ''it's; rm -rf /'') None) = Some (su_words script)"
proof -
  have "plain_names [(''RELAY_HOST_UID'', ''501'')]" by (simp add: plain_names_def)
  from agent_command_exact [OF this, of Map.empty] show ?thesis by (simp add: current_user_def)
qed

end
