(* ===== verification/Sandbox_Session.thy ===== *)
theory Sandbox_Session
  imports Agent_State File_Paths Step_Machine Agent_Command
begin

text \<open>
  The BoxLite guest of a daemon: \<open>packages/relay-daemon/src/sandbox-session.ts\<close>, the box operations of
  \<open>execution.ts\<close> and the execution environment \<open>createBoxliteEnvironment\<close> of \<open>index.ts\<close>. BoxLite, the
  file system and the home lock are effects of \<open>session_env\<close>; \<open>ss_trace\<close> records what is acquired and
  released. Console and log output are left out.
\<close>

section \<open>Boxes\<close>

record sandbox_mount =
  sm_hostPath :: string
  sm_guestPath :: string
  sm_readOnly :: bool

record create_input =
  ci_rootfsPath :: string
  ci_boxName :: string
  ci_volumes :: "sandbox_mount list"
  ci_env :: "(string \<times> string) list"
  ci_workingDir :: string
  ci_autoRemove :: bool

text \<open>\<open>None\<close>: the runtime has no such method.\<close>

record 'w box_runtime =
  br_getOrCreate :: "(create_input \<Rightarrow> ('w, string, unit) effect) option"
  br_create :: "create_input \<Rightarrow> ('w, string, unit) effect"
  br_remove :: "(string \<Rightarrow> ('w, string, unit) effect) option"

definition isExistingBoxError :: "string \<Rightarrow> bool" where
  "isExistingBoxError message = js_includes (map js_lower message) ''already exists''"

definition isMissingBoxError :: "string \<Rightarrow> bool" where
  "isMissingBoxError message = js_includes (map js_lower message) ''not found''"

definition createSessionBox :: "'w box_runtime \<Rightarrow> create_input \<Rightarrow> ('w, string, unit) effect" where
  "createSessionBox rt input =
     (let make = (case br_getOrCreate rt of Some f \<Rightarrow> f input | None \<Rightarrow> br_create rt input)
      in eff_catch make (\<lambda>e.
           case br_remove rt of
             None \<Rightarrow> eff_throw e
           | Some remove \<Rightarrow>
               if \<not> isExistingBoxError e then eff_throw e
               else eff_bind (eff_catch (remove (ci_boxName input)) (\<lambda>_. eff_return ())) (\<lambda>_. make)))"

definition removeSandbox :: "'w box_runtime \<Rightarrow> string \<Rightarrow> ('w, string, unit) effect" where
  "removeSandbox rt boxName =
     (case br_remove rt of None \<Rightarrow> eff_return ()
      | Some remove \<Rightarrow> eff_catch (remove boxName) (\<lambda>e. if isMissingBoxError e then eff_return () else eff_throw e))"

section \<open>Sessions\<close>

datatype session_call =
    LockAcquired | RuntimeOpened | BoxCreating create_input | BoxStopping | BoxRemoving string
  | RuntimeStopping | RuntimeClosed | LockReleased

record 'w session_env =
  sv_boxliteHome :: string
  sv_ensureImage :: "('w, string, string) effect"
  sv_makeHome :: "string \<Rightarrow> ('w, string, unit) effect"
  sv_acquireLock :: "string \<Rightarrow> ('w, string, unit) effect"
  sv_releaseLock :: "('w, string, unit) effect"
  sv_openRuntime :: "string \<Rightarrow> ('w, string, unit) effect"
  sv_runtime :: "'w box_runtime"
  sv_shutdown :: "('w, string, unit) effect"
  sv_closeRuntime :: "('w, string, unit) effect"
  sv_owner :: "string \<Rightarrow> ('w, string, int \<times> int) effect"
  sv_prepareWorkspace :: "string \<Rightarrow> ('w, string, int \<times> int) effect"
  sv_stopBox :: "('w, string, unit) effect"

record orchestrator_session =
  os_rootfsPath :: string
  os_hostWorkspace :: string
  os_boxliteHome :: string
  os_hostOwner :: "int \<times> int"
  os_syncedOwner :: "int \<times> int"

text \<open>
  \<open>ss_homeLock\<close> and \<open>ss_runtime\<close> say whether the variables \<open>homeLock\<close> and \<open>runtime\<close> of the last started session
  are set (its \<open>close\<close> reads them); \<open>ss_ready\<close> is the module's set of ready agents.
\<close>

record 'w session_state =
  ss_world :: 'w
  ss_ready :: "AgentName list"
  ss_guestEnv :: "(string \<times> string) list"
  ss_homeLock :: bool
  ss_runtime :: bool
  ss_trace :: "session_call list"

definition in_session :: "('w, 'e, 'a) effect \<Rightarrow> ('w session_state, 'e, 'a) effect" where
  "in_session m = (\<lambda>s. case m (ss_world s) of (r, w) \<Rightarrow> (r, s\<lparr>ss_world := w\<rparr>))"

definition session_note :: "session_call \<Rightarrow> ('w session_state, 'e, unit) effect" where
  "session_note c = eff_modify (\<lambda>s. s\<lparr>ss_trace := ss_trace s @ [c]\<rparr>)"

definition resolveBoxliteHome :: "(string \<Rightarrow> string) \<Rightarrow> string \<Rightarrow> string \<Rightarrow> string \<Rightarrow> string option \<Rightarrow> string" where
  "resolveBoxliteHome sha256 homedir cwd hostWorkspace override =
     (case override of
        Some v \<Rightarrow> if js_trim v \<noteq> [] then path_resolve cwd (js_trim v)
                  else path_join (path_join (path_join homedir ''.relay'') ''boxlite'') (take 12 (sha256 (path_resolve cwd hostWorkspace)))
      | None \<Rightarrow> path_join (path_join (path_join homedir ''.relay'') ''boxlite'') (take 12 (sha256 (path_resolve cwd hostWorkspace))))"

definition resetAgentReadiness :: "('w session_state, string, unit) effect" where
  "resetAgentReadiness = eff_modify (\<lambda>s. s\<lparr>ss_ready := []\<rparr>)"

definition shutdownBoxliteRuntime :: "'w session_env \<Rightarrow> ('w session_state, string, unit) effect" where
  "shutdownBoxliteRuntime env =
     eff_finally (eff_bind (session_note RuntimeStopping) (\<lambda>_. in_session (sv_shutdown env)))
       (eff_bind (session_note RuntimeClosed) (\<lambda>_. in_session (sv_closeRuntime env)))"

text \<open>\<open>close\<close> of a session: the lock is given back last, whatever fails before.\<close>

definition stop_box :: "'w session_env \<Rightarrow> string \<Rightarrow> ('w session_state, string, unit) effect" where
  "stop_box env boxName =
     eff_bind resetAgentReadiness (\<lambda>_ s.
       if ss_runtime s
       then eff_bind (session_note BoxStopping) (\<lambda>_.
            eff_bind (in_session (sv_stopBox env)) (\<lambda>_.
            eff_bind (session_note (BoxRemoving boxName)) (\<lambda>_.
            in_session (removeSandbox (sv_runtime env) boxName)))) s
       else (Inr (), s))"

definition close_session :: "'w session_env \<Rightarrow> string \<Rightarrow> ('w session_state, string, unit) effect" where
  "close_session env boxName =
     eff_finally (stop_box env boxName)
       (eff_finally (\<lambda>s. if ss_runtime s then shutdownBoxliteRuntime env s else (Inr (), s))
          (\<lambda>s. if ss_homeLock s then eff_bind (session_note LockReleased) (\<lambda>_. in_session (sv_releaseLock env)) s
               else (Inr (), s)))"

definition guest_agent_env :: "int \<times> int \<Rightarrow> (string \<times> string) list" where
  "guest_agent_env owner = [(''RELAY_HOST_UID'', show_int (fst owner)), (''RELAY_HOST_GID'', show_int (snd owner))]"

definition guest_workspace_path :: string where "guest_workspace_path = ''/workspace''"

definition sandbox_input :: "string \<Rightarrow> string \<Rightarrow> string \<Rightarrow> (string \<times> string) list \<Rightarrow> create_input" where
  "sandbox_input rootfsPath boxName hostWorkspace guestEnv =
     \<lparr>ci_rootfsPath = rootfsPath, ci_boxName = boxName,
      ci_volumes = [\<lparr>sm_hostPath = hostWorkspace, sm_guestPath = guest_workspace_path, sm_readOnly = False\<rparr>],
      ci_env = guestEnv, ci_workingDir = guest_workspace_path, ci_autoRemove = True\<rparr>"

text \<open>The body of the \<open>try\<close>.\<close>

definition open_session ::
  "'w session_env \<Rightarrow> string \<Rightarrow> string \<Rightarrow> string \<Rightarrow> ('w session_state, string, orchestrator_session) effect" where
  "open_session env boxName hostWorkspace rootfsPath =
     eff_bind (in_session (sv_acquireLock env (sv_boxliteHome env))) (\<lambda>_.
     eff_bind (session_note LockAcquired) (\<lambda>_.
     eff_bind (eff_modify (\<lambda>s. s\<lparr>ss_homeLock := True\<rparr>)) (\<lambda>_.
     eff_bind (in_session (sv_openRuntime env (sv_boxliteHome env))) (\<lambda>_.
     eff_bind (session_note RuntimeOpened) (\<lambda>_.
     eff_bind (eff_modify (\<lambda>s. s\<lparr>ss_runtime := True\<rparr>)) (\<lambda>_.
     eff_bind (in_session (sv_owner env hostWorkspace)) (\<lambda>hostOwner.
     eff_bind (in_session (sv_owner env hostWorkspace)) (\<lambda>envOwner.
     eff_bind (eff_modify (\<lambda>s. s\<lparr>ss_guestEnv := guest_agent_env envOwner\<rparr>)) (\<lambda>_.
     let input = sandbox_input rootfsPath boxName hostWorkspace (guest_agent_env envOwner) in
     eff_bind (session_note (BoxCreating input)) (\<lambda>_.
     eff_bind (in_session (createSessionBox (sv_runtime env) input)) (\<lambda>_.
     eff_bind (in_session (sv_prepareWorkspace env hostWorkspace)) (\<lambda>syncedOwner.
     eff_return \<lparr>os_rootfsPath = rootfsPath, os_hostWorkspace = hostWorkspace, os_boxliteHome = sv_boxliteHome env,
                 os_hostOwner = hostOwner, os_syncedOwner = syncedOwner\<rparr>))))))))))))"

definition startOrchestratorSession ::
  "'w session_env \<Rightarrow> string \<Rightarrow> string \<Rightarrow> ('w session_state, string, orchestrator_session) effect" where
  "startOrchestratorSession env boxName hostWorkspace =
     eff_bind resetAgentReadiness (\<lambda>_.
     eff_bind (in_session (sv_ensureImage env)) (\<lambda>rootfsPath.
     eff_bind (in_session (sv_makeHome env (sv_boxliteHome env))) (\<lambda>_.
     eff_bind (eff_modify (\<lambda>s. s\<lparr>ss_homeLock := False, ss_runtime := False\<rparr>)) (\<lambda>_.
     eff_catch (open_session env boxName hostWorkspace rootfsPath)
       (\<lambda>e. eff_bind (eff_catch (close_session env boxName) (\<lambda>_. eff_return ())) (\<lambda>_. eff_throw e))))))"

definition withOrchestratorSession ::
  "'w session_env \<Rightarrow> string \<Rightarrow> string \<Rightarrow> (orchestrator_session \<Rightarrow> ('w session_state, string, 'a) effect)
     \<Rightarrow> ('w session_state, string, 'a) effect" where
  "withOrchestratorSession env boxName hostWorkspace action =
     eff_bind (startOrchestratorSession env boxName hostWorkspace) (\<lambda>session.
     eff_finally (action session) (close_session env boxName))"

section \<open>Readiness of an agent\<close>

record 'w ready_env =
  rv_url :: url_parser
  rv_processEnv :: process_env
  rv_prepareAuth :: "AgentName \<Rightarrow> ('w, string, unit) effect"
  rv_prepareSkills :: "('w, string, unit) effect"
  rv_runShell :: "string \<Rightarrow> (string \<times> string) list \<Rightarrow> ('w, string, exec_result) effect"

definition agent_in_session :: "'w ready_env \<Rightarrow> AgentName \<Rightarrow> 'w session_state \<Rightarrow> agent_definition" where
  "agent_in_session env agent s = AGENT_REGISTRY (rv_url env) (rv_processEnv env) (ss_guestEnv s) agent"

definition run_preflight :: "'w ready_env \<Rightarrow> AgentName \<Rightarrow> ('w session_state, string, exec_result) effect" where
  "run_preflight env agent = (\<lambda>s.
     in_session (rv_runShell env (ad_preflightCommand (agent_in_session env agent s))
       (agentCredentialEnv (rv_url env) (rv_processEnv env) agent)) s)"

definition prepare_agent :: "'w ready_env \<Rightarrow> AgentName \<Rightarrow> ('w session_state, string, unit) effect" where
  "prepare_agent env agent =
     eff_bind (\<lambda>s. if ad_needsGuestAuth (agent_in_session env agent s)
                   then in_session (rv_prepareAuth env agent) s else eff_return () s) (\<lambda>_.
     eff_bind (in_session (rv_prepareSkills env)) (\<lambda>_.
     eff_bind (run_preflight env agent) (\<lambda>result s.
     if exit_code result \<noteq> 0
     then (Inl (ad_preflightLabel (agent_in_session env agent s) @ '' preflight failed. '' @
            js_trim (if exec_stderr result \<noteq> [] then exec_stderr result else exec_stdout result)), s)
     else (Inr (), s\<lparr>ss_ready := agent # ss_ready s\<rparr>))))"

definition ensureAgentReady :: "'w ready_env \<Rightarrow> bool \<Rightarrow> AgentName \<Rightarrow> ('w session_state, string, unit) effect" where
  "ensureAgentReady env aborted agent = (\<lambda>s.
     if agent \<in> set (ss_ready s) then (Inr (), s)
     else if aborted then (Inl (agent_id agent @ '' readiness cancelled.''), s)
     else prepare_agent env agent s)"

section \<open>The execution environment of the daemon\<close>

text \<open>
  \<open>starting\<close> is the promise of the current session, here its value: each call runs to its end before
  the next one starts.
\<close>

record 'w box_environment =
  bx_state :: "'w session_state"
  bx_starting :: "orchestrator_session option"
  bx_mounted :: "string option"

record 'w box_config =
  bc_session :: "'w session_env"
  bc_ready :: "'w ready_env"
  bc_cwd :: string
  bc_sandboxId :: string
  bc_workspacePath :: string
  bc_exec :: "string \<Rightarrow> string list \<Rightarrow> ('w, string, exec_result) effect"

definition in_box :: "('w session_state, 'e, 'a) effect \<Rightarrow> ('w box_environment, 'e, 'a) effect" where
  "in_box m = (\<lambda>b. case m (bx_state b) of (r, s) \<Rightarrow> (r, b\<lparr>bx_state := s\<rparr>))"

fun collapse_unsafe :: "bool \<Rightarrow> string \<Rightarrow> string" where
  "collapse_unsafe inside [] = []"
| "collapse_unsafe inside (c # cs) =
     (if (let n = (of_char c :: nat) in (65 \<le> n \<and> n \<le> 90) \<or> (97 \<le> n \<and> n \<le> 122) \<or> (48 \<le> n \<and> n \<le> 57)) \<or> c \<in> set ''_-''
      then c # collapse_unsafe False cs
      else if inside then collapse_unsafe True cs else CHR ''-'' # collapse_unsafe True cs)"

definition boxNameForSandbox :: "string \<Rightarrow> string" where
  "boxNameForSandbox sandboxId = ''relay-'' @ take 48 (collapse_unsafe False sandboxId)"

definition box_stop :: "'w box_config \<Rightarrow> ('w box_environment, string, unit) effect" where
  "box_stop cfg = (\<lambda>b.
     if bx_starting b = None then (Inr (), b)
     else eff_catch (in_box (close_session (bc_session cfg) (boxNameForSandbox (bc_sandboxId cfg)))) (\<lambda>_. eff_return ())
            (b\<lparr>bx_starting := None, bx_mounted := None\<rparr>))"

definition box_start :: "'w box_config \<Rightarrow> string \<Rightarrow> ('w box_environment, string, unit) effect" where
  "box_start cfg hostWorkspace = (\<lambda>b.
     let nextWorkspace = path_resolve (bc_cwd cfg) hostWorkspace
     in if bx_starting b \<noteq> None \<and> bx_mounted b = Some nextWorkspace then (Inr (), b)
        else eff_bind (box_stop cfg) (\<lambda>_.
             eff_bind (eff_modify (\<lambda>b. b\<lparr>bx_mounted := Some nextWorkspace\<rparr>)) (\<lambda>_.
             eff_catch
               (eff_bind (in_box (startOrchestratorSession (bc_session cfg) (boxNameForSandbox (bc_sandboxId cfg)) nextWorkspace))
                  (\<lambda>session. eff_modify (\<lambda>b. b\<lparr>bx_starting := Some session\<rparr>)))
               (\<lambda>e. eff_bind (eff_modify (\<lambda>b. b\<lparr>bx_starting := None, bx_mounted := None\<rparr>)) (\<lambda>_. eff_throw e)))) b)"

datatype box_call =
    EnsureReady AgentName bool "string option"
  | ExecStream string "string list"
  | CloseEnvironment

fun box_call_effect :: "'w box_config \<Rightarrow> box_call \<Rightarrow> ('w box_environment, string, unit) effect" where
  "box_call_effect cfg (EnsureReady agent aborted hostWorkspace) =
     eff_bind (box_start cfg (case hostWorkspace of Some w \<Rightarrow> w | None \<Rightarrow> bc_workspacePath cfg)) (\<lambda>_.
     in_box (ensureAgentReady (bc_ready cfg) aborted agent))"
| "box_call_effect cfg (ExecStream cmd args) = (\<lambda>b.
     eff_bind (box_start cfg (case bx_mounted b of Some w \<Rightarrow> w | None \<Rightarrow> bc_workspacePath cfg)) (\<lambda>_.
     eff_bind (in_box (in_session (bc_exec cfg cmd args))) (\<lambda>_. eff_return ())) b)"
| "box_call_effect cfg CloseEnvironment = box_stop cfg"

definition box_step :: "'w box_config \<Rightarrow> 'w box_environment \<Rightarrow> box_call \<Rightarrow> 'w box_environment option" where
  "box_step cfg b c = Some (snd (box_call_effect cfg c b))"

section \<open>The life of lock and runtime\<close>

text \<open>
  What may be done in a state (lock held, runtime open): the lock is taken when nothing is held, the
  runtime is opened and used only under the lock, and the lock is given back only when the runtime is
  closed.
\<close>

fun lifecycle :: "bool \<times> bool \<Rightarrow> session_call \<Rightarrow> (bool \<times> bool) option" where
  "lifecycle (l, r) LockAcquired = (if l \<or> r then None else Some (True, False))"
| "lifecycle (l, r) RuntimeOpened = (if l \<and> \<not> r then Some (l, True) else None)"
| "lifecycle (l, r) (BoxCreating i) = (if r then Some (l, r) else None)"
| "lifecycle (l, r) BoxStopping = (if r then Some (l, r) else None)"
| "lifecycle (l, r) (BoxRemoving n) = (if r then Some (l, r) else None)"
| "lifecycle (l, r) RuntimeStopping = (if r then Some (l, r) else None)"
| "lifecycle (l, r) RuntimeClosed = (if r then Some (l, False) else None)"
| "lifecycle (l, r) LockReleased = (if l \<and> \<not> r then Some (False, False) else None)"

definition holding :: "bool \<Rightarrow> bool \<Rightarrow> 'w session_state \<Rightarrow> bool" where
  "holding l r s \<longleftrightarrow> run_events lifecycle (False, False) (ss_trace s) = Some (l, r)"

text \<open>\<open>sess l r a b\<close>: the trace says that lock and runtime are \<open>l\<close> and \<open>r\<close>, the session's variables \<open>a\<close> and \<open>b\<close>.\<close>

definition sess :: "bool \<Rightarrow> bool \<Rightarrow> bool \<Rightarrow> bool \<Rightarrow> 'w session_state \<Rightarrow> bool" where
  "sess l r a b s \<longleftrightarrow> holding l r s \<and> ss_homeLock s = a \<and> ss_runtime s = b"

lemma triple_in_session: "eff_triple (sess l r a b) (in_session m) (\<lambda>_. sess l r a b) (\<lambda>_. sess l r a b)"
  by (simp add: eff_triple_def eff_wp_def in_session_def sess_def holding_def split: prod.split sum.split)

lemma triple_note:
  "lifecycle (l, r) c = Some (l', r') \<Longrightarrow> eff_triple (sess l r a b) (session_note c) (\<lambda>_. sess l' r' a b) E"
  by (simp add: eff_triple_def session_note_def eff_wps sess_def holding_def run_events_append)

lemma triple_call:
  assumes "lifecycle (l, r) c = Some (l', r')"
  shows "eff_triple (sess l r a b) (eff_bind (session_note c) (\<lambda>_. in_session m)) (\<lambda>_. sess l' r' a b) (\<lambda>_. sess l' r' a b)"
  by (rule triple_bind [OF triple_note [OF assms] triple_in_session])

lemma triple_set:
  assumes "\<And>s. sess l r a b s \<Longrightarrow> sess l r a' b' (f s)"
  shows "eff_triple (sess l r a b) (eff_modify f) (\<lambda>_. sess l r a' b') E"
  using assms by (simp add: eff_triple_def eff_wps)

lemma triple_reset: "eff_triple (sess l r a b) resetAgentReadiness (\<lambda>_. sess l r a b) E"
  unfolding resetAgentReadiness_def by (rule triple_set) (simp add: sess_def holding_def)

lemma triple_flag:
  assumes "b \<Longrightarrow> eff_triple (sess l r a b) m Q E" and "\<And>s. \<not> b \<Longrightarrow> sess l r a b s \<Longrightarrow> Q () s"
  shows "eff_triple (sess l r a b) (\<lambda>s. if ss_runtime s then m s else (Inr (), s)) Q E"
  using assms by (cases b) (auto simp: eff_triple_def eff_wp_def sess_def)

lemma triple_lock_flag:
  assumes "a \<Longrightarrow> eff_triple (sess l r a b) m Q E" and "\<And>s. \<not> a \<Longrightarrow> sess l r a b s \<Longrightarrow> Q () s"
  shows "eff_triple (sess l r a b) (\<lambda>s. if ss_homeLock s then m s else (Inr (), s)) Q E"
  using assms by (cases a) (auto simp: eff_triple_def eff_wp_def sess_def)

lemma triple_shutdown:
  "eff_triple (sess l True a b) (shutdownBoxliteRuntime env) (\<lambda>_. sess l False a b) (\<lambda>_. sess l False a b)"
  unfolding shutdownBoxliteRuntime_def
  by (rule triple_finally [where R = "\<lambda>_. sess l True a b" and S = "\<lambda>_. sess l True a b"])
     (rule triple_call; simp)+

lemma triple_stop_box:
  "eff_triple (sess l b a b) (stop_box env boxName) (\<lambda>_. sess l b a b) (\<lambda>_. sess l b a b)"
proof -
  have "eff_triple (sess l b a b) (eff_bind (session_note BoxStopping) (\<lambda>_.
            eff_bind (in_session (sv_stopBox env)) (\<lambda>_.
            eff_bind (session_note (BoxRemoving boxName)) (\<lambda>_.
            in_session (removeSandbox (sv_runtime env) boxName))))) (\<lambda>_. sess l b a b) (\<lambda>_. sess l b a b)" if b
    by (intro triple_bind [where R = "\<lambda>_. sess l b a b"] triple_note triple_in_session) (use that in simp_all)
  then show ?thesis unfolding stop_box_def
    by (intro triple_bind [OF triple_reset] triple_flag)
qed

lemma triple_close_session:
  "eff_triple (sess a b a b) (close_session env boxName) (\<lambda>_. sess False False a b) (\<lambda>_. sess False False a b)"
  unfolding close_session_def
proof (rule triple_finally [OF triple_stop_box])
  have runtime: "eff_triple (sess a b a b) (\<lambda>s. if ss_runtime s then shutdownBoxliteRuntime env s else (Inr (), s))
      (\<lambda>_. sess a False a b) (\<lambda>_. sess a False a b)"
    by (rule triple_flag) (cases b; simp add: triple_shutdown)+
  have lock: "eff_triple (sess a False a b)
      (\<lambda>s. if ss_homeLock s then eff_bind (session_note LockReleased) (\<lambda>_. in_session (sv_releaseLock env)) s else (Inr (), s))
      (\<lambda>_. sess False False a b) (\<lambda>_. sess False False a b)"
    by (rule triple_lock_flag) (cases a; simp add: triple_call)+
  show last: "eff_triple (sess a b a b)
      (eff_finally (\<lambda>s. if ss_runtime s then shutdownBoxliteRuntime env s else (Inr (), s))
        (\<lambda>s. if ss_homeLock s then eff_bind (session_note LockReleased) (\<lambda>_. in_session (sv_releaseLock env)) s else (Inr (), s)))
      (\<lambda>_. sess False False a b) (\<lambda>_. sess False False a b)"
    by (rule triple_finally [OF runtime lock lock])
  then show "eff_triple (sess a b a b)
      (eff_finally (\<lambda>s. if ss_runtime s then shutdownBoxliteRuntime env s else (Inr (), s))
        (\<lambda>s. if ss_homeLock s then eff_bind (session_note LockReleased) (\<lambda>_. in_session (sv_releaseLock env)) s else (Inr (), s)))
      (\<lambda>_. sess False False a b) (\<lambda>_. sess False False a b)" .
qed

text \<open>Between the steps of \<open>open_session\<close> the variables agree with what is held.\<close>

definition consistent :: "'w session_state \<Rightarrow> bool" where
  "consistent s \<longleftrightarrow> sess (ss_homeLock s) (ss_runtime s) (ss_homeLock s) (ss_runtime s) s"

lemma sess_consistent: "sess a b a b s \<Longrightarrow> consistent s"
  by (simp add: consistent_def sess_def)

lemma triple_in_consistent: "eff_triple (sess a b a b) (in_session m) (\<lambda>_. sess a b a b) (\<lambda>_. consistent)"
  by (rule triple_conseq [OF triple_in_session]) (auto intro: sess_consistent)

lemma triple_open_session:
  "eff_triple (sess False False False False) (open_session env boxName hostWorkspace rootfsPath)
     (\<lambda>session s. sess True True True True s \<and> os_hostWorkspace session = hostWorkspace) (\<lambda>_. consistent)"
proof -
  note call = triple_in_consistent
  have acquire: "eff_triple (sess False False False False)
      (eff_bind (session_note LockAcquired) (\<lambda>_. eff_modify (\<lambda>s. s\<lparr>ss_homeLock := True\<rparr>)))
      (\<lambda>_. sess True False True False) (\<lambda>_. consistent)"
    by (rule triple_bind [OF triple_note triple_set]) (simp_all add: sess_def holding_def)
  have runtime: "eff_triple (sess True False True False)
      (eff_bind (session_note RuntimeOpened) (\<lambda>_. eff_modify (\<lambda>s. s\<lparr>ss_runtime := True\<rparr>)))
      (\<lambda>_. sess True True True True) (\<lambda>_. consistent)"
    by (rule triple_bind [OF triple_note triple_set]) (simp_all add: sess_def holding_def)
  let ?rest = "eff_bind (in_session (sv_owner env hostWorkspace)) (\<lambda>hostOwner.
     eff_bind (in_session (sv_owner env hostWorkspace)) (\<lambda>envOwner.
     eff_bind (eff_modify (\<lambda>s. s\<lparr>ss_guestEnv := guest_agent_env envOwner\<rparr>)) (\<lambda>_.
     let input = sandbox_input rootfsPath boxName hostWorkspace (guest_agent_env envOwner) in
     eff_bind (session_note (BoxCreating input)) (\<lambda>_.
     eff_bind (in_session (createSessionBox (sv_runtime env) input)) (\<lambda>_.
     eff_bind (in_session (sv_prepareWorkspace env hostWorkspace)) (\<lambda>syncedOwner.
     eff_return \<lparr>os_rootfsPath = rootfsPath, os_hostWorkspace = hostWorkspace, os_boxliteHome = sv_boxliteHome env,
                 os_hostOwner = hostOwner, os_syncedOwner = syncedOwner\<rparr>))))))"
  have rest: "eff_triple (sess True True True True) ?rest
      (\<lambda>session s. sess True True True True s \<and> os_hostWorkspace session = hostWorkspace) (\<lambda>_. consistent)"
    unfolding Let_def
    by (intro triple_bind [where R = "\<lambda>_. sess True True True True"] call triple_note triple_set triple_return)
       (simp_all add: sess_def holding_def)
  have "open_session env boxName hostWorkspace rootfsPath =
      eff_bind (in_session (sv_acquireLock env (sv_boxliteHome env))) (\<lambda>_.
      eff_bind (eff_bind (session_note LockAcquired) (\<lambda>_. eff_modify (\<lambda>s. s\<lparr>ss_homeLock := True\<rparr>))) (\<lambda>_.
      eff_bind (in_session (sv_openRuntime env (sv_boxliteHome env))) (\<lambda>_.
      eff_bind (eff_bind (session_note RuntimeOpened) (\<lambda>_. eff_modify (\<lambda>s. s\<lparr>ss_runtime := True\<rparr>))) (\<lambda>_. ?rest))))"
    by (simp add: open_session_def bind_assoc)
  then show ?thesis
    by (simp only:) (intro triple_bind [OF call] triple_bind [OF acquire] triple_bind [OF runtime] rest; assumption)
qed

lemma triple_holding: "eff_triple (holding l r) (in_session m) (\<lambda>_. holding l r) (\<lambda>_. holding l r)"
  by (simp add: eff_triple_def eff_wp_def in_session_def holding_def split: prod.split sum.split)

lemma triple_start:
  "eff_triple (holding False False) (startOrchestratorSession env boxName hostWorkspace)
     (\<lambda>session s. sess True True True True s \<and> os_hostWorkspace session = hostWorkspace) (\<lambda>_. holding False False)"
proof -
  have reset: "eff_triple (holding False False) resetAgentReadiness (\<lambda>_. holding False False) (\<lambda>_. holding False False)"
    by (simp add: resetAgentReadiness_def eff_triple_def eff_wps holding_def)
  have locals: "eff_triple (holding False False) (eff_modify (\<lambda>s. s\<lparr>ss_homeLock := False, ss_runtime := False\<rparr>))
      (\<lambda>_. sess False False False False) (\<lambda>_. holding False False)"
    by (simp add: eff_triple_def eff_wps sess_def holding_def)
  have close: "eff_triple consistent (eff_catch (close_session env boxName) (\<lambda>_. eff_return ())) (\<lambda>_. holding False False) (\<lambda>_. holding False False)"
  proof -
    have "eff_wp (close_session env boxName) (\<lambda>_. holding False False) (\<lambda>_. holding False False) s" if "consistent s" for s
      by (rule wp_mono [OF eff_tripleD [OF triple_close_session that [unfolded consistent_def]]]) (simp_all add: sess_def)
    then show ?thesis
      by (intro triple_catch [where R = "\<lambda>_. holding False False"] triple_return) (simp_all add: eff_triple_def)
  qed
  have recover: "eff_triple consistent (eff_bind (eff_catch (close_session env boxName) (\<lambda>_. eff_return ())) (\<lambda>_. eff_throw e))
      Q (\<lambda>_. holding False False)" for e Q
    by (rule triple_bind [OF close triple_throw])
  show ?thesis unfolding startOrchestratorSession_def
    by (intro triple_bind [OF reset] triple_bind [OF triple_holding] triple_bind [OF locals]
        triple_catch [OF triple_open_session] recover)
qed

text \<open>The host directories mounted into the box that was created last.\<close>

fun box_mounts :: "session_call \<Rightarrow> string list option" where
  "box_mounts (BoxCreating i) = Some (map sm_hostPath (ci_volumes i))"
| "box_mounts _ = None"

definition last_mounts :: "session_call list \<Rightarrow> string list option" where
  "last_mounts trace = (case filter (\<lambda>c. box_mounts c \<noteq> None) trace of [] \<Rightarrow> None | c # cs \<Rightarrow> box_mounts (last (c # cs)))"

lemma last_mounts_snoc: "last_mounts (trace @ [c]) = (if box_mounts c = None then last_mounts trace else box_mounts c)"
  by (cases "filter (\<lambda>c. box_mounts c \<noteq> None) trace") (simp_all add: last_mounts_def)

definition mounts :: "string \<Rightarrow> 'w session_state \<Rightarrow> bool" where
  "mounts w s \<longleftrightarrow> last_mounts (ss_trace s) = Some [w]"

lemma triple_mounts_in_session: "eff_triple (mounts w) (in_session m) (\<lambda>_. mounts w) E" if "\<And>e s. E e s"
  using that by (simp add: eff_triple_def eff_wp_def in_session_def mounts_def split: prod.split sum.split)

lemma triple_mounts_start:
  "eff_triple (\<lambda>_. True) (startOrchestratorSession env boxName hostWorkspace) (\<lambda>_. mounts hostWorkspace) (\<lambda>_ _. True)"
proof -
  have note_box: "eff_triple (\<lambda>_. True) (session_note (BoxCreating (sandbox_input rootfs boxName hostWorkspace genv)))
      (\<lambda>_. mounts hostWorkspace) (\<lambda>_ _. True)" for rootfs genv
    by (simp add: eff_triple_def session_note_def eff_wps mounts_def last_mounts_snoc sandbox_input_def)
  have opened: "eff_triple (\<lambda>_. True) (open_session env boxName hostWorkspace rootfs) (\<lambda>_. mounts hostWorkspace) (\<lambda>_ _. True)" for rootfs
    unfolding open_session_def Let_def
    by (intro triple_bind [OF note_box] triple_bind [OF triple_mounts_in_session] triple_bind [OF triple_any] triple_return)
       simp_all
  have again: "eff_triple (\<lambda>_. True) (eff_bind m (\<lambda>_. eff_throw e)) Q (\<lambda>_ _. True)" for m :: "('a session_state, string, unit) effect" and e Q
    by (rule triple_bind [OF triple_any]) (simp add: triple_throw)
  show ?thesis unfolding startOrchestratorSession_def
    by (intro triple_bind [OF triple_any] triple_catch [OF opened] again)
qed

section \<open>The invariant of the environment\<close>

definition box_inv :: "'w box_environment \<Rightarrow> bool" where
  "box_inv b \<longleftrightarrow> (case bx_starting b of
       None \<Rightarrow> holding False False (bx_state b)
     | Some session \<Rightarrow> sess True True True True (bx_state b) \<and> mounts (os_hostWorkspace session) (bx_state b) \<and>
         bx_mounted b = Some (os_hostWorkspace session))"

lemma box_stop_clean:
  assumes "box_inv b" and "box_stop cfg b = (r, c)"
  shows "r = Inr () \<and> bx_starting c = None \<and> holding False False (bx_state c)"
proof (cases "bx_starting b")
  case None
  with assms show ?thesis by (simp add: box_stop_def box_inv_def)
next
  case (Some session)
  obtain x s where x: "close_session (bc_session cfg) (boxNameForSandbox (bc_sandboxId cfg)) (bx_state b) = (x, s)"
    by (metis surj_pair)
  from Some assms(1) have "sess True True True True (bx_state b)" by (simp add: box_inv_def)
  from eff_tripleD [OF triple_close_session this, of "bc_session cfg" "boxNameForSandbox (bc_sandboxId cfg)"] x
  have "holding False False s" by (auto simp: eff_wp_def sess_def split: sum.splits)
  with Some assms(2) x show ?thesis
    by (cases x) (auto simp: box_stop_def eff_catch_def in_box_def eff_return_def)
qed

lemma box_start_ready:
  assumes "box_inv b" and "box_start cfg w b = (r, c)"
  shows "box_inv c \<and> (r = Inr () \<longrightarrow> (\<exists>session. bx_starting c = Some session \<and> os_hostWorkspace session = path_resolve (bc_cwd cfg) w))"
proof (cases "bx_starting b \<noteq> None \<and> bx_mounted b = Some (path_resolve (bc_cwd cfg) w)")
  case True
  with assms show ?thesis by (auto simp: box_start_def Let_def box_inv_def)
next
  case False
  obtain d where d: "box_stop cfg b = (Inr (), d)" "bx_starting d = None" "holding False False (bx_state d)"
    using box_stop_clean [OF assms(1)] by (metis surj_pair)
  let ?next = "path_resolve (bc_cwd cfg) w"
  obtain x s where x: "startOrchestratorSession (bc_session cfg) (boxNameForSandbox (bc_sandboxId cfg)) ?next (bx_state d) = (x, s)"
    by (metis surj_pair)
  have started: "case x of Inl e \<Rightarrow> holding False False s
      | Inr session \<Rightarrow> sess True True True True s \<and> os_hostWorkspace session = ?next \<and> mounts ?next s"
    using eff_tripleD [OF triple_start [where env = "bc_session cfg" and boxName = "boxNameForSandbox (bc_sandboxId cfg)"
          and hostWorkspace = ?next] d(3)]
      eff_tripleD [OF triple_mounts_start [where env = "bc_session cfg" and boxName = "boxNameForSandbox (bc_sandboxId cfg)"
          and hostWorkspace = ?next] TrueI, of "bx_state d"] x
    by (auto simp: eff_wp_def split: sum.splits)
  have c: "(r, c) = (case x of Inl e \<Rightarrow> (Inl e, d\<lparr>bx_state := s, bx_starting := None, bx_mounted := None\<rparr>)
      | Inr session \<Rightarrow> (Inr (), d\<lparr>bx_state := s, bx_starting := Some session, bx_mounted := Some ?next\<rparr>))"
    using assms(2) False d(1) x
    by (cases x) (auto simp: box_start_def Let_def eff_defs in_box_def)
  show ?thesis
  proof (cases x)
    case (Inl e)
    with c started show ?thesis by (auto simp: box_inv_def)
  next
    case (Inr session)
    with c started show ?thesis by (auto simp: box_inv_def)
  qed
qed

lemma ready_frame:
  "eff_triple (\<lambda>s. ss_trace s = tr \<and> ss_homeLock s = a \<and> ss_runtime s = b) (ensureAgentReady env aborted agent)
     (\<lambda>_ s. ss_trace s = tr \<and> ss_homeLock s = a \<and> ss_runtime s = b) (\<lambda>_ s. ss_trace s = tr \<and> ss_homeLock s = a \<and> ss_runtime s = b)"
  (is "eff_triple ?P _ _ _")
proof -
  have call: "eff_triple ?P (in_session m) (\<lambda>_. ?P) (\<lambda>_. ?P)" for m :: "('a, string, unit) effect"
    by (simp add: eff_triple_def eff_wp_def in_session_def split: prod.split sum.split)
  have auth: "eff_triple ?P (\<lambda>s. if ad_needsGuestAuth (agent_in_session env agent s)
      then in_session (rv_prepareAuth env agent) s else eff_return () s) (\<lambda>_. ?P) (\<lambda>_. ?P)"
    by (simp add: eff_triple_def eff_wp_def in_session_def eff_return_def split: prod.split sum.split)
  have preflight: "eff_triple ?P (run_preflight env agent) (\<lambda>_. ?P) (\<lambda>_. ?P)"
    by (simp add: eff_triple_def eff_wp_def run_preflight_def in_session_def split: prod.split sum.split)
  have verdict: "eff_triple ?P (\<lambda>s. if exit_code result \<noteq> 0 then (Inl (f s), s)
      else (Inr (), s\<lparr>ss_ready := agent # ss_ready s\<rparr>)) (\<lambda>_. ?P) (\<lambda>_. ?P)" for result f
    by (simp add: eff_triple_def eff_wp_def)
  have "eff_triple ?P (prepare_agent env agent) (\<lambda>_. ?P) (\<lambda>_. ?P)"
    unfolding prepare_agent_def
    by (intro triple_bind [where R = "\<lambda>_. ?P"] auth call preflight verdict)
  then show ?thesis by (simp add: eff_triple_def ensureAgentReady_def eff_wp_def)
qed

lemma box_inv_frame:
  assumes "box_inv b" and "ss_trace s = ss_trace (bx_state b)" and "ss_homeLock s = ss_homeLock (bx_state b)"
    and "ss_runtime s = ss_runtime (bx_state b)"
  shows "box_inv (b\<lparr>bx_state := s\<rparr>)"
  using assms by (auto simp: box_inv_def sess_def holding_def mounts_def split: option.splits)

lemma ready_keeps_box:
  assumes "box_inv b" and "in_box (ensureAgentReady env aborted agent) b = (r, c)"
  shows "box_inv c \<and> bx_starting c = bx_starting b \<and> last_mounts (ss_trace (bx_state c)) = last_mounts (ss_trace (bx_state b))"
proof -
  obtain x s where x: "ensureAgentReady env aborted agent (bx_state b) = (x, s)" by (metis surj_pair)
  have "ss_trace s = ss_trace (bx_state b) \<and> ss_homeLock s = ss_homeLock (bx_state b) \<and> ss_runtime s = ss_runtime (bx_state b)"
    using eff_tripleD [OF ready_frame [where env = env and aborted = aborted and agent = agent], where s = "bx_state b"] x
    by (auto simp: eff_wp_def split: sum.splits)
  with assms x box_inv_frame [OF assms(1), of s] show ?thesis by (auto simp: in_box_def)
qed

lemma box_call_keeps:
  assumes "box_inv b" and "box_call_effect cfg k b = (r, c)"
  shows "box_inv c"
proof (cases k)
  case (EnsureReady agent aborted w)
  let ?w = "case w of Some w \<Rightarrow> w | None \<Rightarrow> bc_workspacePath cfg"
  obtain x d where x: "box_start cfg ?w b = (x, d)" by (metis surj_pair)
  with box_start_ready [OF assms(1)] have "box_inv d" by blast
  with EnsureReady assms(2) x show ?thesis by (cases x) (auto simp: eff_bind_def dest: ready_keeps_box)
next
  case (ExecStream cmd args)
  let ?w = "case bx_mounted b of Some w \<Rightarrow> w | None \<Rightarrow> bc_workspacePath cfg"
  obtain x d where x: "box_start cfg ?w b = (x, d)" by (metis surj_pair)
  with box_start_ready [OF assms(1)] have d: "box_inv d" by blast
  have "box_inv (d\<lparr>bx_state := s\<rparr>)" if "in_session (bc_exec cfg cmd args) (bx_state d) = (y, s)" for y s
    using that by (intro box_inv_frame [OF d]) (auto simp: in_session_def split: prod.splits)
  with ExecStream assms(2) x d show ?thesis
    by (cases x) (auto simp: eff_bind_def eff_return_def in_box_def split: prod.splits sum.splits)
next
  case CloseEnvironment
  with assms(2) have "box_stop cfg b = (r, c)" by simp
  with box_stop_clean [OF assms(1)] have "bx_starting c = None \<and> holding False False (bx_state c)" by blast
  then show ?thesis by (simp add: box_inv_def)
qed

interpretation boxes: guarded_machine "box_step cfg" "\<lambda>_. True" box_inv for cfg
  by unfold_locales (auto simp: box_step_def intro: box_call_keeps [OF _ prod.collapse [symmetric]])

definition new_box :: "'w \<Rightarrow> 'w box_environment" where
  "new_box w = \<lparr>bx_state = \<lparr>ss_world = w, ss_ready = [], ss_guestEnv = [], ss_homeLock = False, ss_runtime = False, ss_trace = []\<rparr>,
                bx_starting = None, bx_mounted = None\<rparr>"

lemma new_box_inv: "box_inv (new_box w)"
  by (simp add: new_box_def box_inv_def holding_def)

section \<open>Properties\<close>

text \<open>C27. The BoxLite home is never used without its lock and never leaked: in every state the environment can
  reach by any calls, successful or failing, lock and runtime have been taken and given back in
  order, both are held exactly while there is a session, and closing the environment then gives
  back both, whatever fails on the way.\<close>

theorem box_lock_lifecycle:
  assumes "run_events (box_step cfg) (new_box w) calls = Some b"
  shows "run_events lifecycle (False, False) (ss_trace (bx_state b)) = Some (bx_starting b \<noteq> None, bx_starting b \<noteq> None) \<and>
    (case box_call_effect cfg CloseEnvironment b of (r, c) \<Rightarrow>
       r = Inr () \<and> run_events lifecycle (False, False) (ss_trace (bx_state c)) = Some (False, False))"
proof -
  have inv: "box_inv b" using boxes.run_keeps [OF assms _ new_box_inv] by (simp add: list_all_iff)
  obtain r c where c: "box_stop cfg b = (r, c)" by (metis surj_pair)
  with box_stop_clean [OF inv] have "r = Inr () \<and> holding False False (bx_state c)" by blast
  with inv c show ?thesis by (auto simp: box_inv_def holding_def sess_def split: option.splits)
qed


text \<open>
  \<open>execStream\<close> after \<open>close\<close> starts a guest again, and mounts the root of the node instead of a thread's
  directory.
\<close>

lemma exec_after_close_mounts_root:
  assumes "box_start cfg (bc_workspacePath cfg) (new_box w) = (Inr (), b)"
  shows "last_mounts (ss_trace (bx_state (snd (box_call_effect cfg (ExecStream cmd args) (new_box w))))) =
    Some [path_resolve (bc_cwd cfg) (bc_workspacePath cfg)]"
proof -
  obtain session where "box_inv b" "bx_starting b = Some session" "os_hostWorkspace session = path_resolve (bc_cwd cfg) (bc_workspacePath cfg)"
    using box_start_ready [OF new_box_inv assms] by auto
  moreover have "bx_mounted (new_box w) = None" by (simp add: new_box_def)
  ultimately show ?thesis using assms
    by (auto simp: box_inv_def mounts_def eff_bind_def in_box_def in_session_def eff_return_def split: prod.split sum.split)
qed

section \<open>Witnesses\<close>

definition calm_session :: "unit session_env" where
  "calm_session = \<lparr>sv_boxliteHome = ''/h'', sv_ensureImage = eff_return ''/img'', sv_makeHome = (\<lambda>_. eff_return ()),
     sv_acquireLock = (\<lambda>_. eff_return ()), sv_releaseLock = eff_return (), sv_openRuntime = (\<lambda>_. eff_return ()),
     sv_runtime = \<lparr>br_getOrCreate = None, br_create = (\<lambda>_. eff_return ()), br_remove = None\<rparr>,
     sv_shutdown = eff_return (), sv_closeRuntime = eff_return (), sv_owner = (\<lambda>_. eff_return (501, 20)),
     sv_prepareWorkspace = (\<lambda>_. eff_return (501, 20)), sv_stopBox = eff_throw ''stop failed''\<rparr>"

definition calm_config :: "unit box_config" where
  "calm_config = \<lparr>bc_session = calm_session,
     bc_ready = \<lparr>rv_url = (\<lambda>_. None), rv_processEnv = Map.empty,
       rv_prepareAuth = (\<lambda>_. eff_return ()), rv_prepareSkills = eff_return (),
       rv_runShell = (\<lambda>_ _. eff_return \<lparr>exit_code = 0, exec_stdout = [], exec_stderr = [], error_message = None\<rparr>)\<rparr>,
     bc_cwd = ''/'', bc_sandboxId = ''n1'', bc_workspacePath = ''/w'',
     bc_exec = (\<lambda>_ _. eff_return \<lparr>exit_code = 0, exec_stdout = [], exec_stderr = [], error_message = None\<rparr>)\<rparr>"

definition two_threads :: "box_call list" where
  "two_threads = [EnsureReady Codex False (Some ''/w/a''), EnsureReady Codex False (Some ''/w/b'')]"

definition second_thread :: "unit box_environment" where
  "second_thread = the (run_events (box_step calm_config) (new_box ()) two_threads)"

lemma second_thread_run: "run_events (box_step calm_config) (new_box ()) two_threads = Some second_thread"
  by (simp add: second_thread_def two_threads_def box_step_def)

theorem box_lock_lifecycle_witness:
  "run_events lifecycle (False, False) (ss_trace (bx_state second_thread)) = Some (bx_starting second_thread \<noteq> None, bx_starting second_thread \<noteq> None)"
  using box_lock_lifecycle [OF second_thread_run] by (rule conjunct1)




end
