(* ===== verification/Decimal_Text.thy ===== *)
theory Decimal_Text
  imports Relay_Prelude
begin

text \<open>
  Splitting a text at a character, and the decimal form of a number: reading it back gives the number, so two
  numbers have different texts.
\<close>

fun split_at :: "char \<Rightarrow> string \<Rightarrow> string list" where
  "split_at d [] = [[]]"
| "split_at d (c # cs) =
     (if c = d then [] # split_at d cs
      else case split_at d cs of [] \<Rightarrow> [[c]] | s # ss \<Rightarrow> (c # s) # ss)"

definition digit :: "char \<Rightarrow> bool" where
  "digit c \<longleftrightarrow> 48 \<le> (of_char c :: nat) \<and> (of_char c :: nat) \<le> 57"

definition decimal :: "string \<Rightarrow> nat" where
  "decimal s = foldl (\<lambda>n c. n * 10 + (of_char c - 48)) 0 s"

text \<open>\<open>s.split(/\r?\n/)\<close>.\<close>

definition drop_return :: "string \<Rightarrow> string" where
  "drop_return line = (if line \<noteq> [] \<and> last line = CHR 0x0D then butlast line else line)"

definition crlf_lines :: "string \<Rightarrow> string list" where
  "crlf_lines s = (let ps = split_at (CHR 0x0A) s in map drop_return (butlast ps) @ [last ps])"

section \<open>Splitting\<close>

lemma split_at_append: "d \<notin> set a \<Longrightarrow> split_at d (a @ d # b) = a # split_at d b"
  by (induction a) auto

lemma split_at_single: "d \<notin> set a \<Longrightarrow> split_at d a = [a]"
  by (induction a) auto

lemma split_at_not_Nil [simp]: "split_at d s \<noteq> []"
  by (cases s) (auto split: list.split)

lemma split_join:
  assumes "es \<noteq> []" and "\<forall>e \<in> set es. d \<notin> set e"
  shows "split_at d (js_join [d] es) = es"
  using assms
proof (induction es)
  case (Cons e es)
  show ?case
  proof (cases es)
    case Nil
    with Cons.prems show ?thesis by (simp add: split_at_single)
  next
    case (Cons f fs)
    with Cons.IH Cons.prems show ?thesis by (simp add: split_at_append)
  qed
qed simp

section \<open>Decimal numbers\<close>

lemma digit_char: "(k :: nat) < 10 \<Longrightarrow> digit (char_of (48 + k))"
  by (simp add: digit_def)

lemma show_nat_digits: "list_all digit (show_nat n) \<and> show_nat n \<noteq> []"
proof (induction n rule: show_nat.induct)
  case (1 n)
  then show ?case by (subst (1 2) show_nat.simps) (auto intro: digit_char)
qed

lemma decimal_snoc: "decimal (s @ [c]) = decimal s * 10 + (of_char c - 48)"
  by (simp add: decimal_def)

lemma decimal_show_nat: "decimal (show_nat n) = n"
proof (induction n rule: show_nat.induct)
  case (1 n)
  show ?case
  proof (cases "n < 10")
    case True
    then show ?thesis by (subst show_nat.simps) (simp add: decimal_def)
  next
    case False
    with 1 show ?thesis by (subst show_nat.simps) (simp add: decimal_snoc)
  qed
qed

lemma show_nat_eq [simp]: "show_nat m = show_nat n \<longleftrightarrow> m = n"
  by (metis decimal_show_nat)

lemma show_nat_chars: "c \<in> set (show_nat n) \<Longrightarrow> digit c"
  using show_nat_digits [of n] by (simp add: list_all_iff)

end
