(* ===== verification/Local_Provider.thy ===== *)
theory Local_Provider
  imports Managed_Reconcile Agent_Home Step_Machine Decimal_Text
begin

text \<open>
  The provider the managed reconciler uses for local nodes: \<open>LocalProcessProvider\<close> of
  \<open>packages/relay-supervisor/src/providers.ts\<close>. Processes, \<open>ps\<close>, signals and the clock are effects of
  \<open>provider_env\<close>; the state directory is a map from paths to the states written there. \<open>pv_trace\<close> records
  what is spawned, observed and signalled.
\<close>

section \<open>Instance identities\<close>

definition encodeIdentity :: "string \<Rightarrow> string" where
  "encodeIdentity v = base64url (utf8_bytes v)"

definition instance_name :: "nat \<Rightarrow> string \<Rightarrow> string \<Rightarrow> string" where
  "instance_name pid workspaceId processStart =
     ''local-process:'' @ show_nat pid @ '':'' @ encodeIdentity workspaceId @ '':'' @ encodeIdentity processStart"

definition MAX_SAFE_INTEGER :: nat where "MAX_SAFE_INTEGER = 9007199254740991"

text \<open>\<open>Buffer.from(s, "base64url").toString("utf8")\<close>.\<close>

definition sextet_value :: "char \<Rightarrow> nat" where
  "sextet_value c = length (takeWhile (\<lambda>x. x \<noteq> c) base64url_alphabet)"

definition decodeIdentity :: "string \<Rightarrow> string" where
  "decodeIdentity s = utf8_text (unsextets (map sextet_value s))"

record process_identity =
  pi_pid :: nat
  pi_workspaceId :: string
  pi_processStart :: string

definition localProcessIdentity :: "string \<Rightarrow> process_identity option" where
  "localProcessIdentity instanceId =
     (case split_at (CHR '':'') instanceId of
        [kind, pid, workspace, start] \<Rightarrow>
          if kind = ''local-process'' \<and> pid \<noteq> [] \<and> list_all digit pid \<and>
             workspace \<noteq> [] \<and> set workspace \<subseteq> set base64url_alphabet \<and> start \<noteq> [] \<and> set start \<subseteq> set base64url_alphabet
          then if 0 < decimal pid \<and> decimal pid \<le> MAX_SAFE_INTEGER
               then Some \<lparr>pi_pid = decimal pid, pi_workspaceId = decodeIdentity workspace, pi_processStart = decodeIdentity start\<rparr>
               else None
          else None
      | _ \<Rightarrow> None)"

section \<open>Facts about identities\<close>

lemma sextet_value_char: "n < 64 \<Longrightarrow> sextet_value (sextet_char n) = n"
proof -
  have "list_all (\<lambda>n. sextet_value (sextet_char n) = n) [0 ..< 64]"
    by code_simp
  then show "n < 64 \<Longrightarrow> ?thesis" by (simp add: list_all_iff)
qed

lemma decode_sextets: "list_all (\<lambda>b. b < 256) bs \<Longrightarrow> unsextets (map sextet_value (base64url bs)) = bs"
proof -
  assume bs: "list_all (\<lambda>b. b < 256) bs"
  have "map sextet_value (base64url bs) = sextets bs"
    using sextets_bound [OF bs] unfolding base64url_def
    by (induction "sextets bs") (auto simp: list_all_iff sextet_value_char map_idI)
  with unsextets_sextets [OF bs] show ?thesis by simp
qed

lemma decode_encode: "decodeIdentity (encodeIdentity s) = s"
  by (simp add: decodeIdentity_def encodeIdentity_def decode_sextets [OF utf8_bytes_bound] utf8_text_bytes)

lemma encode_chars: "set (encodeIdentity s) \<subseteq> set base64url_alphabet"
  using base64url_chars [OF utf8_bytes_bound] by (auto simp: encodeIdentity_def)

lemma encode_not_Nil: "s \<noteq> [] \<Longrightarrow> encodeIdentity s \<noteq> []"
proof
  assume "s \<noteq> []" and "encodeIdentity s = []"
  then show False using decode_encode [of s] by (simp add: decodeIdentity_def)
qed

lemma colon_not_encoded: "CHR '':'' \<notin> set (encodeIdentity s)"
proof
  assume "CHR '':'' \<in> set (encodeIdentity s)"
  with encode_chars have "CHR '':'' \<in> set base64url_alphabet" by blast
  then show False by (simp add: base64url_alphabet_def)
qed

lemma identity_of_name:
  assumes "0 < pid" and "pid \<le> MAX_SAFE_INTEGER" and "workspaceId \<noteq> []" and "processStart \<noteq> []"
  shows "localProcessIdentity (instance_name pid workspaceId processStart) =
    Some \<lparr>pi_pid = pid, pi_workspaceId = workspaceId, pi_processStart = processStart\<rparr>"
proof -
  have "CHR '':'' \<notin> set (show_nat pid)"
    using show_nat_digits [of pid] by (auto simp: list_all_iff digit_def)
  then have "split_at (CHR '':'') (''local-process'' @ CHR '':'' # (show_nat pid @ CHR '':'' # (encodeIdentity workspaceId @ CHR '':'' # encodeIdentity processStart))) =
      [''local-process'', show_nat pid, encodeIdentity workspaceId, encodeIdentity processStart]"
    using colon_not_encoded by (subst split_at_append, simp)+ (simp add: split_at_single)
  then have "split_at (CHR '':'') (instance_name pid workspaceId processStart) =
      [''local-process'', show_nat pid, encodeIdentity workspaceId, encodeIdentity processStart]"
    by (simp add: instance_name_def)
  then show ?thesis
    using assms show_nat_digits [of pid] encode_chars encode_not_Nil
    by (simp add: localProcessIdentity_def decimal_show_nat decode_encode)
qed

section \<open>State\<close>

datatype allocation_status = Allocating | Running

record provider_state =
  ps_status :: allocation_status
  ps_instanceId :: "string option"
  ps_createdAt :: "string option"

datatype provider_event =
    Spawned nat ensure_input                          \<comment> \<open>the daemon process of an \<open>ensure\<close>, with its pid\<close>
  | Observed nat "string option" "string option"      \<comment> \<open>the command and start time \<open>ps\<close> gave for a pid\<close>
  | Signalled nat string

text \<open>
  \<open>pe_spawn\<close> is \<open>spawn\<close> with \<open>waitForSpawn\<close>: it gives a handle of the child and its pid; \<open>pe_exited\<close> says
  whether the child of a handle has an exit code or signal, \<open>pe_awaitExit\<close> is \<open>waitForChildExit\<close>;
  \<open>pe_elsewhere\<close> are the things that may happen outside between two calls.
\<close>

record 'w provider_env =
  pe_stateDirectory :: string
  pe_stopTimeoutMs :: int
  pe_allocationStaleMs :: int
  pe_now :: "'w \<Rightarrow> int"
  pe_iso :: "int \<Rightarrow> string"
  pe_parseDate :: "string \<Rightarrow> int option"
  pe_mkdir :: "string \<Rightarrow> ('w, string, unit) effect"
  pe_spawn :: "ensure_input \<Rightarrow> ('w, string, nat \<times> nat option) effect"
  pe_exited :: "nat \<Rightarrow> 'w \<Rightarrow> bool"
  pe_kill :: "nat \<Rightarrow> string \<Rightarrow> ('w, string, unit) effect"
  pe_awaitExit :: "nat \<Rightarrow> int \<Rightarrow> ('w, string, unit) effect"
  pe_readCommand :: "nat \<Rightarrow> ('w, string, string option) effect"
  pe_readStart :: "nat \<Rightarrow> ('w, string, string option) effect"
  pe_signal :: "nat \<Rightarrow> string \<Rightarrow> ('w, string, unit) effect"
  pe_noSuchProcess :: "string \<Rightarrow> bool"
  pe_delay :: "('w, string, unit) effect"
  pe_elsewhere :: "nat \<Rightarrow> 'w \<Rightarrow> 'w"

text \<open>\<open>pv_files\<close>: \<open>Inl\<close> is a state file that cannot be read or parsed.\<close>

record 'w provider =
  pv_world :: 'w
  pv_children :: "string \<rightharpoonup> nat"
  pv_instancesByGeneration :: "string \<rightharpoonup> string"
  pv_generationByInstance :: "string \<rightharpoonup> string"
  pv_files :: "string \<rightharpoonup> string + provider_state"
  pv_trace :: "provider_event list"

definition in_provider :: "('w, 'e, 'a) effect \<Rightarrow> ('w provider, 'e, 'a) effect" where
  "in_provider m = (\<lambda>s. case m (pv_world s) of (r, w) \<Rightarrow> (r, s\<lparr>pv_world := w\<rparr>))"

definition provider_note :: "provider_event \<Rightarrow> ('w provider, 'e, unit) effect" where
  "provider_note e = eff_modify (\<lambda>s. s\<lparr>pv_trace := pv_trace s @ [e]\<rparr>)"

section \<open>State files\<close>

definition generation_key :: "managed_node \<Rightarrow> string" where
  "generation_key n = mn_id n @ '':'' @ show_int (mn_generation n)"

definition statePath :: "'w provider_env \<Rightarrow> string \<Rightarrow> string" where
  "statePath env key = path_join (pe_stateDirectory env) (encodeIdentity key @ ''.json'')"

definition readProviderState :: "string \<Rightarrow> ('w provider, string, provider_state option) effect" where
  "readProviderState path = (\<lambda>s. case pv_files s path of
       None \<Rightarrow> (Inr None, s) | Some (Inl e) \<Rightarrow> (Inl e, s) | Some (Inr st) \<Rightarrow> (Inr (Some st), s))"

definition writeProviderState :: "string \<Rightarrow> provider_state \<Rightarrow> ('w provider, string, unit) effect" where
  "writeProviderState path st = eff_modify (\<lambda>s. s\<lparr>pv_files := (pv_files s)(path \<mapsto> Inr st)\<rparr>)"

definition removeState :: "string \<Rightarrow> ('w provider, string, unit) effect" where
  "removeState path = eff_modify (\<lambda>s. s\<lparr>pv_files := (pv_files s)(path := None)\<rparr>)"

definition clearState :: "'w provider_env \<Rightarrow> string \<Rightarrow> string \<Rightarrow> ('w provider, string, unit) effect" where
  "clearState env key instanceId =
     eff_bind (readProviderState (statePath env key)) (\<lambda>st.
       if Option.bind st ps_instanceId = Some instanceId then removeState (statePath env key) else eff_return ())"

section \<open>Inspecting and stopping\<close>

definition observe :: "'w provider_env \<Rightarrow> nat \<Rightarrow> ('w provider, string, string option \<times> string option) effect" where
  "observe env pid =
     eff_bind (in_provider (pe_readCommand env pid)) (\<lambda>command.
     eff_bind (in_provider (pe_readStart env pid)) (\<lambda>start.
     eff_bind (provider_note (Observed pid command start)) (\<lambda>_. eff_return (command, start))))"

definition matches_identity :: "process_identity \<Rightarrow> string option \<Rightarrow> string option \<Rightarrow> bool" where
  "matches_identity i command start \<longleftrightarrow> js_truthy command \<and> js_truthy start \<and>
     js_includes (the command) ''relay-daemon'' \<and> js_includes (the command) (pi_workspaceId i) \<and> start = Some (pi_processStart i)"

definition provider_inspect :: "'w provider_env \<Rightarrow> string \<Rightarrow> ('w provider, string, instance_status) effect" where
  "provider_inspect env instanceId = (\<lambda>s.
     case pv_children s instanceId of
       Some child \<Rightarrow> (Inr (if pe_exited env child (pv_world s) then inst_stopped else inst_running), s)
     | None \<Rightarrow> (case localProcessIdentity instanceId of
           None \<Rightarrow> (Inr inst_unknown, s)
         | Some i \<Rightarrow> eff_bind (observe env (pi_pid i)) (\<lambda>(command, start).
             eff_return (if \<not> js_truthy command \<or> \<not> js_truthy start then inst_stopped
                         else if matches_identity i command start then inst_running else inst_unknown)) s))"

definition terminateChild :: "'w provider_env \<Rightarrow> nat \<Rightarrow> string \<Rightarrow> ('w, string, unit) effect" where
  "terminateChild env child name = (\<lambda>w.
     if pe_exited env child w then (Inr (), w)
     else eff_bind (pe_kill env child ''SIGTERM'') (\<lambda>_.
          eff_bind (pe_awaitExit env child (pe_stopTimeoutMs env)) (\<lambda>_.
          eff_bind (\<lambda>w. if pe_exited env child w then (Inr (), w)
                        else eff_bind (pe_kill env child ''SIGKILL'') (\<lambda>_. pe_awaitExit env child (pe_stopTimeoutMs env)) w) (\<lambda>_ w.
          if pe_exited env child w then (Inr (), w)
          else (Inl (''Managed daemon '' @ name @ '' did not exit.''), w)))) w)"

text \<open>
  \<open>waitUntilStopped\<close>, with fuel: \<open>None\<close> when the given number of inspections was not enough.
\<close>

fun wait_until_stopped :: "nat \<Rightarrow> 'w provider_env \<Rightarrow> int \<Rightarrow> string \<Rightarrow> 'w provider \<Rightarrow> ((string + bool) \<times> 'w provider) option" where
  "wait_until_stopped 0 env deadline instanceId s = None"
| "wait_until_stopped (Suc n) env deadline instanceId s =
     (case provider_inspect env instanceId s of
        (Inl e, t) \<Rightarrow> Some (Inl e, t)
      | (Inr status, t) \<Rightarrow>
          if status \<noteq> inst_running then Some (Inr True, t)
          else if deadline \<le> pe_now env (pv_world t) then Some (Inr False, t)
          else (case in_provider (pe_delay env) t of
                  (Inl e, u) \<Rightarrow> Some (Inl e, u)
                | (Inr _, u) \<Rightarrow> wait_until_stopped n env deadline instanceId u))"

definition wait_stopped :: "nat \<Rightarrow> 'w provider_env \<Rightarrow> string \<Rightarrow> 'w provider \<Rightarrow> ((string + bool) \<times> 'w provider) option" where
  "wait_stopped n env instanceId s = wait_until_stopped n env (pe_now env (pv_world s) + pe_stopTimeoutMs env) instanceId s"

definition send_signal :: "'w provider_env \<Rightarrow> nat \<Rightarrow> string \<Rightarrow> ('w provider, string, unit) effect" where
  "send_signal env pid sig = eff_bind (provider_note (Signalled pid sig)) (\<lambda>_. in_provider (pe_signal env pid sig))"

definition await_or_kill :: "nat \<Rightarrow> 'w provider_env \<Rightarrow> string \<Rightarrow> nat \<Rightarrow> 'w provider \<Rightarrow> ((string + unit) \<times> 'w provider) option" where
  "await_or_kill n env instanceId pid s =
     (case wait_stopped n env instanceId s of
        None \<Rightarrow> None
      | Some (Inl e, t) \<Rightarrow> Some (Inl e, t)
      | Some (Inr True, t) \<Rightarrow> Some (Inr (), t)
      | Some (Inr False, t) \<Rightarrow> (case send_signal env pid ''SIGKILL'' t of
          (Inl e, u) \<Rightarrow> Some (Inl e, u)
        | (Inr _, u) \<Rightarrow> (case wait_stopped n env instanceId u of
            None \<Rightarrow> None
          | Some (Inl e, v) \<Rightarrow> Some (Inl e, v)
          | Some (Inr True, v) \<Rightarrow> Some (Inr (), v)
          | Some (Inr False, v) \<Rightarrow> Some (Inl (''Managed daemon '' @ instanceId @ '' did not exit.''), v))))"

definition provider_stop :: "nat \<Rightarrow> 'w provider_env \<Rightarrow> string \<Rightarrow> 'w provider \<Rightarrow> ((string + unit) \<times> 'w provider) option" where
  "provider_stop n env instanceId s =
     (case pv_children s instanceId of
        Some child \<Rightarrow> Some (in_provider (terminateChild env child instanceId) s)
      | None \<Rightarrow> (case localProcessIdentity instanceId of
          None \<Rightarrow> Some (Inr (), s)
        | Some i \<Rightarrow> (case provider_inspect env instanceId s of
            (Inl e, t) \<Rightarrow> Some (Inl e, t)
          | (Inr status, t) \<Rightarrow>
              if status \<noteq> inst_running then Some (Inr (), t)
              else (case eff_catch (send_signal env (pi_pid i) ''SIGTERM'')
                           (\<lambda>e. if pe_noSuchProcess env e then eff_return () else eff_throw e) t of
                (Inl e, u) \<Rightarrow> Some (Inl e, u)
              | (Inr _, u) \<Rightarrow> await_or_kill n env instanceId (pi_pid i) u))))"

definition forget :: "string \<Rightarrow> 'w provider \<Rightarrow> 'w provider" where
  "forget instanceId s =
     s\<lparr>pv_children := (pv_children s)(instanceId := None),
       pv_instancesByGeneration := (case pv_generationByInstance s instanceId of
          Some key \<Rightarrow> if js_truthy (Some key) \<and> pv_instancesByGeneration s key = Some instanceId
                      then (pv_instancesByGeneration s)(key := None) else pv_instancesByGeneration s
        | None \<Rightarrow> pv_instancesByGeneration s),
       pv_generationByInstance := (pv_generationByInstance s)(instanceId := None)\<rparr>"

definition provider_delete :: "nat \<Rightarrow> 'w provider_env \<Rightarrow> string \<Rightarrow> 'w provider \<Rightarrow> ((string + unit) \<times> 'w provider) option" where
  "provider_delete n env instanceId s =
     (case provider_stop n env instanceId s of
        None \<Rightarrow> None
      | Some (Inl e, t) \<Rightarrow> Some (Inl e, t)
      | Some (Inr _, t) \<Rightarrow> Some (case pv_generationByInstance t instanceId of
            Some key \<Rightarrow> if key \<noteq> [] then clearState env key instanceId (forget instanceId t) else (Inr (), forget instanceId t)
          | None \<Rightarrow> (Inr (), forget instanceId t)))"

section \<open>Starting\<close>

definition read_process_start :: "'w provider_env \<Rightarrow> nat \<Rightarrow> ('w, string, string) effect" where
  "read_process_start env pid =
     eff_bind (pe_readStart env pid) (\<lambda>start.
       if js_truthy start then eff_return (the start) else eff_throw ''Managed daemon process start identity could not be read.'')"

definition provider_start :: "'w provider_env \<Rightarrow> ensure_input \<Rightarrow> string \<Rightarrow> ('w provider, string, string) effect" where
  "provider_start env input key =
     eff_bind (in_provider (pe_mkdir env (ei_workspacePath input))) (\<lambda>_.
     eff_bind (in_provider (pe_spawn env input)) (\<lambda>(child, pid).
     case pid of
       None \<Rightarrow> eff_bind (in_provider (terminateChild env child ''pid:unknown''))
                 (\<lambda>_. eff_throw ''Managed daemon process started without a pid.'')
     | Some p \<Rightarrow>
         eff_bind (provider_note (Spawned p input)) (\<lambda>_.
         eff_bind (eff_catch (in_provider (read_process_start env p)) (\<lambda>e.
           eff_bind (eff_catch (in_provider (terminateChild env child (''pid:'' @ show_nat p)))
             (\<lambda>_. eff_throw ''Managed daemon initialization failed and its process could not be terminated.''))
             (\<lambda>_. eff_throw e))) (\<lambda>processStart.
         let instanceId = instance_name p (ei_workspaceId input) processStart in
         eff_bind (eff_modify (\<lambda>s. s\<lparr>pv_children := (pv_children s)(instanceId \<mapsto> child),
             pv_instancesByGeneration := (pv_instancesByGeneration s)(key \<mapsto> instanceId),
             pv_generationByInstance := (pv_generationByInstance s)(instanceId \<mapsto> key)\<rparr>))
           (\<lambda>_. eff_return instanceId)))))"

text \<open>The \<open>exit\<close> listener of a started child.\<close>

definition child_exits :: "'w provider_env \<Rightarrow> string \<Rightarrow> string \<Rightarrow> ('w provider, string, unit) effect" where
  "child_exits env key instanceId =
     eff_bind (eff_modify (\<lambda>s. s\<lparr>pv_children := (pv_children s)(instanceId := None),
         pv_instancesByGeneration := (if pv_instancesByGeneration s key = Some instanceId
           then (pv_instancesByGeneration s)(key := None) else pv_instancesByGeneration s),
         pv_generationByInstance := (pv_generationByInstance s)(instanceId := None)\<rparr>))
       (\<lambda>_. clearState env key instanceId)"

definition allocating_state :: "'w provider_env \<Rightarrow> 'w \<Rightarrow> provider_state" where
  "allocating_state env w = \<lparr>ps_status = Allocating, ps_instanceId = None, ps_createdAt = Some (pe_iso env (pe_now env w))\<rparr>"

definition running_state :: "string \<Rightarrow> provider_state" where
  "running_state instanceId = \<lparr>ps_status = Running, ps_instanceId = Some instanceId, ps_createdAt = None\<rparr>"

definition allocate :: "'w provider_env \<Rightarrow> ensure_input \<Rightarrow> string \<Rightarrow> ('w provider, string, string) effect" where
  "allocate env input key =
     (let path = statePath env key in
      eff_bind (in_provider (pe_mkdir env (pe_stateDirectory env))) (\<lambda>_.
      eff_bind (\<lambda>s. writeProviderState path (allocating_state env (pv_world s)) s) (\<lambda>_.
      eff_catch
        (eff_bind (provider_start env input key) (\<lambda>instanceId.
         eff_bind (writeProviderState path (running_state instanceId)) (\<lambda>_. eff_return instanceId)))
        (\<lambda>e. eff_bind (removeState path) (\<lambda>_. eff_throw e)))))"

definition stale_allocation :: "'w provider_env \<Rightarrow> 'w \<Rightarrow> provider_state \<Rightarrow> bool" where
  "stale_allocation env w st =
     (case (if js_truthy (ps_createdAt st) then pe_parseDate env (the (ps_createdAt st)) else None) of
        None \<Rightarrow> True
      | Some createdAt \<Rightarrow> pe_allocationStaleMs env \<le> pe_now env w - createdAt)"

definition live_child :: "'w provider_env \<Rightarrow> 'w provider \<Rightarrow> string \<Rightarrow> string option" where
  "live_child env s key =
     (case pv_instancesByGeneration s key of
        None \<Rightarrow> None
      | Some i \<Rightarrow> (case pv_children s i of
          None \<Rightarrow> None
        | Some child \<Rightarrow> if i = [] \<or> pe_exited env child (pv_world s) then None else Some i))"

definition adopt :: "string \<Rightarrow> string \<Rightarrow> 'w provider \<Rightarrow> 'w provider" where
  "adopt key instanceId s =
     s\<lparr>pv_instancesByGeneration := (pv_instancesByGeneration s)(key \<mapsto> instanceId),
       pv_generationByInstance := (pv_generationByInstance s)(instanceId \<mapsto> key)\<rparr>"

definition provider_ensure :: "'w provider_env \<Rightarrow> ensure_input \<Rightarrow> ('w provider, string, string) effect" where
  "provider_ensure env input = (\<lambda>s.
     let key = generation_key (ei_node input); path = statePath env key
     in case live_child env s key of
          Some i \<Rightarrow> (Inr i, s)
        | None \<Rightarrow>
            eff_bind (readProviderState path) (\<lambda>durable.
            case durable of
              None \<Rightarrow> allocate env input key
            | Some st \<Rightarrow>
                if js_truthy (ps_instanceId st)
                then let i = the (ps_instanceId st) in
                     eff_bind (provider_inspect env i) (\<lambda>status.
                       if status = inst_running then eff_bind (eff_modify (adopt key i)) (\<lambda>_. eff_return i)
                       else eff_bind (removeState path) (\<lambda>_. allocate env input key))
                else if ps_status st = Allocating
                then (\<lambda>s. if stale_allocation env (pv_world s) st
                     then eff_bind (removeState path) (\<lambda>_. allocate env input key) s
                     else (Inl (''Managed node '' @ key @ '' has an indeterminate local process allocation; refusing to create a duplicate.''), s))
                else allocate env input key) s)"

section \<open>The environment of a managed daemon\<close>

type_synonym daemon_env = "string \<rightharpoonup> string"

definition MANAGED_DAEMON_ENV_DENY :: "string list" where
  "MANAGED_DAEMON_ENV_DENY = [''RELAY_DAEMON_NODE_TOKEN'', ''RELAY_DAEMON_TOKEN'', ''RELAY_EMPLOYEE_ID'', ''RELAY_SANDBOX_ID'']"

fun add_missing :: "string list \<Rightarrow> string list \<Rightarrow> string list" where
  "add_missing entries [] = entries"
| "add_missing entries (r # rs) = add_missing (if r \<in> set entries then entries else entries @ [r]) rs"

definition mergeNoProxy :: "string option \<Rightarrow> string list \<Rightarrow> string" where
  "mergeNoProxy current required =
     js_join '','' (add_missing (filter (\<lambda>e. e \<noteq> []) (map js_trim (split_at (CHR '','') (case current of None \<Rightarrow> [] | Some c \<Rightarrow> c)))) required)"

definition proxy_names :: "string list" where
  "proxy_names = [''HTTP_PROXY'', ''HTTPS_PROXY'', ''ALL_PROXY'', ''http_proxy'', ''https_proxy'', ''all_proxy'']"

definition proxy_env :: "daemon_env \<Rightarrow> daemon_env" where
  "proxy_env env =
     (case env ''RELAY_BOXLITE_PROXY_URL'' of
        None \<Rightarrow> env
      | Some v \<Rightarrow> if js_trim v = [] then env
          else let withProxy = env ++ map_of (map (\<lambda>k. (k, js_trim v)) proxy_names);
                   noProxy = mergeNoProxy (js_coalesce (withProxy ''NO_PROXY'') (withProxy ''no_proxy'')) [''localhost'', ''127.0.0.1'', ''::1'']
               in withProxy(''NO_PROXY'' \<mapsto> noProxy, ''no_proxy'' \<mapsto> noProxy))"

definition managedDaemonEnv :: "daemon_env \<Rightarrow> ensure_input \<Rightarrow> daemon_env" where
  "managedDaemonEnv p input =
     (proxy_env (\<lambda>k. if k \<in> set MANAGED_DAEMON_ENV_DENY then None else p k))
       (''RELAY_BACKEND_URL'' \<mapsto> ei_backendUrl input, ''RELAY_ENROLLMENT_TOKEN'' \<mapsto> ei_enrollmentCredential input,
        ''RELAY_WORKSPACE'' \<mapsto> ei_workspacePath input, ''RELAY_WORKSPACE_ID'' \<mapsto> ei_workspaceId input,
        ''RELAY_SANDBOX_MODE'' \<mapsto> ''boxlite'')"

section \<open>State paths of different generations differ\<close>

lemma normal_snoc: "clean_segment x \<Longrightarrow> normal_segments r acc (segs @ [x]) = normal_segments r acc segs @ [x]"
  by (induction r acc segs rule: normal_segments.induct) (auto simp: clean_segment_def)

lemma path_segments_snoc: "SEP \<notin> set x \<Longrightarrow> path_segments (a @ SEP # x) = path_segments a @ [x]"
proof (induction a)
  case (Cons c cs)
  then show ?case by (cases "path_segments cs") auto
qed (simp add: path_segments_one)

lemma last_segment: "SEP \<notin> set x \<Longrightarrow> last (path_segments (a @ SEP # x)) = x"
  by (simp add: path_segments_snoc)

lemma join_last_segment:
  assumes "clean_segment x"
  shows "last (path_segments (path_join d x)) = x"
proof -
  have x: "SEP \<notin> set x" "x \<noteq> []" using assms by (simp_all add: clean_segment_def)
  let ?p = "js_join [SEP] (filter (\<lambda>s. s \<noteq> []) [d, x])"
  have p: "path_segments ?p = (if d = [] then [x] else path_segments d @ [x])" "?p \<noteq> []" "last ?p \<noteq> SEP"
    using x by (auto simp: path_segments_snoc path_segments_one) (metis last_in_set)+
  obtain ys where ys: "normal_segments (absolute_path ?p) [] (path_segments ?p) = ys @ [x]"
  proof -
    have "path_segments ?p = (if d = [] then [] else path_segments d) @ [x]" using p(1) by simp
    then show ?thesis using normal_snoc [OF assms] by (metis that)
  qed
  have body: "\<exists>a. js_join [SEP] (ys @ [x]) = a @ x \<and> (a = [] \<or> last a = SEP)"
  proof (cases "ys = []")
    case False
    then show ?thesis using js_join_append [of ys "[x]" "[SEP]"] by (intro exI [where x = "js_join [SEP] ys @ [SEP]"]) simp
  qed simp
  then obtain a where a: "js_join [SEP] (ys @ [x]) = a @ x" "a = [] \<or> last a = SEP" by blast
  have "path_join d x = (if absolute_path ?p then [SEP] else []) @ a @ x"
    using p x ys a(1) by (simp add: path_join_def path_normalize_def Let_def)
  moreover have "\<exists>c. (if absolute_path ?p then [SEP] else []) @ a = c @ [SEP] \<or> (if absolute_path ?p then [SEP] else []) @ a = []"
    using a(2) by (cases a rule: rev_cases) auto
  ultimately show ?thesis using x last_segment [OF x(1)] path_segments_one [OF x(1)]
    by (metis append.assoc append_Cons append_Nil last_ConsL)
qed

lemma state_file_segment: "clean_segment (encodeIdentity key @ ''.json'')"
proof -
  have "SEP \<notin> set base64url_alphabet" by (simp add: base64url_alphabet_def SEP_def)
  with encode_chars [of key] have "SEP \<notin> set (encodeIdentity key)" by blast
  then show ?thesis by (cases "encodeIdentity key") (auto simp: clean_segment_def SEP_def)
qed

lemma statePath_inj: "statePath env k = statePath env l \<Longrightarrow> k = l"
  using join_last_segment [OF state_file_segment, of "pe_stateDirectory env" k]
    join_last_segment [OF state_file_segment, of "pe_stateDirectory env" l] decode_encode
  unfolding statePath_def by (metis append_same_eq)

section \<open>The provider as a machine\<close>

text \<open>Each call runs to its end; a restarted supervisor starts with empty maps and the same state directory.\<close>

datatype provider_call =
    EnsureNode ensure_input | StopInstance string | DeleteInstance string | ChildExit string string
  | Elsewhere nat | Restart

definition restarted :: "'w provider \<Rightarrow> 'w provider" where
  "restarted s = s\<lparr>pv_children := Map.empty, pv_instancesByGeneration := Map.empty, pv_generationByInstance := Map.empty\<rparr>"

fun provider_step :: "nat \<Rightarrow> 'w provider_env \<Rightarrow> 'w provider \<Rightarrow> provider_call \<Rightarrow> 'w provider option" where
  "provider_step n env s (EnsureNode input) = Some (snd (provider_ensure env input s))"
| "provider_step n env s (StopInstance i) = map_option snd (provider_stop n env i s)"
| "provider_step n env s (DeleteInstance i) = map_option snd (provider_delete n env i s)"
| "provider_step n env s (ChildExit key i) =
     (case pv_children s i of
        None \<Rightarrow> None
      | Some c \<Rightarrow> if pe_exited env c (pv_world s) then Some (snd (child_exits env key i s)) else None)"
| "provider_step n env s (Elsewhere k) = Some (s\<lparr>pv_world := pe_elsewhere env k (pv_world s)\<rparr>)"
| "provider_step n env s Restart = Some (restarted s)"

section \<open>What the calls leave alone\<close>

text \<open>Effects that change only the world and the trace.\<close>

definition only_world :: "'w provider \<Rightarrow> 'w provider \<Rightarrow> bool" where
  "only_world s t \<longleftrightarrow> pv_children t = pv_children s \<and> pv_instancesByGeneration t = pv_instancesByGeneration s \<and>
     pv_generationByInstance t = pv_generationByInstance s \<and> pv_files t = pv_files s"

lemma only_world_refl [simp]: "only_world s s"
  by (simp add: only_world_def)

lemma only_world_trans: "only_world s t \<Longrightarrow> only_world t u \<Longrightarrow> only_world s u"
  by (simp add: only_world_def)

definition worldly :: "('w provider, string, 'a) effect \<Rightarrow> bool" where
  "worldly m \<longleftrightarrow> (\<forall>s. only_world s (snd (m s)))"

lemma worldlyD: "worldly m \<Longrightarrow> m s = (r, t) \<Longrightarrow> only_world s t"
  unfolding worldly_def by (metis snd_conv)

named_theorems worldly_rules

lemma worldly_prims [worldly_rules]: "worldly (eff_return a)" "worldly (eff_throw e)" "worldly (provider_note x)"
  by (simp_all add: worldly_def eff_return_def eff_throw_def provider_note_def eff_modify_def only_world_def)

lemma worldly_in [worldly_rules]: "worldly (in_provider m)"
  by (auto simp: worldly_def in_provider_def only_world_def split: prod.split)

lemma worldly_bind [worldly_rules]: "worldly m \<Longrightarrow> (\<And>a. worldly (f a)) \<Longrightarrow> worldly (eff_bind m f)"
  unfolding worldly_def eff_bind_def
  by (auto split: prod.split sum.split) (metis only_world_trans snd_conv)+

lemma worldly_catch [worldly_rules]: "worldly m \<Longrightarrow> (\<And>e. worldly (f e)) \<Longrightarrow> worldly (eff_catch m f)"
  unfolding worldly_def eff_catch_def
  by (auto split: prod.split sum.split) (metis only_world_trans snd_conv)+

lemma worldly_if [worldly_rules]: "worldly m \<Longrightarrow> worldly n \<Longrightarrow> worldly (if b then m else n)"
  by simp

lemma worldly_prod [worldly_rules]: "(\<And>a b. worldly (f a b)) \<Longrightarrow> worldly (case x of (a, b) \<Rightarrow> f a b)"
  by (cases x) simp

lemma worldly_observe [worldly_rules]: "worldly (observe env pid)"
  unfolding observe_def by (intro worldly_rules)

lemma worldly_send [worldly_rules]: "worldly (send_signal env pid sig)"
  unfolding send_signal_def by (intro worldly_rules)

lemma worldly_inspect [worldly_rules]: "worldly (provider_inspect env i)"
proof -
  have "worldly (eff_bind (observe env p) (\<lambda>(command, start). eff_return (f command start)))"
    for p and f :: "string option \<Rightarrow> string option \<Rightarrow> instance_status"
    by (intro worldly_rules)
  then show ?thesis
    by (auto simp: worldly_def provider_inspect_def split: option.split)
qed

lemma wait_only_world: "wait_until_stopped n env d i s = Some (r, t) \<Longrightarrow> only_world s t"
proof (induction n arbitrary: s)
  case (Suc n)
  then show ?case
    by (auto split: prod.splits sum.splits if_splits dest!: worldlyD [OF worldly_inspect] worldlyD [OF worldly_in]
        intro: only_world_trans)
qed simp

lemma kill_only_world: "await_or_kill n env i p s = Some (r, t) \<Longrightarrow> only_world s t"
  unfolding await_or_kill_def wait_stopped_def
  by (auto split: option.splits prod.splits sum.splits bool.splits dest!: wait_only_world worldlyD [OF worldly_send])
    (meson only_world_trans)+

lemma stop_only_world:
  assumes "provider_stop n env i s = Some (r, t)"
  shows "only_world s t"
proof -
  have catch: "worldly (eff_catch (send_signal env p sig) (\<lambda>e. if pe_noSuchProcess env e then eff_return () else eff_throw e))"
    for p sig by (intro worldly_rules)
  note steps = worldlyD [OF worldly_inspect] worldlyD [OF worldly_in] worldlyD [OF catch] kill_only_world
  from assms show ?thesis
    unfolding provider_stop_def
    by (auto split: option.splits prod.splits sum.splits if_splits dest!: steps) (meson only_world_trans)+
qed

text \<open>The state file of one generation is touched only by calls for that generation or its instance.\<close>

definition keeps_file :: "string \<Rightarrow> ('w provider, string, 'a) effect \<Rightarrow> bool" where
  "keeps_file q m \<longleftrightarrow> (\<forall>s. pv_files (snd (m s)) q = pv_files s q)"

named_theorems file_rules

lemma keeps_worldly [file_rules]: "worldly m \<Longrightarrow> keeps_file q m"
  by (simp add: keeps_file_def worldly_def only_world_def)

lemma keeps_maps [file_rules]: "(\<And>s. pv_files (f s) = pv_files s) \<Longrightarrow> keeps_file q (eff_modify f)"
  by (simp add: keeps_file_def eff_modify_def)

lemma keeps_write [file_rules]: "p \<noteq> q \<Longrightarrow> keeps_file q (writeProviderState p st)"
  by (simp add: keeps_file_def writeProviderState_def eff_modify_def)

lemma keeps_write_now: "p \<noteq> q \<Longrightarrow> keeps_file q (\<lambda>s. writeProviderState p (f s) s)"
  by (simp add: keeps_file_def writeProviderState_def eff_modify_def)

lemma keeps_remove [file_rules]: "p \<noteq> q \<Longrightarrow> keeps_file q (removeState p)"
  by (simp add: keeps_file_def removeState_def eff_modify_def)

lemma keeps_read [file_rules]: "keeps_file q (readProviderState p)"
  by (simp add: keeps_file_def readProviderState_def split: option.split sum.split)

lemma keeps_bind [file_rules]: "keeps_file q m \<Longrightarrow> (\<And>a. keeps_file q (f a)) \<Longrightarrow> keeps_file q (eff_bind m f)"
  unfolding keeps_file_def eff_bind_def
  by (auto split: prod.split sum.split) (metis snd_conv)+

lemma keeps_catch [file_rules]: "keeps_file q m \<Longrightarrow> (\<And>e. keeps_file q (f e)) \<Longrightarrow> keeps_file q (eff_catch m f)"
  unfolding keeps_file_def eff_catch_def
  by (auto split: prod.split sum.split) (metis snd_conv)+

lemma keeps_if: "keeps_file q m \<Longrightarrow> keeps_file q n \<Longrightarrow> keeps_file q (if b then m else n)"
  by simp

lemma keeps_option: "keeps_file q m \<Longrightarrow> (\<And>a. keeps_file q (f a)) \<Longrightarrow> keeps_file q (case x of None \<Rightarrow> m | Some a \<Rightarrow> f a)"
  by (cases x) simp_all

lemma keeps_prod: "(\<And>a b. keeps_file q (f a b)) \<Longrightarrow> keeps_file q (case x of (a, b) \<Rightarrow> f a b)"
  by (cases x) simp

lemma keeps_start: "keeps_file q (provider_start env input key)"
  unfolding provider_start_def Let_def
  by (intro file_rules keeps_option keeps_prod worldly_rules) simp_all

lemma keeps_allocate: "statePath env key \<noteq> q \<Longrightarrow> keeps_file q (allocate env input key)"
  unfolding allocate_def Let_def
  by (intro file_rules keeps_write_now keeps_start worldly_rules)

lemma keeps_ensure:
  assumes "statePath env (generation_key (ei_node input)) \<noteq> q"
  shows "keeps_file q (provider_ensure env input)"
proof -
  let ?key = "generation_key (ei_node input)"
  note allocate = keeps_allocate [OF assms, of input]
  have guarded: "keeps_file q (\<lambda>s. if stale_allocation env (pv_world s) st
      then eff_bind (removeState (statePath env ?key)) (\<lambda>_. allocate env input ?key) s else (Inl e, s))" for st e
    using keeps_bind [OF keeps_remove [OF assms] allocate] by (simp add: keeps_file_def)
  have "keeps_file q (eff_bind (readProviderState (statePath env ?key)) (\<lambda>durable.
      case durable of None \<Rightarrow> allocate env input ?key
      | Some st \<Rightarrow> if js_truthy (ps_instanceId st)
          then let i = the (ps_instanceId st) in
               eff_bind (provider_inspect env i) (\<lambda>status.
                 if status = inst_running then eff_bind (eff_modify (adopt ?key i)) (\<lambda>_. eff_return i)
                 else eff_bind (removeState (statePath env ?key)) (\<lambda>_. allocate env input ?key))
          else if ps_status st = Allocating
          then (\<lambda>s. if stale_allocation env (pv_world s) st
               then eff_bind (removeState (statePath env ?key)) (\<lambda>_. allocate env input ?key) s
               else (Inl (''Managed node '' @ ?key @ '' has an indeterminate local process allocation; refusing to create a duplicate.''), s))
          else allocate env input ?key))"
    unfolding Let_def
    by (intro keeps_bind keeps_option keeps_if guarded allocate file_rules worldly_rules assms) (simp add: adopt_def)
  then show ?thesis
    unfolding keeps_file_def provider_ensure_def Let_def
    by (intro allI, case_tac "live_child env s ?key") simp_all
qed

definition state_names :: "'w provider_env \<Rightarrow> string \<Rightarrow> string \<Rightarrow> 'w provider \<Rightarrow> bool" where
  "state_names env key i s \<longleftrightarrow>
     (case pv_files s (statePath env key) of Some (Inr st) \<Rightarrow> ps_instanceId st = Some i | _ \<Rightarrow> False)"

fun unrelated :: "string \<Rightarrow> string \<Rightarrow> provider_call \<Rightarrow> bool" where
  "unrelated key i (EnsureNode input) \<longleftrightarrow> generation_key (ei_node input) \<noteq> key"
| "unrelated key i (DeleteInstance j) \<longleftrightarrow> j \<noteq> i"
| "unrelated key i (ChildExit k j) \<longleftrightarrow> j \<noteq> i"
| "unrelated key i (StopInstance j) \<longleftrightarrow> True"
| "unrelated key i (Elsewhere k) \<longleftrightarrow> True"
| "unrelated key i Restart \<longleftrightarrow> True"

lemma clear_keeps_name: "j \<noteq> i \<Longrightarrow> state_names env key i s \<Longrightarrow> state_names env key i (snd (clearState env k j s))"
  by (cases "statePath env k = statePath env key")
     (auto simp: state_names_def clearState_def eff_bind_def readProviderState_def removeState_def eff_modify_def eff_return_def
       split: option.splits sum.splits)

lemma forget_files [simp]: "pv_files (forget j s) = pv_files s"
  by (simp add: forget_def)

lemma names_cong: "pv_files s = pv_files t \<Longrightarrow> state_names env key i s = state_names env key i t"
  by (simp add: state_names_def)

lemma delete_keeps_name:
  assumes "j \<noteq> i" and "state_names env key i s" and "provider_delete n env j s = Some (r, t)"
  shows "state_names env key i t"
proof -
  obtain r' u where u: "provider_stop n env j s = Some (r', u)"
    using assms(3) by (auto simp: provider_delete_def split: option.splits)
  have names: "state_names env key i u" "state_names env key i (forget j u)"
    using stop_only_world [OF u] assms(2) names_cong [of s u] names_cong [of s "forget j u"] by (simp_all add: only_world_def)
  then show ?thesis
    using assms(3) u clear_keeps_name [OF assms(1) names(2)]
    by (auto simp: provider_delete_def split: sum.splits option.splits if_splits) (metis snd_conv)+
qed

lemma step_keeps_name:
  assumes "provider_step n env s c = Some t" and "unrelated key i c" and "state_names env key i s"
  shows "state_names env key i t"
  using assms
proof (cases c)
  case (EnsureNode input)
  then have "keeps_file (statePath env key) (provider_ensure env input)"
    using assms(2) keeps_ensure statePath_inj by (metis unrelated.simps(1))
  then show ?thesis using assms EnsureNode by (auto simp: keeps_file_def state_names_def)
next
  case (StopInstance j)
  then obtain r where "provider_stop n env j s = Some (r, t)" using assms(1) by auto
  from stop_only_world [OF this] assms(3) names_cong [of s t] show ?thesis by (simp add: only_world_def)
next
  case (DeleteInstance j)
  then show ?thesis using assms delete_keeps_name by fastforce
next
  case (ChildExit k j)
  have "state_names env key i (snd (child_exits env k j s))"
    unfolding child_exits_def
    using clear_keeps_name [of j i env key _ k] assms(2,3) ChildExit
    by (simp add: eff_bind_def eff_modify_def state_names_def)
  then show ?thesis using assms(1) ChildExit by (auto split: option.splits if_splits)
next
  case (Elsewhere k)
  then show ?thesis using assms by (auto simp: state_names_def)
next
  case Restart
  then show ?thesis using assms by (auto simp: state_names_def restarted_def)
qed

interpretation providers: guarded_machine "provider_step n env" "unrelated key i" "state_names env key i"
  for n and env :: "'w provider_env" and key i
  by unfold_locales (rule step_keeps_name)

section \<open>A restarted supervisor finds its processes\<close>

lemma allocate_names:
  assumes "allocate env input key s = (Inr i, t)"
  shows "state_names env key i t \<and> i \<noteq> []"
proof -
  have nonempty: "provider_start env input key u = (Inr j, v) \<Longrightarrow> j \<noteq> []" for u j v
    unfolding provider_start_def
    by (auto simp: eff_bind_def Let_def eff_return_def eff_throw_def instance_name_def split: prod.splits sum.splits option.splits)
  from assms show ?thesis
    unfolding allocate_def Let_def
    by (auto simp: eff_bind_def eff_catch_def eff_return_def eff_throw_def writeProviderState_def eff_modify_def
        state_names_def running_state_def split: prod.splits sum.splits dest: nonempty)
qed

lemma ensure_names:
  assumes "provider_ensure env input s = (Inr i, t)" and "live_child env s (generation_key (ei_node input)) = None"
  shows "state_names env (generation_key (ei_node input)) i t \<and> i \<noteq> []"
proof -
  let ?key = "generation_key (ei_node input)"
  have removed: "eff_bind (removeState p) (\<lambda>_. allocate env input ?key) u = (Inr i, t) \<Longrightarrow>
      state_names env ?key i t \<and> i \<noteq> []" for p u
    using allocate_names [of env input ?key] by (simp add: removeState_def eff_bind_def eff_modify_def)
  have adopted: "state_names env ?key j (adopt ?key j u) \<and> j \<noteq> []"
    if "pv_files s (statePath env ?key) = Some (Inr st)" and "js_truthy (ps_instanceId st)" and "j = the (ps_instanceId st)"
      and "provider_inspect env j s = (r, u)" for st j r u
    using that worldlyD [OF worldly_inspect that(4)] by (cases "ps_instanceId st") (auto simp: state_names_def adopt_def only_world_def)
  show ?thesis
  proof (cases "pv_files s (statePath env ?key)")
    case None
    then show ?thesis
      using assms allocate_names [of env input ?key s i t]
      by (simp add: provider_ensure_def Let_def eff_bind_def readProviderState_def)
  next
    case (Some f)
    then obtain st where st: "pv_files s (statePath env ?key) = Some (Inr st)"
      using assms by (cases f) (auto simp: provider_ensure_def Let_def eff_bind_def readProviderState_def)
    show ?thesis
    proof (cases "js_truthy (ps_instanceId st)")
      case True
      obtain r u where u: "provider_inspect env (the (ps_instanceId st)) s = (r, u)" by fastforce
      from assms show ?thesis
        using st True u adopted [OF st True refl u] removed [of "statePath env ?key" u]
        by (cases r) (auto simp: provider_ensure_def Let_def eff_bind_def readProviderState_def eff_modify_def eff_return_def split: if_splits)
    next
      case False
      with assms st show ?thesis
        using allocate_names [of env input ?key s i t] removed [of "statePath env ?key" s]
        by (simp add: provider_ensure_def Let_def eff_bind_def readProviderState_def split: if_splits)
    qed
  qed
qed

lemma ensure_adopts:
  assumes "state_names env (generation_key (ei_node input)) i s" and "i \<noteq> []"
    and "live_child env s (generation_key (ei_node input)) = None" and "provider_inspect env i s = (Inr inst_running, t)"
  shows "provider_ensure env input s = (Inr i, adopt (generation_key (ei_node input)) i t)"
  using assms
  by (auto simp: state_names_def provider_ensure_def Let_def eff_bind_def readProviderState_def eff_modify_def eff_return_def
      split: option.splits sum.splits)

text \<open>C22. A supervisor that is restarted does not start a second daemon: when \<open>ensure\<close> has started or adopted an
  instance of a node generation, and after any calls that do not concern that generation or instance - other
  nodes started, stopped and deleted, processes ending, restarts of the supervisor - the supervisor restarts
  and the instance is found running, \<open>ensure\<close> for the generation gives this very instance and spawns nothing.
\<close>

theorem restart_adopts_instance:
  assumes "provider_ensure env input s = (Inr i, t)" and "live_child env s (generation_key (ei_node input)) = None"
    and "run_events (provider_step n env) t calls = Some u"
    and "list_all (unrelated (generation_key (ei_node input)) i) calls"
    and "provider_inspect env i (restarted u) = (Inr inst_running, v)"
    and "generation_key (ei_node again) = generation_key (ei_node input)"
  shows "provider_ensure env again (restarted u) = (Inr i, adopt (generation_key (ei_node input)) i v)"
proof -
  from ensure_names [OF assms(1,2)] have named: "state_names env (generation_key (ei_node input)) i t" "i \<noteq> []"
    by auto
  have "state_names env (generation_key (ei_node input)) i u"
    by (rule providers.run_keeps [OF assms(3,4) named(1)])
  then have "state_names env (generation_key (ei_node again)) i (restarted u)"
    by (simp add: assms(6) state_names_def restarted_def)
  from ensure_adopts [OF this named(2) _ assms(5)] show ?thesis
    by (simp add: assms(6) live_child_def restarted_def)
qed

definition demo_input :: "string \<Rightarrow> ensure_input" where
  "demo_input n = \<lparr>ei_node = \<lparr>mn_id = n, mn_displayName = ''N'', mn_employeeId = None, mn_assignmentMode = pooled,
       mn_provider = ''local'', mn_profile = ''p'', mn_workspacePolicy = [], mn_desiredState = desired_running,
       mn_generation = 1, mn_phase = ph_requested, mn_activeAttemptId = None, mn_activeDaemonNodeId = None,
       mn_conditions = [], mn_createdAt = [], mn_updatedAt = []\<rparr>,
     ei_attempt = \<lparr>pa_id = ''a1'', pa_managedNodeId = n, pa_generation = 1, pa_attemptNumber = 1, pa_status = ''created'',
       pa_providerInstanceId = None, pa_providerOperationId = None, pa_errorCode = None,
       pa_errorMessage = None, pa_retryAt = None, pa_startedAt = [], pa_updatedAt = []\<rparr>,
     ei_backendUrl = ''http://b'', ei_enrollmentCredential = ''secret'', ei_workspacePath = ''/w'', ei_workspaceId = ''w1''\<rparr>"

text \<open>The world is a clock; a daemon runs until the clock shows 3.\<close>

definition demo_provider_env :: "int provider_env" where
  "demo_provider_env = \<lparr>pe_stateDirectory = ''/d'', pe_stopTimeoutMs = 5, pe_allocationStaleMs = 60, pe_now = (\<lambda>w. w),
     pe_iso = (\<lambda>_. ''date''), pe_parseDate = (\<lambda>_. None), pe_mkdir = (\<lambda>_ w. (Inr (), w)),
     pe_spawn = (\<lambda>_ w. (Inr (0, Some 7), w)), pe_exited = (\<lambda>_ w. 3 \<le> w), pe_kill = (\<lambda>_ _ w. (Inr (), w)),
     pe_awaitExit = (\<lambda>_ _ w. (Inr (), w)),
     pe_readCommand = (\<lambda>_ w. (Inr (if w < 3 then Some ''relay-daemon --workspace-id w1'' else None), w)),
     pe_readStart = (\<lambda>_ w. (Inr (if w < 3 then Some ''noon'' else None), w)),
     pe_signal = (\<lambda>_ _ w. (Inr (), w)), pe_noSuchProcess = (\<lambda>_. False), pe_delay = (\<lambda>w. (Inr (), w + 1)),
     pe_elsewhere = (\<lambda>_ w. w)\<rparr>"

definition new_provider :: "'w \<Rightarrow> 'w provider" where
  "new_provider w = \<lparr>pv_world = w, pv_children = Map.empty, pv_instancesByGeneration = Map.empty,
     pv_generationByInstance = Map.empty, pv_files = Map.empty, pv_trace = []\<rparr>"

lemma pair_of_fst: "fst p = a \<Longrightarrow> p = (a, snd p)"
  by (cases p) simp

lemmas demo_runs = provider_ensure_def allocate_def provider_start_def read_process_start_def readProviderState_def
  writeProviderState_def in_provider_def provider_note_def eff_bind_def eff_catch_def eff_modify_def eff_return_def
  live_child_def new_provider_def demo_provider_env_def demo_input_def running_state_def Let_def

theorem restart_adopts_instance_witness:
  "\<exists>s i v. provider_ensure demo_provider_env (demo_input ''n1'') s =
     (Inr i, adopt (generation_key (ei_node (demo_input ''n1''))) i v)"
proof -
  let ?i = "instance_name 7 ''w1'' ''noon''"
  let ?t = "snd (provider_ensure demo_provider_env (demo_input ''n1'') (new_provider 0))"
  let ?calls = "[Elsewhere 0, Restart, StopInstance ''i2'']"
  let ?u = "the (run_events (provider_step 0 demo_provider_env) ?t ?calls)"
  have started: "fst (provider_ensure demo_provider_env (demo_input ''n1'') (new_provider 0)) = Inr ?i"
    by (simp add: demo_runs)
  have other: "provider_stop 0 demo_provider_env ''i2'' (restarted s) = Some (Inr (), restarted s)" for s :: "int provider"
    by (simp add: provider_stop_def restarted_def localProcessIdentity_def)
  have world: "pv_world ?t = 0" by (simp add: demo_runs)
  have u: "run_events (provider_step 0 demo_provider_env) ?t ?calls = Some (restarted (?t\<lparr>pv_world := 0\<rparr>))"
    using world by (simp add: other) (simp add: demo_provider_env_def)
  have found: "fst (provider_inspect demo_provider_env ?i (restarted ?u)) = Inr inst_running"
    unfolding u
    by (simp add: provider_inspect_def restarted_def identity_of_name MAX_SAFE_INTEGER_def observe_def in_provider_def
        provider_note_def eff_bind_def eff_modify_def eff_return_def matches_identity_def demo_provider_env_def js_includes_def)
  have "provider_ensure demo_provider_env (demo_input ''n1'') (restarted ?u) =
    (Inr ?i, adopt (generation_key (ei_node (demo_input ''n1''))) ?i (snd (provider_inspect demo_provider_env ?i (restarted ?u))))"
  proof (rule restart_adopts_instance [OF pair_of_fst [OF started] _ _ _ pair_of_fst [OF found] refl])
    show "live_child demo_provider_env (new_provider 0) (generation_key (ei_node (demo_input ''n1''))) = None"
      by (simp add: live_child_def new_provider_def)
    show "run_events (provider_step 0 demo_provider_env) ?t ?calls = Some ?u" using u by simp
    show "list_all (unrelated (generation_key (ei_node (demo_input ''n1''))) ?i) ?calls" by simp
  qed
  then show ?thesis by blast
qed

section \<open>Signals\<close>

text \<open>A signal directly follows an observation of the process that shows the expected identity.\<close>

fun is_identified :: "process_identity \<Rightarrow> provider_event \<Rightarrow> bool" where
  "is_identified i (Observed p command start) \<longleftrightarrow> p = pi_pid i \<and> matches_identity i command start"
| "is_identified i (Spawned p input) \<longleftrightarrow> False"
| "is_identified i (Signalled p sig) \<longleftrightarrow> False"

fun signals_identified :: "process_identity \<Rightarrow> bool \<Rightarrow> provider_event list \<Rightarrow> bool" where
  "signals_identified i fresh [] \<longleftrightarrow> True"
| "signals_identified i fresh (Signalled p sig # es) \<longleftrightarrow> fresh \<and> p = pi_pid i \<and> signals_identified i False es"
| "signals_identified i fresh (Observed p c t # es) \<longleftrightarrow> signals_identified i (is_identified i (Observed p c t)) es"
| "signals_identified i fresh (Spawned p input # es) \<longleftrightarrow> signals_identified i False es"

definition fresh_after :: "process_identity \<Rightarrow> bool \<Rightarrow> provider_event list \<Rightarrow> bool" where
  "fresh_after i fresh es = (if es = [] then fresh else is_identified i (last es))"

lemma signals_append:
  "signals_identified i fresh (es @ fs) \<longleftrightarrow> signals_identified i fresh es \<and> signals_identified i (fresh_after i fresh es) fs"
  by (induction i fresh es rule: signals_identified.induct) (auto simp: fresh_after_def)

lemma fresh_append: "fresh_after i fresh (es @ fs) = fresh_after i (fresh_after i fresh es) fs"
  by (simp add: fresh_after_def)

text \<open>\<open>extends i f s t g\<close>: from \<open>s\<close> to \<open>t\<close> the trace grew by identified signals; \<open>f\<close> and \<open>g\<close> tell whether the last
  event before and after is an identifying observation.\<close>

definition extends :: "process_identity \<Rightarrow> bool \<Rightarrow> 'w provider \<Rightarrow> 'w provider \<Rightarrow> bool \<Rightarrow> bool" where
  "extends i f s t g \<longleftrightarrow>
     (\<exists>xs. pv_trace t = pv_trace s @ xs \<and> signals_identified i f xs \<and> (g \<longrightarrow> fresh_after i f xs))"

lemma signals_fresher: "signals_identified i g ys \<Longrightarrow> (g \<longrightarrow> h) \<Longrightarrow> signals_identified i h ys"
  by (cases "(i, g, ys)" rule: signals_identified.cases) auto

lemma extends_trans: "extends i f s t g \<Longrightarrow> extends i g t u h \<Longrightarrow> extends i f s u h"
proof -
  assume "extends i f s t g" and "extends i g t u h"
  then obtain xs ys where xs: "pv_trace u = pv_trace s @ xs @ ys" "signals_identified i f xs" "g \<longrightarrow> fresh_after i f xs"
    "signals_identified i g ys" "h \<longrightarrow> fresh_after i g ys" by (auto simp: extends_def)
  have "signals_identified i (fresh_after i f xs) ys" by (rule signals_fresher [OF xs(4,3)])
  then show ?thesis
    unfolding extends_def using xs
    by (intro exI [where x = "xs @ ys"]) (auto simp: signals_append fresh_append fresh_after_def split: if_splits)
qed

lemma extends_refl: "extends i f s s f" "extends i f s s False"
  by (auto simp: extends_def fresh_after_def)

lemma extends_world: "extends i f s (s\<lparr>pv_world := w\<rparr>) f"
  by (auto simp: extends_def fresh_after_def)

lemma extends_weaken: "extends i f s t g \<Longrightarrow> (h \<longrightarrow> g) \<Longrightarrow> extends i f s t h"
  unfolding extends_def by blast

lemma observe_cases:
  assumes "observe env p s = (r, t)"
  obtains e w where "r = Inl e" and "t = s\<lparr>pv_world := w\<rparr>"
  | c b w where "r = Inr (c, b)" and "t = s\<lparr>pv_world := w, pv_trace := pv_trace s @ [Observed p c b]\<rparr>"
proof -
  obtain r1 w1 where 1: "pe_readCommand env p (pv_world s) = (r1, w1)" by fastforce
  obtain r2 w2 where 2: "pe_readStart env p w1 = (r2, w2)" by fastforce
  show thesis
    using assms 1 2 that
    by (cases r1; cases r2) (auto simp: observe_def eff_bind_def in_provider_def provider_note_def eff_modify_def eff_return_def)
qed

lemma inspect_extends:
  assumes "pv_children s name = None" and "localProcessIdentity name = Some i" and "provider_inspect env name s = (r, t)"
  shows "extends i f s t (r = Inr inst_running)"
proof -
  obtain q u where q: "observe env (pi_pid i) s = (q, u)" by fastforce
  from q show ?thesis
  proof (cases rule: observe_cases)
    case (1 e w)
    then have "r = Inl e" "t = s\<lparr>pv_world := w\<rparr>"
      using assms q by (simp_all add: provider_inspect_def eff_bind_def)
    then show ?thesis using extends_weaken [OF extends_world [of i f s w]] by simp
  next
    case (2 c b w)
    have t: "t = s\<lparr>pv_world := w, pv_trace := pv_trace s @ [Observed (pi_pid i) c b]\<rparr>"
      using assms q 2 by (simp add: provider_inspect_def eff_bind_def eff_return_def)
    have "r = Inr inst_running \<Longrightarrow> matches_identity i c b"
      using assms q 2 by (simp add: provider_inspect_def eff_bind_def eff_return_def split: if_splits)
    then show ?thesis
      unfolding extends_def by (intro exI [where x = "[Observed (pi_pid i) c b]"]) (simp add: t fresh_after_def)
  qed
qed

lemma signal_extends:
  assumes "send_signal env (pi_pid i) sig s = (r, t)"
  shows "extends i True s t False"
  using assms by (auto simp: send_signal_def eff_bind_def provider_note_def eff_modify_def in_provider_def extends_def
      split: prod.splits)

lemma wait_extends:
  assumes "pv_children s name = None" and "localProcessIdentity name = Some i"
    and "wait_until_stopped n env d name s = Some (r, t)"
  shows "extends i False s t (r = Inr False)"
  using assms(1,3)
proof (induction n arbitrary: s)
  case (Suc n)
  obtain r1 u where u: "provider_inspect env name s = (r1, u)" by fastforce
  note first = inspect_extends [OF Suc.prems(1) assms(2) u, of False]
  have none: "pv_children u name = None"
    using worldlyD [OF worldly_inspect u] Suc.prems(1) by (simp add: only_world_def)
  show ?case
  proof (cases "r1 = Inr inst_running \<and> pe_now env (pv_world u) < d")
    case True
    obtain r2 w where w: "pe_delay env (pv_world u) = (r2, w)" by fastforce
    have moved: "extends i False s (u\<lparr>pv_world := w\<rparr>) False"
      using True by (intro extends_trans [where g = True, OF extends_weaken [OF first] extends_weaken [OF extends_world]]) simp_all
    show ?thesis
    proof (cases r2)
      case (Inl e)
      with Suc.prems(2) u True w moved show ?thesis by (auto simp: in_provider_def)
    next
      case (Inr x)
      have "wait_until_stopped n env d name (u\<lparr>pv_world := w\<rparr>) = Some (r, t)"
        using Suc.prems(2) u True w Inr by (simp add: in_provider_def)
      then show ?thesis using Suc.IH [of "u\<lparr>pv_world := w\<rparr>"] none extends_trans [OF moved] by simp
    qed
  next
    case False
    have "r = Inr False \<Longrightarrow> r1 = Inr inst_running" and "t = u"
      using Suc.prems(2) u False by (auto split: sum.splits if_splits)
    with first show ?thesis by (auto simp: extends_def)
  qed
qed simp

lemma kill_extends:
  assumes none: "pv_children s name = None" and i: "localProcessIdentity name = Some i"
    and run: "await_or_kill n env name (pi_pid i) s = Some (r, t)"
  shows "extends i False s t False"
proof -
  obtain q u where u: "wait_stopped n env name s = Some (q, u)"
    using run by (auto simp: await_or_kill_def split: option.splits)
  have e1: "extends i False s u (q = Inr False)" and none1: "pv_children u name = None"
    using wait_extends [OF none i u [unfolded wait_stopped_def]] wait_only_world [OF u [unfolded wait_stopped_def]] none
    by (simp_all add: only_world_def)
  show ?thesis
  proof (cases "q = Inr False")
    case False
    then have "t = u" using run u by (auto simp: await_or_kill_def split: sum.splits bool.splits)
    with e1 show ?thesis by (auto intro: extends_weaken)
  next
    case True
    obtain p v where v: "send_signal env (pi_pid i) ''SIGKILL'' u = (p, v)" by fastforce
    have e2: "extends i False s v False" and none2: "pv_children v name = None"
      using extends_trans [OF e1] signal_extends [OF v] True worldlyD [OF worldly_send v] none1
      by (simp_all add: only_world_def)
    show ?thesis
    proof (cases p)
      case (Inl e)
      with e2 run u v True show ?thesis by (simp add: await_or_kill_def)
    next
      case (Inr x)
      obtain q' w where w: "wait_stopped n env name v = Some (q', w)" and "t = w"
        using run u v True Inr by (auto simp: await_or_kill_def split: option.splits sum.splits bool.splits)
      with extends_trans [OF e2 wait_extends [OF none2 i w [unfolded wait_stopped_def]]] show ?thesis
        by (auto intro: extends_weaken)
    qed
  qed
qed

text \<open>C23. Stopping an instance of an earlier supervisor never hits a reused pid on stale knowledge: every signal
  \<open>stop\<close> sends, the kill after the grace period included, goes to the pid of the instance and comes
  directly after an observation in which that pid ran a relay daemon of the workspace of the instance with its
  start time.
\<close>

theorem stop_signals_identified:
  assumes "provider_stop n env name s = Some (r, t)"
  shows "pv_trace t = pv_trace s \<or>
    (\<exists>i xs. localProcessIdentity name = Some i \<and> pv_trace t = pv_trace s @ xs \<and> signals_identified i False xs)"
proof (cases "pv_children s name = None \<and> localProcessIdentity name \<noteq> None")
  case False
  with assms show ?thesis
    by (auto simp: provider_stop_def in_provider_def split: option.splits prod.splits)
next
  case True
  then obtain i where i: "localProcessIdentity name = Some i" and none: "pv_children s name = None" by auto
  obtain q u where u: "provider_inspect env name s = (q, u)" by fastforce
  note e1 = inspect_extends [OF none i u, of False]
  obtain p v where v: "send_signal env (pi_pid i) ''SIGTERM'' u = (p, v)" by fastforce
  have none2: "pv_children v name = None"
    using worldlyD [OF worldly_send v] worldlyD [OF worldly_inspect u] none by (simp add: only_world_def)
  have "extends i False s t False"
  proof (cases "q = Inr inst_running")
    case False
    with assms i none u have "t = u" by (auto simp: provider_stop_def split: sum.splits if_splits)
    with e1 show ?thesis by (auto intro: extends_weaken)
  next
    case True
    have e2: "extends i False s v False"
      using extends_trans [OF e1] signal_extends [OF v] True by simp
    have "t = v \<or> await_or_kill n env name (pi_pid i) v = Some (r, t)"
      using assms i none u True v
      by (auto simp: provider_stop_def eff_catch_def eff_return_def eff_throw_def split: sum.splits if_splits)
    with e2 show ?thesis using extends_trans [OF e2 kill_extends [OF none2 i]] by auto
  qed
  with i show ?thesis by (auto simp: extends_def)
qed

definition old_instance :: string where
  "old_instance = instance_name 7 ''w1'' ''noon''"

lemma old_instance_identity:
  "localProcessIdentity old_instance = Some \<lparr>pi_pid = 7, pi_workspaceId = ''w1'', pi_processStart = ''noon''\<rparr>"
  by (simp add: old_instance_def identity_of_name MAX_SAFE_INTEGER_def)

lemma demo_inspect:
  "provider_inspect demo_provider_env old_instance (new_provider w\<lparr>pv_trace := es\<rparr>) =
     (if w < 3 then (Inr inst_running, new_provider w\<lparr>pv_trace := es @ [Observed 7 (Some ''relay-daemon --workspace-id w1'') (Some ''noon'')]\<rparr>)
      else (Inr inst_stopped, new_provider w\<lparr>pv_trace := es @ [Observed 7 None None]\<rparr>))"
  by (simp add: provider_inspect_def old_instance_identity observe_def in_provider_def provider_note_def eff_bind_def eff_modify_def
      eff_return_def matches_identity_def demo_provider_env_def js_includes_def new_provider_def)

lemma demo_inspect_new:
  "provider_inspect demo_provider_env old_instance (new_provider w) =
     provider_inspect demo_provider_env old_instance (new_provider w\<lparr>pv_trace := []\<rparr>)"
  by (simp add: new_provider_def)

lemma demo_sigterm:
  "send_signal demo_provider_env 7 sig (new_provider w\<lparr>pv_trace := es\<rparr>) =
     (Inr (), new_provider w\<lparr>pv_trace := es @ [Signalled 7 sig]\<rparr>)"
  by (simp add: send_signal_def provider_note_def eff_bind_def eff_modify_def in_provider_def demo_provider_env_def new_provider_def)

lemma demo_wait:
  "wait_until_stopped 2 demo_provider_env d old_instance (new_provider 3\<lparr>pv_trace := es\<rparr>) =
     Some (Inr True, new_provider 3\<lparr>pv_trace := es @ [Observed 7 None None]\<rparr>)"
  by (simp add: numeral_2_eq_2 demo_inspect)

theorem stop_signals_identified_witness:
  "\<exists>i xs. localProcessIdentity old_instance = Some i \<and> signals_identified i False xs \<and>
     xs = [Observed 7 (Some ''relay-daemon --workspace-id w1'') (Some ''noon''), Signalled 7 ''SIGTERM'',
           Observed 7 (Some ''relay-daemon --workspace-id w1'') (Some ''noon''), Observed 7 None None]"
proof -
  let ?seen = "Observed 7 (Some ''relay-daemon --workspace-id w1'') (Some ''noon'')"
  have delay: "in_provider (pe_delay demo_provider_env) (new_provider 2\<lparr>pv_trace := es\<rparr>) = (Inr (), new_provider 3\<lparr>pv_trace := es\<rparr>)"
    and now: "pe_now demo_provider_env (pv_world (new_provider w)) = w"
    and no_children: "pv_children (new_provider w) = Map.empty"
    and timeout: "pe_stopTimeoutMs demo_provider_env = 5" for es and w :: int
    by (simp_all add: in_provider_def demo_provider_env_def new_provider_def)
  have wait: "wait_stopped (Suc 2) demo_provider_env old_instance (new_provider 2\<lparr>pv_trace := es\<rparr>) =
      Some (Inr True, new_provider 3\<lparr>pv_trace := es @ [?seen, Observed 7 None None]\<rparr>)" for es
    unfolding wait_stopped_def wait_until_stopped.simps(2) demo_inspect by (simp add: now timeout delay demo_wait)
  have "provider_stop (Suc 2) demo_provider_env old_instance (new_provider 2) =
      Some (Inr (), new_provider 3\<lparr>pv_trace := [?seen, Signalled 7 ''SIGTERM'', ?seen, Observed 7 None None]\<rparr>)"
    by (simp add: provider_stop_def await_or_kill_def old_instance_identity demo_inspect_new demo_inspect eff_catch_def demo_sigterm
          no_children wait [simplified])
  from stop_signals_identified [OF this] show ?thesis
    by (auto simp: new_provider_def)
qed

section \<open>Stopping ends\<close>

lemma wait_more: "wait_until_stopped n env d name s = Some x \<Longrightarrow> n \<le> m \<Longrightarrow> wait_until_stopped m env d name s = Some x"
proof (induction n arbitrary: m s)
  case (Suc n)
  then obtain k where k: "m = Suc k" "n \<le> k" by (cases m) auto
  show ?case
    using Suc.prems(1) Suc.IH [OF _ k(2)] by (auto simp: k(1) split: prod.splits sum.splits if_splits)
qed simp

lemma kill_more: "await_or_kill n env name p s = Some x \<Longrightarrow> n \<le> m \<Longrightarrow> await_or_kill m env name p s = Some x"
proof -
  assume run: "await_or_kill n env name p s = Some x" and m: "n \<le> m"
  have more: "wait_stopped n env name u = Some y \<Longrightarrow> wait_stopped m env name u = Some y" for u y
    unfolding wait_stopped_def by (rule wait_more [OF _ m])
  show ?thesis
    using run unfolding await_or_kill_def
    by (auto split: option.splits prod.splits sum.splits bool.splits dest!: more)
qed

lemma stop_more: "provider_stop n env name s = Some x \<Longrightarrow> n \<le> m \<Longrightarrow> provider_stop m env name s = Some x"
  unfolding provider_stop_def by (auto split: option.splits prod.splits sum.splits if_splits dest: kill_more)

lemma inspect_clock:
  assumes "\<And>p w. pe_now env w \<le> pe_now env (snd (pe_readCommand env p w))"
    and "\<And>p w. pe_now env w \<le> pe_now env (snd (pe_readStart env p w))"
  shows "pe_now env (pv_world s) \<le> pe_now env (pv_world (snd (provider_inspect env name s)))"
proof -
  have "pe_now env (pv_world s) \<le> pe_now env (pv_world (snd (observe env p s)))" for p
  proof -
    obtain r1 w1 where 1: "pe_readCommand env p (pv_world s) = (r1, w1)" by fastforce
    obtain r2 w2 where 2: "pe_readStart env p w1 = (r2, w2)" by fastforce
    show ?thesis
      using 1 2 assms(1) [of "pv_world s" p] assms(2) [of w1 p]
      by (cases r1; cases r2) (simp_all add: observe_def eff_bind_def in_provider_def provider_note_def eff_modify_def eff_return_def)
  qed
  then show ?thesis
    by (simp add: provider_inspect_def eff_bind_def eff_return_def split: option.split prod.split sum.split) (metis snd_conv)
qed

lemma wait_ends:
  assumes "\<And>p w. pe_now env w \<le> pe_now env (snd (pe_readCommand env p w))"
    and "\<And>p w. pe_now env w \<le> pe_now env (snd (pe_readStart env p w))"
    and "\<And>w. pe_now env w < pe_now env (snd (pe_delay env w))"
  shows "nat (d - pe_now env (pv_world s)) < n \<Longrightarrow> wait_until_stopped n env d name s \<noteq> None"
proof (induction n arbitrary: s)
  case (Suc n)
  obtain r u where u: "provider_inspect env name s = (r, u)" by fastforce
  obtain q w where w: "pe_delay env (pv_world u) = (q, w)" by fastforce
  have "pe_now env (pv_world s) \<le> pe_now env (pv_world u)" "pe_now env (pv_world u) < pe_now env w"
    using inspect_clock [OF assms(1,2), of s name] assms(3) [of "pv_world u"] u w by simp_all
  then have "pe_now env (pv_world u) < d \<Longrightarrow> nat (d - pe_now env w) < n"
    using Suc.prems by linarith
  then show ?case
    using u w Suc.IH [of "u\<lparr>pv_world := w\<rparr>"] by (auto simp: in_provider_def split: sum.split)
qed simp

text \<open>C24. \<open>stop\<close> ends. \<open>waitUntilStopped\<close> has no bound on its iterations; when the clock never goes back and every
  delay advances it, \<open>stopTimeoutMs + 1\<close> inspections in each of its two waits are enough, whatever the
  processes do, and the outcome does not depend on the fuel.
\<close>

theorem stop_returns:
  assumes "\<And>p w. pe_now env w \<le> pe_now env (snd (pe_readCommand env p w))"
    and "\<And>p w. pe_now env w \<le> pe_now env (snd (pe_readStart env p w))"
    and "\<And>w. pe_now env w < pe_now env (snd (pe_delay env w))"
    and "nat (pe_stopTimeoutMs env) < n"
  shows "\<exists>outcome. \<forall>m \<ge> n. provider_stop m env name s = Some outcome"
proof -
  have waits: "wait_stopped n env name u \<noteq> None" for u
    unfolding wait_stopped_def by (rule wait_ends [OF assms(1-3)]) (use assms(4) in simp_all)
  have "await_or_kill n env name p u \<noteq> None" for p u
    using waits by (simp add: await_or_kill_def split: option.split prod.split sum.split bool.split) (metis waits)
  then have "provider_stop n env name s \<noteq> None"
    by (simp add: provider_stop_def split: option.split prod.split sum.split)
  then show ?thesis using stop_more by blast
qed

theorem stop_returns_witness:
  "\<exists>outcome. map (\<lambda>m. provider_stop m demo_provider_env old_instance (new_provider 0)) [6, 7, 100] = replicate 3 (Some outcome)"
proof -
  have "\<exists>outcome. \<forall>m \<ge> 6. provider_stop m demo_provider_env old_instance (new_provider 0) = Some outcome"
    by (rule stop_returns) (simp_all add: demo_provider_env_def)
  then show ?thesis by (auto simp: numeral_3_eq_3)
qed

end
