(* ===== verification/Stream_Renderers.thy ===== *)
theory Stream_Renderers
  imports Js_Json Line_Stream Pattern_Match Agent_State Decimal_Text
begin

text \<open>
  How the daemon shows what an agent prints: \<open>packages/relay-core/src/renderers.ts\<close> with the helpers of
  \<open>format.ts\<close>. A renderer splits standard output into lines (Line_Stream) and turns every line, a JSON event
  or plain text, into terminal text; its mutable fields are the state of its line handler.
  \<open>JSON.parse\<close> and the printing of numbers are arguments. The marks are characters outside the
  model's range and belong to \<open>terminal\<close>, with the switch that \<open>format.ts\<close> reads from the process.
\<close>

section \<open>Terminal text\<close>

definition ESC :: char where "ESC = CHR 0x1B"
definition BEL :: char where "BEL = CHR 0x07"
definition CR :: char where "CR = CHR 0x0D"

record terminal =
  tm_colors :: bool
  tm_textMark :: string
  tm_thinkMark :: string
  tm_toolMark :: string
  tm_number :: "rat \<Rightarrow> string"

definition ansi_code :: "string \<Rightarrow> string" where
  "ansi_code n = ESC # ''['' @ n @ ''m''"

definition ansi_reset :: string where "ansi_reset = ansi_code ''0''"
definition ansi_bold :: string where "ansi_bold = ansi_code ''1''"
definition ansi_dim :: string where "ansi_dim = ansi_code ''2''"
definition ansi_italic :: string where "ansi_italic = ansi_code ''3''"
definition ansi_red :: string where "ansi_red = ansi_code ''31''"
definition ansi_green :: string where "ansi_green = ansi_code ''32''"
definition ansi_yellow :: string where "ansi_yellow = ansi_code ''33''"
definition ansi_blue :: string where "ansi_blue = ansi_code ''34''"
definition ansi_magenta :: string where "ansi_magenta = ansi_code ''35''"
definition ansi_cyan :: string where "ansi_cyan = ansi_code ''36''"
definition ansi_brand :: string where "ansi_brand = ansi_code ''38;5;173''"

definition term_color :: "terminal \<Rightarrow> string \<Rightarrow> string list \<Rightarrow> string" where
  "term_color tm body codes = (if tm_colors tm then concat codes @ body @ ansi_reset else body)"

datatype status_kind = OkStatus | WarnStatus | ErrorStatus | InfoStatus

fun status_label :: "terminal \<Rightarrow> status_kind \<Rightarrow> string" where
  "status_label tm OkStatus = term_color tm ''OK'' [ansi_green, ansi_bold]"
| "status_label tm WarnStatus = term_color tm ''WARN'' [ansi_yellow, ansi_bold]"
| "status_label tm ErrorStatus = term_color tm ''ERR'' [ansi_red, ansi_bold]"
| "status_label tm InfoStatus = term_color tm ''INFO'' [ansi_cyan, ansi_bold]"

definition status_line :: "terminal \<Rightarrow> status_kind \<Rightarrow> string \<Rightarrow> string" where
  "status_line tm k message = status_label tm k @ ''  '' @ message"

definition own_line :: "string \<Rightarrow> string" where
  "own_line s = newline @ s @ newline"

definition tool_line :: "terminal \<Rightarrow> string \<Rightarrow> string \<Rightarrow> string \<Rightarrow> string" where
  "tool_line tm accent label target =
     own_line (term_color tm (tm_toolMark tm) [accent] @ '' '' @ term_color tm label [ansi_dim] @ '' '' @ term_color tm target [accent])"

section \<open>Untrusted text\<close>

text \<open>\<open>skip_sequence\<close>: past a control sequence, up to and including its final character.\<close>

fun skip_sequence :: "string \<Rightarrow> string" where
  "skip_sequence [] = []"
| "skip_sequence (c # cs) =
     (if (64 \<le> (of_char c :: nat) \<and> (of_char c :: nat) \<le> 126) \<or> c = BEL then cs else skip_sequence cs)"

lemma skip_sequence_length: "length (skip_sequence s) \<le> length s"
  by (induction s) auto

definition shown_char :: "char \<Rightarrow> bool" where
  "shown_char c \<longleftrightarrow> (let n = (of_char c :: nat) in n = 9 \<or> n = 10 \<or> (32 \<le> n \<and> n \<noteq> 127))"

function sanitizeUntrustedText :: "string \<Rightarrow> string" where
  "sanitizeUntrustedText [] = []"
| "sanitizeUntrustedText (c # cs) =
     (if c = ESC
      then (case cs of
              [] \<Rightarrow> []
            | n # ns \<Rightarrow> if n = CHR ''['' \<or> n = CHR '']'' then sanitizeUntrustedText (skip_sequence ns)
                       else sanitizeUntrustedText ns)
      else if shown_char c then c # sanitizeUntrustedText cs else sanitizeUntrustedText cs)"
  by pat_completeness auto
termination
  by (relation "measure length") (auto intro: le_less_trans [OF skip_sequence_length])

section \<open>Blocks\<close>

record block_style =
  bl_marker :: string
  bl_markerColor :: string
  bl_bodyStyles :: "string list"

record block_state =
  bs_atLineStart :: bool
  bs_blockStarted :: bool

definition new_block :: block_state where
  "new_block = \<lparr>bs_atLineStart = True, bs_blockStarted = False\<rparr>"

definition CONTINUATION_INDENT :: string where "CONTINUATION_INDENT = ''  ''"

definition line_start :: "terminal \<Rightarrow> block_style \<Rightarrow> block_state \<Rightarrow> string" where
  "line_start tm bl b =
     (if bs_blockStarted b then CONTINUATION_INDENT else term_color tm (bl_marker bl) [bl_markerColor bl] @ '' '') @
     concat (bl_bodyStyles bl)"

fun block_feed :: "terminal \<Rightarrow> block_style \<Rightarrow> block_state \<Rightarrow> string \<Rightarrow> string \<times> block_state" where
  "block_feed tm bl b [] = ([], b)"
| "block_feed tm bl b (c # cs) =
     (if c = CR then block_feed tm bl b cs
      else if c = LF
      then (let (rest, b') = block_feed tm bl (b\<lparr>bs_atLineStart := True\<rparr>) cs
            in ((if bl_bodyStyles bl \<noteq> [] then ansi_reset else []) @ [LF] @ rest, b'))
      else if bs_atLineStart b
      then (let (rest, b') = block_feed tm bl (b\<lparr>bs_blockStarted := True, bs_atLineStart := False\<rparr>) cs
            in (line_start tm bl b @ [c] @ rest, b'))
      else (let (rest, b') = block_feed tm bl b cs in (c # rest, b')))"

definition text_block :: "terminal \<Rightarrow> string \<Rightarrow> block_style" where
  "text_block tm accent = \<lparr>bl_marker = tm_textMark tm, bl_markerColor = accent, bl_bodyStyles = []\<rparr>"

definition think_block :: "terminal \<Rightarrow> block_style" where
  "think_block tm = \<lparr>bl_marker = tm_thinkMark tm, bl_markerColor = ansi_dim, bl_bodyStyles = [ansi_dim, ansi_italic]\<rparr>"

section \<open>Lines\<close>

text \<open>\<open>JsonLineRenderer\<close>: empty lines are skipped, every other line is formatted.\<close>

definition json_line_step :: "('s \<Rightarrow> string \<Rightarrow> string \<times> 's) \<Rightarrow> 's \<Rightarrow> string \<Rightarrow> string list \<times> 's" where
  "json_line_step format s line =
     (if line = [] then ([], s) else (let (out, s') = format s line in ([out], s')))"

definition parseJsonObject :: "json_parser \<Rightarrow> string \<Rightarrow> (string \<times> json) list option" where
  "parseJsonObject parse line = map_option (\<lambda>v. json_record (Some v)) (parse line)"

fun content_part :: "json \<Rightarrow> string" where
  "content_part v =
     (let r = json_record (Some v)
      in case json_string (json_field r ''text'') of Some t \<Rightarrow> t
       | None \<Rightarrow> (case json_string (json_field r ''content'') of Some t \<Rightarrow> t | None \<Rightarrow> []))"

definition textFromContentRecord :: "(string \<times> json) list \<Rightarrow> string" where
  "textFromContentRecord r =
     (case json_field r ''text'' of
        Some (JStr t) \<Rightarrow> t
      | _ \<Rightarrow> (case json_field r ''content'' of
           Some (JStr t) \<Rightarrow> t
         | Some (JArr parts) \<Rightarrow> js_join newline (filter (\<lambda>t. t \<noteq> []) (map content_part parts))
         | _ \<Rightarrow> []))"

section \<open>Pi\<close>

record pi_renderer =
  pr_text :: block_state
  pr_plain :: block_state
  pr_sawText :: bool

definition new_pi :: pi_renderer where
  "new_pi = \<lparr>pr_text = new_block, pr_plain = new_block, pr_sawText = False\<rparr>"

definition event_message :: "(string \<times> json) list \<Rightarrow> (string \<times> json) list" where
  "event_message event = json_record (json_coalesce (json_field event ''message'') (Some (JObj event)))"

definition piAssistantText :: "(string \<times> json) list \<Rightarrow> string" where
  "piAssistantText event =
     (let message = event_message event in
      if \<not> field_is event ''type'' ''message'' \<and> \<not> field_is event ''type'' ''assistant_message'' \<and> \<not> field_is message ''role'' ''assistant''
      then []
      else if json_truthy (json_field message ''role'') \<and> \<not> field_is message ''role'' ''assistant'' then []
      else textFromContentRecord message)"

definition pi_update_field :: "(string \<times> json) list \<Rightarrow> string \<Rightarrow> string \<Rightarrow> string" where
  "pi_update_field event kind key =
     (if \<not> field_is event ''type'' ''message_update'' then []
      else if \<not> field_is (sub_record event ''message'') ''role'' ''assistant'' then []
      else let assistantEvent = sub_record event ''assistantMessageEvent'' in
        if \<not> field_is assistantEvent ''type'' kind then []
        else case json_field assistantEvent key of Some (JStr t) \<Rightarrow> t | _ \<Rightarrow> [])"

definition piAssistantEndedText :: "(string \<times> json) list \<Rightarrow> string" where
  "piAssistantEndedText event = pi_update_field event ''text_end'' ''content''"

definition piAssistantTextDelta :: "(string \<times> json) list \<Rightarrow> string" where
  "piAssistantTextDelta event = pi_update_field event ''text_delta'' ''delta''"

definition pi_turn_over :: "(string \<times> json) list \<Rightarrow> bool" where
  "pi_turn_over event \<longleftrightarrow> field_is event ''type'' ''message_end'' \<or> field_is event ''type'' ''turn_end''"

definition isPiAssistantTerminalEvent :: "(string \<times> json) list \<Rightarrow> bool" where
  "isPiAssistantTerminalEvent event \<longleftrightarrow> pi_turn_over event \<and> field_is (event_message event) ''role'' ''assistant''"

definition piStatusMessage :: "terminal \<Rightarrow> (string \<times> json) list \<Rightarrow> string" where
  "piStatusMessage tm event =
     (if field_is event ''type'' ''auto_retry_end'' \<and> json_field event ''success'' = Some (JBool False)
      then status_line tm ErrorStatus (''Pi error: '' @ text_or (tm_number tm) (json_field event ''finalError'') ''unknown error'')
      else if \<not> pi_turn_over event then []
      else let message = event_message event in
        if \<not> field_is message ''role'' ''assistant'' then []
        else let errorMessage = json_coalesce (json_field message ''errorMessage'') (json_field event ''errorMessage'') in
          if json_truthy errorMessage \<or> field_is message ''stopReason'' ''error''
          then status_line tm ErrorStatus (''Pi error: '' @ text_or (tm_number tm) errorMessage ''unknown error'')
          else [])"

definition pi_show :: "terminal \<Rightarrow> block_state \<Rightarrow> string \<Rightarrow> pi_renderer \<Rightarrow> string \<times> pi_renderer" where
  "pi_show tm b body s =
     (let (out, b') = block_feed tm (text_block tm ansi_yellow) b body in (out, s\<lparr>pr_text := b', pr_sawText := True\<rparr>))"

definition pi_event :: "terminal \<Rightarrow> pi_renderer \<Rightarrow> (string \<times> json) list \<Rightarrow> string \<times> pi_renderer" where
  "pi_event tm s event =
     (if field_is event ''type'' ''turn_start'' then ([], s\<lparr>pr_sawText := False\<rparr>)
      else if field_is event ''type'' ''message_start'' \<and> field_is (sub_record event ''message'') ''role'' ''assistant''
      then ([], s\<lparr>pr_text := new_block\<rparr>)
      else let delta = piAssistantTextDelta event in
      if js_trim delta \<noteq> [] then pi_show tm (pr_text s) (sanitizeUntrustedText delta) s
      else let endedText = piAssistantEndedText event in
      if js_trim endedText \<noteq> []
      then if pr_sawText s then ([], s)
           else pi_show tm new_block (sanitizeUntrustedText (js_trim endedText) @ newline) s
      else if field_is event ''type'' ''message_update'' then ([], s)
      else let body = piAssistantText event in
      if js_trim body \<noteq> []
      then if pr_sawText s \<and> isPiAssistantTerminalEvent event then ([], s)
           else pi_show tm new_block (js_trim body @ newline) s
      else if field_is event ''type'' ''error''
      then (own_line (status_line tm ErrorStatus (''Pi error: '' @ text_or (tm_number tm) (json_field event ''message'') ''unknown error'')), s)
      else if piStatusMessage tm event \<noteq> [] then (own_line (piStatusMessage tm event), s)
      else ([], s))"

definition pi_format :: "json_parser \<Rightarrow> terminal \<Rightarrow> pi_renderer \<Rightarrow> string \<Rightarrow> string \<times> pi_renderer" where
  "pi_format parse tm s line =
     (case parseJsonObject parse line of
        None \<Rightarrow> (let (out, b) = block_feed tm (text_block tm ansi_yellow) (pr_plain s) (sanitizeUntrustedText line @ newline)
                 in (out, s\<lparr>pr_plain := b\<rparr>))
      | Some event \<Rightarrow> pi_event tm s event)"

section \<open>Standard error\<close>

definition isCodexStdinNotice :: "string \<Rightarrow> bool" where
  "isCodexStdinNotice line \<longleftrightarrow>
     line \<in> (\<lambda>dots. ''Reading additional input from stdin'' @ dots) ` {[], ''.'', ''..'', ''...''}"

definition search_for :: "matcher list \<Rightarrow> string \<Rightarrow> bool" where
  "search_for ms = rx_test (\<lambda>prior. rx_seq ms)"

definition isCodexModelsCacheWarning :: "string \<Rightarrow> bool" where
  "isCodexModelsCacheWarning = search_for
     [rx_text ''codex_models_manager::cache: failed to load models cache: missing field '',
      rx_class (\<lambda>c. c = CHR 0x60 \<or> c = CHR 0x27), rx_text ''base_instructions'', rx_class (\<lambda>c. c = CHR 0x60 \<or> c = CHR 0x27)]"

definition isCodexLegacyMultiAgentFallback :: "string \<Rightarrow> bool" where
  "isCodexLegacyMultiAgentFallback = search_for [rx_text ''unsupported call:'', rx_many js_space, rx_text ''multi_agent_v1__'']"

definition rx_word_over :: matcher where
  "rx_word_over s = (if s \<noteq> [] \<and> word_char (hd s) then [] else [s])"

definition isKimiResumeNotice :: "string \<Rightarrow> bool" where
  "isKimiResumeNotice line \<longleftrightarrow>
     search_for [rx_word ''resume this session'', rx_many js_space, rx_class (\<lambda>c. c = CHR '':'')] line \<or>
     rx_test (\<lambda>prior s. if word_boundary prior s
       then rx_seq [rx_text ''kimi'', rx_at_least 1 js_space, rx_text ''-'',
              rx_alt [rx_text ''r'', rx_text ''S'', rx_text ''-session''], rx_word_over] s
       else []) line"

definition isClaudeConnectorNotice :: "string \<Rightarrow> bool" where
  "isClaudeConnectorNotice line \<longleftrightarrow>
     js_includes line ''claude.ai connectors are disabled'' \<or> js_includes line ''Unset it to load your organization's connectors''"

definition stderr_step :: "terminal \<Rightarrow> unit \<Rightarrow> string \<Rightarrow> string list \<times> unit" where
  "stderr_step tm s line =
     (if line = [] \<or> js_includes line ''seccomp not available'' \<or> isCodexStdinNotice line \<or> isCodexModelsCacheWarning line \<or>
         isCodexLegacyMultiAgentFallback line \<or> isKimiResumeNotice line \<or> isClaudeConnectorNotice line
      then ([], s) else ([status_line tm WarnStatus line @ newline], s))"

section \<open>Claude\<close>

record two_blocks =
  tb_text :: block_state
  tb_thought :: block_state

definition new_two_blocks :: two_blocks where
  "new_two_blocks = \<lparr>tb_text = new_block, tb_thought = new_block\<rparr>"

definition show_text :: "terminal \<Rightarrow> string \<Rightarrow> block_state \<Rightarrow> string \<Rightarrow> two_blocks \<Rightarrow> string \<times> two_blocks" where
  "show_text tm accent b body s = (let (out, b') = block_feed tm (text_block tm accent) b body in (out, s\<lparr>tb_text := b'\<rparr>))"

definition show_thought :: "terminal \<Rightarrow> block_state \<Rightarrow> string \<Rightarrow> two_blocks \<Rightarrow> string \<times> two_blocks" where
  "show_thought tm b body s = (let (out, b') = block_feed tm (think_block tm) b body in (out, s\<lparr>tb_thought := b'\<rparr>))"

definition claude_stream_event :: "terminal \<Rightarrow> two_blocks \<Rightarrow> (string \<times> json) list \<Rightarrow> string \<times> two_blocks" where
  "claude_stream_event tm s streamEvent =
     (let delta = sub_record streamEvent ''delta''; contentBlock = sub_record streamEvent ''content_block'' in
      if field_is streamEvent ''type'' ''content_block_start''
      then if field_is contentBlock ''type'' ''tool_use''
           then (tool_line tm ansi_brand ''tool'' (text_or (tm_number tm) (json_field contentBlock ''name'') ''unknown''), new_two_blocks)
           else if field_is contentBlock ''type'' ''thinking'' then ([], s\<lparr>tb_thought := new_block\<rparr>)
           else ([], s\<lparr>tb_text := new_block\<rparr>)
      else if field_is streamEvent ''type'' ''content_block_stop'' then (newline, new_two_blocks)
      else if field_is delta ''type'' ''text_delta''
      then show_text tm ansi_brand (tb_text s) (text_or (tm_number tm) (json_field delta ''text'') []) s
      else if field_is delta ''type'' ''thinking_delta''
      then show_thought tm (tb_thought s) (text_or (tm_number tm) (json_field delta ''thinking'') []) s
      else ([], s))"

fun claude_content :: "terminal \<Rightarrow> two_blocks \<Rightarrow> json list \<Rightarrow> string \<times> two_blocks" where
  "claude_content tm s [] = ([], s)"
| "claude_content tm s (v # vs) =
     (let block = json_record (Some v) in
      if field_is block ''type'' ''text''
      then (let body = js_trim (text_or (tm_number tm) (json_field block ''text'') []) in
            if body = [] then claude_content tm s vs
            else let (out, s1) = show_text tm ansi_brand new_block (body @ newline) s; (rest, s2) = claude_content tm s1 vs
                 in (out @ rest, s2))
      else if field_is block ''type'' ''tool_use''
      then (let (rest, s2) = claude_content tm s vs
            in (tool_line tm ansi_brand ''tool'' (text_or (tm_number tm) (json_field block ''name'') ''unknown'') @ rest, s2))
      else claude_content tm s vs)"

definition claude_event :: "terminal \<Rightarrow> two_blocks \<Rightarrow> (string \<times> json) list \<Rightarrow> string \<times> two_blocks" where
  "claude_event tm s event =
     (if field_is event ''type'' ''stream_event'' then claude_stream_event tm s (sub_record event ''event'')
      else if field_is event ''type'' ''assistant''
      then claude_content tm s (case json_field (sub_record event ''message'') ''content'' of Some (JArr vs) \<Rightarrow> vs | _ \<Rightarrow> [])
      else if field_is event ''type'' ''result''
      then (own_line (if json_truthy (json_field event ''is_error'')
              then status_line tm ErrorStatus (''Claude error: '' @ text_or (tm_number tm) (json_field event ''result'') ''unknown error'')
              else status_line tm OkStatus ''Claude finished.''), s)
      else if field_is event ''type'' ''system'' \<and> field_is event ''subtype'' ''api_retry''
      then (own_line (status_line tm WarnStatus (''Claude API retry '' @ text_or (tm_number tm) (json_field event ''attempt'') ''?'' @
              ''/'' @ text_or (tm_number tm) (json_field event ''max_retries'') ''?'' @ ''.'')), s)
      else ([], s))"

definition claude_format :: "json_parser \<Rightarrow> terminal \<Rightarrow> two_blocks \<Rightarrow> string \<Rightarrow> string \<times> two_blocks" where
  "claude_format parse tm s line =
     (case parseJsonObject parse line of
        None \<Rightarrow> if isClaudeConnectorNotice line then ([], s)
                else show_text tm ansi_brand (tb_text s) (sanitizeUntrustedText line @ newline) s
      | Some event \<Rightarrow> claude_event tm s event)"

section \<open>Codex\<close>

definition codex_text :: "terminal \<Rightarrow> two_blocks \<Rightarrow> (string \<times> json) list \<Rightarrow> string \<times> two_blocks" where
  "codex_text tm s r =
     (let body = js_trim (textFromContentRecord r) in
      if body = [] then ([], s)
      else let (out, s') = show_text tm ansi_blue new_block (body @ newline) s in (newline @ out, s'))"

definition codex_thought :: "terminal \<Rightarrow> two_blocks \<Rightarrow> (string \<times> json) list \<Rightarrow> string \<times> two_blocks" where
  "codex_thought tm s r =
     (let body = js_trim (textFromContentRecord r) in
      if body = [] then ([], s)
      else let (out, s') = show_thought tm new_block (body @ newline) s in (newline @ out, s'))"

definition codex_event_line :: "terminal \<Rightarrow> two_blocks \<Rightarrow> (string \<times> json) list \<Rightarrow> string \<times> two_blocks" where
  "codex_event_line tm s event =
     (let is_type = field_is event ''type''; item = sub_record event ''item''; is_item = field_is item ''type''
      in if is_type ''turn.started'' then (own_line (status_line tm InfoStatus ''Codex started.''), s)
      else if is_type ''turn.completed'' then (own_line (status_line tm OkStatus ''Codex finished.''), s)
      else if is_type ''turn.failed''
      then (own_line (status_line tm ErrorStatus (''Codex failed: '' @
              text_or (tm_number tm) (json_field (sub_record event ''error'') ''message'') ''turn failed'')), s)
      else if is_type ''error''
      then (own_line (status_line tm ErrorStatus (''Codex error: '' @ text_or (tm_number tm) (json_field event ''message'') ''unknown error'')), s)
      else if is_type ''item.completed'' \<and> is_item ''agent_message'' then codex_text tm s item
      else if is_type ''item.completed'' \<and> is_item ''reasoning'' then codex_thought tm s item
      else if is_type ''item.started'' \<and> is_item ''command_execution''
      then (tool_line tm ansi_blue ''command'' (text_or (tm_number tm) (json_field item ''command'') ''command''), s)
      else if is_type ''item.completed'' \<and> is_item ''file_change''
      then (own_line (status_line tm InfoStatus ''Codex changed files.''), s)
      else if is_type ''message'' \<or> is_type ''assistant_message'' then codex_text tm s event
      else ([], s))"

definition codex_format :: "json_parser \<Rightarrow> terminal \<Rightarrow> two_blocks \<Rightarrow> string \<Rightarrow> string \<times> two_blocks" where
  "codex_format parse tm s line =
     (case parseJsonObject parse line of
        None \<Rightarrow> show_text tm ansi_blue (tb_text s) (sanitizeUntrustedText line @ newline) s
      | Some event \<Rightarrow> codex_event_line tm s event)"

section \<open>Kimi\<close>

record kimi_renderer =
  kr_text :: block_state
  kr_plain :: block_state

definition new_kimi :: kimi_renderer where
  "new_kimi = \<lparr>kr_text = new_block, kr_plain = new_block\<rparr>"

definition kimi_tool :: "terminal \<Rightarrow> json \<Rightarrow> string" where
  "kimi_tool tm call =
     (let r = json_record (Some call)
      in tool_line tm ansi_magenta ''tool''
           (text_or (tm_number tm) (json_coalesce (json_field (sub_record r ''function'') ''name'') (json_field r ''name'')) ''tool''))"

definition kimi_event :: "terminal \<Rightarrow> kimi_renderer \<Rightarrow> (string \<times> json) list \<Rightarrow> string \<times> kimi_renderer" where
  "kimi_event tm s event =
     (if field_is event ''type'' ''error''
      then (own_line (status_line tm ErrorStatus (''Kimi error: '' @ text_or (tm_number tm) (json_field event ''message'') ''unknown error'')), s)
      else let message = event_message event in
      if json_coalesce (json_field message ''role'') (json_field event ''role'') \<noteq> Some (JStr ''assistant'') then ([], s)
      else let body = js_trim (textFromContentRecord message);
               tools = concat (map (kimi_tool tm) (case json_field message ''tool_calls'' of Some (JArr vs) \<Rightarrow> vs | _ \<Rightarrow> []))
           in if body = [] then (tools, s)
              else let (out, b) = block_feed tm (text_block tm ansi_magenta) new_block (body @ newline)
                   in (newline @ out @ tools, s\<lparr>kr_text := b\<rparr>))"

definition kimi_format :: "json_parser \<Rightarrow> terminal \<Rightarrow> kimi_renderer \<Rightarrow> string \<Rightarrow> string \<times> kimi_renderer" where
  "kimi_format parse tm s line =
     (case parseJsonObject parse line of
        None \<Rightarrow> (let (out, b) = block_feed tm (text_block tm ansi_magenta) (kr_plain s) (sanitizeUntrustedText line @ newline)
                 in (out, s\<lparr>kr_plain := b\<rparr>))
      | Some event \<Rightarrow> kimi_event tm s event)"

section \<open>The renderer of an agent\<close>

text \<open>The text a new renderer of an agent produces for chunks of its standard output.\<close>

fun render_output :: "json_parser \<Rightarrow> terminal \<Rightarrow> AgentName \<Rightarrow> string list \<Rightarrow> string" where
  "render_output parse tm Claude cs = concat (fst (line_feeds (json_line_step (claude_format parse tm)) ([], new_two_blocks) cs))"
| "render_output parse tm Pi cs = concat (fst (line_feeds (json_line_step (pi_format parse tm)) ([], new_pi) cs))"
| "render_output parse tm Codex cs = concat (fst (line_feeds (json_line_step (codex_format parse tm)) ([], new_two_blocks) cs))"
| "render_output parse tm Kimi cs = concat (fst (line_feeds (json_line_step (kimi_format parse tm)) ([], new_kimi) cs))"

text \<open>The reference: the complete lines of the text, trimmed, the empty ones left out, formatted one after the other.\<close>

function complete_lines :: "string \<Rightarrow> string list" where
  "complete_lines s =
     (if LF \<in> set s then takeWhile (\<lambda>c. c \<noteq> LF) s # complete_lines (tl (dropWhile (\<lambda>c. c \<noteq> LF) s)) else [])"
  by pat_completeness auto
termination
  by (relation "measure length") (simp_all add: tl_dropWhile_shorter)

declare complete_lines.simps [simp del]

fun format_lines :: "('s \<Rightarrow> string \<Rightarrow> string \<times> 's) \<Rightarrow> 's \<Rightarrow> string list \<Rightarrow> string" where
  "format_lines f s [] = []"
| "format_lines f s (l # ls) = (let (out, s') = f s l in out @ format_lines f s' ls)"

definition shown_lines :: "string \<Rightarrow> string list" where
  "shown_lines body = filter (\<lambda>l. l \<noteq> []) (map js_trim (complete_lines body))"

fun reference_output :: "json_parser \<Rightarrow> terminal \<Rightarrow> AgentName \<Rightarrow> string \<Rightarrow> string" where
  "reference_output parse tm Claude body = format_lines (claude_format parse tm) new_two_blocks (shown_lines body)"
| "reference_output parse tm Pi body = format_lines (pi_format parse tm) new_pi (shown_lines body)"
| "reference_output parse tm Codex body = format_lines (codex_format parse tm) new_two_blocks (shown_lines body)"
| "reference_output parse tm Kimi body = format_lines (kimi_format parse tm) new_kimi (shown_lines body)"

interpretation json_lines: line_handler "json_line_step format" for format :: "'s \<Rightarrow> string \<Rightarrow> string \<times> 's"
  by unfold_locales (simp add: json_line_step_def)

interpretation stderr_lines: line_handler "stderr_step tm" for tm
  by unfold_locales (simp add: stderr_step_def)

lemma line_loop_formats: "concat (fst (line_loop (json_line_step f) body s)) = format_lines f s (shown_lines body)"
proof (induction body arbitrary: s rule: complete_lines.induct)
  case (1 body)
  show ?case
  proof (cases "LF \<in> set body")
    case False
    then show ?thesis by (simp add: line_loop_no_LF shown_lines_def complete_lines.simps [of body])
  next
    case True
    let ?line = "js_trim (takeWhile (\<lambda>c. c \<noteq> LF) body)"
    let ?rest = "tl (dropWhile (\<lambda>c. c \<noteq> LF) body)"
    have lines: "shown_lines body = (if ?line = [] then [] else [?line]) @ shown_lines ?rest"
      using True by (simp add: shown_lines_def complete_lines.simps [of body])
    obtain outs s1 where step: "json_line_step f s ?line = (outs, s1)" by fastforce
    have "concat (fst (line_loop (json_line_step f) body s)) = concat outs @ concat (fst (line_loop (json_line_step f) ?rest s1))"
      using True step by (subst line_loop.simps) (simp split: prod.split)
    also have "\<dots> = concat outs @ format_lines f s1 (shown_lines ?rest)"
      by (simp add: 1 [OF True])
    also have "\<dots> = format_lines f s (shown_lines body)"
      using step lines by (auto simp: json_line_step_def split: if_splits prod.splits)
    finally show ?thesis .
  qed
qed

lemma line_feeds_formats: "concat (fst (line_feeds (json_line_step f) ([], s) cs)) = format_lines f s (shown_lines (concat cs))"
  using line_loop_formats [of f "concat cs" s] by (simp add: line_feeds_concat line_feed_def)

text \<open>C29. What a renderer shows does not depend on how the output was cut into chunks: it is the formatting of the
  complete lines, one after the other, for every agent, every JSON parser and every chunking.
\<close>

theorem rendering_by_lines: "render_output parse tm agent cs = reference_output parse tm agent (concat cs)"
  by (cases agent) (simp_all add: line_feeds_formats)

section \<open>Untrusted text is harmless\<close>

lemma escape_not_shown: "\<not> shown_char ESC" "shown_char LF" "\<not> shown_char CR" "\<not> shown_char BEL"
  by (simp_all add: shown_char_def ESC_def LF_def CR_def BEL_def)

lemma sanitized_shown: "list_all shown_char (sanitizeUntrustedText s)"
  by (induction s rule: sanitizeUntrustedText.induct) (auto split: list.splits)

lemma shown_unchanged: "list_all shown_char s \<Longrightarrow> sanitizeUntrustedText s = s"
  by (induction s) (auto simp: escape_not_shown)

text \<open>Sanitized text holds printable characters, tabs and line feeds only - no escape character, so no terminal
  sequence of any kind - printable text is left as it is, and sanitizing twice changes nothing.
\<close>

theorem sanitized_text_safe:
  "list_all shown_char (sanitizeUntrustedText s) \<and> ESC \<notin> set (sanitizeUntrustedText s) \<and>
   sanitizeUntrustedText (sanitizeUntrustedText s) = sanitizeUntrustedText s \<and>
   sanitizeUntrustedText (filter shown_char s) = filter shown_char s"
proof -
  have "ESC \<notin> set (sanitizeUntrustedText s)"
    using sanitized_shown [of s] escape_not_shown(1) by (auto simp: list_all_iff)
  moreover have "list_all shown_char (filter shown_char s)" by (simp add: list_all_iff)
  ultimately show ?thesis using shown_unchanged sanitized_shown by blast
qed

lemma block_feed_shown:
  assumes "list_all shown_char (bl_marker bl)" and "\<not> tm_colors tm" and "bl_bodyStyles bl = []"
  shows "list_all shown_char body \<Longrightarrow> list_all shown_char (fst (block_feed tm bl b body))"
proof (induction body arbitrary: b)
  case (Cons c cs)
  have "list_all shown_char (line_start tm bl b)"
    using assms by (simp add: line_start_def term_color_def CONTINUATION_INDENT_def shown_char_def)
  with Cons assms(3) show ?case by (auto simp: escape_not_shown split: prod.split) (metis fst_conv)+
qed simp

text \<open>The text of a JSON event is not sanitized: an escape sequence in a message reaches the terminal.\<close>

lemma message_text_unsanitized:
  assumes "parse ''x'' = Some (JObj [(''type'', JStr ''message''), (''text'', JStr [ESC, CHR ''c''])])" and "\<not> tm_colors tm"
  shows "ESC \<in> set (fst (codex_format parse tm new_two_blocks ''x''))"
  using assms
  by (simp add: codex_format_def parseJsonObject_def codex_event_line_def Let_def field_is_def json_field_def sub_record_def
      codex_text_def textFromContentRecord_def js_trim_def js_space_def ESC_def show_text_def newline_def CR_def LF_def new_block_def
      split: prod.split)

text \<open>A line that is a bare JSON value is an event without fields and is not shown.\<close>

lemma bare_value_dropped:
  assumes "parse line = Some (JNum 42)"
  shows "fst (pi_format parse tm s line) = [] \<and> fst (claude_format parse tm u line) = [] \<and> fst (codex_format parse tm u line) = []
    \<and> fst (kimi_format parse tm v line) = []"
  using assms
  by (simp add: pi_format_def claude_format_def codex_format_def kimi_format_def parseJsonObject_def pi_event_def claude_event_def
      codex_event_line_def kimi_event_def field_is_def json_field_def sub_record_def Let_def piAssistantTextDelta_def
      piAssistantEndedText_def pi_update_field_def piAssistantText_def event_message_def json_coalesce_def js_trim_def
      piStatusMessage_def pi_turn_over_def)

text \<open>The text of an agent that no JSON parser accepts is shown with printable characters only.\<close>

fun plain_output :: "json_parser \<Rightarrow> terminal \<Rightarrow> AgentName \<Rightarrow> string \<Rightarrow> string" where
  "plain_output parse tm Claude line = fst (claude_format parse tm new_two_blocks line)"
| "plain_output parse tm Pi line = fst (pi_format parse tm new_pi line)"
| "plain_output parse tm Codex line = fst (codex_format parse tm new_two_blocks line)"
| "plain_output parse tm Kimi line = fst (kimi_format parse tm new_kimi line)"

text \<open>A line of an agent's output that is not JSON cannot control the terminal: without colours, everything a
  renderer shows for it is printable, whatever bytes the line holds.
\<close>

theorem plain_line_printable:
  assumes "parse line = None" and "\<not> tm_colors tm" and "list_all shown_char (tm_textMark tm)"
  shows "list_all shown_char (plain_output parse tm agent line)"
proof -
  have lines: "list_all shown_char (sanitizeUntrustedText line @ newline)"
    using sanitized_shown [of line] by (simp add: newline_def shown_char_def)
  have block: "list_all shown_char (fst (block_feed tm (text_block tm a) b (sanitizeUntrustedText line @ newline)))" for a b
    by (rule block_feed_shown) (use assms lines in \<open>simp_all add: text_block_def\<close>)
  show ?thesis
    using assms(1) block
    by (cases agent)
       (auto simp: claude_format_def pi_format_def codex_format_def kimi_format_def parseJsonObject_def show_text_def
         split: prod.split, (metis fst_conv)+)
qed

definition plain_terminal :: terminal where
  "plain_terminal = \<lparr>tm_colors = False, tm_textMark = ''*'', tm_thinkMark = ''o'', tm_toolMark = ''>'', tm_number = (\<lambda>_. ''0'')\<rparr>"

theorem plain_line_printable_witness:
  "list_all shown_char (plain_output (\<lambda>_. None) plain_terminal Pi [ESC, CHR ''['', CHR ''2'', CHR ''J'', BEL, CHR ''x''])"
  by (rule plain_line_printable) (simp_all add: plain_terminal_def shown_char_def)

section \<open>The layout of a block\<close>

text \<open>
  The reference layout: the lines of the text without carriage returns; a line that is not empty gets the
  marker, or the indent when an earlier line got the marker.
\<close>

definition laid_out_line :: "terminal \<Rightarrow> block_style \<Rightarrow> bool \<Rightarrow> string \<Rightarrow> string" where
  "laid_out_line tm bl started l =
     (if l = [] then [] else line_start tm bl \<lparr>bs_atLineStart = True, bs_blockStarted = started\<rparr> @ l)"

fun block_layout :: "terminal \<Rightarrow> block_style \<Rightarrow> bool \<Rightarrow> string list \<Rightarrow> string" where
  "block_layout tm bl started [] = []"
| "block_layout tm bl started [l] = laid_out_line tm bl started l"
| "block_layout tm bl started (l # m # ls) =
     laid_out_line tm bl started l @ (if bl_bodyStyles bl \<noteq> [] then ansi_reset else []) @ [LF] @
     block_layout tm bl (started \<or> l \<noteq> []) (m # ls)"

lemma split_at_Cons: "\<exists>l ls. split_at LF s = l # ls"
  by (induction s) (auto split: list.split)

lemma block_feed_append:
  "block_feed tm bl b (x @ y) =
     (let (o1, b1) = block_feed tm bl b x; (o2, b2) = block_feed tm bl b1 y in (o1 @ o2, b2))"
  by (induction x arbitrary: b) (simp_all split: prod.split)

text \<open>In the middle of a line the rest of it is shown as it is.\<close>

lemma block_feed_layout:
  "fst (block_feed tm bl \<lparr>bs_atLineStart = start, bs_blockStarted = started\<rparr> body) =
     (case split_at LF (filter (\<lambda>c. c \<noteq> CR) body) of
        [] \<Rightarrow> []
      | l # ls \<Rightarrow> if start then block_layout tm bl started (l # ls)
                 else l @ block_layout tm bl started ([] # ls))"
proof (induction body arbitrary: start started)
  case Nil
  then show ?case by (simp add: laid_out_line_def)
next
  case (Cons c cs)
  obtain l ls where split: "split_at LF (filter (\<lambda>c. c \<noteq> CR) cs) = l # ls" using split_at_Cons by blast
  have IH: "fst (block_feed tm bl \<lparr>bs_atLineStart = start, bs_blockStarted = started\<rparr> cs) =
      (if start then block_layout tm bl started (l # ls) else l @ block_layout tm bl started ([] # ls))" for start started
    using Cons.IH split by simp
  have LF_CR: "LF \<noteq> CR" by (simp add: LF_def CR_def)
  consider "c = CR" | "c = LF" | "c \<noteq> CR" "c \<noteq> LF" by blast
  then show ?case
  proof cases
    case 1
    then show ?thesis using IH split by simp
  next
    case 2
    then show ?thesis using IH [of True started] split LF_CR
      by (auto simp: laid_out_line_def split: prod.split)
  next
    case 3
    have lines: "split_at LF (filter (\<lambda>c. c \<noteq> CR) (c # cs)) = (c # l) # ls" using 3 split by simp
    have glue: "block_layout tm bl v ((c # l) # ls) =
        line_start tm bl \<lparr>bs_atLineStart = True, bs_blockStarted = v\<rparr> @ c # l @ block_layout tm bl True ([] # ls)" for v
      by (cases ls) (simp_all add: laid_out_line_def)
    show ?thesis
      unfolding lines using 3 IH [of False True] IH [of False started]
      by (simp add: glue split: prod.split) (metis fst_conv)
  qed
qed

lemma new_block_layout:
  "fst (block_feed tm bl new_block body) = block_layout tm bl False (split_at LF (filter (\<lambda>c. c \<noteq> CR) body))"
proof -
  obtain l ls where "split_at LF (filter (\<lambda>c. c \<noteq> CR) body) = l # ls" using split_at_Cons by blast
  then show ?thesis using block_feed_layout [of tm bl True False body] by (simp add: new_block_def)
qed

fun block_feeds :: "terminal \<Rightarrow> block_style \<Rightarrow> block_state \<Rightarrow> string list \<Rightarrow> string \<times> block_state" where
  "block_feeds tm bl b [] = ([], b)"
| "block_feeds tm bl b (c # cs) =
     (let (o1, b1) = block_feed tm bl b c; (o2, b2) = block_feeds tm bl b1 cs in (o1 @ o2, b2))"

lemma block_feeds_concat: "block_feeds tm bl b cs = block_feed tm bl b (concat cs)"
  by (induction cs arbitrary: b) (simp_all add: block_feed_append split: prod.split)

text \<open>A block is laid out line by line however its text is fed: feeding chunks one after the other to a new
  block gives the reference layout of the whole text, in which every line that is not empty is preceded by the
  marker (the first one) or the indent, and nothing of the text but carriage returns is lost.
\<close>

theorem block_layout_exact:
  "fst (block_feeds tm bl new_block cs) = block_layout tm bl False (split_at LF (filter (\<lambda>c. c \<noteq> CR) (concat cs)))"
  by (simp add: block_feeds_concat new_block_layout)

section \<open>A turn of Pi\<close>

definition pi_update :: "string \<Rightarrow> string \<Rightarrow> string \<Rightarrow> (string \<times> json) list" where
  "pi_update kind key body = [(''type'', JStr ''message_update''), (''message'', JObj [(''role'', JStr ''assistant'')]),
     (''assistantMessageEvent'', JObj [(''type'', JStr kind), (key, JStr body)])]"

definition pi_end_event :: "string \<Rightarrow> string \<Rightarrow> (string \<times> json) list" where
  "pi_end_event kind body = [(''type'', JStr kind), (''message'', JObj [(''role'', JStr ''assistant''), (''content'', JStr body)])]"

fun pi_run :: "terminal \<Rightarrow> pi_renderer \<Rightarrow> (string \<times> json) list list \<Rightarrow> string \<times> pi_renderer" where
  "pi_run tm s [] = ([], s)"
| "pi_run tm s (e # es) = (let (o1, s1) = pi_event tm s e; (o2, s2) = pi_run tm s1 es in (o1 @ o2, s2))"

lemma pi_run_append: "pi_run tm s (es @ fs) = (let (o1, s1) = pi_run tm s es; (o2, s2) = pi_run tm s1 fs in (o1 @ o2, s2))"
  by (induction es arbitrary: s) (simp_all split: prod.split)

lemmas pi_reads = field_is_def json_field_def sub_record_def pi_update_field_def piAssistantTextDelta_def piAssistantEndedText_def
  event_message_def json_coalesce_def piAssistantText_def textFromContentRecord_def isPiAssistantTerminalEvent_def pi_turn_over_def
  piStatusMessage_def

lemma pi_delta_event:
  assumes "js_trim d \<noteq> []"
  shows "pi_event tm s (pi_update ''text_delta'' ''delta'' d) = pi_show tm (pr_text s) (sanitizeUntrustedText d) s"
  using assms by (simp add: pi_event_def pi_update_def pi_reads)

lemma pi_deltas_run:
  "list_all (\<lambda>d. js_trim d \<noteq> []) ds \<Longrightarrow> ds \<noteq> [] \<Longrightarrow>
   pi_run tm s (map (pi_update ''text_delta'' ''delta'') ds) =
     pi_show tm (pr_text s) (concat (map sanitizeUntrustedText ds)) s"
proof (induction ds arbitrary: s)
  case (Cons d ds)
  then show ?case
    by (cases "ds = []") (simp_all add: pi_delta_event pi_show_def block_feed_append split: prod.split)
qed simp

lemma pi_seen_silent:
  assumes "pr_sawText s"
  shows "pi_event tm s (pi_update ''text_end'' ''content'' body) = ([], s)"
    and "kind \<in> {''message_end'', ''turn_end''} \<Longrightarrow> pi_event tm s (pi_end_event kind body) = ([], s)"
proof -
  show "pi_event tm s (pi_update ''text_end'' ''content'' body) = ([], s)"
    using assms by (simp add: pi_event_def pi_update_def pi_reads js_trim_def)
  show "kind \<in> {''message_end'', ''turn_end''} \<Longrightarrow> pi_event tm s (pi_end_event kind body) = ([], s)"
    using assms by (auto simp: pi_event_def pi_end_event_def pi_reads js_trim_def)
qed

text \<open>A streamed reply of Pi is shown once: when a message starts and its text arrives in deltas, what is shown
  for the whole turn is one block with the text of the deltas, although the events that end text, message and
  turn repeat the reply in full.
\<close>

theorem pi_reply_shown_once:
  assumes "list_all (\<lambda>d. js_trim d \<noteq> []) ds" and "ds \<noteq> []"
  shows "fst (pi_run tm s ([(''type'', JStr ''message_start''), (''message'', JObj [(''role'', JStr ''assistant'')])] #
           map (pi_update ''text_delta'' ''delta'') ds @
           [pi_update ''text_end'' ''content'' reply, pi_end_event ''message_end'' reply, pi_end_event ''turn_end'' reply])) =
    block_layout tm (text_block tm ansi_yellow) False
      (split_at LF (filter (\<lambda>c. c \<noteq> CR) (concat (map sanitizeUntrustedText ds))))"
proof -
  have start: "pi_event tm s [(''type'', JStr ''message_start''), (''message'', JObj [(''role'', JStr ''assistant'')])] =
      ([], s\<lparr>pr_text := new_block\<rparr>)"
    by (simp add: pi_event_def pi_reads)
  obtain out b where feed: "block_feed tm (text_block tm ansi_yellow) new_block (concat (map sanitizeUntrustedText ds)) = (out, b)"
    by fastforce
  have run: "pi_run tm (s\<lparr>pr_text := new_block\<rparr>) (map (pi_update ''text_delta'' ''delta'') ds) =
      (out, s\<lparr>pr_text := b, pr_sawText := True\<rparr>)"
    by (simp add: pi_deltas_run [OF assms] pi_show_def feed)
  have "out = block_layout tm (text_block tm ansi_yellow) False
      (split_at LF (filter (\<lambda>c. c \<noteq> CR) (concat (map sanitizeUntrustedText ds))))"
    using new_block_layout feed by (metis fst_conv)
  with start run show ?thesis
    by (simp add: pi_run_append pi_seen_silent)
qed

theorem pi_reply_shown_once_witness:
  "fst (pi_run plain_terminal new_pi ([(''type'', JStr ''message_start''), (''message'', JObj [(''role'', JStr ''assistant'')])] #
           map (pi_update ''text_delta'' ''delta'') [''Hel'', ''lo''] @
           [pi_update ''text_end'' ''content'' ''Hello'', pi_end_event ''message_end'' ''Hello'', pi_end_event ''turn_end'' ''Hello''])) =
    ''* Hello''"
proof -
  have "list_all (\<lambda>d. js_trim d \<noteq> []) [''Hel'', ''lo'']" by (simp add: js_trim_def js_space_def)
  from pi_reply_shown_once [OF this, of plain_terminal new_pi "''Hello''"] show ?thesis
    by (simp add: plain_terminal_def text_block_def laid_out_line_def line_start_def term_color_def shown_char_def ESC_def CR_def LF_def)
qed

text \<open>A delta of white space alone is not shown, so words and paragraphs that it separates run together.\<close>

lemma whitespace_delta_dropped:
  "js_trim d = [] \<Longrightarrow> pi_event tm s (pi_update ''text_delta'' ''delta'' d) = ([], s)"
  by (simp add: pi_event_def pi_update_def pi_reads js_trim_def)

end
