(* ===== verification/Stream_Records.thy ===== *)
theory Stream_Records
  imports Js_Json Pattern_Match
begin

text \<open>
  How the web client cuts an agent's raw output into records: \<open>stripAnsi\<close>, \<open>safeParse\<close>,
  \<open>isLikelyProtocolFragment\<close> and \<open>streamRecords\<close> of \<open>web/src/lib/agentStream.ts\<close>. A record is a JSON object,
  found by matching braces outside strings, or the text between two objects. The lemmas say that a prefix of
  the output that ends with an object is cut the same way whatever follows it; on this rests the
  incremental parsing in Agent_Segments. \<open>JSON.parse\<close> is an argument.
\<close>

section \<open>Terminal sequences\<close>

definition escape_char :: char where "escape_char = CHR 0x1B"

text \<open>What follows the escape sequence whose escape character was just read, if there is one.\<close>

definition ansi_match :: "string \<Rightarrow> string option" where
  "ansi_match s =
     (case s of
        [] \<Rightarrow> None
      | c # cs \<Rightarrow>
          if ascii_between 64 90 c \<or> ascii_between 92 95 c then Some cs
          else if c = CHR ''['' then
            (case dropWhile (ascii_between 32 47) (dropWhile (ascii_between 48 63) cs) of
               f # fs \<Rightarrow> if ascii_between 64 126 f then Some fs else None
             | [] \<Rightarrow> None)
          else None)"

lemma ansi_match_shorter: "ansi_match s = Some t \<Longrightarrow> length t < length s"
proof -
  have drop: "length (dropWhile P xs) \<le> length xs" for P and xs :: string
    by (rule length_dropWhile_le)
  assume m: "ansi_match s = Some t"
  then obtain c cs where s: "s = c # cs" by (cases s) (auto simp: ansi_match_def)
  have "length (dropWhile (ascii_between 32 47) (dropWhile (ascii_between 48 63) cs)) \<le> length cs"
    by (rule order_trans [OF drop drop])
  with m s show ?thesis by (auto simp: ansi_match_def split: if_splits list.splits)
qed

function stripAnsi :: "string \<Rightarrow> string" where
  "stripAnsi [] = []"
| "stripAnsi (c # cs) =
     (if c = escape_char
      then (case ansi_match cs of Some rest \<Rightarrow> stripAnsi rest | None \<Rightarrow> c # stripAnsi cs)
      else c # stripAnsi cs)"
  by pat_completeness auto
termination
  by (relation "measure length") (auto dest: ansi_match_shorter)

section \<open>Records\<close>

type_synonym json_object = "(string \<times> json) list"

datatype stream_record = JsonRecord json_object nat | TextRecord string nat

definition safeParse :: "json_parser \<Rightarrow> string \<Rightarrow> json_object option" where
  "safeParse parse line =
     (case parse line of Some (JObj r) \<Rightarrow> Some r | Some (JArr _) \<Rightarrow> Some [] | _ \<Rightarrow> None)"

definition rx_quoted :: "string \<Rightarrow> matcher" where
  "rx_quoted w = rx_text (CHR 0x22 # w @ [CHR 0x22])"

definition rx_blank :: matcher where "rx_blank = rx_many js_space"
definition rx_char :: "char \<Rightarrow> matcher" where "rx_char c = rx_class (\<lambda>d. d = c)"

definition isLikelyProtocolFragment :: "string \<Rightarrow> bool" where
  "isLikelyProtocolFragment s \<longleftrightarrow>
     rx_test (\<lambda>_. rx_alt [rx_seq [rx_quoted ''type'', rx_blank, rx_char (CHR '':'')], rx_seq [rx_quoted ''session_id'', rx_blank, rx_char (CHR '':'')],
       rx_text ''stream_event'', rx_text ''content_block_'', rx_text ''parent_tool_use_id'', rx_text ''uuid'']) s \<or>
     rx_test (\<lambda>_. rx_seq [rx_alt (map rx_text [''tream_event'', ''ream_event'', ''eam_event'', ''am_event'', ''m_event'']),
       rx_char (CHR 0x22), rx_blank, rx_char (CHR '',''), rx_blank, rx_quoted ''event'', rx_blank, rx_char (CHR '':'')]) s"

definition connectorNotice :: "string \<Rightarrow> bool" where
  "connectorNotice line \<longleftrightarrow>
     js_includes line ''claude.ai connectors are disabled'' \<or> js_includes line ''Unset it to load your organization's connectors''"

text \<open>
  The inner loop: how many characters up to the brace that closes the object; \<open>None\<close> when it is still open at
  the end of the text.
\<close>

fun close_object :: "nat \<Rightarrow> bool \<Rightarrow> bool \<Rightarrow> string \<Rightarrow> nat option" where
  "close_object depth inString escaped [] = None"
| "close_object depth inString escaped (c # cs) =
     (if escaped then map_option Suc (close_object depth inString False cs)
      else if c = CHR 0x5C then map_option Suc (close_object depth inString inString cs)
      else if c = CHR 0x22 then map_option Suc (close_object depth (\<not> inString) False cs)
      else if inString then map_option Suc (close_object depth inString False cs)
      else if c = CHR ''{'' then map_option Suc (close_object (depth + 1) inString False cs)
      else if c = CHR ''}'' then (if depth = 1 then Some 1 else map_option Suc (close_object (depth - 1) inString False cs))
      else map_option Suc (close_object depth inString False cs))"

lemma close_object_bound: "close_object d q e s = Some n \<Longrightarrow> 0 < n \<and> n \<le> length s"
  by (induction d q e s arbitrary: n rule: close_object.induct) (auto split: if_splits)

definition object_record :: "json_parser \<Rightarrow> nat \<Rightarrow> string \<Rightarrow> stream_record list" where
  "object_record parse e jsonText =
     (case safeParse parse jsonText of
        Some r \<Rightarrow> [JsonRecord r e]
      | None \<Rightarrow> if \<not> isLikelyProtocolFragment jsonText then [TextRecord (stripAnsi jsonText) e] else [])"

lemma object_record_json: "JsonRecord r e \<in> set (object_record parse k t) \<Longrightarrow> object_record parse k t = [JsonRecord r k] \<and> e = k"
  by (auto simp: object_record_def split: option.splits if_splits)

definition text_run :: "string \<Rightarrow> string" where
  "text_run s = takeWhile (\<lambda>c. c \<noteq> CHR ''{'') s"

lemma text_run_pos: "s \<noteq> [] \<Longrightarrow> hd s \<noteq> CHR ''{'' \<Longrightarrow> text_run s \<noteq> []"
  by (cases s) (simp_all add: text_run_def)

text \<open>\<open>i\<close> is the position of the text that is left.\<close>

function stream_records :: "json_parser \<Rightarrow> nat \<Rightarrow> string \<Rightarrow> stream_record list" where
  "stream_records parse i s =
     (if s = [] then []
      else if js_space (hd s) then stream_records parse (i + 1) (tl s)
      else if hd s \<noteq> CHR ''{'' then
        (let n = length (text_run s); body = js_trim (text_run s)
         in (if body \<noteq> [] \<and> \<not> isLikelyProtocolFragment body \<and> \<not> connectorNotice body then [TextRecord body (i + n)] else []) @
            stream_records parse (i + n) (drop n s))
      else (case close_object 0 False False s of
          None \<Rightarrow> []
        | Some n \<Rightarrow>
            object_record parse (i + n) (take n s) @ stream_records parse (i + n) (drop n s)))"
  by pat_completeness auto
termination
proof (relation "measure (\<lambda>(parse, i, s). length s)", goal_cases)
  case (3 parse i s n body)
  then show ?case using text_run_pos [of s] by (cases s) auto
next
  case (4 parse i s n)
  then show ?case using close_object_bound by fastforce
qed auto

declare stream_records.simps [simp del]

definition streamRecords :: "json_parser \<Rightarrow> string \<Rightarrow> stream_record list" where
  "streamRecords parse raw = stream_records parse 0 raw"

section \<open>A prefix that ends with an object\<close>

text \<open>The object that starts a text is found in the same place when more text follows.\<close>

lemma close_object_append: "close_object d q e s = Some n \<Longrightarrow> close_object d q e (s @ u) = Some n"
  by (induction d q e s arbitrary: n rule: close_object.induct) (auto split: if_splits)

lemma close_object_take: "close_object d q e s = Some n \<Longrightarrow> n \<le> k \<Longrightarrow> close_object d q e (take k s) = Some n"
proof (induction d q e s arbitrary: n k rule: close_object.induct)
  case (2 depth inString escaped c cs)
  then show ?case by (cases k) (auto split: if_splits)
qed simp

text \<open>One step of the scan: the records of the first piece of a text, and its length.\<close>

definition first_piece :: "json_parser \<Rightarrow> nat \<Rightarrow> string \<Rightarrow> (stream_record list \<times> nat) option" where
  "first_piece parse i s =
     (if s = [] then None
      else if js_space (hd s) then Some ([], 1)
      else if hd s \<noteq> CHR ''{'' then
        (let n = length (text_run s); body = js_trim (text_run s)
         in Some (if body \<noteq> [] \<and> \<not> isLikelyProtocolFragment body \<and> \<not> connectorNotice body then [TextRecord body (i + n)] else [], n))
      else map_option (\<lambda>n. (object_record parse (i + n) (take n s), n)) (close_object 0 False False s))"

lemma stream_records_piece:
  "stream_records parse i s =
     (case first_piece parse i s of None \<Rightarrow> [] | Some (rs, n) \<Rightarrow> rs @ stream_records parse (i + n) (drop n s))"
  by (subst stream_records.simps) (auto simp: first_piece_def Let_def drop_Suc split: option.split)

lemma first_piece_bound: "first_piece parse i s = Some (rs, n) \<Longrightarrow> 0 < n \<and> n \<le> length s"
  using text_run_pos [of s] close_object_bound [of 0 False False s] length_takeWhile_le [of _ s]
  by (auto simp: first_piece_def Let_def text_run_def Suc_leI split: if_splits)

lemma first_piece_json:
  assumes "first_piece parse i s = Some (rs, n)" and "JsonRecord r e \<in> set rs"
  shows "rs = [JsonRecord r (i + n)] \<and> e = i + n"
  using assms by (auto simp: first_piece_def Let_def dest: object_record_json split: if_splits)

text \<open>The first piece does not depend on what follows it, unless it is a text that runs to the end.\<close>

lemma piece_kinds:
  assumes "first_piece parse i s = Some (rs, n)"
  obtains "hd s = CHR ''{''" "close_object 0 False False s = Some n"
      "\<And>t. t \<noteq> [] \<Longrightarrow> hd t = CHR ''{'' \<Longrightarrow> close_object 0 False False t = Some n \<Longrightarrow> take n t = take n s \<Longrightarrow>
            first_piece parse i t = Some (rs, n)"
  | "js_space (hd s)" "\<And>t. t \<noteq> [] \<Longrightarrow> hd t = hd s \<Longrightarrow> first_piece parse i t = Some (rs, n)"
  | "hd s \<noteq> CHR ''{''" "n = length (text_run s)" "\<not> js_space (hd s)"
      "\<And>t. t \<noteq> [] \<Longrightarrow> hd t = hd s \<Longrightarrow> text_run t = text_run s \<Longrightarrow> first_piece parse i t = Some (rs, n)"
proof -
  have brace: "\<not> js_space (CHR ''{'')" by (simp add: js_space_def)
  have s: "s \<noteq> []" using assms by (auto simp: first_piece_def)
  consider "js_space (hd s)" | "hd s = CHR ''{''" | "\<not> js_space (hd s)" "hd s \<noteq> CHR ''{''" by blast
  then show thesis
  proof cases
    case 1
    show thesis by (rule that(2)) (use 1 assms s in \<open>auto simp: first_piece_def\<close>)
  next
    case 2
    have close: "close_object 0 False False s = Some n"
      using 2 assms s brace by (auto simp: first_piece_def)
    show thesis by (rule that(1)) (use 2 assms s brace close in \<open>auto simp: first_piece_def\<close>)
  next
    case 3
    have n: "n = length (text_run s)" using 3 assms s by (auto simp: first_piece_def Let_def)
    show thesis by (rule that(3)) (use 3 assms s n in \<open>auto simp: first_piece_def Let_def\<close>)
  qed
qed

lemma text_run_append: "length (text_run s) < length s \<Longrightarrow> text_run (s @ u) = text_run s"
  by (induction s) (auto simp: text_run_def split: if_splits)

lemma first_piece_append:
  assumes "first_piece parse i p = Some (rs, n)" and "n < length p \<or> hd p = CHR ''{'' "
  shows "first_piece parse i (p @ u) = Some (rs, n)"
proof -
  have p: "p \<noteq> []" using assms(1) by (auto simp: first_piece_def)
  from assms(1) show ?thesis
  proof (cases rule: piece_kinds)
    case 1
    show ?thesis
    proof (rule 1(3))
      show "p @ u \<noteq> []" "hd (p @ u) = CHR ''{''" using p 1(1) by simp_all
      show "close_object 0 False False (p @ u) = Some n" by (rule close_object_append [OF 1(2)])
      show "take n (p @ u) = take n p" using first_piece_bound [OF assms(1)] by simp
    qed
  next
    case 2
    show ?thesis by (rule 2(2)) (use p in simp_all)
  next
    case 3
    have "n < length p" using assms(2) 3(1) by blast
    then have "text_run (p @ u) = text_run p" using text_run_append 3(2) by simp
    then show ?thesis by (intro 3(4)) (use p in simp_all)
  qed
qed

lemma text_run_take: "length (text_run s) < k \<Longrightarrow> text_run (take k s) = text_run s"
proof (induction s arbitrary: k)
  case (Cons c cs)
  then show ?case by (cases k) (auto simp: text_run_def split: if_splits)
qed simp

lemma first_piece_take:
  assumes "first_piece parse i s = Some (rs, n)" and "n < k \<or> n = k \<and> hd s = CHR ''{''"
  shows "first_piece parse i (take k s) = Some (rs, n)"
proof -
  have s: "s \<noteq> []" using assms(1) by (auto simp: first_piece_def)
  have k: "0 < k" "n \<le> k" using assms(2) first_piece_bound [OF assms(1)] by auto
  then have hd: "take k s \<noteq> []" "hd (take k s) = hd s" using s by (simp_all add: hd_take)
  from assms(1) show ?thesis
  proof (cases rule: piece_kinds)
    case 1
    show ?thesis
    proof (rule 1(3))
      show "take k s \<noteq> []" "hd (take k s) = CHR ''{''" using hd 1(1) by simp_all
      show "close_object 0 False False (take k s) = Some n" by (rule close_object_take [OF 1(2) k(2)])
      show "take n (take k s) = take n s" using k by (simp add: min_def)
    qed
  next
    case 2
    show ?thesis by (rule 2(2)) (use hd in simp_all)
  next
    case 3
    have "n < k" using assms(2) 3(1) by blast
    then have "text_run (take k s) = text_run s" using text_run_take 3(2) by simp
    then show ?thesis by (intro 3(4)) (use hd in simp_all)
  qed
qed

lemma records_piece: "first_piece parse i s = Some (rs, n) \<Longrightarrow> stream_records parse i s = rs @ stream_records parse (i + n) (drop n s)"
  by (subst stream_records_piece) simp

lemma records_some_piece: "stream_records parse i s \<noteq> [] \<Longrightarrow> \<exists>rs n. first_piece parse i s = Some (rs, n)"
  by (subst (asm) stream_records_piece) (cases "first_piece parse i s", auto)

lemma record_ends: "JsonRecord r e \<in> set (stream_records parse i s) \<Longrightarrow> i < e \<and> e \<le> i + length s"
proof (induction "length s" arbitrary: i s rule: less_induct)
  case less
  then have "stream_records parse i s \<noteq> []" by auto
  then obtain rs n where p: "first_piece parse i s = Some (rs, n)"
    using records_some_piece by blast
  note b = first_piece_bound [OF p]
  from less.prems records_piece [OF p]
  consider "JsonRecord r e \<in> set rs" | "JsonRecord r e \<in> set (stream_records parse (i + n) (drop n s))" by auto
  then show ?case
  proof cases
    case 1
    from first_piece_json [OF p this] b show ?thesis by auto
  next
    case 2
    have "length (drop n s) < length s" using b by auto
    from less.hyps [OF this 2] b show ?thesis by auto
  qed
qed

text \<open>
  \<open>closed parse i p\<close>: the scan of \<open>p\<close> ends with an object that ends \<open>p\<close>. Then whatever follows \<open>p\<close> is scanned on
  its own.
\<close>

definition closed :: "json_parser \<Rightarrow> nat \<Rightarrow> string \<Rightarrow> bool" where
  "closed parse i p \<longleftrightarrow> (\<exists>r. JsonRecord r (i + length p) \<in> set (stream_records parse i p))"

text \<open>A closed text starts with an object that is all of it, or with a piece and a closed text.\<close>

lemma closed_cases:
  assumes "closed parse i p" and "first_piece parse i p = Some (rs, n)"
  shows "n = length p \<and> hd p = CHR ''{'' \<or> n < length p \<and> closed parse (i + n) (drop n p)"
proof -
  note b = first_piece_bound [OF assms(2)]
  obtain r where "JsonRecord r (i + length p) \<in> set rs \<or> JsonRecord r (i + length p) \<in> set (stream_records parse (i + n) (drop n p))"
    using assms(1) records_piece [OF assms(2)] by (auto simp: closed_def)
  then show ?thesis
  proof
    assume "JsonRecord r (i + length p) \<in> set rs"
    from first_piece_json [OF assms(2) this] have "n = length p" by simp
    moreover have "hd p = CHR ''{''"
      using assms(2) \<open>JsonRecord r (i + length p) \<in> set rs\<close> by (auto simp: first_piece_def Let_def split: if_splits)
    ultimately show ?thesis by simp
  next
    assume r: "JsonRecord r (i + length p) \<in> set (stream_records parse (i + n) (drop n p))"
    with record_ends [OF r] b have "n < length p" by auto
    with r b show ?thesis by (auto simp: closed_def)
  qed
qed

lemma closed_append:
  "closed parse i p \<Longrightarrow> stream_records parse i (p @ u) = stream_records parse i p @ stream_records parse (i + length p) u"
proof (induction "length p" arbitrary: i p rule: less_induct)
  case less
  then have "stream_records parse i p \<noteq> []" by (auto simp: closed_def)
  then obtain rs n where p: "first_piece parse i p = Some (rs, n)"
    using records_some_piece by blast
  note b = first_piece_bound [OF p]
  note cases = closed_cases [OF less.prems p]
  then have "first_piece parse i (p @ u) = Some (rs, n)" using first_piece_append [OF p] by blast
  from records_piece [OF this] records_piece [OF p] show ?case
    using cases less.hyps [of "drop n p" "i + n"] b by (auto simp: stream_records.simps [of parse _ "[]"])
qed

text \<open>The records up to an object are those of the text up to it.\<close>

lemma record_prefix:
  "JsonRecord r (i + e) \<in> set (stream_records parse i s) \<Longrightarrow> \<exists>rs. stream_records parse i (take e s) = rs @ [JsonRecord r (i + e)]"
proof (induction "length s" arbitrary: i s e rule: less_induct)
  case less
  then have "stream_records parse i s \<noteq> []" by auto
  then obtain rs n where p: "first_piece parse i s = Some (rs, n)"
    using records_some_piece by blast
  note b = first_piece_bound [OF p] and e = record_ends [OF less.prems]
  from less.prems records_piece [OF p]
  consider "JsonRecord r (i + e) \<in> set rs" | "JsonRecord r (i + e) \<in> set (stream_records parse (i + n) (drop n s))" by auto
  then show ?case
  proof cases
    case 1
    from first_piece_json [OF p 1] have rs: "e = n" "rs = [JsonRecord r (i + n)]" by auto
    have "hd s = CHR ''{''"
      using p 1 by (auto simp: first_piece_def Let_def split: if_splits)
    then have "first_piece parse i (take e s) = Some (rs, n)" using first_piece_take [OF p] rs(1) by simp
    from records_piece [OF this] rs b show ?thesis by (simp add: stream_records.simps [of parse _ "[]"])
  next
    case 2
    have n: "n < e" using record_ends [OF 2] by simp
    then obtain k where k: "e = n + k" using less_imp_add_positive by auto
    have shorter: "length (drop n s) < length s" using b by auto
    have "JsonRecord r (i + n + k) \<in> set (stream_records parse (i + n) (drop n s))" using 2 k by (simp add: add.assoc)
    from less.hyps [OF shorter this] obtain qs where "stream_records parse (i + n) (take k (drop n s)) = qs @ [JsonRecord r (i + n + k)]"
      by blast
    moreover have "first_piece parse i (take e s) = Some (rs, n)" using first_piece_take [OF p] n by simp
    from records_piece [OF this] have "stream_records parse i (take e s) = rs @ stream_records parse (i + n) (take k (drop n s))"
      by (simp add: k drop_take)
    ultimately show ?thesis by (simp add: k add.assoc)
  qed
qed

lemma record_closed: "JsonRecord r (i + e) \<in> set (stream_records parse i s) \<Longrightarrow> closed parse i (take e s)"
  using record_prefix [of r i e parse s] record_ends [of r "i + e" parse i s] by (auto simp: closed_def min_def)

text \<open>The positions of the records grow.\<close>

fun record_end :: "stream_record \<Rightarrow> nat" where
  "record_end (JsonRecord r e) = e"
| "record_end (TextRecord t e) = e"

lemma first_piece_end: "first_piece parse i s = Some (rs, n) \<Longrightarrow> r \<in> set rs \<Longrightarrow> record_end r = i + n \<and> rs = [r]"
  by (auto simp: first_piece_def Let_def object_record_def split: if_splits option.splits)

lemma records_after: "r \<in> set (stream_records parse i s) \<Longrightarrow> i < record_end r"
proof (induction "length s" arbitrary: i s rule: less_induct)
  case less
  then have "stream_records parse i s \<noteq> []" by auto
  then obtain rs n where p: "first_piece parse i s = Some (rs, n)"
    using records_some_piece by blast
  note b = first_piece_bound [OF p]
  from less.prems records_piece [OF p]
  consider "r \<in> set rs" | "r \<in> set (stream_records parse (i + n) (drop n s))" by auto
  then show ?case
  proof cases
    case 1
    from first_piece_end [OF p this] b show ?thesis by simp
  next
    case 2
    have "length (drop n s) < length s" using b by auto
    from less.hyps [OF this 2] show ?thesis by simp
  qed
qed

lemma records_sorted: "sorted (map record_end (stream_records parse i s))"
proof (induction "length s" arbitrary: i s rule: less_induct)
  case less
  show ?case
  proof (cases "stream_records parse i s = []")
    case False
    then obtain rs n where p: "first_piece parse i s = Some (rs, n)"
      using records_some_piece by blast
    note b = first_piece_bound [OF p]
    have "length (drop n s) < length s" using b by auto
    note rest = less.hyps [OF this, of "i + n"]
    show ?thesis
    proof (cases rs)
      case Nil
      with records_piece [OF p] rest show ?thesis by simp
    next
      case (Cons r rs')
      with first_piece_end [OF p, of r] have rs: "rs = [r]" "record_end r = i + n" by auto
      have "\<forall>q \<in> set (stream_records parse (i + n) (drop n s)). i + n \<le> record_end q"
        using records_after by (auto intro: less_imp_le)
      with rs records_piece [OF p] rest show ?thesis by simp
    qed
  qed simp
qed

section \<open>Contents\<close>

text \<open>The parsers look at the content of a record only, not at its position.\<close>

datatype stream_content = JsonContent json_object | TextContent string

fun record_content :: "stream_record \<Rightarrow> stream_content" where
  "record_content (JsonRecord r e) = JsonContent r"
| "record_content (TextRecord t e) = TextContent t"

fun shift_record :: "nat \<Rightarrow> stream_record \<Rightarrow> stream_record" where
  "shift_record k (JsonRecord r e) = JsonRecord r (k + e)"
| "shift_record k (TextRecord t e) = TextRecord t (k + e)"

lemma shift_content [simp]: "record_content (shift_record k r) = record_content r"
  by (cases r) simp_all

definition record_contents :: "json_parser \<Rightarrow> string \<Rightarrow> stream_content list" where
  "record_contents parse raw = map record_content (streamRecords parse raw)"

lemma object_record_shift: "object_record parse (k + e) t = map (shift_record k) (object_record parse e t)"
  by (simp add: object_record_def split: option.split)

lemma first_piece_shift: "first_piece parse (k + i) s = map_option (map_prod (map (shift_record k)) id) (first_piece parse i s)"
  by (cases "close_object 0 False False s")
     (auto simp: first_piece_def Let_def object_record_shift [symmetric] add.assoc)

lemma stream_records_shift: "stream_records parse (k + i) s = map (shift_record k) (stream_records parse i s)"
proof (induction "length s" arbitrary: i s rule: less_induct)
  case less
  show ?case
  proof (cases "first_piece parse i s")
    case None
    then have "first_piece parse (k + i) s = None" by (simp add: first_piece_shift)
    with None show ?thesis by (simp add: stream_records_piece [of parse _ s])
  next
    case (Some x)
    obtain rs n where x: "x = (rs, n)" by fastforce
    with Some have p: "first_piece parse i s = Some (rs, n)" by simp
    then have q: "first_piece parse (k + i) s = Some (map (shift_record k) rs, n)" by (simp add: first_piece_shift)
    have "length (drop n s) < length s" using first_piece_bound [OF p] by auto
    from less [OF this, of "i + n"] records_piece [OF p] records_piece [OF q] show ?thesis by (simp add: add.assoc)
  qed
qed

lemma contents_shift: "map record_content (stream_records parse k s) = record_contents parse s"
  using stream_records_shift [of parse k 0 s] by (simp add: record_contents_def streamRecords_def)

text \<open>\<open>closed_text parse p\<close>: the records of \<open>p\<close> end with an object at the end of \<open>p\<close> (or there is no text at all).\<close>

definition closed_text :: "json_parser \<Rightarrow> string \<Rightarrow> bool" where
  "closed_text parse p \<longleftrightarrow> p = [] \<or> closed parse 0 p"

lemma contents_append: "closed_text parse p \<Longrightarrow> record_contents parse (p @ u) = record_contents parse p @ record_contents parse u"
  using closed_append [of parse 0 p u] contents_shift [of parse "length p" u]
  by (auto simp: closed_text_def record_contents_def streamRecords_def stream_records.simps [of parse 0 "[]"])

lemma record_closed_text: "JsonRecord r e \<in> set (streamRecords parse s) \<Longrightarrow> closed_text parse (take e s) \<and> e \<le> length s"
  using record_closed [of r 0 e parse s] record_ends [of r e parse 0 s] by (simp add: closed_text_def streamRecords_def)

lemma closed_text_append: "closed_text parse p \<Longrightarrow> closed_text parse u \<Longrightarrow> closed_text parse (p @ u)"
proof -
  assume p: "closed_text parse p" and u: "closed_text parse u"
  show ?thesis
  proof (cases "p = [] \<or> u = []")
    case False
    then obtain r where "closed parse 0 p" and r: "JsonRecord r (length u) \<in> set (stream_records parse 0 u)"
      using p u by (auto simp: closed_text_def closed_def)
    from closed_append [OF this(1), of u] stream_records_shift [of parse "length p" 0 u]
    have "stream_records parse 0 (p @ u) = stream_records parse 0 p @ map (shift_record (length p)) (stream_records parse 0 u)"
      by simp
    moreover have "shift_record (length p) (JsonRecord r (length u)) \<in> set (map (shift_record (length p)) (stream_records parse 0 u))"
      using r by (metis image_eqI image_set)
    ultimately show ?thesis by (auto simp: closed_text_def closed_def)
  qed (use p u in auto)
qed

end
