(* ===== verification/Agent_Segments.thy ===== *)
theory Agent_Segments
  imports Stream_Records Agent_State
begin

text \<open>
  The transcript of an agent in the web client: the four parsers of \<open>web/src/lib/agentStream.ts\<close>, which turn raw
  output into segments, and the cache \<open>AgentStreamAccumulator\<close> that parses only what is new. Every parser
  is a fold over the records of Stream_Records; its local variables are the state of the fold.
  \<open>JSON.parse\<close>, the conversions between numbers and text, and the two characters outside the model's range (the
  ellipsis and U+FFFD) are fields of \<open>web_env\<close>.
\<close>

section \<open>Segments\<close>

record web_env =
  we_parse :: json_parser
  we_number :: "rat \<Rightarrow> string"
  we_toNumber :: "json \<Rightarrow> rat option"
  we_ellipsis :: string
  we_replacement :: char

datatype status_tone = ToneGood | ToneWarn | ToneBad | ToneInfo

datatype segment_param = ParamText string | ParamNumber "rat option"

text \<open>\<open>NarrationSeg\<close>: the tone is the parameter \<open>tone\<close>. A number parameter that is \<open>NaN\<close> is \<open>None\<close>.\<close>

datatype agent_segment =
    TextSeg string
  | ThinkingSeg string
  | ToolSeg string "string option" "string option"
  | CommandSeg string "string option"
  | StatusSeg status_tone string
  | NarrationSeg string "(string \<times> segment_param) list" "status_tone option"
  | RawSeg string

definition js_trim_end :: "string \<Rightarrow> string" where
  "js_trim_end s = rev (dropWhile js_space (rev s))"

definition seg_text :: "(string \<Rightarrow> agent_segment) \<Rightarrow> string \<Rightarrow> agent_segment list" where
  "seg_text kind t = (if t \<noteq> [] then [kind t] else [])"

section \<open>Tool calls\<close>

definition tool_input :: "json_parser \<Rightarrow> json option \<Rightarrow> json_object" where
  "tool_input parse v = (case v of
       Some (JStr s) \<Rightarrow> (case safeParse parse s of Some r \<Rightarrow> r | None \<Rightarrow> [])
     | _ \<Rightarrow> json_record v)"

definition TOOL_TARGET_KEYS :: "string list" where
  "TOOL_TARGET_KEYS = [''command'', ''file_path'', ''path'', ''notebook_path'', ''pattern'', ''url'', ''query'', ''prompt'', ''description'']"

definition one_line :: "web_env \<Rightarrow> string \<Rightarrow> string" where
  "one_line env v =
     (let line = js_trim (takeWhile (\<lambda>c. c \<noteq> CHR 0x0A) (js_trim v))
      in if 120 < length line then take 119 line @ we_ellipsis env else line)"

fun target_in :: "web_env \<Rightarrow> json_object \<Rightarrow> string list \<Rightarrow> string option" where
  "target_in env input [] = None"
| "target_in env input (k # ks) =
     (case json_field input k of
        Some (JStr v) \<Rightarrow> if js_trim v \<noteq> [] then Some (one_line env v) else target_in env input ks
      | _ \<Rightarrow> target_in env input ks)"

definition toolTarget :: "web_env \<Rightarrow> json_object \<Rightarrow> string option" where
  "toolTarget env input = target_in env input TOOL_TARGET_KEYS"

fun with_id :: "agent_segment \<Rightarrow> string option \<Rightarrow> agent_segment" where
  "with_id (ToolSeg n t i) ident = ToolSeg n t ident"
| "with_id (CommandSeg c i) ident = CommandSeg c ident"
| "with_id s ident = s"

fun mergeLifecycleSegment :: "agent_segment \<Rightarrow> agent_segment \<Rightarrow> agent_segment" where
  "mergeLifecycleSegment (ToolSeg n t i) (ToolSeg m u j) =
     (if \<not> js_truthy u \<and> js_truthy t then ToolSeg m t j else ToolSeg m u j)"
| "mergeLifecycleSegment previous next = next"

text \<open>The map from ids to positions is \<open>segmentById\<close>; a new segment goes to the end.\<close>

definition upsertSegmentById ::
  "agent_segment list \<Rightarrow> (string \<rightharpoonup> nat) \<Rightarrow> string option \<Rightarrow> agent_segment \<Rightarrow> agent_segment list \<times> (string \<rightharpoonup> nat)" where
  "upsertSegmentById out byId ident segment =
     (if \<not> js_truthy ident then (out @ [segment], byId)
      else let identified = with_id segment ident in
        case byId (the ident) of
          Some k \<Rightarrow> (out[k := mergeLifecycleSegment (out ! k) identified], byId)
        | None \<Rightarrow> (out @ [identified], byId(the ident \<mapsto> length out)))"

fun chunk_text :: "json \<Rightarrow> string" where
  "chunk_text v =
     (let r = json_record (Some v)
      in case json_field r ''text'' of Some (JStr t) \<Rightarrow> t
       | _ \<Rightarrow> (case json_field r ''content'' of Some (JStr t) \<Rightarrow> t | _ \<Rightarrow> []))"

definition textFromContent :: "json_object \<Rightarrow> string" where
  "textFromContent r =
     (case json_field r ''text'' of
        Some (JStr t) \<Rightarrow> t
      | _ \<Rightarrow> (case json_field r ''content'' of
           Some (JStr t) \<Rightarrow> t
         | Some (JArr parts) \<Rightarrow> js_join [CHR 0x0A] (filter (\<lambda>t. t \<noteq> []) (map chunk_text parts))
         | _ \<Rightarrow> []))"

definition message_or_event :: "json_object \<Rightarrow> json_object" where
  "message_or_event event = json_record (json_coalesce (json_field event ''message'') (Some (JObj event)))"

section \<open>Kimi\<close>

definition kimi_tool_segment :: "web_env \<Rightarrow> json \<Rightarrow> agent_segment" where
  "kimi_tool_segment env call =
     (let r = json_record (Some call); fn = sub_record r ''function''
      in ToolSeg (text_or (we_number env) (json_coalesce (json_field fn ''name'') (json_field r ''name'')) ''tool'')
           (truthy_or_none (toolTarget env (tool_input (we_parse env) (json_coalesce (json_field fn ''arguments'') (json_field r ''arguments'')))))
           None)"

definition kimi_segments :: "web_env \<Rightarrow> stream_content \<Rightarrow> agent_segment list" where
  "kimi_segments env content = (case content of
       TextContent t \<Rightarrow> seg_text TextSeg (js_trim (stripAnsi t))
     | JsonContent event \<Rightarrow>
         if field_is event ''type'' ''error''
         then [StatusSeg ToneBad (''Kimi error: '' @ text_or (we_number env) (json_field event ''message'') ''unknown error'')]
         else let message = message_or_event event;
                  role = json_coalesce (json_field message ''role'') (json_field event ''role'')
              in if role \<noteq> None \<and> role \<noteq> Some (JStr ''assistant'') then []
                 else seg_text TextSeg (js_trim_end (textFromContent message)) @
                      map (kimi_tool_segment env) (case json_field message ''tool_calls'' of Some (JArr vs) \<Rightarrow> vs | _ \<Rightarrow> []))"

definition parseKimi :: "web_env \<Rightarrow> stream_content list \<Rightarrow> agent_segment list" where
  "parseKimi env cs = concat (map (kimi_segments env) cs)"

section \<open>Codex\<close>

record codex_parser =
  cx_out :: "agent_segment list"
  cx_toolSegments :: "string \<rightharpoonup> nat"
  cx_toolItems :: "string \<rightharpoonup> json_object"
  cx_commandSegments :: "string \<rightharpoonup> nat"

definition new_codex :: "agent_segment list \<Rightarrow> codex_parser" where
  "new_codex out = \<lparr>cx_out = out, cx_toolSegments = Map.empty, cx_toolItems = Map.empty, cx_commandSegments = Map.empty\<rparr>"

definition cx_push :: "agent_segment list \<Rightarrow> codex_parser \<Rightarrow> codex_parser" where
  "cx_push segs s = s\<lparr>cx_out := cx_out s @ segs\<rparr>"

definition call_arguments :: "web_env \<Rightarrow> json_object \<Rightarrow> json_object" where
  "call_arguments env item = tool_input (we_parse env) (json_coalesce (json_field item ''arguments'') (json_field item ''input''))"

definition codexToolSegment :: "web_env \<Rightarrow> json_object \<Rightarrow> agent_segment option" where
  "codexToolSegment env item =
     (let either = json_coalesce (json_field item ''tool'') (json_field item ''name'') in
      if field_is item ''type'' ''mcp_tool_call''
      then let server = (case json_field item ''server'' of Some (JStr t) \<Rightarrow> t | _ \<Rightarrow> ''mcp'');
               tool = (case json_field item ''tool'' of Some (JStr t) \<Rightarrow> t
                       | _ \<Rightarrow> text_or (we_number env) (json_field item ''name'') ''tool'')
           in Some (ToolSeg (server @ ''.'' @ tool) (toolTarget env (call_arguments env item)) None)
      else if field_is item ''type'' ''web_search'' then Some (ToolSeg ''web_search'' (toolTarget env item) None)
      else if field_is item ''type'' ''dynamic_tool_call'' \<or> field_is item ''type'' ''tool_call''
      then Some (ToolSeg (text_or (we_number env) either ''tool'') (toolTarget env (call_arguments env item)) None)
      else case json_field item ''type'' of
          Some (JStr ty) \<Rightarrow>
            if js_ends_with ty ''_tool_call'' \<and> ty \<noteq> ''collab_tool_call'' \<and> ty \<noteq> ''collab_agent_tool_call''
            then Some (ToolSeg (text_or (we_number env) either (take (length ty - length ''_tool_call'') ty))
                   (toolTarget env (call_arguments env item)) None)
            else None
        | _ \<Rightarrow> None)"

definition item_id :: "json_object \<Rightarrow> string option" where
  "item_id item = json_string (json_field item ''id'')"

definition lookup_id :: "(string \<rightharpoonup> 'v) \<Rightarrow> string option \<Rightarrow> 'v option" where
  "lookup_id m ident = (if js_truthy ident then m (the ident) else None)"

definition command_shown :: "json_object \<Rightarrow> agent_segment option \<Rightarrow> string" where
  "command_shown item previous =
     (case json_field item ''command'' of
        Some (JStr c) \<Rightarrow> c
      | _ \<Rightarrow> (case previous of Some (CommandSeg c i) \<Rightarrow> c | _ \<Rightarrow> ''command''))"

definition codex_command :: "json_object \<Rightarrow> codex_parser \<Rightarrow> codex_parser" where
  "codex_command item s =
     (let ident = item_id item;
          command = command_shown item (map_option (\<lambda>k. cx_out s ! k) (lookup_id (cx_commandSegments s) ident));
          (out, byId) = upsertSegmentById (cx_out s) (cx_commandSegments s) ident (CommandSeg command None)
      in s\<lparr>cx_out := out, cx_commandSegments := byId\<rparr>)"

definition merged_item :: "json_object \<Rightarrow> codex_parser \<Rightarrow> json_object" where
  "merged_item item s = (case lookup_id (cx_toolItems s) (item_id item) of Some previous \<Rightarrow> item @ previous | None \<Rightarrow> item)"

definition codex_tool_item :: "json_object \<Rightarrow> agent_segment \<Rightarrow> codex_parser \<Rightarrow> codex_parser" where
  "codex_tool_item item tool s =
     (let ident = item_id item;
          items = (if js_truthy ident then (cx_toolItems s)(the ident \<mapsto> merged_item item s) else cx_toolItems s);
          (out, byId) = upsertSegmentById (cx_out s) (cx_toolSegments s) ident tool
      in s\<lparr>cx_out := out, cx_toolSegments := byId, cx_toolItems := items\<rparr>)"

definition codex_item :: "web_env \<Rightarrow> string \<Rightarrow> json_object \<Rightarrow> codex_parser \<Rightarrow> codex_parser" where
  "codex_item env ty item s =
     (let is_item = field_is item ''type''; completed = (ty = ''item.completed''); begun = (ty = ''item.started'') in
      if completed \<and> is_item ''agent_message'' then cx_push (seg_text TextSeg (js_trim_end (textFromContent item))) s
      else if completed \<and> is_item ''reasoning'' then cx_push (seg_text ThinkingSeg (js_trim_end (textFromContent item))) s
      else if is_item ''command_execution'' \<and> (begun \<or> completed) then codex_command item s
      else case (if begun \<or> completed then codexToolSegment env (merged_item item s) else None) of
          Some tool \<Rightarrow> codex_tool_item item tool s
        | None \<Rightarrow> if completed \<and> is_item ''file_change''
                  then cx_push [NarrationSeg ''agent_stream.codex_changed_files'' [] (Some ToneInfo)] s else s)"

definition codex_event_segments :: "web_env \<Rightarrow> json_object \<Rightarrow> codex_parser \<Rightarrow> codex_parser" where
  "codex_event_segments env event s =
     (let is_type = field_is event ''type'' in
      if is_type ''turn.started''
      then new_codex (cx_out s @ [NarrationSeg ''agent_stream.codex_started'' [] (Some ToneInfo)])
      else if is_type ''turn.completed'' then cx_push [NarrationSeg ''agent_stream.codex_finished'' [] (Some ToneGood)] s
      else if is_type ''turn.failed''
      then cx_push [NarrationSeg ''agent_stream.codex_failed''
             [(''message'', ParamText (text_or (we_number env) (json_field (sub_record event ''error'') ''message'') ''turn failed''))] (Some ToneBad)] s
      else if is_type ''error''
      then cx_push [NarrationSeg ''agent_stream.codex_error''
             [(''message'', ParamText (text_or (we_number env) (json_field event ''message'') ''unknown''))] (Some ToneBad)] s
      else if is_type ''agent_message'' then cx_push (seg_text TextSeg (js_trim_end (textFromContent event))) s
      else case json_field event ''type'' of
          Some (JStr ty) \<Rightarrow>
            if js_starts_with ty ''item.'' then codex_item env ty (sub_record event ''item'') s
            else if ty = ''message'' \<or> ty = ''assistant_message''
            then cx_push (seg_text TextSeg (js_trim_end (textFromContent event))) s else s
        | _ \<Rightarrow> s)"

fun codex_content :: "web_env \<Rightarrow> stream_content \<Rightarrow> codex_parser \<Rightarrow> codex_parser" where
  "codex_content env (TextContent t) s = cx_push [RawSeg (stripAnsi t)] s"
| "codex_content env (JsonContent event) s = codex_event_segments env event s"

definition parseCodex :: "web_env \<Rightarrow> stream_content list \<Rightarrow> agent_segment list" where
  "parseCodex env cs = cx_out (fold (codex_content env) cs (new_codex []))"

section \<open>Pi\<close>

record pi_parser =
  pp_out :: "agent_segment list"
  pp_text :: string
  pp_thinking :: string
  pp_sawText :: bool
  pp_sawThinking :: bool
  pp_tools :: "string \<rightharpoonup> nat"

definition new_pi_parser :: "agent_segment list \<Rightarrow> pi_parser" where
  "new_pi_parser out = \<lparr>pp_out = out, pp_text = [], pp_thinking = [], pp_sawText = False, pp_sawThinking = False, pp_tools = Map.empty\<rparr>"

definition pp_push :: "agent_segment list \<Rightarrow> pi_parser \<Rightarrow> pi_parser" where
  "pp_push segs s = s\<lparr>pp_out := pp_out s @ segs\<rparr>"

text \<open>\<open>TextBuffer.flush\<close>.\<close>

definition flush_text :: "pi_parser \<Rightarrow> pi_parser" where
  "flush_text s = (pp_push (seg_text TextSeg (js_trim_end (pp_text s))) s)\<lparr>pp_text := []\<rparr>"

definition flush_thinking :: "pi_parser \<Rightarrow> pi_parser" where
  "flush_thinking s = (pp_push (seg_text ThinkingSeg (js_trim_end (pp_thinking s))) s)\<lparr>pp_thinking := []\<rparr>"

definition assistant_event :: "json_object \<Rightarrow> json_object option" where
  "assistant_event event =
     (if field_is event ''type'' ''message_update'' \<and> field_is (sub_record event ''message'') ''role'' ''assistant''
      then Some (sub_record event ''assistantMessageEvent'') else None)"

definition string_field :: "json_object \<Rightarrow> string \<Rightarrow> string" where
  "string_field r k = (case json_field r k of Some (JStr t) \<Rightarrow> t | _ \<Rightarrow> [])"

definition piAssistantDelta :: "json_object \<Rightarrow> string \<Rightarrow> string" where
  "piAssistantDelta event kind =
     (case assistant_event event of Some a \<Rightarrow> if field_is a ''type'' kind then string_field a ''delta'' else [] | None \<Rightarrow> [])"

definition piAssistantEndedContent :: "json_object \<Rightarrow> string \<Rightarrow> string" where
  "piAssistantEndedContent event kind =
     (case assistant_event event of
        None \<Rightarrow> []
      | Some a \<Rightarrow>
          if field_is a ''type'' kind \<and> (\<exists>t. json_field a ''content'' = Some (JStr t)) then string_field a ''content''
          else if field_is a ''type'' ''done'' \<and> kind = ''text_end'' then textFromContent (sub_record a ''message'')
          else [])"

definition pi_message_text :: "json_object \<Rightarrow> string" where
  "pi_message_text event =
     (let message = message_or_event event in
      if \<not> field_is event ''type'' ''message'' \<and> \<not> field_is event ''type'' ''assistant_message'' \<and> \<not> field_is message ''role'' ''assistant''
      then []
      else if json_truthy (json_field message ''role'') \<and> \<not> field_is message ''role'' ''assistant'' then []
      else textFromContent message)"

definition piTool :: "web_env \<Rightarrow> json_object \<Rightarrow> (string option \<times> string \<times> string option) option" where
  "piTool env event =
     (case (if field_is event ''type'' ''tool_execution_start'' then json_field event ''toolName'' else None) of
        Some (JStr name) \<Rightarrow>
          Some (json_string (json_field event ''toolCallId''), name,
                toolTarget env (tool_input (we_parse env) (json_field event ''args'')))
      | _ \<Rightarrow>
          (case assistant_event event of
             None \<Rightarrow> None
           | Some a \<Rightarrow>
               if \<not> field_is a ''type'' ''toolcall_end'' then None
               else let call = sub_record a ''toolCall''
                 in case json_field call ''name'' of
                      Some (JStr name) \<Rightarrow>
                        Some (json_string (json_field call ''id''), name,
                          toolTarget env (tool_input (we_parse env) (json_coalesce (json_field call ''arguments'') (json_field call ''args''))))
                    | _ \<Rightarrow> None))"

definition piStatusSegment :: "web_env \<Rightarrow> json_object \<Rightarrow> agent_segment option" where
  "piStatusSegment env event =
     (if field_is event ''type'' ''auto_retry_end'' \<and> json_field event ''success'' = Some (JBool False)
      then Some (StatusSeg ToneBad (''Pi error: '' @ text_or (we_number env) (json_field event ''finalError'') ''unknown error''))
      else if \<not> field_is event ''type'' ''message_end'' \<and> \<not> field_is event ''type'' ''turn_end'' then None
      else let message = message_or_event event in
        if \<not> field_is message ''role'' ''assistant'' then None
        else let errorMessage = json_coalesce (json_field message ''errorMessage'') (json_field event ''errorMessage'') in
          if json_truthy errorMessage \<or> field_is message ''stopReason'' ''error''
          then Some (StatusSeg ToneBad (''Pi error: '' @ text_or (we_number env) errorMessage ''unknown error''))
          else None)"

definition pi_tool_call :: "json_object \<Rightarrow> string option \<times> string \<times> string option \<Rightarrow> pi_parser \<Rightarrow> pi_parser" where
  "pi_tool_call event call s =
     (let streamed = js_trim_end (pp_text s);
          s1 = flush_thinking (flush_text s);
          s2 = (if streamed \<noteq> [] then s1\<lparr>pp_sawText := True\<rparr> else s1);
          recovered = js_trim_end (pi_message_text event);
          s3 = (if \<not> pp_sawText s2 \<and> recovered \<noteq> [] then (pp_push [TextSeg recovered] s2)\<lparr>pp_sawText := True\<rparr> else s2);
          (ident, name, target) = call;
          (out, byId) = upsertSegmentById (pp_out s3) (pp_tools s3) ident (ToolSeg name (truthy_or_none target) None)
      in s3\<lparr>pp_out := out, pp_tools := byId\<rparr>)"

definition pi_event_segments :: "web_env \<Rightarrow> json_object \<Rightarrow> pi_parser \<Rightarrow> pi_parser" where
  "pi_event_segments env event s =
     (let delta = piAssistantDelta event ''text_delta''; thought = piAssistantDelta event ''thinking_delta'';
          endedText = js_trim_end (piAssistantEndedContent event ''text_end'');
          endedThinking = js_trim_end (piAssistantEndedContent event ''thinking_end'');
          assistantText = (if field_is event ''type'' ''message_update'' then [] else js_trim_end (pi_message_text event))
      in if field_is event ''type'' ''turn_start'' then new_pi_parser (pp_out (flush_thinking (flush_text s)))
      else if js_trim delta \<noteq> [] then (flush_thinking s)\<lparr>pp_sawText := True, pp_text := pp_text s @ delta\<rparr>
      else if js_trim thought \<noteq> [] then (flush_text s)\<lparr>pp_sawThinking := True, pp_thinking := pp_thinking s @ thought\<rparr>
      else if endedText \<noteq> []
      then (let s1 = flush_text (flush_thinking s)
            in (if pp_sawText s then s1 else pp_push [TextSeg endedText] s1)\<lparr>pp_sawText := True\<rparr>)
      else if endedThinking \<noteq> []
      then (let s1 = flush_thinking (flush_text s)
            in (if pp_sawThinking s then s1 else pp_push [ThinkingSeg endedThinking] s1)\<lparr>pp_sawThinking := True\<rparr>)
      else case piTool env event of
          Some call \<Rightarrow> pi_tool_call event call s
        | None \<Rightarrow>
            if assistantText \<noteq> []
            then (let s1 = flush_thinking (flush_text s)
                  in if pp_sawText s then s1 else (pp_push [TextSeg assistantText] s1)\<lparr>pp_sawText := True\<rparr>)
            else if field_is event ''type'' ''error''
            then pp_push [StatusSeg ToneBad (text_or (we_number env) (json_field event ''message'') ''unknown error'')] (flush_thinking (flush_text s))
            else (case piStatusSegment env event of
                    Some st \<Rightarrow> pp_push [st] (flush_thinking (flush_text s)) | None \<Rightarrow> s))"

fun pi_content :: "web_env \<Rightarrow> stream_content \<Rightarrow> pi_parser \<Rightarrow> pi_parser" where
  "pi_content env (TextContent t) s = pp_push (seg_text TextSeg (js_trim (stripAnsi t))) s"
| "pi_content env (JsonContent event) s = pi_event_segments env event s"

definition pi_finish :: "pi_parser \<Rightarrow> agent_segment list" where
  "pi_finish s = pp_out (flush_thinking (flush_text s))"

definition parsePi :: "web_env \<Rightarrow> stream_content list \<Rightarrow> agent_segment list" where
  "parsePi env cs = pi_finish (fold (pi_content env) cs (new_pi_parser []))"

section \<open>Claude\<close>

text \<open>
  \<open>sameRenderedText\<close>: a long candidate in which runs of U+FFFD stand for at most as many other characters.
  Each of them is an optional character of the pattern.
\<close>

fun fits :: "char \<Rightarrow> string \<Rightarrow> string \<Rightarrow> bool" where
  "fits r [] t = (t = [])"
| "fits r (c # cs) t =
     (if c = r then fits r cs t \<or> (t \<noteq> [] \<and> fits r cs (tl t)) else t \<noteq> [] \<and> hd t = c \<and> fits r cs (tl t))"

definition sameRenderedText :: "web_env \<Rightarrow> string \<Rightarrow> string \<Rightarrow> bool" where
  "sameRenderedText env rendered candidate =
     (let r = we_replacement env; cleanLength = length (filter (\<lambda>c. c \<noteq> r) candidate) in
      if rendered = candidate then True
      else if r \<notin> set candidate then False
      else if cleanLength < 32 \<or> 10 * cleanLength < 9 * max (length rendered) 1 then False
      else fits r candidate rendered)"

record claude_parser =
  cl_out :: "agent_segment list"
  cl_text :: string
  cl_thinking :: string
  cl_blocks :: "string list"
  cl_byIndex :: "rat \<rightharpoonup> string"
  cl_noIndex :: "string list"
  cl_tools :: "string \<rightharpoonup> nat"
  cl_seenIds :: "string list"
  cl_activeIndex :: "rat option"
  cl_turnStart :: nat

definition new_claude :: claude_parser where
  "new_claude = \<lparr>cl_out = [], cl_text = [], cl_thinking = [], cl_blocks = [], cl_byIndex = Map.empty, cl_noIndex = [],
     cl_tools = Map.empty, cl_seenIds = [], cl_activeIndex = None, cl_turnStart = 0\<rparr>"

definition cl_push :: "agent_segment list \<Rightarrow> claude_parser \<Rightarrow> claude_parser" where
  "cl_push segs s = s\<lparr>cl_out := cl_out s @ segs\<rparr>"

definition flushStreamedText :: "rat option \<Rightarrow> claude_parser \<Rightarrow> claude_parser" where
  "flushStreamedText index s =
     (let index = (case index of None \<Rightarrow> cl_activeIndex s | Some i \<Rightarrow> Some i);
          blockText = js_trim_end (cl_text s);
          s1 = s\<lparr>cl_text := [], cl_activeIndex := None\<rparr>;
          replayed = (case index of None \<Rightarrow> blockText \<in> set (cl_noIndex s) | Some i \<Rightarrow> cl_byIndex s i = Some blockText)
      in if blockText = [] \<or> replayed then s1
         else cl_push [TextSeg blockText]
           (case index of
              None \<Rightarrow> s1\<lparr>cl_noIndex := blockText # cl_noIndex s, cl_blocks := cl_blocks s @ [blockText]\<rparr>
            | Some i \<Rightarrow> s1\<lparr>cl_byIndex := (cl_byIndex s)(i \<mapsto> blockText), cl_blocks := cl_blocks s @ [blockText]\<rparr>))"

definition flush_thoughts :: "claude_parser \<Rightarrow> claude_parser" where
  "flush_thoughts s = (cl_push (seg_text ThinkingSeg (js_trim_end (cl_thinking s))) s)\<lparr>cl_thinking := []\<rparr>"

definition resetTurnState :: "claude_parser \<Rightarrow> claude_parser" where
  "resetTurnState s = s\<lparr>cl_blocks := [], cl_byIndex := Map.empty, cl_noIndex := [], cl_tools := Map.empty\<rparr>"

definition number_field :: "json_object \<Rightarrow> string \<Rightarrow> rat option" where
  "number_field r k = (case json_field r k of Some (JNum n) \<Rightarrow> Some n | _ \<Rightarrow> None)"

definition claude_tool :: "web_env \<Rightarrow> json_object \<Rightarrow> claude_parser \<Rightarrow> claude_parser" where
  "claude_tool env block s =
     (let s1 = flush_thoughts (flushStreamedText None s);
          segment = ToolSeg (text_or (we_number env) (json_field block ''name'') ''tool'') (toolTarget env (sub_record block ''input'')) None;
          (out, byId) = upsertSegmentById (cl_out s1) (cl_tools s1) (json_string (json_field block ''id'')) segment
      in s1\<lparr>cl_out := out, cl_tools := byId\<rparr>)"

definition claude_stream :: "web_env \<Rightarrow> json_object \<Rightarrow> claude_parser \<Rightarrow> claude_parser" where
  "claude_stream env streamEvent s =
     (let delta = sub_record streamEvent ''delta''; block = sub_record streamEvent ''content_block'' in
      if field_is streamEvent ''type'' ''content_block_start''
      then if field_is block ''type'' ''tool_use'' then claude_tool env block s
           else if field_is block ''type'' ''text'' then s\<lparr>cl_activeIndex := number_field streamEvent ''index''\<rparr>
           else s
      else if field_is streamEvent ''type'' ''content_block_stop''
      then flush_thoughts (flushStreamedText (number_field streamEvent ''index'') s)
      else if field_is delta ''type'' ''text_delta''
      then (let s1 = flush_thoughts s
            in s1\<lparr>cl_activeIndex := (case number_field streamEvent ''index'' of Some i \<Rightarrow> Some i | None \<Rightarrow> cl_activeIndex s1),
                  cl_text := cl_text s1 @ text_or (we_number env) (json_field delta ''text'') []\<rparr>)
      else if field_is delta ''type'' ''thinking_delta''
      then (let s1 = flushStreamedText None s
            in s1\<lparr>cl_thinking := cl_thinking s1 @ text_or (we_number env) (json_field delta ''thinking'') []\<rparr>)
      else s)"

definition claude_block :: "web_env \<Rightarrow> json \<Rightarrow> claude_parser \<Rightarrow> claude_parser" where
  "claude_block env item s =
     (let block = json_record (Some item) in
      if field_is block ''type'' ''text''
      then (let blockText = text_or (we_number env) (json_field block ''text'') [];
                s1 = flushStreamedText None (flush_thoughts s)
            in if js_trim_end blockText \<in> set (cl_blocks s1) then s1\<lparr>cl_blocks := remove1 (js_trim_end blockText) (cl_blocks s1)\<rparr>
               else if blockText \<noteq> [] then cl_push [TextSeg (js_trim_end blockText)] s1
               else s1)
      else if field_is block ''type'' ''tool_use'' then claude_tool env block s
      else s)"

definition turn_done :: "claude_parser \<Rightarrow> claude_parser" where
  "turn_done s = (resetTurnState s)\<lparr>cl_turnStart := length (cl_out s)\<rparr>"

definition claude_assistant :: "web_env \<Rightarrow> json_object \<Rightarrow> claude_parser \<Rightarrow> claude_parser" where
  "claude_assistant env message s =
     (let messageId = json_string (json_field message ''id'') in
      if js_truthy messageId \<and> the messageId \<in> set (cl_seenIds s)
      then resetTurnState (s\<lparr>cl_out := take (cl_turnStart s) (cl_out s)\<rparr>)
      else let s1 = (if js_truthy messageId then s\<lparr>cl_seenIds := the messageId # cl_seenIds s\<rparr> else s);
               content = (case json_field message ''content'' of Some (JArr vs) \<Rightarrow> vs | _ \<Rightarrow> [])
           in turn_done (fold (claude_block env) content s1))"

fun segment_shows :: "web_env \<Rightarrow> string \<Rightarrow> agent_segment \<Rightarrow> bool" where
  "segment_shows env t (TextSeg u) = sameRenderedText env (js_trim_end u) t"
| "segment_shows env t _ = False"

definition claude_result :: "web_env \<Rightarrow> json_object \<Rightarrow> claude_parser \<Rightarrow> claude_parser" where
  "claude_result env event s =
     (let s1 = flush_thoughts (flushStreamedText None s) in
      turn_done
       (if json_truthy (json_field event ''is_error'')
        then let message = text_or (we_number env) (json_field event ''result'') []
             in cl_push [if message \<noteq> [] then StatusSeg ToneBad message else NarrationSeg ''agent_stream.claude_error'' [] (Some ToneBad)] s1
        else let resultText = (case json_field event ''result'' of Some (JStr t) \<Rightarrow> js_trim_end t | _ \<Rightarrow> []);
                 shown = resultText \<noteq> [] \<and> list_ex (segment_shows env resultText) (cl_out s1)
             in cl_push ((if resultText \<noteq> [] \<and> \<not> shown then [TextSeg resultText] else []) @
                  [NarrationSeg ''agent_stream.claude_finished'' [] (Some ToneGood)]) s1))"

definition number_or_mark :: "web_env \<Rightarrow> json option \<Rightarrow> segment_param" where
  "number_or_mark env v = ParamNumber (case json_coalesce v (Some (JStr ''?'')) of Some w \<Rightarrow> we_toNumber env w | None \<Rightarrow> None)"

definition claude_event_segments :: "web_env \<Rightarrow> json_object \<Rightarrow> claude_parser \<Rightarrow> claude_parser" where
  "claude_event_segments env event s =
     (if field_is event ''type'' ''stream_event'' then claude_stream env (sub_record event ''event'') s
      else if field_is event ''type'' ''assistant'' then claude_assistant env (sub_record event ''message'') s
      else if field_is event ''type'' ''result'' then claude_result env event s
      else if field_is event ''type'' ''system'' \<and> field_is event ''subtype'' ''api_retry''
      then cl_push [NarrationSeg ''agent_stream.claude_api_retry''
             [(''attempt'', number_or_mark env (json_field event ''attempt'')), (''max'', number_or_mark env (json_field event ''max_retries''))]
             (Some ToneWarn)] s
      else s)"

fun claude_record :: "web_env \<Rightarrow> stream_content \<Rightarrow> claude_parser \<Rightarrow> claude_parser" where
  "claude_record env (TextContent t) s = s\<lparr>cl_text := cl_text s @ stripAnsi t @ [CHR 0x0A]\<rparr>"
| "claude_record env (JsonContent event) s = claude_event_segments env event s"

definition parseClaude :: "web_env \<Rightarrow> stream_content list \<Rightarrow> agent_segment list" where
  "parseClaude env cs = cl_out (flush_thoughts (flushStreamedText None (fold (claude_record env) cs new_claude)))"

section \<open>The parser of an agent and the cache\<close>

fun parse_contents :: "web_env \<Rightarrow> AgentName \<Rightarrow> stream_content list \<Rightarrow> agent_segment list" where
  "parse_contents env Claude cs = parseClaude env cs"
| "parse_contents env Codex cs = parseCodex env cs"
| "parse_contents env Pi cs = parsePi env cs"
| "parse_contents env Kimi cs = parseKimi env cs"

definition parseAgentStream :: "web_env \<Rightarrow> AgentName \<Rightarrow> string \<Rightarrow> agent_segment list" where
  "parseAgentStream env agent raw = (if raw = [] then [] else parse_contents env agent (record_contents (we_parse env) raw))"

fun is_checkpoint :: "AgentName \<Rightarrow> json_object \<Rightarrow> bool" where
  "is_checkpoint Claude event = (field_is event ''type'' ''assistant'' \<or> field_is event ''type'' ''result'')"
| "is_checkpoint Codex event = (field_is event ''type'' ''turn.completed'' \<or> field_is event ''type'' ''turn.failed'')"
| "is_checkpoint Pi event = field_is event ''type'' ''turn_end''"
| "is_checkpoint Kimi event = True"

fun checkpoints_in :: "AgentName \<Rightarrow> nat \<Rightarrow> stream_record list \<Rightarrow> (nat \<times> json_object) list" where
  "checkpoints_in agent offset [] = []"
| "checkpoints_in agent offset (JsonRecord r e # rs) =
     (if is_checkpoint agent r then (offset + e, r) # checkpoints_in agent offset rs else checkpoints_in agent offset rs)"
| "checkpoints_in agent offset (TextRecord t e # rs) = checkpoints_in agent offset rs"

definition agentCheckpoints :: "json_parser \<Rightarrow> AgentName \<Rightarrow> string \<Rightarrow> nat \<Rightarrow> (nat \<times> json_object) list" where
  "agentCheckpoints parse agent raw offset = checkpoints_in agent offset (streamRecords parse (drop offset raw))"

definition agentCheckpointId :: "AgentName \<Rightarrow> json_object \<Rightarrow> string option" where
  "agentCheckpointId agent event =
     (if agent \<noteq> Claude \<or> \<not> field_is event ''type'' ''assistant'' then None
      else case json_field (sub_record event ''message'') ''id'' of
          Some (JStr i) \<Rightarrow> if i \<noteq> [] then Some (''assistant:'' @ i) else None | _ \<Rightarrow> None)"

record accumulator =
  ac_raw :: string
  ac_stableOffset :: nat
  ac_stableSegments :: "agent_segment list"
  ac_segments :: "agent_segment list"
  ac_seenIds :: "string list"
  ac_turnTexts :: "string list"

definition new_accumulator :: accumulator where
  "new_accumulator = \<lparr>ac_raw = [], ac_stableOffset = 0, ac_stableSegments = [], ac_segments = [], ac_seenIds = [], ac_turnTexts = []\<rparr>"

definition forget_checkpoints :: "accumulator \<Rightarrow> accumulator" where
  "forget_checkpoints a = a\<lparr>ac_stableOffset := 0, ac_stableSegments := [], ac_seenIds := [], ac_turnTexts := []\<rparr>"

definition text_signatures :: "agent_segment list \<Rightarrow> string list" where
  "text_signatures segs = concat (map (\<lambda>s. case s of TextSeg t \<Rightarrow> [js_trim_end t] | _ \<Rightarrow> []) segs)"

fun copy_of_turn :: "web_env \<Rightarrow> string list \<Rightarrow> agent_segment \<Rightarrow> bool" where
  "copy_of_turn env texts (TextSeg t) = list_ex (\<lambda>rendered. sameRenderedText env rendered (js_trim_end t)) texts"
| "copy_of_turn env texts _ = False"

text \<open>One checkpoint: the slice from the last one is parsed and committed, unless the message was seen before.\<close>

definition commit_slice :: "web_env \<Rightarrow> AgentName \<Rightarrow> json_object \<Rightarrow> agent_segment list \<Rightarrow> accumulator \<Rightarrow> accumulator" where
  "commit_slice env agent value parsed a =
     (if agent = Claude \<and> field_is value ''type'' ''assistant''
      then a\<lparr>ac_turnTexts := text_signatures parsed, ac_stableSegments := ac_stableSegments a @ parsed\<rparr>
      else if agent = Claude \<and> field_is value ''type'' ''result'' \<and> ac_turnTexts a \<noteq> []
      then a\<lparr>ac_turnTexts := [], ac_stableSegments := ac_stableSegments a @ filter (\<lambda>s. \<not> copy_of_turn env (ac_turnTexts a) s) parsed\<rparr>
      else a\<lparr>ac_stableSegments := ac_stableSegments a @ parsed\<rparr>)"

definition take_checkpoint :: "web_env \<Rightarrow> AgentName \<Rightarrow> string \<Rightarrow> nat \<times> json_object \<Rightarrow> accumulator \<Rightarrow> accumulator" where
  "take_checkpoint env agent raw cp a =
     (let (stop, value) = cp; ident = agentCheckpointId agent value;
          a1 = (if \<not> (\<exists>i. ident = Some i \<and> i \<in> set (ac_seenIds a))
                then commit_slice env agent value (parseAgentStream env agent (drop (ac_stableOffset a) (take stop raw))) a
                else a)
      in a1\<lparr>ac_seenIds := (case ident of Some i \<Rightarrow> i # ac_seenIds a | None \<Rightarrow> ac_seenIds a), ac_stableOffset := stop\<rparr>)"

definition acc_update :: "web_env \<Rightarrow> AgentName \<Rightarrow> string \<Rightarrow> accumulator \<Rightarrow> accumulator" where
  "acc_update env agent raw a =
     (if raw = ac_raw a then a
      else let a1 = (if js_starts_with raw (ac_raw a) then a else forget_checkpoints a)\<lparr>ac_raw := raw\<rparr> in
        if agent = Claude \<and> list_ex (\<lambda>(stop, value). field_is value ''type'' ''result'') (agentCheckpoints (we_parse env) agent raw 0)
        then (forget_checkpoints a1)\<lparr>ac_segments := parseAgentStream env agent raw\<rparr>
        else let a2 = fold (take_checkpoint env agent raw) (agentCheckpoints (we_parse env) agent raw (ac_stableOffset a1)) a1
             in a2\<lparr>ac_segments := ac_stableSegments a2 @ parseAgentStream env agent (drop (ac_stableOffset a2) raw)\<rparr>)"

end
