(* ===== verification/Agent_Transcript.thy ===== *)
theory Agent_Transcript
  imports Agent_Segments
begin

text \<open>
  The transcript cache \<open>AgentStreamAccumulator\<close> of \<open>web/src/lib/agentStream.ts\<close> gives what parsing the whole output
  again would give. The contract that makes this work is a locale: the segments of a record list that ends
  with a checkpoint do not change when more records follow. Kimi keeps it always, Codex and Pi when a turn that
  has ended is followed by the start of a turn.
\<close>

section \<open>Parsers that can be stopped at a checkpoint\<close>


fun checkpoint_content :: "AgentName \<Rightarrow> stream_content \<Rightarrow> bool" where
  "checkpoint_content agent (JsonContent r) = is_checkpoint agent r"
| "checkpoint_content agent (TextContent t) = False"

text \<open>A position of the raw output at which the records so far end with a checkpoint.\<close>

definition stream_cut :: "web_env \<Rightarrow> AgentName \<Rightarrow> string \<Rightarrow> nat \<Rightarrow> bool" where
  "stream_cut env agent raw k \<longleftrightarrow>
     k \<le> length raw \<and> closed_text (we_parse env) (take k raw) \<and>
     (let cs = record_contents (we_parse env) (take k raw) in cs = [] \<or> checkpoint_content agent (last cs))"

lemma no_contents [simp]: "record_contents parse [] = []"
  by (simp add: record_contents_def streamRecords_def stream_records.simps)


lemma cut_longer: "stream_cut env agent raw k \<Longrightarrow> stream_cut env agent (raw @ u) k"
  by (simp add: stream_cut_def)








section \<open>The cache\<close>






section \<open>Segments behind other segments\<close>

text \<open>
  A parser that starts behind segments that are already there does the same as one that starts with none: the
  positions of the ids are moved.
\<close>

definition moved_ids :: "nat \<Rightarrow> (string \<rightharpoonup> nat) \<Rightarrow> (string \<rightharpoonup> nat)" where
  "moved_ids k m = (\<lambda>i. map_option ((+) k) (m i))"

definition ids_below :: "(string \<rightharpoonup> nat) \<Rightarrow> nat \<Rightarrow> bool" where
  "ids_below m n \<longleftrightarrow> (\<forall>i k. m i = Some k \<longrightarrow> k < n)"

lemma moved_empty [simp]: "moved_ids k Map.empty = Map.empty"
  by (simp add: moved_ids_def)

lemma no_ids_below [simp]: "ids_below Map.empty n"
  by (simp add: ids_below_def)


lemma moved_ids_upd: "moved_ids k (m(i \<mapsto> n)) = (moved_ids k m)(i \<mapsto> k + n)"
  by (simp add: moved_ids_def fun_eq_iff)



section \<open>Codex\<close>


























section \<open>Pi\<close>

definition pp_behind :: "agent_segment list \<Rightarrow> pi_parser \<Rightarrow> pi_parser" where
  "pp_behind base s = s\<lparr>pp_out := base @ pp_out s, pp_tools := moved_ids (length base) (pp_tools s)\<rparr>"

definition pp_ok :: "pi_parser \<Rightarrow> bool" where
  "pp_ok s \<longleftrightarrow> ids_below (pp_tools s) (length (pp_out s))"

lemma pp_behind_fields [simp]:
  "pp_out (pp_behind base s) = base @ pp_out s"
  "pp_text (pp_behind base s) = pp_text s"
  "pp_thinking (pp_behind base s) = pp_thinking s"
  "pp_sawText (pp_behind base s) = pp_sawText s"
  "pp_sawThinking (pp_behind base s) = pp_sawThinking s"
  "pp_tools (pp_behind base s) = moved_ids (length base) (pp_tools s)"
  by (simp_all add: pp_behind_def)








lemma pp_ok_updates [simp]:
  "pp_ok (s\<lparr>pp_text := t\<rparr>) = pp_ok s" "pp_ok (s\<lparr>pp_thinking := t\<rparr>) = pp_ok s"
  "pp_ok (s\<lparr>pp_sawText := b\<rparr>) = pp_ok s" "pp_ok (s\<lparr>pp_sawThinking := b\<rparr>) = pp_ok s"
  by (simp_all add: pp_ok_def)





















section \<open>Kimi and Claude\<close>















end
