(* ===== verification/Agent_Display.thy ===== *)
theory Agent_Display
  imports Agent_Segments Decimal_Text
begin

text \<open>
  What the transcript of a run shows: the row keys, the rows that stay when a run has settled, the folding of reasoning
  and commands, and the tail of standard error, from \<open>web/src/lib/agentStream.ts\<close>, with the quote repair of
  \<open>web/src/lib/markdown.ts\<close>. The translation function \<open>t\<close> is an argument.
\<close>

section \<open>Row keys\<close>

fun seg_kind :: "agent_segment \<Rightarrow> string" where
  "seg_kind (TextSeg t) = ''text''"
| "seg_kind (ThinkingSeg t) = ''thinking''"
| "seg_kind (ToolSeg n t i) = ''tool''"
| "seg_kind (CommandSeg c i) = ''command''"
| "seg_kind (StatusSeg tone t) = ''status''"
| "seg_kind (NarrationSeg k ps tone) = ''narration''"
| "seg_kind (RawSeg t) = ''raw''"

fun seg_id :: "agent_segment \<Rightarrow> string option" where
  "seg_id (ToolSeg n t i) = i"
| "seg_id (CommandSeg c i) = i"
| "seg_id _ = None"

definition base_key :: "agent_segment \<Rightarrow> nat \<Rightarrow> string" where
  "base_key s seen =
     (if js_truthy (seg_id s) then seg_kind s @ ''#'' @ the (seg_id s) else seg_kind s @ ''-'' @ show_nat seen)"

definition repeat_key :: "string \<Rightarrow> nat \<Rightarrow> string" where
  "repeat_key base repeats = (if repeats = 0 then base else base @ ''@'' @ show_nat repeats)"

definition bump :: "(string \<Rightarrow> nat) \<Rightarrow> string \<Rightarrow> string \<Rightarrow> nat" where
  "bump m k = m(k := m k + 1)"

text \<open>The two maps are functions that are 0 at first.\<close>

fun keys_from :: "(string \<Rightarrow> nat) \<Rightarrow> (string \<Rightarrow> nat) \<Rightarrow> agent_segment list \<Rightarrow> string list" where
  "keys_from kindCounts keyCounts [] = []"
| "keys_from kindCounts keyCounts (s # ss) =
     (let base = base_key s (kindCounts (seg_kind s))
      in repeat_key base (keyCounts base) # keys_from (bump kindCounts (seg_kind s)) (bump keyCounts base) ss)"

definition segmentKeys :: "agent_segment list \<Rightarrow> string list" where
  "segmentKeys ss = keys_from (\<lambda>_. 0) (\<lambda>_. 0) ss"

section \<open>Visible segments\<close>

fun is_text :: "agent_segment \<Rightarrow> bool" where
  "is_text (TextSeg t) = True" | "is_text _ = False"

fun is_raw :: "agent_segment \<Rightarrow> bool" where
  "is_raw (RawSeg t) = True" | "is_raw _ = False"

fun is_prose :: "agent_segment \<Rightarrow> bool" where
  "is_prose (TextSeg t) = True" | "is_prose (StatusSeg tone t) = True" | "is_prose (NarrationSeg k ps tone) = True" | "is_prose _ = False"

fun is_activity :: "agent_segment \<Rightarrow> bool" where
  "is_activity (ToolSeg n t i) = True" | "is_activity (CommandSeg c i) = True" | "is_activity (ThinkingSeg t) = True" | "is_activity _ = False"

definition userVisibleAgentSegments :: "agent_segment list \<Rightarrow> agent_segment list" where
  "userVisibleAgentSegments segments =
     (let visible = filter is_prose segments in
      if list_ex is_text visible then visible
      else if \<not> list_ex is_raw segments then visible
      else filter (\<lambda>s. is_prose s \<or> is_raw s) segments)"

fun narrationSurvivesSettle :: "agent_segment \<Rightarrow> bool" where
  "narrationSurvivesSettle (NarrationSeg k ps tone) = (tone = Some ToneWarn \<or> tone = Some ToneBad)"
| "narrationSurvivesSettle _ = True"

definition displayAgentSegments :: "agent_segment list \<Rightarrow> bool \<Rightarrow> agent_segment list" where
  "displayAgentSegments segments streaming =
     (if streaming then segments
      else filter (\<lambda>s. narrationSurvivesSettle s \<and> (is_activity s \<or> s \<in> set (userVisibleAgentSegments segments))) segments)"

text \<open>
  \<open>indexOf\<close> compares objects by identity, and every segment is an object of its own: the live row is the last one of
  standard output. \<open>None\<close> is \<open>-1\<close>.
\<close>

definition displayAgentStreamSegments :: "agent_segment list \<Rightarrow> agent_segment list \<Rightarrow> bool \<Rightarrow> agent_segment list \<times> nat option" where
  "displayAgentStreamSegments out err streaming =
     (displayAgentSegments (out @ err) streaming,
      if streaming \<and> out \<noteq> [] \<and> is_text (last out) then Some (length out - 1) else None)"

definition hasStreamingTextCaret :: "agent_segment list \<Rightarrow> bool" where
  "hasStreamingTextCaret segments \<longleftrightarrow> segments \<noteq> [] \<and> is_text (last segments)"

fun segmentTone :: "agent_segment \<Rightarrow> status_tone option" where
  "segmentTone (StatusSeg tone t) = Some tone"
| "segmentTone (NarrationSeg k ps tone) = tone"
| "segmentTone _ = None"

fun reports_success :: "agent_segment \<Rightarrow> bool" where
  "reports_success (NarrationSeg k ps tone) = (k = ''agent_stream.claude_finished'' \<or> k = ''agent_stream.codex_finished'')"
| "reports_success _ = False"

definition hasTerminalOutcome :: "agent_segment list \<Rightarrow> bool" where
  "hasTerminalOutcome segments = list_ex (\<lambda>s. reports_success s \<or> segmentTone s = Some ToneBad) segments"

section \<open>Reasoning and commands\<close>

datatype toggle = Expand | Collapse

fun reasoningDisplay :: "string list \<Rightarrow> bool \<Rightarrow> bool \<Rightarrow> string list \<times> toggle option" where
  "reasoningDisplay lines live expanded =
     (if live then (lines, None) else if expanded then (lines, Some Collapse) else ([], Some Expand))"

definition double_quote :: char where "double_quote = CHR 0x22"

fun escaped_quotes :: "string \<Rightarrow> nat" where
  "escaped_quotes (b # c # cs) = (if b = CHR 0x5C \<and> c = double_quote then Suc (escaped_quotes cs) else escaped_quotes (c # cs))"
| "escaped_quotes _ = 0"

fun unescape_quotes :: "string \<Rightarrow> string" where
  "unescape_quotes (b # c # cs) = (if b = CHR 0x5C \<and> c = double_quote then double_quote # unescape_quotes cs else b # unescape_quotes (c # cs))"
| "unescape_quotes s = s"

definition OVER_ESCAPED_QUOTE_MIN_COUNT :: nat where "OVER_ESCAPED_QUOTE_MIN_COUNT = 4"

definition normalizeOverEscapedQuotes :: "string \<Rightarrow> string" where
  "normalizeOverEscapedQuotes code =
     (let quoteCount = length (filter (\<lambda>c. c = double_quote) code) in
      if quoteCount < OVER_ESCAPED_QUOTE_MIN_COUNT then code
      else if escaped_quotes code \<noteq> quoteCount then code
      else unescape_quotes code)"

definition COMMAND_PREVIEW_LINES :: nat where "COMMAND_PREVIEW_LINES = 6"

record command_display =
  cd_lines :: "string list"
  cd_hidden :: nat
  cd_toggle :: "toggle option"

definition command_lines :: "string \<Rightarrow> string list" where
  "command_lines command = split_at (CHR 0x0A) (js_trim_end (normalizeOverEscapedQuotes command))"

definition commandDisplay :: "string \<Rightarrow> bool \<Rightarrow> command_display" where
  "commandDisplay command expanded =
     (let lines = command_lines command in
      if length lines \<le> COMMAND_PREVIEW_LINES then \<lparr>cd_lines = lines, cd_hidden = 0, cd_toggle = None\<rparr>
      else if expanded then \<lparr>cd_lines = lines, cd_hidden = 0, cd_toggle = Some Collapse\<rparr>
      else \<lparr>cd_lines = take COMMAND_PREVIEW_LINES lines, cd_hidden = length lines - COMMAND_PREVIEW_LINES, cd_toggle = Some Expand\<rparr>)"

section \<open>Standard error\<close>

definition codex_stdin_notice :: "web_env \<Rightarrow> string \<Rightarrow> bool" where
  "codex_stdin_notice env line \<longleftrightarrow>
     line \<in> (\<lambda>dots. ''Reading additional input from stdin'' @ dots) ` {[], ''.'', ''..'', ''...'', we_ellipsis env}"

definition rx_tick :: matcher where "rx_tick = rx_class (\<lambda>c. c = CHR 0x60 \<or> c = CHR 0x27)"

definition codex_cache_warning :: "string \<Rightarrow> bool" where
  "codex_cache_warning = rx_test (\<lambda>_. rx_seq
     [rx_text ''codex_models_manager::cache: failed to load models cache: missing field '', rx_tick, rx_text ''base_instructions'', rx_tick])"

text \<open>\<open>filter((line, index, all) => line !== all[index - 1])\<close>.\<close>

fun not_repeated :: "string option \<Rightarrow> string list \<Rightarrow> string list" where
  "not_repeated previous [] = []"
| "not_repeated previous (l # ls) = (if Some l = previous then [] else [l]) @ not_repeated (Some l) ls"

definition stderr_lines :: "web_env \<Rightarrow> string \<Rightarrow> string list" where
  "stderr_lines env raw =
     not_repeated None
       (filter (\<lambda>l. l \<noteq> [] \<and> \<not> codex_stdin_notice env l \<and> \<not> codex_cache_warning l \<and> \<not> connectorNotice l)
         (map js_trim (crlf_lines (stripAnsi raw))))"

definition STDERR_TAIL_LINES :: nat where "STDERR_TAIL_LINES = 3"

definition parseAgentStderr :: "web_env \<Rightarrow> string \<Rightarrow> agent_segment list" where
  "parseAgentStderr env raw =
     (if raw = [] then []
      else let lines = stderr_lines env raw;
               shown = js_slice (- int STDERR_TAIL_LINES) lines;
               omitted = length lines - length shown
           in (if 0 < omitted
               then [NarrationSeg ''agent_stream.stderr_omitted'' [(''count'', ParamNumber (Some (of_nat omitted)))] (Some ToneWarn)] else []) @
              map (StatusSeg ToneWarn) shown)"

type_synonym translation = "string \<Rightarrow> (string \<times> segment_param) list \<Rightarrow> status_tone option \<Rightarrow> string"

fun plain_segment :: "translation \<Rightarrow> agent_segment \<Rightarrow> string" where
  "plain_segment t (TextSeg x) = x"
| "plain_segment t (StatusSeg tone x) = x"
| "plain_segment t (RawSeg x) = x"
| "plain_segment t (NarrationSeg k ps tone) = t k ps tone"
| "plain_segment t _ = []"

definition agentMessagePlainText :: "web_env \<Rightarrow> AgentName \<Rightarrow> string \<Rightarrow> string \<Rightarrow> translation \<Rightarrow> bool \<Rightarrow> string" where
  "agentMessagePlainText env agent out err t streaming =
     js_trim (js_join [CHR 0x0A, CHR 0x0A]
       (filter (\<lambda>s. s \<noteq> [])
         (map (plain_segment t) (displayAgentSegments (parseAgentStream env agent out @ parseAgentStderr env err) streaming))))"

section \<open>Keys are distinct\<close>

definition at_sign :: char where "at_sign = CHR ''@''"

lemma digits_no_at: "at_sign \<notin> set (show_nat n)"
  using show_nat_chars [of at_sign n] by (auto simp: at_sign_def digit_def)

lemma repeat_key_eq:
  assumes "at_sign \<notin> set b" and "at_sign \<notin> set c"
  shows "repeat_key b m = repeat_key c n \<longleftrightarrow> b = c \<and> m = n"
proof -
  have cut: "split_at at_sign (repeat_key d k) = (if k = 0 then [d] else [d, show_nat k])" if "at_sign \<notin> set d" for d k
    using split_at_single [OF that] split_at_append [OF that, of "show_nat k"] split_at_single [OF digits_no_at, of k]
    by (simp add: repeat_key_def at_sign_def)
  show ?thesis
  proof
    assume "repeat_key b m = repeat_key c n"
    then have "(if m = 0 then [b] else [b, show_nat m]) = (if n = 0 then [c] else [c, show_nat n])"
      using cut [OF assms(1), of m] cut [OF assms(2), of n] by simp
    then show "b = c \<and> m = n" by (simp split: if_splits)
  qed simp
qed

definition plain_id :: "agent_segment \<Rightarrow> bool" where
  "plain_id s \<longleftrightarrow> (case seg_id s of Some i \<Rightarrow> at_sign \<notin> set i | None \<Rightarrow> True)"

lemma base_key_no_at: "plain_id s \<Longrightarrow> at_sign \<notin> set (base_key s n)"
  using digits_no_at [of n] by (cases s) (auto simp: base_key_def plain_id_def at_sign_def split: option.splits)

lemma keys_from_shape:
  "list_all plain_id ss \<Longrightarrow> k \<in> set (keys_from kc m ss) \<Longrightarrow> \<exists>b n. k = repeat_key b n \<and> at_sign \<notin> set b \<and> m b \<le> n"
proof (induction ss arbitrary: kc m)
  case (Cons s ss)
  define base where "base = base_key s (kc (seg_kind s))"
  have base: "at_sign \<notin> set base" using base_key_no_at Cons.prems(1) by (simp add: base_def)
  consider "k = repeat_key base (m base)" | "k \<in> set (keys_from (bump kc (seg_kind s)) (bump m base) ss)"
    using Cons.prems(2) by (auto simp: Let_def base_def)
  then show ?case
  proof cases
    case 1
    with base show ?thesis by blast
  next
    case 2
    have "list_all plain_id ss" using Cons.prems(1) by simp
    from Cons.IH [OF this 2] obtain b n where "k = repeat_key b n" "at_sign \<notin> set b" "bump m base b \<le> n" by blast
    moreover have "m b \<le> bump m base b" by (simp add: bump_def)
    ultimately show ?thesis using le_trans by blast
  qed
qed simp

lemma keys_from_distinct: "list_all plain_id ss \<Longrightarrow> distinct (keys_from kc m ss)"
proof (induction ss arbitrary: kc m)
  case (Cons s ss)
  define base where "base = base_key s (kc (seg_kind s))"
  have base: "at_sign \<notin> set base" using base_key_no_at Cons.prems(1) by (simp add: base_def)
  have "repeat_key base (m base) \<notin> set (keys_from (bump kc (seg_kind s)) (bump m base) ss)"
  proof
    have "list_all plain_id ss" using Cons.prems(1) by simp
    moreover assume "repeat_key base (m base) \<in> set (keys_from (bump kc (seg_kind s)) (bump m base) ss)"
    ultimately obtain b n where "repeat_key base (m base) = repeat_key b n" "at_sign \<notin> set b" "bump m base b \<le> n"
      using keys_from_shape by blast
    with repeat_key_eq [OF base] show False by (auto simp: bump_def)
  qed
  with Cons show ?case by (simp add: Let_def base_def)
qed simp

text \<open>The row keys of a transcript are pairwise distinct, however often ids repeat, when no id of a call contains
an at sign.\<close>

theorem row_keys_distinct: "list_all plain_id segments \<Longrightarrow> distinct (segmentKeys segments)"
  by (simp add: segmentKeys_def keys_from_distinct)

theorem row_keys_distinct_witness:
  "distinct (segmentKeys [ToolSeg ''Bash'' None (Some ''call_1''), TextSeg ''done'', ToolSeg ''Read'' None (Some ''call_1''), TextSeg ''done''])"
  by (rule row_keys_distinct) (simp add: plain_id_def at_sign_def)

text \<open>With an at sign in an id two rows can share a key.\<close>

lemma row_keys_collide:
  "\<not> distinct (segmentKeys [ToolSeg ''a'' None (Some ''c''), ToolSeg ''a'' None (Some ''c''), ToolSeg ''a'' None (Some ''c@1'')])"
  by code_simp

section \<open>The settled display\<close>

lemma visible_prose: "s \<in> set segments \<Longrightarrow> is_prose s \<Longrightarrow> s \<in> set (userVisibleAgentSegments segments)"
  by (auto simp: userVisibleAgentSegments_def Let_def)

lemma text_survives: "is_text s \<or> is_raw s \<Longrightarrow> narrationSurvivesSettle s"
  by (cases s) simp_all

lemma text_prose: "is_text s \<Longrightarrow> is_prose s"
  by (cases s) simp_all

lemma visible_iff:
  "s \<in> set (userVisibleAgentSegments segments) \<longleftrightarrow>
   s \<in> set segments \<and> (is_prose s \<or> (is_raw s \<and> \<not> list_ex is_text segments))"
proof -
  have "list_ex is_text (filter is_prose segments) = list_ex is_text segments"
    using text_prose by (auto simp: list_ex_iff)
  then show ?thesis by (auto simp: userVisibleAgentSegments_def Let_def list_ex_iff)
qed

lemma bad_prose: "segmentTone s = Some ToneBad \<Longrightarrow> is_prose s \<and> narrationSurvivesSettle s"
  by (cases s) simp_all

lemma settled_iff:
  "s \<in> set (displayAgentSegments segments False) \<longleftrightarrow>
   s \<in> set segments \<and> narrationSurvivesSettle s \<and> (is_activity s \<or> is_prose s \<or> (is_raw s \<and> \<not> list_ex is_text segments))"
  by (auto simp: displayAgentSegments_def visible_iff)

lemma settled_texts: "list_ex is_text (displayAgentSegments segments False) = list_ex is_text segments"
  using settled_iff text_survives text_prose unfolding list_ex_iff by blast

lemma settled_idem: "displayAgentSegments (displayAgentSegments segments False) False = displayAgentSegments segments False"
proof -
  have "filter P (displayAgentSegments segments False) = displayAgentSegments segments False"
    if "\<And>s. s \<in> set (displayAgentSegments segments False) \<Longrightarrow> P s" for P
    using that by (simp add: filter_id_conv)
  then show ?thesis
    unfolding displayAgentSegments_def [of "displayAgentSegments segments False"]
    by (simp add: visible_iff settled_texts settled_iff)
qed

text \<open>A settled transcript keeps every failure and every text, and when the agent wrote no text the unclassified
output; it is a selection of the rows in their order, and settling it again changes nothing.\<close>

theorem settled_display_keeps:
  "subseq (displayAgentSegments segments False) segments \<and>
   filter is_text (displayAgentSegments segments False) = filter is_text segments \<and>
   filter (\<lambda>s. segmentTone s = Some ToneBad) (displayAgentSegments segments False) = filter (\<lambda>s. segmentTone s = Some ToneBad) segments \<and>
   filter is_raw (displayAgentSegments segments False) = (if list_ex is_text segments then [] else filter is_raw segments) \<and>
   displayAgentSegments (displayAgentSegments segments False) False = displayAgentSegments segments False"
proof -
  let ?show = "\<lambda>s. narrationSurvivesSettle s \<and> (is_activity s \<or> s \<in> set (userVisibleAgentSegments segments))"
  have shown: "displayAgentSegments segments False = filter ?show segments"
    by (simp add: displayAgentSegments_def)
  have kept: "filter P (displayAgentSegments segments False) = filter P segments"
    if "\<And>s. s \<in> set segments \<Longrightarrow> P s \<Longrightarrow> ?show s" for P
    unfolding shown filter_filter using that by (intro filter_cong) auto
  have raw: "filter is_raw (displayAgentSegments segments False) = []" if "list_ex is_text segments"
    using that settled_iff [of _ segments] by (auto simp: filter_empty_conv elim!: is_raw.elims)
  have raws: "filter is_raw (displayAgentSegments segments False) = filter is_raw segments" if "\<not> list_ex is_text segments"
    using that by (intro kept) (auto simp: visible_iff text_survives)
  have texts: "filter is_text (displayAgentSegments segments False) = filter is_text segments"
    by (rule kept) (simp add: visible_iff text_survives text_prose)
  have bad: "filter (\<lambda>s. segmentTone s = Some ToneBad) (displayAgentSegments segments False) = filter (\<lambda>s. segmentTone s = Some ToneBad) segments"
    by (rule kept) (simp add: visible_iff bad_prose)
  have sub: "subseq (displayAgentSegments segments False) segments" by (simp add: shown)
  show ?thesis
    by (intro conjI sub texts bad settled_idem) (use raw raws in simp)
qed

section \<open>Standard error and commands\<close>

lemma not_repeated_remdups: "not_repeated previous ls = (case previous of None \<Rightarrow> remdups_adj ls | Some p \<Rightarrow> tl (remdups_adj (p # ls)))"
proof (induction previous ls rule: not_repeated.induct)
  case (2 previous l ls)
  then show ?case by (cases previous; cases ls) auto
qed (simp split: option.split)

lemma stderr_lines_adjacent: "distinct_adj (stderr_lines env raw)"
  by (simp add: stderr_lines_def not_repeated_remdups)

text \<open>At most three lines of standard error are shown, the last ones, no two neighbours equal; the others are counted.\<close>

lemma stderr_tail:
  "raw \<noteq> [] \<Longrightarrow>
   \<exists>before shown. stderr_lines env raw = before @ shown \<and> length shown = min 3 (length (stderr_lines env raw)) \<and> distinct_adj shown \<and>
     parseAgentStderr env raw =
       (if before = [] then [] else [NarrationSeg ''agent_stream.stderr_omitted'' [(''count'', ParamNumber (Some (of_nat (length before))))] (Some ToneWarn)]) @
       map (StatusSeg ToneWarn) shown"
proof -
  let ?l = "stderr_lines env raw"
  define k where "k = length ?l - 3"
  assume "raw \<noteq> []"
  have "?l = take k ?l @ drop k ?l" by simp
  moreover have "js_slice (- int STDERR_TAIL_LINES) ?l = drop k ?l"
    by (simp add: STDERR_TAIL_LINES_def k_def js_slice_neg [where n = 3, simplified])
  moreover from calculation stderr_lines_adjacent [of env raw] have "distinct_adj (drop k ?l)" by (metis distinct_adj_appendD2)
  ultimately show ?thesis
    using \<open>raw \<noteq> []\<close> by (intro exI [of _ "take k ?l"] exI [of _ "drop k ?l"]) (auto simp: parseAgentStderr_def Let_def k_def)
qed

text \<open>The lines of a command that are shown and those withheld are all of its lines.\<close>

lemma command_display_lines:
  "prefix (cd_lines (commandDisplay command expanded)) (command_lines command) \<and>
   length (cd_lines (commandDisplay command expanded)) + cd_hidden (commandDisplay command expanded) = length (command_lines command) \<and>
   (cd_toggle (commandDisplay command expanded) = None \<longleftrightarrow> length (command_lines command) \<le> COMMAND_PREVIEW_LINES) \<and>
   (expanded \<longrightarrow> cd_hidden (commandDisplay command expanded) = 0)"
  by (auto simp: commandDisplay_def Let_def COMMAND_PREVIEW_LINES_def take_is_prefix)

end
