(* ===== verification/Client_Projection.thy ===== *)
theory Client_Projection
  imports Session_Events
begin

text \<open>
  How the web client keeps a session up to date from single events: \<open>web/src/lib/sessionEvents.ts\<close>. It is written
  anew beside \<open>materializeEvents\<close> of relay-core, on which the server's snapshots rest; the main fact is that the two
  agree on everything but the computer of the session.
\<close>

section \<open>Definitions\<close>

fun run_totals :: "token_usage option list \<Rightarrow> int \<times> int \<times> int \<Rightarrow> int \<times> int \<times> int" where
  "run_totals [] acc = acc"
| "run_totals (v # vs) (i, u, k) =
     run_totals vs (case v of None \<Rightarrow> (i, u, k) | Some t \<Rightarrow> (i + tu_input t, u + tu_output t, k + tu_cache t))"

definition mergeRunTokenUsage :: "token_usage option list \<Rightarrow> token_usage option" where
  "mergeRunTokenUsage vs =
     (let (i, u, k) = run_totals vs (0, 0, 0)
      in if i = 0 \<and> u = 0 \<and> k = 0 then None
         else Some \<lparr>tu_input = i, tu_output = u, tu_cache = k, tu_total = i + u + k, tu_source = None\<rparr>)"

definition client_run :: "agent_started \<Rightarrow> string \<Rightarrow> agent_run" where
  "client_run e t =
     \<lparr>ar_id = st_runId e,
      ar_assignmentId = truthy_or_none (st_assignmentId e),
      ar_workItemId = truthy_or_none (st_workItemId e),
      ar_delegationAuthority = st_delegationAuthority e,
      ar_dependsOnWorkItemIds = st_dependsOnWorkItemIds e,
      ar_workKind = st_workKind e,
      ar_agent = st_agent e,
      ar_logicalAgentId = truthy_or_none (st_logicalAgentId e),
      ar_daemonNodeId = truthy_or_none (st_daemonNodeId e),
      ar_placementId = truthy_or_none (st_placementId e),
      ar_agentVersion = st_agentVersion e,
      ar_workspaceIdentity = st_workspaceIdentity e,
      ar_role = st_role e,
      ar_brief = truthy_or_none (st_brief e),
      ar_coordinator = (st_coordinator e = Some True),
      ar_synthesizer = (st_synthesizer e = Some True),
      ar_teamSnapshot = st_teamSnapshot e,
      ar_teamPhase = st_teamPhase e,
      ar_status = run_running,
      ar_startedAt = t,
      ar_completedAt = None, ar_exitCode = None, ar_agentLog = None, ar_tokenUsage = None,
      ar_artifactIds = []\<rparr>"

definition client_complete ::
  "string \<Rightarrow> RunStatus \<Rightarrow> int \<Rightarrow> string option \<Rightarrow> token_usage option \<Rightarrow> agent_run \<Rightarrow> agent_run" where
  "client_complete t status code lg usage run =
     run\<lparr>ar_status := status, ar_completedAt := Some t, ar_exitCode := Some code,
         ar_agentLog := (case lg of None \<Rightarrow> ar_agentLog run | Some l \<Rightarrow> Some l),
         ar_tokenUsage := (case usage of None \<Rightarrow> ar_tokenUsage run | Some u \<Rightarrow> Some u)\<rparr>"

text \<open>The cases of the \<open>switch\<close>, on a session that is already stamped with the time of the event.\<close>

fun project_payload :: "string \<Rightarrow> event_payload \<Rightarrow> relay_session \<Rightarrow> relay_session" where
  "project_payload t (RoundStarted m) s =
     (let rounds = (if list_ex (\<lambda>r. rm_roundId r = rm_roundId m) (rs_collaborationRounds s)
                    then rs_collaborationRounds s else rs_collaborationRounds s @ [m])
      in s\<lparr>rs_collaborationRounds := rounds, rs_collaborationRevision := length rounds,
           rs_activeCollaborationId := Some (rm_collaborationId m), rs_activeRoundId := Some (rm_roundId m)\<rparr>)"
| "project_payload t (SessionStatusChanged status phase pending) s =
     s\<lparr>rs_status := status, rs_phase := phase, rs_pendingDecision := pending,
       rs_finalOutcome := (if status \<noteq> ss_completed \<and> status \<noteq> ss_failed then None else rs_finalOutcome s)\<rparr>"
| "project_payload t (AgentStarted e) s =
     s\<lparr>rs_status := ss_running, rs_phase := agent_id (st_agent e), rs_currentAgent := Some (st_agent e),
       rs_agentRuns := (if list_ex (\<lambda>r. ar_id r = st_runId e) (rs_agentRuns s) then rs_agentRuns s
                        else rs_agentRuns s @ [client_run e t])\<rparr>"
| "project_payload t (AgentCompleted runId assignment agent status code lg usage) s =
     (let runs = map (\<lambda>r. if ar_id r = runId then client_complete t status code lg usage r else r) (rs_agentRuns s)
      in s\<lparr>rs_agentRuns := runs,
           rs_phase := (if status = run_completed then ''agent_completed''
                        else if status = run_cancelled then ''cancelled'' else ''agent_failed''),
           rs_tokenUsage := mergeRunTokenUsage (map ar_tokenUsage runs),
           rs_currentAgent := None\<rparr>)"
| "project_payload t (ArtifactCreated a) s =
     s\<lparr>rs_artifacts := (if list_ex (\<lambda>b. art_id b = art_id a) (rs_artifacts s) then rs_artifacts s else rs_artifacts s @ [a]),
       rs_agentRuns :=
         (if js_truthy (art_agentRunId a)
          then map (\<lambda>r. if Some (ar_id r) = art_agentRunId a \<and> art_id a \<notin> set (ar_artifactIds r)
                        then r\<lparr>ar_artifactIds := ar_artifactIds r @ [art_id a]\<rparr> else r) (rs_agentRuns s)
          else rs_agentRuns s)\<rparr>"
| "project_payload t (HumanDecisionMade d) s =
     (let s1 = s\<lparr>rs_decisions := (if list_ex (\<lambda>e. hdec_id e = hdec_id d) (rs_decisions s) then rs_decisions s else rs_decisions s @ [d]),
                 rs_currentAgent := (if hdec_kind d = hd_handoff \<and> hdec_targetAgent d \<noteq> None
                                     then hdec_targetAgent d else rs_currentAgent s)\<rparr>
      in if hdec_kind d = hd_cancel
         then s1\<lparr>rs_status := ss_cancelled, rs_phase := ''cancelled'', rs_pendingDecision := False\<rparr> else s1)"
| "project_payload t (SessionCompleted outcome) s =
     s\<lparr>rs_status := ss_completed, rs_phase := ''completed'', rs_finalOutcome := Some outcome,
       rs_currentAgent := None, rs_pendingDecision := False\<rparr>"
| "project_payload t (SessionFailed outcome) s =
     s\<lparr>rs_status := ss_failed, rs_phase := ''failed'', rs_finalOutcome := Some outcome,
       rs_currentAgent := None, rs_pendingDecision := False\<rparr>"
| "project_payload t SessionArchived s = s\<lparr>rs_archived := True\<rparr>"
| "project_payload t (SessionRenamed title) s = s\<lparr>rs_title := Some title\<rparr>"
| "project_payload t _ s = s"

definition applySessionEventProjection :: "relay_session \<Rightarrow> relay_event \<Rightarrow> relay_session" where
  "applySessionEventProjection s ev = project_payload (ev_timestamp ev) (ev_payload ev) (s\<lparr>rs_updatedAt := ev_timestamp ev\<rparr>)"

definition applySessionEventsUnchecked :: "relay_session \<Rightarrow> relay_event list \<Rightarrow> relay_session" where
  "applySessionEventsUnchecked s evs =
     (if evs = [] then s else foldl applySessionEventProjection (s\<lparr>rs_events := rs_events s @ evs\<rparr>) evs)"

definition applySessionEventUnchecked :: "relay_session \<Rightarrow> relay_event \<Rightarrow> relay_session" where
  "applySessionEventUnchecked s ev = applySessionEventsUnchecked s [ev]"

definition applySessionEvent :: "relay_session \<Rightarrow> relay_event \<Rightarrow> relay_session" where
  "applySessionEvent s ev =
     (if list_ex (\<lambda>e. ev_id e = ev_id ev) (rs_events s) then s else applySessionEventUnchecked s ev)"

section \<open>Batches\<close>

lemma mergeRunTokenUsage_eq: "mergeRunTokenUsage vs = mergeTokenUsage vs"
proof -
  have "run_totals vs acc = merge_totals vs acc" for acc
    by (induction vs acc rule: merge_totals.induct) (auto split: prod.split)
  then show ?thesis by (simp add: mergeRunTokenUsage_def mergeTokenUsage_def)
qed

lemma client_run_eq: "client_run e t = started_run e t"
  by (simp add: client_run_def started_run_def)

lemma client_complete_eq: "client_complete t status code lg usage r = complete_run t status code lg usage r"
  by (simp add: client_complete_def complete_run_def js_coalesce_def split: option.split)

lemma project_frame [simp]:
  "rs_events (project_payload t p s) = rs_events s"
  "rs_updatedAt (project_payload t p s) = rs_updatedAt s"
  "rs_id (project_payload t p s) = rs_id s"
  by (induction t p s rule: project_payload.induct) (simp_all add: Let_def)

text \<open>The projection does not look at the events, so a batch is its events one by one.\<close>

lemma project_events: "project_payload t p (rs_events_update f s) = rs_events_update f (project_payload t p s)"
  by (cases s; cases p) (auto simp: Let_def)

lemma projection_events:
  "applySessionEventProjection (s\<lparr>rs_events := es\<rparr>) ev = (applySessionEventProjection s ev)\<lparr>rs_events := es\<rparr>"
proof -
  have "s\<lparr>rs_events := es, rs_updatedAt := ev_timestamp ev\<rparr> = s\<lparr>rs_updatedAt := ev_timestamp ev, rs_events := es\<rparr>"
    by (cases s) simp
  then show ?thesis by (simp only: applySessionEventProjection_def project_events)
qed

lemma projections_events:
  "foldl applySessionEventProjection (s\<lparr>rs_events := es\<rparr>) evs = (foldl applySessionEventProjection s evs)\<lparr>rs_events := es\<rparr>"
  by (induction evs arbitrary: s) (simp_all add: projection_events)

lemma projection_keeps_events [simp]: "rs_events (applySessionEventProjection s ev) = rs_events s"
  by (simp add: applySessionEventProjection_def)

lemma projections_keep_events [simp]: "rs_events (foldl applySessionEventProjection s evs) = rs_events s"
  by (induction evs arbitrary: s) simp_all

lemma batch_alt: "applySessionEventsUnchecked s evs = (foldl applySessionEventProjection s evs)\<lparr>rs_events := rs_events s @ evs\<rparr>"
  by (simp add: applySessionEventsUnchecked_def projections_events)

lemma batch_events [simp]: "rs_events (applySessionEventsUnchecked s evs) = rs_events s @ evs"
  by (simp add: batch_alt)

lemma batch_one_by_one: "applySessionEventsUnchecked s evs = foldl applySessionEventUnchecked s evs"
proof (induction evs rule: rev_induct)
  case (snoc ev evs)
  have "foldl applySessionEventUnchecked s (evs @ [ev]) = applySessionEventUnchecked (applySessionEventsUnchecked s evs) ev"
    using snoc by simp
  also have "\<dots> = applySessionEventsUnchecked s (evs @ [ev])"
    by (simp add: applySessionEventUnchecked_def batch_alt projection_events)
  finally show ?case by simp
qed (simp add: applySessionEventsUnchecked_def)

interpretation client_log: event_log applySessionEventUnchecked rs_events rs_updatedAt ev_timestamp
  by unfold_locales (simp_all add: applySessionEventUnchecked_def batch_alt applySessionEventProjection_def)

section \<open>Agreement with the materialised log\<close>

text \<open>The ids an event introduces: a run, an artifact or a decision.\<close>

fun payload_key :: "event_payload \<Rightarrow> (nat \<times> string) option" where
  "payload_key (AgentStarted e) = Some (0, st_runId e)"
| "payload_key (ArtifactCreated a) = Some (1, art_id a)"
| "payload_key (HumanDecisionMade d) = Some (2, hdec_id d)"
| "payload_key _ = None"

definition event_keys :: "relay_event list \<Rightarrow> (nat \<times> string) list" where
  "event_keys evs = List.map_filter (\<lambda>ev. payload_key (ev_payload ev)) evs"

definition key_set :: "string list \<Rightarrow> string list \<Rightarrow> string list \<Rightarrow> (nat \<times> string) set" where
  "key_set runs artifacts decisions = Pair 0 ` set runs \<union> Pair 1 ` set artifacts \<union> Pair 2 ` set decisions"

definition session_keys :: "relay_session \<Rightarrow> (nat \<times> string) set" where
  "session_keys s = key_set (map ar_id (rs_agentRuns s)) (map art_id (rs_artifacts s)) (map hdec_id (rs_decisions s))"

lemma key_set_iff [simp]:
  "(0, k) \<in> key_set rs as ds \<longleftrightarrow> k \<in> set rs"
  "(Suc 0, k) \<in> key_set rs as ds \<longleftrightarrow> k \<in> set as"
  "(2, k) \<in> key_set rs as ds \<longleftrightarrow> k \<in> set ds"
  by (auto simp: key_set_def)

lemma key_set_snoc [simp]:
  "key_set (rs @ [k]) as ds = insert (0, k) (key_set rs as ds)"
  "key_set rs (as @ [k]) ds = insert (1, k) (key_set rs as ds)"
  "key_set rs as (ds @ [k]) = insert (2, k) (key_set rs as ds)"
  by (auto simp: key_set_def)

lemma event_key_one: "event_keys [ev] = (case payload_key (ev_payload ev) of None \<Rightarrow> [] | Some k \<Rightarrow> [k])"
  by (simp add: event_keys_def map_filter_def split: option.split)

text \<open>Everything but the computer the session runs on.\<close>

definition without_computer :: "relay_session \<Rightarrow> relay_session" where
  "without_computer s = s\<lparr>rs_daemonNodeId := None, rs_managedNodeId := None\<rparr>"

definition runs_known :: "relay_session \<Rightarrow> bool" where
  "runs_known s \<longleftrightarrow> distinct (map ar_id (rs_agentRuns s)) \<and>
     (\<forall>r \<in> set (rs_agentRuns s). set (ar_artifactIds r) \<subseteq> art_id ` set (rs_artifacts s))"

lemma update_first_map: "distinct (map key xs) \<Longrightarrow> update_first (\<lambda>x. key x = k) f xs = map (\<lambda>x. if key x = k then f x else x) xs"
proof (induction xs)
  case (Cons x xs)
  have "map (\<lambda>x. if key x = k then f x else x) xs = xs" if "key x = k"
    using Cons.prems that by (intro map_idI) (metis image_eqI list.set_map distinct.simps(2) list.simps(9))
  with Cons show ?case by auto
qed simp

text \<open>What the client derives from the events: the collections and the outcome, apart from the list of events.\<close>

definition derived :: "relay_session \<Rightarrow> agent_run list \<times> relay_artifact list \<times> human_decision list \<times> round_manifest list \<times> nat \<times>
    string option \<times> string option \<times> token_usage option \<times> string option" where
  "derived s =
     (rs_agentRuns s, rs_artifacts s, rs_decisions s, rs_collaborationRounds s, rs_collaborationRevision s,
      rs_activeCollaborationId s, rs_activeRoundId s, rs_tokenUsage s, rs_finalOutcome s)"

text \<open>One new event has the same effect on what the client derives as on the server.\<close>

lemma derived_step:
  assumes "derived c = derived s" and "runs_known s" and "set (event_keys [ev]) \<inter> session_keys s = {}"
  shows "derived (applySessionEventProjection c ev) = derived (apply_session_event s ev)"
proof -
  have d: "rs_agentRuns c = rs_agentRuns s" "rs_artifacts c = rs_artifacts s" "rs_decisions c = rs_decisions s"
    "rs_collaborationRounds c = rs_collaborationRounds s" "rs_collaborationRevision c = rs_collaborationRevision s"
    "rs_activeCollaborationId c = rs_activeCollaborationId s" "rs_activeRoundId c = rs_activeRoundId s"
    "rs_tokenUsage c = rs_tokenUsage s" "rs_finalOutcome c = rs_finalOutcome s"
    using assms(1) by (simp_all add: derived_def)
  show ?thesis
  proof (cases "ev_payload ev")
    case (AgentStarted e)
    then have "\<not> list_ex (\<lambda>r. ar_id r = st_runId e) (rs_agentRuns s)"
      using assms(3) by (auto simp: event_key_one session_keys_def list_ex_iff image_iff)
    then show ?thesis
      by (simp add: AgentStarted derived_def d applySessionEventProjection_def apply_session_event_def client_run_eq)
  next
    case (AgentCompleted runId assignment agent status code lg usage)
    have "update_first (\<lambda>r. ar_id r = runId) (complete_run (ev_timestamp ev) status code lg usage) (rs_agentRuns s) =
        map (\<lambda>r. if ar_id r = runId then client_complete (ev_timestamp ev) status code lg usage r else r) (rs_agentRuns s)"
      using assms(2) by (subst update_first_map) (simp_all add: runs_known_def client_complete_eq cong: if_cong)
    then show ?thesis
      by (simp add: AgentCompleted derived_def d applySessionEventProjection_def apply_session_event_def mergeRunTokenUsage_eq Let_def)
  next
    case (ArtifactCreated a)
    then have new: "art_id a \<notin> art_id ` set (rs_artifacts s)"
      using assms(3) by (auto simp: event_key_one session_keys_def)
    then have "art_id a \<notin> set (ar_artifactIds r)" if "r \<in> set (rs_agentRuns s)" for r
      using that assms(2) by (auto simp: runs_known_def)
    then have "update_first (\<lambda>r. Some (ar_id r) = Some k) (\<lambda>r. r\<lparr>ar_artifactIds := ar_artifactIds r @ [art_id a]\<rparr>) (rs_agentRuns s) =
        map (\<lambda>r. if Some (ar_id r) = Some k \<and> art_id a \<notin> set (ar_artifactIds r)
                  then r\<lparr>ar_artifactIds := ar_artifactIds r @ [art_id a]\<rparr> else r) (rs_agentRuns s)" for k
      using assms(2) update_first_map [of ar_id "rs_agentRuns s" k] by (auto simp: runs_known_def)
    moreover have "\<not> list_ex (\<lambda>b. art_id b = art_id a) (rs_artifacts s)" using new by (auto simp: list_ex_iff image_iff)
    ultimately show ?thesis
      by (cases "art_agentRunId a") (simp_all add: ArtifactCreated derived_def d applySessionEventProjection_def apply_session_event_def)
  next
    case (HumanDecisionMade dec)
    then have "\<not> list_ex (\<lambda>e. hdec_id e = hdec_id dec) (rs_decisions s)"
      using assms(3) by (auto simp: event_key_one session_keys_def list_ex_iff image_iff)
    then show ?thesis
      by (simp add: HumanDecisionMade derived_def d applySessionEventProjection_def apply_session_event_def Let_def)
  next
    case (RoundStarted m)
    then show ?thesis
      by (simp add: derived_def d applySessionEventProjection_def apply_session_event_def Let_def list_ex_iff)
  qed (simp_all add: derived_def d applySessionEventProjection_def apply_session_event_def)
qed

lemma runs_known_step:
  assumes "runs_known s" and "set (event_keys [ev]) \<inter> session_keys s = {}"
  shows "runs_known (apply_session_event s ev)"
proof (cases "ev_payload ev")
  case (AgentStarted e)
  then show ?thesis
    using assms by (auto simp: runs_known_def apply_session_event_def event_key_one session_keys_def started_run_def)
next
  case (AgentCompleted runId assignment agent status code lg usage)
  have "ar_artifactIds r' \<in> ar_artifactIds ` set rs" if "r' \<in> set (update_first (\<lambda>r. ar_id r = runId) (complete_run t status code lg usage) rs)" for r' rs t
    using set_update_first [OF that] by (auto simp: complete_run_def)
  then show ?thesis
    using assms(1) by (fastforce simp: AgentCompleted runs_known_def apply_session_event_def complete_run_def Let_def)
next
  case (ArtifactCreated a)
  have "set (ar_artifactIds r') \<subseteq> insert (art_id a) (art_id ` set (rs_artifacts s))"
    if "r' \<in> set (update_first P (\<lambda>r. r\<lparr>ar_artifactIds := ar_artifactIds r @ [art_id a]\<rparr>) (rs_agentRuns s))" for r' P
    using set_update_first [OF that] assms(1) by (force simp: runs_known_def)
  moreover have "map ar_id (update_first P (\<lambda>r. r\<lparr>ar_artifactIds := ar_artifactIds r @ [art_id a]\<rparr>) rs) = map ar_id rs" for P rs
    by simp
  ultimately show ?thesis
    using assms(1) by (auto simp: ArtifactCreated runs_known_def apply_session_event_def)
qed (use assms(1) in \<open>auto simp: runs_known_def apply_session_event_def Let_def\<close>)

lemma session_keys_step: "session_keys (apply_session_event s ev) = session_keys s \<union> set (event_keys [ev])"
proof (cases "ev_payload ev")
  case (AgentCompleted runId assignment agent status code lg usage)
  have "map ar_id (update_first P (complete_run t status code lg usage) rs) = map ar_id rs" for P t rs
    by (rule map_update_first) (simp add: complete_run_def)
  then show ?thesis
    by (simp add: AgentCompleted session_keys_def event_key_one apply_session_event_def Let_def)
qed (simp_all add: session_keys_def event_key_one apply_session_event_def Let_def started_run_def)

text \<open>The other fields.\<close>

definition other_fields :: "relay_session \<Rightarrow> (string \<times> string \<times> WorkspaceLayout option \<times> string option \<times> string option \<times> string option \<times> string option) \<times>
    (string option \<times> string option \<times> string \<times> string list \<times> string) \<times>
    (SessionStatus \<times> string \<times> string \<times> AgentName option \<times> bool \<times> relay_event list \<times> bool)" where
  "other_fields s =
     ((rs_id s, rs_workspacePath s, rs_workspaceLayout s, rs_projectId s, rs_workspaceSubpath s, rs_computerId s, rs_ownerEmployeeId s),
      (rs_teamId s, rs_title s, rs_taskGoal s, rs_participants s, rs_createdAt s),
      (rs_status s, rs_phase s, rs_updatedAt s, rs_currentAgent s, rs_pendingDecision s, rs_events s, rs_archived s))"

lemma without_computer_eq: "without_computer c = without_computer s \<longleftrightarrow> derived c = derived s \<and> other_fields c = other_fields s"
  by (cases c; cases s) (auto simp: without_computer_def derived_def other_fields_def)

lemma other_fields_step: "other_fields c = other_fields s \<Longrightarrow> other_fields (applySessionEventUnchecked c ev) = other_fields (apply_session_event s ev)"
  by (cases "ev_payload ev")
     (auto simp: applySessionEventUnchecked_def batch_alt applySessionEventProjection_def apply_session_event_def other_fields_def Let_def)

lemma derived_events [simp]: "derived (s\<lparr>rs_events := es\<rparr>) = derived s"
  by (simp add: derived_def)

lemma unchecked_derived: "derived (applySessionEventUnchecked c ev) = derived (applySessionEventProjection c ev)"
  by (simp add: applySessionEventUnchecked_def batch_alt)

lemma event_keys_Cons: "event_keys (ev # evs) = event_keys [ev] @ event_keys evs"
  by (simp add: event_keys_def map_filter_def)

lemma event_keys_append: "event_keys (xs @ ys) = event_keys xs @ event_keys ys"
  by (simp add: event_keys_def map_filter_def)

definition fresh_events_for :: "relay_session \<Rightarrow> relay_event list \<Rightarrow> bool" where
  "fresh_events_for s evs \<longleftrightarrow> runs_known s \<and> distinct (event_keys evs) \<and> set (event_keys evs) \<inter> session_keys s = {}"

lemma fresh_step: "fresh_events_for s (ev # evs) \<Longrightarrow> set (event_keys [ev]) \<inter> session_keys s = {} \<and> fresh_events_for (apply_session_event s ev) evs"
  using runs_known_step [of s ev] session_keys_step [of s ev] event_keys_Cons [of ev evs]
  by (auto simp: fresh_events_for_def)

lemma derived_replay: "derived c = derived s \<Longrightarrow> fresh_events_for s evs \<Longrightarrow>
   derived (foldl applySessionEventUnchecked c evs) = derived (foldl apply_session_event s evs)"
proof (induction evs arbitrary: c s)
  case (Cons ev evs)
  have "derived (applySessionEventUnchecked c ev) = derived (apply_session_event s ev)"
    unfolding unchecked_derived using Cons.prems fresh_step [OF Cons.prems(2)] by (intro derived_step) (simp_all add: fresh_events_for_def)
  with Cons.IH fresh_step [OF Cons.prems(2)] show ?case by simp
qed simp

lemma other_fields_replay: "other_fields c = other_fields s \<Longrightarrow>
   other_fields (foldl applySessionEventUnchecked c evs) = other_fields (foldl apply_session_event s evs)"
  by (induction evs arbitrary: c s) (simp_all add: other_fields_step)

text \<open>C6. The session the web client builds from a batch of new events is the session the materialised log gives, apart from
the computer it runs on, when the runs, artifacts and decisions the events introduce are new.\<close>

theorem client_projection_agrees:
  "fresh_events_for s evs \<Longrightarrow>
   without_computer (applySessionEventsUnchecked s evs) = without_computer (foldl apply_session_event s evs)"
  using derived_replay [of s s evs] other_fields_replay [of s s evs] by (simp add: without_computer_eq batch_one_by_one)

definition renamed_event :: relay_event where
  "renamed_event = \<lparr>ev_id = ''e2'', ev_sessionId = ''s1'', ev_timestamp = ''t2'', ev_payload = SessionRenamed ''T''\<rparr>"

definition decision_event :: relay_event where
  "decision_event = \<lparr>ev_id = ''e3'', ev_sessionId = ''s1'', ev_timestamp = ''t3'',
     ev_payload = HumanDecisionMade \<lparr>hdec_id = ''d1'', hdec_kind = hd_cancel, hdec_createdAt = ''t3'', hdec_note = None,
       hdec_targetAgent = None, hdec_targetAgentId = None, hdec_actorEmployeeId = None\<rparr>\<rparr>"

theorem client_projection_agrees_witness:
  "\<exists>s. materializeEvents [sample_created] = Inr s \<and>
     without_computer (applySessionEventsUnchecked s [renamed_event, decision_event]) =
     without_computer (foldl apply_session_event s [renamed_event, decision_event])"
proof -
  obtain s where s: "materializeEvents [sample_created] = Inr s" and "rs_agentRuns s = []" "rs_artifacts s = []" "rs_decisions s = []"
    by (simp add: materializeEvents_def sample_created_def apply_session_event_def initial_session_def)
  then have "fresh_events_for s [renamed_event, decision_event]"
    by (simp add: fresh_events_for_def runs_known_def session_keys_def key_set_def renamed_event_def decision_event_def event_keys_def map_filter_def)
  from client_projection_agrees [OF this] s show ?thesis by blast
qed

text \<open>The client does not learn the computer: it ignores \<open>session.runtime_affinity\<close> and the node of \<open>agent.started\<close>.\<close>

lemma client_misses_computer:
  "rs_managedNodeId (applySessionEvent s (sample_created\<lparr>ev_payload := RuntimeAffinity ''n1''\<rparr>)) = rs_managedNodeId s"
  by (simp add: applySessionEvent_def applySessionEventUnchecked_def batch_alt applySessionEventProjection_def)

end
