(* ===== verification/Session_Cache.thy ===== *)
theory Session_Cache
  imports Client_Projection Step_Machine
begin

text \<open>
  The session list the web client caches: \<open>sessionEventMerge.ts\<close> (streamed events), \<open>sessionPollMerge.ts\<close> (polled
  summaries and fetched snapshots) and the event stream of \<open>hooks/useSessionEvents.ts\<close>. The four inputs arrive
  in any order; a machine drives them from the log of the server, whose snapshots are materialised logs.
\<close>

section \<open>Sessions of the client\<close>

text \<open>A session with the two fields only a summary brings.\<close>

record client_session =
  cs_core :: relay_session
  cs_artifactCount :: "nat option"
  cs_ownerAgentId :: "string option"

record session_summary =
  sm_id :: string
  sm_title :: "string option"
  sm_taskGoal :: string
  sm_status :: SessionStatus
  sm_phase :: string
  sm_daemonNodeId :: "string option"
  sm_managedNodeId :: "string option"
  sm_workspacePath :: string
  sm_ownerEmployeeId :: "string option"
  sm_ownerAgentId :: "string option"
  sm_teamId :: "string option"
  sm_projectId :: "string option"
  sm_workspaceLayout :: "WorkspaceLayout option"
  sm_workspaceSubpath :: "string option"
  sm_computerId :: "string option"
  sm_currentAgent :: "AgentName option"
  sm_pendingDecision :: bool
  sm_archived :: bool
  sm_artifactCount :: nat
  sm_runCount :: nat
  sm_eventCount :: nat
  sm_updatedAt :: string
  sm_createdAt :: string

definition cs_id :: "client_session \<Rightarrow> string" where "cs_id s = rs_id (cs_core s)"
definition cs_events :: "client_session \<Rightarrow> relay_event list" where "cs_events s = rs_events (cs_core s)"

definition on_core :: "(relay_session \<Rightarrow> relay_session) \<Rightarrow> client_session \<Rightarrow> client_session" where
  "on_core f s = s\<lparr>cs_core := f (cs_core s)\<rparr>"

section \<open>Streamed events\<close>

record id_index =
  ix_ids :: "string list"
  ix_indexedCount :: nat
  ix_boundaryId :: "string option"

definition empty_index :: id_index where
  "empty_index = \<lparr>ix_ids = [], ix_indexedCount = 0, ix_boundaryId = None\<rparr>"

definition append_only :: "relay_event list \<Rightarrow> id_index \<Rightarrow> bool" where
  "append_only events ix \<longleftrightarrow>
     ix_indexedCount ix \<le> length events \<and>
     (ix_indexedCount ix = 0 \<or> Some (ev_id (events ! (ix_indexedCount ix - 1))) = ix_boundaryId ix)"

definition synchronize :: "relay_event list \<Rightarrow> id_index \<Rightarrow> id_index" where
  "synchronize events ix =
     (let kept = (if append_only events ix then ix else ix\<lparr>ix_ids := [], ix_indexedCount := 0\<rparr>)
      in \<lparr>ix_ids = ix_ids kept @ map ev_id (drop (ix_indexedCount kept) events),
          ix_indexedCount = length events,
          ix_boundaryId = (if events = [] then None else Some (ev_id (last events)))\<rparr>)"

definition new_index :: "relay_event list \<Rightarrow> id_index" where
  "new_index events = synchronize events empty_index"

fun fresh_events :: "string list \<Rightarrow> string list \<Rightarrow> relay_event list \<Rightarrow> relay_event list" where
  "fresh_events known queued [] = []"
| "fresh_events known queued (ev # evs) =
     (if ev_id ev \<in> set known \<or> ev_id ev \<in> set queued then fresh_events known queued evs
      else ev # fresh_events known (ev_id ev # queued) evs)"

definition replace_session :: "string \<Rightarrow> client_session \<Rightarrow> client_session list \<Rightarrow> client_session list" where
  "replace_session sid merged sessions = map (\<lambda>s. if cs_id s = sid then merged else s) sessions"

text \<open>The result is the list, the number of events consumed and the index.\<close>

definition mergeSessionEventsIntoSessions ::
  "client_session list option \<Rightarrow> string \<Rightarrow> relay_event list \<Rightarrow> (client_session \<Rightarrow> relay_event \<Rightarrow> client_session) \<Rightarrow>
   (client_session \<Rightarrow> relay_event list \<Rightarrow> client_session) option \<Rightarrow> id_index option \<Rightarrow>
   client_session list option \<times> nat \<times> id_index option" where
  "mergeSessionEventsIntoSessions sessions sid events applyEvent applyEvents eventIds =
     (case (case sessions of None \<Rightarrow> None | Some ss \<Rightarrow> find (\<lambda>s. cs_id s = sid) ss) of
        None \<Rightarrow> (sessions, 0, eventIds)
      | Some target \<Rightarrow>
          (let known = synchronize (cs_events target) (case eventIds of None \<Rightarrow> new_index [] | Some ix \<Rightarrow> ix);
               fresh = fresh_events (ix_ids known) [] events;
               index = map_option (\<lambda>_. known) eventIds
           in if fresh = [] then (sessions, 0, index)
              else let merged = (case applyEvents of Some f \<Rightarrow> f target fresh | None \<Rightarrow> foldl applyEvent target fresh)
                in (map_option (replace_session sid merged) sessions, length fresh,
                    map_option (synchronize (cs_events merged)) index)))"

definition mergeSessionEventIntoSessions ::
  "client_session list option \<Rightarrow> string \<Rightarrow> relay_event \<Rightarrow> (client_session \<Rightarrow> relay_event \<Rightarrow> client_session) \<Rightarrow>
   client_session list option \<times> bool" where
  "mergeSessionEventIntoSessions sessions sid ev applyEvent =
     (case sessions of
        None \<Rightarrow> (None, False)
      | Some ss \<Rightarrow>
          (Some (map (\<lambda>s. if cs_id s \<noteq> sid \<or> list_ex (\<lambda>e. ev_id e = ev_id ev) (cs_events s) then s else applyEvent s ev) ss),
           list_ex (\<lambda>s. cs_id s = sid) ss))"

section \<open>Polled summaries and snapshots\<close>

text \<open>The server sends every field of a summary, \<open>null\<close> when it is not set, so the spread overwrites all of them.\<close>

definition with_summary :: "session_summary \<Rightarrow> relay_session \<Rightarrow> relay_session" where
  "with_summary m s =
     s\<lparr>rs_id := sm_id m, rs_title := sm_title m, rs_taskGoal := sm_taskGoal m, rs_status := sm_status m, rs_phase := sm_phase m,
       rs_daemonNodeId := sm_daemonNodeId m, rs_managedNodeId := sm_managedNodeId m, rs_workspacePath := sm_workspacePath m,
       rs_ownerEmployeeId := sm_ownerEmployeeId m, rs_teamId := sm_teamId m, rs_projectId := sm_projectId m,
       rs_workspaceLayout := sm_workspaceLayout m, rs_workspaceSubpath := sm_workspaceSubpath m, rs_computerId := sm_computerId m,
       rs_currentAgent := sm_currentAgent m, rs_pendingDecision := sm_pendingDecision m, rs_archived := sm_archived m,
       rs_updatedAt := sm_updatedAt m, rs_createdAt := sm_createdAt m\<rparr>"

definition overlaid :: "session_summary \<Rightarrow> relay_session \<Rightarrow> client_session" where
  "overlaid m s = \<lparr>cs_core = with_summary m s, cs_artifactCount = Some (sm_artifactCount m), cs_ownerAgentId = sm_ownerAgentId m\<rparr>"

text \<open>The fields an inflated summary starts with; those it does not set are absent.\<close>

definition blank_session :: relay_session where
  "blank_session =
     \<lparr>rs_id = [], rs_workspacePath = [], rs_workspaceLayout = None, rs_projectId = None, rs_workspaceSubpath = None,
      rs_computerId = None, rs_daemonNodeId = None, rs_managedNodeId = None, rs_ownerEmployeeId = None, rs_teamId = None,
      rs_title = None, rs_taskGoal = [], rs_participants = [''human''], rs_status = ss_running, rs_phase = [],
      rs_createdAt = [], rs_updatedAt = [], rs_currentAgent = None, rs_pendingDecision = False,
      rs_agentRuns = [], rs_artifacts = [], rs_decisions = [], rs_collaborationRounds = [], rs_collaborationRevision = 0,
      rs_activeCollaborationId = None, rs_activeRoundId = None, rs_events = [],
      rs_finalOutcome = None, rs_archived = False, rs_tokenUsage = None\<rparr>"

definition inflateSessionSummary :: "session_summary \<Rightarrow> client_session" where
  "inflateSessionSummary m = overlaid m blank_session"

text \<open>\<open>new Map\<close> keeps the last session of an id.\<close>

definition mergeSessionSummaries :: "client_session list \<Rightarrow> session_summary list \<Rightarrow> client_session list" where
  "mergeSessionSummaries current summaries =
     map (\<lambda>m. case map_of (rev (map (\<lambda>s. (cs_id s, s)) current)) (sm_id m) of
                None \<Rightarrow> inflateSessionSummary m
              | Some existing \<Rightarrow>
                  if sm_eventCount m < length (cs_events existing) then existing else overlaid m (cs_core existing)) summaries"

fun replace_first :: "('a \<Rightarrow> bool) \<Rightarrow> 'a \<Rightarrow> 'a list \<Rightarrow> 'a list" where
  "replace_first p y [] = []"
| "replace_first p y (x # xs) = (if p x then y # xs else x # replace_first p y xs)"

definition mergeSessionSnapshotIntoSessions ::
  "client_session list \<Rightarrow> client_session \<Rightarrow> (client_session \<Rightarrow> relay_event \<Rightarrow> client_session) \<Rightarrow> client_session list" where
  "mergeSessionSnapshotIntoSessions current snapshot applyEvent =
     (case find (\<lambda>s. cs_id s = cs_id snapshot) current of
        None \<Rightarrow> snapshot # current
      | Some held \<Rightarrow>
          replace_first (\<lambda>s. cs_id s = cs_id snapshot)
            (foldl applyEvent snapshot (filter (\<lambda>e. ev_id e \<notin> ev_id ` set (cs_events snapshot)) (cs_events held))) current)"

section \<open>The stream of the open session\<close>

text \<open>\<open>es_position\<close> is how far the server has sent its log.\<close>

record event_stream =
  es_index :: id_index
  es_queued :: "string list"
  es_pending :: "relay_event list"
  es_position :: nat

fun enqueue_one :: "relay_event \<Rightarrow> event_stream \<Rightarrow> event_stream" where
  "enqueue_one ev st =
     (if ev_id ev = [] \<or> ev_id ev \<in> set (ix_ids (es_index st)) \<or> ev_id ev \<in> set (es_queued st) then st
      else st\<lparr>es_queued := ev_id ev # es_queued st, es_pending := es_pending st @ [ev]\<rparr>)"

definition open_stream :: "client_session \<Rightarrow> event_stream" where
  "open_stream s = \<lparr>es_index = new_index (cs_events s), es_queued = [], es_pending = [], es_position = length (cs_events s)\<rparr>"

text \<open>The stream is asked to start after the last cached event; it is tailed while the session is not over.\<close>

definition lastSessionEventId :: "client_session list option \<Rightarrow> string \<Rightarrow> string option" where
  "lastSessionEventId sessions sid =
     (case (case sessions of None \<Rightarrow> None | Some ss \<Rightarrow> find (\<lambda>s. cs_id s = sid) ss) of
        None \<Rightarrow> None
      | Some s \<Rightarrow> if cs_events s = [] then None else Some (ev_id (last (cs_events s))))"

definition isTerminalSessionStatus :: "SessionStatus option \<Rightarrow> bool" where
  "isTerminalSessionStatus st \<longleftrightarrow> st \<in> Some ` {ss_completed, ss_failed, ss_cancelled}"

definition shouldTailSessionEvents :: "SessionStatus option \<Rightarrow> bool" where
  "shouldTailSessionEvents st \<longleftrightarrow> st \<noteq> None \<and> \<not> isTerminalSessionStatus st"

definition flush_stream :: "string \<Rightarrow> client_session list option \<Rightarrow> event_stream \<Rightarrow> client_session list option \<times> event_stream" where
  "flush_stream sid cache st =
     (let (cache', consumed, ix) =
        mergeSessionEventsIntoSessions cache sid (es_pending st) (\<lambda>s ev. on_core (\<lambda>c. applySessionEventUnchecked c ev) s)
          (Some (\<lambda>s evs. on_core (\<lambda>c. applySessionEventsUnchecked c evs) s)) (Some (es_index st))
      in (cache', st\<lparr>es_index := (case ix of None \<Rightarrow> es_index st | Some i \<Rightarrow> i), es_pending := [],
                     es_queued := filter (\<lambda>i. i \<notin> ev_id ` set (es_pending st)) (es_queued st)\<rparr>))"

section \<open>Client and server\<close>

record web_client =
  wc_log :: "relay_event list"
  wc_cache :: "client_session list option"
  wc_stream :: "event_stream option"

definition new_web_client :: web_client where
  "new_web_client = \<lparr>wc_log = [], wc_cache = None, wc_stream = None\<rparr>"

text \<open>The session as the server has it after the first \<open>n\<close> events of the log.\<close>

definition server_at :: "relay_event list \<Rightarrow> nat \<Rightarrow> relay_session" where
  "server_at lg n =
     (case find_session_created lg of
        Some (ev, c) \<Rightarrow> foldl apply_session_event (initial_session ev c) (take n lg)
      | None \<Rightarrow> blank_session)"

definition summary_of :: "nat \<Rightarrow> string option \<Rightarrow> relay_session \<Rightarrow> session_summary" where
  "summary_of artifactCount ownerAgent s =
     \<lparr>sm_id = rs_id s, sm_title = rs_title s, sm_taskGoal = rs_taskGoal s, sm_status = rs_status s, sm_phase = rs_phase s,
      sm_daemonNodeId = rs_daemonNodeId s, sm_managedNodeId = rs_managedNodeId s, sm_workspacePath = rs_workspacePath s,
      sm_ownerEmployeeId = rs_ownerEmployeeId s, sm_ownerAgentId = ownerAgent, sm_teamId = rs_teamId s, sm_projectId = rs_projectId s,
      sm_workspaceLayout = rs_workspaceLayout s, sm_workspaceSubpath = rs_workspaceSubpath s, sm_computerId = rs_computerId s,
      sm_currentAgent = rs_currentAgent s, sm_pendingDecision = rs_pendingDecision s, sm_archived = rs_archived s,
      sm_artifactCount = artifactCount, sm_runCount = length (rs_agentRuns s), sm_eventCount = length (rs_events s),
      sm_updatedAt = rs_updatedAt s, sm_createdAt = rs_createdAt s\<rparr>"

definition snapshot_session :: "relay_session \<Rightarrow> client_session" where
  "snapshot_session s = \<lparr>cs_core = s, cs_artifactCount = None, cs_ownerAgentId = None\<rparr>"

datatype web_event =
    ServerAppends relay_event
  | SummariesArrive "session_summary list" nat nat "string option" "session_summary list"
  | SnapshotArrives nat
  | StreamOpens
  | StreamSends
  | StreamResumes nat
  | Flushes
  | StreamCloses

text \<open>
  A response shows the log as it was when the server read it: any length up to the present one. An event is appended
  with an id of its own, and names new runs, artifacts and decisions. The summary list has the session once.
\<close>

definition acceptable :: "string \<Rightarrow> relay_event list \<Rightarrow> relay_event \<Rightarrow> bool" where
  "acceptable sid lg ev \<longleftrightarrow>
     ev_sessionId ev = sid \<and> ev_id ev \<noteq> [] \<and> ev_id ev \<notin> ev_id ` set lg \<and>
     (lg = []) = (case ev_payload ev of SessionCreated c \<Rightarrow> True | _ \<Rightarrow> False) \<and>
     list_all (\<lambda>k. k \<notin> set (event_keys lg)) (event_keys [ev])"

definition cached_session :: "string \<Rightarrow> web_client \<Rightarrow> client_session option" where
  "cached_session sid w = (case wc_cache w of None \<Rightarrow> None | Some ss \<Rightarrow> find (\<lambda>s. cs_id s = sid) ss)"

fun web_step :: "string \<Rightarrow> web_client \<Rightarrow> web_event \<Rightarrow> web_client option" where
  "web_step sid w (ServerAppends ev) =
     (if acceptable sid (wc_log w) ev then Some (w\<lparr>wc_log := wc_log w @ [ev]\<rparr>) else None)"
| "web_step sid w (SummariesArrive before n artifactCount ownerAgent after) =
     (if 0 < n \<and> n \<le> length (wc_log w) \<and> list_all (\<lambda>m. sm_id m \<noteq> sid) (before @ after)
      then Some (w\<lparr>wc_cache := Some (mergeSessionSummaries (case wc_cache w of None \<Rightarrow> [] | Some ss \<Rightarrow> ss)
             (before @ [summary_of artifactCount ownerAgent (server_at (wc_log w) n)] @ after))\<rparr>)
      else None)"
| "web_step sid w (SnapshotArrives n) =
     (if 0 < n \<and> n \<le> length (wc_log w)
      then Some (w\<lparr>wc_cache := Some (mergeSessionSnapshotIntoSessions (case wc_cache w of None \<Rightarrow> [] | Some ss \<Rightarrow> ss)
             (snapshot_session (server_at (wc_log w) n)) (\<lambda>s ev. on_core (\<lambda>c. applySessionEventUnchecked c ev) s))\<rparr>)
      else None)"
| "web_step sid w StreamOpens =
     (case cached_session sid w of None \<Rightarrow> None | Some s \<Rightarrow> Some (w\<lparr>wc_stream := Some (open_stream s)\<rparr>))"
| "web_step sid w StreamSends =
     (case wc_stream w of
        None \<Rightarrow> None
      | Some st \<Rightarrow>
          if es_position st < length (wc_log w)
          then Some (w\<lparr>wc_stream := Some ((enqueue_one (wc_log w ! es_position st) st)\<lparr>es_position := es_position st + 1\<rparr>)\<rparr>)
          else None)"
| "web_step sid w (StreamResumes p) =
     (case wc_stream w of
        None \<Rightarrow> None
      | Some st \<Rightarrow> if p \<le> es_position st then Some (w\<lparr>wc_stream := Some (st\<lparr>es_position := p\<rparr>)\<rparr>) else None)"
| "web_step sid w Flushes =
     (case wc_stream w of
        None \<Rightarrow> None
      | Some st \<Rightarrow> (let (cache, st') = flush_stream sid (wc_cache w) st in Some (w\<lparr>wc_cache := cache, wc_stream := Some st'\<rparr>)))"
| "web_step sid w StreamCloses = Some (w\<lparr>wc_stream := None\<rparr>)"

section \<open>The log\<close>

definition log_ok :: "string \<Rightarrow> relay_event list \<Rightarrow> bool" where
  "log_ok sid lg \<longleftrightarrow>
     (\<forall>ev \<in> set lg. ev_sessionId ev = sid \<and> ev_id ev \<noteq> []) \<and> distinct (map ev_id lg) \<and> distinct (event_keys lg) \<and>
     (lg \<noteq> [] \<longrightarrow> (\<exists>c. ev_payload (hd lg) = SessionCreated c))"

lemma log_append: "log_ok sid lg \<Longrightarrow> acceptable sid lg ev \<Longrightarrow> log_ok sid (lg @ [ev])"
proof -
  assume lg: "log_ok sid lg" and ev: "acceptable sid lg ev"
  have "distinct (event_keys [ev])" by (simp add: event_key_one split: option.split)
  then have keys: "distinct (event_keys (lg @ [ev]))"
    using lg ev by (auto simp: log_ok_def acceptable_def event_keys_append list_all_iff)
  have "\<exists>c. ev_payload (hd (lg @ [ev])) = SessionCreated c"
    using lg ev by (cases "lg = []") (auto simp: log_ok_def acceptable_def split: event_payload.splits)
  with keys show ?thesis using lg ev by (auto simp: log_ok_def acceptable_def)
qed

lemma log_start:
  assumes "log_ok sid lg" and "lg \<noteq> []"
  obtains c where "find_session_created lg = Some (hd lg, c)"
  using assms by (cases lg) (auto simp: log_ok_def)

lemma server_at_longer:
  assumes "log_ok sid lg" and "lg \<noteq> []" and "n \<le> length lg"
  shows "server_at (lg @ [ev]) n = server_at lg n"
proof -
  obtain c where "find_session_created lg = Some (hd lg, c)" by (rule log_start [OF assms(1,2)])
  then show ?thesis using assms(3) by (simp add: server_at_def find_session_created_append)
qed

lemma server_at_Suc:
  assumes "log_ok sid lg" and "n < length lg"
  shows "server_at lg (Suc n) = apply_session_event (server_at lg n) (lg ! n)"
proof -
  have "lg \<noteq> []" using assms(2) by auto
  then obtain c where "find_session_created lg = Some (hd lg, c)" by (rule log_start [OF assms(1)])
  then show ?thesis using assms(2) by (simp add: server_at_def take_Suc_conv_app_nth)
qed

lemma server_at_0: "log_ok sid lg \<Longrightarrow> lg \<noteq> [] \<Longrightarrow> \<exists>c. server_at lg 0 = initial_session (hd lg) c"
  by (erule log_start) (auto simp: server_at_def)

lemma server_at_facts:
  assumes "log_ok sid lg" and "lg \<noteq> []" and "n \<le> length lg"
  shows "rs_id (server_at lg n) = sid \<and> rs_events (server_at lg n) = take n lg \<and>
         runs_known (server_at lg n) \<and> session_keys (server_at lg n) = set (event_keys (take n lg))"
  using assms(3)
proof (induction n)
  case 0
  obtain c where "server_at lg 0 = initial_session (hd lg) c" using server_at_0 [OF assms(1,2)] by blast
  moreover have "ev_sessionId (hd lg) = sid" using assms by (simp add: log_ok_def)
  ultimately show ?case
    by (simp add: initial_session_def runs_known_def session_keys_def key_set_def event_keys_def map_filter_def)
next
  case (Suc n)
  have keys: "event_keys (take (Suc n) lg) = event_keys (take n lg) @ event_keys [lg ! n]"
    using Suc.prems by (simp add: take_Suc_conv_app_nth event_keys_append)
  have "event_keys lg = event_keys (take (Suc n) lg) @ event_keys (drop (Suc n) lg)"
    by (simp flip: event_keys_append)
  with assms(1) have "distinct (event_keys (take (Suc n) lg))" by (simp add: log_ok_def)
  with keys have new: "set (event_keys [lg ! n]) \<inter> session_keys (server_at lg n) = {}"
    using Suc by auto
  have "rs_id (apply_session_event s ev) = rs_id s" for s ev by (simp add: apply_session_event_def)
  with Suc keys runs_known_step [OF _ new] session_keys_step show ?case
    by (simp add: server_at_Suc [OF assms(1)] session_log.apply_records take_Suc_conv_app_nth)
qed

lemma materialized_at:
  assumes "log_ok sid lg" and "0 < n" and "n \<le> length lg"
  shows "materializeEvents (take n lg) = Inr (server_at lg n)"
proof -
  have "lg \<noteq> []" using assms by auto
  then obtain e es c where lg: "lg = e # es" "ev_payload e = SessionCreated c"
    using assms(1) by (cases lg) (auto simp: log_ok_def)
  with assms(2) show ?thesis by (cases n) (simp_all add: materializeEvents_def server_at_def)
qed

text \<open>The next event of the log on top of what the client derived so far.\<close>

lemma derived_next:
  assumes "log_ok sid lg" and "n < length lg" and "derived c = derived (server_at lg n)"
  shows "derived (applySessionEventUnchecked c (lg ! n)) = derived (server_at lg (Suc n))"
proof -
  have ne: "lg \<noteq> []" using assms(2) by auto
  have keys: "event_keys (take (Suc n) lg) = event_keys (take n lg) @ event_keys [lg ! n]"
    using assms(2) by (simp add: take_Suc_conv_app_nth event_keys_append)
  have "event_keys lg = event_keys (take (Suc n) lg) @ event_keys (drop (Suc n) lg)"
    by (simp flip: event_keys_append)
  with assms(1) have "distinct (event_keys (take (Suc n) lg))" by (simp add: log_ok_def)
  with keys server_at_facts [OF assms(1) ne, of n] assms(2)
  have "set (event_keys [lg ! n]) \<inter> session_keys (server_at lg n) = {}" by auto
  from derived_step [OF assms(3) _ this] server_at_facts [OF assms(1) ne, of n] assms(2) show ?thesis
    by (simp add: unchecked_derived server_at_Suc [OF assms(1,2)])
qed

section \<open>Fields the last writer decides\<close>

definition tracked :: "(relay_session \<Rightarrow> 'v) \<Rightarrow> relay_event list \<Rightarrow> nat \<Rightarrow> 'v \<Rightarrow> bool" where
  "tracked field lg n x \<longleftrightarrow> (\<exists>m. n \<le> m \<and> m \<le> length lg \<and> x = field (server_at lg m))"

locale last_writer =
  fixes field :: "relay_session \<Rightarrow> 'v"
  assumes writes: "(\<exists>v. \<forall>s. field (apply_session_event s ev) = v \<and> field (applySessionEventUnchecked s ev) = v) \<or>
                   (\<forall>s. field (apply_session_event s ev) = field s \<and> field (applySessionEventUnchecked s ev) = field s)"
begin

lemma tracked_next:
  assumes "log_ok sid lg" and "n < length lg" and "tracked field lg n (field c)"
  shows "tracked field lg (Suc n) (field (applySessionEventUnchecked c (lg ! n)))"
proof -
  obtain m where m: "n \<le> m" "m \<le> length lg" "field c = field (server_at lg m)"
    using assms(3) by (auto simp: tracked_def)
  from writes [of "lg ! n"] show ?thesis
  proof
    assume "\<exists>v. \<forall>s. field (apply_session_event s (lg ! n)) = v \<and> field (applySessionEventUnchecked s (lg ! n)) = v"
    then have "field (applySessionEventUnchecked c (lg ! n)) = field (server_at lg (Suc n))"
      by (auto simp: server_at_Suc [OF assms(1,2)])
    with assms(2) show ?thesis unfolding tracked_def by (intro exI [of _ "Suc n"]) simp
  next
    assume keep: "\<forall>s. field (apply_session_event s (lg ! n)) = field s \<and> field (applySessionEventUnchecked s (lg ! n)) = field s"
    show ?thesis
    proof (cases "m = n")
      case True
      with keep m have "field (applySessionEventUnchecked c (lg ! n)) = field (server_at lg (Suc n))"
        by (simp add: server_at_Suc [OF assms(1,2)])
      with assms(2) show ?thesis unfolding tracked_def by (intro exI [of _ "Suc n"]) simp
    next
      case False
      with keep m show ?thesis unfolding tracked_def by (intro exI [of _ m]) simp
    qed
  qed
qed

end

lemmas writer_defs = applySessionEventUnchecked_def batch_alt applySessionEventProjection_def apply_session_event_def Let_def

interpretation status_writer: last_writer rs_status
  by (unfold_locales, case_tac "ev_payload ev") (simp_all add: writer_defs)

interpretation phase_writer: last_writer rs_phase
  by (unfold_locales, case_tac "ev_payload ev") (simp_all add: writer_defs)

interpretation title_writer: last_writer rs_title
  by (unfold_locales, case_tac "ev_payload ev") (simp_all add: writer_defs)

interpretation agent_writer: last_writer rs_currentAgent
proof
  fix ev
  let ?f = rs_currentAgent
  show "(\<exists>v. \<forall>s. ?f (apply_session_event s ev) = v \<and> ?f (applySessionEventUnchecked s ev) = v) \<or>
        (\<forall>s. ?f (apply_session_event s ev) = ?f s \<and> ?f (applySessionEventUnchecked s ev) = ?f s)"
  proof (cases "ev_payload ev")
    case (HumanDecisionMade d)
    then show ?thesis
      by (cases "hdec_kind d = hd_handoff"; cases "hdec_targetAgent d"; cases "hdec_kind d = hd_cancel") (simp_all add: writer_defs)
  qed (simp_all add: writer_defs)
qed

interpretation decision_writer: last_writer rs_pendingDecision
  by (unfold_locales, case_tac "ev_payload ev") (simp_all add: writer_defs ex_bool_eq)

interpretation archive_writer: last_writer rs_archived
  by (unfold_locales, case_tac "ev_payload ev") (simp_all add: writer_defs ex_bool_eq)

interpretation time_writer: last_writer rs_updatedAt
  by (unfold_locales, case_tac "ev_payload ev") (simp_all add: writer_defs)

section \<open>A cached session\<close>

definition registers_ok :: "relay_event list \<Rightarrow> nat \<Rightarrow> relay_session \<Rightarrow> bool" where
  "registers_ok lg n c \<longleftrightarrow>
     tracked rs_status lg n (rs_status c) \<and> tracked rs_phase lg n (rs_phase c) \<and> tracked rs_title lg n (rs_title c) \<and>
     tracked rs_currentAgent lg n (rs_currentAgent c) \<and> tracked rs_pendingDecision lg n (rs_pendingDecision c) \<and>
     tracked rs_archived lg n (rs_archived c) \<and> tracked rs_updatedAt lg n (rs_updatedAt c)"

definition core_ok :: "string \<Rightarrow> relay_event list \<Rightarrow> relay_session \<Rightarrow> bool" where
  "core_ok sid lg c \<longleftrightarrow>
     (let n = length (rs_events c)
      in lg \<noteq> [] \<and> n \<le> length lg \<and> rs_id c = sid \<and> rs_events c = take n lg \<and> derived c = derived (server_at lg n) \<and> registers_ok lg n c)"

lemma tracked_self: "n \<le> m \<Longrightarrow> m \<le> length lg \<Longrightarrow> x = field (server_at lg m) \<Longrightarrow> tracked field lg n x"
  by (auto simp: tracked_def)

lemma registers_at: "n \<le> m \<Longrightarrow> m \<le> length lg \<Longrightarrow> registers_ok lg n (server_at lg m)"
  unfolding registers_ok_def by (intro conjI tracked_self [of n m]) simp_all

lemma unchecked_frame [simp]:
  "rs_id (applySessionEventUnchecked c ev) = rs_id c"
  "rs_events (applySessionEventUnchecked c ev) = rs_events c @ [ev]"
  by (simp_all add: applySessionEventUnchecked_def batch_alt applySessionEventProjection_def)

lemma core_next: "log_ok sid lg \<Longrightarrow> core_ok sid lg c \<Longrightarrow> length (rs_events c) < length lg \<Longrightarrow>
   core_ok sid lg (applySessionEventUnchecked c (lg ! length (rs_events c)))"
  unfolding core_ok_def registers_ok_def Let_def
  by (auto simp: take_Suc_conv_app_nth intro: derived_next status_writer.tracked_next phase_writer.tracked_next
      title_writer.tracked_next agent_writer.tracked_next decision_writer.tracked_next archive_writer.tracked_next time_writer.tracked_next)

lemma core_replay:
  "log_ok sid lg \<Longrightarrow> core_ok sid lg c \<Longrightarrow> length (rs_events c) \<le> h \<Longrightarrow> h \<le> length lg \<Longrightarrow>
   core_ok sid lg (foldl applySessionEventUnchecked c (drop (length (rs_events c)) (take h lg)))"
proof (induction "h - length (rs_events c)" arbitrary: c)
  case (Suc k)
  then have n: "length (rs_events c) < h" by simp
  then have "drop (length (rs_events c)) (take h lg) = lg ! length (rs_events c) # drop (Suc (length (rs_events c))) (take h lg)"
    using Suc.prems(4) by (subst Cons_nth_drop_Suc [symmetric]) simp_all
  with Suc.hyps(1) [of "applySessionEventUnchecked c (lg ! length (rs_events c))"] Suc.hyps(2) Suc.prems n core_next [OF Suc.prems(1,2)]
  show ?case by simp
qed simp

lemma core_server: "log_ok sid lg \<Longrightarrow> 0 < n \<Longrightarrow> n \<le> length lg \<Longrightarrow> core_ok sid lg (server_at lg n)"
  using server_at_facts [of sid lg n] registers_at [of n n lg] by (cases "lg = []") (auto simp: core_ok_def Let_def)

lemma tracked_longer:
  assumes "log_ok sid lg" and "lg \<noteq> []" and "tracked field lg n x"
  shows "tracked field (lg @ [ev]) n x"
proof -
  obtain m where m: "n \<le> m" "m \<le> length lg" "x = field (server_at lg m)" using assms(3) by (auto simp: tracked_def)
  with server_at_longer [OF assms(1,2)] show ?thesis unfolding tracked_def by (intro exI [of _ m]) simp
qed

lemma core_longer: "log_ok sid lg \<Longrightarrow> core_ok sid lg c \<Longrightarrow> core_ok sid (lg @ [ev]) c"
  using server_at_longer [of sid lg "length (rs_events c)" ev]
  by (auto simp: core_ok_def registers_ok_def Let_def intro: tracked_longer)

text \<open>A summary that is not older than the events replaces the fields the last writer decides.\<close>

lemma derived_with_summary [simp]: "derived (with_summary m c) = derived c" "rs_events (with_summary m c) = rs_events c"
  by (simp_all add: with_summary_def derived_def)

lemma registers_summary: "n \<le> m \<Longrightarrow> m \<le> length lg \<Longrightarrow> registers_ok lg n (with_summary (summary_of k oa (server_at lg m)) c)"
  using registers_at [of n m lg] by (simp add: registers_ok_def with_summary_def summary_of_def)

lemma core_summary:
  assumes "log_ok sid lg" and "0 < m" and "m \<le> length lg" and "core_ok sid lg c" and "length (rs_events c) \<le> m"
  shows "core_ok sid lg (with_summary (summary_of k oa (server_at lg m)) c)"
proof -
  have "rs_id (with_summary (summary_of k oa (server_at lg m)) c) = sid"
    using server_at_facts [OF assms(1) _ assms(3)] assms(4) by (simp add: with_summary_def summary_of_def core_ok_def Let_def)
  with assms registers_summary [OF assms(5,3)] show ?thesis by (auto simp: core_ok_def Let_def)
qed

lemma core_inflated:
  assumes "log_ok sid lg" and "0 < m" and "m \<le> length lg"
  shows "core_ok sid lg (with_summary (summary_of k oa (server_at lg m)) blank_session)"
proof -
  have ne: "lg \<noteq> []" using assms by auto
  obtain c where "server_at lg 0 = initial_session (hd lg) c" using server_at_0 [OF assms(1) ne] by blast
  then have "derived blank_session = derived (server_at lg 0)" by (simp add: derived_def blank_session_def initial_session_def)
  moreover have "rs_events blank_session = []" by (simp add: blank_session_def)
  moreover have "rs_id (with_summary (summary_of k oa (server_at lg m)) blank_session) = sid"
    using server_at_facts [OF assms(1) ne assms(3)] by (simp add: with_summary_def summary_of_def)
  ultimately show ?thesis using ne registers_summary [of 0 m lg] assms(3) by (simp add: core_ok_def Let_def)
qed

section \<open>Events in the order of the log\<close>

lemma distinct_log: "log_ok sid lg \<Longrightarrow> distinct lg"
  by (auto simp: log_ok_def distinct_map)

lemma id_in_log: "log_ok sid lg \<Longrightarrow> e \<in> set lg \<Longrightarrow> ev_id e \<in> ev_id ` set (take n lg) \<longleftrightarrow> e \<in> set (take n lg)"
proof -
  assume lg: "log_ok sid lg" and e: "e \<in> set lg"
  then have "inj_on ev_id (set lg)" by (simp add: log_ok_def distinct_map)
  from inj_on_image_mem_iff [OF this e set_take_subset] show ?thesis .
qed

lemma nth_in_take: "distinct xs \<Longrightarrow> i < length xs \<Longrightarrow> xs ! i \<in> set (take n xs) \<longleftrightarrow> i < n"
  by (auto simp: in_set_conv_nth nth_eq_iff_index_eq)

lemma drop_split: "n \<le> k \<Longrightarrow> drop n ys = drop n (take k ys) @ drop k ys"
  using append_take_drop_id [of "k - n" "drop n ys"] by (simp add: drop_take)

lemma not_taken: "distinct xs \<Longrightarrow> n \<le> k \<Longrightarrow> filter (\<lambda>e. e \<notin> set (take k xs)) (drop n (take h xs)) = drop k (take h xs)"
proof -
  assume xs: "distinct xs" and n: "n \<le> k"
  have "set (drop n (take k (take h xs))) \<subseteq> set (take k xs)"
    using set_drop_subset [of n "take k (take h xs)"] set_take_subset_set_take [of "min k h" k xs] by (auto simp: min.commute)
  then have "filter (\<lambda>e. e \<notin> set (take k xs)) (drop n (take k (take h xs))) = []"
    by (auto simp: filter_empty_conv)
  moreover have "set (take k xs) \<inter> set (drop k (take h xs)) = {}"
    using set_take_disj_set_drop_if_distinct [OF xs, of k k] set_take_subset [of "h - k" "drop k xs"] by (auto simp: drop_take)
  then have "filter (\<lambda>e. e \<notin> set (take k xs)) (drop k (take h xs)) = drop k (take h xs)"
    by (auto simp: filter_id_conv)
  ultimately show ?thesis using drop_split [OF n, of "take h xs"] by simp
qed

lemma fresh_filter:
  "distinct (map ev_id evs) \<Longrightarrow> fresh_events known queued evs = filter (\<lambda>e. ev_id e \<notin> set known \<and> ev_id e \<notin> set queued) evs"
proof (induction evs arbitrary: queued)
  case (Cons e evs)
  have "filter (\<lambda>x. ev_id x \<notin> set known \<and> ev_id x \<notin> set (ev_id e # queued)) evs =
        filter (\<lambda>x. ev_id x \<notin> set known \<and> ev_id x \<notin> set queued) evs"
    using Cons.prems by (intro filter_cong) (auto simp: image_iff)
  with Cons show ?case by simp
qed simp

section \<open>The index of ids\<close>

definition index_ok :: "relay_event list \<Rightarrow> nat \<Rightarrow> id_index \<Rightarrow> bool" where
  "index_ok lg n ix \<longleftrightarrow>
     ix_indexedCount ix \<le> n \<and> set (ix_ids ix) = ev_id ` set (take (ix_indexedCount ix) lg) \<and>
     (ix_indexedCount ix \<noteq> 0 \<longrightarrow> ix_boundaryId ix = Some (ev_id (lg ! (ix_indexedCount ix - 1))))"

lemma synchronize_ok:
  assumes "index_ok lg n ix" and "n \<le> length lg"
  shows "index_ok lg n (synchronize (take n lg) ix) \<and> set (ix_ids (synchronize (take n lg) ix)) = ev_id ` set (take n lg)"
proof -
  let ?k = "ix_indexedCount ix"
  have "take n lg ! (?k - Suc 0) = lg ! (?k - Suc 0)" if "?k \<noteq> 0"
    using that assms(1) by (intro nth_take) (auto simp: index_ok_def)
  then have "append_only (take n lg) ix"
    using assms by (cases "?k = 0") (auto simp: append_only_def index_ok_def)
  then have sync: "synchronize (take n lg) ix =
      \<lparr>ix_ids = ix_ids ix @ map ev_id (drop ?k (take n lg)), ix_indexedCount = length (take n lg),
       ix_boundaryId = (if take n lg = [] then None else Some (ev_id (last (take n lg))))\<rparr>"
    by (simp add: synchronize_def)
  have "take n lg = take ?k lg @ drop ?k (take n lg)"
    using assms(1) by (metis append_take_drop_id index_ok_def min.absorb1 take_take)
  then have "set (take n lg) = set (take ?k lg) \<union> set (drop ?k (take n lg))"
    by (metis set_append)
  then have ids: "set (ix_ids (synchronize (take n lg) ix)) = ev_id ` set (take n lg)"
    using assms(1) by (simp add: sync index_ok_def image_Un)
  have "length (take n lg) = n" using assms(2) by simp
  moreover have "last (take n lg) = lg ! (n - 1)" if "take n lg \<noteq> []"
    using that assms(2) by (simp add: last_conv_nth)
  ultimately show ?thesis using ids by (auto simp: index_ok_def sync)
qed

lemma empty_index_ok: "index_ok lg n empty_index"
  by (simp add: index_ok_def empty_index_def)

section \<open>The stream\<close>

text \<open>
  The pending events that the cached session does not have yet are the next events of the log, up to some position at
  least as far as the server has sent.
\<close>

definition pending_ok :: "relay_event list \<Rightarrow> nat \<Rightarrow> nat \<Rightarrow> relay_event list \<Rightarrow> bool" where
  "pending_ok lg n pos pending \<longleftrightarrow>
     (\<exists>h. pos \<le> h \<and> h \<le> length lg \<and> filter (\<lambda>e. e \<notin> set (take n lg)) pending = drop n (take h lg))"

definition stream_ok :: "relay_event list \<Rightarrow> nat \<Rightarrow> event_stream \<Rightarrow> bool" where
  "stream_ok lg n st \<longleftrightarrow>
     index_ok lg n (es_index st) \<and> es_position st \<le> length lg \<and> distinct (map ev_id (es_pending st)) \<and>
     set (es_pending st) \<subseteq> set lg \<and> set (es_queued st) = ev_id ` set (es_pending st) \<and>
     pending_ok lg n (es_position st) (es_pending st)"

lemma index_later: "index_ok lg n ix \<Longrightarrow> n \<le> k \<Longrightarrow> index_ok lg k ix"
  by (auto simp: index_ok_def)

lemma index_longer: "index_ok lg n ix \<Longrightarrow> n \<le> length lg \<Longrightarrow> index_ok (lg @ [ev]) n ix"
  by (auto simp: index_ok_def nth_append)

text \<open>The cached session gets further.\<close>

lemma stream_later:
  assumes "log_ok sid lg" and "stream_ok lg n st" and "n \<le> k"
  shows "stream_ok lg k st"
proof -
  obtain h where h: "es_position st \<le> h" "h \<le> length lg" "filter (\<lambda>e. e \<notin> set (take n lg)) (es_pending st) = drop n (take h lg)"
    using assms(2) by (auto simp: stream_ok_def pending_ok_def)
  have "set (take n lg) \<subseteq> set (take k lg)" using assms(3) by (rule set_take_subset_set_take)
  then have "filter (\<lambda>e. e \<notin> set (take k lg)) (es_pending st) =
      filter (\<lambda>e. e \<notin> set (take k lg)) (filter (\<lambda>e. e \<notin> set (take n lg)) (es_pending st))"
    by (auto intro: filter_cong)
  also have "\<dots> = drop k (take h lg)"
    using h(3) not_taken [OF distinct_log [OF assms(1)] assms(3)] by simp
  finally show ?thesis
    using assms h(1,2) index_later by (auto simp: stream_ok_def pending_ok_def)
qed

lemma stream_longer: "n \<le> length lg \<Longrightarrow> stream_ok lg n st \<Longrightarrow> stream_ok (lg @ [ev]) n st"
proof -
  assume n: "n \<le> length lg" and st: "stream_ok lg n st"
  obtain h where h: "es_position st \<le> h" "h \<le> length lg" "filter (\<lambda>e. e \<notin> set (take n lg)) (es_pending st) = drop n (take h lg)"
    using st by (auto simp: stream_ok_def pending_ok_def)
  with n st index_longer [of lg n "es_index st" ev] show ?thesis
    unfolding stream_ok_def pending_ok_def by (auto intro!: exI [of _ h])
qed

lemma stream_opens: "core_ok sid lg (cs_core s) \<Longrightarrow> stream_ok lg (length (cs_events s)) (open_stream s)"
proof -
  assume ok: "core_ok sid lg (cs_core s)"
  let ?n = "length (cs_events s)"
  have n: "?n \<le> length lg" "cs_events s = take ?n lg" using ok by (auto simp: core_ok_def Let_def cs_events_def)
  have "index_ok lg ?n (new_index (cs_events s))"
    using synchronize_ok [OF empty_index_ok n(1)] n(2) by (simp add: new_index_def)
  moreover have "pending_ok lg ?n ?n []" using n(1) by (auto simp: pending_ok_def)
  ultimately show ?thesis using n(1) by (simp add: stream_ok_def open_stream_def)
qed

lemma stream_resumes: "stream_ok lg n st \<Longrightarrow> p \<le> es_position st \<Longrightarrow> stream_ok lg n (st\<lparr>es_position := p\<rparr>)"
proof -
  assume st: "stream_ok lg n st" and p: "p \<le> es_position st"
  obtain h where "es_position st \<le> h" "h \<le> length lg" "filter (\<lambda>e. e \<notin> set (take n lg)) (es_pending st) = drop n (take h lg)"
    using st by (auto simp: stream_ok_def pending_ok_def)
  with st p show ?thesis unfolding stream_ok_def pending_ok_def by (auto intro!: exI [of _ h])
qed

text \<open>The server sends the next event.\<close>

lemma stream_sends:
  assumes lg: "log_ok sid lg" and st: "stream_ok lg n st" and pos: "es_position st < length lg"
  shows "stream_ok lg n ((enqueue_one (lg ! es_position st) st)\<lparr>es_position := es_position st + 1\<rparr>)"
proof -
  let ?p = "es_position st" and ?e = "lg ! es_position st"
  note dist = distinct_log [OF lg]
  have inj: "inj_on ev_id (set lg)" using lg by (simp add: log_ok_def distinct_map)
  have e: "?e \<in> set lg" "ev_id ?e \<noteq> []" using lg pos by (auto simp: log_ok_def)
  obtain h where h: "?p \<le> h" "h \<le> length lg" "filter (\<lambda>e. e \<notin> set (take n lg)) (es_pending st) = drop n (take h lg)"
    using st by (auto simp: stream_ok_def pending_ok_def)
  have next_h: "drop n (take (max h (?p + 1)) lg) = drop n (take h lg)" if "?p < n \<or> ?p < h"
    using that h(1) by (cases "?p < h") (simp_all add: max_absorb1 Suc_le_eq)
  show ?thesis
  proof (cases "ev_id ?e \<in> set (ix_ids (es_index st)) \<or> ev_id ?e \<in> set (es_queued st)")
    case True
    have "?p < n \<or> ?p < h"
    proof (cases "ev_id ?e \<in> set (ix_ids (es_index st))")
      case True
      then have "ev_id ?e \<in> ev_id ` set (take (ix_indexedCount (es_index st)) lg)" using st by (simp add: stream_ok_def index_ok_def)
      then have "?e \<in> set (take (ix_indexedCount (es_index st)) lg)" using id_in_log [OF lg e(1)] by simp
      then show ?thesis using st nth_in_take [OF dist pos] by (auto simp: stream_ok_def index_ok_def)
    next
      case False
      then have "ev_id ?e \<in> ev_id ` set (es_pending st)" using \<open>_ \<or> _\<close> st by (simp add: stream_ok_def)
      then have "?e \<in> set (es_pending st)"
        using inj_on_image_mem_iff [OF inj e(1)] st by (simp add: stream_ok_def)
      then have "?p < n \<or> ?e \<in> set (filter (\<lambda>e. e \<notin> set (take n lg)) (es_pending st))"
        using nth_in_take [OF dist pos, of n] by auto
      then have "?p < n \<or> ?e \<in> set (drop n (take h lg))" using h(3) by simp
      then show ?thesis using nth_in_take [OF dist pos, of h] by (auto dest: in_set_dropD)
    qed
    from next_h [OF this] h have "pending_ok lg n (?p + 1) (es_pending st)"
      using pos unfolding pending_ok_def by (intro exI [of _ "max h (?p + 1)"]) simp
    with True st pos show ?thesis by (simp add: stream_ok_def)
  next
    case False
    have new: "?e \<notin> set (es_pending st)" using False st by (auto simp: stream_ok_def)
    have "filter (\<lambda>e. e \<notin> set (take n lg)) (es_pending st @ [?e]) = drop n (take (max h (?p + 1)) lg)"
    proof (cases "?p < n")
      case True
      then have "?e \<in> set (take n lg)" using nth_in_take [OF dist pos] by simp
      with next_h True h(3) show ?thesis by simp
    next
      case np: False
      then have "?e \<notin> set (take n lg)" using nth_in_take [OF dist pos] by simp
      moreover have "h = ?p"
      proof (rule ccontr)
        assume "h \<noteq> ?p"
        then have "take h lg ! ?p \<in> set (drop n (take h lg))"
          using h(1,2) np by (auto simp: in_set_conv_nth intro!: exI [of _ "?p - n"])
        then have "?e \<in> set (filter (\<lambda>e. e \<notin> set (take n lg)) (es_pending st))" using h \<open>h \<noteq> ?p\<close> by simp
        with new show False by simp
      qed
      ultimately show ?thesis using h(3) np pos by (simp add: take_Suc_conv_app_nth)
    qed
    then have "pending_ok lg n (?p + 1) (es_pending st @ [?e])"
      using h(2) pos unfolding pending_ok_def by (intro exI [of _ "max h (?p + 1)"]) simp
    moreover have "ev_id ?e \<notin> ev_id ` set (es_pending st)" using False st by (simp add: stream_ok_def)
    ultimately show ?thesis using False st pos e by (simp add: stream_ok_def)
  qed
qed

section \<open>The invariant of the client\<close>

definition held_once :: "string \<Rightarrow> client_session list \<Rightarrow> bool" where
  "held_once sid ss \<longleftrightarrow> length (filter (\<lambda>s. cs_id s = sid) ss) \<le> 1"

definition cache_list :: "web_client \<Rightarrow> client_session list" where
  "cache_list w = (case wc_cache w of None \<Rightarrow> [] | Some ss \<Rightarrow> ss)"

definition web_inv :: "string \<Rightarrow> web_client \<Rightarrow> bool" where
  "web_inv sid w \<longleftrightarrow>
     log_ok sid (wc_log w) \<and> held_once sid (cache_list w) \<and>
     (\<forall>s. cached_session sid w = Some s \<longrightarrow> core_ok sid (wc_log w) (cs_core s)) \<and>
     (\<forall>st. wc_stream w = Some st \<longrightarrow> (\<exists>s. cached_session sid w = Some s \<and> stream_ok (wc_log w) (length (cs_events s)) st))"

lemma cached_alt: "cached_session sid w = find (\<lambda>s. cs_id s = sid) (cache_list w)"
  by (simp add: cached_session_def cache_list_def split: option.split)

lemma find_iff_once: "held_once sid ss \<Longrightarrow> find (\<lambda>s. cs_id s = sid) ss = Some s \<longleftrightarrow> s \<in> set ss \<and> cs_id s = sid"
proof (induction ss)
  case (Cons t ss)
  then show ?case
    by (cases "cs_id t = sid") (auto simp: held_once_def filter_empty_conv)
qed simp

lemma last_held: "held_once sid ss \<Longrightarrow> map_of (rev (map (\<lambda>s. (cs_id s, s)) ss)) sid = find (\<lambda>s. cs_id s = sid) ss"
proof (induction ss)
  case (Cons t ss)
  show ?case
  proof (cases "cs_id t = sid")
    case True
    then have "find (\<lambda>s. cs_id s = sid) ss = None"
      using Cons.prems by (auto simp: held_once_def filter_empty_conv find_None_iff)
    with Cons True show ?thesis by (simp add: held_once_def map_add_def)
  qed (use Cons in \<open>simp add: held_once_def map_add_def fun_upd_def split: option.split\<close>)
qed simp

lemma map_of_cs: "map_of (rev (map (\<lambda>s. (cs_id s, s)) ss)) i = Some s \<Longrightarrow> cs_id s = i \<and> s \<in> set ss"
  by (drule map_of_SomeD) auto

text \<open>What the cache holds for the session after a poll and after a snapshot.\<close>

lemma find_only: "\<forall>x \<in> set xs. \<not> p x \<Longrightarrow> p y \<Longrightarrow> find p (xs @ y # ys) = Some y"
  by (induction xs) auto

lemma overlaid_id: "cs_id (overlaid m c) = sm_id m"
  by (simp add: overlaid_def with_summary_def cs_id_def)

definition polled_session :: "client_session option \<Rightarrow> session_summary \<Rightarrow> client_session" where
  "polled_session held m =
     (case held of None \<Rightarrow> inflateSessionSummary m
      | Some existing \<Rightarrow> if sm_eventCount m < length (cs_events existing) then existing else overlaid m (cs_core existing))"

lemma merge_alt:
  "mergeSessionSummaries current ms = map (\<lambda>m. polled_session (map_of (rev (map (\<lambda>s. (cs_id s, s)) current)) (sm_id m)) m) ms"
  by (simp add: mergeSessionSummaries_def polled_session_def)

lemma polled_id:
  assumes "\<And>s. held = Some s \<Longrightarrow> cs_id s = sm_id m"
  shows "cs_id (polled_session held m) = sm_id m"
  using assms by (cases held) (simp_all add: polled_session_def inflateSessionSummary_def overlaid_id)

lemma summaries_ids: "map cs_id (mergeSessionSummaries current ms) = map sm_id ms"
proof -
  have "cs_id (polled_session (map_of (rev (map (\<lambda>s. (cs_id s, s)) current)) (sm_id m)) m) = sm_id m" for m
    by (rule polled_id) (blast dest: map_of_cs)
  then show ?thesis by (simp add: merge_alt comp_def)
qed

lemma find_by_id: "find (\<lambda>s. cs_id s = i) ss = Some s \<Longrightarrow> cs_id s = i \<and> s \<in> set ss"
  by (auto simp: find_Some_iff)

lemma poll_result:
  assumes "held_once sid current" and "list_all (\<lambda>m. sm_id m \<noteq> sid) (before @ after)" and "sm_id m = sid"
  shows "held_once sid (mergeSessionSummaries current (before @ [m] @ after)) \<and>
         find (\<lambda>s. cs_id s = sid) (mergeSessionSummaries current (before @ [m] @ after)) =
           Some (polled_session (find (\<lambda>s. cs_id s = sid) current) m)"
proof -
  let ?r = "mergeSessionSummaries current"
  have split: "?r (before @ [m] @ after) = ?r before @ polled_session (find (\<lambda>s. cs_id s = sid) current) m # ?r after"
    using last_held [OF assms(1)] assms(3) by (simp add: merge_alt)
  have others: "\<forall>s \<in> set (?r ms). cs_id s \<noteq> sid" if "list_all (\<lambda>m. sm_id m \<noteq> sid) ms" for ms
  proof -
    have "cs_id ` set (?r ms) = sm_id ` set ms" by (metis list.set_map summaries_ids)
    moreover have "sid \<notin> sm_id ` set ms" using that by (auto simp: list_all_iff)
    ultimately show ?thesis by (metis imageI)
  qed
  have rest: "\<forall>s \<in> set (?r before). cs_id s \<noteq> sid" "\<forall>s \<in> set (?r after). cs_id s \<noteq> sid"
    by (rule others; use assms(2) in simp)+
  have "map cs_id (?r [m]) = [sid]" using summaries_ids [of current "[m]"] assms(3) by simp
  then have own: "cs_id (polled_session (find (\<lambda>s. cs_id s = sid) current) m) = sid"
    using last_held [OF assms(1)] assms(3) by (simp add: merge_alt)
  have none: "filter (\<lambda>s. cs_id s = sid) (?r before) = []" "filter (\<lambda>s. cs_id s = sid) (?r after) = []"
    using rest by (auto simp: filter_empty_conv)
  show ?thesis
    unfolding split using own none find_only [OF rest(1) own, of "?r after"] by (simp add: held_once_def)
qed

lemma snapshot_result:
  assumes "held_once sid current" and "cs_id snapshot = sid" and "\<And>s ev. cs_id (f s ev) = cs_id s"
  shows "held_once sid (mergeSessionSnapshotIntoSessions current snapshot f) \<and>
         find (\<lambda>s. cs_id s = sid) (mergeSessionSnapshotIntoSessions current snapshot f) =
           Some (case find (\<lambda>s. cs_id s = sid) current of
               None \<Rightarrow> snapshot
             | Some held \<Rightarrow> foldl f snapshot (filter (\<lambda>e. ev_id e \<notin> ev_id ` set (cs_events snapshot)) (cs_events held)))"
proof (cases "find (\<lambda>s. cs_id s = sid) current")
  case None
  then have "filter (\<lambda>s. cs_id s = sid) current = []" by (auto simp: find_None_iff filter_empty_conv)
  with None assms show ?thesis by (simp add: mergeSessionSnapshotIntoSessions_def held_once_def)
next
  case (Some held)
  define merged where "merged = foldl f snapshot (filter (\<lambda>e. ev_id e \<notin> ev_id ` set (cs_events snapshot)) (cs_events held))"
  have "cs_id (foldl f s evs) = cs_id s" for s evs
    by (induction evs arbitrary: s) (simp_all add: assms(3))
  then have "cs_id merged = sid" using assms(2) by (simp add: merged_def)
  moreover have "find (\<lambda>s. cs_id s = sid) ss \<noteq> None \<Longrightarrow> cs_id y = sid \<Longrightarrow>
      length (filter (\<lambda>s. cs_id s = sid) (replace_first (\<lambda>s. cs_id s = sid) y ss)) = length (filter (\<lambda>s. cs_id s = sid) ss) \<and>
      find (\<lambda>s. cs_id s = sid) (replace_first (\<lambda>s. cs_id s = sid) y ss) = Some y" for ss y
    by (induction ss) auto
  ultimately show ?thesis
    using Some assms(1,2) by (simp add: mergeSessionSnapshotIntoSessions_def held_once_def merged_def)
qed

section \<open>Every step keeps the invariant\<close>

text \<open>The cached session after a step is never behind the one before.\<close>

definition kept_up :: "string \<Rightarrow> web_client \<Rightarrow> web_client \<Rightarrow> bool" where
  "kept_up sid w v \<longleftrightarrow> (\<forall>s. cached_session sid w = Some s \<longrightarrow>
     (\<exists>t. cached_session sid v = Some t \<and> length (cs_events s) \<le> length (cs_events t)))"

lemma cs_on_core [simp]: "cs_core (on_core f s) = f (cs_core s)"
  by (simp add: on_core_def)

text \<open>A new cached session that is at least as far leaves the stream in order.\<close>

lemma cache_keeps:
  assumes "web_inv sid w" and "held_once sid ss" and "find (\<lambda>s. cs_id s = sid) ss = Some t" and "core_ok sid (wc_log w) (cs_core t)"
    and "\<And>s. cached_session sid w = Some s \<Longrightarrow> length (cs_events s) \<le> length (cs_events t)"
  shows "web_inv sid (w\<lparr>wc_cache := Some ss\<rparr>) \<and> kept_up sid w (w\<lparr>wc_cache := Some ss\<rparr>)"
proof -
  have cached: "cached_session sid (w\<lparr>wc_cache := Some ss\<rparr>) = Some t"
    using assms(3) by (simp add: cached_session_def)
  have "stream_ok (wc_log w) (length (cs_events t)) st" if open_st: "wc_stream w = Some st" for st
  proof -
    obtain s where s: "cached_session sid w = Some s" "stream_ok (wc_log w) (length (cs_events s)) st"
      using open_st assms(1) by (auto simp: web_inv_def)
    show ?thesis by (rule stream_later [of sid, OF _ s(2) assms(5) [OF s(1)]]) (use assms(1) in \<open>simp add: web_inv_def\<close>)
  qed
  with cached assms show ?thesis by (auto simp: web_inv_def kept_up_def cache_list_def)
qed

lemma poll_keeps:
  assumes inv: "web_inv sid w" and n: "0 < n" "n \<le> length (wc_log w)" and others: "list_all (\<lambda>m. sm_id m \<noteq> sid) (before @ after)"
    and m: "m = summary_of k oa (server_at (wc_log w) n)"
  shows "web_inv sid (w\<lparr>wc_cache := Some (mergeSessionSummaries (cache_list w) (before @ [m] @ after))\<rparr>) \<and>
         kept_up sid w (w\<lparr>wc_cache := Some (mergeSessionSummaries (cache_list w) (before @ [m] @ after))\<rparr>)"
proof -
  have lg: "log_ok sid (wc_log w)" and once: "held_once sid (cache_list w)" using inv by (simp_all add: web_inv_def)
  have ne: "wc_log w \<noteq> []" using n by auto
  have facts: "sm_id m = sid" "sm_eventCount m = n"
    using server_at_facts [OF lg ne n(2)] n by (simp_all add: m summary_of_def)
  let ?t = "polled_session (find (\<lambda>s. cs_id s = sid) (cache_list w)) m"
  note result = poll_result [OF once others facts(1)]
  have "core_ok sid (wc_log w) (cs_core ?t) \<and> (\<forall>s. cached_session sid w = Some s \<longrightarrow> length (cs_events s) \<le> length (cs_events ?t))"
  proof (cases "cached_session sid w")
    case None
    then show ?thesis
      using core_inflated [OF lg n, of k oa] by (simp add: polled_session_def cached_alt inflateSessionSummary_def overlaid_def m)
  next
    case (Some s)
    then have ok: "core_ok sid (wc_log w) (cs_core s)" using inv by (simp add: web_inv_def)
    have "core_ok sid (wc_log w) (with_summary m (cs_core s))" if "\<not> n < length (cs_events s)"
      unfolding m using that by (intro core_summary [OF lg n ok]) (simp add: cs_events_def)
    with Some ok show ?thesis
      by (simp add: polled_session_def cached_alt overlaid_def facts(2)) (simp add: cs_events_def)
  qed
  with result show ?thesis by (intro cache_keeps [OF inv, of _ ?t]) auto
qed

lemma events_missing:
  assumes "log_ok sid lg" and "n \<le> length lg" and "k \<le> length lg"
  shows "filter (\<lambda>e. ev_id e \<notin> ev_id ` set (take n lg)) (take k lg) = drop n (take k lg)"
proof -
  have "filter (\<lambda>e. ev_id e \<notin> ev_id ` set (take n lg)) (take k lg) = filter (\<lambda>e. e \<notin> set (take n lg)) (take k lg)"
    by (intro filter_cong refl) (use id_in_log [OF assms(1)] in \<open>auto dest: in_set_takeD\<close>)
  also have "\<dots> = drop n (take k lg)"
    using not_taken [OF distinct_log [OF assms(1)], of 0 n k] by simp
  finally show ?thesis .
qed

lemma foldl_on_core: "cs_core (foldl (\<lambda>s ev. on_core (\<lambda>c. f c ev) s) s evs) = foldl f (cs_core s) evs"
  by (induction evs arbitrary: s) simp_all

lemma snapshot_keeps:
  assumes inv: "web_inv sid w" and n: "0 < n" "n \<le> length (wc_log w)"
    and f: "f = (\<lambda>s ev. on_core (\<lambda>c. applySessionEventUnchecked c ev) s)" and snap: "snap = snapshot_session (server_at (wc_log w) n)"
  shows "web_inv sid (w\<lparr>wc_cache := Some (mergeSessionSnapshotIntoSessions (cache_list w) snap f)\<rparr>) \<and>
         kept_up sid w (w\<lparr>wc_cache := Some (mergeSessionSnapshotIntoSessions (cache_list w) snap f)\<rparr>)"
proof -
  have lg: "log_ok sid (wc_log w)" and once: "held_once sid (cache_list w)" using inv by (simp_all add: web_inv_def)
  have ne: "wc_log w \<noteq> []" using n by auto
  have core: "cs_core snap = server_at (wc_log w) n" by (simp add: snap snapshot_session_def)
  have facts: "cs_id snap = sid" "cs_events snap = take n (wc_log w)"
    using server_at_facts [OF lg ne n(2)] by (simp_all add: cs_id_def cs_events_def core)
  have keeps_id: "cs_id (f s ev) = cs_id s" for s ev by (simp add: f cs_id_def)
  note result = snapshot_result [OF once facts(1), of f, OF keeps_id]
  let ?missing = "\<lambda>held. filter (\<lambda>e. ev_id e \<notin> ev_id ` set (cs_events snap)) (cs_events held)"
  let ?t = "case find (\<lambda>s. cs_id s = sid) (cache_list w) of None \<Rightarrow> snap | Some held \<Rightarrow> foldl f snap (?missing held)"
  have "core_ok sid (wc_log w) (cs_core ?t) \<and> (\<forall>s. cached_session sid w = Some s \<longrightarrow> length (cs_events s) \<le> length (cs_events ?t))"
  proof (cases "cached_session sid w")
    case None
    then show ?thesis using core_server [OF lg n] by (simp add: cached_alt core)
  next
    case (Some s)
    then have ok: "core_ok sid (wc_log w) (cs_core s)" using inv by (simp add: web_inv_def)
    define k where "k = length (cs_events s)"
    have k: "k \<le> length (wc_log w)" "cs_events s = take k (wc_log w)"
      using ok by (auto simp: core_ok_def Let_def cs_events_def k_def)
    have missing: "?missing s = drop n (take k (wc_log w))"
      unfolding k(2) facts(2) by (rule events_missing [OF lg n(2) k(1)])
    have core_t: "cs_core (foldl f snap (?missing s)) = foldl applySessionEventUnchecked (server_at (wc_log w) n) (drop n (take k (wc_log w)))"
      unfolding f missing core [symmetric] by (rule foldl_on_core)
    have len: "length (rs_events (server_at (wc_log w) n)) = n" using server_at_facts [OF lg ne n(2)] n by simp
    have "core_ok sid (wc_log w) (cs_core (foldl f snap (?missing s)))"
    proof (cases "n \<le> k")
      case True
      from core_replay [OF lg core_server [OF lg n], of k] True k(1) len core_t show ?thesis by simp
    next
      case False
      with core_t core_server [OF lg n] show ?thesis by simp
    qed
    moreover have "length (cs_events s) \<le> length (cs_events (foldl f snap (?missing s)))"
      using k(1) len by (simp add: cs_events_def [of "foldl _ _ _"] core_t client_log.replay_events flip: k_def)
    ultimately show ?thesis using Some by (simp add: cached_alt)
  qed
  with result show ?thesis by (intro cache_keeps [OF inv, of _ ?t]) auto
qed

lemma stream_keeps:
  assumes "web_inv sid w" and "cached_session sid w = Some s" and "stream_ok (wc_log w) (length (cs_events s)) st"
  shows "web_inv sid (w\<lparr>wc_stream := Some st\<rparr>) \<and> kept_up sid w (w\<lparr>wc_stream := Some st\<rparr>)"
proof -
  have "cached_session sid (w\<lparr>wc_stream := Some st\<rparr>) = cached_session sid w" by (simp add: cached_session_def)
  with assms show ?thesis by (auto simp: web_inv_def kept_up_def cache_list_def)
qed

text \<open>A flush applies exactly the events of the log the session does not have, up to the position the server has reached.\<close>

lemma flush_applies:
  assumes inv: "web_inv sid w" and st: "wc_stream w = Some st"
  shows "\<exists>ss t st'. flush_stream sid (wc_cache w) st = (Some ss, st') \<and> held_once sid ss \<and> find (\<lambda>s. cs_id s = sid) ss = Some t \<and>
     core_ok sid (wc_log w) (cs_core t) \<and> es_position st \<le> length (cs_events t) \<and>
     (\<forall>s. cached_session sid w = Some s \<longrightarrow> length (cs_events s) \<le> length (cs_events t)) \<and>
     stream_ok (wc_log w) (length (cs_events t)) st'"
proof -
  have lg: "log_ok sid (wc_log w)" using inv by (simp add: web_inv_def)
  obtain s where s: "cached_session sid w = Some s" "stream_ok (wc_log w) (length (cs_events s)) st"
    using inv st by (auto simp: web_inv_def)
  obtain ss where cache: "wc_cache w = Some ss" and target: "find (\<lambda>s. cs_id s = sid) ss = Some s"
    using s(1) by (auto simp: cached_session_def split: option.splits)
  have once: "held_once sid ss" using inv cache by (simp add: web_inv_def cache_list_def)
  define n where "n = length (cs_events s)"
  have ok: "core_ok sid (wc_log w) (cs_core s)" using inv s(1) by (simp add: web_inv_def)
  then have n: "n \<le> length (wc_log w)" "cs_events s = take n (wc_log w)"
    by (auto simp: core_ok_def Let_def cs_events_def n_def)
  obtain h where h: "es_position st \<le> h" "h \<le> length (wc_log w)"
      "filter (\<lambda>e. e \<notin> set (take n (wc_log w))) (es_pending st) = drop n (take h (wc_log w))"
    using s(2) by (auto simp: stream_ok_def pending_ok_def n_def)
  define known where "known = synchronize (cs_events s) (es_index st)"
  have known: "index_ok (wc_log w) n known" "set (ix_ids known) = ev_id ` set (take n (wc_log w))"
    using synchronize_ok [of "wc_log w" n "es_index st"] s(2) n by (simp_all add: known_def stream_ok_def n_def [symmetric])
  have "fresh_events (ix_ids known) [] (es_pending st) = filter (\<lambda>e. ev_id e \<notin> set (ix_ids known)) (es_pending st)"
    using fresh_filter [of "es_pending st" "ix_ids known" "[]"] s(2) by (simp add: stream_ok_def)
  also have "\<dots> = filter (\<lambda>e. e \<notin> set (take n (wc_log w))) (es_pending st)"
    using id_in_log [OF lg] s(2) by (intro filter_cong refl) (auto simp: known(2) stream_ok_def)
  finally have fresh: "fresh_events (ix_ids known) [] (es_pending st) = drop n (take h (wc_log w))" using h(3) by simp
  define t where "t = on_core (\<lambda>c. applySessionEventsUnchecked c (drop n (take h (wc_log w)))) s"
  have core_t: "core_ok sid (wc_log w) (cs_core t)"
  proof (cases "n \<le> h")
    case True
    from core_replay [OF lg ok, of h] True h(2) show ?thesis by (simp add: t_def batch_one_by_one n_def cs_events_def)
  qed (use ok in \<open>simp add: t_def applySessionEventsUnchecked_def\<close>)
  have len_t: "length (cs_events t) = max n h"
    using n h(2) by (simp add: t_def cs_events_def)
  have id_t: "cs_id t = sid" using core_t by (simp add: cs_id_def core_ok_def Let_def)
  define ix where "ix = (if drop n (take h (wc_log w)) = [] then known else synchronize (cs_events t) known)"
  have "index_ok (wc_log w) (max n h) (synchronize (take (max n h) (wc_log w)) known)"
    using synchronize_ok [OF index_later [OF known(1)]] n(1) h(2) by simp
  moreover have "cs_events t = take (max n h) (wc_log w)"
    using core_t len_t by (simp add: core_ok_def Let_def cs_events_def)
  ultimately have ix: "index_ok (wc_log w) (max n h) ix"
    using index_later [OF known(1) max.cobounded1] by (metis ix_def)
  define st' where "st' = st\<lparr>es_index := ix, es_pending := [], es_queued := filter (\<lambda>i. i \<notin> ev_id ` set (es_pending st)) (es_queued st)\<rparr>"
  define ss' where "ss' = (if drop n (take h (wc_log w)) = [] then ss else replace_session sid t ss)"
  have flush: "flush_stream sid (wc_cache w) st = (Some ss', st')"
    using fresh target
    by (simp add: flush_stream_def mergeSessionEventsIntoSessions_def cache ss'_def st'_def ix_def t_def known_def [symmetric] Let_def)
  have "filter (\<lambda>s. cs_id s = sid) (replace_session sid t ss) = map (\<lambda>_. t) (filter (\<lambda>s. cs_id s = sid) ss)"
    by (induction ss) (simp_all add: replace_session_def id_t)
  moreover have "find (\<lambda>s. cs_id s = sid) ss \<noteq> None \<Longrightarrow> find (\<lambda>s. cs_id s = sid) (replace_session sid t ss) = Some t" for ss
    by (induction ss) (auto simp: replace_session_def id_t split: if_splits)
  moreover have "t = s" if "drop n (take h (wc_log w)) = []"
    using that by (simp add: t_def applySessionEventsUnchecked_def on_core_def)
  ultimately have held: "held_once sid ss'" "find (\<lambda>s. cs_id s = sid) ss' = Some t"
    using once target by (auto simp: ss'_def held_once_def)
  have "pending_ok (wc_log w) (max n h) (es_position st) []"
    using h n(1) by (auto simp: pending_ok_def intro!: exI [of _ "max n h"])
  then have "stream_ok (wc_log w) (max n h) st'"
    using s(2) ix by (auto simp: stream_ok_def st'_def)
  then show ?thesis
    using flush held core_t len_t h(1) s(1) by (intro exI [of _ ss'] exI [of _ t] exI [of _ st']) (simp add: n_def)
qed

lemma kept_up_same: "wc_cache v = wc_cache w \<Longrightarrow> kept_up sid w v"
  by (simp add: kept_up_def cached_session_def)

lemma step_keeps: "web_inv sid w \<Longrightarrow> web_step sid w e = Some v \<Longrightarrow> web_inv sid v \<and> kept_up sid w v"
proof -
  assume inv: "web_inv sid w" and step: "web_step sid w e = Some v"
  have lg: "log_ok sid (wc_log w)" using inv by (simp add: web_inv_def)
  show ?thesis
  proof (cases e)
    case (ServerAppends ev)
    with step have v: "v = w\<lparr>wc_log := wc_log w @ [ev]\<rparr>" and ok: "acceptable sid (wc_log w) ev" by (simp_all split: if_splits)
    have same: "cached_session sid v = cached_session sid w" by (simp add: v cached_session_def)
    have core: "core_ok sid (wc_log v) (cs_core s)" if "cached_session sid w = Some s" for s
      using that inv core_longer [OF lg] by (simp add: v web_inv_def)
    have "stream_ok (wc_log v) (length (cs_events s)) st"
      if "stream_ok (wc_log w) (length (cs_events s)) st" "cached_session sid w = Some s" for s st
    proof -
      have "core_ok sid (wc_log w) (cs_core s)" using that(2) inv by (simp add: web_inv_def)
      then have "length (cs_events s) \<le> length (wc_log w)" by (simp add: core_ok_def Let_def cs_events_def)
      from stream_longer [OF this that(1)] show ?thesis by (simp add: v)
    qed
    with inv core log_append [OF lg ok] same show ?thesis
      by (fastforce simp: web_inv_def v cache_list_def kept_up_def)
  next
    case (SummariesArrive before n artifactCount ownerAgent after)
    with step poll_keeps [OF inv, of n before after _ artifactCount ownerAgent] show ?thesis
      by (simp add: cache_list_def split: if_splits)
  next
    case (SnapshotArrives n)
    with step snapshot_keeps [OF inv, of n] show ?thesis by (simp add: cache_list_def split: if_splits)
  next
    case StreamOpens
    with step obtain s where s: "cached_session sid w = Some s" and v: "v = w\<lparr>wc_stream := Some (open_stream s)\<rparr>"
      by (auto split: option.splits)
    have "stream_ok (wc_log w) (length (cs_events s)) (open_stream s)"
      using inv s by (intro stream_opens [of sid]) (simp add: web_inv_def)
    from stream_keeps [OF inv s this] show ?thesis by (simp add: v)
  next
    case StreamSends
    with step obtain st where st: "wc_stream w = Some st" "es_position st < length (wc_log w)"
        and v: "v = w\<lparr>wc_stream := Some ((enqueue_one (wc_log w ! es_position st) st)\<lparr>es_position := es_position st + 1\<rparr>)\<rparr>"
      by (auto split: option.splits if_splits simp del: enqueue_one.simps)
    obtain s where s: "cached_session sid w = Some s" "stream_ok (wc_log w) (length (cs_events s)) st"
      using inv st(1) by (auto simp: web_inv_def)
    from stream_keeps [OF inv s(1) stream_sends [OF lg s(2) st(2)]] show ?thesis unfolding v .
  next
    case (StreamResumes p)
    with step obtain st where st: "wc_stream w = Some st" "p \<le> es_position st" and v: "v = w\<lparr>wc_stream := Some (st\<lparr>es_position := p\<rparr>)\<rparr>"
      by (auto split: option.splits if_splits)
    obtain s where s: "cached_session sid w = Some s" "stream_ok (wc_log w) (length (cs_events s)) st"
      using inv st(1) by (auto simp: web_inv_def)
    from stream_keeps [OF inv s(1) stream_resumes [OF s(2) st(2)]] show ?thesis by (simp add: v)
  next
    case Flushes
    with step obtain st where st: "wc_stream w = Some st" by (auto split: option.splits)
    from flush_applies [OF inv st] obtain ss t st' where f: "flush_stream sid (wc_cache w) st = (Some ss, st')"
        "held_once sid ss" "find (\<lambda>s. cs_id s = sid) ss = Some t" "core_ok sid (wc_log w) (cs_core t)"
        "\<And>s. cached_session sid w = Some s \<Longrightarrow> length (cs_events s) \<le> length (cs_events t)"
        "stream_ok (wc_log w) (length (cs_events t)) st'"
      by blast
    let ?u = "w\<lparr>wc_cache := Some ss\<rparr>"
    have u: "web_inv sid ?u" "kept_up sid w ?u" using cache_keeps [OF inv f(2,3,4,5)] by simp_all
    have "cached_session sid ?u = Some t" using f(3) by (simp add: cached_session_def)
    from stream_keeps [OF u(1) this, of st'] f(6) u(2) Flushes step st f(1) show ?thesis
      by (simp add: kept_up_def) (fastforce simp: cached_session_def)
  next
    case StreamCloses
    with step have "v = w\<lparr>wc_stream := None\<rparr>" by simp
    with inv show ?thesis by (auto simp: web_inv_def cached_session_def cache_list_def kept_up_def)
  qed
qed

interpretation web_client: guarded_machine "web_step sid" "\<lambda>e. True" "web_inv sid" for sid
  by unfold_locales (use step_keeps in blast)

lemma new_web_inv: "web_inv sid new_web_client"
  by (simp add: web_inv_def new_web_client_def log_ok_def held_once_def cache_list_def cached_session_def event_keys_def map_filter_def)

lemma run_web_inv: "run_events (web_step sid) new_web_client es = Some w \<Longrightarrow> web_inv sid w"
  by (erule web_client.run_keeps) (simp_all add: new_web_inv list_all_iff)

lemma run_kept_up: "web_inv sid w \<Longrightarrow> run_events (web_step sid) w es = Some v \<Longrightarrow> kept_up sid w v"
proof (induction es arbitrary: w)
  case (Cons e es)
  then obtain u where u: "web_step sid w e = Some u" "run_events (web_step sid) u es = Some v" by (auto split: option.splits)
  from step_keeps [OF Cons.prems(1) u(1)] Cons.IH [OF _ u(2)] show ?case by (fastforce simp: kept_up_def dest: le_trans)
qed (simp add: kept_up_def)

section \<open>What the client shows\<close>

text \<open>The fields a summary brings that events decide.\<close>

definition registers :: "relay_session \<Rightarrow> SessionStatus \<times> string \<times> string option \<times> AgentName option \<times> bool \<times> bool \<times> string" where
  "registers c =
     (rs_status c, rs_phase c, rs_title c, rs_currentAgent c, rs_pendingDecision c, rs_archived c, rs_updatedAt c)"

lemma registers_caught_up: "registers_ok lg (length lg) c \<Longrightarrow> registers c = registers (server_at lg (length lg))"
  by (simp add: registers_ok_def tracked_def registers_def) (metis le_antisym)

lemma core_tracks:
  assumes "log_ok sid lg" and "core_ok sid lg c"
  shows "prefix (rs_events c) lg \<and>
         (rs_events c \<noteq> [] \<longrightarrow> (\<exists>u. materializeEvents (rs_events c) = Inr u \<and> derived c = derived u)) \<and>
         (rs_events c = lg \<longrightarrow> (\<exists>v. materializeEvents lg = Inr v \<and> registers c = registers v))"
proof -
  define n where "n = length (rs_events c)"
  have n: "n \<le> length lg" "rs_events c = take n lg" "derived c = derived (server_at lg n)" "registers_ok lg n c" "lg \<noteq> []"
    using assms(2) by (simp_all add: core_ok_def Let_def n_def)
  have events: "rs_events c \<noteq> [] \<Longrightarrow> materializeEvents (rs_events c) = Inr (server_at lg n)"
    using materialized_at [OF assms(1), of n] n by (cases n) auto
  have all: "registers c = registers (server_at lg (length lg))" if "rs_events c = lg"
    using that n(4) registers_caught_up [of lg c] by (simp add: n_def)
  have "materializeEvents lg = Inr (server_at lg (length lg))"
    using materialized_at [OF assms(1), of "length lg"] n(5) by simp
  with events all n(2,3) take_is_prefix [of n lg] show ?thesis by auto
qed

text \<open>C7. Whatever the order in which events are appended, summaries and snapshots arrive, and the stream sends, resumes, flushes
and closes: the events of the cached session are a prefix of the log of the server, its runs, artifacts, decisions and
rounds are those of that prefix, and when it has all events its status, phase, title, agent and flags are the server's.\<close>

theorem web_cache_tracks_log:
  assumes "run_events (web_step sid) new_web_client es = Some w" and "cached_session sid w = Some s"
  shows "prefix (cs_events s) (wc_log w) \<and>
         (cs_events s \<noteq> [] \<longrightarrow> (\<exists>u. materializeEvents (cs_events s) = Inr u \<and> derived (cs_core s) = derived u)) \<and>
         (cs_events s = wc_log w \<longrightarrow> (\<exists>v. materializeEvents (wc_log w) = Inr v \<and> registers (cs_core s) = registers v))"
  using core_tracks [of sid "wc_log w" "cs_core s"] run_web_inv [OF assms(1)] assms(2) by (simp add: web_inv_def cs_events_def)

definition sample_traffic :: "web_event list" where
  "sample_traffic =
     [ServerAppends sample_created, SummariesArrive [] 1 0 None [], StreamOpens, ServerAppends renamed_event, StreamSends,
      SnapshotArrives 1, ServerAppends decision_event, StreamSends, StreamSends, StreamResumes 1, StreamSends, Flushes]"

lemma sample_traffic_runs:
  "\<exists>w s st. run_events (web_step ''s1'') new_web_client sample_traffic = Some w \<and> cached_session ''s1'' w = Some s \<and> wc_stream w = Some st"
proof -
  have "case run_events (web_step ''s1'') new_web_client sample_traffic of None \<Rightarrow> False
        | Some w \<Rightarrow> cached_session ''s1'' w \<noteq> None \<and> wc_stream w \<noteq> None"
    by code_simp
  then show ?thesis by (auto split: option.splits)
qed

theorem web_cache_tracks_log_witness:
  "\<exists>w s. run_events (web_step ''s1'') new_web_client sample_traffic = Some w \<and> cached_session ''s1'' w = Some s \<and>
     prefix (cs_events s) (wc_log w)"
  using sample_traffic_runs web_cache_tracks_log by blast

lemma sends_on:
  "web_inv sid w \<Longrightarrow> wc_stream w = Some st \<Longrightarrow> es_position st + k \<le> length (wc_log w) \<Longrightarrow>
   \<exists>v st'. run_events (web_step sid) w (replicate k StreamSends) = Some v \<and> wc_stream v = Some st' \<and>
     es_position st' = es_position st + k \<and> wc_log v = wc_log w \<and> web_inv sid v"
proof (induction k arbitrary: w st)
  case (Suc k)
  let ?st = "(enqueue_one (wc_log w ! es_position st) st)\<lparr>es_position := es_position st + 1\<rparr>"
  let ?u = "w\<lparr>wc_stream := Some ?st\<rparr>"
  have step: "web_step sid w StreamSends = Some ?u" using Suc.prems by simp
  have "web_inv sid ?u" using step_keeps [OF Suc.prems(1) step] by simp
  from Suc.IH [OF this, of ?st] Suc.prems(3) step show ?case by simp
qed simp

text \<open>C8. An open stream catches up: when the server has sent the rest of its log and the client flushes, the cached session has
every event of the log, whatever happened before.\<close>

theorem web_cache_catches_up:
  assumes "run_events (web_step sid) new_web_client es = Some w" and "wc_stream w = Some st"
  shows "\<exists>v t. run_events (web_step sid) w (replicate (length (wc_log w) - es_position st) StreamSends @ [Flushes]) = Some v \<and>
           cached_session sid v = Some t \<and> cs_events t = wc_log w \<and> wc_log v = wc_log w"
proof -
  note inv = run_web_inv [OF assms(1)]
  have "es_position st \<le> length (wc_log w)" using inv assms(2) by (auto simp: web_inv_def stream_ok_def)
  then obtain u st' where u: "run_events (web_step sid) w (replicate (length (wc_log w) - es_position st) StreamSends) = Some u"
      "wc_stream u = Some st'" "es_position st' = length (wc_log w)" "wc_log u = wc_log w" "web_inv sid u"
    using sends_on [OF inv assms(2), of "length (wc_log w) - es_position st"] by auto
  from flush_applies [OF u(5,2)] obtain ss t st'' where f: "flush_stream sid (wc_cache u) st' = (Some ss, st'')"
      "find (\<lambda>s. cs_id s = sid) ss = Some t" "core_ok sid (wc_log u) (cs_core t)" "es_position st' \<le> length (cs_events t)"
    by blast
  have "cs_events t = wc_log w"
    using f(3,4) u(3,4) by (auto simp: core_ok_def Let_def cs_events_def)
  with u f show ?thesis by (auto simp: run_events_append cached_session_def)
qed

theorem web_cache_catches_up_witness:
  "\<exists>w st v t. run_events (web_step ''s1'') new_web_client sample_traffic = Some w \<and> wc_stream w = Some st \<and>
     run_events (web_step ''s1'') w (replicate (length (wc_log w) - es_position st) StreamSends @ [Flushes]) = Some v \<and>
     cached_session ''s1'' v = Some t \<and> cs_events t = wc_log w"
  using sample_traffic_runs web_cache_catches_up by blast

text \<open>The position of a new stream is just after the event it names to the server.\<close>

lemma stream_starts_after:
  assumes "run_events (web_step sid) new_web_client es = Some w" and "cached_session sid w = Some s"
  shows "lastSessionEventId (wc_cache w) sid =
     (if es_position (open_stream s) = 0 then None else Some (ev_id (wc_log w ! (es_position (open_stream s) - 1))))"
proof -
  have "core_ok sid (wc_log w) (cs_core s)" using run_web_inv [OF assms(1)] assms(2) by (simp add: web_inv_def)
  then have n: "cs_events s = take (length (cs_events s)) (wc_log w)" "length (cs_events s) \<le> length (wc_log w)"
    by (simp_all add: core_ok_def Let_def cs_events_def)
  then have "cs_events s \<noteq> [] \<Longrightarrow> last (cs_events s) = wc_log w ! (length (cs_events s) - 1)"
    by (metis One_nat_def diff_less last_conv_nth length_greater_0_conv nth_take zero_less_one)
  with assms(2) show ?thesis
    by (auto simp: lastSessionEventId_def cached_session_def open_stream_def split: option.splits)
qed

text \<open>A poll that was answered before a session existed removes the session from the list.\<close>

lemma stale_poll_drops_session:
  "sid \<notin> sm_id ` set ms \<Longrightarrow> sid \<notin> cs_id ` set (mergeSessionSummaries current ms)"
  using summaries_ids [of current ms] by (metis list.set_map)

text \<open>A cached session is never replaced by one with fewer events.\<close>

lemma web_cache_never_back:
  "run_events (web_step sid) new_web_client es = Some w \<Longrightarrow> run_events (web_step sid) w fs = Some v \<Longrightarrow>
   cached_session sid w = Some s \<Longrightarrow> \<exists>t. cached_session sid v = Some t \<and> length (cs_events s) \<le> length (cs_events t)"
  using run_kept_up [OF run_web_inv] by (auto simp: kept_up_def)

end
