(* ===== verification/List_Paging.thy ===== *)
theory List_Paging
  imports Decimal_Text Complex_Main
begin

text \<open>
  Pages of the lists and boards of the web client, and their query parameters: \<open>web/src/lib/pagination.ts\<close>. A requested
  page is a number or \<open>NaN\<close> (\<open>None\<close>). The pages of a list are a partition of it, the page buttons account for every
  page, and both parameters are read back as they were written.
\<close>

section \<open>Pages of a list\<close>

definition DEFAULT_PAGE_SIZE :: int where "DEFAULT_PAGE_SIZE = 25"

record 'a list_page =
  pg_items :: "'a list"
  pg_page :: int
  pg_pageCount :: int
  pg_total :: int
  pg_from :: int
  pg_to :: int
  pg_needed :: bool

definition page_size :: "rat \<Rightarrow> int" where "page_size pageSize = max 1 \<lfloor>pageSize\<rfloor>"

definition page_count :: "int \<Rightarrow> int \<Rightarrow> int" where
  "page_count rows sz = max 1 \<lceil>of_int rows / (of_int sz :: rat)\<rceil>"

definition clamped_page :: "rat option \<Rightarrow> int \<Rightarrow> int" where
  "clamped_page requested pageCount =
     (let floored = (case requested of None \<Rightarrow> 1 | Some r \<Rightarrow> if \<lfloor>r\<rfloor> = 0 then 1 else \<lfloor>r\<rfloor>)
      in min (max 1 floored) pageCount)"

definition paginate :: "'a list \<Rightarrow> rat option \<Rightarrow> rat \<Rightarrow> 'a list_page" where
  "paginate items requestedPage pageSize =
     (let rows = int (length items); sz = page_size pageSize; pageCount = page_count rows sz;
          page = clamped_page requestedPage pageCount; start = (page - 1) * sz;
          slice = take (nat sz) (drop (nat start) items)
      in \<lparr>pg_items = slice, pg_page = page, pg_pageCount = pageCount, pg_total = rows,
          pg_from = (if rows = 0 then 0 else start + 1), pg_to = (if rows = 0 then 0 else start + int (length slice)),
          pg_needed = (pageCount > 1)\<rparr>)"

section \<open>Page buttons\<close>

datatype page_button = PageNumber int | PageGap

fun page_buttons :: "int option \<Rightarrow> int list \<Rightarrow> page_button list" where
  "page_buttons previous [] = []"
| "page_buttons previous (p # ps) =
     (case previous of
        None \<Rightarrow> []
      | Some q \<Rightarrow> if p - q = 2 then [PageNumber (q + 1)] else if p - q > 2 then [PageGap] else []) @
     PageNumber p # page_buttons (Some p) ps"

definition pageNumbers :: "int \<Rightarrow> int \<Rightarrow> int \<Rightarrow> page_button list" where
  "pageNumbers current pageCount window =
     (if pageCount \<le> 1 then []
      else let span = window * 2 + 1;
               start = max 1 (min (current - window) (pageCount - span + 1));
               stop = min pageCount (start + span - 1)
           in page_buttons None (sorted_list_of_set ({1, pageCount} \<union> {start..stop})))"

section \<open>Query parameters\<close>

definition serializePageParam :: "int \<Rightarrow> string option" where
  "serializePageParam page = (if page > 1 then Some (show_int page) else None)"

definition MAX_PAGE :: int where "MAX_PAGE = 9007199254740991"

definition parsePageParam :: "string option \<Rightarrow> int" where
  "parsePageParam value =
     (case value of
        None \<Rightarrow> 1
      | Some v \<Rightarrow>
          if v = [] \<or> \<not> list_all digit v then 1
          else let page = int (decimal v) in if page \<le> MAX_PAGE \<and> 1 \<le> page then page else 1)"

definition LANE_PAGE_SIZE :: int where "LANE_PAGE_SIZE = 10"

type_synonym lane_pages = "string \<rightharpoonup> int"

definition lane_page :: "lane_pages \<Rightarrow> string \<Rightarrow> int" where
  "lane_page pages lane = (case pages lane of None \<Rightarrow> 1 | Some p \<Rightarrow> p)"

definition lane_entry :: "lane_pages \<Rightarrow> string \<Rightarrow> string" where
  "lane_entry pages lane = lane @ CHR '':'' # show_int (lane_page pages lane)"

definition serializeLanePages :: "lane_pages \<Rightarrow> string list \<Rightarrow> string option" where
  "serializeLanePages pages laneOrder =
     (let encoded = js_join '','' (map (lane_entry pages) (filter (\<lambda>lane. lane_page pages lane > 1) laneOrder))
      in if encoded = [] then None else Some encoded)"

text \<open>A missing second part of an entry is \<open>undefined\<close>.\<close>

definition parse_entry :: "string list \<Rightarrow> string \<Rightarrow> lane_pages \<Rightarrow> lane_pages" where
  "parse_entry laneOrder entry pages =
     (let parts = split_at (CHR '':'') entry; lane = hd parts;
          page = parsePageParam (if 1 < length parts then Some (parts ! 1) else None)
      in if lane \<in> set laneOrder \<and> page > 1 then pages(lane \<mapsto> page) else pages)"

definition parseLanePages :: "string option \<Rightarrow> string list \<Rightarrow> lane_pages" where
  "parseLanePages value laneOrder =
     (case value of
        None \<Rightarrow> Map.empty
      | Some v \<Rightarrow> if v = [] then Map.empty else fold (parse_entry laneOrder) (split_at (CHR '','') v) Map.empty)"

section \<open>The pages of a list are a partition of it\<close>

lemma page_size_pos: "0 < page_size p"
  by (simp add: page_size_def)

lemma page_count_bounds:
  assumes "0 < sz" and "0 < rows"
  shows "(page_count rows sz - 1) * sz < rows \<and> rows \<le> page_count rows sz * sz"
proof -
  let ?q = "of_int rows / (of_int sz :: rat)"
  have q: "0 < ?q" using assms by simp
  then have count: "page_count rows sz = \<lceil>?q\<rceil>" by (simp add: page_count_def)
  have "of_int (\<lceil>?q\<rceil> - 1) < ?q" "?q \<le> of_int \<lceil>?q\<rceil>" by linarith+
  moreover have "of_int rows = ?q * of_int sz" "(0 :: rat) < of_int sz" using assms(1) by simp_all
  ultimately have "of_int (\<lceil>?q\<rceil> - 1) * of_int sz < (of_int rows :: rat)" "(of_int rows :: rat) \<le> of_int \<lceil>?q\<rceil> * of_int sz"
    by (metis mult_strict_right_mono, metis mult_right_mono less_imp_le)
  then show ?thesis unfolding count by (metis of_int_le_iff of_int_less_iff of_int_mult)
qed

lemma clamped_page_bounds: "1 \<le> n \<Longrightarrow> 1 \<le> clamped_page r n \<and> clamped_page r n \<le> n"
  by (simp add: clamped_page_def Let_def)

lemma page_count_pos: "1 \<le> page_count rows sz"
  by (simp add: page_count_def)

text \<open>Blocks of a list, one after the other.\<close>

lemma blocks_take: "concat (map (\<lambda>k. take s (drop (k * s) xs)) [0 ..< n]) = take (n * s) xs"
proof (induction n)
  case (Suc n)
  have "take (Suc n * s) xs = take (n * s) xs @ take s (drop (n * s) xs)"
    by (simp add: add.commute [of s] take_add)
  with Suc show ?case by simp
qed simp

lemma pages_concat:
  "concat (map (\<lambda>k. pg_items (paginate xs (Some (of_nat (Suc k))) sz)) [0 ..< nat (page_count (int (length xs)) (page_size sz))]) = xs"
proof -
  let ?s = "page_size sz" and ?n = "page_count (int (length xs)) (page_size sz)"
  have n: "1 \<le> ?n" by (rule page_count_pos)
  have "pg_items (paginate xs (Some (of_nat (Suc k))) sz) = take (nat ?s) (drop (k * nat ?s) xs)" if "k < nat ?n" for k
  proof -
    have "clamped_page (Some (of_nat (Suc k))) ?n = int (Suc k)"
      using that n by (simp add: clamped_page_def Let_def)
    then have "nat ((clamped_page (Some (of_nat (Suc k))) ?n - 1) * ?s) = k * nat ?s"
      using page_size_pos [of sz] by (simp add: nat_mult_distrib)
    then show ?thesis by (simp add: paginate_def Let_def)
  qed
  then have "concat (map (\<lambda>k. pg_items (paginate xs (Some (of_nat (Suc k))) sz)) [0 ..< nat ?n]) =
      concat (map (\<lambda>k. take (nat ?s) (drop (k * nat ?s) xs)) [0 ..< nat ?n])"
    by (intro arg_cong [where f = concat] map_cong) simp_all
  also have "\<dots> = take (nat ?n * nat ?s) xs" by (rule blocks_take)
  also have "\<dots> = xs"
  proof (cases "xs = []")
    case False
    then have "int (length xs) \<le> ?n * ?s" using page_count_bounds [OF page_size_pos, of "int (length xs)" sz] by simp
    then have "length xs \<le> nat ?n * nat ?s" using n page_size_pos [of sz] by (simp flip: nat_mult_distrib)
    then show ?thesis by simp
  qed simp
  finally show ?thesis .
qed

text \<open>A page of a list that is not empty is not empty, whatever page was asked for.\<close>

lemma page_not_empty: "xs \<noteq> [] \<Longrightarrow> pg_items (paginate xs requested sz) \<noteq> []"
proof -
  assume xs: "xs \<noteq> []"
  let ?s = "page_size sz" and ?n = "page_count (int (length xs)) (page_size sz)"
  have p: "1 \<le> clamped_page requested ?n" "clamped_page requested ?n \<le> ?n"
    using clamped_page_bounds [OF page_count_pos] by blast+
  have "(clamped_page requested ?n - 1) * ?s \<le> (?n - 1) * ?s" using p page_size_pos [of sz] by (intro mult_right_mono) simp_all
  also have "\<dots> < int (length xs)" using page_count_bounds [OF page_size_pos, of "int (length xs)" sz] xs by simp
  finally have "(clamped_page requested ?n - 1) * ?s < int (length xs)" .
  moreover have "0 \<le> (clamped_page requested ?n - 1) * ?s" using p page_size_pos [of sz] by simp
  ultimately have "nat ((clamped_page requested ?n - 1) * ?s) < length xs" by linarith
  then show ?thesis using page_size_pos [of sz] by (simp add: paginate_def Let_def)
qed

text \<open>C32. The pages of a list, one after the other, are the list, whatever its length and the page size; a page that is asked for
and does not exist is replaced by one that does, and no page of a list with rows is empty.\<close>

theorem pages_partition:
  "concat (map (\<lambda>k. pg_items (paginate xs (Some (of_nat (Suc k))) sz)) [0 ..< nat (pg_pageCount (paginate xs requested sz))]) = xs \<and>
   1 \<le> pg_page (paginate xs requested sz) \<and> pg_page (paginate xs requested sz) \<le> pg_pageCount (paginate xs requested sz) \<and>
   (pg_items (paginate xs requested sz) = [] \<longleftrightarrow> xs = []) \<and>
   pg_to (paginate xs requested sz) - pg_from (paginate xs requested sz) + (if xs = [] then 0 else 1) =
     int (length (pg_items (paginate xs requested sz)))"
proof -
  have fields: "pg_pageCount (paginate xs requested sz) = page_count (int (length xs)) (page_size sz)"
    "pg_page (paginate xs requested sz) = clamped_page requested (page_count (int (length xs)) (page_size sz))"
    by (simp_all add: paginate_def Let_def)
  have "pg_to (paginate xs requested sz) - pg_from (paginate xs requested sz) + (if xs = [] then 0 else 1) =
      int (length (pg_items (paginate xs requested sz)))"
    by (simp add: paginate_def Let_def)
  moreover have "pg_items (paginate [] requested sz) = []" by (simp add: paginate_def Let_def)
  ultimately show ?thesis
    using pages_concat [of xs sz] clamped_page_bounds [OF page_count_pos] page_not_empty [of xs requested sz]
    by (auto simp only: fields)
qed

section \<open>The buttons account for every page\<close>

text \<open>The pages a row of buttons stands for, after the page \<open>p\<close>; a gap stands for those up to the next number.\<close>

fun spanned :: "int \<Rightarrow> page_button list \<Rightarrow> int list" where
  "spanned p (PageNumber q # bs) = q # spanned q bs"
| "spanned p (PageGap # PageNumber q # bs) = [p + 1 .. q - 1] @ q # spanned q bs"
| "spanned p _ = []"

text \<open>Every gap stands before a number and hides at least two pages.\<close>

fun wide_gaps :: "int \<Rightarrow> page_button list \<Rightarrow> bool" where
  "wide_gaps p [] = True"
| "wide_gaps p (PageNumber q # bs) = wide_gaps q bs"
| "wide_gaps p (PageGap # PageNumber q # bs) = (p + 2 < q \<and> wide_gaps q bs)"
| "wide_gaps p (PageGap # bs) = False"

lemma upto_snoc_split: "p < q \<Longrightarrow> q \<le> r \<Longrightarrow> [p + 1 .. q - 1] @ q # [q + 1 .. r] = [p + 1 .. r]" for p q r :: int
  using upto_split2 [of "p + 1" q r] upto_rec2 [of "p + 1" q] by simp

lemma buttons_span:
  "sorted_wrt (<) (q # ps) \<Longrightarrow>
   spanned q (page_buttons (Some q) ps) = [q + 1 .. last (q # ps)] \<and> wide_gaps q (page_buttons (Some q) ps)"
proof (induction ps arbitrary: q)
  case (Cons p ps)
  have IH: "spanned p (page_buttons (Some p) ps) = [p + 1 .. last (p # ps)]" "wide_gaps p (page_buttons (Some p) ps)"
    using Cons.IH [of p] Cons.prems by simp_all
  have "p \<le> last (p # ps)" using Cons.prems last_in_set [of "p # ps"] by (cases "ps = []") (auto intro: less_imp_le)
  moreover have "q < p" using Cons.prems by simp
  ultimately have whole: "[q + 1 .. p - 1] @ p # [p + 1 .. last (p # ps)] = [q + 1 .. last (p # ps)]" by (intro upto_snoc_split)
  consider "p = q + 1" | "p = q + 2" | "p - q > 2" using \<open>q < p\<close> by linarith
  then show ?case
  proof cases
    case 1
    with whole IH show ?thesis by simp
  next
    case 2
    then have "p - 1 = q + 1" by simp
    then have "[q + 1 .. p - 1] = [q + 1]" by (simp only: upto_single)
    with whole IH 2 show ?thesis by simp
  next
    case 3
    with whole IH show ?thesis by simp
  qed
qed simp

lemma buttons_numbers: "PageNumber p \<in> set (page_buttons prev ps)" if "p \<in> set ps"
  using that by (induction prev ps rule: page_buttons.induct) auto

text \<open>The page buttons stand for all pages in order, the current page is one of them, and a gap hides at least two pages.\<close>

theorem page_buttons_complete:
  assumes "1 < pageCount" and "1 \<le> current" and "current \<le> pageCount" and "0 \<le> window"
  shows "spanned 0 (pageNumbers current pageCount window) = [1 .. pageCount] \<and>
         wide_gaps 0 (pageNumbers current pageCount window) \<and> PageNumber current \<in> set (pageNumbers current pageCount window)"
proof -
  define start where "start = max 1 (min (current - window) (pageCount - (window * 2 + 1) + 1))"
  define stop where "stop = min pageCount (start + (window * 2 + 1) - 1)"
  define S where "S = {1, pageCount} \<union> {start..stop}"
  have buttons: "pageNumbers current pageCount window = page_buttons None (sorted_list_of_set S)"
    using assms(1) by (simp add: pageNumbers_def Let_def S_def stop_def start_def)
  have fin: "finite S" by (simp add: S_def)
  have range: "S \<subseteq> {1..pageCount}" using assms(1) by (auto simp: S_def start_def stop_def)
  have current: "current \<in> S" using assms by (auto simp: S_def start_def stop_def)
  obtain p ps where list: "sorted_list_of_set S = p # ps"
    using fin current by (cases "sorted_list_of_set S") (auto simp: sorted_list_of_set_eq_Nil_iff)
  have strict: "sorted_wrt (<) (p # ps)" using strict_sorted_list_of_set [of S] by (simp add: list)
  have set: "set (p # ps) = S" using set_sorted_list_of_set [OF fin] by (simp add: list)
  have "1 \<in> set (p # ps)" "pageCount \<in> set (p # ps)" unfolding set by (simp_all add: S_def)
  then have p: "p = 1" using strict set range by force
  have last: "last (p # ps) = pageCount"
  proof (rule antisym)
    show "last (p # ps) \<le> pageCount" using set range last_in_set [of "p # ps"] by auto
    have "\<forall>x \<in> set (p # ps). x \<le> last (p # ps)"
      using strict by (induction ps arbitrary: p) force+
    then show "pageCount \<le> last (p # ps)" using \<open>pageCount \<in> set (p # ps)\<close> by blast
  qed
  have "spanned 0 (page_buttons None (p # ps)) = 1 # [2 .. pageCount]"
    using buttons_span [OF strict] last p by simp
  also have "\<dots> = [1 .. pageCount]" using assms(1) upto_rec1 [of 1 pageCount] by simp
  finally show ?thesis
    using buttons_span [OF strict] buttons_numbers [of current "p # ps" None] current
    unfolding set [symmetric] by (simp add: buttons list p)
qed

theorem page_buttons_complete_witness:
  "spanned 0 (pageNumbers 5 10 1) = [1 .. 10] \<and> wide_gaps 0 (pageNumbers 5 10 1) \<and> PageNumber 5 \<in> set (pageNumbers 5 10 1)"
  by (rule page_buttons_complete) simp_all

section \<open>The parameters are read back\<close>

lemma page_param_roundtrip: "1 \<le> p \<Longrightarrow> p \<le> MAX_PAGE \<Longrightarrow> parsePageParam (serializePageParam p) = p"
  using show_nat_digits [of "nat p"]
  by (auto simp: serializePageParam_def parsePageParam_def show_int_def decimal_show_nat)

lemma shown_page: "1 < p \<Longrightarrow> p \<le> MAX_PAGE \<Longrightarrow> parsePageParam (Some (show_int p)) = p"
  using page_param_roundtrip [of p] by (simp add: serializePageParam_def)

definition plain_lane :: "string \<Rightarrow> bool" where
  "plain_lane lane \<longleftrightarrow> CHR '','' \<notin> set lane \<and> CHR '':'' \<notin> set lane"

lemma show_int_chars: "0 \<le> p \<Longrightarrow> c \<in> set (show_int p) \<Longrightarrow> digit c"
  by (auto simp: show_int_def dest: show_nat_chars)

lemma entry_chars: "plain_lane lane \<Longrightarrow> 1 < lane_page pages lane \<Longrightarrow> CHR '','' \<notin> set (lane_entry pages lane)"
  using show_int_chars [of "lane_page pages lane" "CHR '',''"] by (auto simp: plain_lane_def lane_entry_def digit_def)

lemma entry_read:
  assumes "plain_lane lane" and "lane \<in> set order" and "1 < lane_page pages lane" and "lane_page pages lane \<le> MAX_PAGE"
  shows "parse_entry order (lane_entry pages lane) m = m(lane \<mapsto> lane_page pages lane)"
proof -
  have colon: "CHR '':'' \<notin> set (show_int (lane_page pages lane))"
    using show_int_chars [of "lane_page pages lane" "CHR '':''"] assms(3) by (auto simp: digit_def)
  have "split_at (CHR '':'') (lane_entry pages lane) = [lane, show_int (lane_page pages lane)]"
    using assms(1) split_at_append [of "CHR '':''" lane] split_at_single [OF colon] by (simp add: lane_entry_def plain_lane_def)
  then show ?thesis using assms shown_page [OF assms(3,4)] by (simp add: parse_entry_def Let_def)
qed

lemma entries_read:
  "\<forall>lane \<in> set ls. plain_lane lane \<and> lane \<in> set order \<and> 1 < lane_page pages lane \<and> lane_page pages lane \<le> MAX_PAGE \<Longrightarrow>
   fold (parse_entry order) (map (lane_entry pages) ls) m = (\<lambda>l. if l \<in> set ls then Some (lane_page pages l) else m l)"
  by (induction ls arbitrary: m) (auto simp: entry_read fun_eq_iff)

text \<open>The lanes that are not on their first page are read back from the query parameter with their pages, and no others, when
the names have no comma or colon and no page number is beyond the safe integers.\<close>

theorem lane_pages_roundtrip:
  assumes "list_all (\<lambda>lane. plain_lane lane \<and> lane_page pages lane \<le> MAX_PAGE) laneOrder"
  shows "parseLanePages (serializeLanePages pages laneOrder) laneOrder =
    (\<lambda>lane. if lane \<in> set laneOrder \<and> 1 < lane_page pages lane then Some (lane_page pages lane) else None)"
proof -
  define ls where "ls = filter (\<lambda>lane. lane_page pages lane > 1) laneOrder"
  have ok: "\<forall>lane \<in> set ls. plain_lane lane \<and> lane \<in> set laneOrder \<and> 1 < lane_page pages lane \<and> lane_page pages lane \<le> MAX_PAGE"
    using assms by (auto simp: ls_def list_all_iff)
  show ?thesis
  proof (cases "ls = []")
    case True
    then show ?thesis
      by (auto simp: serializeLanePages_def parseLanePages_def ls_def filter_empty_conv fun_eq_iff)
  next
    case False
    let ?es = "map (lane_entry pages) ls"
    have "js_join '','' ?es \<noteq> []" using False by (cases ls; cases "tl ls") (simp_all add: lane_entry_def)
    moreover have "split_at (CHR '','') (js_join '','' ?es) = ?es"
      by (rule split_join) (use False ok entry_chars in auto)
    ultimately show ?thesis
      using entries_read [OF ok, of Map.empty]
      by (simp add: serializeLanePages_def parseLanePages_def flip: ls_def) (auto simp: ls_def fun_eq_iff)
  qed
qed

theorem lane_pages_roundtrip_witness:
  "parseLanePages (serializeLanePages [''review'' \<mapsto> 3, ''done'' \<mapsto> 1] [''review'', ''done'']) [''review'', ''done''] =
   (\<lambda>lane. if lane \<in> set [''review'', ''done''] \<and> 1 < lane_page [''review'' \<mapsto> 3, ''done'' \<mapsto> 1] lane
     then Some (lane_page [''review'' \<mapsto> 3, ''done'' \<mapsto> 1] lane) else None)"
  by (rule lane_pages_roundtrip) (simp add: plain_lane_def lane_page_def MAX_PAGE_def)

end
