(* ===== verification/Url_Text.thy ===== *)
theory Url_Text
  imports Utf8_Text Decimal_Text
begin

text \<open>
  The text forms of addresses the web client uses: \<open>encodeURIComponent\<close>, \<open>decodeURIComponent\<close> and
  \<open>URLSearchParams\<close>, for text with code units below 256. What is encoded is decoded again, and encoded text holds
  none of the separators. A decoded character outside the model reads as one \<open>?\<close> for each of its code units, or
  for each of its bytes in query parameters.
\<close>

section \<open>Percent encoding\<close>

definition hex_char :: "nat \<Rightarrow> char" where "hex_char n = ''0123456789ABCDEF'' ! n"

definition hex_value :: "char \<Rightarrow> nat option" where
  "hex_value c =
     (let n = of_char c
      in if 48 \<le> n \<and> n \<le> 57 then Some (n - 48) else if 65 \<le> n \<and> n \<le> 70 then Some (n - 55)
         else if 97 \<le> n \<and> n \<le> 102 then Some (n - 87) else None)"

definition percent :: "nat \<Rightarrow> string" where
  "percent b = [CHR ''%'', hex_char (b div 16), hex_char (b mod 16)]"

definition alphanumeric :: "char \<Rightarrow> bool" where
  "alphanumeric c =
     (let n = (of_char c :: nat) in (48 \<le> n \<and> n \<le> 57) \<or> (65 \<le> n \<and> n \<le> 90) \<or> (97 \<le> n \<and> n \<le> 122))"

definition percent_encoded :: "(char \<Rightarrow> bool) \<Rightarrow> string \<Rightarrow> string" where
  "percent_encoded plain s = concat (map (\<lambda>b. if plain (char_of b) then [char_of b] else percent b) (utf8_bytes s))"

definition uri_plain :: "char \<Rightarrow> bool" where
  "uri_plain c \<longleftrightarrow> alphanumeric c \<or> c \<in> set ''-_.!~*()'' \<or> (of_char c :: nat) = 39"

definition encodeURIComponent :: "string \<Rightarrow> string" where
  "encodeURIComponent s = percent_encoded uri_plain s"

section \<open>Decoding\<close>

text \<open>Characters and escaped bytes; an incomplete escape is an error.\<close>

fun uri_units :: "string \<Rightarrow> (char + nat) list option" where
  "uri_units [] = Some []"
| "uri_units (c # s) =
     (if c \<noteq> CHR ''%'' then map_option ((#) (Inl c)) (uri_units s)
      else case s of
             a # b # t \<Rightarrow>
               (case (hex_value a, hex_value b) of
                  (Some h, Some l) \<Rightarrow> map_option ((#) (Inr (h * 16 + l))) (uri_units t)
                | _ \<Rightarrow> None)
           | _ \<Rightarrow> None)"

definition continuations :: "nat \<Rightarrow> nat" where
  "continuations b =
     (if 194 \<le> b \<and> b < 224 then 1 else if 224 \<le> b \<and> b < 240 then 2 else if 240 \<le> b \<and> b < 245 then 3 else 0)"

text \<open>The second byte excludes overlong forms, surrogates and code points beyond the last.\<close>

definition second_byte_ok :: "nat \<Rightarrow> nat \<Rightarrow> bool" where
  "second_byte_ok b c \<longleftrightarrow>
     (b = 224 \<longrightarrow> 160 \<le> c) \<and> (b = 237 \<longrightarrow> c < 160) \<and> (b = 240 \<longrightarrow> 144 \<le> c) \<and> (b = 244 \<longrightarrow> c < 144)"

definition continuation_unit :: "char + nat \<Rightarrow> bool" where
  "continuation_unit u = (case u of Inl _ \<Rightarrow> False | Inr c \<Rightarrow> 128 \<le> c \<and> c < 192)"

fun unit_byte :: "char + nat \<Rightarrow> nat" where
  "unit_byte (Inl c) = 0"
| "unit_byte (Inr b) = b"

definition sequence_char :: "nat \<Rightarrow> (char + nat) list \<Rightarrow> string" where
  "sequence_char b us =
     (if b < 196 then [char_of ((b - 192) * 64 + (unit_byte (hd us) - 128))] else if length us = 3 then ''??'' else ''?'')"

function units_text :: "(char + nat) list \<Rightarrow> string option" where
  "units_text [] = Some []"
| "units_text (Inl c # us) = map_option ((#) c) (units_text us)"
| "units_text (Inr b # us) =
     (if b < 128 then map_option ((#) (char_of b)) (units_text us)
      else let n = continuations b; more = take n us
           in if n = 0 \<or> length more < n \<or> \<not> list_all continuation_unit more \<or> \<not> second_byte_ok b (unit_byte (hd more)) then None
              else map_option ((@) (sequence_char b more)) (units_text (drop n us)))"
  by pat_completeness auto

termination by (relation "measure length") auto

definition decodeURIComponent :: "string \<Rightarrow> string option" where
  "decodeURIComponent s = Option.bind (uri_units s) units_text"

section \<open>Query parameters\<close>

type_synonym query_params = "(string \<times> string) list"

definition form_plain :: "char \<Rightarrow> bool" where
  "form_plain c \<longleftrightarrow> alphanumeric c \<or> c \<in> set ''*-._''"

definition form_encode :: "string \<Rightarrow> string" where
  "form_encode s =
     concat (map (\<lambda>b. if b = 32 then ''+'' else if form_plain (char_of b) then [char_of b] else percent b) (utf8_bytes s))"

text \<open>An escape that is not complete stands for itself.\<close>

fun form_bytes :: "string \<Rightarrow> nat list" where
  "form_bytes [] = []"
| "form_bytes (c # s) =
     (if c = CHR ''+'' then 32 # form_bytes s
      else if c \<noteq> CHR ''%'' then utf8_bytes [c] @ form_bytes s
      else case s of
             a # b # t \<Rightarrow>
               (case (hex_value a, hex_value b) of
                  (Some h, Some l) \<Rightarrow> (h * 16 + l) # form_bytes t
                | _ \<Rightarrow> 37 # form_bytes s)
           | _ \<Rightarrow> 37 # form_bytes s)"

definition form_decode :: "string \<Rightarrow> string" where "form_decode s = utf8_text (form_bytes s)"

definition query_pair :: "string \<Rightarrow> string \<times> string" where
  "query_pair part =
     (form_decode (takeWhile (\<lambda>c. c \<noteq> CHR ''='') part), form_decode (drop 1 (dropWhile (\<lambda>c. c \<noteq> CHR ''='') part)))"

definition parse_query :: "string \<Rightarrow> query_params" where
  "parse_query search =
     (let body = (if js_starts_with search ''?'' then drop 1 search else search)
      in map query_pair (filter (\<lambda>part. part \<noteq> []) (split_at (CHR ''&'') body)))"

definition query_text :: "query_params \<Rightarrow> string" where
  "query_text ps = js_join ''&'' (map (\<lambda>(k, v). form_encode k @ CHR ''='' # form_encode v) ps)"

definition query_get :: "query_params \<Rightarrow> string \<Rightarrow> string option" where
  "query_get ps k = map_of ps k"

definition query_set :: "string \<Rightarrow> string \<Rightarrow> query_params \<Rightarrow> query_params" where
  "query_set k v ps =
     (if k \<in> fst ` set ps
      then takeWhile (\<lambda>p. fst p \<noteq> k) ps @ (k, v) # filter (\<lambda>p. fst p \<noteq> k) (drop 1 (dropWhile (\<lambda>p. fst p \<noteq> k) ps))
      else ps @ [(k, v)])"

definition query_delete :: "string \<Rightarrow> query_params \<Rightarrow> query_params" where
  "query_delete k ps = filter (\<lambda>p. fst p \<noteq> k) ps"

section \<open>What is encoded is decoded\<close>

lemma hex_value_char: "n < 16 \<Longrightarrow> hex_value (hex_char n) = Some n"
proof -
  have "list_all (\<lambda>n. hex_value (hex_char n) = Some n) [0 ..< 16]" by code_simp
  then show "n < 16 \<Longrightarrow> ?thesis" by (simp add: list_all_iff)
qed

lemma hex_char_alphanumeric: "n < 16 \<Longrightarrow> alphanumeric (hex_char n)"
proof -
  have "list_all (\<lambda>n. alphanumeric (hex_char n)) [0 ..< 16]" by code_simp
  then show "n < 16 \<Longrightarrow> ?thesis" by (simp add: list_all_iff)
qed

lemma byte_hex: "b < 256 \<Longrightarrow> b div 16 < 16 \<and> b mod 16 < (16 :: nat)"
  using byte_high(2) by simp

lemma plain_ascii: "alphanumeric c \<Longrightarrow> (of_char c :: nat) < 128"
  by (auto simp: alphanumeric_def Let_def)

lemma uri_plain_ascii: "uri_plain c \<Longrightarrow> (of_char c :: nat) < 128 \<and> c \<noteq> CHR ''%''"
  by (auto simp: uri_plain_def alphanumeric_def Let_def)

lemma form_plain_ascii: "form_plain c \<Longrightarrow> (of_char c :: nat) < 128 \<and> c \<noteq> CHR ''%'' \<and> c \<noteq> CHR ''+''"
  by (auto simp: form_plain_def alphanumeric_def Let_def)

lemma utf8_bytes_simps [simp]:
  "utf8_bytes [] = []"
  "utf8_bytes (c # cs) =
     (if (of_char c :: nat) < 128 then [of_char c] else [192 + of_char c div 64, 128 + of_char c mod 64]) @ utf8_bytes cs"
  by (simp_all add: utf8_bytes_def Let_def)

lemma high_not_plain:
  assumes plain: "\<And>c. plain c \<Longrightarrow> (of_char c :: nat) < 128" and "128 \<le> b" and "(b :: nat) < 256"
  shows "\<not> plain (char_of b)"
proof
  assume "plain (char_of b)"
  then have "of_char (char_of b :: char) < (128 :: nat)" by (rule plain)
  with assms(2,3) show False by simp
qed

lemma uri_units_percent: "b < 256 \<Longrightarrow> uri_units (percent b @ s) = map_option ((#) (Inr b)) (uri_units s)"
  using byte_hex [of b] by (simp add: percent_def hex_value_char div_mult_mod_eq)

lemma uri_units_encoded:
  "list_all (\<lambda>b. b < 256) bs \<Longrightarrow>
   uri_units (concat (map (\<lambda>b. if uri_plain (char_of b) then [char_of b] else percent b) bs)) =
     Some (map (\<lambda>b. if uri_plain (char_of b) then Inl (char_of b) else Inr b) bs)"
proof (induction bs)
  case (Cons b bs)
  then show ?case using uri_plain_ascii [of "char_of b"] by (simp add: uri_units_percent)
qed simp

lemma units_text_encoded:
  "units_text (map (\<lambda>b. if uri_plain (char_of b) then Inl (char_of b) else Inr b) (utf8_bytes s)) = Some s"
proof (induction s)
  case (Cons c cs)
  let ?n = "of_char c :: nat"
  show ?case
  proof (cases "?n < 128")
    case True
    with Cons show ?thesis by simp
  next
    case False
    have low: "?n mod 64 < 64" by simp
    have high: "2 \<le> ?n div 64" "?n div 64 < 4"
      using False byte_high(3) [OF of_char_less [of c]] by (simp_all add: div_le_mono [of 128 _ 64, simplified])
    have plain: "\<not> uri_plain (char_of (192 + ?n div 64))" "\<not> uri_plain (char_of (128 + ?n mod 64))"
      using high low uri_plain_ascii by (intro high_not_plain; force)+
    have "char_of (?n div 64 * 64 + ?n mod 64) = c" by (simp add: div_mult_mod_eq)
    with Cons False high low plain show ?thesis
      by (simp add: continuations_def continuation_unit_def second_byte_ok_def sequence_char_def)
  qed
qed simp

lemma decodeURIComponent_encode: "decodeURIComponent (encodeURIComponent s) = Some s"
  by (simp add: decodeURIComponent_def encodeURIComponent_def percent_encoded_def uri_units_encoded [OF utf8_bytes_bound]
      units_text_encoded)

lemma encodeURIComponent_eq [simp]: "encodeURIComponent s = encodeURIComponent t \<longleftrightarrow> s = t"
  by (metis decodeURIComponent_encode option.inject)

lemma encodeURIComponent_Nil [simp]: "encodeURIComponent s = [] \<longleftrightarrow> s = []"
proof -
  have "encodeURIComponent [] = []" by (simp add: encodeURIComponent_def percent_encoded_def)
  then show ?thesis using encodeURIComponent_eq [of s "[]"] by simp
qed

lemma encodeURIComponent_plain: "list_all uri_plain s \<Longrightarrow> encodeURIComponent s = s"
proof (induction s)
  case (Cons c cs)
  then have "utf8_bytes (c # cs) = of_char c # utf8_bytes cs" using uri_plain_ascii [of c] by simp
  with Cons show ?case by (simp add: encodeURIComponent_def percent_encoded_def del: utf8_bytes_simps)
qed (simp add: encodeURIComponent_def percent_encoded_def)

lemma percent_chars: "b < 256 \<Longrightarrow> c \<in> set (percent b) \<Longrightarrow> c = CHR ''%'' \<or> alphanumeric c"
  using byte_hex [of b] by (auto simp: percent_def hex_char_alphanumeric)

lemma encodeURIComponent_chars: "c \<in> set (encodeURIComponent s) \<Longrightarrow> uri_plain c \<or> c = CHR ''%''"
  using utf8_bytes_bound [of s]
  by (auto simp: encodeURIComponent_def percent_encoded_def list_all_iff uri_plain_def dest!: percent_chars split: if_splits)

section \<open>Query parameters are read back\<close>

lemma form_encode_chars: "c \<in> set (form_encode s) \<Longrightarrow> form_plain c \<or> c = CHR ''%'' \<or> c = CHR ''+''"
  using utf8_bytes_bound [of s]
  by (auto simp: form_encode_def list_all_iff form_plain_def dest!: percent_chars split: if_splits)

lemma form_bytes_encoded:
  "list_all (\<lambda>b. b < 256) bs \<Longrightarrow>
   form_bytes (concat (map (\<lambda>b. if b = 32 then ''+'' else if form_plain (char_of b) then [char_of b] else percent b) bs)) = bs"
proof (induction bs)
  case (Cons b bs)
  then have b: "b < 256" by simp
  consider "b = 32" | "b \<noteq> 32" "form_plain (char_of b)" | "b \<noteq> 32" "\<not> form_plain (char_of b)" by blast
  then show ?case
  proof cases
    case 2
    with Cons b show ?thesis using form_plain_ascii [of "char_of b"] by simp
  next
    case 3
    with Cons b show ?thesis using byte_hex [of b] by (simp add: percent_def hex_value_char div_mult_mod_eq)
  qed (use Cons in simp)
qed simp

lemma form_decode_encode: "form_decode (form_encode s) = s"
  by (simp add: form_decode_def form_encode_def form_bytes_encoded [OF utf8_bytes_bound] utf8_text_bytes)

lemma separator_not_encoded: "c \<in> set ''=&?'' \<Longrightarrow> c \<notin> set (form_encode s)"
  using form_encode_chars [of c s] by (auto simp: form_plain_def alphanumeric_def Let_def)

lemma query_pair_text: "query_pair (form_encode k @ CHR ''='' # form_encode v) = (k, v)"
proof -
  have k: "\<forall>c \<in> set (form_encode k). c \<noteq> CHR ''=''" using separator_not_encoded [of "CHR ''=''" k] by auto
  have "takeWhile (\<lambda>c. c \<noteq> CHR ''='') (form_encode k @ CHR ''='' # form_encode v) = form_encode k"
       "dropWhile (\<lambda>c. c \<noteq> CHR ''='') (form_encode k @ CHR ''='' # form_encode v) = CHR ''='' # form_encode v"
    using k by (simp_all add: takeWhile_append2 dropWhile_append2)
  then show ?thesis by (simp add: query_pair_def form_decode_encode)
qed

lemma query_part_chars:
  "CHR ''&'' \<notin> set ((\<lambda>(k, v). form_encode k @ CHR ''='' # form_encode v) p)"
  "(\<lambda>(k, v). form_encode k @ CHR ''='' # form_encode v) p \<noteq> []"
  "hd ((\<lambda>(k, v). form_encode k @ CHR ''='' # form_encode v) p) \<noteq> CHR ''?''"
proof -
  obtain k v where p: "p = (k, v)" by (cases p)
  show "CHR ''&'' \<notin> set ((\<lambda>(k, v). form_encode k @ CHR ''='' # form_encode v) p)"
    using separator_not_encoded [of "CHR ''&''"] by (simp add: p)
  show "(\<lambda>(k, v). form_encode k @ CHR ''='' # form_encode v) p \<noteq> []" by (simp add: p)
  show "hd ((\<lambda>(k, v). form_encode k @ CHR ''='' # form_encode v) p) \<noteq> CHR ''?''"
    using separator_not_encoded [of "CHR ''?''" k] by (cases "form_encode k") (auto simp: p)
qed

lemma query_text_mark: "\<not> prefix ''?'' (query_text ps)"
proof (cases ps)
  case (Cons p qs)
  then have "hd (query_text ps) \<noteq> CHR ''?''"
    using query_part_chars(2,3) [of p] by (cases qs) (auto simp: query_text_def hd_append)
  then show ?thesis by (auto simp: prefix_def)
qed (simp add: query_text_def)

lemma query_roundtrip: "parse_query (query_text ps) = ps"
proof (cases "ps = []")
  case False
  let ?part = "\<lambda>(k, v). form_encode k @ CHR ''='' # form_encode v"
  have "split_at (CHR ''&'') (query_text ps) = map ?part ps"
    unfolding query_text_def using False query_part_chars(1) by (intro split_join) auto
  moreover have "query_pair (?part p) = p" for p by (cases p) (simp add: query_pair_text)
  then have "map query_pair (filter (\<lambda>q. q \<noteq> []) (map ?part ps)) = ps"
    using query_part_chars(2) by (simp add: filter_map o_def)
  ultimately show ?thesis using query_text_mark by (simp add: parse_query_def Let_def)
qed (simp add: query_text_def parse_query_def)

lemma parse_marked: "\<not> prefix ''?'' s \<Longrightarrow> parse_query (CHR ''?'' # s) = parse_query s"
  by (simp add: parse_query_def)

end
