(* ===== verification/App_Route.thy ===== *)
theory App_Route
  imports Url_Text Js_Json
begin

text \<open>
  Addresses of the web client: \<open>web/src/lib/appRoute.ts\<close>. The path of a page and the state it stands for, and the
  query parameters a path keeps. \<open>URL\<close> and the location of the window are arguments; the query parameters themselves
  are those of \<open>Url_Text\<close>.
\<close>

section \<open>Paths and states\<close>

datatype app_route = MainRoute | ProjectsRoute | BacklogRoute | RoutineRoute | AgentsRoute | TeamsRoute | ChannelsRoute | AdminRoute
  | ComputerRoute

datatype mobile_view = ThreadsView | ChatView

definition WORK_PATHS :: "(app_route \<times> string) list" where
  "WORK_PATHS =
     [(BacklogRoute, ''/backlog''), (RoutineRoute, ''/routines''), (AgentsRoute, ''/agents''), (TeamsRoute, ''/teams''),
      (ChannelsRoute, ''/channels''), (AdminRoute, ''/admin''), (ComputerRoute, ''/computer'')]"

definition WORK_ROUTES :: "(string \<times> app_route) list" where
  "WORK_ROUTES = map (\<lambda>(r, p). (p, r)) WORK_PATHS"

text \<open>Absent and \<open>null\<close> fields are \<open>None\<close>, absent flags \<open>False\<close>.\<close>

record app_location =
  al_route :: app_route
  al_mobileView :: mobile_view
  al_sessionId :: "string option"
  al_projectId :: "string option"
  al_agentId :: "string option"
  al_teamWorkspaceId :: "string option"
  al_composingNew :: bool
  al_login :: bool
  al_notFound :: bool

definition plain_location :: "app_route \<Rightarrow> mobile_view \<Rightarrow> app_location" where
  "plain_location r v =
     \<lparr>al_route = r, al_mobileView = v, al_sessionId = None, al_projectId = None, al_agentId = None, al_teamWorkspaceId = None,
      al_composingNew = False, al_login = False, al_notFound = False\<rparr>"

definition decodeSegment :: "string \<Rightarrow> string option" where
  "decodeSegment segment =
     (if segment = [] then None
      else case decodeURIComponent segment of None \<Rightarrow> Some segment | Some s \<Rightarrow> Some s)"

definition pathSegments :: "string \<Rightarrow> string list" where
  "pathSegments pathname =
     (let trimmed = rev (dropWhile (\<lambda>c. c = CHR ''/'') (rev (dropWhile (\<lambda>c. c = CHR ''/'') pathname)))
      in filter (\<lambda>s. s \<noteq> []) (split_at (CHR ''/'') trimmed))"

definition normalized_path :: "string \<Rightarrow> string" where
  "normalized_path pathname =
     (if pathname = ''/'' then ''/threads'' else CHR ''/'' # js_join ''/'' (pathSegments pathname))"

definition work_location :: "string \<Rightarrow> app_location" where
  "work_location normalized =
     (case map_of WORK_ROUTES normalized of
        Some r \<Rightarrow> plain_location r ChatView
      | None \<Rightarrow> (plain_location MainRoute ChatView)\<lparr>al_notFound := True\<rparr>)"

text \<open>The conditions on head, second and rest: a missing second segment is \<open>undefined\<close>, and no segment is empty.\<close>

definition segments_location :: "string list \<Rightarrow> string \<Rightarrow> app_location" where
  "segments_location segments normalized =
     (case segments of
        [head, second] \<Rightarrow>
          if head = ''threads'' \<and> second = ''new'' then (plain_location MainRoute ChatView)\<lparr>al_composingNew := True\<rparr>
          else if head = ''threads'' then (plain_location MainRoute ChatView)\<lparr>al_sessionId := decodeSegment second\<rparr>
          else if head = ''projects'' then (plain_location ProjectsRoute ChatView)\<lparr>al_projectId := decodeSegment second\<rparr>
          else if head = ''agents'' then (plain_location AgentsRoute ChatView)\<lparr>al_agentId := decodeSegment second\<rparr>
          else if head = ''teams'' then (plain_location TeamsRoute ChatView)\<lparr>al_teamWorkspaceId := decodeSegment second\<rparr>
          else work_location normalized
      | [head] \<Rightarrow>
          if head = ''projects'' then plain_location ProjectsRoute ThreadsView else work_location normalized
      | [head, second, third] \<Rightarrow>
          if head = ''projects'' \<and> third = ''new''
          then (plain_location ProjectsRoute ChatView)\<lparr>al_projectId := decodeSegment second, al_composingNew := True\<rparr>
          else work_location normalized
      | [head, second, third, fourth] \<Rightarrow>
          if head = ''projects'' \<and> third = ''threads''
          then (plain_location ProjectsRoute ChatView)\<lparr>al_sessionId := decodeSegment fourth, al_projectId := decodeSegment second\<rparr>
          else work_location normalized
      | _ \<Rightarrow> work_location normalized)"

definition parseAppPath :: "string \<Rightarrow> app_location" where
  "parseAppPath pathname =
     (let normalized = normalized_path pathname
      in if normalized = ''/login'' then (plain_location MainRoute ChatView)\<lparr>al_login := True\<rparr>
         else if normalized = ''/threads'' then plain_location MainRoute ThreadsView
         else segments_location (pathSegments normalized) normalized)"

text \<open>An empty text is false like \<open>null\<close>.\<close>

definition truthy :: "string option \<Rightarrow> string option" where
  "truthy v = (case v of Some s \<Rightarrow> if s = [] then None else Some s | None \<Rightarrow> None)"

definition project_path :: "app_location \<Rightarrow> string" where
  "project_path st =
     (case truthy (al_projectId st) of
        None \<Rightarrow> ''/projects''
      | Some p \<Rightarrow>
          let path = ''/projects/'' @ encodeURIComponent p
          in if al_mobileView st = ThreadsView then path
             else if al_composingNew st then path @ ''/new''
             else case truthy (al_sessionId st) of Some s \<Rightarrow> path @ ''/threads/'' @ encodeURIComponent s | None \<Rightarrow> path)"

definition main_path :: "app_location \<Rightarrow> string" where
  "main_path st =
     (if al_mobileView st = ThreadsView then ''/threads''
      else if al_composingNew st then ''/threads/new''
      else case truthy (al_sessionId st) of Some s \<Rightarrow> ''/threads/'' @ encodeURIComponent s | None \<Rightarrow> ''/threads'')"

definition route_path :: "app_location \<Rightarrow> string" where
  "route_path st =
     (if al_route st = ProjectsRoute then project_path st
      else case map_of WORK_PATHS (al_route st) of Some p \<Rightarrow> p | None \<Rightarrow> main_path st)"

text \<open>The first argument is the path of the window, absent where there is no window.\<close>

definition pathForAppState :: "string option \<Rightarrow> app_location \<Rightarrow> string" where
  "pathForAppState window st =
     (case (al_notFound st, window) of
        (True, Some path) \<Rightarrow> path
      | _ \<Rightarrow>
          if al_login st then ''/login''
          else case (al_route st, truthy (al_agentId st), truthy (al_teamWorkspaceId st)) of
                 (AgentsRoute, Some a, _) \<Rightarrow> ''/agents/'' @ encodeURIComponent a
               | (TeamsRoute, _, Some t) \<Rightarrow> ''/teams/'' @ encodeURIComponent t
               | _ \<Rightarrow> route_path st)"

definition hrefForRoute :: "string option \<Rightarrow> app_route \<Rightarrow> string option \<Rightarrow> string" where
  "hrefForRoute window r sessionId =
     pathForAppState window
       ((plain_location r (if (r = MainRoute \<or> r = ProjectsRoute) \<and> truthy sessionId = None then ThreadsView else ChatView))
          \<lparr>al_sessionId := if r = MainRoute then sessionId else None\<rparr>)"

section \<open>The query parameters a path keeps\<close>

definition AGENT_TABS :: "string list" where "AGENT_TABS = [''profile'', ''activities'']"
definition TEAM_TABS :: "string list" where "TEAM_TABS = [''profile'', ''activities'']"
definition PROJECT_TABS :: "string list" where "PROJECT_TABS = [''profile'', ''workspace'', ''activities'']"
definition AGENT_AVAILABILITY :: "string list" where "AGENT_AVAILABILITY = [''ready'', ''busy'', ''pending'', ''offline'']"

definition LIST_SORT_PARAMS :: "(string \<times> (string \<times> string list) list) list" where
  "LIST_SORT_PARAMS =
     [(''backlog'', [(''sort'', [''title'', ''status'', ''priority'', ''assignee'', ''due''])]),
      (''routines'', [(''sort'', [''title'', ''state'', ''priority'', ''assignee'', ''nextRun''])]),
      (''admin'',
       [(''employeeSort'', [''employee'', ''computers'', ''localLimit'', ''running'', ''ready'']),
        (''nodeSort'', [''node'', ''employee'', ''runtimes''])])]"

definition LIST_PAGE_PARAMS :: "(string \<times> string list) list" where
  "LIST_PAGE_PARAMS =
     [(''backlog'', [''page'']), (''routines'', [''page'']), (''computer'', [''page'']), (''admin'', [''employeePage'', ''nodePage''])]"

definition LANE_PAGE_PARAMS :: "(string \<times> string list) list" where
  "LANE_PAGE_PARAMS = [(''backlog'', [''lanes'']), (''routines'', [''lanes'']), (''admin'', [''employeeLanes'', ''nodeLanes''])]"

definition LIST_FILTER_PARAMS :: "(string \<times> (string \<times> string list option) list) list" where
  "LIST_FILTER_PARAMS =
     [(''backlog'',
       [(''q'', None),
        (''status'', Some [''backlog'', ''assigned'', ''running'', ''waiting_for_human'', ''review'', ''blocked'', ''done'']),
        (''priority'', Some [''high'', ''normal'', ''low'']), (''agent'', None), (''assignee'', None),
        (''due'', Some [''overdue'', ''today'', ''unscheduled'']), (''source'', Some [''direct'', ''routine''])]),
      (''routines'',
       [(''q'', None), (''type'', Some [''task'', ''job'']), (''cadence'', Some [''daily'', ''weekly'', ''monthly'', ''custom'']),
        (''agent'', None), (''assignee'', None),
        (''state'', Some [''running'', ''overdue'', ''due'', ''scheduled'', ''unscheduled'', ''paused''])])]"

text \<open>Setting a parameter to its value in the source when that is not empty and passes a test.\<close>

definition copy_if :: "(string \<Rightarrow> bool) \<Rightarrow> query_params \<Rightarrow> string \<Rightarrow> query_params \<Rightarrow> query_params" where
  "copy_if ok source key target =
     (case truthy (query_get source key) of
        Some v \<Rightarrow> if ok v then query_set key v target else target
      | None \<Rightarrow> target)"

definition copyParam :: "query_params \<Rightarrow> string \<Rightarrow> query_params \<Rightarrow> query_params" where
  "copyParam source key target = copy_if (\<lambda>_. True) source key target"

definition own_params :: "(string \<times> 'a list) list \<Rightarrow> string \<Rightarrow> 'a list" where
  "own_params table head = (case map_of table head of None \<Rightarrow> [] | Some ps \<Rightarrow> ps)"

text \<open>The lookup of an inherited member gives a function or \<open>Object.prototype\<close>: neither is iterable, and both have no
entries, so only the page parameters fail.\<close>

definition page_number_ok :: "string \<Rightarrow> bool" where
  "page_number_ok v \<longleftrightarrow> list_all digit v \<and> 1 < decimal v"

definition copyPageParams :: "string \<Rightarrow> query_params \<Rightarrow> query_params \<Rightarrow> string + query_params" where
  "copyPageParams head source target =
     (if head \<in> set object_prototype_members then Inl ''LANE_PAGE_PARAMS[head] is not iterable''
      else Inr (fold (copy_if page_number_ok source) (own_params LIST_PAGE_PARAMS head)
                  (fold (copyParam source) (own_params LANE_PAGE_PARAMS head) target)))"

definition sort_value_ok :: "string list \<Rightarrow> string \<Rightarrow> bool" where
  "sort_value_ok ks v \<longleftrightarrow> (if js_starts_with v ''-'' then drop 1 v else v) \<in> set ks"

definition copySortParams :: "string \<Rightarrow> query_params \<Rightarrow> query_params \<Rightarrow> query_params" where
  "copySortParams head source target =
     fold (\<lambda>(param, ks). copy_if (sort_value_ok ks) source param) (own_params LIST_SORT_PARAMS head) target"

definition filter_value_ok :: "string list option \<Rightarrow> string \<Rightarrow> bool" where
  "filter_value_ok allowed v \<longleftrightarrow> (case allowed of None \<Rightarrow> True | Some vs \<Rightarrow> v \<in> set vs)"

definition copyFilterParams :: "string \<Rightarrow> query_params \<Rightarrow> query_params \<Rightarrow> query_params" where
  "copyFilterParams head source target =
     fold (\<lambda>(param, allowed). copy_if (filter_value_ok allowed) source param) (own_params LIST_FILTER_PARAMS head) target"

definition thread_params :: "query_params \<Rightarrow> query_params" where
  "thread_params source =
     (if query_get source ''space'' = Some ''1'' then copyParam source ''artifact'' (query_set ''space'' ''1'' []) else [])"

definition project_params :: "query_params \<Rightarrow> query_params" where
  "project_params source =
     (let tab = (case truthy (query_get source ''tab'') of None \<Rightarrow> ''profile'' | Some t \<Rightarrow> t);
          target = (if tab \<in> set PROJECT_TABS \<and> tab \<noteq> ''profile'' then query_set ''tab'' tab [] else [])
      in if tab = ''workspace'' then copyParam source ''item'' (copyParam source ''path'' target) else target)"

definition agents_params :: "query_params \<Rightarrow> query_params" where
  "agents_params source =
     copy_if (\<lambda>v. v \<in> set AGENT_AVAILABILITY) source ''availability'' (copyParam source ''q'' [])"

definition entity_tab :: "string list \<Rightarrow> query_params \<Rightarrow> query_params" where
  "entity_tab tabs source =
     (let tab = (case truthy (query_get source ''tab'') of Some t \<Rightarrow> if t \<in> set tabs then t else ''profile'' | None \<Rightarrow> ''profile'')
      in if tab \<noteq> ''profile'' then query_set ''tab'' tab [] else [])"

definition create_dialog :: "query_params \<Rightarrow> query_params \<Rightarrow> query_params" where
  "create_dialog source target =
     (if query_get source ''dialog'' = Some ''create'' then query_set ''dialog'' ''create'' target else target)"

definition list_params :: "string \<Rightarrow> query_params \<Rightarrow> string + query_params" where
  "list_params head source =
     (case copyPageParams head source (copySortParams head source []) of
        Inl e \<Rightarrow> Inl e
      | Inr target \<Rightarrow> Inr (copyFilterParams head source target))"

text \<open>The branches after the one of the login page; the path without segments looks up the key \<open>undefined\<close>.\<close>

definition page_params :: "string list \<Rightarrow> query_params \<Rightarrow> string + query_params" where
  "page_params segments source =
     (case segments of
        [] \<Rightarrow> list_params ''undefined'' source
      | [head] \<Rightarrow>
          if head = ''threads'' then Inr (thread_params source)
          else if head = ''agents'' then Inr (agents_params source)
          else if head = ''teams'' then Inr (create_dialog source [])
          else list_params head source
      | [head, entityId] \<Rightarrow>
          if head = ''threads'' \<and> entityId \<noteq> ''new'' then Inr (thread_params source)
          else if head = ''projects'' then Inr (project_params source)
          else if head = ''agents'' then Inr (entity_tab AGENT_TABS source)
          else if head = ''teams'' then Inr (create_dialog source (entity_tab TEAM_TABS source))
          else Inr []
      | [head, entityId, third, fourth] \<Rightarrow>
          if head = ''projects'' \<and> third = ''threads'' then Inr (thread_params source) else Inr []
      | _ \<Rightarrow> Inr [])"

definition search_text :: "query_params \<Rightarrow> string" where
  "search_text target = (let encoded = query_text target in if encoded = [] then [] else CHR ''?'' # encoded)"

section \<open>The address after the login\<close>

record browser_url =
  bu_origin :: string
  bu_pathname :: string
  bu_search :: string

type_synonym browser_url_parser = "string \<Rightarrow> string \<Rightarrow> browser_url option"

definition DEFAULT_ORIGIN :: string where "DEFAULT_ORIGIN = ''http://relay.local''"

lemma login_path: "pathSegments p = [''login''] \<Longrightarrow> al_login (parseAppPath p)"
proof -
  assume login: "pathSegments p = [''login'']"
  then have "p \<noteq> ''/''" by (auto simp: pathSegments_def)
  with login show ?thesis by (simp add: parseAppPath_def normalized_path_def plain_location_def)
qed

text \<open>What is returned to, over the function that canonicalises the parameters: it is asked for pages other than the login page only,
so the login page can ask for the address it returns to.\<close>

definition return_to ::
  "(string \<Rightarrow> string \<Rightarrow> string + string) \<Rightarrow> browser_url_parser \<Rightarrow> string option \<Rightarrow> string \<Rightarrow> string" where
  "return_to canonical url target origin =
     (case target of
        None \<Rightarrow> ''/threads''
      | Some v \<Rightarrow>
          if \<not> js_starts_with v ''/'' \<or> js_starts_with v ''//'' then ''/threads''
          else case url v origin of
                 None \<Rightarrow> ''/threads''
               | Some candidate \<Rightarrow>
                   if bu_origin candidate \<noteq> origin then ''/threads''
                   else let st = parseAppPath (bu_pathname candidate)
                        in if al_notFound st \<or> al_login st then ''/threads''
                           else case canonical (bu_pathname candidate) (bu_search candidate) of
                                  Inl e \<Rightarrow> ''/threads''
                                | Inr q \<Rightarrow> bu_pathname candidate @ q)"

lemma return_to_cong [fundef_cong]:
  assumes "url = url'" and "target = target'" and "origin = origin'"
    and "\<And>p q. \<not> al_login (parseAppPath p) \<Longrightarrow> f p q = g p q"
  shows "return_to f url target origin = return_to g url' target' origin'"
  using assms by (simp add: return_to_def Let_def split: option.split)

function canonicalSearchForPath :: "browser_url_parser \<Rightarrow> string \<Rightarrow> string \<Rightarrow> string + string" where
  "canonicalSearchForPath url pathname search =
     (let source = parse_query search
      in if pathSegments pathname = [''login'']
         then Inr (search_text (case truthy (query_get source ''returnTo'') of
                                  None \<Rightarrow> []
                                | Some raw \<Rightarrow>
                                    query_set ''returnTo'' (return_to (\<lambda>p q. canonicalSearchForPath url p q) url (Some raw) DEFAULT_ORIGIN) []))
         else map_sum id search_text (page_params (pathSegments pathname) source))"
  by pat_completeness auto

termination
  by (relation "measure (\<lambda>(_, p, _). if pathSegments p = [''login''] then 1 else 0)") (auto dest: login_path)

declare canonicalSearchForPath.simps [simp del]

definition validatedReturnTo :: "browser_url_parser \<Rightarrow> string option \<Rightarrow> string \<Rightarrow> string" where
  "validatedReturnTo url target origin = return_to (canonicalSearchForPath url) url target origin"

definition canonicalBrowserUrl :: "browser_url_parser \<Rightarrow> string \<Rightarrow> string \<Rightarrow> string + string" where
  "canonicalBrowserUrl url pathname search = map_sum id ((@) pathname) (canonicalSearchForPath url pathname search)"

definition pathKeepsThreadSpaceParams :: "browser_url_parser \<Rightarrow> string \<Rightarrow> string + bool" where
  "pathKeepsThreadSpaceParams url pathname = map_sum id (\<lambda>q. q \<noteq> []) (canonicalSearchForPath url pathname ''?space=1'')"

definition browserUrlForAppState :: "browser_url_parser \<Rightarrow> string option \<Rightarrow> app_location \<Rightarrow> string \<Rightarrow> string \<Rightarrow> string + string" where
  "browserUrlForAppState url window st currentPathname currentSearch =
     (let nextPath = pathForAppState window st
      in if nextPath = currentPathname then canonicalBrowserUrl url nextPath currentSearch else Inr nextPath)"

section \<open>The segments of a path\<close>

definition clean_part :: "string \<Rightarrow> bool" where
  "clean_part s \<longleftrightarrow> s \<noteq> [] \<and> CHR ''/'' \<notin> set s"

lemma split_skip_front: "filter (\<lambda>s. s \<noteq> []) (split_at d (dropWhile (\<lambda>c. c = d) s)) = filter (\<lambda>s. s \<noteq> []) (split_at d s)"
  by (induction s) auto

lemma split_skip_last: "filter (\<lambda>s. s \<noteq> []) (split_at d (s @ [d])) = filter (\<lambda>s. s \<noteq> []) (split_at d s)"
proof (induction s)
  case (Cons c cs)
  obtain a as where "split_at d (cs @ [d]) = a # as" by (cases "split_at d (cs @ [d])") auto
  moreover obtain b bs where "split_at d cs = b # bs" by (cases "split_at d cs") auto
  moreover have "hd (split_at d (cs @ [d])) = hd (split_at d cs)"
    by (induction cs) (auto split: list.split)
  ultimately show ?case using Cons by (auto split: if_splits)
qed simp

lemma split_skip_back:
  "filter (\<lambda>s. s \<noteq> []) (split_at d (rev (dropWhile (\<lambda>c. c = d) (rev s)))) = filter (\<lambda>s. s \<noteq> []) (split_at d s)"
  by (induction s rule: rev_induct) (auto simp: split_skip_last)

lemma pathSegments_split: "pathSegments p = filter (\<lambda>s. s \<noteq> []) (split_at (CHR ''/'') p)"
  by (simp add: pathSegments_def Let_def split_skip_front split_skip_back)

lemma split_at_parts: "s \<in> set (split_at d t) \<Longrightarrow> d \<notin> set s"
  by (induction t arbitrary: s) (auto split: list.splits if_splits)

lemma pathSegments_clean: "list_all clean_part (pathSegments p)"
  by (auto simp: list_all_iff pathSegments_split clean_part_def dest: split_at_parts)

lemma pathSegments_join: "list_all clean_part segs \<Longrightarrow> pathSegments (CHR ''/'' # js_join ''/'' segs) = segs"
  using split_join [of segs "CHR ''/''"]
  by (cases "segs = []") (auto simp: pathSegments_split list_all_iff clean_part_def intro: filter_True)

lemma joined_path_eq:
  "list_all clean_part segs \<Longrightarrow> list_all clean_part segs' \<Longrightarrow>
   CHR ''/'' # js_join ''/'' segs = CHR ''/'' # js_join ''/'' segs' \<longleftrightarrow> segs = segs'"
  by (metis pathSegments_join)

text \<open>What a path stands for is a function of its segments.\<close>

definition located :: "string list \<Rightarrow> app_location" where
  "located segs =
     (if segs = [''login''] then (plain_location MainRoute ChatView)\<lparr>al_login := True\<rparr>
      else if segs = [''threads''] then plain_location MainRoute ThreadsView
      else segments_location segs (CHR ''/'' # js_join ''/'' segs))"

lemma parse_located: "parseAppPath p = located (if p = ''/'' then [''threads''] else pathSegments p)"
proof (cases "p = ''/''")
  case False
  have clean: "list_all clean_part (pathSegments p)" by (rule pathSegments_clean)
  have "list_all clean_part [''login'']" "list_all clean_part [''threads'']" by (simp_all add: clean_part_def)
  from joined_path_eq [OF clean this(1)] joined_path_eq [OF clean this(2)] False pathSegments_join [OF clean]
  show ?thesis by (simp add: parseAppPath_def normalized_path_def located_def)
qed (simp add: parseAppPath_def normalized_path_def located_def)

lemma parse_joined:
  assumes "list_all clean_part segs" and "segs \<noteq> []"
  shows "parseAppPath (CHR ''/'' # js_join ''/'' segs) = located segs"
proof -
  have "pathSegments ''/'' = []" by (simp add: pathSegments_split)
  with assms have "CHR ''/'' # js_join ''/'' segs \<noteq> ''/''" using pathSegments_join [OF assms(1)] by metis
  then show ?thesis by (simp only: parse_located pathSegments_join [OF assms(1)] if_False)
qed

section \<open>Ids in a path\<close>

lemma decode_not_Nil: "s \<noteq> [] \<Longrightarrow> decodeURIComponent s \<noteq> Some []"
proof -
  assume "s \<noteq> []"
  then have "uri_units s \<noteq> Some []"
    by (cases s) (auto split: if_splits list.splits option.splits)
  moreover have "units_text us = Some [] \<Longrightarrow> us = []" for us
    by (cases us rule: units_text.cases) (auto simp: Let_def sequence_char_def split: if_splits)
  ultimately show ?thesis by (auto simp: decodeURIComponent_def bind_eq_Some_conv)
qed

lemma decoded_segment: "s \<noteq> [] \<Longrightarrow> \<exists>i. decodeSegment s = Some i \<and> i \<noteq> []"
  using decode_not_Nil by (auto simp: decodeSegment_def split: option.split)

lemma encode_no_slash: "CHR ''/'' \<notin> set (encodeURIComponent i)"
  by (auto simp: uri_plain_def alphanumeric_def Let_def dest: encodeURIComponent_chars)

lemma decode_encoded: "i \<noteq> [] \<Longrightarrow> decodeSegment (encodeURIComponent i) = Some i"
  by (simp add: decodeSegment_def decodeURIComponent_encode)

lemma encode_new: "encodeURIComponent i = ''new'' \<longleftrightarrow> i = ''new''"
proof -
  have "encodeURIComponent ''new'' = ''new''"
    by (rule encodeURIComponent_plain) (simp add: uri_plain_def alphanumeric_def)
  then show ?thesis using encodeURIComponent_eq [of i "''new''"] by (simp only:)
qed

lemma work_found:
  "list_all clean_part segs \<Longrightarrow> \<not> al_notFound (work_location (CHR ''/'' # js_join ''/'' segs)) \<Longrightarrow>
   \<exists>r w. segs = [w] \<and> (r, CHR ''/'' # w) \<in> set WORK_PATHS \<and> work_location (CHR ''/'' # js_join ''/'' segs) = plain_location r ChatView"
proof -
  assume clean: "list_all clean_part segs" and found: "\<not> al_notFound (work_location (CHR ''/'' # js_join ''/'' segs))"
  let ?p = "CHR ''/'' # js_join ''/'' segs"
  from found obtain r where r: "map_of WORK_ROUTES ?p = Some r" by (auto simp: work_location_def split: option.splits)
  then have mem: "(r, ?p) \<in> set WORK_PATHS" by (auto simp: WORK_ROUTES_def dest!: map_of_SomeD)
  have "\<forall>(r, p) \<in> set WORK_PATHS. clean_part (tl p) \<and> p = CHR ''/'' # js_join ''/'' [tl p]"
    by (simp add: WORK_PATHS_def clean_part_def)
  with mem have "clean_part (tl ?p) \<and> ?p = CHR ''/'' # js_join ''/'' [tl ?p]" by fast
  then have "segs = [tl ?p]" using joined_path_eq [OF clean, of "[tl ?p]"] by simp
  with mem r show ?thesis by (intro exI [of _ r] exI [of _ "tl ?p"]) (simp add: work_location_def)
qed

text \<open>The states that have an address, by the segments of the address.\<close>

inductive addressed :: "string list \<Rightarrow> app_location \<Rightarrow> bool" where
  at_login: "addressed [''login''] ((plain_location MainRoute ChatView)\<lparr>al_login := True\<rparr>)"
| at_threads: "addressed [''threads''] (plain_location MainRoute ThreadsView)"
| at_new_thread: "addressed [''threads'', ''new''] ((plain_location MainRoute ChatView)\<lparr>al_composingNew := True\<rparr>)"
| at_thread: "i \<noteq> [] \<Longrightarrow> i \<noteq> ''new'' \<Longrightarrow> addressed [''threads'', encodeURIComponent i] ((plain_location MainRoute ChatView)\<lparr>al_sessionId := Some i\<rparr>)"
| at_projects: "addressed [''projects''] (plain_location ProjectsRoute ThreadsView)"
| at_project: "i \<noteq> [] \<Longrightarrow> addressed [''projects'', encodeURIComponent i] ((plain_location ProjectsRoute ChatView)\<lparr>al_projectId := Some i\<rparr>)"
| at_project_new: "i \<noteq> [] \<Longrightarrow> addressed [''projects'', encodeURIComponent i, ''new'']
    ((plain_location ProjectsRoute ChatView)\<lparr>al_projectId := Some i, al_composingNew := True\<rparr>)"
| at_project_thread: "i \<noteq> [] \<Longrightarrow> j \<noteq> [] \<Longrightarrow> addressed [''projects'', encodeURIComponent i, ''threads'', encodeURIComponent j]
    ((plain_location ProjectsRoute ChatView)\<lparr>al_sessionId := Some j, al_projectId := Some i\<rparr>)"
| at_agent: "i \<noteq> [] \<Longrightarrow> addressed [''agents'', encodeURIComponent i] ((plain_location AgentsRoute ChatView)\<lparr>al_agentId := Some i\<rparr>)"
| at_team: "i \<noteq> [] \<Longrightarrow> addressed [''teams'', encodeURIComponent i] ((plain_location TeamsRoute ChatView)\<lparr>al_teamWorkspaceId := Some i\<rparr>)"
| at_work: "(r, CHR ''/'' # w) \<in> set WORK_PATHS \<Longrightarrow> addressed [w] (plain_location r ChatView)"

lemma addressed_clean: "addressed segs st \<Longrightarrow> list_all clean_part segs \<and> segs \<noteq> []"
proof (induction rule: addressed.induct)
  case (at_work r w)
  then show ?case by (auto simp: WORK_PATHS_def clean_part_def)
qed (simp_all add: clean_part_def encode_no_slash)

lemma addressed_path: "addressed segs st \<Longrightarrow> pathForAppState window st = CHR ''/'' # js_join ''/'' segs"
proof (induction rule: addressed.induct)
  case (at_work r w)
  then show ?case by (auto simp: WORK_PATHS_def pathForAppState_def plain_location_def truthy_def route_path_def)
qed (simp_all add: pathForAppState_def plain_location_def truthy_def route_path_def project_path_def main_path_def WORK_PATHS_def)

lemma addressed_located: "addressed segs st \<Longrightarrow> located segs = st"
proof (induction rule: addressed.induct)
  case (at_work r w)
  then show ?case by (auto simp: WORK_PATHS_def located_def segments_location_def work_location_def WORK_ROUTES_def)
qed (simp_all add: located_def segments_location_def decode_encoded encode_new plain_location_def)

lemma addressed_read: "addressed segs st \<Longrightarrow> parseAppPath (pathForAppState window st) = st"
  by (metis addressed_clean addressed_path parse_joined addressed_located)

text \<open>Whatever a path stands for, when it stands for anything, has an address.\<close>

lemma segments_cases:
  obtains (work) "segments_location segs n = work_location n"
  | (one) "segs = [''projects'']"
  | (two) h s where "segs = [h, s]" "h = ''threads'' \<or> h = ''projects'' \<or> h = ''agents'' \<or> h = ''teams''"
  | (three) s where "segs = [''projects'', s, ''new'']"
  | (four) s t where "segs = [''projects'', s, ''threads'', t]"
proof -
  consider "segs = []" | a where "segs = [a]" | a b where "segs = [a, b]" | a b c where "segs = [a, b, c]"
    | a b c d where "segs = [a, b, c, d]" | a b c d e es where "segs = a # b # c # d # e # es"
    by (metis list.exhaust)
  then show thesis
  proof cases
    case 1
    then show ?thesis by (intro work) (simp add: segments_location_def)
  next
    case (2 a)
    then show ?thesis by (cases "a = ''projects''") (rule one, simp, rule work, simp add: segments_location_def)
  next
    case (3 a b)
    show ?thesis
    proof (cases "a = ''threads'' \<or> a = ''projects'' \<or> a = ''agents'' \<or> a = ''teams''")
      case True
      with 3 show ?thesis by (rule two)
    next
      case False
      with 3 show ?thesis by (intro work) (simp add: segments_location_def)
    qed
  next
    case (4 a b c)
    then show ?thesis
      by (cases "a = ''projects'' \<and> c = ''new''") (intro three [of b], simp, intro work, auto simp: segments_location_def)
  next
    case (5 a b c d)
    then show ?thesis
      by (cases "a = ''projects'' \<and> c = ''threads''") (intro four [of b d], simp, intro work, auto simp: segments_location_def)
  next
    case (6 a b c d e es)
    then show ?thesis by (intro work) (simp add: segments_location_def)
  qed
qed

lemma segments_addressed:
  assumes clean: "list_all clean_part segs" and found: "\<not> al_notFound (segments_location segs (CHR ''/'' # js_join ''/'' segs))"
    and new: "\<And>s. segs = [''threads'', s] \<Longrightarrow> s \<noteq> ''new'' \<Longrightarrow> decodeSegment s \<noteq> Some ''new''"
  shows "\<exists>segs'. addressed segs' (segments_location segs (CHR ''/'' # js_join ''/'' segs))"
proof -
  let ?n = "CHR ''/'' # js_join ''/'' segs"
  have read: "\<exists>i. decodeSegment s = Some i \<and> i \<noteq> []" if "s \<in> set segs" for s
    using that clean decoded_segment by (auto simp: list_all_iff clean_part_def)
  show ?thesis
  proof (cases segs ?n rule: segments_cases)
    case work
    with clean found obtain r w where "(r, CHR ''/'' # w) \<in> set WORK_PATHS" "work_location ?n = plain_location r ChatView"
      using work_found by metis
    with work show ?thesis by (metis at_work)
  next
    case one
    then show ?thesis by (auto simp: segments_location_def intro: at_projects)
  next
    case (two h s)
    then obtain i where i: "decodeSegment s = Some i" "i \<noteq> []" using read by auto
    from two(2) show ?thesis
    proof (elim disjE)
      assume h: "h = ''threads''"
      show ?thesis
      proof (cases "s = ''new''")
        case True
        with h two(1) show ?thesis by (auto simp: segments_location_def intro: at_new_thread)
      next
        case False
        then have "i \<noteq> ''new''" using new [of s] two(1) i h by simp
        with False h two(1) i show ?thesis by (auto simp: segments_location_def intro: at_thread)
      qed
    qed (use two(1) i in \<open>auto simp: segments_location_def intro: at_project at_agent at_team\<close>)
  next
    case (three s)
    then obtain i where "decodeSegment s = Some i" "i \<noteq> []" using read by auto
    with three show ?thesis by (auto simp: segments_location_def intro: at_project_new)
  next
    case (four s t)
    then have "s \<in> set segs" "t \<in> set segs" by simp_all
    then obtain i j where "decodeSegment s = Some i" "i \<noteq> []" "decodeSegment t = Some j" "j \<noteq> []" using read by blast
    with four show ?thesis by (auto simp: segments_location_def intro: at_project_thread)
  qed
qed

text \<open>C31. The state a path stands for is the one its own address stands for: reading a path, writing the address of the state and
reading that address gives the state again, unless the path names nothing. The ids in it may hold any character. (A thread whose id
is \<open>new\<close> has no address: that one starts a new thread.)\<close>

theorem app_path_roundtrip:
  assumes "\<not> al_notFound (parseAppPath p)" and "al_route (parseAppPath p) = MainRoute \<Longrightarrow> al_sessionId (parseAppPath p) \<noteq> Some ''new''"
  shows "parseAppPath (pathForAppState window (parseAppPath p)) = parseAppPath p"
proof -
  define segs where "segs = (if p = ''/'' then [''threads''] else pathSegments p)"
  have clean: "list_all clean_part segs" using pathSegments_clean [of p] by (simp add: segs_def clean_part_def)
  have parse: "parseAppPath p = located segs" by (simp add: parse_located segs_def)
  have "\<exists>segs'. addressed segs' (located segs)"
  proof (cases "segs = [''login''] \<or> segs = [''threads'']")
    case True
    then show ?thesis by (auto simp: located_def intro: addressed.intros)
  next
    case False
    then have *: "located segs = segments_location segs (CHR ''/'' # js_join ''/'' segs)" by (simp add: located_def)
    have "decodeSegment s \<noteq> Some ''new''" if "segs = [''threads'', s]" "s \<noteq> ''new''" for s
      using assms(2) that by (simp add: parse located_def segments_location_def plain_location_def)
    with clean assms(1) show ?thesis unfolding parse * by (intro segments_addressed) simp_all
  qed
  then show ?thesis unfolding parse using addressed_read by blast
qed

theorem app_path_roundtrip_witness:
  "parseAppPath (pathForAppState None (parseAppPath ''/projects/a%20b/threads/c%2fd/'')) = parseAppPath ''/projects/a%20b/threads/c%2fd/'' \<and>
   al_sessionId (parseAppPath ''/projects/a%20b/threads/c%2fd/'') = Some ''c/d''"
proof -
  have ids: "decodeSegment ''a%20b'' = Some ''a b''" "decodeSegment ''c%2fd'' = Some ''c/d''"
    by (simp_all add: decodeSegment_def decodeURIComponent_def hex_value_def char_of_def bit_0)
  have "pathSegments ''/projects/a%20b/threads/c%2fd/'' = [''projects'', ''a%20b'', ''threads'', ''c%2fd'']"
    by (simp add: pathSegments_split)
  then have read: "parseAppPath ''/projects/a%20b/threads/c%2fd/'' =
      (plain_location ProjectsRoute ChatView)\<lparr>al_sessionId := Some ''c/d'', al_projectId := Some ''a b''\<rparr>"
    by (simp add: parse_located located_def segments_location_def ids)
  have "parseAppPath (pathForAppState None (parseAppPath ''/projects/a%20b/threads/c%2fd/'')) = parseAppPath ''/projects/a%20b/threads/c%2fd/''"
    by (rule app_path_roundtrip) (simp_all add: read plain_location_def)
  then show ?thesis by (simp add: read)
qed

section \<open>The parameters a path keeps are kept again\<close>

text \<open>A parameter with its condition is a field; the fields of a page that are in the source, in the order of the page.\<close>

type_synonym query_field = "string \<times> (string \<Rightarrow> bool)"

definition field_value :: "query_params \<Rightarrow> query_field \<Rightarrow> string option" where
  "field_value source f =
     (case truthy (query_get source (fst f)) of Some v \<Rightarrow> if snd f v then Some v else None | None \<Rightarrow> None)"

definition kept :: "query_field list \<Rightarrow> query_params \<Rightarrow> query_params" where
  "kept owned source = concat (map (\<lambda>f. case field_value source f of Some v \<Rightarrow> [(fst f, v)] | None \<Rightarrow> []) owned)"

lemma kept_simps [simp]:
  "kept [] source = []"
  "kept (f # fs) source = (case field_value source f of Some v \<Rightarrow> [(fst f, v)] | None \<Rightarrow> []) @ kept fs source"
  by (simp_all add: kept_def)

lemma kept_append: "kept (fs @ gs) source = kept fs source @ kept gs source"
  by (simp add: kept_def)

lemma kept_keys: "k \<in> fst ` set (kept owned source) \<Longrightarrow> k \<in> fst ` set owned"
  by (induction owned) (auto split: option.splits)

lemma copy_if_field:
  "key \<notin> fst ` set target \<Longrightarrow> copy_if ok source key target = target @ kept [(key, ok)] source"
  by (simp add: copy_if_def field_value_def query_set_def split: option.split)

lemma copy_fields:
  "distinct (map fst (gs @ owned)) \<Longrightarrow>
   fold (\<lambda>f. copy_if (snd f) source (fst f)) owned (kept gs source) = kept (gs @ owned) source"
proof (induction owned arbitrary: gs)
  case (Cons f fs)
  have "fst f \<notin> fst ` set (kept gs source)" using Cons.prems kept_keys [of "fst f" gs source] by auto
  then have "copy_if (snd f) source (fst f) (kept gs source) = kept (gs @ [f]) source"
    by (simp add: copy_if_field kept_append)
  with Cons.IH [of "gs @ [f]"] Cons.prems show ?case by simp
qed simp

lemma kept_get:
  "distinct (map fst owned) \<Longrightarrow> query_get (kept owned source) k =
     (case map_of owned k of None \<Rightarrow> None | Some ok \<Rightarrow> field_value source (k, ok))"
proof (induction owned)
  case (Cons f fs)
  have "fst f \<notin> fst ` set (kept fs source)" using Cons.prems kept_keys [of "fst f" fs source] by auto
  then have "map_of (kept fs source) (fst f) = None" by (simp add: map_of_eq_None_iff)
  with Cons show ?case by (cases f) (auto simp: query_get_def split: option.split)
qed (simp add: query_get_def)

lemma field_value_kept:
  assumes "distinct (map fst owned)" and "f \<in> set owned"
  shows "field_value (kept owned source) f = field_value source f"
proof -
  have "map_of owned (fst f) = Some (snd f)" using assms by (simp add: map_of_eq_Some_iff)
  then show ?thesis
    by (simp add: field_value_def [of "kept owned source"] kept_get [OF assms(1)])
      (auto simp: field_value_def truthy_def split: option.splits if_splits)
qed

lemma kept_cong: "(\<And>f. f \<in> set owned \<Longrightarrow> field_value a f = field_value b f) \<Longrightarrow> kept owned a = kept owned b"
  by (induction owned) auto

lemma kept_kept: "distinct (map fst owned) \<Longrightarrow> kept owned (kept owned source) = kept owned source"
  by (rule kept_cong) (rule field_value_kept)

lemma kept_sound:
  "distinct (map fst owned) \<Longrightarrow> query_get (kept owned source) k = Some v \<Longrightarrow> query_get source k = Some v"
  by (auto simp: kept_get field_value_def truthy_def split: option.splits if_splits)

text \<open>The fields of a list page.\<close>

definition list_fields :: "string \<Rightarrow> query_field list" where
  "list_fields head =
     map (\<lambda>(k, ks). (k, sort_value_ok ks)) (own_params LIST_SORT_PARAMS head) @
     map (\<lambda>k. (k, \<lambda>_. True)) (own_params LANE_PAGE_PARAMS head) @
     map (\<lambda>k. (k, page_number_ok)) (own_params LIST_PAGE_PARAMS head) @
     map (\<lambda>(k, allowed). (k, filter_value_ok allowed)) (own_params LIST_FILTER_PARAMS head)"

lemma list_fields_distinct: "distinct (map fst (list_fields head))"
proof -
  consider "head = ''backlog''" | "head = ''routines''" | "head = ''admin''" | "head = ''computer''"
    | "head \<notin> {''backlog'', ''routines'', ''admin'', ''computer''}" by blast
  then show ?thesis
    by cases (simp_all add: list_fields_def own_params_def LIST_SORT_PARAMS_def LANE_PAGE_PARAMS_def LIST_PAGE_PARAMS_def
        LIST_FILTER_PARAMS_def)
qed

lemma list_params_kept:
  "list_params head source =
     (if head \<in> set object_prototype_members then Inl ''LANE_PAGE_PARAMS[head] is not iterable''
      else Inr (kept (list_fields head) source))"
proof -
  define A where "A = map (\<lambda>(k, ks). (k, sort_value_ok ks)) (own_params LIST_SORT_PARAMS head)"
  define B where "B = map (\<lambda>k. (k, \<lambda>_. True) :: query_field) (own_params LANE_PAGE_PARAMS head)"
  define C where "C = map (\<lambda>k. (k, page_number_ok)) (own_params LIST_PAGE_PARAMS head)"
  define D where "D = map (\<lambda>(k, allowed). (k, filter_value_ok allowed)) (own_params LIST_FILTER_PARAMS head)"
  let ?f = "\<lambda>f. copy_if (snd f) source (fst f)"
  have fields: "list_fields head = A @ B @ C @ D" by (simp add: list_fields_def A_def B_def C_def D_def)
  have "distinct (map fst (A @ B @ C @ D))" using list_fields_distinct [of head] by (simp add: fields)
  then have d: "distinct (map fst (A @ B))" "distinct (map fst ((A @ B) @ C))" "distinct (map fst ((A @ B @ C) @ D))" "distinct (map fst A)"
    by auto
  have "copySortParams head source [] = fold ?f A []"
    by (simp add: copySortParams_def A_def fold_map comp_def case_prod_unfold)
  then have a: "copySortParams head source [] = kept A source" using copy_fields [of "[]" A source] d by simp
  have b: "fold (copyParam source) (own_params LANE_PAGE_PARAMS head) t = fold ?f B t" for t
    by (simp add: B_def fold_map comp_def copyParam_def [abs_def])
  have c: "fold (copy_if page_number_ok source) (own_params LIST_PAGE_PARAMS head) t = fold ?f C t" for t
    by (simp add: C_def fold_map comp_def)
  have e: "copyFilterParams head source t = fold ?f D t" for t
    by (simp add: copyFilterParams_def D_def fold_map comp_def case_prod_unfold)
  show ?thesis
    using copy_fields [OF d(1)] copy_fields [OF d(2)] copy_fields [OF d(3)]
    by (simp add: list_params_def copyPageParams_def a b c e fields)
qed

text \<open>The fields of every page; the artifact and the directory belong to an open panel and the workspace tab.\<close>

definition any_value :: "string \<Rightarrow> bool" where "any_value v = True"

definition tab_field :: "string list \<Rightarrow> query_field" where
  "tab_field tabs = (''tab'', \<lambda>v. v \<in> set tabs \<and> v \<noteq> ''profile'')"

definition dialog_field :: query_field where "dialog_field = (''dialog'', \<lambda>v. v = ''create'')"

definition thread_fields :: "query_params \<Rightarrow> query_field list" where
  "thread_fields source =
     (if query_get source ''space'' = Some ''1'' then [(''space'', \<lambda>v. v = ''1''), (''artifact'', any_value)] else [])"

definition project_fields :: "query_params \<Rightarrow> query_field list" where
  "project_fields source =
     tab_field PROJECT_TABS # (if query_get source ''tab'' = Some ''workspace'' then [(''path'', any_value), (''item'', any_value)] else [])"

lemma copyParam_field: "key \<notin> fst ` set target \<Longrightarrow> copyParam source key target = target @ kept [(key, any_value)] source"
  using copy_if_field [of key target any_value source] by (simp add: copyParam_def any_value_def [abs_def])

lemma thread_params_kept: "thread_params source = kept (thread_fields source) source"
  by (simp add: thread_params_def thread_fields_def copyParam_field query_set_def field_value_def [of source "(''space'', _)"] truthy_def)

lemma project_params_kept: "project_params source = kept (project_fields source) source"
proof -
  consider "truthy (query_get source ''tab'') = None" | v where "query_get source ''tab'' = Some v" "truthy (query_get source ''tab'') = Some v"
    by (cases "truthy (query_get source ''tab'')") (auto simp: truthy_def split: option.splits if_splits)
  then show ?thesis
  proof cases
    case 1
    then have "query_get source ''tab'' \<noteq> Some ''workspace''" by (auto simp: truthy_def)
    with 1 show ?thesis
      by (simp add: project_params_def project_fields_def tab_field_def field_value_def)
  next
    case (2 v)
    show ?thesis
    proof (cases "v = ''workspace''")
      case True
      with 2 show ?thesis
        by (simp add: project_params_def project_fields_def tab_field_def field_value_def [of source "(''tab'', _)"] PROJECT_TABS_def
            query_set_def copyParam_field kept_keys)
          (auto simp: field_value_def query_set_def copyParam_def copy_if_def any_value_def split: option.split)
    next
      case False
      with 2 show ?thesis
        by (auto simp: project_params_def project_fields_def tab_field_def field_value_def query_set_def)
    qed
  qed
qed

lemma agents_params_kept:
  "agents_params source = kept [(''q'', any_value), (''availability'', \<lambda>v. v \<in> set AGENT_AVAILABILITY)] source"
proof -
  have q: "copyParam source ''q'' [] = kept [(''q'', any_value)] source" by (simp add: copyParam_field)
  have "''availability'' \<notin> fst ` set (kept [(''q'', any_value)] source)"
    using kept_keys [of "''availability''" "[(''q'', any_value)]" source] by auto
  then have "agents_params source = kept ([(''q'', any_value)] @ [(''availability'', \<lambda>v. v \<in> set AGENT_AVAILABILITY)]) source"
    unfolding agents_params_def q kept_append by (rule copy_if_field)
  then show ?thesis by simp
qed

lemma entity_tab_kept: "entity_tab tabs source = kept [tab_field tabs] source"
  by (auto simp: entity_tab_def tab_field_def field_value_def query_set_def split: option.split)

lemma create_dialog_kept: "''dialog'' \<notin> fst ` set target \<Longrightarrow> create_dialog source target = target @ kept [dialog_field] source"
  by (auto simp: create_dialog_def dialog_field_def field_value_def query_set_def truthy_def split: option.split)

definition page_fields :: "string list \<Rightarrow> query_params \<Rightarrow> query_field list" where
  "page_fields segments source =
     (case segments of
        [] \<Rightarrow> list_fields ''undefined''
      | [head] \<Rightarrow>
          if head = ''threads'' then thread_fields source
          else if head = ''agents'' then [(''q'', any_value), (''availability'', \<lambda>v. v \<in> set AGENT_AVAILABILITY)]
          else if head = ''teams'' then [dialog_field] else list_fields head
      | [head, entityId] \<Rightarrow>
          if head = ''threads'' \<and> entityId \<noteq> ''new'' then thread_fields source
          else if head = ''projects'' then project_fields source
          else if head = ''agents'' then [tab_field AGENT_TABS]
          else if head = ''teams'' then [tab_field TEAM_TABS, dialog_field] else []
      | [head, entityId, third, fourth] \<Rightarrow> if head = ''projects'' \<and> third = ''threads'' then thread_fields source else []
      | _ \<Rightarrow> [])"

definition inherited_path :: "string list \<Rightarrow> bool" where
  "inherited_path segments \<longleftrightarrow> (case segments of [head] \<Rightarrow> head \<in> set object_prototype_members | _ \<Rightarrow> False)"

lemma members_not_routes:
  "''threads'' \<notin> set object_prototype_members" "''agents'' \<notin> set object_prototype_members"
  "''teams'' \<notin> set object_prototype_members" "''undefined'' \<notin> set object_prototype_members" "''login'' \<notin> set object_prototype_members"
  by (simp_all add: object_prototype_members_def)

lemma page_params_kept:
  "page_params segs source =
     (if inherited_path segs then Inl ''LANE_PAGE_PARAMS[head] is not iterable'' else Inr (kept (page_fields segs source) source))"
proof -
  have "''dialog'' \<notin> fst ` set (kept [tab_field TEAM_TABS] source)"
    using kept_keys [of "''dialog''" "[tab_field TEAM_TABS]" source] by (auto simp: tab_field_def)
  then have team: "create_dialog source (entity_tab TEAM_TABS source) = kept ([tab_field TEAM_TABS] @ [dialog_field]) source"
    unfolding entity_tab_kept kept_append by (rule create_dialog_kept)
  consider "segs = []" | a where "segs = [a]" | a b where "segs = [a, b]" | a b c where "segs = [a, b, c]"
    | a b c d where "segs = [a, b, c, d]" | a b c d e es where "segs = a # b # c # d # e # es"
    by (metis list.exhaust)
  then show ?thesis
  proof cases
    case (2 a)
    consider "a = ''threads''" | "a = ''agents''" | "a = ''teams''" | "a \<noteq> ''threads''" "a \<noteq> ''agents''" "a \<noteq> ''teams''" by blast
    then show ?thesis
      by cases (simp_all add: 2 page_params_def page_fields_def inherited_path_def members_not_routes thread_params_kept
          agents_params_kept create_dialog_kept list_params_kept)
  qed (simp_all add: page_params_def page_fields_def inherited_path_def members_not_routes list_params_kept thread_params_kept
      project_params_kept team, simp_all add: entity_tab_kept)
qed

lemma thread_fields_distinct: "distinct (map fst (thread_fields source))"
  by (simp add: thread_fields_def)

lemma project_fields_distinct: "distinct (map fst (project_fields source))"
  by (auto simp: project_fields_def tab_field_def)

lemma thread_fields_again: "thread_fields (kept (thread_fields source) source) = thread_fields source"
  by (simp add: thread_fields_def query_get_def field_value_def truthy_def)

lemma project_fields_again: "project_fields (kept (project_fields source) source) = project_fields source"
proof (cases "query_get source ''tab'' = Some ''workspace''")
  case True
  then have "query_get (kept (project_fields source) source) ''tab'' = Some ''workspace''"
    by (simp add: project_fields_def tab_field_def field_value_def truthy_def PROJECT_TABS_def query_get_def)
  with True show ?thesis by (simp only: project_fields_def)
next
  case False
  then have "query_get (kept (project_fields source) source) ''tab'' \<noteq> Some ''workspace''"
    using kept_sound [OF project_fields_distinct] by metis
  with False show ?thesis by (simp only: project_fields_def if_False)
qed

lemma page_fields_ok:
  "distinct (map fst (page_fields segs source)) \<and> page_fields segs (kept (page_fields segs source) source) = page_fields segs source"
proof -
  have small: "distinct (map fst [tab_field tabs])" "distinct (map fst [tab_field tabs, dialog_field])"
      "distinct (map fst [dialog_field])" "distinct (map fst [(''q'', any_value), (''availability'', \<lambda>v. v \<in> set AGENT_AVAILABILITY)])"
    for tabs by (simp_all add: tab_field_def dialog_field_def)
  note facts = thread_fields_distinct project_fields_distinct list_fields_distinct thread_fields_again project_fields_again small
  consider "segs = []" | a where "segs = [a]" | a b where "segs = [a, b]" | a b c where "segs = [a, b, c]"
    | a b c d where "segs = [a, b, c, d]" | a b c d e es where "segs = a # b # c # d # e # es"
    by (metis list.exhaust)
  then show ?thesis
    by cases (simp_all add: page_fields_def facts del: kept_simps list.map(2))
qed

lemma parse_search_text: "parse_query (search_text t) = t"
proof (cases "query_text t = []")
  case True
  with query_roundtrip [of t] show ?thesis by (simp add: search_text_def)
next
  case False
  with query_text_mark [of t] query_roundtrip [of t] show ?thesis
    by (simp add: search_text_def Let_def parse_marked)
qed

lemma canonical_kept:
  "pathSegments p \<noteq> [''login''] \<Longrightarrow> canonicalSearchForPath url p search =
     (if inherited_path (pathSegments p) then Inl ''LANE_PAGE_PARAMS[head] is not iterable''
      else Inr (search_text (kept (page_fields (pathSegments p) (parse_query search)) (parse_query search))))"
  by (simp add: canonicalSearchForPath.simps page_params_kept Let_def)

section \<open>The theorems\<close>

text \<open>The query parameters a page keeps of an address are kept when the address is canonicalised again, so rewriting the address
is done once, and each of them has the value it had; for every path but that of the login page.\<close>

theorem canonical_search_idempotent:
  assumes "pathSegments p \<noteq> [''login'']" and "canonicalSearchForPath url p search = Inr q"
  shows "canonicalSearchForPath url p q = Inr q \<and>
         (\<forall>k v. query_get (parse_query q) k = Some v \<longrightarrow> query_get (parse_query search) k = Some v)"
proof -
  let ?segs = "pathSegments p" and ?source = "parse_query search"
  let ?t = "kept (page_fields ?segs ?source) ?source"
  have ok: "distinct (map fst (page_fields ?segs ?source))" "page_fields ?segs ?t = page_fields ?segs ?source"
    using page_fields_ok by blast+
  from assms have q: "q = search_text ?t" "\<not> inherited_path ?segs"
    by (auto simp: canonical_kept split: if_splits)
  have "canonicalSearchForPath url p q = Inr (search_text ?t)"
    using assms(1) q(2) kept_kept [OF ok(1)] unfolding q(1) by (simp add: canonical_kept parse_search_text ok(2))
  moreover have "query_get ?t k = Some v \<Longrightarrow> query_get ?source k = Some v" for k v by (rule kept_sound [OF ok(1)])
  ultimately show ?thesis unfolding q(1) parse_search_text by blast
qed

theorem canonical_search_idempotent_witness:
  "canonicalSearchForPath (\<lambda>_ _. None) ''/threads/t'' ''?space=1'' = Inr ''?space=1'' \<and>
   query_get (parse_query ''?junk=2&space=1'') ''space'' = Some ''1''"
proof -
  have path: "pathSegments ''/threads/t'' = [''threads'', ''t'']" by (simp add: pathSegments_split)
  have decoded: "form_decode ''junk'' = ''junk''" "form_decode ''2'' = ''2''" "form_decode ''space'' = ''space''" "form_decode ''1'' = ''1''"
    by (simp_all add: form_decode_def char_of_def bit_0)
  have read: "parse_query ''?junk=2&space=1'' = [(''junk'', ''2''), (''space'', ''1'')]"
    by (simp add: parse_query_def query_pair_def decoded)
  have "form_encode ''space'' = ''space''" "form_encode ''1'' = ''1''"
    by (simp_all add: form_encode_def form_plain_def alphanumeric_def char_of_def bit_0)
  then have "search_text [(''space'', ''1'')] = ''?space=1''" by (simp add: search_text_def query_text_def)
  then have first: "canonicalSearchForPath (\<lambda>_ _. None) ''/threads/t'' ''?junk=2&space=1'' = Inr ''?space=1''"
    by (simp add: canonical_kept path inherited_path_def page_fields_def read thread_fields_def query_get_def field_value_def truthy_def
        any_value_def)
  have "pathSegments ''/threads/t'' \<noteq> [''login'']" by (simp add: path)
  from canonical_search_idempotent [OF this first] show ?thesis by (simp add: read query_get_def)
qed

text \<open>An address whose only segment is the name of an inherited member, such as \<open>/toString\<close>, makes the canonicalisation throw,
and no other does.\<close>

lemma inherited_path_throws:
  "(\<exists>e. canonicalSearchForPath url p search = Inl e) \<longleftrightarrow> (\<exists>head \<in> set object_prototype_members. pathSegments p = [head])"
proof (cases "pathSegments p = [''login'']")
  case True
  then show ?thesis using members_not_routes(5) by (auto simp: canonicalSearchForPath.simps)
next
  case False
  then show ?thesis by (auto simp: canonical_kept inherited_path_def split: list.splits)
qed

text \<open>The address to return to after the login is the start page or a page of the client on its own origin that is not the
login page, with the query parameters this page keeps.\<close>

theorem return_to_known_page:
  "validatedReturnTo url target origin = ''/threads'' \<or>
   (\<exists>raw c q. target = Some raw \<and> url raw origin = Some c \<and> bu_origin c = origin \<and>
      \<not> al_notFound (parseAppPath (bu_pathname c)) \<and> \<not> al_login (parseAppPath (bu_pathname c)) \<and>
      canonicalSearchForPath url (bu_pathname c) (bu_search c) = Inr q \<and>
      validatedReturnTo url target origin = bu_pathname c @ q)"
  by (simp add: validatedReturnTo_def return_to_def Let_def split: option.split sum.split)

text \<open>The path of such a page may begin with two slashes: a client that follows it leaves for another host.\<close>

lemma return_to_leaves_origin:
  assumes "url ''/.//threads'' origin = Some \<lparr>bu_origin = origin, bu_pathname = ''//threads'', bu_search = []\<rparr>"
  shows "validatedReturnTo url (Some ''/.//threads'') origin = ''//threads''"
proof -
  have segs: "pathSegments ''//threads'' = [''threads'']" by (simp add: pathSegments_split)
  then have "parseAppPath ''//threads'' = plain_location MainRoute ThreadsView" by (simp add: parse_located located_def)
  moreover have "canonicalSearchForPath url ''//threads'' [] = Inr []"
    using members_not_routes(1)
    by (simp add: canonical_kept segs inherited_path_def page_fields_def thread_fields_def query_get_def parse_query_def search_text_def query_text_def)
  ultimately show ?thesis using assms by (simp add: validatedReturnTo_def return_to_def plain_location_def Let_def)
qed

end
