(* ===== verification/Chat_Command.thy ===== *)
theory Chat_Command
  imports Relay_Prelude
begin

text \<open>
  Commands of the chat gateway: \<open>packages/relay-chat/src/commands.ts\<close>. The words of a message with their quotes, the
  options of a command, and the request a command stands for. A quoted goal is read as it was written; the state of the
  word splitter is the open quote and the word so far.
\<close>

section \<open>Conversations and commands\<close>

datatype chat_provider = Discord | Telegram | Lark

record chat_conversation =
  cc_provider :: chat_provider
  cc_externalUserId :: string
  cc_conversationId :: string
  cc_threadId :: "string option"
  cc_messageId :: "string option"
  cc_tenantId :: "string option"

record chat_agent_request =
  cr_ref :: chat_conversation
  cr_taskGoal :: string
  cr_agentId :: "string option"
  cr_sessionId :: "string option"
  cr_forceNew :: bool
  cr_idempotencyKey :: "string option"

datatype chat_command =
    RunCommand string "string option" "string option"
  | NewCommand string "string option"
  | ListCommand
  | SwitchCommand string
  | StatusCommand string
  | CancelCommand string "string option"

section \<open>The words of a message\<close>

definition chat_quote :: "char \<Rightarrow> bool" where
  "chat_quote c \<longleftrightarrow> (of_char c :: nat) = 34 \<or> (of_char c :: nat) = 39"

fun split_words :: "char option \<Rightarrow> string \<Rightarrow> string \<Rightarrow> string list" where
  "split_words quote current [] = (if current = [] then [] else [current])"
| "split_words quote current (c # cs) =
     (case quote of
        Some q \<Rightarrow> if c = q then split_words None current cs else split_words quote (current @ [c]) cs
      | None \<Rightarrow>
          if chat_quote c then split_words (Some c) current cs
          else if js_space c then (if current = [] then split_words None [] cs else current # split_words None [] cs)
          else split_words None (current @ [c]) cs)"

definition splitCommand :: "string \<Rightarrow> string list" where
  "splitCommand s = split_words None [] s"

definition stripCommandSuffix :: "string \<Rightarrow> string" where
  "stripCommandSuffix word = takeWhile (\<lambda>c. c \<noteq> CHR ''@'') (dropWhile (\<lambda>c. c = CHR ''/'') word)"

section \<open>Options\<close>

definition letter :: "char \<Rightarrow> bool" where
  "letter c = (let n = (of_char c :: nat) in (65 \<le> n \<and> n \<le> 90) \<or> (97 \<le> n \<and> n \<le> 122))"

definition option_char :: "char \<Rightarrow> bool" where
  "option_char c = (let n = (of_char c :: nat) in letter c \<or> (48 \<le> n \<and> n \<le> 57) \<or> c = CHR ''_'' \<or> c = CHR ''-'')"

text \<open>One or two dashes, a name and an optional value of one line.\<close>

definition strip_dashes :: "string \<Rightarrow> string option" where
  "strip_dashes token =
     (if js_starts_with token ''--'' then Some (drop 2 token)
      else if js_starts_with token ''-'' then Some (drop 1 token) else None)"

definition single_line :: "string \<Rightarrow> bool" where
  "single_line s = list_all (\<lambda>c. (of_char c :: nat) \<noteq> 10 \<and> (of_char c :: nat) \<noteq> 13) s"

definition option_match :: "string \<Rightarrow> (string \<times> string option) option" where
  "option_match token =
     (case strip_dashes token of
        None \<Rightarrow> None
      | Some body \<Rightarrow>
          let name = takeWhile option_char body; rest = dropWhile option_char body
          in if name = [] \<or> \<not> letter (hd name) then None
             else case rest of
                    [] \<Rightarrow> Some (name, None)
                  | c # v \<Rightarrow> if c = CHR ''='' \<and> single_line v then Some (name, Some v) else None)"

fun parseKnownOptions :: "string list \<Rightarrow> string list \<Rightarrow> (string \<rightharpoonup> string) \<Rightarrow> string list \<Rightarrow> (string \<rightharpoonup> string) \<times> string list" where
  "parseKnownOptions names [] options rest = (options, rest)"
| "parseKnownOptions names (token # ts) options rest =
     (case option_match token of
        None \<Rightarrow> parseKnownOptions names ts options (rest @ [token])
      | Some (name, given) \<Rightarrow>
          if name \<notin> set names then parseKnownOptions names ts options (rest @ [token])
          else case given of
                 Some v \<Rightarrow> parseKnownOptions names ts (options(name \<mapsto> v)) rest
               | None \<Rightarrow>
                   (case ts of
                      [] \<Rightarrow> (options, rest)
                    | w # us \<Rightarrow>
                        if w \<noteq> [] \<and> \<not> js_starts_with w ''-'' then parseKnownOptions names us (options(name \<mapsto> w)) rest
                        else parseKnownOptions names ts options rest))"

text \<open>\<open>s?.trim() || undefined\<close>\<close>

definition trimmed_or_none :: "string \<Rightarrow> string option" where
  "trimmed_or_none s = (if js_trim s = [] then None else Some (js_trim s))"

definition stringOption :: "(string \<rightharpoonup> string) \<Rightarrow> string \<Rightarrow> string option" where
  "stringOption options name = Option.bind (options name) trimmed_or_none"

section \<open>Reading a command\<close>

definition retired_option :: "string \<Rightarrow> bool" where
  "retired_option token =
     (case strip_dashes token of
        None \<Rightarrow> False
      | Some body \<Rightarrow>
          (case js_starts_with body ''sandbox'' of
             True \<Rightarrow> drop 7 body = [] \<or> hd (drop 7 body) = CHR ''=''
           | False \<Rightarrow> js_starts_with body ''mode'' \<and> (drop 4 body = [] \<or> hd (drop 4 body) = CHR ''='')))"

definition parseRunCommand :: "bool \<Rightarrow> string list \<Rightarrow> chat_command option" where
  "parseRunCommand is_new tokens =
     (if list_ex retired_option tokens then None
      else let (options, rest) = parseKnownOptions [''agent'', ''session''] tokens Map.empty [];
               agentId = stringOption options ''agent''; taskGoal = js_trim (js_join '' '' rest)
           in if taskGoal = [] then None
              else if is_new then Some (NewCommand taskGoal agentId)
              else Some (RunCommand taskGoal agentId (stringOption options ''session'')))"

definition parse_action :: "string \<Rightarrow> string list \<Rightarrow> chat_command option" where
  "parse_action action tokens =
     (if action = ''run'' then parseRunCommand False tokens
      else if action = ''new'' then parseRunCommand True tokens
      else if action = ''list'' then Some ListCommand
      else case tokens of
             [] \<Rightarrow> None
           | sessionId # words \<Rightarrow>
               if sessionId = [] then None
               else if action = ''switch'' then Some (SwitchCommand sessionId)
               else if action = ''status'' then Some (StatusCommand sessionId)
               else if action = ''cancel''
                    then Some (CancelCommand sessionId
                           (trimmed_or_none (js_join '' '' (snd (parseKnownOptions [] words Map.empty [])))))
               else None)"

definition parseChatCommand :: "string \<Rightarrow> chat_command option" where
  "parseChatCommand s =
     (case splitCommand (js_trim s) of
        [] \<Rightarrow> None
      | t # ts \<Rightarrow>
          (case (if t = ''/relay'' then ts else t # ts) of
             [] \<Rightarrow> None
           | word # tokens \<Rightarrow> parse_action (stripCommandSuffix word) tokens))"

definition commandToAgentRequest :: "chat_conversation \<Rightarrow> chat_command \<Rightarrow> chat_agent_request option" where
  "commandToAgentRequest ref command =
     (case command of
        RunCommand goal agentId sessionId \<Rightarrow>
          Some \<lparr>cr_ref = ref, cr_taskGoal = goal, cr_agentId = agentId, cr_sessionId = sessionId, cr_forceNew = False,
               cr_idempotencyKey = None\<rparr>
      | NewCommand goal agentId \<Rightarrow>
          Some \<lparr>cr_ref = ref, cr_taskGoal = goal, cr_agentId = agentId, cr_sessionId = None, cr_forceNew = True,
               cr_idempotencyKey = None\<rparr>
      | _ \<Rightarrow> None)"

section \<open>Words are read as they were written\<close>

definition quoted :: "string \<Rightarrow> string" where "quoted w = CHR 0x22 # w @ [CHR 0x22]"

definition plain_word :: "string \<Rightarrow> bool" where
  "plain_word w \<longleftrightarrow> w \<noteq> [] \<and> list_all (\<lambda>c. \<not> chat_quote c \<and> \<not> js_space c) w"

lemma quote_chars [simp]: "chat_quote (CHR 0x22)" "\<not> chat_quote (CHR '' '')" "js_space (CHR '' '')"
  by (simp_all add: chat_quote_def js_space_def)

lemma split_inside: "q \<notin> set w \<Longrightarrow> split_words (Some q) current (w @ q # cs) = split_words None (current @ w) cs"
  by (induction w arbitrary: current) auto

lemma split_plain: "list_all (\<lambda>c. \<not> chat_quote c \<and> \<not> js_space c) w \<Longrightarrow> split_words None current (w @ cs) = split_words None (current @ w) cs"
  by (induction w arbitrary: current) auto

lemma split_quoted: "CHR 0x22 \<notin> set w \<Longrightarrow> split_words None current (quoted w @ cs) = split_words None (current @ w) cs"
  by (simp add: quoted_def split_inside)

lemma split_space: "current \<noteq> [] \<Longrightarrow> split_words None current (CHR '' '' # cs) = current # split_words None [] cs"
  by simp

lemma plain_word_read: "plain_word w \<Longrightarrow> split_words None [] (w @ CHR '' '' # cs) = w # split_words None [] cs"
  using split_plain [of w "[]" "CHR '' '' # cs"] by (simp add: plain_word_def)

lemma quoted_words_read:
  "list_all (\<lambda>w. w \<noteq> [] \<and> CHR 0x22 \<notin> set w) ws \<Longrightarrow> splitCommand (js_join '' '' (map quoted ws)) = ws"
proof (induction ws rule: induct_list012)
  case (2 w)
  then show ?case using split_quoted [of w "[]" "[]"] by (simp add: splitCommand_def)
next
  case (3 w v ws)
  then show ?case using split_quoted [of w "[]"] by (simp add: splitCommand_def)
qed (simp add: splitCommand_def)

lemma trim_ends: "s \<noteq> [] \<Longrightarrow> \<not> js_space (hd s) \<Longrightarrow> \<not> js_space (last s) \<Longrightarrow> js_trim s = s"
proof -
  have keep: "dropWhile P t = t" if "t \<noteq> []" "\<not> P (hd t)" for P and t :: string using that by (cases t) auto
  assume "s \<noteq> []" "\<not> js_space (hd s)" "\<not> js_space (last s)"
  then show ?thesis by (simp add: js_trim_def keep hd_rev)
qed

lemma dashless: "w \<noteq> [] \<Longrightarrow> hd w \<noteq> CHR ''-'' \<Longrightarrow> option_match w = None \<and> \<not> retired_option w"
  by (cases w) (auto simp: option_match_def retired_option_def strip_dashes_def)

lemma option_named: "option_match ''--agent'' = Some (''agent'', None)" "option_match ''--session'' = Some (''session'', None)"
  "\<not> retired_option ''--agent''" "\<not> retired_option ''--session''"
  by (simp_all add: option_match_def strip_dashes_def option_char_def letter_def single_line_def retired_option_def)

text \<open>A run command with a quoted goal is read as that goal for that agent in that session, whatever white space and
apostrophes the goal holds.\<close>

theorem chat_run_exact:
  assumes goal: "goal \<noteq> []" "js_trim goal = goal" "CHR 0x22 \<notin> set goal" "hd goal \<noteq> CHR ''-''"
    and agent: "plain_word agent" "hd agent \<noteq> CHR ''-''" and session: "plain_word session" "hd session \<noteq> CHR ''-''"
  shows "parseChatCommand (''/relay run --agent '' @ agent @ '' --session '' @ session @ '' '' @ quoted goal) =
         Some (RunCommand goal (Some agent) (Some session))"
proof -
  let ?line = "''/relay run --agent '' @ agent @ '' --session '' @ session @ '' '' @ quoted goal"
  have words: "plain_word ''/relay''" "plain_word ''run''" "plain_word ''--agent''" "plain_word ''--session''"
    by (simp_all add: plain_word_def chat_quote_def js_space_def)
  have "js_trim ?line = ?line"
    by (rule trim_ends) (simp_all add: quoted_def js_space_def)
  moreover have "splitCommand ?line = [''/relay'', ''run'', ''--agent'', agent, ''--session'', session, goal]"
    using plain_word_read [OF words(1)] plain_word_read [OF words(2)] plain_word_read [OF words(3)] plain_word_read [OF words(4)]
      plain_word_read [OF agent(1)] plain_word_read [OF session(1)] split_quoted [OF goal(3), of "[]" "[]"] goal(1)
    by (simp add: splitCommand_def)
  moreover have "js_trim agent = agent" "js_trim session = session"
    using agent(1) session(1) by (auto intro!: trim_ends simp: plain_word_def list_all_iff)
  moreover have "agent \<noteq> []" "session \<noteq> []" using agent(1) session(1) by (simp_all add: plain_word_def)
  ultimately show ?thesis
    using dashless [OF goal(1,4)] dashless [of agent] dashless [of session] agent(2) session(2) goal
    by (simp add: parseChatCommand_def parse_action_def stripCommandSuffix_def parseRunCommand_def option_named stringOption_def
        trimmed_or_none_def prefix_def) (cases agent; cases session; simp)
qed

theorem chat_run_exact_witness:
  "parseChatCommand (''/relay run --agent '' @ ''a1'' @ '' --session '' @ ''s1'' @ '' '' @ quoted ''fix  it'') =
   Some (RunCommand ''fix  it'' (Some ''a1'') (Some ''s1''))"
  by (rule chat_run_exact) (simp_all add: plain_word_def chat_quote_def js_space_def js_trim_def)

text \<open>Outside quotes an apostrophe opens a quote: it is lost, and so is the end of the word.\<close>

lemma apostrophe_lost:
  "parseChatCommand (''/relay run don'' @ CHR 0x27 # ''t stop'') = Some (RunCommand ''dont stop'' None None)"
  "parseChatCommand (''/relay run --agent a1 don'' @ CHR 0x27 # ''t --agent a2'') = Some (RunCommand ''dont --agent a2'' (Some ''a1'') None)"
  by (simp_all add: parseChatCommand_def js_trim_def js_space_def splitCommand_def chat_quote_def stripCommandSuffix_def parse_action_def
      parseRunCommand_def retired_option_def strip_dashes_def option_match_def option_char_def letter_def single_line_def stringOption_def trimmed_or_none_def)

end
