(* ===== verification/Chat_Gateway.thy ===== *)
theory Chat_Gateway
  imports Chat_Command Session_Events
begin

text \<open>
  The gateway between chat providers and sessions: \<open>packages/relay-chat/src/gateway.ts\<close> and the static resolver of
  \<open>identity.ts\<close>. The backend is the record \<open>chat_backend\<close> of effects that may fail at every call; its optional
  operations are options. \<open>ch_trace\<close> records every call with whether it returned, \<open>ch_following\<close> the sessions whose
  events a run has begun to follow; the follower, which runs beside the caller, is \<open>followSession\<close>.
\<close>

section \<open>Identities\<close>

record chat_identity =
  ci_employeeId :: string
  ci_displayName :: "string option"
  ci_defaultAgentId :: "string option"
  ci_isAdmin :: "bool option"

record chat_identity_record =
  cx_provider :: chat_provider
  cx_externalUserId :: string
  cx_tenantId :: "string option"
  cx_identity :: chat_identity

definition resolve_static :: "chat_identity_record list \<Rightarrow> chat_conversation \<Rightarrow> chat_identity option" where
  "resolve_static records ref =
     map_option cx_identity
       (List.find (\<lambda>c. cx_provider c = cc_provider ref \<and> cx_externalUserId c = cc_externalUserId ref \<and>
                       (\<not> js_truthy (cx_tenantId c) \<or> cx_tenantId c = cc_tenantId ref)) records)"

section \<open>The backend and the sink\<close>

record chat_agent =
  ca_id :: string
  ca_executorKind :: AgentName
  ca_availability :: string

record chat_run_input =
  ri_agentId :: string
  ri_taskGoal :: string
  ri_employeeId :: string
  ri_idempotencyKey :: "string option"

record thread_input =
  ti_sessionId :: string
  ti_taskGoal :: string
  ti_employeeId :: string
  ti_idempotencyKey :: "string option"

datatype recovery = Persisted | Degraded

record chat_run =
  cu_session :: relay_session
  cu_conversation :: chat_conversation
  cu_recovery :: recovery

record chat_binding =
  cb_session :: "relay_session option"
  cb_providerMessageId :: "string option"

record 'w chat_backend =
  bk_resolveIdentity :: "chat_conversation \<Rightarrow> ('w, string, chat_identity option) effect"
  bk_listEmployeeAgents :: "(string \<Rightarrow> ('w, string, chat_agent list) effect) option"
  bk_startAgentRun :: "(chat_run_input \<Rightarrow> ('w, string, relay_session) effect) option"
  bk_continueThread :: "(thread_input \<Rightarrow> ('w, string, relay_session) effect) option"
  bk_cancelSessionRun :: "(string \<Rightarrow> string option \<Rightarrow> string \<Rightarrow> ('w, string, relay_session) effect) option"
  bk_getSession :: "string \<Rightarrow> string \<Rightarrow> ('w, string, relay_session) effect"
  bk_streamSessionEvents :: "string \<Rightarrow> string \<Rightarrow> ('w, string, relay_event list \<times> string option) effect"
  bk_resolveConversationSession :: "(chat_conversation \<Rightarrow> ('w, string, relay_session option) effect) option"
  bk_resolveConversationBinding :: "(chat_conversation \<Rightarrow> ('w, string, chat_binding option) effect) option"
  bk_bindConversationSession :: "(chat_conversation \<Rightarrow> string \<Rightarrow> ('w, string, unit) effect) option"
  bk_listConversationSessions :: "(chat_conversation \<Rightarrow> ('w, string, relay_session list) effect) option"

datatype chat_call =
    ResolveIdentity chat_conversation
  | ListEmployeeAgents string
  | StartAgentRun chat_run_input
  | ContinueThread thread_input
  | CancelSessionRun string "string option" string
  | GetSession string string
  | StreamSessionEvents string string
  | ResolveConversationSession chat_conversation
  | ResolveConversationBinding chat_conversation
  | BindConversationSession chat_conversation string
  | ListConversationSessions chat_conversation

record 'w chat =
  ch_world :: 'w
  ch_trace :: "(chat_call \<times> bool) list"
  ch_following :: "(string \<times> string) list"

definition in_chat :: "chat_call \<Rightarrow> ('w, string, 'a) effect \<Rightarrow> (('w, 'x) chat_scheme, string, 'a) effect" where
  "in_chat c m =
     (\<lambda>s. case m (ch_world s) of (r, w) \<Rightarrow> (r, s\<lparr>ch_world := w, ch_trace := ch_trace s @ [(c, \<exists>a. r = Inr a)]\<rparr>))"

record ('w, 'x) chat_sink =
  cs_started :: "chat_run \<Rightarrow> (('w, 'x) chat_scheme, string, unit) effect"
  cs_event :: "string \<Rightarrow> relay_event \<Rightarrow> (('w, 'x) chat_scheme, string, unit) effect"
  cs_completed :: "relay_session \<Rightarrow> (('w, 'x) chat_scheme, string, unit) effect"
  cs_degraded :: "string \<Rightarrow> chat_run \<Rightarrow> (('w, 'x) chat_scheme, string, unit) effect"
  cs_failed :: "string \<Rightarrow> (('w, 'x) chat_scheme, string, unit) effect"

section \<open>The gateway\<close>

definition provider_name :: "chat_provider \<Rightarrow> string" where
  "provider_name p = (case p of Discord \<Rightarrow> ''discord'' | Telegram \<Rightarrow> ''telegram'' | Lark \<Rightarrow> ''lark'')"

definition requireIdentity :: "'w chat_backend \<Rightarrow> chat_conversation \<Rightarrow> (('w, 'x) chat_scheme, string, chat_identity) effect" where
  "requireIdentity bk ref =
     eff_bind (in_chat (ResolveIdentity ref) (bk_resolveIdentity bk ref)) (\<lambda>identity.
     case identity of
       None \<Rightarrow> eff_throw (''No Relay employee is linked to '' @ provider_name (cc_provider ref) @ '' user '' @ cc_externalUserId ref @ ''.'')
     | Some i \<Rightarrow> eff_return i)"

definition resolveAgentId ::
  "'w chat_backend \<Rightarrow> chat_identity \<Rightarrow> string option \<Rightarrow> (('w, 'x) chat_scheme, string, string option) effect" where
  "resolveAgentId bk identity requestedAgentId =
     eff_bind (case bk_listEmployeeAgents bk of
                 None \<Rightarrow> eff_return []
               | Some f \<Rightarrow> in_chat (ListEmployeeAgents (ci_employeeId identity)) (f (ci_employeeId identity))) (\<lambda>agents.
     let agentId = (case requestedAgentId of None \<Rightarrow> ci_defaultAgentId identity | Some a \<Rightarrow> Some a)
     in eff_return
          (case truthy_or_none agentId of
             None \<Rightarrow> None
           | Some a \<Rightarrow> map_option ca_id (List.find (\<lambda>g. ca_id g = a \<and> ca_availability g = ''ready'') agents)))"

definition bound_session :: "'w chat_backend \<Rightarrow> chat_agent_request \<Rightarrow> (('w, 'x) chat_scheme, string, string option) effect" where
  "bound_session bk request =
     (if \<not> js_truthy (cr_sessionId request) \<and> \<not> cr_forceNew request
      then case bk_resolveConversationSession bk of
             None \<Rightarrow> eff_return None
           | Some f \<Rightarrow>
               eff_bind (in_chat (ResolveConversationSession (cr_ref request)) (f (cr_ref request))) (\<lambda>session.
               eff_return (map_option rs_id session))
      else eff_return (cr_sessionId request))"

definition continue_session ::
  "'w chat_backend \<Rightarrow> chat_identity \<Rightarrow> chat_agent_request \<Rightarrow> string \<Rightarrow> (('w, 'x) chat_scheme, string, relay_session) effect" where
  "continue_session bk identity request sessionId =
     (case bk_continueThread bk of
        None \<Rightarrow> eff_throw ''The Relay backend does not support semantic thread continuation.''
      | Some f \<Rightarrow>
          let input = \<lparr>ti_sessionId = sessionId, ti_taskGoal = cr_taskGoal request, ti_employeeId = ci_employeeId identity,
                       ti_idempotencyKey = cr_idempotencyKey request\<rparr>
          in in_chat (ContinueThread input) (f input))"

definition start_session ::
  "'w chat_backend \<Rightarrow> chat_identity \<Rightarrow> chat_agent_request \<Rightarrow> (('w, 'x) chat_scheme, string, relay_session) effect" where
  "start_session bk identity request =
     eff_bind (resolveAgentId bk identity (cr_agentId request)) (\<lambda>agentId.
     case (truthy_or_none agentId, bk_startAgentRun bk) of
       (Some a, Some f) \<Rightarrow>
         let input = \<lparr>ri_agentId = a, ri_taskGoal = cr_taskGoal request, ri_employeeId = ci_employeeId identity,
                      ri_idempotencyKey = cr_idempotencyKey request\<rparr>
         in in_chat (StartAgentRun input) (f input)
     | _ \<Rightarrow> eff_throw (''No ready Relay agent is configured for '' @ ci_employeeId identity @ ''.''))"

definition bind_session :: "'w chat_backend \<Rightarrow> chat_conversation \<Rightarrow> string \<Rightarrow> (('w, 'x) chat_scheme, string, unit) effect" where
  "bind_session bk ref sessionId =
     (case bk_bindConversationSession bk of
        None \<Rightarrow> eff_throw ''The Relay backend does not support persistent conversation bindings.''
      | Some f \<Rightarrow> in_chat (BindConversationSession ref sessionId) (f ref sessionId))"

definition begin_following :: "string \<Rightarrow> string \<Rightarrow> (('w, 'x) chat_scheme, string, unit) effect" where
  "begin_following sessionId employeeId = eff_modify (\<lambda>s. s\<lparr>ch_following := ch_following s @ [(sessionId, employeeId)]\<rparr>)"

definition run_session ::
  "'w chat_backend \<Rightarrow> chat_identity \<Rightarrow> chat_agent_request \<Rightarrow> ('w, 'x) chat_sink \<Rightarrow> (('w, 'x) chat_scheme, string, chat_run) effect" where
  "run_session bk identity request sink =
     eff_bind (bound_session bk request) (\<lambda>sessionId.
     eff_bind (case truthy_or_none sessionId of
                 Some sid \<Rightarrow> continue_session bk identity request sid
               | None \<Rightarrow> start_session bk identity request) (\<lambda>session.
     let run = \<lparr>cu_session = session, cu_conversation = cr_ref request, cu_recovery = Persisted\<rparr>
     in eff_bind (eff_try (bind_session bk (cr_ref request) (rs_id session))) (\<lambda>bound.
        case bound of
          Inl e \<Rightarrow>
            let run = run\<lparr>cu_recovery := Degraded\<rparr>
            in eff_bind (cs_started sink run) (\<lambda>_.
               eff_bind (cs_degraded sink e run) (\<lambda>_.
               eff_bind (begin_following (rs_id session) (ci_employeeId identity)) (\<lambda>_.
               eff_return run)))
        | Inr _ \<Rightarrow>
            eff_bind (cs_started sink run) (\<lambda>_.
            eff_bind (begin_following (rs_id session) (ci_employeeId identity)) (\<lambda>_.
            eff_return run)))))"

definition gateway_run ::
  "'w chat_backend \<Rightarrow> chat_agent_request \<Rightarrow> ('w, 'x) chat_sink \<Rightarrow> (('w, 'x) chat_scheme, string, chat_run) effect" where
  "gateway_run bk request sink =
     eff_bind (requireIdentity bk (cr_ref request)) (\<lambda>identity.
     eff_catch (run_session bk identity request sink) (\<lambda>e.
       eff_bind (cs_failed sink e) (\<lambda>_. eff_throw e)))"

definition listConversations :: "'w chat_backend \<Rightarrow> chat_conversation \<Rightarrow> (('w, 'x) chat_scheme, string, relay_session list) effect" where
  "listConversations bk ref =
     eff_bind (requireIdentity bk ref) (\<lambda>_.
     case bk_listConversationSessions bk of
       None \<Rightarrow> eff_return []
     | Some f \<Rightarrow> in_chat (ListConversationSessions ref) (f ref))"

definition conversationBinding :: "'w chat_backend \<Rightarrow> chat_conversation \<Rightarrow> (('w, 'x) chat_scheme, string, chat_binding option) effect" where
  "conversationBinding bk ref =
     eff_bind (requireIdentity bk ref) (\<lambda>_.
     case bk_resolveConversationBinding bk of
       None \<Rightarrow> eff_return None
     | Some f \<Rightarrow> in_chat (ResolveConversationBinding ref) (f ref))"

definition switchConversation :: "'w chat_backend \<Rightarrow> chat_conversation \<Rightarrow> string \<Rightarrow> (('w, 'x) chat_scheme, string, unit) effect" where
  "switchConversation bk ref sessionId =
     eff_bind (requireIdentity bk ref) (\<lambda>_.
     case bk_bindConversationSession bk of
       None \<Rightarrow> eff_return ()
     | Some f \<Rightarrow> in_chat (BindConversationSession ref sessionId) (f ref sessionId))"

definition gateway_cancel ::
  "'w chat_backend \<Rightarrow> chat_conversation \<Rightarrow> string \<Rightarrow> string option \<Rightarrow> (('w, 'x) chat_scheme, string, relay_session) effect" where
  "gateway_cancel bk ref sessionId reason =
     eff_bind (requireIdentity bk ref) (\<lambda>identity.
     case bk_cancelSessionRun bk of
       None \<Rightarrow> eff_throw ''The Relay backend does not support session cancellation.''
     | Some f \<Rightarrow> in_chat (CancelSessionRun sessionId reason (ci_employeeId identity)) (f sessionId reason (ci_employeeId identity)))"

definition gateway_status :: "'w chat_backend \<Rightarrow> chat_conversation \<Rightarrow> string \<Rightarrow> (('w, 'x) chat_scheme, string, relay_session) effect" where
  "gateway_status bk ref sessionId =
     eff_bind (requireIdentity bk ref) (\<lambda>identity.
     in_chat (GetSession sessionId (ci_employeeId identity)) (bk_getSession bk sessionId (ci_employeeId identity)))"

text \<open>The stream hands its events to the sink one by one and ends, or fails after some of them.\<close>

definition follow_stream ::
  "'w chat_backend \<Rightarrow> string \<Rightarrow> string \<Rightarrow> ('w, 'x) chat_sink \<Rightarrow> (('w, 'x) chat_scheme, string, unit) effect" where
  "follow_stream bk sessionId employeeId sink =
     eff_bind (in_chat (StreamSessionEvents sessionId employeeId) (bk_streamSessionEvents bk sessionId employeeId)) (\<lambda>(events, failure).
     eff_bind (eff_for (cs_event sink sessionId) events) (\<lambda>_.
     case failure of Some e \<Rightarrow> eff_throw e | None \<Rightarrow> eff_return ()))"

definition followSession ::
  "'w chat_backend \<Rightarrow> string \<Rightarrow> string \<Rightarrow> ('w, 'x) chat_sink \<Rightarrow> (('w, 'x) chat_scheme, string, unit) effect" where
  "followSession bk sessionId employeeId sink =
     eff_catch
       (eff_bind (follow_stream bk sessionId employeeId sink) (\<lambda>_.
        eff_bind (in_chat (GetSession sessionId employeeId) (bk_getSession bk sessionId employeeId)) (\<lambda>session.
        cs_completed sink session)))
       (cs_failed sink)"

section \<open>Calls are made for the linked employee\<close>

fun call_employee :: "chat_call \<Rightarrow> string option" where
  "call_employee (ListEmployeeAgents e) = Some e"
| "call_employee (StartAgentRun i) = Some (ri_employeeId i)"
| "call_employee (ContinueThread i) = Some (ti_employeeId i)"
| "call_employee (CancelSessionRun sid reason e) = Some e"
| "call_employee (GetSession sid e) = Some e"
| "call_employee (StreamSessionEvents sid e) = Some e"
| "call_employee _ = None"

definition linked :: "(chat_call \<times> bool) list \<Rightarrow> string \<Rightarrow> ('w, 'x) chat_scheme \<Rightarrow> bool" where
  "linked tr e s \<longleftrightarrow> (\<exists>calls. ch_trace s = tr @ calls \<and> (\<forall>c \<in> set calls. call_employee (fst c) \<in> {None, Some e}))"

lemma eff_inv_try: "eff_inv I m \<Longrightarrow> eff_inv I (eff_try m)"
  by (auto simp: eff_inv_def eff_try_def split: prod.split)

definition sink_keeps :: "(('w, 'x) chat_scheme \<Rightarrow> bool) \<Rightarrow> ('w, 'x) chat_sink \<Rightarrow> bool" where
  "sink_keeps I sink \<longleftrightarrow>
     (\<forall>run. eff_inv I (cs_started sink run)) \<and> (\<forall>e run. eff_inv I (cs_degraded sink e run)) \<and> (\<forall>e. eff_inv I (cs_failed sink e))"

text \<open>An invariant that calls for one employee keep is kept by a run for that employee.\<close>

definition calls_keep :: "string \<Rightarrow> (('w, 'x) chat_scheme \<Rightarrow> bool) \<Rightarrow> bool" where
  "calls_keep e I \<longleftrightarrow>
     (\<forall>s w c ok. I s \<longrightarrow> call_employee c \<in> {None, Some e} \<longrightarrow> I (s\<lparr>ch_world := w, ch_trace := ch_trace s @ [(c, ok)]\<rparr>)) \<and>
     (\<forall>s f. I s \<longrightarrow> I (s\<lparr>ch_following := f\<rparr>))"

lemma chat_call_inv: "calls_keep e I \<Longrightarrow> call_employee c \<in> {None, Some e} \<Longrightarrow> eff_inv I (in_chat c m)"
  unfolding eff_inv_def in_chat_def calls_keep_def by (auto split: prod.split)

lemma following_inv: "calls_keep e I \<Longrightarrow> eff_inv I (begin_following sid emp)"
  by (auto simp: begin_following_def calls_keep_def)

lemma run_session_inv:
  assumes I: "calls_keep (ci_employeeId identity) I" and "sink_keeps I sink"
  shows "eff_inv I (run_session bk identity request sink)"
proof -
  note call = chat_call_inv [OF I]
  have sink: "eff_inv I (cs_started sink run)" "eff_inv I (cs_degraded sink e run)" for e run
    using assms(2) by (simp_all add: sink_keeps_def)
  have bound: "eff_inv I (bound_session bk request)"
    by (auto simp: bound_session_def intro!: call split: option.split)
  have continue: "eff_inv I (continue_session bk identity request sid)" for sid
    by (auto simp: continue_session_def Let_def intro!: call split: option.split)
  have start: "eff_inv I (start_session bk identity request)"
    by (auto simp: start_session_def resolveAgentId_def Let_def intro!: call eff_inv_bind split: option.split)
  have bind: "eff_inv I (bind_session bk ref sid)" for ref sid
    by (auto simp: bind_session_def intro!: call split: option.split)
  show ?thesis
    unfolding run_session_def Let_def
    by (intro eff_inv_bind bound) (auto intro!: eff_inv_bind eff_inv_try continue start bind sink following_inv [OF I] split: option.split sum.split)
qed

lemma linked_calls: "calls_keep e (linked tr e)"
  by (auto simp: calls_keep_def linked_def)

lemma requireIdentity_inv: "calls_keep e I \<Longrightarrow> eff_inv I (requireIdentity bk ref)"
  by (auto simp: requireIdentity_def intro!: eff_inv_bind chat_call_inv split: option.split)

lemma gateway_run_inv:
  assumes "\<And>e. calls_keep e I" and "sink_keeps I sink"
  shows "eff_inv I (gateway_run bk request sink)"
  using assms by (auto simp: gateway_run_def sink_keeps_def intro!: eff_inv_bind eff_inv_catch requireIdentity_inv run_session_inv)

text \<open>C34. A run of the gateway calls the backend only in the name of the employee the identity resolver links to the author of the
message; when it links none, or fails, nothing else is called and the run fails.\<close>

theorem gateway_acts_for_linked_employee:
  assumes sink: "\<And>tr e. sink_keeps (linked tr e) sink" and run: "gateway_run bk request sink s = (r, t)"
  shows "case fst (bk_resolveIdentity bk (cr_ref request) (ch_world s)) of
           Inr (Some i) \<Rightarrow> linked (ch_trace s) (ci_employeeId i) t
         | res \<Rightarrow> ch_trace t = ch_trace s @ [(ResolveIdentity (cr_ref request), \<not> isl res)] \<and> isl r"
proof -
  obtain res w where res: "bk_resolveIdentity bk (cr_ref request) (ch_world s) = (res, w)" by fastforce
  let ?s = "s\<lparr>ch_world := w, ch_trace := ch_trace s @ [(ResolveIdentity (cr_ref request), \<exists>a. res = Inr a)]\<rparr>"
  consider e where "res = Inl e" | "res = Inr None" | i where "res = Inr (Some i)" by (metis sumE option.exhaust)
  then show ?thesis
  proof cases
    case (3 i)
    let ?I = "linked (ch_trace s) (ci_employeeId i)"
    have base: "?I ?s" by (simp add: linked_def)
    have inv: "eff_inv ?I (eff_catch (run_session bk i request sink) (\<lambda>e. eff_bind (cs_failed sink e) (\<lambda>_. eff_throw e)))"
      using sink by (intro eff_inv_catch run_session_inv [OF linked_calls] eff_inv_bind) (auto simp: sink_keeps_def)
    have "eff_catch (run_session bk i request sink) (\<lambda>e. eff_bind (cs_failed sink e) (\<lambda>_. eff_throw e)) ?s = (r, t)"
      using run by (simp add: gateway_run_def requireIdentity_def eff_bind_def in_chat_def res 3 eff_return_def)
    from eff_invD [OF inv this base] show ?thesis by (simp add: res 3)
  qed (use run in \<open>auto simp: gateway_run_def requireIdentity_def eff_bind_def in_chat_def res eff_throw_def\<close>)
qed

theorem gateway_acts_for_linked_employee_witness:
  "linked [] ''e''
     (snd (gateway_run
        \<lparr>bk_resolveIdentity = (\<lambda>_. eff_return (Some \<lparr>ci_employeeId = ''e'', ci_displayName = None, ci_defaultAgentId = Some ''a'', ci_isAdmin = None\<rparr>)),
         bk_listEmployeeAgents = Some (\<lambda>_. eff_return []), bk_startAgentRun = None, bk_continueThread = None, bk_cancelSessionRun = None,
         bk_getSession = (\<lambda>_ _. eff_throw ''gone''), bk_streamSessionEvents = (\<lambda>_ _. eff_throw ''gone''),
         bk_resolveConversationSession = None, bk_resolveConversationBinding = None, bk_bindConversationSession = None,
         bk_listConversationSessions = None\<rparr>
        \<lparr>cr_ref = \<lparr>cc_provider = Lark, cc_externalUserId = ''u'', cc_conversationId = ''c'', cc_threadId = None, cc_messageId = None, cc_tenantId = None\<rparr>,
         cr_taskGoal = ''hi'', cr_agentId = None, cr_sessionId = None, cr_forceNew = False, cr_idempotencyKey = None\<rparr>
        \<lparr>cs_started = \<lambda>_. eff_return (), cs_event = \<lambda>_ _. eff_return (), cs_completed = \<lambda>_. eff_return (),
         cs_degraded = \<lambda>_ _. eff_return (), cs_failed = \<lambda>_. eff_return ()\<rparr>
        \<lparr>ch_world = (), ch_trace = [], ch_following = []\<rparr>))"
  (is "linked [] ''e'' (snd (gateway_run ?bk ?request ?sink ?s))")
proof -
  have "sink_keeps (linked tr e) ?sink" for tr e by (simp add: sink_keeps_def)
  from gateway_acts_for_linked_employee [OF this surjective_pairing, of ?bk ?request ?s]
  show ?thesis by (simp add: eff_return_def)
qed

section \<open>What a run reports\<close>

text \<open>The calls that have put work on a session.\<close>

fun starts_work :: "chat_call \<Rightarrow> bool" where
  "starts_work (StartAgentRun i) = True"
| "starts_work (ContinueThread i) = True"
| "starts_work _ = False"

definition work_started :: "('w, 'x) chat_scheme \<Rightarrow> nat" where
  "work_started s = length (filter (\<lambda>(c, ok). ok \<and> starts_work c) (ch_trace s))"

lemma chat_triple_call:
  "\<not> starts_work c \<Longrightarrow> eff_triple (\<lambda>s. work_started s = n) (in_chat c m) (\<lambda>_ s. work_started s = n) (\<lambda>_ s. work_started s = n)"
  by (auto simp: eff_triple_def eff_wp_def in_chat_def work_started_def split: prod.split sum.split)

lemma triple_start_call:
  "starts_work c \<Longrightarrow> eff_triple (\<lambda>s. work_started s = n) (in_chat c m) (\<lambda>_ s. work_started s = Suc n) (\<lambda>_ s. work_started s = n)"
  by (auto simp: eff_triple_def eff_wp_def in_chat_def work_started_def split: prod.split sum.split)

lemma triple_identity:
  "eff_triple (\<lambda>s. work_started s = n) (requireIdentity bk ref) (\<lambda>_ s. work_started s = n) (\<lambda>_ s. work_started s = n)"
  unfolding requireIdentity_def
  by (rule triple_bind, rule chat_triple_call, simp, rule triple_option, rule triple_throw, simp, rule triple_return, simp)

lemma triple_bound:
  "eff_triple (\<lambda>s. work_started s = n) (bound_session bk request) (\<lambda>_ s. work_started s = n) (\<lambda>_ s. work_started s = n)"
  unfolding bound_session_def
  by (rule triple_if, rule triple_option, rule triple_return, simp, rule triple_bind, rule chat_triple_call, simp, rule triple_return, simp,
      rule triple_return, simp)

lemma triple_continue:
  "eff_triple (\<lambda>s. work_started s = n) (continue_session bk identity request sid) (\<lambda>_ s. work_started s = Suc n) (\<lambda>_ s. work_started s = n)"
  unfolding continue_session_def Let_def
  by (rule triple_option, rule triple_throw, simp, rule triple_start_call, simp)

lemma chat_triple_start:
  "eff_triple (\<lambda>s. work_started s = n) (start_session bk identity request) (\<lambda>_ s. work_started s = Suc n) (\<lambda>_ s. work_started s = n)"
proof -
  have agents: "eff_triple (\<lambda>s. work_started s = n) (resolveAgentId bk identity a) (\<lambda>_ s. work_started s = n) (\<lambda>_ s. work_started s = n)" for a
    unfolding resolveAgentId_def Let_def
    by (rule triple_bind [where R = "\<lambda>_ s. work_started s = n"]) (auto intro!: triple_option triple_return chat_triple_call)
  show ?thesis
    unfolding start_session_def Let_def
    by (rule triple_bind [OF agents]) (auto intro!: triple_throw triple_start_call split: option.split)
qed

lemma triple_bind_session:
  "eff_triple (\<lambda>s. work_started s = n) (bind_session bk ref sid) (\<lambda>_ s. work_started s = n) (\<lambda>_ s. work_started s = n)"
  unfolding bind_session_def by (rule triple_option, rule triple_throw, simp, rule chat_triple_call, simp)

lemma triple_try: "eff_triple P m (\<lambda>_. R) (\<lambda>_. R) \<Longrightarrow> eff_triple P (eff_try m) (\<lambda>_. R) E"
  by (auto simp: eff_triple_def wp_try)

text \<open>
  What the gateway asks of a sink: once work has been started the report of it is in \<open>reported\<close> or the report has failed and the
  state is in \<open>broken\<close>; further reports keep both, and reporting a failure starts no work.
\<close>

locale chat_reports =
  fixes sink :: "('w, 'x) chat_sink" and n :: nat
    and reported broken :: "('w, 'x) chat_scheme \<Rightarrow> bool"
  assumes started_reports: "eff_triple (\<lambda>s. work_started s = Suc n) (cs_started sink run) (\<lambda>_. reported) (\<lambda>_. broken)"
    and degraded_reports: "eff_triple reported (cs_degraded sink e run) (\<lambda>_. reported) (\<lambda>_. broken)"
    and following_reports: "reported s \<Longrightarrow> reported (s\<lparr>ch_following := f\<rparr>)"
    and failed_idle: "eff_triple (\<lambda>s. work_started s = n) (cs_failed sink e) (\<lambda>_ s. work_started s = n) (\<lambda>_ s. work_started s = n)"
    and failed_broken: "eff_triple broken (cs_failed sink e) (\<lambda>_. broken) (\<lambda>_. broken)"
begin

lemma following_reported: "eff_triple reported (begin_following sid emp) (\<lambda>_. reported) E"
  by (simp add: begin_following_def eff_triple_def wp_modify following_reports)

lemma run_session_reports:
  "eff_triple (\<lambda>s. work_started s = n) (run_session bk identity request sink) (\<lambda>_. reported) (\<lambda>_ s. work_started s = n \<or> broken s)"
proof -
  have idle: "eff_triple P m Q (\<lambda>_ s. work_started s = n) \<Longrightarrow> eff_triple P m Q (\<lambda>_ s. work_started s = n \<or> broken s)"
    for P Q and m :: "(('w, 'x) chat_scheme, string, 'z) effect"
    by (erule triple_conseq) simp_all
  have broke: "eff_triple P m Q (\<lambda>_. broken) \<Longrightarrow> eff_triple P m Q (\<lambda>_ s. work_started s = n \<or> broken s)"
    for P Q and m :: "(('w, 'x) chat_scheme, string, 'z) effect"
    by (erule triple_conseq) simp_all
  have work: "eff_triple (\<lambda>s. work_started s = n)
      (case truthy_or_none sid of Some k \<Rightarrow> continue_session bk identity request k | None \<Rightarrow> start_session bk identity request)
      (\<lambda>_ s. work_started s = Suc n) (\<lambda>_ s. work_started s = n \<or> broken s)" for sid
    by (rule triple_option) (rule idle, rule chat_triple_start, rule idle, rule triple_continue)
  show ?thesis
    unfolding run_session_def Let_def
  proof (rule triple_bind [OF idle [OF triple_bound]], rule triple_bind [OF work], rule triple_bind)
    show "eff_triple (\<lambda>s. work_started s = Suc n) (eff_try (bind_session bk ref sid)) (\<lambda>_ s. work_started s = Suc n)
        (\<lambda>_ s. work_started s = n \<or> broken s)" for ref sid
      by (rule triple_try, rule triple_bind_session)
  qed (rule triple_sum; rule triple_bind [OF broke [OF started_reports]];
      (rule triple_bind [OF broke [OF degraded_reports]])?; rule triple_bind [OF following_reported]; rule triple_return; assumption)
qed

lemma gateway_reports:
  "eff_triple (\<lambda>s. work_started s = n) (gateway_run bk request sink) (\<lambda>_. reported) (\<lambda>_ s. work_started s = n \<or> broken s)"
proof -
  let ?P = "\<lambda>s. work_started s = n \<or> broken s"
  have report: "eff_triple ?P (cs_failed sink e) (\<lambda>_. ?P) (\<lambda>_. ?P)" for e
    unfolding eff_triple_def
  proof (intro allI impI, elim disjE)
    show "eff_wp (cs_failed sink e) (\<lambda>_. ?P) (\<lambda>_. ?P) s" if "work_started s = n" for s
      by (rule wp_mono [OF eff_tripleD [OF failed_idle that]]) simp_all
    show "eff_wp (cs_failed sink e) (\<lambda>_. ?P) (\<lambda>_. ?P) s" if "broken s" for s
      by (rule wp_mono [OF eff_tripleD [OF failed_broken that]]) simp_all
  qed
  have failed: "eff_triple ?P (eff_bind (cs_failed sink e) (\<lambda>_. eff_throw e)) Q (\<lambda>_. ?P)"
    for e :: string and Q :: "chat_run \<Rightarrow> ('w, 'x) chat_scheme \<Rightarrow> bool"
    by (rule triple_bind [OF report triple_throw])
  show ?thesis
    unfolding gateway_run_def
    by (rule triple_bind, rule triple_conseq [OF triple_identity], assumption, assumption, simp,
        rule triple_catch [OF run_session_reports failed])
qed

end

end
