(* ===== verification/Event_Receipts.thy ===== *)
theory Event_Receipts
  imports Relay_Prelude "HOL-Library.AList"
begin

text \<open>
  The receipts of provider events: \<open>MemoryProviderEventStore\<close> and \<open>FileProviderEventStore\<close> of
  \<open>packages/relay-chat/src/providers/runtime.ts\<close>. The operations of the file store hold a lock file, so each is one step here;
  the clock is an argument and stands still during a step. A line of the file is the record it parses to or an old line that is a
  key alone. The locale \<open>receipts\<close> is what the handlers rely on.
\<close>

section \<open>Receipts\<close>

datatype receipt_state = ReceiptPending | ReceiptCompleted

record receipt =
  rc_state :: receipt_state
  rc_at :: int

definition PENDING_MS :: int where "PENDING_MS = 60000"
definition WEEK_MS :: int where "WEEK_MS = 7 * 24 * 60 * 60000"

definition receipt_key :: "string \<Rightarrow> string \<Rightarrow> string" where
  "receipt_key namespace eventId = namespace @ CHR '':'' # eventId"

section \<open>In memory\<close>

type_synonym memory_store = "string \<rightharpoonup> receipt"

definition memory_blocks :: "memory_store \<Rightarrow> string \<Rightarrow> int \<Rightarrow> bool" where
  "memory_blocks m k now =
     (case m k of
        None \<Rightarrow> False
      | Some r \<Rightarrow> rc_state r = ReceiptCompleted \<or> (rc_state r = ReceiptPending \<and> now - rc_at r < PENDING_MS))"

definition memory_claim :: "int \<Rightarrow> string \<Rightarrow> memory_store \<Rightarrow> bool \<times> memory_store" where
  "memory_claim now k m =
     (if memory_blocks m k now then (False, m) else (True, m(k \<mapsto> \<lparr>rc_state = ReceiptPending, rc_at = now\<rparr>)))"

definition memory_complete :: "int \<Rightarrow> string \<Rightarrow> memory_store \<Rightarrow> memory_store" where
  "memory_complete now k m = m(k \<mapsto> \<lparr>rc_state = ReceiptCompleted, rc_at = now\<rparr>)"

definition memory_release :: "int \<Rightarrow> string \<Rightarrow> memory_store \<Rightarrow> memory_store" where
  "memory_release now k m = m(k := None)"

section \<open>In a file\<close>

datatype receipt_line = LineState string receipt_state int | LineReleased string int | OldLine string

record file_store =
  fs_lines :: "receipt_line list"
  fs_writes :: nat

type_synonym receipt_records = "(string \<times> receipt) list"

fun load_line :: "int \<Rightarrow> receipt_line \<Rightarrow> receipt_records \<Rightarrow> receipt_records" where
  "load_line now (LineState k st at) rs = AList.update k \<lparr>rc_state = st, rc_at = at\<rparr> rs"
| "load_line now (LineReleased k at) rs = AList.delete k rs"
| "load_line now (OldLine k) rs = AList.update k \<lparr>rc_state = ReceiptCompleted, rc_at = now\<rparr> rs"

definition load_lines :: "int \<Rightarrow> receipt_line list \<Rightarrow> receipt_records" where
  "load_lines now ls = fold (load_line now) ls []"

text \<open>Completed receipts older than a week are left out of the new file.\<close>

definition expired :: "int \<Rightarrow> receipt \<Rightarrow> bool" where
  "expired now r \<longleftrightarrow> rc_state r = ReceiptCompleted \<and> rc_at r < now - WEEK_MS"

definition compact_store :: "int \<Rightarrow> receipt_records \<Rightarrow> file_store" where
  "compact_store now rs =
     \<lparr>fs_lines = map (\<lambda>(k, r). LineState k (rc_state r) (rc_at r)) (filter (\<lambda>(k, r). \<not> expired now r) rs), fs_writes = 0\<rparr>"

definition COMPACT_WRITES :: nat where "COMPACT_WRITES = 1000"

definition record_line :: "int \<Rightarrow> receipt_line \<Rightarrow> file_store \<Rightarrow> file_store" where
  "record_line now l f =
     (let rs = load_line now l (load_lines now (fs_lines f));
          f = \<lparr>fs_lines = fs_lines f @ [l], fs_writes = Suc (fs_writes f)\<rparr>
      in if COMPACT_WRITES \<le> fs_writes f then compact_store now rs else f)"

definition receipt_blocks :: "receipt option \<Rightarrow> int \<Rightarrow> bool" where
  "receipt_blocks r now =
     (case r of
        None \<Rightarrow> False
      | Some r \<Rightarrow> (rc_state r = ReceiptCompleted \<and> now - rc_at r < WEEK_MS) \<or> (rc_state r = ReceiptPending \<and> now - rc_at r < PENDING_MS))"

definition file_blocks :: "file_store \<Rightarrow> string \<Rightarrow> int \<Rightarrow> bool" where
  "file_blocks f k now = receipt_blocks (map_of (load_lines now (fs_lines f)) k) now"

definition file_claim :: "int \<Rightarrow> string \<Rightarrow> file_store \<Rightarrow> bool \<times> file_store" where
  "file_claim now k f = (if file_blocks f k now then (False, f) else (True, record_line now (LineState k ReceiptPending now) f))"

definition file_complete :: "int \<Rightarrow> string \<Rightarrow> file_store \<Rightarrow> file_store" where
  "file_complete now k f = record_line now (LineState k ReceiptCompleted now) f"

definition file_release :: "int \<Rightarrow> string \<Rightarrow> file_store \<Rightarrow> file_store" where
  "file_release now k f = record_line now (LineReleased k now) f"

section \<open>What the handlers rely on\<close>

datatype receipt_op = ClaimEvent string | CompleteEvent string | ReleaseEvent string

primrec op_key :: "receipt_op \<Rightarrow> string" where
  "op_key (ClaimEvent k) = k"
| "op_key (CompleteEvent k) = k"
| "op_key (ReleaseEvent k) = k"

text \<open>
  A store answers a claim by what blocks the event then; a claim that succeeds blocks it for a minute and completion for a week,
  and an operation leaves the other events as they are. \<open>good\<close> is the invariant of the store.
\<close>

locale receipts =
  fixes claim :: "int \<Rightarrow> string \<Rightarrow> 's \<Rightarrow> bool \<times> 's" and complete release :: "int \<Rightarrow> string \<Rightarrow> 's \<Rightarrow> 's"
    and blocks :: "'s \<Rightarrow> string \<Rightarrow> int \<Rightarrow> bool" and good :: "'s \<Rightarrow> bool"
  assumes claim_answer: "good s \<Longrightarrow> fst (claim now k s) = (\<not> blocks s k now)"
    and claim_refused: "good s \<Longrightarrow> blocks s k now \<Longrightarrow> snd (claim now k s) = s"
    and claim_blocks: "good s \<Longrightarrow> \<not> blocks s k now \<Longrightarrow> now \<le> u \<Longrightarrow> u < now + PENDING_MS \<Longrightarrow> blocks (snd (claim now k s)) k u"
    and complete_blocks: "good s \<Longrightarrow> now \<le> u \<Longrightarrow> u < now + WEEK_MS \<Longrightarrow> blocks (complete now k s) k u"
    and release_frees: "good s \<Longrightarrow> now \<le> u \<Longrightarrow> \<not> blocks (release now k s) k u"
    and claim_others: "good s \<Longrightarrow> k' \<noteq> k \<Longrightarrow> now \<le> u \<Longrightarrow> blocks (snd (claim now k s)) k' u = blocks s k' u"
    and complete_others: "good s \<Longrightarrow> k' \<noteq> k \<Longrightarrow> now \<le> u \<Longrightarrow> blocks (complete now k s) k' u = blocks s k' u"
    and release_others: "good s \<Longrightarrow> k' \<noteq> k \<Longrightarrow> now \<le> u \<Longrightarrow> blocks (release now k s) k' u = blocks s k' u"
    and good_claim: "good s \<Longrightarrow> good (snd (claim now k s))"
    and good_complete: "good s \<Longrightarrow> good (complete now k s)"
    and good_release: "good s \<Longrightarrow> good (release now k s)"
begin

definition step :: "int \<Rightarrow> receipt_op \<Rightarrow> 's \<Rightarrow> bool \<times> 's" where
  "step now op s =
     (case op of ClaimEvent k \<Rightarrow> claim now k s | CompleteEvent k \<Rightarrow> (True, complete now k s) | ReleaseEvent k \<Rightarrow> (True, release now k s))"

text \<open>The answers of a store to operations at the given times.\<close>

fun answers :: "(int \<times> receipt_op) list \<Rightarrow> 's \<Rightarrow> bool list" where
  "answers [] s = []"
| "answers ((now, op) # ops) s = fst (step now op s) # answers ops (snd (step now op s))"

lemma good_step: "good s \<Longrightarrow> good (snd (step now op s))"
  by (cases op) (simp_all add: step_def good_claim good_complete good_release)

lemma step_others: "good s \<Longrightarrow> op_key op \<noteq> k \<Longrightarrow> now \<le> u \<Longrightarrow> blocks (snd (step now op s)) k u = blocks s k u"
  by (cases op) (auto simp: step_def claim_others complete_others release_others)

text \<open>While an event is blocked and is not released, every claim of it is refused.\<close>

lemma blocked_refused:
  assumes "good s" and "\<And>u. t \<le> u \<Longrightarrow> u < until \<Longrightarrow> blocks s k u"
    and "sorted (map fst ops)" and "\<forall>(now, op) \<in> set ops. t \<le> now \<and> now < until \<and> (op_key op = k \<longrightarrow> op = ClaimEvent k)"
    and "i < length ops" and "snd (ops ! i) = ClaimEvent k"
  shows "\<not> answers ops s ! i"
  using assms
proof (induction ops arbitrary: s t i)
  case (Cons x ops)
  obtain now op where x: "x = (now, op)" by (cases x)
  have now: "t \<le> now" "now < until" and op: "op_key op = k \<Longrightarrow> op = ClaimEvent k" using Cons.prems(4) x by auto
  have blocked: "blocks s k now" using Cons.prems(2) now by simp
  have refused: "op = ClaimEvent k \<Longrightarrow> step now op s = (False, s)"
    using claim_answer [OF Cons.prems(1), of now k] claim_refused [OF Cons.prems(1) blocked] blocked
    by (simp add: step_def prod_eq_iff)
  show ?case
  proof (cases i)
    case 0
    with Cons.prems(6) x refused show ?thesis by simp
  next
    case (Suc j)
    let ?s = "snd (step now op s)"
    have after: "blocks ?s k u" if "now \<le> u" "u < until" for u
    proof (cases "op_key op = k")
      case True
      then show ?thesis using refused op Cons.prems(2) now that by simp
    next
      case False
      then show ?thesis using step_others [OF Cons.prems(1) False that(1)] Cons.prems(2) now that by simp
    qed
    have "\<not> answers ops ?s ! j"
    proof (rule Cons.IH)
      show "good ?s" by (rule good_step [OF Cons.prems(1)])
      show "blocks ?s k u" if "now \<le> u" "u < until" for u by (rule after [OF that])
      show "sorted (map fst ops)" using Cons.prems(3) by simp
      show "\<forall>(m, op') \<in> set ops. now \<le> m \<and> m < until \<and> (op_key op' = k \<longrightarrow> op' = ClaimEvent k)"
        using Cons.prems(3,4) x by fastforce
    qed (use Cons.prems(5,6) Suc in simp_all)
    then show ?thesis using Suc x by simp
  qed
qed simp

end

section \<open>The stores keep it\<close>

interpretation memory_receipts: receipts memory_claim memory_complete memory_release memory_blocks "\<lambda>_. True"
  by unfold_locales
    (auto simp: memory_claim_def memory_complete_def memory_release_def memory_blocks_def split: option.splits)

text \<open>A file without old lines means the same at every time.\<close>

definition dated :: "file_store \<Rightarrow> bool" where
  "dated f \<longleftrightarrow> list_all (\<lambda>l. case l of OldLine k \<Rightarrow> False | _ \<Rightarrow> True) (fs_lines f)"

fun line_effect :: "receipt_line \<Rightarrow> (string \<rightharpoonup> receipt) \<Rightarrow> (string \<rightharpoonup> receipt)" where
  "line_effect (LineState k st at) m = m(k \<mapsto> \<lparr>rc_state = st, rc_at = at\<rparr>)"
| "line_effect (LineReleased k at) m = m(k := None)"
| "line_effect (OldLine k) m = m"

definition file_view :: "file_store \<Rightarrow> (string \<rightharpoonup> receipt)" where
  "file_view f = fold line_effect (fs_lines f) Map.empty"

lemma load_line_view: "(case l of OldLine k \<Rightarrow> False | _ \<Rightarrow> True) \<Longrightarrow> map_of (load_line t l rs) = line_effect l (map_of rs)"
  by (cases l) (simp_all add: update_conv' delete_conv')

lemma load_fold_view:
  "list_all (\<lambda>l. case l of OldLine k \<Rightarrow> False | _ \<Rightarrow> True) ls \<Longrightarrow> map_of (fold (load_line t) ls rs) = fold line_effect ls (map_of rs)"
  by (induction ls arbitrary: rs) (simp_all add: load_line_view)

lemma load_view: "dated f \<Longrightarrow> map_of (load_lines t (fs_lines f)) = file_view f"
  by (simp add: load_lines_def load_fold_view dated_def file_view_def)

lemma load_distinct: "distinct (map fst rs) \<Longrightarrow> distinct (map fst (fold (load_line t) ls rs))"
proof (induction ls arbitrary: rs)
  case (Cons l ls)
  then have "distinct (map fst (load_line t l rs))" by (cases l) (simp_all add: distinct_update distinct_delete)
  with Cons.IH show ?case by simp
qed simp

lemma states_view:
  "distinct (map fst rs) \<Longrightarrow> fold line_effect (map (\<lambda>(k, r). LineState k (rc_state r) (rc_at r)) rs) m = m ++ map_of rs"
proof (induction rs arbitrary: m)
  case (Cons x rs)
  obtain k r where x: "x = (k, r)" by (cases x)
  have "k \<notin> fst ` set rs" using Cons.prems x by auto
  then have "map_of rs k = None" by (simp add: map_of_eq_None_iff)
  then have "m(k \<mapsto> r) ++ map_of rs = m ++ (map_of rs)(k \<mapsto> r)" by (auto simp: map_add_def fun_eq_iff split: option.split)
  moreover have "\<lparr>rc_state = rc_state r, rc_at = rc_at r\<rparr> = r" by simp
  ultimately show ?case using Cons x by (simp only: list.map fold_Cons comp_apply prod.case line_effect.simps map_of.simps fst_conv snd_conv list.simps distinct.simps)
qed simp

lemma compact_dated: "dated (compact_store now rs)"
  by (auto simp: dated_def compact_store_def list_all_iff)

lemma compact_view: "distinct (map fst rs) \<Longrightarrow> file_view (compact_store now rs) = map_of (filter (\<lambda>(k, r). \<not> expired now r) rs)"
  using states_view [OF distinct_map_filter, of rs "\<lambda>(k, r). \<not> expired now r" Map.empty]
  by (simp add: file_view_def compact_store_def)

lemma filtered_blocks:
  "distinct (map fst rs) \<Longrightarrow> now \<le> u \<Longrightarrow>
   receipt_blocks (map_of (filter (\<lambda>(k, r). \<not> expired now r) rs) k) u = receipt_blocks (map_of rs k) u"
proof (induction rs)
  case (Cons x rs)
  obtain k' r where x: "x = (k', r)" by (cases x)
  show ?case
  proof (cases "k' = k \<and> expired now r")
    case True
    then have "k \<notin> fst ` set (filter (\<lambda>(k, r). \<not> expired now r) rs)" using Cons.prems(1) x by auto
    then have "map_of (filter (\<lambda>(k, r). \<not> expired now r) rs) k = None" by (simp add: map_of_eq_None_iff)
    with True x Cons.prems(2) show ?thesis by (auto simp: receipt_blocks_def expired_def)
  qed (use Cons x in auto)
qed simp

lemma record_dated: "dated f \<Longrightarrow> (case l of OldLine k \<Rightarrow> False | _ \<Rightarrow> True) \<Longrightarrow> dated (record_line now l f)"
  by (auto simp: record_line_def Let_def compact_dated) (simp add: dated_def)

lemma record_blocks:
  assumes "dated f" and "case l of OldLine k \<Rightarrow> False | _ \<Rightarrow> True" and "now \<le> u"
  shows "file_blocks (record_line now l f) k u = receipt_blocks (line_effect l (file_view f) k) u"
proof -
  let ?rs = "load_line now l (load_lines now (fs_lines f))"
  have rs: "map_of ?rs = line_effect l (file_view f)" by (simp add: load_line_view assms(2) load_view [OF assms(1)])
  have d: "distinct (map fst ?rs)"
    using load_distinct [of "[]" now "fs_lines f @ [l]"] by (simp add: load_lines_def)
  have view: "file_blocks g k u = receipt_blocks (file_view g k) u" if "dated g" for g by (simp add: file_blocks_def load_view [OF that])
  show ?thesis
  proof (cases "COMPACT_WRITES \<le> Suc (fs_writes f)")
    case True
    then have "record_line now l f = compact_store now ?rs" by (simp add: record_line_def Let_def)
    then show ?thesis
      using filtered_blocks [OF d assms(3), of k] by (simp add: view [OF compact_dated] compact_view [OF d] rs)
  next
    case False
    then have "record_line now l f = \<lparr>fs_lines = fs_lines f @ [l], fs_writes = Suc (fs_writes f)\<rparr>" by (simp add: record_line_def Let_def)
    then show ?thesis
      using view [OF record_dated [OF assms(1,2)], of now] by (simp add: file_view_def)
  qed
qed

lemma file_blocks_view: "dated f \<Longrightarrow> file_blocks f k u = receipt_blocks (file_view f k) u"
  by (simp add: file_blocks_def load_view)

interpretation file_receipts: receipts file_claim file_complete file_release file_blocks dated
proof
  fix f k k' and now u :: int
  assume f: "dated f"
  have step: "file_blocks (record_line now l f) k u = receipt_blocks (line_effect l (file_view f) k) u"
    if "now \<le> u" "case l of OldLine k \<Rightarrow> False | _ \<Rightarrow> True" for l k
    by (rule record_blocks [OF f that(2,1)])
  show "fst (file_claim now k f) = (\<not> file_blocks f k now)" by (simp add: file_claim_def)
  show "snd (file_claim now k f) = f" if "file_blocks f k now" using that by (simp add: file_claim_def)
  show "file_blocks (snd (file_claim now k f)) k u" if "\<not> file_blocks f k now" "now \<le> u" "u < now + PENDING_MS"
    using that step [of "LineState k ReceiptPending now" k] by (simp add: file_claim_def receipt_blocks_def)
  show "file_blocks (file_complete now k f) k u" if "now \<le> u" "u < now + WEEK_MS"
    using that step [of "LineState k ReceiptCompleted now" k] by (simp add: file_complete_def receipt_blocks_def)
  show "\<not> file_blocks (file_release now k f) k u" if "now \<le> u"
    using that step [of "LineReleased k now" k] by (simp add: file_release_def receipt_blocks_def)
  show "file_blocks (snd (file_claim now k f)) k' u = file_blocks f k' u" if "k' \<noteq> k" "now \<le> u"
    using that step [of "LineState k ReceiptPending now" k'] by (simp add: file_claim_def file_blocks_view [OF f])
  show "file_blocks (file_complete now k f) k' u = file_blocks f k' u" if "k' \<noteq> k" "now \<le> u"
    using that step [of "LineState k ReceiptCompleted now" k'] by (simp add: file_complete_def file_blocks_view [OF f])
  show "file_blocks (file_release now k f) k' u = file_blocks f k' u" if "k' \<noteq> k" "now \<le> u"
    using that step [of "LineReleased k now" k'] by (simp add: file_release_def file_blocks_view [OF f])
  show "dated (snd (file_claim now k f))" "dated (file_complete now k f)" "dated (file_release now k f)"
    using f by (simp_all add: file_claim_def file_complete_def file_release_def record_dated)
qed

text \<open>C36. Once an event is completed every delivery of it is refused for a week, whatever is claimed, completed and released for other
events in between and however often the file is compacted.\<close>

theorem completed_event_not_claimed:
  assumes "dated f" and "sorted (map fst ops)"
    and "\<forall>(now, op) \<in> set ops. t \<le> now \<and> now < t + WEEK_MS \<and> (op_key op = k \<longrightarrow> op = ClaimEvent k)"
    and "i < length ops" and "snd (ops ! i) = ClaimEvent k"
  shows "\<not> file_receipts.answers ops (file_complete t k f) ! i"
  by (rule file_receipts.blocked_refused [where t = t and until = "t + WEEK_MS"])
    (use assms in \<open>simp_all add: file_receipts.good_complete file_receipts.complete_blocks\<close>)

theorem completed_event_not_claimed_witness:
  "\<not> file_receipts.answers [(5, ClaimEvent ''b''), (7, ReleaseEvent ''b''), (9, ClaimEvent ''a'')]
       (file_complete 3 ''a'' \<lparr>fs_lines = [], fs_writes = 999\<rparr>) ! 2"
  by (rule completed_event_not_claimed [where t = 3 and k = "''a''"]) (simp_all add: dated_def WEEK_MS_def)

end
