(* ===== verification/Chat_Dispatch.thy ===== *)
theory Chat_Dispatch
  imports Chat_Gateway Event_Receipts Utf8_Text Js_Json
begin

text \<open>
  From a message of a chat provider to the gateway and back: \<open>dispatchProviderCommand\<close>, \<open>sessionSink\<close> and
  \<open>retryProviderDispatch\<close> of \<open>packages/relay-chat/src/providers/runtime.ts\<close>, the Telegram webhook of \<open>telegram.ts\<close>
  and the command text of \<open>discord.ts\<close>. Messages, receipts and the clock are effects that may fail;
  \<open>dp_runStarted\<close> is the variable of that name the webhook shares with the sink.
\<close>

section \<open>State and environment\<close>

datatype chat_message = MessageSent string | MessageEdited string string

record 'w dispatch = "'w chat" +
  dp_messages :: "(chat_message \<times> bool) list"
  dp_receipts :: "(receipt_op \<times> bool) list"
  dp_lastProgressAt :: int
  dp_runStarted :: bool

record 'w dispatch_env =
  de_backend :: "'w chat_backend"
  de_send :: "string \<Rightarrow> ('w, string, string option) effect"
  de_edit :: "string \<Rightarrow> string \<Rightarrow> ('w, string, unit) effect"
  de_now :: "'w \<Rightarrow> int \<times> 'w"
  de_ellipsis :: string

definition message_call :: "chat_message \<Rightarrow> ('w, string, 'a) effect \<Rightarrow> ('w dispatch, string, 'a) effect" where
  "message_call c m =
     (\<lambda>s. case m (ch_world s) of (r, w) \<Rightarrow> (r, s\<lparr>ch_world := w, dp_messages := dp_messages s @ [(c, \<not> isl r)]\<rparr>))"

definition receipt_call :: "receipt_op \<Rightarrow> ('w, string, 'a) effect \<Rightarrow> ('w dispatch, string, 'a) effect" where
  "receipt_call c m =
     (\<lambda>s. case m (ch_world s) of (r, w) \<Rightarrow> (r, s\<lparr>ch_world := w, dp_receipts := dp_receipts s @ [(c, \<not> isl r)]\<rparr>))"

definition send_text :: "'w dispatch_env \<Rightarrow> string \<Rightarrow> ('w dispatch, string, string option) effect" where
  "send_text env msg = message_call (MessageSent msg) (de_send env msg)"

definition edit_text :: "'w dispatch_env \<Rightarrow> string \<Rightarrow> string \<Rightarrow> ('w dispatch, string, unit) effect" where
  "edit_text env messageId msg = message_call (MessageEdited messageId msg) (de_edit env messageId msg)"

definition read_clock :: "'w dispatch_env \<Rightarrow> ('w dispatch, string, int) effect" where
  "read_clock env = (\<lambda>s. case de_now env (ch_world s) of (now, w) \<Rightarrow> (Inr now, s\<lparr>ch_world := w\<rparr>))"

section \<open>Reports of a session\<close>

definition session_status_text :: "SessionStatus \<Rightarrow> string" where
  "session_status_text st =
     (case st of ss_running \<Rightarrow> ''running'' | ss_waiting_for_human \<Rightarrow> ''waiting_for_human'' | ss_completed \<Rightarrow> ''completed''
      | ss_failed \<Rightarrow> ''failed'' | ss_cancelled \<Rightarrow> ''cancelled'')"

definition output_event :: "relay_event \<Rightarrow> bool" where
  "output_event ev = (case ev_payload ev of AgentOutput rid agent stream chunk seq \<Rightarrow> True | _ \<Rightarrow> False)"

definition sink_edit :: "'w dispatch_env \<Rightarrow> string option \<Rightarrow> string \<Rightarrow> ('w dispatch, string, unit) effect" where
  "sink_edit env messageId msg =
     (case truthy_or_none messageId of
        Some m \<Rightarrow> edit_text env m msg
      | None \<Rightarrow> eff_bind (send_text env msg) (\<lambda>_. eff_return ()))"

definition sink_progress :: "'w dispatch_env \<Rightarrow> string option \<Rightarrow> relay_event \<Rightarrow> ('w dispatch, string, unit) effect" where
  "sink_progress env messageId ev =
     (if \<not> output_event ev then eff_return ()
      else eff_bind (read_clock env) (\<lambda>now s.
        if now - dp_lastProgressAt s < 1000 then (Inr (), s)
        else eff_bind (read_clock env) (\<lambda>now.
             eff_bind (eff_modify (\<lambda>s. s\<lparr>dp_lastProgressAt := now\<rparr>)) (\<lambda>_.
             sink_edit env messageId (''Relay agent is working'' @ de_ellipsis env))) s))"

definition sessionSink ::
  "'w dispatch_env \<Rightarrow> string option \<Rightarrow> ('w dispatch, string, unit) effect \<Rightarrow> ('w, unit dispatch_ext) chat_sink" where
  "sessionSink env messageId runStarted =
     \<lparr>cs_started = (\<lambda>run. eff_bind runStarted (\<lambda>_. sink_edit env messageId (''Relay session '' @ rs_id (cu_session run) @ '' started.''))),
      cs_event = (\<lambda>sessionId ev. sink_progress env messageId ev),
      cs_completed = (\<lambda>session. sink_edit env messageId
          (''Relay session '' @ rs_id session @ '' '' @ session_status_text (rs_status session) @ ''.'')),
      cs_degraded = (\<lambda>e run. sink_edit env messageId ''Relay started, but conversation recovery could not be saved.''),
      cs_failed = (\<lambda>e. sink_edit env messageId (''Relay failed: '' @ e))\<rparr>"

section \<open>Dispatch of a command\<close>

definition progress_message :: "'w dispatch_env \<Rightarrow> chat_conversation \<Rightarrow> ('w dispatch, string, string option) effect" where
  "progress_message env ref =
     eff_bind (conversationBinding (de_backend env) ref) (\<lambda>existing.
     eff_bind (case truthy_or_none (Option.bind existing cb_providerMessageId) of
                 None \<Rightarrow> eff_return None
               | Some m \<Rightarrow>
                   if m = ''@original'' then eff_return None
                   else eff_catch (eff_bind (edit_text env m ''Relay request accepted.'') (\<lambda>_. eff_return (Some m)))
                          (\<lambda>_. eff_return None)) (\<lambda>progressId.
     case progressId of
       Some m \<Rightarrow> eff_return (Some m)
     | None \<Rightarrow>
         eff_bind (send_text env ''Relay request accepted.'') (\<lambda>sent.
         eff_return (case sent of None \<Rightarrow> cc_messageId ref | Some m \<Rightarrow> Some m))))"

definition dispatch_run ::
  "'w dispatch_env \<Rightarrow> chat_conversation \<Rightarrow> chat_command \<Rightarrow> string option \<Rightarrow> ('w dispatch, string, unit) effect \<Rightarrow>
   ('w dispatch, string, unit) effect" where
  "dispatch_run env ref command idempotencyKey runStarted =
     eff_bind (progress_message env ref) (\<lambda>progressId.
     case commandToAgentRequest (ref\<lparr>cc_messageId := progressId\<rparr>) command of
       None \<Rightarrow> eff_return ()
     | Some request \<Rightarrow>
         eff_bind (gateway_run (de_backend env) (request\<lparr>cr_idempotencyKey := idempotencyKey\<rparr>) (sessionSink env progressId runStarted)) (\<lambda>_.
         eff_return ()))"

definition session_line :: "relay_session \<Rightarrow> string" where
  "session_line session = ''Relay session '' @ rs_id session @ '': '' @ session_status_text (rs_status session) @ ''.''"

definition conversation_lines :: "relay_session list \<Rightarrow> string" where
  "conversation_lines sessions =
     (if sessions = [] then ''No open Relay conversations.''
      else js_join newline (map (\<lambda>s. rs_id s @ '' '' @ [CHR 0xB7] @ '' '' @ session_status_text (rs_status s)) sessions))"

definition dispatchProviderCommand ::
  "'w dispatch_env \<Rightarrow> chat_conversation \<Rightarrow> string \<Rightarrow> string option \<Rightarrow> ('w dispatch, string, unit) effect \<Rightarrow>
   ('w dispatch, string, unit) effect" where
  "dispatchProviderCommand env ref msg idempotencyKey runStarted =
     (let bk = de_backend env; reply = (\<lambda>m. eff_bind (send_text env m) (\<lambda>_. eff_return ()))
      in case parseChatCommand msg of
           None \<Rightarrow> reply ''Invalid Relay command.''
         | Some command \<Rightarrow>
             (case command of
                RunCommand goal a sid \<Rightarrow> dispatch_run env ref command idempotencyKey runStarted
              | NewCommand goal a \<Rightarrow> dispatch_run env ref command idempotencyKey runStarted
              | StatusCommand sid \<Rightarrow> eff_bind (gateway_status bk ref sid) (\<lambda>session. reply (session_line session))
              | CancelCommand sid reason \<Rightarrow> eff_bind (gateway_cancel bk ref sid reason) (\<lambda>session. reply (session_line session))
              | ListCommand \<Rightarrow> eff_bind (listConversations bk ref) (\<lambda>sessions. reply (conversation_lines sessions))
              | SwitchCommand sid \<Rightarrow>
                  eff_bind (switchConversation bk ref sid) (\<lambda>_.
                  reply (''This conversation now uses Relay session '' @ sid @ ''.''))))"

text \<open>The delays of the retry loop of Discord and Lark, and the loop itself with the number of its attempts.\<close>

definition retry_delay :: "nat \<Rightarrow> int" where
  "retry_delay attempt = min 60000 (1000 * 2 ^ min (attempt - 1) 6)"

fun retry_dispatch :: "nat \<Rightarrow> ('s, string, unit) effect \<Rightarrow> 's \<Rightarrow> bool \<times> 's" where
  "retry_dispatch 0 operation s = (False, s)"
| "retry_dispatch (Suc n) operation s =
     (case operation s of (Inr _, t) \<Rightarrow> (True, t) | (Inl _, t) \<Rightarrow> retry_dispatch n operation t)"

section \<open>The webhook of Telegram\<close>

record 'w telegram =
  tg_integrationId :: string
  tg_webhookSecret :: string
  tg_parse :: json_parser
  tg_numberText :: "rat \<Rightarrow> string"
  tg_toNumber :: "string \<Rightarrow> json"
  tg_fetch :: "string \<Rightarrow> json \<Rightarrow> ('w, string, bool \<times> json) effect"
  tg_claim :: "string \<Rightarrow> string \<Rightarrow> ('w, string, bool) effect"
  tg_complete :: "string \<Rightarrow> string \<Rightarrow> ('w, string, unit) effect"
  tg_release :: "string \<Rightarrow> string \<Rightarrow> ('w, string, unit) effect"
  tg_backend :: "'w chat_backend"
  tg_now :: "'w \<Rightarrow> int \<times> 'w"
  tg_ellipsis :: string

definition secureEqual :: "string option \<Rightarrow> string \<Rightarrow> bool" where
  "secureEqual actual expected = (case truthy_or_none actual of None \<Rightarrow> False | Some a \<Rightarrow> utf8_bytes a = utf8_bytes expected)"

definition limitText :: "string \<Rightarrow> string \<Rightarrow> nat \<Rightarrow> string" where
  "limitText ellipsis content limit = (if length content \<le> limit then content else take (limit - 1) content @ ellipsis)"

definition telegramApi :: "'w telegram \<Rightarrow> string \<Rightarrow> json \<Rightarrow> ('w, string, json) effect" where
  "telegramApi tg method_name body =
     eff_bind (tg_fetch tg method_name body) (\<lambda>(ok, payload).
     if \<not> ok \<or> json_field (json_record (Some payload)) ''ok'' \<noteq> Some (JBool True) then eff_throw (''Telegram '' @ method_name @ '' failed.'')
     else eff_return payload)"

definition json_fields :: "(string \<times> json option) list \<Rightarrow> json" where
  "json_fields fs = JObj (concat (map (\<lambda>(k, v). case v of None \<Rightarrow> [] | Some w \<Rightarrow> [(k, w)]) fs))"

definition telegram_messenger :: "'w telegram \<Rightarrow> (string \<times> json) list \<Rightarrow> 'w dispatch_env" where
  "telegram_messenger tg message =
     (let chat = json_field (sub_record message ''chat'') ''id''
      in \<lparr>de_backend = tg_backend tg,
          de_send = (\<lambda>content. eff_bind (telegramApi tg ''sendMessage''
              (json_fields [(''chat_id'', chat), (''message_thread_id'', json_field message ''message_thread_id''),
                            (''text'', Some (JStr (limitText (tg_ellipsis tg) content 4096)))])) (\<lambda>body.
              eff_return (map_option (json_text (tg_numberText tg)) (json_field (sub_record (json_record (Some body)) ''result'') ''message_id'')))),
          de_edit = (\<lambda>messageId content. eff_bind (telegramApi tg ''editMessageText''
              (json_fields [(''chat_id'', chat), (''message_id'', Some (tg_toNumber tg messageId)),
                            (''text'', Some (JStr (limitText (tg_ellipsis tg) content 4096)))])) (\<lambda>_. eff_return ())),
          de_now = tg_now tg, de_ellipsis = tg_ellipsis tg\<rparr>)"

definition telegramConversation :: "'w telegram \<Rightarrow> (string \<times> json) list \<Rightarrow> chat_conversation" where
  "telegramConversation tg message =
     (let content = json_text (tg_numberText tg); part = (\<lambda>v. case v of None \<Rightarrow> ''undefined'' | Some w \<Rightarrow> content w)
      in \<lparr>cc_provider = Telegram, cc_externalUserId = part (json_field (sub_record message ''from'') ''id''),
          cc_conversationId = part (json_field (sub_record message ''chat'') ''id''),
          cc_threadId = map_option content (json_field message ''message_thread_id''),
          cc_messageId = map_option content (json_field message ''message_id''), cc_tenantId = None\<rparr>)"

definition telegram_namespace :: "'w telegram \<Rightarrow> string" where
  "telegram_namespace tg = ''telegram:'' @ tg_integrationId tg"

definition set_started :: "bool \<Rightarrow> ('w dispatch, string, unit) effect" where
  "set_started b = eff_modify (\<lambda>s. s\<lparr>dp_runStarted := b\<rparr>)"

definition get_started :: "('w dispatch, string, bool) effect" where
  "get_started = (\<lambda>s. (Inr (dp_runStarted s), s))"

definition complete_event :: "'w telegram \<Rightarrow> string \<Rightarrow> ('w dispatch, string, unit) effect" where
  "complete_event tg eventId =
     receipt_call (CompleteEvent (receipt_key (telegram_namespace tg) eventId)) (tg_complete tg (telegram_namespace tg) eventId)"

definition telegram_started :: "'w telegram \<Rightarrow> string \<Rightarrow> ('w dispatch, string, unit) effect" where
  "telegram_started tg eventId = eff_bind (set_started True) (\<lambda>_. complete_event tg eventId)"

definition telegram_dispatch :: "'w telegram \<Rightarrow> (string \<times> json) list \<Rightarrow> string \<Rightarrow> string \<Rightarrow> ('w dispatch, string, nat) effect" where
  "telegram_dispatch tg message content eventId =
     eff_bind (set_started False) (\<lambda>_.
     eff_bind (eff_try (dispatchProviderCommand (telegram_messenger tg message) (telegramConversation tg message) content
         (Some (receipt_key (telegram_namespace tg) eventId)) (telegram_started tg eventId))) (\<lambda>outcome.
     eff_bind get_started (\<lambda>started.
     case outcome of
       Inl e \<Rightarrow>
         if started then eff_return 200
         else eff_bind (receipt_call (ReleaseEvent (receipt_key (telegram_namespace tg) eventId)) (tg_release tg (telegram_namespace tg) eventId))
                (\<lambda>_. eff_return 500)
     | Inr _ \<Rightarrow>
         eff_bind (eff_catch (if started then eff_return () else complete_event tg eventId) (\<lambda>_. eff_return ())) (\<lambda>_. eff_return 200))))"

definition handleTelegramWebhook :: "'w telegram \<Rightarrow> string \<Rightarrow> string option \<Rightarrow> ('w dispatch, string, nat) effect" where
  "handleTelegramWebhook tg rawBody secretHeader =
     (if \<not> secureEqual secretHeader (tg_webhookSecret tg) then eff_return 401
      else case tg_parse tg rawBody of
             None \<Rightarrow> eff_return 400
           | Some body \<Rightarrow>
               let update = json_record (Some body); message = sub_record update ''message'' in
               (case (json_truthy (json_field (sub_record message ''from'') ''id'') \<and> json_truthy (json_field (sub_record message ''chat'') ''id''),
                      json_string (json_field message ''text''), json_field update ''update_id'') of
                  (True, Some content, Some updateId) \<Rightarrow>
                    let eventId = json_text (tg_numberText tg) updateId in
                    eff_bind (receipt_call (ClaimEvent (receipt_key (telegram_namespace tg) eventId)) (tg_claim tg (telegram_namespace tg) eventId)) (\<lambda>claimed.
                    if claimed then telegram_dispatch tg message content eventId else eff_return 200)
                | _ \<Rightarrow> eff_return 200))"

section \<open>The command text of Discord\<close>

definition json_hex :: "nat \<Rightarrow> char" where "json_hex n = ''0123456789abcdef'' ! n"

text \<open>\<open>JSON.stringify\<close> of a text with code units below 256.\<close>

definition json_escape :: "char \<Rightarrow> string" where
  "json_escape c =
     (let n = of_char c :: nat; b = CHR 0x5C
      in if n = 34 \<or> n = 92 then [b, c]
         else if n = 8 then [b, CHR ''b''] else if n = 9 then [b, CHR ''t''] else if n = 10 then [b, CHR ''n'']
         else if n = 12 then [b, CHR ''f''] else if n = 13 then [b, CHR ''r'']
         else if n < 32 then [b, CHR ''u'', CHR ''0'', CHR ''0'', json_hex (n div 16), json_hex (n mod 16)] else [c])"

definition json_quote :: "string \<Rightarrow> string" where
  "json_quote s = CHR 0x22 # concat (map json_escape s) @ [CHR 0x22]"

text \<open>The options of an interaction as name and \<open>String(value)\<close>, the last one of a name counts.\<close>

definition discord_text :: "string \<Rightarrow> (string \<rightharpoonup> string) \<Rightarrow> string" where
  "discord_text action values =
     (let option = (\<lambda>name. truthy_or_none (values name));
          quoted_option = (\<lambda>prefix name. case option name of None \<Rightarrow> [] | Some v \<Rightarrow> prefix @ [json_quote v])
      in js_join '' ''
           (if action = ''status'' \<or> action = ''cancel'' \<or> action = ''switch''
            then [''/relay'', action] @ quoted_option [] ''session'' @ (if action = ''cancel'' then quoted_option [] ''reason'' else [])
            else [''/relay'', action] @ quoted_option [''--agent''] ''agent'' @ quoted_option [''--session''] ''session'' @
                 quoted_option [] ''prompt''))"

definition discordCommandText :: "(rat \<Rightarrow> string) \<Rightarrow> json \<Rightarrow> string" where
  "discordCommandText num data =
     (let items = (\<lambda>r. case json_field r ''options'' of Some (JArr vs) \<Rightarrow> vs | _ \<Rightarrow> []);
          top = (case items (json_record (Some data)) of [] \<Rightarrow> [] | v # _ \<Rightarrow> json_record (Some v));
          action = text_or num (json_field top ''name'') [];
          opts = map (\<lambda>v. let r = json_record (Some v) in
                   (case json_field r ''name'' of Some (JStr n) \<Rightarrow> n | _ \<Rightarrow> [],
                    case json_field r ''value'' of None \<Rightarrow> ''undefined'' | Some w \<Rightarrow> json_text num w)) (items top)
      in discord_text action (fold (\<lambda>(k, v) m. m(k \<mapsto> v)) opts Map.empty))"

section \<open>What dispatch does to the session and the receipts\<close>

text \<open>A report sends messages and nothing else; that a run has started is noted before the first of them.\<close>

definition run_reported :: "nat \<Rightarrow> 'w dispatch \<Rightarrow> bool" where
  "run_reported n s \<longleftrightarrow> dp_runStarted s \<and> work_started s \<le> Suc n"

definition messages_keep :: "('w dispatch \<Rightarrow> bool) \<Rightarrow> bool" where
  "messages_keep P \<longleftrightarrow> (\<forall>s w ms. P s \<longrightarrow> P (s\<lparr>ch_world := w, dp_messages := ms\<rparr>))"

lemma messages_keep_work [intro!, simp]: "messages_keep (\<lambda>s. work_started s = n)"
  by (simp add: messages_keep_def work_started_def)

lemma messages_keep_reported [intro!, simp]: "messages_keep (run_reported n)"
  by (simp add: messages_keep_def run_reported_def work_started_def)

lemma triple_message: "messages_keep P \<Longrightarrow> eff_triple P (message_call c m) (\<lambda>_. P) (\<lambda>_. P)"
  by (auto simp: messages_keep_def message_call_def eff_triple_def eff_wp_def split: prod.split sum.split)

lemma triple_sink_edit: "messages_keep P \<Longrightarrow> eff_triple P (sink_edit env messageId msg) (\<lambda>_. P) (\<lambda>_. P)"
  unfolding sink_edit_def edit_text_def send_text_def
  by (auto intro!: triple_option triple_message triple_bind [where R = "\<lambda>_. P"] triple_return)

lemma triple_receipt:
  "(\<And>w rs. P s \<Longrightarrow> P (s\<lparr>ch_world := w, dp_receipts := rs\<rparr>)) \<Longrightarrow> P s \<Longrightarrow> eff_wp (receipt_call c m) (\<lambda>_. P) (\<lambda>_. P) s"
  by (auto simp: receipt_call_def eff_wp_def split: prod.split sum.split)

lemma triple_started: "eff_triple (\<lambda>s. work_started s = Suc n) (telegram_started tg eventId) (\<lambda>_. run_reported n) (\<lambda>_. run_reported n)"
  by (auto simp: telegram_started_def set_started_def complete_event_def eff_triple_def wp_bind wp_modify run_reported_def work_started_def
      intro!: triple_receipt)

interpretation telegram_reports: chat_reports "sessionSink env messageId (telegram_started tg eventId)" n "run_reported n" "run_reported n"
  for env messageId tg eventId n
proof
  show "eff_triple (\<lambda>s. work_started s = Suc n) (cs_started (sessionSink env messageId (telegram_started tg eventId)) run)
      (\<lambda>_. run_reported n) (\<lambda>_. run_reported n)" for run
    unfolding sessionSink_def chat_sink.simps by (rule triple_bind [OF triple_started]) (rule triple_sink_edit, simp)
  show "run_reported n s \<Longrightarrow> run_reported n (s\<lparr>ch_following := f\<rparr>)" for s f
    by (simp add: run_reported_def work_started_def)
qed (simp_all add: sessionSink_def triple_sink_edit)

lemma triple_other_call:
  "\<not> starts_work c \<Longrightarrow> eff_triple (\<lambda>s. work_started s = n) (in_chat c m) (\<lambda>_ s. work_started s = n) (\<lambda>_ s. work_started s = n)"
  by (rule chat_triple_call)

lemma triple_progress:
  "eff_triple (\<lambda>s. work_started s = n) (progress_message env ref) (\<lambda>_ s. work_started s = n) (\<lambda>_ s. work_started s = n)"
proof -
  let ?P = "\<lambda>s. work_started s = n"
  have binding: "eff_triple ?P (conversationBinding bk ref) (\<lambda>_. ?P) (\<lambda>_. ?P)" for bk :: "'a chat_backend"
    unfolding conversationBinding_def
    by (rule triple_bind [OF triple_identity]) (auto intro!: triple_option triple_return triple_other_call)
  have edit: "eff_triple ?P (edit_text env m msg) (\<lambda>_. ?P) (\<lambda>_. ?P)" "eff_triple ?P (send_text env msg) (\<lambda>_. ?P) (\<lambda>_. ?P)" for m msg
    unfolding edit_text_def send_text_def by (simp_all add: triple_message)
  have old: "eff_triple ?P (eff_catch (eff_bind (edit_text env m msg) (\<lambda>_. eff_return (Some m))) (\<lambda>_. eff_return None)) (\<lambda>_. ?P) (\<lambda>_. ?P)" for m msg
    by (rule triple_catch [where R = "\<lambda>_. ?P"], rule triple_bind [OF edit(1)]) (auto intro!: triple_return)
  show ?thesis
    unfolding progress_message_def
    by (rule triple_bind [OF binding], rule triple_bind [where R = "\<lambda>_. ?P"])
      (auto intro!: triple_option triple_if triple_return old triple_bind [OF edit(2)])
qed

abbreviation run_outcome :: "nat \<Rightarrow> 'w dispatch \<Rightarrow> bool" where
  "run_outcome n s \<equiv> work_started s = n \<or> run_reported n s"

lemma triple_dispatch_run:
  "eff_triple (\<lambda>s. work_started s = n) (dispatch_run env ref command key (telegram_started tg eventId)) (\<lambda>_. run_outcome n) (\<lambda>_. run_outcome n)"
proof -
  have run: "eff_triple (\<lambda>s. work_started s = n)
      (gateway_run (de_backend env) request (sessionSink env p (telegram_started tg eventId))) (\<lambda>_. run_outcome n) (\<lambda>_. run_outcome n)" for request p
    by (rule triple_conseq [OF telegram_reports.gateway_reports]) simp_all
  have progress: "eff_triple (\<lambda>s. work_started s = n) (progress_message env ref) (\<lambda>_ s. work_started s = n) (\<lambda>_. run_outcome n)"
    by (rule triple_conseq [OF triple_progress [where n = n]]) blast+
  show ?thesis
    unfolding dispatch_run_def
    by (rule triple_bind [OF progress], rule triple_option, rule triple_return, simp, rule triple_bind [OF run], rule triple_return, simp)
qed

lemma triple_dispatch:
  "eff_triple (\<lambda>s. work_started s = n) (dispatchProviderCommand env ref msg key (telegram_started tg eventId)) (\<lambda>_. run_outcome n) (\<lambda>_. run_outcome n)"
proof -
  let ?P = "\<lambda>s. work_started s = n"
  have weak: "eff_triple ?P m (\<lambda>_. ?P) (\<lambda>_. ?P) \<Longrightarrow> eff_triple ?P m (\<lambda>_. run_outcome n) (\<lambda>_. run_outcome n)"
    for m :: "('a dispatch, string, unit) effect" by (erule triple_conseq) simp_all
  have reply: "eff_triple ?P (eff_bind (send_text env m) (\<lambda>_. eff_return ())) (\<lambda>_. ?P) (\<lambda>_. ?P)" for m
    unfolding send_text_def by (rule triple_bind [OF triple_message]) (auto intro: triple_return)
  have status: "eff_triple ?P (gateway_status (de_backend env) ref sid) (\<lambda>_. ?P) (\<lambda>_. ?P)" for sid
    unfolding gateway_status_def by (rule triple_bind [OF triple_identity]) (simp add: triple_other_call)
  have cancel: "eff_triple ?P (gateway_cancel (de_backend env) ref sid reason) (\<lambda>_. ?P) (\<lambda>_. ?P)" for sid reason
    unfolding gateway_cancel_def
    by (rule triple_bind [OF triple_identity]) (auto intro!: triple_option triple_throw triple_other_call)
  have conversations: "eff_triple ?P (listConversations (de_backend env) ref) (\<lambda>_. ?P) (\<lambda>_. ?P)"
    unfolding listConversations_def
    by (rule triple_bind [OF triple_identity]) (auto intro!: triple_option triple_return triple_other_call)
  have switch: "eff_triple ?P (switchConversation (de_backend env) ref sid) (\<lambda>_. ?P) (\<lambda>_. ?P)" for sid
    unfolding switchConversation_def
    by (rule triple_bind [OF triple_identity]) (auto intro!: triple_option triple_return triple_other_call)
  show ?thesis
    unfolding dispatchProviderCommand_def Let_def
    by (auto intro!: weak reply triple_dispatch_run triple_bind [OF status] triple_bind [OF cancel] triple_bind [OF conversations]
        triple_bind [OF switch] split: option.split chat_command.split)
qed

text \<open>No receipt is released on the way.\<close>

definition unreleased :: "(receipt_op \<times> bool) list \<Rightarrow> 'w dispatch \<Rightarrow> bool" where
  "unreleased base s \<longleftrightarrow> (\<exists>ops. dp_receipts s = base @ ops \<and> (\<forall>k ok. (ReleaseEvent k, ok) \<notin> set ops))"

lemma unreleased_calls: "calls_keep e (unreleased base)"
  by (simp add: calls_keep_def unreleased_def)

lemma unreleased_message: "eff_inv (unreleased base) (message_call c m)"
  by (simp add: eff_inv_def message_call_def unreleased_def split: prod.split)

lemma unreleased_text: "eff_inv (unreleased base) (send_text env msg)" "eff_inv (unreleased base) (edit_text env messageId msg)"
  by (simp_all add: send_text_def edit_text_def unreleased_message)

lemma unreleased_complete: "eff_inv (unreleased base) (complete_event tg eventId)"
  by (auto simp: complete_event_def eff_inv_def receipt_call_def unreleased_def split: prod.split)

lemma unreleased_started: "eff_inv (unreleased base) (telegram_started tg eventId)"
  unfolding telegram_started_def set_started_def
  by (intro eff_inv_bind eff_inv_modify unreleased_complete) (simp add: unreleased_def)

lemma unreleased_sink: "sink_keeps (unreleased base) (sessionSink env messageId (telegram_started tg eventId))"
proof -
  have edit: "eff_inv (unreleased base) (sink_edit env messageId msg)" for msg
    by (auto simp: sink_edit_def intro!: unreleased_text split: option.split)
  show ?thesis by (auto simp: sink_keeps_def sessionSink_def intro!: unreleased_started edit)
qed

lemma unreleased_dispatch:
  "eff_inv (unreleased base) (dispatchProviderCommand env ref msg key (telegram_started tg eventId))"
proof -
  note call = chat_call_inv [OF unreleased_calls]
  have identity: "eff_inv (unreleased base) (requireIdentity bk r)" for bk :: "'a chat_backend" and r
    by (rule requireIdentity_inv [OF unreleased_calls])
  have reply: "eff_inv (unreleased base) (eff_bind (send_text env m) (\<lambda>_. eff_return ()))" for m
    by (intro eff_inv_bind unreleased_text) simp
  have progress: "eff_inv (unreleased base) (progress_message env ref)"
    unfolding progress_message_def conversationBinding_def
    by (intro eff_inv_bind identity) (auto intro!: call unreleased_text split: option.split)
  have run: "eff_inv (unreleased base) (dispatch_run env ref command key (telegram_started tg eventId))" for command
    unfolding dispatch_run_def
    by (intro eff_inv_bind progress) (auto intro!: gateway_run_inv unreleased_calls unreleased_sink split: option.split)
  have others: "eff_inv (unreleased base) (gateway_status (de_backend env) ref sid)" "eff_inv (unreleased base) (gateway_cancel (de_backend env) ref sid reason)"
    "eff_inv (unreleased base) (listConversations (de_backend env) ref)" "eff_inv (unreleased base) (switchConversation (de_backend env) ref sid)" for sid reason
    unfolding gateway_status_def gateway_cancel_def listConversations_def switchConversation_def
    by (intro eff_inv_bind identity; auto intro!: call split: option.split)+
  show ?thesis
    unfolding dispatchProviderCommand_def Let_def
    by (auto intro!: reply run eff_inv_bind [OF others(1)] eff_inv_bind [OF others(2)] eff_inv_bind [OF others(3)] eff_inv_bind [OF others(4)]
        split: option.split chat_command.split)
qed

lemma started_keeps:
  "work_started (u\<lparr>ch_world := w, dp_receipts := rs\<rparr>) = work_started u" "work_started (u\<lparr>dp_runStarted := b\<rparr>) = work_started u"
  for u :: "'w dispatch"
  by (simp_all add: work_started_def)

lemma telegram_dispatch_once:
  assumes dispatch: "telegram_dispatch tg message content eventId u = (r, t)"
  shows "work_started t \<le> Suc (work_started u) \<and> (work_started t = work_started u \<or> r = Inr 200 \<and> unreleased (dp_receipts u) t)"
proof -
  note keep = started_keeps
  let ?d = "dispatchProviderCommand (telegram_messenger tg message) (telegramConversation tg message) content
      (Some (receipt_key (telegram_namespace tg) eventId)) (telegram_started tg eventId)"
  let ?u = "u\<lparr>dp_runStarted := False\<rparr>"
  obtain o1 v where d: "?d ?u = (o1, v)" by fastforce
  have "eff_wp ?d (\<lambda>_. run_outcome (work_started u)) (\<lambda>_. run_outcome (work_started u)) ?u"
    by (rule eff_tripleD [OF triple_dispatch]) (simp add: keep)
  then have out: "run_outcome (work_started u) v" by (simp add: eff_wp_def d split: sum.splits)
  have base: "unreleased (dp_receipts u) ?u" by (simp add: unreleased_def)
  have clean: "unreleased (dp_receipts u) v" by (rule eff_invD [OF unreleased_dispatch d base])
  have rest: "(case o1 of
        Inl e \<Rightarrow> if dp_runStarted v then (Inr 200, v)
          else (case receipt_call (ReleaseEvent (receipt_key (telegram_namespace tg) eventId)) (tg_release tg (telegram_namespace tg) eventId) v of
                  (Inl e, x) \<Rightarrow> (Inl e, x) | (Inr _, x) \<Rightarrow> (Inr 500, x))
      | Inr _ \<Rightarrow> (Inr 200, snd ((if dp_runStarted v then eff_return () else complete_event tg eventId) v))) = (r, t)"
    using dispatch
    by (auto simp: telegram_dispatch_def eff_bind_def set_started_def eff_modify_def eff_try_def d get_started_def eff_catch_def
        eff_return_def split: sum.splits prod.splits if_splits)
  show ?thesis
  proof (cases o1)
    case (Inl e)
    show ?thesis
    proof (cases "dp_runStarted v")
      case True
      with Inl rest out clean show ?thesis by (auto simp: run_reported_def)
    next
      case False
      then have "work_started v = work_started u" using out by (simp add: run_reported_def)
      moreover have "work_started t = work_started v"
        using rest Inl False by (auto simp: receipt_call_def keep split: prod.splits sum.splits)
      ultimately show ?thesis by simp
    qed
  next
    case (Inr x)
    have "unreleased (dp_receipts u) (snd ((if dp_runStarted v then eff_return () else complete_event tg eventId) v))"
      using clean unreleased_complete [of "dp_receipts u" tg eventId] by (auto simp: eff_inv_def eff_return_def)
    moreover have "work_started (snd ((if dp_runStarted v then eff_return () else complete_event tg eventId) v)) = work_started v"
      by (simp add: eff_return_def complete_event_def receipt_call_def keep split: prod.split)
    ultimately show ?thesis using Inr rest out by (auto simp: run_reported_def)
  qed
qed

lemma telegram_claim_once:
  assumes step: "(case o1 of Inl e \<Rightarrow> (Inl e, u)
      | Inr claimed \<Rightarrow> (if claimed then telegram_dispatch tg message content eventId else eff_return 200) u) = (r, t)"
    and u: "u = s\<lparr>ch_world := w, dp_receipts := dp_receipts s @ [(ClaimEvent key, ok)]\<rparr>"
  shows "work_started t \<le> Suc (work_started s) \<and> (work_started t = work_started s \<or> r = Inr 200 \<and> unreleased (dp_receipts s) t)"
proof -
  have started: "work_started u = work_started s" unfolding u by (rule started_keeps(1))
  have unrel: "unreleased (dp_receipts u) x \<Longrightarrow> unreleased (dp_receipts s) x" for x by (auto simp: unreleased_def u)
  show ?thesis
  proof (cases "o1 = Inr True")
    case True
    with step have "telegram_dispatch tg message content eventId u = (r, t)" by simp
    from telegram_dispatch_once [OF this] show ?thesis using unrel unfolding started by blast
  next
    case False
    with step started show ?thesis by (cases o1) (auto simp: eff_return_def)
  qed
qed

text \<open>C33. One delivery of a Telegram update starts at most one run, and when it has started one the webhook answers 200 and releases
no receipt, so the update is neither delivered nor claimed again: neither a failing message, nor a failing binding of the
conversation, nor a failing receipt makes Telegram repeat a run.\<close>

theorem telegram_run_not_repeated:
  "case handleTelegramWebhook tg rawBody secretHeader s of (r, t) \<Rightarrow>
     work_started t \<le> Suc (work_started s) \<and>
     (work_started t = work_started s \<or> r = Inr 200 \<and> unreleased (dp_receipts s) t)"
proof -
  obtain r t where assms: "handleTelegramWebhook tg rawBody secretHeader s = (r, t)" by fastforce
  have "work_started t \<le> Suc (work_started s) \<and> (work_started t = work_started s \<or> r = Inr 200 \<and> unreleased (dp_receipts s) t)"
  proof (cases "secureEqual secretHeader (tg_webhookSecret tg)")
    case False
    with assms show ?thesis by (simp add: handleTelegramWebhook_def eff_return_def)
  next
    case secret: True
    show ?thesis
    proof (cases "tg_parse tg rawBody")
      case None
      with assms secret show ?thesis by (simp add: handleTelegramWebhook_def eff_return_def)
    next
      case (Some body)
      define update where "update = json_record (Some body)"
      define message where "message = sub_record update ''message''"
      obtain known content updateId where parts:
        "(json_truthy (json_field (sub_record message ''from'') ''id'') \<and> json_truthy (json_field (sub_record message ''chat'') ''id''),
          json_string (json_field message ''text''), json_field update ''update_id'') = (known, content, updateId)" by simp
      show ?thesis
      proof (cases "\<exists>a b. known \<and> content = Some a \<and> updateId = Some b")
        case True
        then obtain a b where ab: "known" "content = Some a" "updateId = Some b" by blast
        define eventId where "eventId = json_text (tg_numberText tg) b"
        define key where "key = receipt_key (telegram_namespace tg) eventId"
        obtain o1 w where claim: "tg_claim tg (telegram_namespace tg) eventId (ch_world s) = (o1, w)" by fastforce
        let ?u = "s\<lparr>ch_world := w, dp_receipts := dp_receipts s @ [(ClaimEvent key, \<not> isl o1)]\<rparr>"
        have step: "(case o1 of Inl e \<Rightarrow> (Inl e, ?u)
            | Inr claimed \<Rightarrow> (if claimed then telegram_dispatch tg message a eventId else eff_return 200) ?u) = (r, t)"
          using assms secret Some parts ab claim unfolding update_def message_def eventId_def key_def
          by (cases o1) (auto simp: handleTelegramWebhook_def Let_def eff_bind_def receipt_call_def)
        from telegram_claim_once [OF step refl] show ?thesis .
      next
        case False
        with assms secret Some parts show ?thesis
          by (auto simp: handleTelegramWebhook_def Let_def update_def [symmetric] message_def [symmetric] eff_return_def split: bool.splits option.splits)
      qed
    qed
  qed
  then show ?thesis by (simp add: assms)
qed

section \<open>Prompts of Discord\<close>

definition json_plain :: "string \<Rightarrow> bool" where
  "json_plain s \<longleftrightarrow> list_all (\<lambda>c. 32 \<le> (of_char c :: nat) \<and> (of_char c :: nat) \<noteq> 34 \<and> (of_char c :: nat) \<noteq> 92) s"

lemma json_quote_plain: "json_plain s \<Longrightarrow> json_quote s = quoted s"
proof -
  have "json_plain s \<Longrightarrow> concat (map json_escape s) = s"
    by (induction s) (auto simp: json_plain_def json_escape_def Let_def)
  then show "json_plain s \<Longrightarrow> ?thesis" by (simp add: json_quote_def quoted_def)
qed

lemma json_plain_quote: "json_plain s \<Longrightarrow> CHR 0x22 \<notin> set s"
  by (auto simp: json_plain_def list_all_iff)

text \<open>The text the Discord webhook builds of an interaction is read back as its agent and prompt when neither holds a quotation
mark, a backslash or a control character: quoting with JSON is undone by the word splitter for these texts.\<close>

theorem discord_prompt_exact:
  assumes agent: "agent \<noteq> []" "json_plain agent" "js_trim agent = agent" "hd agent \<noteq> CHR ''-''"
    and prompt: "prompt \<noteq> []" "json_plain prompt" "js_trim prompt = prompt" "hd prompt \<noteq> CHR ''-''"
    and options: "values ''agent'' = Some agent" "values ''session'' = None" "values ''prompt'' = Some prompt"
  shows "parseChatCommand (discord_text ''run'' values) = Some (RunCommand prompt (Some agent) None)"
proof -
  let ?line = "''/relay run --agent '' @ quoted agent @ CHR '' '' # quoted prompt"
  have line: "discord_text ''run'' values = ?line"
    using options agent(1) prompt(1)
    by (simp add: discord_text_def Let_def truthy_or_none_def json_quote_plain [OF agent(2)] json_quote_plain [OF prompt(2)])
  have words: "plain_word ''/relay''" "plain_word ''run''" "plain_word ''--agent''"
    by (simp_all add: plain_word_def chat_quote_def js_space_def)
  have "js_trim ?line = ?line" by (rule trim_ends) (simp_all add: quoted_def js_space_def)
  moreover have "splitCommand ?line = [''/relay'', ''run'', ''--agent'', agent, prompt]"
    using plain_word_read [OF words(1)] plain_word_read [OF words(2)] plain_word_read [OF words(3)]
      split_quoted [OF json_plain_quote [OF agent(2)], of "[]"] split_quoted [OF json_plain_quote [OF prompt(2)], of "[]" "[]"]
      agent(1) prompt(1)
    by (simp add: splitCommand_def)
  ultimately show ?thesis
    using dashless [OF agent(1,4)] dashless [OF prompt(1,4)] agent prompt
    by (simp add: line parseChatCommand_def parse_action_def stripCommandSuffix_def parseRunCommand_def option_named stringOption_def
        trimmed_or_none_def prefix_def) (cases agent; simp)
qed

theorem discord_prompt_exact_witness:
  "parseChatCommand (discord_text ''run'' [''agent'' \<mapsto> ''a1'', ''prompt'' \<mapsto> ''fix  it'']) = Some (RunCommand ''fix  it'' (Some ''a1'') None)"
  by (rule discord_prompt_exact) (simp_all add: json_plain_def js_trim_def js_space_def)

text \<open>A quotation mark in the prompt ends the quote: the rest of the prompt is read as options of the command.\<close>

lemma discord_prompt_injects:
  "parseChatCommand (discord_text ''run'' [''agent'' \<mapsto> ''a1'', ''prompt'' \<mapsto> ''hi'' @ CHR 0x22 # '' --session s2 '' @ [CHR 0x22]]) =
   Some (RunCommand (''hi'' @ [CHR 0x5C] @ '' '' @ [CHR 0x5C]) (Some ''a1'') (Some ''s2''))"
proof -
  have "discord_text ''run'' [''agent'' \<mapsto> ''a1'', ''prompt'' \<mapsto> ''hi'' @ CHR 0x22 # '' --session s2 '' @ [CHR 0x22]] =
      ''/relay run --agent '' @ CHR 0x22 # ''a1'' @ CHR 0x22 # CHR '' '' # CHR 0x22 # ''hi'' @ CHR 0x5C # CHR 0x22 # '' --session s2 '' @
      CHR 0x5C # CHR 0x22 # [CHR 0x22]"
    by (simp add: discord_text_def Let_def truthy_or_none_def json_quote_def json_escape_def)
  then show ?thesis
    by (simp add: parseChatCommand_def js_trim_def js_space_def splitCommand_def chat_quote_def stripCommandSuffix_def parse_action_def
        parseRunCommand_def retired_option_def strip_dashes_def option_match_def option_char_def letter_def single_line_def stringOption_def
        trimmed_or_none_def)
qed

section \<open>Repeated runs of Discord and Lark\<close>

text \<open>
  These two dispatch without an idempotency key and without \<open>runStarted\<close>: when the message that reports the start of a run fails,
  the gateway reports failure, the dispatch is tried again and starts a second run.
\<close>

definition ready_backend :: "relay_session \<Rightarrow> nat chat_backend" where
  "ready_backend session =
     \<lparr>bk_resolveIdentity = (\<lambda>_. eff_return (Some \<lparr>ci_employeeId = ''e'', ci_displayName = None, ci_defaultAgentId = Some ''a'', ci_isAdmin = None\<rparr>)),
      bk_listEmployeeAgents = Some (\<lambda>_. eff_return [\<lparr>ca_id = ''a'', ca_executorKind = Claude, ca_availability = ''ready''\<rparr>]),
      bk_startAgentRun = Some (\<lambda>_. eff_return session), bk_continueThread = None, bk_cancelSessionRun = None,
      bk_getSession = (\<lambda>_ _. eff_return session), bk_streamSessionEvents = (\<lambda>_ _. eff_return ([], None)),
      bk_resolveConversationSession = None, bk_resolveConversationBinding = None,
      bk_bindConversationSession = Some (\<lambda>_ _. eff_return ()), bk_listConversationSessions = None\<rparr>"

definition failing_edits :: "relay_session \<Rightarrow> nat dispatch_env" where
  "failing_edits session =
     \<lparr>de_backend = ready_backend session, de_send = (\<lambda>_. eff_return (Some ''m'')),
      de_edit = (\<lambda>_ _ w. if w = 0 then (Inr (), w) else (Inl ''unavailable'', w - 1)),
      de_now = (\<lambda>w. (0, w)), de_ellipsis = []\<rparr>"

lemma discord_run_repeated:
  "work_started (snd (retry_dispatch 2 (dispatchProviderCommand (failing_edits session) ref ''/relay new hi'' None (eff_return ()))
     \<lparr>ch_world = 2, ch_trace = [], ch_following = [], dp_messages = [], dp_receipts = [], dp_lastProgressAt = 0, dp_runStarted = False\<rparr>)) = 2"
proof -
  have command: "parseChatCommand ''/relay new hi'' = Some (NewCommand ''hi'' None)"
    by (simp add: parseChatCommand_def js_trim_def js_space_def splitCommand_def chat_quote_def stripCommandSuffix_def parse_action_def
        parseRunCommand_def retired_option_def strip_dashes_def option_match_def stringOption_def)
  show ?thesis
    by (simp add: numeral_2_eq_2 dispatchProviderCommand_def command dispatch_run_def commandToAgentRequest_def progress_message_def
        conversationBinding_def requireIdentity_def failing_edits_def ready_backend_def in_chat_def eff_defs eff_try_def send_text_def
        edit_text_def message_call_def gateway_run_def run_session_def bound_session_def start_session_def resolveAgentId_def
        truthy_or_none_def bind_session_def sessionSink_def sink_edit_def begin_following_def work_started_def Let_def)
qed

end
