(* ===== verification/List_Sort.thy ===== *)
theory List_Sort
  imports Relay_Prelude "HOL-Library.Multiset"
begin

text \<open>
  Sorting of lists: \<open>Array.prototype.sort\<close> and \<open>web/src/lib/listSort.ts\<close>. A comparator gives a negative number, zero or a
  positive number. \<open>Array.prototype.sort\<close> is a stable sort; for a comparator that is a total preorder there is one result, which
  the insertion sort below computes. \<open>localeCompare\<close> is a parameter.
\<close>

section \<open>Stable sorting\<close>

type_synonym 'a js_compare = "'a \<Rightarrow> 'a \<Rightarrow> int"

fun sort_insert :: "'a js_compare \<Rightarrow> 'a \<Rightarrow> 'a list \<Rightarrow> 'a list" where
  "sort_insert cmp x [] = [x]"
| "sort_insert cmp x (y # ys) = (if cmp x y \<le> 0 then x # y # ys else y # sort_insert cmp x ys)"

definition js_sort :: "'a js_compare \<Rightarrow> 'a list \<Rightarrow> 'a list" where
  "js_sort cmp xs = foldr (sort_insert cmp) xs []"

text \<open>The first element for each key.\<close>

fun first_by :: "('a \<Rightarrow> 'k) \<Rightarrow> 'k list \<Rightarrow> 'a list \<Rightarrow> 'a list" where
  "first_by key seen [] = []"
| "first_by key seen (x # xs) =
     (if key x \<in> set seen then first_by key seen xs else x # first_by key (key x # seen) xs)"

lemma first_by_spec:
  "distinct (map key (first_by key seen xs)) \<and> key ` set (first_by key seen xs) = key ` set xs - set seen \<and>
   set (first_by key seen xs) \<subseteq> set xs"
  by (induction key seen xs rule: first_by.induct) auto

lemma js_sort_simps [simp]: "js_sort cmp [] = []" "js_sort cmp (x # xs) = sort_insert cmp x (js_sort cmp xs)"
  by (simp_all add: js_sort_def)

lemma mset_insert [simp]: "mset (sort_insert cmp x xs) = add_mset x (mset xs)"
  by (induction xs) simp_all

lemma mset_js_sort [simp]: "mset (js_sort cmp xs) = mset xs"
  by (induction xs) simp_all

lemma set_js_sort [simp]: "set (js_sort cmp xs) = set xs"
  by (metis mset_js_sort set_mset_mset)

lemma length_js_sort [simp]: "length (js_sort cmp xs) = length xs"
  by (metis mset_js_sort size_mset)

locale comparator =
  fixes cmp :: "'a js_compare"
  assumes opposite: "sgn (cmp y x) = - sgn (cmp x y)"
    and trans: "cmp x y \<le> 0 \<Longrightarrow> cmp y z \<le> 0 \<Longrightarrow> cmp x z \<le> 0"
begin

lemma le_opposite: "cmp x y \<le> 0 \<longleftrightarrow> 0 \<le> cmp y x"
  using opposite [of x y] by (auto simp: sgn_if split: if_splits)

lemma same_opposite: "cmp x y = 0 \<longleftrightarrow> cmp y x = 0"
  using opposite [of x y] by (auto simp: sgn_if split: if_splits)

lemma total: "\<not> cmp x y \<le> 0 \<Longrightarrow> cmp y x \<le> 0"
  using le_opposite [of y x] by simp

lemma insert_sorted:
  "sorted_wrt (\<lambda>a b. cmp a b \<le> 0) xs \<Longrightarrow> sorted_wrt (\<lambda>a b. cmp a b \<le> 0) (sort_insert cmp x xs)"
proof (induction xs)
  case (Cons y ys)
  have "set (sort_insert cmp x ys) = insert x (set ys)" by (metis mset_insert set_mset_add_mset_insert set_mset_mset)
  with Cons show ?case by (auto intro: trans total)
qed simp

lemma sorted: "sorted_wrt (\<lambda>a b. cmp a b \<le> 0) (js_sort cmp xs)"
  by (induction xs) (simp_all add: insert_sorted)

lemma insert_stable:
  "filter (\<lambda>y. cmp y z = 0) (sort_insert cmp x xs) = (if cmp x z = 0 then x # filter (\<lambda>y. cmp y z = 0) xs else filter (\<lambda>y. cmp y z = 0) xs)"
proof (induction xs)
  case (Cons y ys)
  have "\<not> (cmp x z = 0 \<and> cmp y z = 0)" if "\<not> cmp x y \<le> 0"
  proof
    assume eq: "cmp x z = 0 \<and> cmp y z = 0"
    then have "cmp x z \<le> 0" "cmp z y \<le> 0" using same_opposite [of y z] by simp_all
    with that show False using trans by blast
  qed
  with Cons show ?case by auto
qed simp

lemma stable: "filter (\<lambda>y. cmp y z = 0) (js_sort cmp xs) = filter (\<lambda>y. cmp y z = 0) xs"
  by (induction xs) (simp_all add: insert_stable)

end

text \<open>Comparing by a key, and the opposite direction.\<close>

lemma comparator_key: "comparator cmp \<Longrightarrow> comparator (\<lambda>x y. cmp (f x) (f y))"
  unfolding comparator_def by blast

lemma comparator_reversed:
  assumes "comparator cmp"
  shows "comparator (\<lambda>x y. cmp x y * - 1)"
proof
  show "sgn (cmp y x * - 1) = - sgn (cmp x y * - 1)" for x y using comparator.opposite [OF assms, of y x] by (simp add: sgn_minus)
  show "cmp x z * - 1 \<le> 0" if "cmp x y * - 1 \<le> 0" "cmp y z * - 1 \<le> 0" for x y z
    using that comparator.trans [OF assms, of z y x] by (simp add: comparator.le_opposite [OF assms])
qed

lemma comparator_sign: "comparator cmp \<Longrightarrow> s = 1 \<or> s = - 1 \<Longrightarrow> comparator (\<lambda>x y. cmp x y * s)"
  using comparator_reversed by auto

section \<open>Columns\<close>

datatype sort_direction = Asc | Desc

record sort_state =
  so_key :: string
  so_direction :: sort_direction

record 'a sort_column =
  sl_key :: string
  sl_compare :: "'a js_compare"
  sl_defaultDirection :: "sort_direction option"
  sl_isMissing :: "('a \<Rightarrow> bool) option"

definition direction_sign :: "sort_direction \<Rightarrow> int" where
  "direction_sign d = (if d = Desc then - 1 else 1)"

text \<open>The comparator of rows with their index. \<open>a || b\<close> is \<open>b\<close> when \<open>a\<close> is zero.\<close>

definition row_compare :: "'a sort_column \<Rightarrow> int \<Rightarrow> ('a \<times> nat) js_compare" where
  "row_compare column sign l r =
     (let rest = (let c = sl_compare column (fst l) (fst r) * sign in if c \<noteq> 0 then c else int (snd l) - int (snd r))
      in case sl_isMissing column of
           None \<Rightarrow> rest
         | Some missing \<Rightarrow>
             if missing (fst l) \<noteq> missing (fst r) then (if missing (fst l) then 1 else - 1)
             else if missing (fst l) then int (snd l) - int (snd r) else rest)"

definition applySort :: "'a list \<Rightarrow> 'a sort_column list \<Rightarrow> sort_state option \<Rightarrow> 'a list" where
  "applySort items columns state =
     (case state of
        None \<Rightarrow> items
      | Some st \<Rightarrow>
          (case List.find (\<lambda>c. sl_key c = so_key st) columns of
             None \<Rightarrow> items
           | Some column \<Rightarrow> map fst (js_sort (row_compare column (direction_sign (so_direction st))) (zip items [0..<length items]))))"

definition nextSortState :: "sort_state option \<Rightarrow> string \<Rightarrow> 'a sort_column list \<Rightarrow> sort_state option" where
  "nextSortState current key columns =
     (let opening = (case Option.bind (List.find (\<lambda>c. sl_key c = key) columns) sl_defaultDirection of Some d \<Rightarrow> d | None \<Rightarrow> Asc)
      in case current of
           None \<Rightarrow> Some \<lparr>so_key = key, so_direction = opening\<rparr>
         | Some c \<Rightarrow>
             if so_key c \<noteq> key then Some \<lparr>so_key = key, so_direction = opening\<rparr>
             else if so_direction c = opening then Some \<lparr>so_key = key, so_direction = (if opening = Asc then Desc else Asc)\<rparr>
             else None)"

definition serializeSortParam :: "sort_state option \<Rightarrow> string option" where
  "serializeSortParam state =
     map_option (\<lambda>st. if so_direction st = Desc then CHR ''-'' # so_key st else so_key st) state"

definition parseSortParam :: "string option \<Rightarrow> string list \<Rightarrow> sort_state option" where
  "parseSortParam v keys =
     (case truthy_or_none v of
        None \<Rightarrow> None
      | Some s \<Rightarrow>
          let direction = (if js_starts_with s ''-'' then Desc else Asc);
              key = (if direction = Desc then tl s else s)
          in if key \<in> set keys then Some \<lparr>so_key = key, so_direction = direction\<rparr> else None)"

datatype aria_sort = aria_ascending | aria_descending | aria_none

record sort_indicator =
  si_active :: bool
  si_direction :: "sort_direction option"
  si_ariaSort :: aria_sort

definition sortIndicator :: "sort_state option \<Rightarrow> string \<Rightarrow> sort_indicator" where
  "sortIndicator state key =
     (case state of
        Some st \<Rightarrow>
          if so_key st = key
          then \<lparr>si_active = True, si_direction = Some (so_direction st),
                si_ariaSort = (if so_direction st = Desc then aria_descending else aria_ascending)\<rparr>
          else \<lparr>si_active = False, si_direction = None, si_ariaSort = aria_none\<rparr>
      | None \<Rightarrow> \<lparr>si_active = False, si_direction = None, si_ariaSort = aria_none\<rparr>)"

section \<open>Comparators\<close>

definition or_empty :: "string option \<Rightarrow> string" where
  "or_empty v = (case v of Some s \<Rightarrow> s | None \<Rightarrow> [])"

text \<open>\<open>localeCompare\<close>, with and without \<open>sensitivity: "base"\<close>.\<close>

record collation =
  co_base :: "string js_compare"
  co_plain :: "string js_compare"

definition byText :: "collation \<Rightarrow> ('a \<Rightarrow> string option) \<Rightarrow> 'a js_compare" where
  "byText co select = (\<lambda>l r. co_base co (or_empty (select l)) (or_empty (select r)))"

definition byNumber :: "('a \<Rightarrow> int option) \<Rightarrow> 'a js_compare" where
  "byNumber select = (\<lambda>l r. (let n = (\<lambda>x. case select x of Some k \<Rightarrow> k | None \<Rightarrow> 0) in n l - n r))"

definition byDate :: "collation \<Rightarrow> ('a \<Rightarrow> string option) \<Rightarrow> 'a js_compare" where
  "byDate co select = (\<lambda>l r. co_plain co (or_empty (select l)) (or_empty (select r)))"

text \<open>The rank of a value is its last position in the order: a later entry of the map replaces an earlier one.\<close>

definition rank_in :: "'v list \<Rightarrow> 'v option \<Rightarrow> nat" where
  "rank_in order v =
     (case Option.bind v (map_of (rev (zip order [0..<length order]))) of Some k \<Rightarrow> k | None \<Rightarrow> length order)"

definition byRank :: "('a \<Rightarrow> 'v option) \<Rightarrow> 'v list \<Rightarrow> 'a js_compare" where
  "byRank select order = (\<lambda>l r. int (rank_in order (select l)) - int (rank_in order (select r)))"

lemma comparator_int: "comparator (\<lambda>x y. f x - f y)"
  by (auto simp: comparator_def sgn_if)

lemma comparator_byNumber: "comparator (byNumber select)"
  using comparator_int [of "\<lambda>x. case select x of Some k \<Rightarrow> k | None \<Rightarrow> 0"] by (simp add: byNumber_def Let_def)

lemma comparator_byRank: "comparator (byRank select order)"
  using comparator_int [of "\<lambda>x. int (rank_in order (select x))"] by (simp add: byRank_def)

lemma comparator_byText: "comparator (co_base co) \<Longrightarrow> comparator (byText co select)"
  unfolding byText_def by (rule comparator_key)

lemma comparator_byDate: "comparator (co_plain co) \<Longrightarrow> comparator (byDate co select)"
  unfolding byDate_def by (rule comparator_key)

interpretation by_rank: comparator "byRank select order" for select :: "'a \<Rightarrow> 'v option" and order
  by (rule comparator_byRank)

interpretation by_number: comparator "byNumber select" for select :: "'a \<Rightarrow> int option"
  by (rule comparator_byNumber)

section \<open>Sorted lists\<close>

definition missing_in :: "'a sort_column \<Rightarrow> 'a \<Rightarrow> bool" where
  "missing_in column x = (case sl_isMissing column of Some missing \<Rightarrow> missing x | None \<Rightarrow> False)"

lemma row_compare_missing:
  "row_compare column sign l r =
     (if missing_in column (fst l) \<noteq> missing_in column (fst r) then (if missing_in column (fst l) then 1 else - 1)
      else if missing_in column (fst l) then int (snd l) - int (snd r)
      else (let c = sl_compare column (fst l) (fst r) * sign in if c \<noteq> 0 then c else int (snd l) - int (snd r)))"
  by (auto simp: row_compare_def missing_in_def Let_def split: option.split)

text \<open>Inserting a row before all rows with a later index.\<close>

lemma insert_row:
  assumes "\<forall>p \<in> set (rows @ gone). i < snd p" and "\<forall>p \<in> set rows. \<not> missing_in column (fst p)" and "\<forall>p \<in> set gone. missing_in column (fst p)"
  shows "sort_insert (row_compare column sign) (x, i) (rows @ gone) =
         (if missing_in column x then rows @ (x, i) # gone
          else sort_insert (\<lambda>l r. sl_compare column (fst l) (fst r) * sign) (x, i) rows @ gone)"
  using assms
proof (induction rows)
  case Nil
  then show ?case by (cases gone) (auto simp: row_compare_missing)
qed (auto simp: row_compare_missing Let_def)

lemma sort_rows:
  "js_sort (row_compare column sign) ps =
   js_sort (\<lambda>l r. sl_compare column (fst l) (fst r) * sign) (filter (\<lambda>p. \<not> missing_in column (fst p)) ps) @
   filter (\<lambda>p. missing_in column (fst p)) ps"
  if "sorted_wrt (\<lambda>p q. snd p < snd q) ps"
  using that
proof (induction ps)
  case (Cons p ps)
  let ?cmp = "\<lambda>l r. sl_compare column (fst l) (fst r) * sign"
  let ?rows = "js_sort ?cmp (filter (\<lambda>p. \<not> missing_in column (fst p)) ps)" and ?gone = "filter (\<lambda>p. missing_in column (fst p)) ps"
  have later: "\<forall>q \<in> set (?rows @ ?gone). snd p < snd q" using Cons.prems by auto
  have "sort_insert (row_compare column sign) (fst p, snd p) (?rows @ ?gone) =
      (if missing_in column (fst p) then ?rows @ (fst p, snd p) # ?gone else sort_insert ?cmp (fst p, snd p) ?rows @ ?gone)"
    by (rule insert_row) (use later in auto)
  with Cons show ?case by simp
qed simp

lemma map_insert: "map f (sort_insert (\<lambda>l r. cmp (f l) (f r)) x xs) = sort_insert cmp (f x) (map f xs)"
  by (induction xs) simp_all

lemma map_js_sort: "map f (js_sort (\<lambda>l r. cmp (f l) (f r)) xs) = js_sort cmp (map f xs)"
  by (induction xs) (simp_all add: map_insert)

lemma applySort_reference:
  assumes "List.find (\<lambda>c. sl_key c = so_key st) columns = Some column"
  shows "applySort items columns (Some st) =
         js_sort (\<lambda>l r. sl_compare column l r * direction_sign (so_direction st)) (filter (\<lambda>x. \<not> missing_in column x) items) @
         filter (missing_in column) items"
proof -
  let ?sign = "direction_sign (so_direction st)" and ?ps = "zip items [0..<length items]"
  have "sorted_wrt (\<lambda>p q. snd p < snd q) ?ps" by (simp add: sorted_wrt_iff_nth_less)
  from sort_rows [OF this] have "map fst (js_sort (row_compare column ?sign) ?ps) =
      js_sort (\<lambda>l r. sl_compare column l r * ?sign) (map fst (filter (\<lambda>p. \<not> missing_in column (fst p)) ?ps)) @
      map fst (filter (\<lambda>p. missing_in column (fst p)) ?ps)"
    by (simp add: map_js_sort [of fst "\<lambda>l r. sl_compare column l r * ?sign"])
  moreover have pick: "map fst (filter (\<lambda>p. P (fst p)) ?ps) = filter P items" for P
    using filter_map [of P fst ?ps] by (simp add: comp_def)
  ultimately show ?thesis
    using pick [of "\<lambda>x. \<not> missing_in column x"] pick [of "missing_in column"] by (simp add: applySort_def assms)
qed

text \<open>A sorted list holds the rows of the list; the rows without a value come last, in their old order, in both directions; the
others are in the order of the column in the direction asked for, and rows the column does not tell apart keep their old order, in
both directions too.\<close>

theorem sort_orders_rows:
  assumes column: "List.find (\<lambda>c. sl_key c = so_key st) columns = Some column" and order: "comparator (sl_compare column)"
  shows "mset (applySort items columns (Some st)) = mset items \<and>
         (\<exists>rows. applySort items columns (Some st) = rows @ filter (missing_in column) items \<and>
            sorted_wrt (\<lambda>a b. sl_compare column a b * direction_sign (so_direction st) \<le> 0) rows \<and>
            (\<forall>z. filter (\<lambda>y. sl_compare column y z = 0) rows = filter (\<lambda>y. \<not> missing_in column y \<and> sl_compare column y z = 0) items))"
proof -
  let ?cmp = "\<lambda>l r. sl_compare column l r * direction_sign (so_direction st)"
  let ?rows = "js_sort ?cmp (filter (\<lambda>x. \<not> missing_in column x) items)"
  have cmp: "comparator ?cmp" using order by (rule comparator_sign) (simp add: direction_sign_def)
  have "filter (\<lambda>y. sl_compare column y z = 0) ?rows = filter (\<lambda>y. \<not> missing_in column y \<and> sl_compare column y z = 0) items" for z
    using comparator.stable [OF cmp, of z "filter (\<lambda>x. \<not> missing_in column x) items"]
    by (simp add: direction_sign_def conj_commute split: if_splits)
  moreover have "sorted_wrt (\<lambda>a b. ?cmp a b \<le> 0) ?rows" by (rule comparator.sorted [OF cmp])
  moreover have "mset (?rows @ filter (missing_in column) items) = mset items"
    by simp
  ultimately show ?thesis unfolding applySort_reference [OF column] by blast
qed

theorem sort_orders_rows_witness:
  "let column = \<lparr>sl_key = ''n'', sl_compare = byNumber id, sl_defaultDirection = None, sl_isMissing = Some (\<lambda>x. x = None)\<rparr>;
       items = [Some 1, None, Some 3, Some 2]
   in mset (applySort items [column] (Some \<lparr>so_key = ''n'', so_direction = Desc\<rparr>)) = mset items \<and>
      applySort items [column] (Some \<lparr>so_key = ''n'', so_direction = Desc\<rparr>) = [Some 3, Some 2, Some 1, None]"
proof -
  let ?column = "\<lparr>sl_key = ''n'', sl_compare = byNumber id, sl_defaultDirection = None, sl_isMissing = Some (\<lambda>x. x = None)\<rparr>"
  have "mset (applySort [Some 1, None, Some 3, Some 2] [?column] (Some \<lparr>so_key = ''n'', so_direction = Desc\<rparr>)) =
      mset [Some 1, None, Some 3, Some 2]"
    using sort_orders_rows [of "\<lparr>so_key = ''n'', so_direction = Desc\<rparr>" "[?column]" ?column "[Some 1, None, Some 3, Some 2]"]
    by (simp add: comparator_byNumber)
  moreover have "applySort [Some 1, None, Some 3, Some 2] [?column] (Some \<lparr>so_key = ''n'', so_direction = Desc\<rparr>) = [Some 3, Some 2, Some 1, None]"
    by (simp add: applySort_def row_compare_def byNumber_def direction_sign_def)
  ultimately show ?thesis by simp
qed

text \<open>The parameter of an address gives the sort state back; one that names no column is dropped.\<close>

lemma sort_param_roundtrip:
  assumes "so_key st \<in> set keys" and "so_key st \<noteq> []" and "hd (so_key st) \<noteq> CHR ''-''"
  shows "parseSortParam (serializeSortParam (Some st)) keys = Some st"
proof -
  have "\<not> js_starts_with (so_key st) ''-''" using assms(2,3) by (cases "so_key st") simp_all
  moreover have "st = \<lparr>so_key = so_key st, so_direction = so_direction st\<rparr>" by simp
  ultimately show ?thesis
    using assms(1,2) by (cases "so_direction st") (simp_all add: parseSortParam_def serializeSortParam_def truthy_or_none_def)
qed

lemma parse_sort_offered: "parseSortParam v keys = Some st \<Longrightarrow> so_key st \<in> set keys"
  by (auto simp: parseSortParam_def Let_def split: option.splits if_splits)

text \<open>Three clicks on a header lead back to the order the list came in.\<close>

lemma three_clicks: "nextSortState (nextSortState (nextSortState None k columns) k columns) k columns = None"
  by (auto simp: nextSortState_def Let_def)

end
