(* ===== verification/Web_Agents.thy ===== *)
theory Web_Agents
  imports Daemon_Protocol Session_Events List_Sort Decimal_Text
begin

text \<open>
  The agents of an employee and the computers they run on, as the web client lists them: placements
  (\<open>web/src/lib/agentPlacements.ts\<close>), the roster by computer (\<open>agentGroups.ts\<close>, \<open>agentSearch.ts\<close>, \<open>employeeAgents.ts\<close>), names
  (\<open>agentDisplayNames.ts\<close>), computers (\<open>createAgent.ts\<close>, \<open>computerNodes.ts\<close>) and the node list (\<open>daemonNodes.ts\<close>). Ids are not
  names of members of \<open>Object.prototype\<close>. A JavaScript map is an association list in insertion order; \<open>localeCompare\<close> is the parameter of List_Sort.
\<close>

section \<open>Agents and placements\<close>

datatype node_ownership = own_managed | own_employee_device | own_unknown
datatype placement_state = pl_active | pl_draining | pl_removed
datatype placement_status = st_pending | st_ready | st_busy | st_offline | st_incompatible | st_failed

record agent_placement =
  ap_id :: string
  ap_agentId :: string
  ap_employeeId :: string
  ap_daemonNodeId :: string
  ap_runtimeNodeId :: "string option"
  ap_computerId :: "string option"
  ap_managedNodeId :: "string option"
  ap_nodeDisplayName :: "string option"
  ap_nodeOwnership :: "node_ownership option"
  ap_nodeSandboxMode :: "DaemonNodeSandboxMode option"
  ap_executorKind :: AgentName
  ap_desiredState :: placement_state
  ap_status :: placement_status
  ap_priority :: int
  ap_agentVersion :: int
  ap_workspacePolicy :: "(string \<times> json) list"
  ap_conditions :: "(string \<times> string) list"
  ap_createdAt :: string
  ap_updatedAt :: string

datatype agent_availability = AvReady | AvBusy | AvPending | AvOffline
datatype binding_status = bind_available | bind_computer_gone | bind_computer_offline | bind_runtime_missing

record employee_agent =
  ea_id :: string
  ea_employeeId :: string
  ea_displayName :: string
  ea_profileImageUrl :: "string option"
  ea_executorKind :: AgentName
  ea_instructions :: "string option"
  ea_defaultRole :: "AgentRole option"
  ea_skillPolicy :: "(string \<times> json) list"
  ea_toolPolicy :: "(string \<times> json) list"
  ea_modelPolicy :: "(string \<times> json) list"
  ea_skills :: "agent_skill list option"
  ea_enabled :: bool
  ea_version :: int
  ea_availability :: agent_availability
  ea_placements :: "agent_placement list"
  ea_computerId :: "string option"
  ea_bindingStatus :: "binding_status option"
  ea_createdAt :: string
  ea_updatedAt :: string
  ea_deletedAt :: "string option"

section \<open>Placements\<close>

definition activePlacements :: "agent_placement list \<Rightarrow> agent_placement list" where
  "activePlacements = filter (\<lambda>p. ap_desiredState p \<noteq> pl_removed)"

datatype placement_tone = place_good | place_info | place_warn | place_bad | place_neutral

fun placementStatusTone :: "placement_status \<Rightarrow> placement_tone" where
  "placementStatusTone st_ready = place_good"
| "placementStatusTone st_busy = place_info"
| "placementStatusTone st_pending = place_warn"
| "placementStatusTone st_failed = place_bad"
| "placementStatusTone st_incompatible = place_bad"
| "placementStatusTone st_offline = place_neutral"

datatype placement_ownership = owned_managed | owned_local | owned_pending
datatype placement_sandbox = in_boxlite | on_host | sandbox_pending
datatype placement_preference = preferred | alternate

record placement_description =
  pd_placement :: agent_placement
  pd_nodeName :: string
  pd_ownership :: placement_ownership
  pd_sandbox :: placement_sandbox
  pd_preference :: "placement_preference option"

definition placementRuntimeNodeId :: "agent_placement \<Rightarrow> string" where
  "placementRuntimeNodeId p = (case truthy_or_none (ap_runtimeNodeId p) of Some r \<Rightarrow> r | None \<Rightarrow> ap_daemonNodeId p)"

definition placementBadgeShowsSandbox :: "placement_sandbox \<Rightarrow> bool \<Rightarrow> bool" where
  "placementBadgeShowsSandbox sandbox requested \<longleftrightarrow> requested \<and> sandbox \<noteq> on_host"

record badge_labels =
  bl_nodeName :: string
  bl_ownership :: string
  bl_sandboxLabel :: string
  bl_status :: string

definition placementBadgeDetailLabels :: "badge_labels \<Rightarrow> bool \<Rightarrow> string list" where
  "placementBadgeDetailLabels l includeSandbox =
     [bl_nodeName l, bl_ownership l] @ (if includeSandbox then [bl_sandboxLabel l] else []) @ [bl_status l]"

definition comparePlacements :: "collation \<Rightarrow> agent_placement js_compare" where
  "comparePlacements co l r = (let d = ap_priority l - ap_priority r in if d \<noteq> 0 then d else co_plain co (ap_id l) (ap_id r))"

definition placement_computer :: "agent_placement \<Rightarrow> string" where
  "placement_computer p = (case truthy_or_none (ap_computerId p) of Some c \<Rightarrow> c | None \<Rightarrow> placementRuntimeNodeId p)"

text \<open>Active placements are counted while they are described: the first is preferred.\<close>

fun describe_each :: "nat \<Rightarrow> agent_placement list \<Rightarrow> placement_description list" where
  "describe_each activeIndex [] = []"
| "describe_each activeIndex (p # ps) =
     \<lparr>pd_placement = p,
      pd_nodeName = (case truthy_or_none (ap_nodeDisplayName p) of Some n \<Rightarrow> n | None \<Rightarrow> placementRuntimeNodeId p),
      pd_ownership = (if ap_nodeOwnership p = Some own_managed then owned_managed
                      else if ap_nodeOwnership p = Some own_employee_device then owned_local else owned_pending),
      pd_sandbox = (case ap_nodeSandboxMode p of Some sandbox_boxlite \<Rightarrow> in_boxlite | Some sandbox_none \<Rightarrow> on_host | None \<Rightarrow> sandbox_pending),
      pd_preference = (if ap_desiredState p = pl_active then Some (if activeIndex = 0 then preferred else alternate) else None)\<rparr>
     # describe_each (if ap_desiredState p = pl_active then Suc activeIndex else activeIndex) ps"

definition describeAgentPlacements :: "collation \<Rightarrow> agent_placement list \<Rightarrow> placement_description list" where
  "describeAgentPlacements co placements =
     describe_each 0 (first_by placement_computer []
       (js_sort (comparePlacements co) (filter (\<lambda>p. ap_desiredState p \<noteq> pl_removed) placements)))"

section \<open>The roster\<close>

definition dedupeAgentsById :: "employee_agent list \<Rightarrow> employee_agent list" where
  "dedupeAgentsById = first_by ea_id []"

definition UNPLACED_GROUP_KEY :: string where
  "UNPLACED_GROUP_KEY = ''__unplaced__''"

record agent_group =
  gr_key :: string
  gr_label :: "string option"
  gr_agents :: "employee_agent list"

definition agent_descriptions :: "collation \<Rightarrow> employee_agent \<Rightarrow> placement_description list" where
  "agent_descriptions co a = describeAgentPlacements co (activePlacements (ea_placements a))"

definition group_key :: "employee_agent \<Rightarrow> agent_placement \<Rightarrow> string" where
  "group_key a p =
     (case truthy_or_none (ap_computerId p) of
        Some c \<Rightarrow> c
      | None \<Rightarrow> (case truthy_or_none (ea_computerId a) of Some c \<Rightarrow> c | None \<Rightarrow> placementRuntimeNodeId p))"

fun add_to_group :: "string \<Rightarrow> string \<Rightarrow> employee_agent \<Rightarrow> agent_group list \<Rightarrow> agent_group list" where
  "add_to_group key label a [] = [\<lparr>gr_key = key, gr_label = Some label, gr_agents = [a]\<rparr>]"
| "add_to_group key label a (g # gs) =
     (if gr_key g = key then g\<lparr>gr_agents := gr_agents g @ [a]\<rparr> # gs else g # add_to_group key label a gs)"

definition place_agent :: "collation \<Rightarrow> employee_agent \<Rightarrow> agent_group list \<Rightarrow> agent_group list" where
  "place_agent co a groups =
     foldl (\<lambda>gs d. add_to_group (group_key a (pd_placement d)) (pd_nodeName d) a gs) groups (agent_descriptions co a)"

definition compareGroups :: "collation \<Rightarrow> agent_group js_compare" where
  "compareGroups co l r =
     (let d = co_base co (or_empty (gr_label l)) (or_empty (gr_label r)) in if d \<noteq> 0 then d else co_plain co (gr_key l) (gr_key r))"

definition groupAgentsByComputer :: "collation \<Rightarrow> employee_agent list \<Rightarrow> agent_group list" where
  "groupAgentsByComputer co agents =
     (let unplaced = filter (\<lambda>a. agent_descriptions co a = []) agents
      in js_sort (compareGroups co) (foldl (\<lambda>gs a. place_agent co a gs) [] agents) @
         (if unplaced = [] then [] else [\<lparr>gr_key = UNPLACED_GROUP_KEY, gr_label = None, gr_agents = unplaced\<rparr>]))"

definition agentMatchesQuery :: "collation \<Rightarrow> employee_agent \<Rightarrow> string \<Rightarrow> string \<Rightarrow> bool" where
  "agentMatchesQuery co a blurb query =
     (let normalized = map js_lower (js_trim query);
          haystack = js_join '' ''
            ([ea_displayName a, ea_id a, agent_id (ea_executorKind a), blurb, or_empty (ea_instructions a)] @
             map pd_nodeName (agent_descriptions co a))
      in normalized = [] \<or> js_includes (map js_lower haystack) normalized)"

section \<open>Names\<close>

definition isLogicalAgentRoutable :: "agent_availability \<Rightarrow> bool" where
  "isLogicalAgentRoutable a \<longleftrightarrow> a = AvReady \<or> a = AvBusy"

definition isEmployeeAgentRoutable :: "employee_agent \<Rightarrow> bool" where
  "isEmployeeAgentRoutable a \<longleftrightarrow> ea_enabled a \<and> \<not> js_truthy (ea_deletedAt a) \<and> isLogicalAgentRoutable (ea_availability a)"

definition preferredRoutableAgent :: "employee_agent list \<Rightarrow> string option \<Rightarrow> employee_agent option" where
  "preferredRoutableAgent agents preferredId =
     (case List.find (\<lambda>a. Some (ea_id a) = preferredId \<and> isEmployeeAgentRoutable a) agents of
        Some a \<Rightarrow> Some a
      | None \<Rightarrow> List.find isEmployeeAgentRoutable agents)"

text \<open>\<open>toUpperCase\<close> on an ASCII letter; the names of executors begin with one.\<close>

definition ascii_upper :: "char \<Rightarrow> char" where
  "ascii_upper c = (let n = (of_char c :: nat) in if 97 \<le> n \<and> n \<le> 122 then char_of (n - 32) else c)"

definition fallbackExecutorLabel :: "AgentName \<Rightarrow> string" where
  "fallbackExecutorLabel a = (case agent_id a of c # cs \<Rightarrow> ascii_upper c # cs | [] \<Rightarrow> [])"

fun routableScore :: "agent_availability \<Rightarrow> int" where
  "routableScore AvReady = 0"
| "routableScore AvBusy = 1"
| "routableScore _ = 2"

type_synonym 'a agent_names = "'a \<rightharpoonup> string"

text \<open>A name is set when the kind has none yet; an empty name counts as none.\<close>

definition buildExecutorDisplayNameMap :: "collation \<Rightarrow> employee_agent list \<Rightarrow> AgentName agent_names" where
  "buildExecutorDisplayNameMap co agents =
     fold (\<lambda>a names. if js_truthy (names (ea_executorKind a)) then names else names(ea_executorKind a \<mapsto> ea_displayName a))
       (js_sort (\<lambda>l r. let d = routableScore (ea_availability l) - routableScore (ea_availability r)
                        in if d \<noteq> 0 then d else co_base co (ea_displayName l) (ea_displayName r))
         (filter (\<lambda>a. \<not> js_truthy (ea_deletedAt a)) agents))
       Map.empty"

definition labelForExecutor :: "AgentName \<Rightarrow> AgentName agent_names option \<Rightarrow> string" where
  "labelForExecutor kind names =
     (case Option.bind names (\<lambda>m. m kind) of Some n \<Rightarrow> n | None \<Rightarrow> fallbackExecutorLabel kind)"

definition displayNameForExecutor :: "collation \<Rightarrow> AgentName option \<Rightarrow> employee_agent list \<Rightarrow> string" where
  "displayNameForExecutor co kind agents =
     (case kind of None \<Rightarrow> [] | Some k \<Rightarrow> labelForExecutor k (Some (buildExecutorDisplayNameMap co agents)))"

definition buildLogicalAgentNameMap :: "employee_agent list \<Rightarrow> string agent_names" where
  "buildLogicalAgentNameMap agents = map_of (map (\<lambda>a. (ea_id a, ea_displayName a)) (rev agents))"

definition labelForAgentRun :: "AgentName \<Rightarrow> string option \<Rightarrow> string agent_names option \<Rightarrow> AgentName agent_names option \<Rightarrow> string" where
  "labelForAgentRun agent agentId logicalAgentNames agentDisplayNames =
     (case Option.bind (truthy_or_none agentId) (\<lambda>i. Option.bind logicalAgentNames (\<lambda>m. m i)) of
        Some n \<Rightarrow> n
      | None \<Rightarrow> labelForExecutor agent agentDisplayNames)"

definition buildLogicalAgentImageMap :: "employee_agent list \<Rightarrow> string agent_names" where
  "buildLogicalAgentImageMap agents =
     map_of (rev (List.map_filter (\<lambda>a. map_option (Pair (ea_id a)) (truthy_or_none (ea_profileImageUrl a))) agents))"

definition imageForAgentRun :: "string option \<Rightarrow> string agent_names option \<Rightarrow> string option" where
  "imageForAgentRun agentId images = Option.bind (truthy_or_none agentId) (\<lambda>i. Option.bind images (\<lambda>m. m i))"

section \<open>Computers\<close>

definition trimmed :: "string option \<Rightarrow> string option" where
  "trimmed v = truthy_or_none (map_option js_trim v)"

definition computerName :: "string \<Rightarrow> string option \<Rightarrow> string" where
  "computerName i displayName = (case trimmed displayName of Some n \<Rightarrow> n | None \<Rightarrow> i)"

definition computerId :: "daemon_node_record \<Rightarrow> string" where
  "computerId n =
     (case trimmed (dn_managedNodeId n) of
        Some m \<Rightarrow> ''managed:'' @ m
      | None \<Rightarrow>
          (case (trimmed (dn_employeeId n), trimmed (dn_workspaceId n)) of
             (Some e, Some w) \<Rightarrow> ''device:'' @ e @ '':'' @ w
           | _ \<Rightarrow> ''node:'' @ dn_id n))"

datatype computer_ownership = computer_local | computer_managed

record employee_computer =
  ec_computerId :: string
  ec_ownership :: computer_ownership
  ec_nodes :: "daemon_node_record list"

definition add_to_computer :: "daemon_node_record \<Rightarrow> (string \<times> daemon_node_record list) list \<Rightarrow> (string \<times> daemon_node_record list) list" where
  "add_to_computer n m = AList.update (computerId n) ((case map_of m (computerId n) of Some ns \<Rightarrow> ns | None \<Rightarrow> []) @ [n]) m"

definition computersForEmployee :: "daemon_node_record list \<Rightarrow> string \<Rightarrow> employee_computer list" where
  "computersForEmployee nodes employeeId =
     map (\<lambda>(i, group). \<lparr>ec_computerId = i,
            ec_ownership = (if list_ex (\<lambda>n. trimmed (dn_managedNodeId n) \<noteq> None) group then computer_managed else computer_local),
            ec_nodes = group\<rparr>)
       (fold add_to_computer (filter (\<lambda>n. dn_employeeId n = Some employeeId) nodes) [])"

text \<open>The runtimes of a computer: the agents a node reports as installed less the disabled ones.\<close>

definition runtimesForComputer :: "(daemon_node_record \<Rightarrow> string list) \<Rightarrow> daemon_node_record list \<Rightarrow> string \<Rightarrow> string list" where
  "runtimesForComputer supportedAgents nodes target =
     (let here = filter (\<lambda>n. computerId n = target) nodes;
          disabled = concat (map (\<lambda>n. case dn_disabledAgents n of Some ds \<Rightarrow> map agent_id ds | None \<Rightarrow> []) here)
      in filter (\<lambda>k. k \<notin> set disabled) (rev (remdups (rev (concat (map supportedAgents here))))))"

section \<open>The list of nodes\<close>

definition stripControlPanelToken :: "daemon_node_record \<Rightarrow> daemon_node_record" where
  "stripControlPanelToken n = n\<lparr>dn_nodeToken := None\<rparr>"

definition node_liveness :: "daemon_node_record \<Rightarrow> int" where
  "node_liveness n =
     (if dn_activeRuns n \<noteq> [] then 4
      else if dn_online n \<and> \<not> dn_stale n \<and> dn_status n = sb_ready then 3
      else if dn_online n \<and> \<not> dn_stale n then 2
      else if \<not> dn_stale n then 1 else 0)"

definition mergedDisplayName :: "daemon_node_record \<Rightarrow> daemon_node_record \<Rightarrow> string option" where
  "mergedDisplayName winner loser =
     (case List.find (\<lambda>n. trimmed (dn_displayName n) \<noteq> None) [winner, loser] of Some n \<Rightarrow> dn_displayName n | None \<Rightarrow> None)"

definition preferDaemonNode :: "collation \<Rightarrow> daemon_node_record \<Rightarrow> daemon_node_record \<Rightarrow> daemon_node_record" where
  "preferDaemonNode co a b =
     (let rankDelta = node_liveness b - node_liveness a;
          second = (if 0 < rankDelta then True else if rankDelta < 0 then False
                    else 0 < co_plain co (or_empty (dn_lastSeenAt b)) (or_empty (dn_lastSeenAt a)));
          winner = (if second then b else a)
      in case mergedDisplayName winner (if second then a else b) of
           None \<Rightarrow> winner
         | Some d \<Rightarrow> winner\<lparr>dn_displayName := Some d\<rparr>)"

definition prefer_into ::
  "collation \<Rightarrow> (daemon_node_record \<Rightarrow> string) \<Rightarrow> daemon_node_record \<Rightarrow> (string \<times> daemon_node_record) list \<Rightarrow>
   (string \<times> daemon_node_record) list" where
  "prefer_into co key n m =
     (if js_truthy (dn_employeeId n)
      then AList.update (key n) (case map_of m (key n) of Some old \<Rightarrow> preferDaemonNode co old n | None \<Rightarrow> n) m
      else m)"

definition merge_nodes :: "collation \<Rightarrow> (daemon_node_record \<Rightarrow> string) \<Rightarrow> daemon_node_record list \<Rightarrow> daemon_node_record list" where
  "merge_nodes co key nodes = map snd (fold (prefer_into co key) nodes [])"

definition mergeVisibleDaemonNodes :: "collation \<Rightarrow> daemon_node_record list \<Rightarrow> daemon_node_record list \<Rightarrow> daemon_node_record list" where
  "mergeVisibleDaemonNodes co authenticated control =
     js_sort (\<lambda>a b. co_plain co (or_empty (dn_employeeId a)) (or_empty (dn_employeeId b)))
       (merge_nodes co (\<lambda>n. or_empty (dn_employeeId n)) (authenticated @ map stripControlPanelToken control))"

definition mergeThreadRuntimeNodes :: "collation \<Rightarrow> daemon_node_record list \<Rightarrow> daemon_node_record list \<Rightarrow> daemon_node_record list" where
  "mergeThreadRuntimeNodes co authenticated control =
     js_sort (\<lambda>a b. let d = co_plain co (or_empty (dn_employeeId a)) (or_empty (dn_employeeId b))
                    in if d \<noteq> 0 then d else co_plain co (dn_id a) (dn_id b))
       (merge_nodes co dn_id (authenticated @ map stripControlPanelToken control))"

definition withoutDeletedComputer :: "daemon_node_record list \<Rightarrow> string \<Rightarrow> string option \<Rightarrow> daemon_node_record list" where
  "withoutDeletedComputer nodes deletedId deletedManagedNodeId =
     filter (\<lambda>n. dn_id n \<noteq> deletedId \<and> (\<not> js_truthy deletedManagedNodeId \<or> dn_managedNodeId n \<noteq> deletedManagedNodeId)) nodes"

definition shouldClaimLocalDaemonNode :: "daemon_node_record \<Rightarrow> daemon_node_record list \<Rightarrow> bool" where
  "shouldClaimLocalDaemonNode control authenticated \<longleftrightarrow>
     js_truthy (dn_employeeId control) \<and> js_truthy (dn_nodeToken control) \<and> dn_online control \<and> \<not> dn_stale control \<and>
     \<not> list_ex (\<lambda>n. (dn_id n = dn_id control \<or> dn_employeeId n = dn_employeeId control) \<and> dn_online n \<and> \<not> dn_stale n) authenticated"

definition nodesAssignedToEmployee :: "collation \<Rightarrow> daemon_node_record list \<Rightarrow> string option \<Rightarrow> daemon_node_record list" where
  "nodesAssignedToEmployee co nodes employeeId =
     (if \<not> js_truthy employeeId then []
      else merge_nodes co computerId (filter (\<lambda>n. dn_employeeId n = employeeId) nodes))"

definition countEmployeeDeviceComputers :: "daemon_node_record list \<Rightarrow> nat" where
  "countEmployeeDeviceComputers nodes = length (filter (\<lambda>n. dn_nodeLocation n = Some employee_device) nodes)"

text \<open>Elapsed time; \<open>None\<close> is a start that is no date.\<close>

definition formatRunElapsed :: "string \<Rightarrow> int option \<Rightarrow> int \<Rightarrow> string" where
  "formatRunElapsed dash startedAt now =
     (case startedAt of
        None \<Rightarrow> dash
      | Some t \<Rightarrow>
          (let seconds = max 0 ((now - t) div 1000); minutes = seconds div 60; rest = show_int (minutes mod 60)
           in if seconds < 60 then show_int seconds @ ''s''
              else if minutes < 60 then show_int minutes @ ''m''
              else show_int (minutes div 60) @ ''h '' @ replicate (2 - length rest) CHR ''0'' @ rest @ ''m''))"

definition abbreviateNodeId :: "string \<Rightarrow> string \<Rightarrow> nat \<Rightarrow> string" where
  "abbreviateNodeId ellipsis i edge =
     (if length i \<le> edge * 2 + 1 then i else take edge i @ ellipsis @ js_slice (- int edge) i)"

section \<open>Placements are described once per computer\<close>

lemma describe_placements: "map pd_placement (describe_each k ps) = ps"
  by (induction ps arbitrary: k) simp_all

lemma described: "d \<in> set (describe_each k ps) \<Longrightarrow> pd_placement d \<in> set ps"
  by (metis describe_placements image_eqI list.set_map)

lemma preferred_once:
  "length (filter (\<lambda>d. pd_preference d = Some preferred) (describe_each k ps)) \<le> (if k = 0 then 1 else 0)"
proof (induction ps arbitrary: k)
  case (Cons p ps)
  show ?case using Cons.IH [of k] Cons.IH [of "Suc k"] by (auto split: if_splits)
qed simp

text \<open>The placements of an agent are shown as one row for each computer it has not been removed from; at most one row is preferred,
and only active placements are preferred or alternates.\<close>

theorem one_row_per_computer:
  "distinct (map (placement_computer \<circ> pd_placement) (describeAgentPlacements co ps)) \<and>
   (placement_computer \<circ> pd_placement) ` set (describeAgentPlacements co ps) =
     placement_computer ` {p \<in> set ps. ap_desiredState p \<noteq> pl_removed} \<and>
   length (filter (\<lambda>d. pd_preference d = Some preferred) (describeAgentPlacements co ps)) \<le> 1"
proof -
  let ?ps = "first_by placement_computer [] (js_sort (comparePlacements co) (filter (\<lambda>p. ap_desiredState p \<noteq> pl_removed) ps))"
  have rows: "map (placement_computer \<circ> pd_placement) (describeAgentPlacements co ps) = map placement_computer ?ps"
    by (simp only: describeAgentPlacements_def map_map [symmetric] describe_placements)
  then have "(placement_computer \<circ> pd_placement) ` set (describeAgentPlacements co ps) = placement_computer ` set ?ps"
    by (metis list.set_map)
  then show ?thesis
    using first_by_spec [of placement_computer "[]" "js_sort (comparePlacements co) (filter (\<lambda>p. ap_desiredState p \<noteq> pl_removed) ps)"] rows
      preferred_once [of 0 ?ps]
    by (simp add: describeAgentPlacements_def del: o_apply)
qed

section \<open>No agent is missing from the roster\<close>

definition listed :: "agent_group list \<Rightarrow> employee_agent set" where
  "listed gs = (\<Union>g \<in> set gs. set (gr_agents g))"

lemma add_to_group_listed: "listed (add_to_group k l a gs) = insert a (listed gs)"
  by (induction gs) (auto simp: listed_def)

lemma add_to_group_key_set [simp]: "gr_key ` set (add_to_group k l a gs) = insert k (gr_key ` set gs)"
  by (induction gs) auto

lemma add_to_group_keys: "distinct (map gr_key gs) \<Longrightarrow> distinct (map gr_key (add_to_group k l a gs))"
proof (induction gs)
  case (Cons g gs)
  then show ?case by (cases "gr_key g = k") simp_all
qed simp

lemma place_agent_listed:
  "listed (place_agent co a gs) = (if agent_descriptions co a = [] then listed gs else insert a (listed gs))"
proof -
  have "listed (foldl (\<lambda>gs d. add_to_group (group_key a (pd_placement d)) (pd_nodeName d) a gs) gs ds) =
      (if ds = [] then listed gs else insert a (listed gs))" for ds :: "placement_description list"
    by (induction ds arbitrary: gs) (auto simp: add_to_group_listed)
  then show ?thesis by (simp add: place_agent_def)
qed

lemma place_agents_listed:
  "listed (foldl (\<lambda>gs a. place_agent co a gs) gs agents) = listed gs \<union> {a \<in> set agents. agent_descriptions co a \<noteq> []}"
  by (induction agents arbitrary: gs) (auto simp: place_agent_listed)

lemma place_agents_keys: "distinct (map gr_key gs) \<Longrightarrow> distinct (map gr_key (foldl (\<lambda>gs a. place_agent co a gs) gs agents))"
proof (induction agents arbitrary: gs)
  case (Cons a agents)
  have "distinct (map gr_key (foldl (\<lambda>gs d. add_to_group (group_key a (pd_placement d)) (pd_nodeName d) a gs) gs ds))"
    for ds :: "placement_description list"
    using Cons.prems by (induction ds arbitrary: gs) (simp_all add: add_to_group_keys)
  then show ?case using Cons.IH by (simp add: place_agent_def)
qed simp

text \<open>The roster by computer shows every agent and no other, and each computer once.\<close>

theorem roster_complete:
  "listed (groupAgentsByComputer co agents) = set agents \<and>
   distinct (map gr_key (filter (\<lambda>g. gr_label g \<noteq> None) (groupAgentsByComputer co agents)))"
proof -
  let ?gs = "foldl (\<lambda>gs a. place_agent co a gs) [] agents"
  have "listed (js_sort (compareGroups co) ?gs) = listed ?gs" by (simp add: listed_def)
  then have "listed (groupAgentsByComputer co agents) = set agents"
    using place_agents_listed [of co "[]" agents]
    by (auto simp: groupAgentsByComputer_def Let_def) (auto simp: listed_def filter_empty_conv)
  moreover have "distinct (map gr_key (js_sort (compareGroups co) ?gs))"
    using place_agents_keys [of "[]" co agents] mset_js_sort [of "compareGroups co" ?gs]
    by (metis distinct.simps(1) list.map(1) mset_eq_imp_distinct_iff mset_map)
  ultimately show ?thesis
    by (auto simp: groupAgentsByComputer_def Let_def intro: distinct_map_filter)
qed

section \<open>The node list\<close>

definition same_node :: "daemon_node_record \<Rightarrow> daemon_node_record \<Rightarrow> bool" where
  "same_node r n \<longleftrightarrow> r\<lparr>dn_displayName := None\<rparr> = n\<lparr>dn_displayName := None\<rparr>"

lemma same_node_refl [simp]: "same_node n n"
  by (simp add: same_node_def)

lemma same_node_trans: "same_node a b \<Longrightarrow> same_node b c \<Longrightarrow> same_node a c"
  by (simp add: same_node_def)

lemma same_node_rank: "same_node r n \<Longrightarrow> node_liveness r = node_liveness n"
proof -
  have "node_liveness (m\<lparr>dn_displayName := None\<rparr>) = node_liveness m" for m by (simp add: node_liveness_def)
  then show "same_node r n \<Longrightarrow> node_liveness r = node_liveness n" by (metis same_node_def)
qed

lemma same_node_fields: "same_node r n \<Longrightarrow> dn_id r = dn_id n \<and> dn_nodeToken r = dn_nodeToken n \<and> dn_employeeId r = dn_employeeId n"
  unfolding same_node_def by (metis daemon_node_record.select_convs daemon_node_record.surjective daemon_node_record.update_convs(2))

lemma prefer_node_with:
  "(same_node (preferDaemonNode co a b) a \<or> same_node (preferDaemonNode co a b) b) \<and>
   node_liveness a \<le> node_liveness (preferDaemonNode co a b) \<and> node_liveness b \<le> node_liveness (preferDaemonNode co a b)"
proof -
  have rank: "node_liveness (n\<lparr>dn_displayName := d\<rparr>) = node_liveness n" for n d by (simp add: node_liveness_def)
  show ?thesis by (auto simp: preferDaemonNode_def Let_def rank same_node_def split: option.split)
qed

text \<open>What a list of nodes merged by id holds of the nodes merged so far.\<close>

definition merged_ok :: "daemon_node_record set \<Rightarrow> (string \<times> daemon_node_record) list \<Rightarrow> bool" where
  "merged_ok seen m \<longleftrightarrow>
     distinct (map fst m) \<and> fst ` set m = dn_id ` {n \<in> seen. js_truthy (dn_employeeId n)} \<and>
     (\<forall>(k, r) \<in> set m. dn_id r = k \<and> (\<exists>n \<in> seen. same_node r n) \<and>
        (\<forall>n \<in> seen. js_truthy (dn_employeeId n) \<and> dn_id n = k \<longrightarrow> node_liveness n \<le> node_liveness r))"

lemma merged_okD:
  "merged_ok seen m \<Longrightarrow> (k, r) \<in> set m \<Longrightarrow>
   dn_id r = k \<and> (\<exists>n \<in> seen. same_node r n) \<and> (\<forall>n \<in> seen. js_truthy (dn_employeeId n) \<and> dn_id n = k \<longrightarrow> node_liveness n \<le> node_liveness r)"
  unfolding merged_ok_def by blast

lemma update_set: "distinct (map fst m) \<Longrightarrow> set (AList.update k v m) = insert (k, v) {p \<in> set m. fst p \<noteq> k}"
  by (induction m) (auto, force+)

lemma prefer_into_ok:
  assumes ok: "merged_ok seen m"
  shows "merged_ok (insert n seen) (prefer_into co dn_id n m)"
proof (cases "js_truthy (dn_employeeId n)")
  case False
  then have "{x \<in> insert n seen. js_truthy (dn_employeeId x)} = {x \<in> seen. js_truthy (dn_employeeId x)}" by auto
  with False ok show ?thesis by (fastforce simp: merged_ok_def prefer_into_def)
next
  case True
  define v where "v = (case map_of m (dn_id n) of Some old \<Rightarrow> preferDaemonNode co old n | None \<Rightarrow> n)"
  have m: "distinct (map fst m)" "fst ` set m = dn_id ` {n \<in> seen. js_truthy (dn_employeeId n)}" using ok by (auto simp: merged_ok_def)
  have old: "dn_id r = k \<and> (\<exists>x \<in> seen. same_node r x) \<and> (\<forall>x \<in> seen. js_truthy (dn_employeeId x) \<and> dn_id x = k \<longrightarrow> node_liveness x \<le> node_liveness r)"
    if "(k, r) \<in> set m" for k r using ok that by (rule merged_okD)
  have v: "dn_id v = dn_id n \<and> (\<exists>x \<in> insert n seen. same_node v x) \<and>
      (\<forall>x \<in> insert n seen. js_truthy (dn_employeeId x) \<and> dn_id x = dn_id n \<longrightarrow> node_liveness x \<le> node_liveness v)"
  proof (cases "map_of m (dn_id n)")
    case None
    then have "dn_id n \<notin> dn_id ` {x \<in> seen. js_truthy (dn_employeeId x)}" using m by (simp add: map_of_eq_None_iff)
    then show ?thesis by (auto simp: v_def None image_iff)
  next
    case (Some r)
    then have r: "(dn_id n, r) \<in> set m" by (rule map_of_SomeD)
    have "same_node v r \<or> same_node v n" "node_liveness r \<le> node_liveness v" "node_liveness n \<le> node_liveness v"
      using prefer_node_with [of co r n] by (simp_all add: v_def Some)
    moreover have rank: "node_liveness x \<le> node_liveness r" if "x \<in> seen" "js_truthy (dn_employeeId x)" "dn_id x = dn_id n" for x
      using old [OF r] that by blast
    moreover obtain x where x: "x \<in> seen" "same_node r x" and "dn_id r = dn_id n" using old [OF r] by blast
    ultimately have "dn_id v = dn_id n" "\<exists>x \<in> insert n seen. same_node v x"
      using same_node_fields [of v r] same_node_fields [of v n] same_node_trans [of v r x] by auto
    moreover have "node_liveness x \<le> node_liveness v" if "x \<in> insert n seen" "js_truthy (dn_employeeId x)" "dn_id x = dn_id n" for x
      using that rank [of x] \<open>node_liveness r \<le> node_liveness v\<close> \<open>node_liveness n \<le> node_liveness v\<close> by auto
    ultimately show ?thesis by blast
  qed
  have "prefer_into co dn_id n m = AList.update (dn_id n) v m" using True by (simp add: prefer_into_def v_def)
  moreover have "merged_ok (insert n seen) (AList.update (dn_id n) v m)"
    unfolding merged_ok_def
  proof (intro conjI)
    show "distinct (map fst (AList.update (dn_id n) v m))" using m(1) by (rule distinct_update)
    show "fst ` set (AList.update (dn_id n) v m) = dn_id ` {x \<in> insert n seen. js_truthy (dn_employeeId x)}"
      unfolding dom_update using m(2) True by auto
    show "\<forall>(k, r) \<in> set (AList.update (dn_id n) v m). dn_id r = k \<and> (\<exists>x \<in> insert n seen. same_node r x) \<and>
        (\<forall>x \<in> insert n seen. js_truthy (dn_employeeId x) \<and> dn_id x = k \<longrightarrow> node_liveness x \<le> node_liveness r)"
      using v old by (fastforce simp: update_set [OF m(1)])
  qed
  ultimately show ?thesis by simp
qed

lemma merge_ok: "merged_ok seen m \<Longrightarrow> merged_ok (seen \<union> set nodes) (fold (prefer_into co dn_id) nodes m)"
proof (induction nodes arbitrary: seen m)
  case (Cons n nodes)
  then show ?case using Cons.IH [OF prefer_into_ok [OF Cons.prems, of n co]] by simp
qed simp

text \<open>C39. The computers a thread can choose from are the nodes with an employee, each id once; an entry is one of the nodes with its
id, apart from the name, and no other of them is more alive; and no node token of the local control panel is among them.\<close>

theorem thread_nodes_merged:
  assumes "\<forall>n \<in> set authenticated. dn_nodeToken n = None"
  shows "let nodes = mergeThreadRuntimeNodes co authenticated control; all = authenticated @ map stripControlPanelToken control
         in distinct (map dn_id nodes) \<and> dn_id ` set nodes = dn_id ` {n \<in> set all. js_truthy (dn_employeeId n)} \<and>
            (\<forall>r \<in> set nodes. dn_nodeToken r = None \<and> (\<exists>n \<in> set all. same_node r n) \<and>
               (\<forall>n \<in> set all. js_truthy (dn_employeeId n) \<and> dn_id n = dn_id r \<longrightarrow> node_liveness n \<le> node_liveness r))"
proof -
  let ?all = "authenticated @ map stripControlPanelToken control"
  let ?m = "fold (prefer_into co dn_id) ?all []"
  have ok: "merged_ok (set ?all) ?m" using merge_ok [of "{}" "[]" ?all co] by (simp add: merged_ok_def)
  have ids: "map dn_id (map snd ?m) = map fst ?m" using ok by (auto simp: merged_ok_def)
  have nodes: "mset (mergeThreadRuntimeNodes co authenticated control) = mset (map snd ?m)"
    by (simp only: mergeThreadRuntimeNodes_def merge_nodes_def mset_js_sort)
  then have set: "set (mergeThreadRuntimeNodes co authenticated control) = snd ` set ?m" by (metis list.set_map set_mset_mset)
  have "mset (map dn_id (mergeThreadRuntimeNodes co authenticated control)) = mset (map fst ?m)"
    by (simp only: mset_map nodes) (simp only: mset_map [symmetric] ids)
  then have distinct: "distinct (map dn_id (mergeThreadRuntimeNodes co authenticated control))"
    using ok mset_eq_imp_distinct_iff unfolding merged_ok_def by blast
  have same: "dn_id ` set (mergeThreadRuntimeNodes co authenticated control) = fst ` set ?m" by (metis set ids list.set_map)
  have token: "dn_nodeToken n = None" if "n \<in> set ?all" for n using that assms by (auto simp: stripControlPanelToken_def)
  have "dn_nodeToken r = None \<and> (\<exists>n \<in> set ?all. same_node r n) \<and>
      (\<forall>n \<in> set ?all. js_truthy (dn_employeeId n) \<and> dn_id n = dn_id r \<longrightarrow> node_liveness n \<le> node_liveness r)"
    if r: "r \<in> snd ` set ?m" for r
  proof -
    obtain k where "(k, r) \<in> set ?m" using r by auto
    from merged_okD [OF ok this] have facts: "dn_id r = k" "\<exists>n \<in> set ?all. same_node r n"
        "\<forall>n \<in> set ?all. js_truthy (dn_employeeId n) \<and> dn_id n = k \<longrightarrow> node_liveness n \<le> node_liveness r" by blast+
    obtain n where n: "n \<in> set ?all" "same_node r n" using facts(2) by blast
    with token [OF n(1)] same_node_fields [OF n(2)] have "dn_nodeToken r = None" by simp
    with facts show ?thesis by simp
  qed
  note each = this
  show ?thesis
  proof (unfold Let_def, intro conjI)
    show "dn_id ` set (mergeThreadRuntimeNodes co authenticated control) = dn_id ` {n \<in> set ?all. js_truthy (dn_employeeId n)}"
      unfolding same using ok by (simp add: merged_ok_def)
    show "\<forall>r \<in> set (mergeThreadRuntimeNodes co authenticated control). dn_nodeToken r = None \<and> (\<exists>n \<in> set ?all. same_node r n) \<and>
        (\<forall>n \<in> set ?all. js_truthy (dn_employeeId n) \<and> dn_id n = dn_id r \<longrightarrow> node_liveness n \<le> node_liveness r)"
      unfolding set using each by (rule ballI)
  qed (rule distinct)
qed

definition offered_node :: daemon_node_record where
  "offered_node =
     \<lparr>dn_id = ''n'', dn_displayName = None, dn_employeeId = Some ''e'', dn_workspacePath = None, dn_workspaceId = None,
      dn_sandboxMode = None, dn_capabilities = None, dn_nodeLocation = None, dn_managedNodeId = None, dn_provisioningAttemptId = None,
      dn_credentialVersion = None, dn_retiredAt = None, dn_status = sb_ready, dn_agents = (\<lambda>_. agent_unknown), dn_agentDetails = None,
      dn_disabledAgents = None, dn_agentInventory = None, dn_agentRoleDefaults = None, dn_agentRoleOverrides = None,
      dn_maxConcurrentRuns = None, dn_createdAt = [], dn_updatedAt = [], dn_lastSeenAt = None, dn_lastError = None,
      dn_queuedCommandCount = 0, dn_activeRuns = [], dn_online = False, dn_stale = True, dn_lastSeenAgeMs = None,
      dn_provisioningPlaceholder = None, dn_nodeToken = None\<rparr>"

definition merged_samples :: "daemon_node_record list" where
  "merged_samples = mergeThreadRuntimeNodes \<lparr>co_base = (\<lambda>_ _. 0), co_plain = (\<lambda>_ _. 0)\<rparr> [offered_node]
     [offered_node\<lparr>dn_online := True, dn_stale := False, dn_nodeToken := Some ''secret''\<rparr>]"

theorem thread_nodes_merged_witness:
  "distinct (map dn_id merged_samples) \<and> dn_id ` set merged_samples = {''n''} \<and> dn_nodeToken ` set merged_samples = {None}"
proof -
  have "\<forall>n \<in> set [offered_node]. dn_nodeToken n = None" by (simp add: offered_node_def)
  from thread_nodes_merged [OF this, of "\<lparr>co_base = (\<lambda>_ _. 0), co_plain = (\<lambda>_ _. 0)\<rparr>"
      "[offered_node\<lparr>dn_online := True, dn_stale := False, dn_nodeToken := Some ''secret''\<rparr>]", folded merged_samples_def, unfolded Let_def]
  have d: "distinct (map dn_id merged_samples)"
    and i: "dn_id ` set merged_samples = dn_id ` {n \<in> set ([offered_node] @ map stripControlPanelToken
       [offered_node\<lparr>dn_online := True, dn_stale := False, dn_nodeToken := Some ''secret''\<rparr>]). js_truthy (dn_employeeId n)}"
    and t: "\<And>r. r \<in> set merged_samples \<Longrightarrow> dn_nodeToken r = None"
    by blast+
  have ids: "dn_id ` set merged_samples = {''n''}" unfolding i by (auto simp: stripControlPanelToken_def offered_node_def intro!: image_eqI [of _ dn_id offered_node])
  then obtain r where "r \<in> set merged_samples" by blast
  moreover have "dn_nodeToken ` set merged_samples = (\<lambda>_. None) ` set merged_samples" by (rule image_cong) (simp_all add: t)
  ultimately have "dn_nodeToken ` set merged_samples = {None}" by auto
  then show ?thesis using d ids by blast
qed

text \<open>An agent whose old placements carry no computer stands twice under its own.\<close>

definition legacy_placement :: "string \<Rightarrow> agent_placement" where
  "legacy_placement node =
     \<lparr>ap_id = node, ap_agentId = ''a'', ap_employeeId = ''e'', ap_daemonNodeId = node, ap_runtimeNodeId = None, ap_computerId = None,
      ap_managedNodeId = None, ap_nodeDisplayName = None, ap_nodeOwnership = None, ap_nodeSandboxMode = None, ap_executorKind = Pi,
      ap_desiredState = pl_active, ap_status = st_ready, ap_priority = 0, ap_agentVersion = 1, ap_workspacePolicy = [],
      ap_conditions = [], ap_createdAt = [], ap_updatedAt = []\<rparr>"

definition legacy_agent :: employee_agent where
  "legacy_agent =
     \<lparr>ea_id = ''a'', ea_employeeId = ''e'', ea_displayName = ''Ann'', ea_profileImageUrl = None, ea_executorKind = Pi,
      ea_instructions = None, ea_defaultRole = None, ea_skillPolicy = [], ea_toolPolicy = [], ea_modelPolicy = [], ea_skills = None,
      ea_enabled = True, ea_version = 1, ea_availability = AvReady, ea_placements = [legacy_placement ''n1'', legacy_placement ''n2''],
      ea_computerId = Some ''c'', ea_bindingStatus = None, ea_createdAt = [], ea_updatedAt = [], ea_deletedAt = None\<rparr>"

lemma agent_listed_twice:
  "map (\<lambda>g. (gr_key g, length (gr_agents g)))
     (groupAgentsByComputer \<lparr>co_base = (\<lambda>_ _. 0), co_plain = (\<lambda>_ _. 0)\<rparr> [legacy_agent]) = [(''c'', 2)]"
  by (simp add: groupAgentsByComputer_def place_agent_def agent_descriptions_def describeAgentPlacements_def activePlacements_def
      legacy_agent_def legacy_placement_def comparePlacements_def placement_computer_def placementRuntimeNodeId_def group_key_def
      truthy_or_none_def)

end
