(* ===== verification/Message_Address.thy ===== *)
theory Message_Address
  imports Web_Agents
begin

text \<open>
  Whom a message of the web composer addresses: \<open>web/src/lib/mentions.ts\<close> and the addressing of
  \<open>web/src/lib/messageRouting.ts\<close>, with the candidates drawn from the employee's agents
  (\<open>agentDisplayNames.ts\<close>). A message is addressed to the agents of the mentions at its head, and a mention that
  cannot be dispatched blocks it: it never reaches the whole room by mistake.
\<close>

section \<open>Candidates\<close>

record mention_candidate =
  mc_id :: string
  mc_displayName :: string
  mc_profileImageUrl :: "string option"
  mc_eligible :: bool
  mc_unavailable :: bool

definition mentionCandidates :: "employee_agent list \<Rightarrow> mention_candidate list" where
  "mentionCandidates agents =
     map (\<lambda>a. \<lparr>mc_id = ea_id a, mc_displayName = ea_displayName a, mc_profileImageUrl = ea_profileImageUrl a,
                mc_eligible = isEmployeeAgentRoutable a, mc_unavailable = (\<not> isEmployeeAgentRoutable a)\<rparr>)
       (filter (\<lambda>a. \<not> js_truthy (ea_deletedAt a)) agents)"

section \<open>The mentions at the head of a message\<close>

record parsed_mention =
  pm_agentId :: "string option"
  pm_text :: string
  pm_start :: nat
  pm_end :: nat
  pm_eligible :: bool
  pm_unavailable :: bool

record parsed_mentions =
  ps_mentions :: "parsed_mention list"
  ps_addressAgentIds :: "string list"
  ps_blocked :: bool

definition MENTION_PREFIX :: char where "MENTION_PREFIX = CHR ''@''"

definition wordLength :: "string \<Rightarrow> nat" where
  "wordLength rest = length (takeWhile (\<lambda>c. \<not> js_space c) rest)"

definition leadingSpace :: "string \<Rightarrow> nat" where
  "leadingSpace s = length (takeWhile (\<lambda>c. js_space c \<and> c \<noteq> CHR 0x0A) s)"

definition slice :: "string \<Rightarrow> nat \<Rightarrow> nat \<Rightarrow> string" where
  "slice s a b = take (b - a) (drop a s)"

definition mention_at :: "string \<Rightarrow> nat \<Rightarrow> bool" where
  "mention_at s k \<longleftrightarrow> k < length s \<and> s ! k = MENTION_PREFIX"

definition name_matches :: "string \<Rightarrow> mention_candidate \<Rightarrow> bool" where
  "name_matches rest c =
     (let lowered = map js_lower rest; name = map js_lower (mc_displayName c)
      in lowered = name \<or> js_starts_with lowered (name @ '' '') \<or> js_starts_with lowered (name @ [CHR 0x0A]))"

definition matchName :: "string \<Rightarrow> mention_candidate list \<Rightarrow> mention_candidate option" where
  "matchName rest byLength =
     (case filter (name_matches rest) byLength of
        [] \<Rightarrow> None
      | best # named \<Rightarrow>
          if list_ex (\<lambda>c. mc_id c \<noteq> mc_id best \<and> length (mc_displayName c) = length (mc_displayName best)) (best # named)
          then None else Some best)"

definition unknown_mention :: "string \<Rightarrow> nat \<Rightarrow> nat \<Rightarrow> parsed_mention" where
  "unknown_mention s a b =
     \<lparr>pm_agentId = None, pm_text = slice s a b, pm_start = a, pm_end = b, pm_eligible = False, pm_unavailable = False\<rparr>"

definition known_mention :: "string \<Rightarrow> nat \<Rightarrow> mention_candidate \<Rightarrow> parsed_mention" where
  "known_mention s a c =
     (let b = a + 1 + length (mc_displayName c)
      in \<lparr>pm_agentId = (if mc_eligible c then Some (mc_id c) else None), pm_text = slice s a b, pm_start = a, pm_end = b,
          pm_eligible = mc_eligible c, pm_unavailable = mc_unavailable c\<rparr>)"

text \<open>The loop from a cursor; every turn moves it past a mention.\<close>

function mention_run :: "string \<Rightarrow> mention_candidate list \<Rightarrow> nat \<Rightarrow> parsed_mention list" where
  "mention_run s byLength cursor =
     (if \<not> mention_at s cursor then []
      else let rest = drop (cursor + 1) s in
           case matchName rest byLength of
             None \<Rightarrow>
               let stop = cursor + 1 + wordLength rest
               in if stop = cursor + 1 then []
                  else unknown_mention s cursor stop # mention_run s byLength (stop + leadingSpace (drop stop s))
           | Some c \<Rightarrow>
               let stop = cursor + 1 + length (mc_displayName c)
               in known_mention s cursor c # mention_run s byLength (stop + leadingSpace (drop stop s)))"
  by pat_completeness auto

termination
  by (relation "measure (\<lambda>(s, _, cursor). length s - cursor)") (auto simp: mention_at_def)

declare mention_run.simps [simp del]

text \<open>The distinct elements of a list in the order of their first occurrence.\<close>

definition first_occurrences :: "'a list \<Rightarrow> 'a list" where
  "first_occurrences xs = rev (remdups (rev xs))"

definition by_length :: "mention_candidate list \<Rightarrow> mention_candidate list" where
  "by_length candidates = sort_key (\<lambda>c. - int (length (mc_displayName c))) candidates"

definition parseMentions :: "string \<Rightarrow> mention_candidate list \<Rightarrow> parsed_mentions" where
  "parseMentions s candidates =
     (if candidates = []
      then let start = leadingSpace s; stop = start + 1 + wordLength (drop (start + 1) s)
           in if mention_at s start \<and> stop > start + 1
              then \<lparr>ps_mentions = [unknown_mention s start stop], ps_addressAgentIds = [], ps_blocked = True\<rparr>
              else \<lparr>ps_mentions = [], ps_addressAgentIds = [], ps_blocked = False\<rparr>
      else let mentions = mention_run s (by_length candidates) (leadingSpace s)
           in \<lparr>ps_mentions = mentions,
               ps_addressAgentIds =
                 first_occurrences (map (the \<circ> pm_agentId) (filter (\<lambda>m. pm_eligible m \<and> js_truthy (pm_agentId m)) mentions)),
               ps_blocked = list_ex (\<lambda>m. \<not> pm_eligible m) mentions\<rparr>)"

section \<open>Parts of a draft\<close>

record mention_segment =
  ms_text :: string
  ms_mention :: bool
  ms_eligible :: "bool option"

fun mention_segments :: "string \<Rightarrow> nat \<Rightarrow> parsed_mention list \<Rightarrow> mention_segment list" where
  "mention_segments s cursor [] = []"
| "mention_segments s cursor (m # ms) =
     (if pm_start m > cursor then [\<lparr>ms_text = slice s cursor (pm_start m), ms_mention = False, ms_eligible = None\<rparr>] else []) @
     \<lparr>ms_text = slice s (pm_start m) (pm_end m), ms_mention = True, ms_eligible = Some (pm_eligible m)\<rparr> #
     mention_segments s (pm_end m) ms"

definition last_cursor :: "parsed_mention list \<Rightarrow> nat" where
  "last_cursor ms = (if ms = [] then 0 else pm_end (last ms))"

definition mentionSegments :: "string \<Rightarrow> parsed_mention list \<Rightarrow> mention_segment list" where
  "mentionSegments s ms =
     (let segments = mention_segments s 0 ms; cursor = last_cursor ms
      in if cursor < length s \<or> segments = []
         then segments @ [\<lparr>ms_text = drop cursor s, ms_mention = False, ms_eligible = None\<rparr>] else segments)"

definition replaceAddressRun :: "string \<Rightarrow> parsed_mention list \<Rightarrow> string \<Rightarrow> string" where
  "replaceAddressRun s ms displayName =
     (if ms = [] then s else take (pm_start (hd ms)) s @ MENTION_PREFIX # displayName @ drop (pm_end (last ms)) s)"

text \<open>The fragment that is typed at the caret, a position in the draft.\<close>

definition last_mention :: "string \<Rightarrow> nat option" where
  "last_mention s = (case filter (\<lambda>k. s ! k = MENTION_PREFIX) (rev [0 ..< length s]) of [] \<Rightarrow> None | k # _ \<Rightarrow> Some k)"

definition activeMentionQuery :: "string \<Rightarrow> nat \<Rightarrow> (string \<times> nat) option" where
  "activeMentionQuery s caret =
     (let upTo = take caret s
      in case last_mention upTo of
           None \<Rightarrow> None
         | Some start \<Rightarrow>
             if 0 < start \<and> \<not> js_space (upTo ! (start - 1)) then None
             else let query = drop (start + 1) upTo
                  in if CHR 0x0A \<in> set query \<or> 3 < 1 + length (filter (\<lambda>c. c = CHR '' '') query) then None
                     else Some (query, start))"

definition applyMention :: "string \<Rightarrow> nat \<Rightarrow> nat \<Rightarrow> string \<Rightarrow> string \<times> nat" where
  "applyMention s start caret displayName =
     (let inserted = MENTION_PREFIX # displayName @ '' '' in (take start s @ inserted @ drop caret s, start + length inserted))"

section \<open>The address of a message\<close>




section \<open>The mentions are parts of the message\<close>

fun placed :: "string \<Rightarrow> nat \<Rightarrow> parsed_mention list \<Rightarrow> bool" where
  "placed s cursor [] = True"
| "placed s cursor (m # ms) \<longleftrightarrow>
     cursor \<le> pm_start m \<and> pm_start m < pm_end m \<and> pm_end m \<le> length s \<and> s ! pm_start m = MENTION_PREFIX \<and>
     pm_text m = slice s (pm_start m) (pm_end m) \<and> placed s (pm_end m) ms"

lemma placed_weaken: "placed s a ms \<Longrightarrow> b \<le> a \<Longrightarrow> placed s b ms"
  by (cases ms) auto

lemma name_fits: "name_matches rest c \<Longrightarrow> length (mc_displayName c) \<le> length rest"
proof -
  assume "name_matches rest c"
  then have "length (map js_lower (mc_displayName c)) \<le> length (map js_lower rest)"
    by (auto simp: name_matches_def Let_def dest!: prefix_length_le dest: arg_cong [where f = length])
  then show ?thesis by simp
qed

lemma matchName_sound:
  "matchName rest cs = Some c \<Longrightarrow> c \<in> set cs \<and> name_matches rest c"
proof -
  assume "matchName rest cs = Some c"
  then obtain named where "filter (name_matches rest) cs = c # named"
    by (auto simp: matchName_def split: list.splits if_splits)
  then have "c \<in> set (filter (name_matches rest) cs)" by simp
  then show ?thesis by simp
qed

lemma wordLength_le: "wordLength rest \<le> length rest"
  by (simp add: wordLength_def length_takeWhile_le)

lemma mention_run_placed: "placed s cursor (mention_run s byLength cursor)"
proof (induction s byLength cursor rule: mention_run.induct)
  case (1 s byLength cursor)
  show ?case
  proof (cases "mention_at s cursor")
    case False
    then show ?thesis by (subst mention_run.simps) simp
  next
    case at: True
    let ?rest = "drop (cursor + 1) s"
    show ?thesis
    proof (cases "matchName ?rest byLength")
      case None
      let ?stop = "cursor + 1 + wordLength ?rest"
      have "?stop \<le> length s" using wordLength_le [of ?rest] at by (auto simp: mention_at_def)
      moreover have "placed s ?stop (mention_run s byLength (?stop + leadingSpace (drop ?stop s)))" if "?stop \<noteq> cursor + 1"
        by (rule placed_weaken [OF "1.IH"(1)]) (use at None that in simp_all)
      ultimately show ?thesis
        using at None by (subst mention_run.simps) (auto simp: Let_def unknown_mention_def mention_at_def)
    next
      case (Some c)
      let ?stop = "cursor + 1 + length (mc_displayName c)"
      have "length (mc_displayName c) \<le> length ?rest" using name_fits matchName_sound [OF Some] by blast
      then have "?stop \<le> length s" using at by (auto simp: mention_at_def)
      moreover have "placed s ?stop (mention_run s byLength (?stop + leadingSpace (drop ?stop s)))"
        by (rule placed_weaken [OF "1.IH"(2)]) (use at Some in simp_all)
      ultimately show ?thesis
        using at Some by (subst mention_run.simps) (auto simp: Let_def known_mention_def mention_at_def)
    qed
  qed
qed

lemma parse_placed: "placed s 0 (ps_mentions (parseMentions s candidates))"
proof (cases "candidates = []")
  case True
  have "leadingSpace s + 1 + wordLength (drop (leadingSpace s + 1) s) \<le> length s" if "mention_at s (leadingSpace s)"
    using wordLength_le [of "drop (leadingSpace s + 1) s"] that by (auto simp: mention_at_def)
  with True show ?thesis by (auto simp: parseMentions_def Let_def unknown_mention_def mention_at_def)
next
  case False
  then show ?thesis by (simp add: parseMentions_def Let_def placed_weaken [OF mention_run_placed])
qed

lemma slice_glue: "a \<le> b \<Longrightarrow> b \<le> c \<Longrightarrow> slice s a b @ slice s b c = slice s a c"
proof -
  assume "a \<le> b" "b \<le> c"
  then have "c - a = (b - a) + (c - b)" "drop b s = drop (b - a) (drop a s)" by simp_all
  then show ?thesis by (simp add: slice_def take_add)
qed

lemma segments_text:
  "placed s cursor ms \<Longrightarrow> cursor \<le> length s \<Longrightarrow>
   concat (map ms_text (mention_segments s cursor ms)) = slice s cursor (if ms = [] then cursor else pm_end (last ms)) \<and>
   cursor \<le> (if ms = [] then cursor else pm_end (last ms)) \<and> (if ms = [] then cursor else pm_end (last ms)) \<le> length s"
proof (induction ms arbitrary: cursor)
  case (Cons m ms)
  let ?e = "if ms = [] then pm_end m else pm_end (last ms)"
  have m: "cursor \<le> pm_start m" "pm_start m < pm_end m" "pm_end m \<le> length s" "placed s (pm_end m) ms" using Cons.prems by simp_all
  note IH = Cons.IH [OF m(4,3)]
  have "slice s cursor (pm_start m) @ slice s (pm_start m) (pm_end m) @ slice s (pm_end m) ?e = slice s cursor ?e"
    using m IH by (simp add: slice_glue del: append_assoc add: append_assoc [symmetric])
  moreover have "cursor = pm_start m \<Longrightarrow> slice s cursor (pm_start m) = []" by (simp add: slice_def)
  ultimately show ?case using m IH by (cases "cursor = pm_start m") auto
qed (simp add: slice_def)

text \<open>The segments the composer highlights are the message, cut at its mentions: nothing of the draft is lost, doubled or moved.\<close>

theorem segments_are_the_message:
  "concat (map ms_text (mentionSegments s (ps_mentions (parseMentions s candidates)))) = s"
proof -
  let ?ms = "ps_mentions (parseMentions s candidates)"
  have "concat (map ms_text (mention_segments s 0 ?ms)) = slice s 0 (last_cursor ?ms)" "last_cursor ?ms \<le> length s"
    using segments_text [OF parse_placed, of s candidates] by (simp_all add: last_cursor_def)
  then show ?thesis by (auto simp: mentionSegments_def Let_def slice_def)
qed

section \<open>A message reaches the agents it names\<close>

lemma set_first_occurrences [simp]: "set (first_occurrences xs) = set xs" "distinct (first_occurrences xs)"
  by (simp_all add: first_occurrences_def)






end
