(* ===== verification/Thread_Runtime.thy ===== *)
theory Thread_Runtime
  imports Relay_Prelude
begin

text \<open>
  The computer a thread runs on and the agents it may address: \<open>web/src/lib/threadRuntime.ts\<close>. An absent field is
  \<open>None\<close>; an empty id is false like an absent one where the code tests it.
\<close>

section \<open>Computers, agents, teams and threads\<close>

record thread_computer =
  tc_id :: string
  tc_displayName :: "string option"
  tc_nodeLocation :: "string option"
  tc_managedNodeId :: "string option"
  tc_retiredAt :: "string option"
  tc_employeeId :: "string option"
  tc_online :: bool
  tc_stale :: bool
  tc_status :: string

record thread_run =
  tu_daemonNodeId :: "string option"
  tu_logicalAgentId :: "string option"

record runtime_session =
  ts_daemonNodeId :: "string option"
  ts_managedNodeId :: "string option"
  ts_agentRuns :: "thread_run list"

record thread_placement =
  tp_daemonNodeId :: string
  tp_runtimeNodeId :: "string option"
  tp_desiredState :: string

record thread_agent =
  ta_id :: string
  ta_deletedAt :: "string option"
  ta_placements :: "thread_placement list"

record thread_team =
  tt_id :: string
  tt_deletedAt :: "string option"
  tt_leadAgentId :: "string option"
  tt_memberAgentIds :: "string list"

record thread_roster =
  tr_leadAgentId :: "string option"
  tr_memberAgentIds :: "string list"

section \<open>Computers for a new thread\<close>

definition assignableThreadComputers :: "thread_computer list \<Rightarrow> string \<Rightarrow> thread_computer list" where
  "assignableThreadComputers nodes employeeId =
     filter (\<lambda>n. tc_employeeId n = Some employeeId \<and> \<not> js_truthy (tc_retiredAt n) \<and> tc_status n \<noteq> ''deleted'') nodes"

definition works :: "thread_computer \<Rightarrow> bool" where
  "works n \<longleftrightarrow> tc_online n \<and> \<not> tc_stale n \<and> tc_status n \<in> {''ready'', ''running'', ''busy''}"

definition selectableThreadComputers :: "thread_computer list \<Rightarrow> string \<Rightarrow> thread_computer list" where
  "selectableThreadComputers nodes employeeId = filter works (assignableThreadComputers nodes employeeId)"

definition threadComputerSignature :: "thread_computer list \<Rightarrow> string" where
  "threadComputerSignature nodes =
     (let part = (\<lambda>v. case v of None \<Rightarrow> [] | Some s \<Rightarrow> s)
      in js_join ''|'' (map (\<lambda>n. tc_id n @ '':'' @ part (tc_displayName n) @ '':'' @ part (tc_nodeLocation n)) nodes))"

definition resolveNewThreadComputer :: "string option \<Rightarrow> thread_computer list \<Rightarrow> thread_computer list \<Rightarrow> string option" where
  "resolveNewThreadComputer previousId selectable assignable =
     (if js_truthy previousId \<and> list_ex (\<lambda>n. Some (tc_id n) = previousId) assignable then previousId
      else case selectable of [] \<Rightarrow> None | n # _ \<Rightarrow> Some (tc_id n))"

section \<open>Agents and teams on a computer\<close>

definition placement_node :: "thread_placement \<Rightarrow> string" where
  "placement_node p = (case truthy_or_none (tp_runtimeNodeId p) of Some r \<Rightarrow> r | None \<Rightarrow> tp_daemonNodeId p)"

definition active_placement :: "thread_placement \<Rightarrow> bool" where
  "active_placement p \<longleftrightarrow> tp_desiredState p = ''active''"

definition agentsForThreadNode :: "thread_agent list \<Rightarrow> string option \<Rightarrow> thread_agent list" where
  "agentsForThreadNode agents daemonNodeId =
     (case truthy_or_none daemonNodeId of
        None \<Rightarrow> []
      | Some d \<Rightarrow> filter (\<lambda>a. list_ex (\<lambda>p. placement_node p = d \<and> active_placement p) (ta_placements a)) agents)"

definition teamsForThreadNode :: "thread_team list \<Rightarrow> thread_agent list \<Rightarrow> string option \<Rightarrow> thread_team list" where
  "teamsForThreadNode teams agents daemonNodeId =
     (if \<not> js_truthy daemonNodeId then []
      else let hosted = map ta_id (agentsForThreadNode agents daemonNodeId)
           in filter (\<lambda>t. \<not> js_truthy (tt_deletedAt t) \<and> tt_memberAgentIds t \<noteq> [] \<and> list_all (\<lambda>i. i \<in> set hosted) (tt_memberAgentIds t)) teams)"

definition teamRosterForThread :: "string option \<Rightarrow> thread_team list \<Rightarrow> thread_roster option" where
  "teamRosterForThread teamId teams =
     (case truthy_or_none teamId of
        None \<Rightarrow> None
      | Some i \<Rightarrow>
          (case List.find (\<lambda>t. tt_id t = i \<and> \<not> js_truthy (tt_deletedAt t)) teams of
             Some t \<Rightarrow> Some \<lparr>tr_leadAgentId = tt_leadAgentId t, tr_memberAgentIds = tt_memberAgentIds t\<rparr>
           | None \<Rightarrow> Some \<lparr>tr_leadAgentId = None, tr_memberAgentIds = []\<rparr>))"

text \<open>A map of the agents by id keeps the last of two with the same id.\<close>

definition addressableThreadAgents :: "thread_agent list \<Rightarrow> thread_roster option \<Rightarrow> thread_agent list" where
  "addressableThreadAgents agents roster =
     (case roster of
        None \<Rightarrow> agents
      | Some r \<Rightarrow>
          let byId = map_of (map (\<lambda>a. (ta_id a, a)) (rev (filter (\<lambda>a. \<not> js_truthy (ta_deletedAt a)) agents)));
              lead = (\<lambda>i. Some i = tr_leadAgentId r);
              ordered = filter lead (tr_memberAgentIds r) @ filter (\<lambda>i. \<not> lead i) (tr_memberAgentIds r)
          in concat (map (\<lambda>i. case byId i of Some a \<Rightarrow> [a] | None \<Rightarrow> []) ordered))"

section \<open>The computer of a thread\<close>

definition placement_for_run :: "thread_agent list \<Rightarrow> thread_run \<Rightarrow> thread_placement option" where
  "placement_for_run agents run =
     (case truthy_or_none (tu_logicalAgentId run) of
        None \<Rightarrow> None
      | Some i \<Rightarrow> Option.bind (List.find (\<lambda>a. ta_id a = i) agents) (\<lambda>a. List.find active_placement (ta_placements a)))"

definition current_node :: "thread_computer list \<Rightarrow> string \<Rightarrow> string option" where
  "current_node nodes managedNodeId =
     (let candidates = filter (\<lambda>n. tc_managedNodeId n = Some managedNodeId \<and> \<not> js_truthy (tc_retiredAt n)) nodes
      in case List.find works candidates of
           Some n \<Rightarrow> Some (tc_id n)
         | None \<Rightarrow> (case candidates of [] \<Rightarrow> None | n # _ \<Rightarrow> Some (tc_id n)))"

text \<open>The agent of a later run may have been placed on another computer of the same managed node.\<close>

definition rebound :: "thread_agent list \<Rightarrow> thread_computer list \<Rightarrow> thread_computer option \<Rightarrow> string \<Rightarrow> thread_run \<Rightarrow> string option" where
  "rebound agents nodes originalNode daemonNodeId run =
     (case placement_for_run agents run of
        None \<Rightarrow> None
      | Some p \<Rightarrow>
          let r = placement_node p
          in if r = [] \<or> r = daemonNodeId then None
             else case List.find (\<lambda>n. tc_id n = r) nodes of
                    None \<Rightarrow> None
                  | Some n \<Rightarrow>
                      if js_truthy (tc_managedNodeId n) \<and>
                         (case originalNode of None \<Rightarrow> True | Some old \<Rightarrow> tc_managedNodeId old = tc_managedNodeId n)
                      then Some r else None)"

fun first_some :: "('a \<Rightarrow> 'b option) \<Rightarrow> 'a list \<Rightarrow> 'b option" where
  "first_some f [] = None"
| "first_some f (x # xs) = (case f x of Some y \<Rightarrow> Some y | None \<Rightarrow> first_some f xs)"

definition pinned_node :: "runtime_session \<Rightarrow> thread_agent list \<Rightarrow> thread_computer list \<Rightarrow> thread_computer option \<Rightarrow> string option" where
  "pinned_node session agents nodes originalNode =
     (let runs = rev (ts_agentRuns session)
      in case truthy_or_none (ts_daemonNodeId session) of
           Some d \<Rightarrow>
             (case first_some (rebound agents nodes originalNode d) runs of Some r \<Rightarrow> Some r | None \<Rightarrow> Some d)
         | None \<Rightarrow>
             (case first_some (truthy_or_none \<circ> tu_daemonNodeId) runs of
                Some d \<Rightarrow> Some d
              | None \<Rightarrow> first_some (\<lambda>run. map_option placement_node (placement_for_run agents run)) runs))"

definition threadRuntimeNodeId :: "runtime_session option \<Rightarrow> thread_agent list \<Rightarrow> thread_computer list \<Rightarrow> string option" where
  "threadRuntimeNodeId session agents nodes =
     (case session of
        None \<Rightarrow> None
      | Some s \<Rightarrow>
          let originalNode = List.find (\<lambda>n. Some (tc_id n) = ts_daemonNodeId s) nodes;
              managedNodeId = (case ts_managedNodeId s of Some m \<Rightarrow> Some m | None \<Rightarrow> Option.bind originalNode tc_managedNodeId)
          in case Option.bind (truthy_or_none managedNodeId) (current_node nodes) of
               Some r \<Rightarrow> Some r
             | None \<Rightarrow> pinned_node s agents nodes originalNode)"

definition threadNodeOffline :: "runtime_session option \<Rightarrow> thread_agent list \<Rightarrow> thread_computer list \<Rightarrow> bool" where
  "threadNodeOffline session agents nodes =
     (case truthy_or_none (threadRuntimeNodeId session agents nodes) of
        None \<Rightarrow> False
      | Some i \<Rightarrow>
          (case List.find (\<lambda>n. tc_id n = i) nodes of
             None \<Rightarrow> True
           | Some n \<Rightarrow> js_truthy (tc_retiredAt n) \<or> \<not> tc_online n \<or> tc_stale n))"

definition threadNeedsRuntimeSelection :: "runtime_session option \<Rightarrow> bool \<Rightarrow> thread_agent list \<Rightarrow> thread_computer list \<Rightarrow> bool" where
  "threadNeedsRuntimeSelection session composingNew agents nodes \<longleftrightarrow>
     composingNew \<or> \<not> js_truthy (threadRuntimeNodeId session agents nodes)"

section \<open>A thread stays where it belongs\<close>

lemma first_some_sound: "first_some f xs = Some y \<Longrightarrow> \<exists>x \<in> set xs. f x = Some y"
  by (induction xs) (auto split: option.splits)

lemma pick_sound:
  "(case List.find P xs of Some x \<Rightarrow> Some (f x) | None \<Rightarrow> (case xs of [] \<Rightarrow> None | x # _ \<Rightarrow> Some (f x))) = Some r \<Longrightarrow>
   \<exists>x \<in> set xs. f x = r"
  by (cases xs) (auto split: option.splits if_splits dest: find_sound)

lemma current_node_sound:
  "current_node nodes m = Some r \<Longrightarrow> \<exists>n \<in> set nodes. tc_id n = r \<and> tc_managedNodeId n = Some m \<and> \<not> js_truthy (tc_retiredAt n)"
  unfolding current_node_def Let_def by (drule pick_sound) auto

lemma rebound_sound:
  "rebound agents nodes (Some old) d run = Some r \<Longrightarrow>
   \<exists>n \<in> set nodes. tc_id n = r \<and> js_truthy (tc_managedNodeId n) \<and> tc_managedNodeId n = tc_managedNodeId old"
  by (auto simp: rebound_def Let_def split: option.splits if_splits dest!: find_sound)

text \<open>A thread whose computer is known runs there or on a computer of the same managed node; without a managed node it never
moves, wherever its agents have been placed since.\<close>

theorem thread_stays_on_its_node:
  assumes "ts_daemonNodeId s = Some d" and "d \<noteq> []" and "List.find (\<lambda>n. tc_id n = d) nodes = Some old"
    and "ts_managedNodeId s = None \<or> ts_managedNodeId s = tc_managedNodeId old"
  shows "\<exists>r. threadRuntimeNodeId (Some s) agents nodes = Some r \<and>
           (r = d \<or> js_truthy (tc_managedNodeId old) \<and> (\<exists>n \<in> set nodes. tc_id n = r \<and> tc_managedNodeId n = tc_managedNodeId old))"
proof -
  have original: "List.find (\<lambda>n. Some (tc_id n) = ts_daemonNodeId s) nodes = Some old" using assms(1,3) by simp
  have managed: "(case ts_managedNodeId s of Some m \<Rightarrow> Some m | None \<Rightarrow> Option.bind (Some old) tc_managedNodeId) = tc_managedNodeId old"
    using assms(4) by (auto split: option.split)
  show ?thesis
  proof (cases "Option.bind (truthy_or_none (tc_managedNodeId old)) (current_node nodes)")
    case (Some r)
    then obtain m where m: "truthy_or_none (tc_managedNodeId old) = Some m" "current_node nodes m = Some r" by (auto simp: bind_eq_Some_conv)
    then have "js_truthy (tc_managedNodeId old)" "tc_managedNodeId old = Some m" by (auto simp: truthy_or_none_def split: if_splits)
    with current_node_sound [OF m(2)] Some show ?thesis
      by (auto simp: threadRuntimeNodeId_def Let_def original managed simp del: bind_eq_Some_conv)
  next
    case None
    then have "threadRuntimeNodeId (Some s) agents nodes = pinned_node s agents nodes (Some old)"
      by (simp add: threadRuntimeNodeId_def Let_def original managed)
    moreover have "truthy_or_none (ts_daemonNodeId s) = Some d" using assms(1,2) by (simp add: truthy_or_none_def)
    ultimately show ?thesis
      by (auto simp: pinned_node_def Let_def split: option.split dest!: first_some_sound rebound_sound)
  qed
qed

theorem thread_stays_on_its_node_witness:
  "\<exists>r. threadRuntimeNodeId (Some \<lparr>ts_daemonNodeId = Some ''d'', ts_managedNodeId = None, ts_agentRuns = []\<rparr>) []
         [\<lparr>tc_id = ''d'', tc_displayName = None, tc_nodeLocation = None, tc_managedNodeId = None, tc_retiredAt = None,
           tc_employeeId = None, tc_online = False, tc_stale = True, tc_status = ''offline''\<rparr>] = Some r \<and> r = ''d''"
  by (insert thread_stays_on_its_node [where d = "''d''" and agents = "[]" and
        s = "\<lparr>ts_daemonNodeId = Some ''d'', ts_managedNodeId = None, ts_agentRuns = []\<rparr>" and
        nodes = "[\<lparr>tc_id = ''d'', tc_displayName = None, tc_nodeLocation = None, tc_managedNodeId = None, tc_retiredAt = None,
           tc_employeeId = None, tc_online = False, tc_stale = True, tc_status = ''offline''\<rparr>]"]) simp

text \<open>A new thread is given to a computer the employee may use.\<close>

lemma new_thread_computer_assignable:
  "resolveNewThreadComputer previous (selectableThreadComputers nodes e) (assignableThreadComputers nodes e) = Some i \<Longrightarrow>
   \<exists>n \<in> set nodes. tc_id n = i \<and> tc_employeeId n = Some e \<and> \<not> js_truthy (tc_retiredAt n) \<and> tc_status n \<noteq> ''deleted''"
  by (auto simp: resolveNewThreadComputer_def selectableThreadComputers_def assignableThreadComputers_def list_ex_iff filter_eq_Cons_iff
      split: if_splits list.splits)

text \<open>A team thread addresses members of its team only, and none when the team is gone.\<close>

lemma addressable_members:
  "a \<in> set (addressableThreadAgents agents (Some r)) \<Longrightarrow> a \<in> set agents \<and> ta_id a \<in> set (tr_memberAgentIds r) \<and> \<not> js_truthy (ta_deletedAt a)"
  by (auto simp: addressableThreadAgents_def Let_def split: option.splits dest!: map_of_SomeD [OF sym])

end
