(* ===== verification/Project_Messages.thy ===== *)
theory Project_Messages
  imports Session_Events Text_Capture Decimal_Text
begin

text \<open>
  The transcript of a thread: \<open>web/src/lib/projectMessages.ts\<close>. The accumulator turns the events of a session into
  messages and keeps what it has turned; the log of a completed run, written by \<open>agentResultLog\<close> of the daemon, fills in
  what was not streamed. \<open>JSON.parse\<close> and the translator are parameters; translators are compared by identity, so they
  are values of a type that the parameter interprets.
\<close>

section \<open>Messages\<close>

datatype message_tone = tone_good | tone_bad | tone_warn | tone_info | tone_neutral

record agent_turn =
  tn_id :: string
  tn_timestamp :: string
  tn_agent :: AgentName
  tn_agentId :: "string option"
  tn_runId :: string
  tn_streaming :: bool
  tn_stdout :: string
  tn_stderr :: string
  tn_collaborations :: "codex_event list"
  tn_attachments :: "relay_artifact list"
  tn_tokenUsage :: "token_usage option"

record system_note =
  sn_id :: string
  sn_timestamp :: string
  sn_tone :: message_tone
  sn_label :: string
  sn_detail :: "string option"
  sn_artifact :: "relay_artifact option"

datatype derived_message = UserTurn string string string | AgentTurn agent_turn | SystemNote system_note

type_synonym 't translator = "'t \<Rightarrow> string \<Rightarrow> (string \<times> string) list \<Rightarrow> string"

definition isSameAgentTurn :: "agent_turn \<Rightarrow> agent_turn \<Rightarrow> bool" where
  "isSameAgentTurn l r =
     (if js_truthy (tn_agentId l) \<and> js_truthy (tn_agentId r) then tn_agentId l = tn_agentId r else tn_agent l = tn_agent r)"

definition previousTranscriptTurn :: "derived_message list \<Rightarrow> nat \<Rightarrow> derived_message option" where
  "previousTranscriptTurn messages index =
     List.find (\<lambda>m. case m of SystemNote _ \<Rightarrow> False | _ \<Rightarrow> True) (rev (take index messages))"

definition isGroupedContinuation :: "derived_message list \<Rightarrow> nat \<Rightarrow> bool" where
  "isGroupedContinuation messages index =
     (case messages ! index of
        AgentTurn m \<Rightarrow>
          (case previousTranscriptTurn messages index of Some (AgentTurn p) \<Rightarrow> isSameAgentTurn p m | _ \<Rightarrow> False)
      | _ \<Rightarrow> False)"

definition phaseDividerLabel :: "'t translator \<Rightarrow> derived_message list \<Rightarrow> nat \<Rightarrow> 't \<Rightarrow> string option" where
  "phaseDividerLabel tr messages index t =
     (case messages ! index of
        AgentTurn m \<Rightarrow>
          if isGroupedContinuation messages index then None
          else (case previousTranscriptTurn messages index of
                  Some (AgentTurn p) \<Rightarrow> if isSameAgentTurn p m then None else Some (tr t ''transcript.phase_handoff'' [])
                | _ \<Rightarrow> None)
      | _ \<Rightarrow> None)"

section \<open>The log of a completed run\<close>

definition has_type :: "json \<Rightarrow> bool" where
  "has_type v = (case v of JObj r \<Rightarrow> json_field r ''type'' \<noteq> None | _ \<Rightarrow> False)"

definition looksLikeAgentStream :: "json_parser \<Rightarrow> string \<Rightarrow> bool" where
  "looksLikeAgentStream parse s =
     list_ex (\<lambda>line. let l = js_trim line
                     in js_starts_with l ''{'' \<and> (case parse l of Some v \<Rightarrow> has_type v | None \<Rightarrow> False)) (crlf_lines s)"

text \<open>The matches of \<open>/(?:^|\n)(stdout|stderr):\n/g\<close>: the stream, the index and the end of each.\<close>

fun stream_header :: "agent_stream \<Rightarrow> string" where
  "stream_header ast_stdout = ''stdout:'' @ newline"
| "stream_header ast_stderr = ''stderr:'' @ newline"

definition header_at :: "string \<Rightarrow> agent_stream option" where
  "header_at s =
     (if js_starts_with s (stream_header ast_stdout) then Some ast_stdout
      else if js_starts_with s (stream_header ast_stderr) then Some ast_stderr else None)"

definition marker_at :: "nat \<Rightarrow> string \<Rightarrow> (agent_stream \<times> nat) option" where
  "marker_at i s =
     (case (if i = 0 then header_at s else None) of
        Some st \<Rightarrow> Some (st, length (stream_header st))
      | None \<Rightarrow>
          (case s of
             [] \<Rightarrow> None
           | c # cs \<Rightarrow> if c = CHR 0x0A then map_option (\<lambda>st. (st, Suc (length (stream_header st)))) (header_at cs) else None))"

lemma marker_at_pos: "marker_at i s = Some (st, n) \<Longrightarrow> s \<noteq> [] \<and> 0 < n"
  by (cases st) (auto simp: marker_at_def header_at_def newline_def split: if_splits list.splits option.splits)

function log_markers :: "nat \<Rightarrow> string \<Rightarrow> (agent_stream \<times> nat \<times> nat) list" where
  "log_markers i s =
     (case marker_at i s of
        Some (st, n) \<Rightarrow> (st, i, i + n) # log_markers (i + n) (drop n s)
      | None \<Rightarrow> (case s of [] \<Rightarrow> [] | _ # cs \<Rightarrow> log_markers (Suc i) cs))"
  by pat_completeness auto

termination
  by (relation "measure (\<lambda>(i, s). length s)") (auto dest: marker_at_pos)

declare log_markers.simps [simp del]

text \<open>The streams are a pair of standard output and standard error.\<close>

fun add_stream :: "agent_stream \<Rightarrow> string \<Rightarrow> string \<times> string \<Rightarrow> string \<times> string" where
  "add_stream ast_stdout x (out, err) = (out @ x, err)"
| "add_stream ast_stderr x (out, err) = (out, err @ x)"

definition streamsFromAgentLog :: "json_parser \<Rightarrow> string \<Rightarrow> string \<times> string" where
  "streamsFromAgentLog parse s =
     (if js_trim s = [] then ([], [])
      else let ms = log_markers 0 s
           in if ms = [] then (if looksLikeAgentStream parse s then (s, []) else ([], s))
              else let ends = map (fst \<circ> snd) (tl ms) @ [length s]
                   in foldl (\<lambda>streams ((st, _, start), stop). add_stream st (take (stop - start) (drop start s)) streams)
                        ([], []) (zip ms ends))"

definition appendMissingStream :: "string \<Rightarrow> string \<Rightarrow> string" where
  "appendMissingStream current fallback =
     (if js_trim fallback = [] then current
      else if js_includes current fallback \<or> js_includes current (js_trim fallback) then current
      else current @
           (if current \<noteq> [] \<and> \<not> js_ends_with current newline \<and> \<not> js_starts_with fallback newline then newline else []) @
           fallback)"

text \<open>An array is an object without the fields that are read.\<close>

definition safeJsonLine :: "json_parser \<Rightarrow> string \<Rightarrow> (string \<times> json) list option" where
  "safeJsonLine parse line =
     (case parse line of Some (JObj r) \<Rightarrow> Some r | Some (JArr _) \<Rightarrow> Some [] | _ \<Rightarrow> None)"

definition record_chunk_text :: "json \<Rightarrow> string" where
  "record_chunk_text c =
     (case json_field (json_record (Some c)) ''text'' of
        Some (JStr s) \<Rightarrow> s
      | _ \<Rightarrow> (case json_field (json_record (Some c)) ''content'' of Some (JStr s) \<Rightarrow> s | _ \<Rightarrow> []))"

definition recordText :: "json option \<Rightarrow> string" where
  "recordText v =
     (let r = json_record v
      in case json_field r ''text'' of
           Some (JStr s) \<Rightarrow> s
         | _ \<Rightarrow>
             (case json_field r ''content'' of
                Some (JStr s) \<Rightarrow> s
              | Some (JArr cs) \<Rightarrow> js_join newline (filter (\<lambda>s. s \<noteq> []) (map record_chunk_text cs))
              | _ \<Rightarrow> []))"

definition message_value :: "(string \<times> json) list \<Rightarrow> json" where
  "message_value ev =
     (case json_field ev ''message'' of Some (JObj m) \<Rightarrow> JObj m | Some (JArr a) \<Rightarrow> JArr a | _ \<Rightarrow> JObj ev)"

definition event_text :: "(string \<times> json) list \<Rightarrow> string" where
  "event_text ev =
     (let type = json_string (json_field ev ''type'')
      in if (case type of Some s \<Rightarrow> js_starts_with s ''item.'' | None \<Rightarrow> False) then
           (if field_is (sub_record ev ''item'') ''type'' ''agent_message'' \<and> type = Some ''item.completed''
            then js_trim (recordText (Some (JObj (sub_record ev ''item'')))) else [])
         else if type = Some ''assistant'' then js_trim (recordText (json_field ev ''message''))
         else if type = Some ''result'' then
           (case json_field ev ''result'' of Some (JStr s) \<Rightarrow> js_trim s | _ \<Rightarrow> [])
         else if type = Some ''message'' \<or> type = Some ''assistant_message'' \<or> field_is ev ''role'' ''assistant''
         then js_trim (recordText (Some (message_value ev)))
         else [])"

definition line_text :: "json_parser \<Rightarrow> string \<Rightarrow> string" where
  "line_text parse raw =
     (let line = js_trim raw
      in if line = [] then [] else case safeJsonLine parse line of None \<Rightarrow> line | Some ev \<Rightarrow> event_text ev)"

definition visibleLogText :: "json_parser \<Rightarrow> string \<Rightarrow> string \<Rightarrow> string" where
  "visibleLogText parse out err =
     js_trim (js_join newline (filter (\<lambda>s. s \<noteq> []) (map (line_text parse) (crlf_lines out) @ [js_trim err])))"

definition applyCompletedLogFallback :: "json_parser \<Rightarrow> string \<Rightarrow> string \<times> string \<Rightarrow> string \<times> string" where
  "applyCompletedLogFallback parse agentLog streams =
     (let fallback = streamsFromAgentLog parse agentLog;
          visible = visibleLogText parse (fst fallback) (snd fallback)
      in if visible = [] \<or> js_includes (visibleLogText parse (fst streams) (snd streams)) visible then streams
         else (appendMissingStream (fst streams) (fst fallback), appendMissingStream (snd streams) (snd fallback)))"

section \<open>The accumulator\<close>

record message_run =
  rn_index :: nat
  rn_attachmentIds :: "string list"
  rn_stdout :: string
  rn_stderr :: string
  rn_collaborations :: "codex_event list"

record 't message_accumulator =
  pm_sessionId :: "string option"
  pm_taskGoal :: string
  pm_createdAt :: string
  pm_translator :: "'t option"
  pm_processedEvents :: nat
  pm_lastEventId :: "string option"
  pm_out :: "derived_message list"
  pm_snapshot :: "derived_message list"
  pm_runState :: "string \<rightharpoonup> message_run"

definition new_message_accumulator :: "'t message_accumulator" where
  "new_message_accumulator =
     \<lparr>pm_sessionId = None, pm_taskGoal = [], pm_createdAt = [], pm_translator = None, pm_processedEvents = 0, pm_lastEventId = None,
      pm_out = [], pm_snapshot = [], pm_runState = Map.empty\<rparr>"

definition initialize :: "relay_session \<Rightarrow> 't \<Rightarrow> 't message_accumulator" where
  "initialize s t =
     (let goal = [UserTurn (rs_id s @ '':goal'') (rs_createdAt s) (rs_taskGoal s)]
      in \<lparr>pm_sessionId = Some (rs_id s), pm_taskGoal = rs_taskGoal s, pm_createdAt = rs_createdAt s, pm_translator = Some t,
          pm_processedEvents = 0, pm_lastEventId = None, pm_out = goal, pm_snapshot = goal, pm_runState = Map.empty\<rparr>)"

definition new_turn :: "string option \<Rightarrow> string \<Rightarrow> AgentName \<Rightarrow> string \<Rightarrow> agent_turn" where
  "new_turn sessionId runId agent timestamp =
     \<lparr>tn_id = (case sessionId of Some i \<Rightarrow> i | None \<Rightarrow> ''undefined'') @ '':run:'' @ runId, tn_timestamp = timestamp, tn_agent = agent,
      tn_agentId = None, tn_runId = runId, tn_streaming = True, tn_stdout = [], tn_stderr = [], tn_collaborations = [],
      tn_attachments = [], tn_tokenUsage = None\<rparr>"

definition ensureRun :: "string \<Rightarrow> AgentName \<Rightarrow> string \<Rightarrow> 't message_accumulator \<Rightarrow> 't message_accumulator \<times> nat \<times> bool" where
  "ensureRun runId agent timestamp a =
     (case pm_runState a runId of
        Some st \<Rightarrow> (a, rn_index st, False)
      | None \<Rightarrow>
          (let i = length (pm_out a);
               st = \<lparr>rn_index = i, rn_attachmentIds = [], rn_stdout = [], rn_stderr = [], rn_collaborations = []\<rparr>
           in (a\<lparr>pm_out := pm_out a @ [AgentTurn (new_turn (pm_sessionId a) runId agent timestamp)],
                 pm_runState := (pm_runState a)(runId \<mapsto> st)\<rparr>, i, True)))"

text \<open>Write the state of a run and its block, when the message at its index is a block.\<close>

definition write_block ::
  "string \<Rightarrow> message_run \<Rightarrow> (agent_turn \<Rightarrow> agent_turn) \<Rightarrow> nat \<Rightarrow> bool \<Rightarrow> 't message_accumulator \<Rightarrow> 't message_accumulator \<times> bool" where
  "write_block runId st f i created a =
     (let b = a\<lparr>pm_runState := (pm_runState a)(runId \<mapsto> st)\<rparr>
      in case pm_out a ! i of
           AgentTurn block \<Rightarrow> (b\<lparr>pm_out := (pm_out a)[i := AgentTurn (f block)]\<rparr>, True)
         | _ \<Rightarrow> (b, created))"

definition with_run ::
  "string \<Rightarrow> AgentName \<Rightarrow> string \<Rightarrow> (message_run \<Rightarrow> message_run) \<Rightarrow> (message_run \<Rightarrow> agent_turn \<Rightarrow> agent_turn) \<Rightarrow>
   't message_accumulator \<Rightarrow> 't message_accumulator \<times> bool" where
  "with_run runId agent timestamp g f a =
     (case ensureRun runId agent timestamp a of
        (b, i, created) \<Rightarrow>
          (case pm_runState b runId of
             None \<Rightarrow> (b, created)
           | Some st \<Rightarrow> write_block runId (g st) (f (g st)) i created b))"

definition add_output :: "agent_stream \<Rightarrow> string \<Rightarrow> message_run \<Rightarrow> message_run" where
  "add_output stream text st =
     (case stream of ast_stdout \<Rightarrow> st\<lparr>rn_stdout := rn_stdout st @ text\<rparr> | ast_stderr \<Rightarrow> st\<lparr>rn_stderr := rn_stderr st @ text\<rparr>)"

definition show_streams :: "message_run \<Rightarrow> agent_turn \<Rightarrow> agent_turn" where
  "show_streams st b = b\<lparr>tn_stdout := rn_stdout st, tn_stderr := rn_stderr st\<rparr>"

definition complete_log :: "json_parser \<Rightarrow> string option \<Rightarrow> message_run \<Rightarrow> message_run" where
  "complete_log parse agentLog st =
     (case truthy_or_none agentLog of
        None \<Rightarrow> st
      | Some l \<Rightarrow> let r = applyCompletedLogFallback parse l (rn_stdout st, rn_stderr st) in st\<lparr>rn_stdout := fst r, rn_stderr := snd r\<rparr>)"

definition show_completed :: "token_usage option \<Rightarrow> message_run \<Rightarrow> agent_turn \<Rightarrow> agent_turn" where
  "show_completed usage st b =
     (show_streams st b)\<lparr>tn_streaming := False, tn_tokenUsage := (case usage of Some u \<Rightarrow> Some u | None \<Rightarrow> tn_tokenUsage b)\<rparr>"

fun artifact_kind_name :: "RelayArtifactKind \<Rightarrow> string" where
  "artifact_kind_name ak_plan = ''plan''"
| "artifact_kind_name ak_diff = ''diff''"
| "artifact_kind_name ak_review = ''review''"
| "artifact_kind_name ak_test_output = ''test_output''"
| "artifact_kind_name ak_command_log = ''command_log''"
| "artifact_kind_name ak_summary = ''summary''"
| "artifact_kind_name ak_agent_output = ''agent_output''"
| "artifact_kind_name ak_workspace_file = ''workspace_file''"

fun decision_kind_name :: "HumanDecisionKind \<Rightarrow> string" where
  "decision_kind_name hd_approve = ''approve''"
| "decision_kind_name hd_reject = ''reject''"
| "decision_kind_name hd_cancel = ''cancel''"
| "decision_kind_name hd_rerun = ''rerun''"
| "decision_kind_name hd_handoff = ''handoff''"
| "decision_kind_name hd_mark_done = ''mark_done''"

definition push_message :: "derived_message \<Rightarrow> 't message_accumulator \<Rightarrow> 't message_accumulator \<times> bool" where
  "push_message m a = (a\<lparr>pm_out := pm_out a @ [m]\<rparr>, True)"

definition artifact_note :: "'t translator \<Rightarrow> 't \<Rightarrow> string \<Rightarrow> string \<Rightarrow> relay_artifact \<Rightarrow> derived_message" where
  "artifact_note tr t i timestamp art =
     (let kind = artifact_kind_name (art_kind art)
      in SystemNote \<lparr>sn_id = i, sn_timestamp = timestamp, sn_tone = tone_neutral,
           sn_label = tr t ''message.artifact'' [(''kind'', tr t (''artifact.kind.'' @ kind) [(''defaultValue'', kind)])],
           sn_detail = Some (art_title art), sn_artifact = Some art\<rparr>)"

definition decision_note :: "'t translator \<Rightarrow> 't \<Rightarrow> string \<Rightarrow> string \<Rightarrow> human_decision \<Rightarrow> derived_message" where
  "decision_note tr t i timestamp d =
     (let kind = decision_kind_name (hdec_kind d)
      in SystemNote \<lparr>sn_id = i, sn_timestamp = timestamp, sn_tone = tone_info,
           sn_label = tr t ''message.decision'' [(''kind'', tr t (''decision.'' @ kind) [(''defaultValue'', kind)])],
           sn_detail = (if hdec_kind d = hd_cancel then Some (tr t ''message.cancelled'' []) else hdec_note d), sn_artifact = None\<rparr>)"

definition show_artifact ::
  "'t translator \<Rightarrow> 't \<Rightarrow> string \<Rightarrow> string \<Rightarrow> relay_artifact \<Rightarrow> 't message_accumulator \<Rightarrow> 't message_accumulator \<times> bool" where
  "show_artifact tr t i timestamp art a =
     (if art_kind art = ak_command_log then (a, False)
      else case Option.bind (truthy_or_none (art_agentRunId art)) (\<lambda>runId. map_option (Pair runId) (pm_runState a runId)) of
             None \<Rightarrow> push_message (artifact_note tr t i timestamp art) a
           | Some (runId, st) \<Rightarrow>
               if art_id art \<in> set (rn_attachmentIds st) then (a, False)
               else (case pm_out a ! rn_index st of
                       AgentTurn block \<Rightarrow>
                         write_block runId (st\<lparr>rn_attachmentIds := rn_attachmentIds st @ [art_id art]\<rparr>)
                           (\<lambda>b. b\<lparr>tn_attachments := tn_attachments b @ [art]\<rparr>) (rn_index st) False a
                     | _ \<Rightarrow> (a, False)))"

definition show_started :: "agent_started \<Rightarrow> string \<Rightarrow> 't message_accumulator \<Rightarrow> 't message_accumulator \<times> bool" where
  "show_started e timestamp a =
     (case ensureRun (st_runId e) (st_agent e) timestamp a of
        (b, i, created) \<Rightarrow>
          (case pm_out b ! i of
             AgentTurn block \<Rightarrow>
               if tn_agentId block \<noteq> st_logicalAgentId e
               then (b\<lparr>pm_out := (pm_out b)[i := AgentTurn (if js_truthy (st_logicalAgentId e)
                        then block\<lparr>tn_agentId := st_logicalAgentId e\<rparr> else block)]\<rparr>, True)
               else (b, created)
           | _ \<Rightarrow> (b, created)))"

fun apply_message_payload ::
  "json_parser \<Rightarrow> 't translator \<Rightarrow> 't \<Rightarrow> string \<Rightarrow> string \<Rightarrow> event_payload \<Rightarrow> 't message_accumulator \<Rightarrow> 't message_accumulator \<times> bool" where
  "apply_message_payload parse tr t i time (UserMessage text _) = push_message (UserTurn i time text)"
| "apply_message_payload parse tr t i time (AgentStarted e) = show_started e time"
| "apply_message_payload parse tr t i time (AgentOutput runId agent stream text _) =
     with_run runId agent time (add_output stream text) show_streams"
| "apply_message_payload parse tr t i time (AgentOutputBatch runId agent entries) =
     with_run runId agent time (fold (\<lambda>e. add_output (oe_stream e) (oe_text e)) entries) show_streams"
| "apply_message_payload parse tr t i time (AgentCollaboration runId _ _ _ agent _ c) =
     with_run runId agent time (\<lambda>st. st\<lparr>rn_collaborations := rn_collaborations st @ [c]\<rparr>)
       (\<lambda>st b. b\<lparr>tn_collaborations := rn_collaborations st\<rparr>)"
| "apply_message_payload parse tr t i time (ArtifactCreated art) = show_artifact tr t i time art"
| "apply_message_payload parse tr t i time (HumanDecisionMade d) = push_message (decision_note tr t i time d)"
| "apply_message_payload parse tr t i time (AgentCompleted runId _ agent _ _ agentLog usage) =
     with_run runId agent time (complete_log parse agentLog) (show_completed usage)"
| "apply_message_payload parse tr t i time _ = (\<lambda>a. (a, False))"

definition apply_message_event :: "json_parser \<Rightarrow> 't translator \<Rightarrow> 't \<Rightarrow> relay_event \<Rightarrow> 't message_accumulator \<Rightarrow> 't message_accumulator \<times> bool" where
  "apply_message_event parse tr t ev = apply_message_payload parse tr t (ev_id ev) (ev_timestamp ev) (ev_payload ev)"

definition events_appended :: "relay_session \<Rightarrow> 't \<Rightarrow> 't message_accumulator \<Rightarrow> bool" where
  "events_appended s t a \<longleftrightarrow>
     pm_sessionId a = Some (rs_id s) \<and> pm_taskGoal a = rs_taskGoal s \<and> pm_createdAt a = rs_createdAt s \<and> pm_translator a = Some t \<and>
     pm_processedEvents a \<le> length (rs_events s) \<and>
     (pm_processedEvents a = 0 \<or> Some (ev_id (rs_events s ! (pm_processedEvents a - 1))) = pm_lastEventId a)"

definition apply_message_events ::
  "json_parser \<Rightarrow> 't translator \<Rightarrow> 't \<Rightarrow> relay_event list \<Rightarrow> 't message_accumulator \<times> bool \<Rightarrow> 't message_accumulator \<times> bool" where
  "apply_message_events parse tr t =
     fold (\<lambda>ev (a, changed). case apply_message_event parse tr t ev a of (b, c) \<Rightarrow> (b, c \<or> changed))"

definition update_messages ::
  "json_parser \<Rightarrow> 't translator \<Rightarrow> relay_session option \<Rightarrow> 't \<Rightarrow> 't message_accumulator \<Rightarrow> 't message_accumulator \<times> derived_message list" where
  "update_messages parse tr session t a =
     (case session of
        None \<Rightarrow> (new_message_accumulator, [])
      | Some s \<Rightarrow>
          (let appendOnly = events_appended s t a;
               b = (if appendOnly then a else initialize s t)
           in case apply_message_events parse tr t (drop (pm_processedEvents b) (rs_events s)) (b, \<not> appendOnly) of
                (c, changed) \<Rightarrow>
                  (let d = c\<lparr>pm_processedEvents := length (rs_events s),
                             pm_lastEventId := (if rs_events s = [] then None else Some (ev_id (last (rs_events s)))),
                             pm_snapshot := (if changed then pm_out c else pm_snapshot c)\<rparr>
                   in (d, pm_snapshot d))))"

definition projectMessages :: "json_parser \<Rightarrow> 't translator \<Rightarrow> relay_session option \<Rightarrow> 't \<Rightarrow> derived_message list" where
  "projectMessages parse tr session t = snd (update_messages parse tr session t new_message_accumulator)"

section \<open>Projecting what is new is projecting everything\<close>

definition stamp :: "nat \<Rightarrow> string option \<Rightarrow> derived_message list \<Rightarrow> 't message_accumulator \<Rightarrow> 't message_accumulator" where
  "stamp n l shown a = a\<lparr>pm_processedEvents := n, pm_lastEventId := l, pm_snapshot := shown\<rparr>"

lemma stamp_fields [simp]:
  "pm_out (stamp n l shown a) = pm_out a" "pm_runState (stamp n l shown a) = pm_runState a" "pm_sessionId (stamp n l shown a) = pm_sessionId a"
  "pm_taskGoal (stamp n l shown a) = pm_taskGoal a" "pm_createdAt (stamp n l shown a) = pm_createdAt a"
  "pm_translator (stamp n l shown a) = pm_translator a" "pm_processedEvents (stamp n l shown a) = n"
  "pm_lastEventId (stamp n l shown a) = l" "pm_snapshot (stamp n l shown a) = shown" "stamp n l shown (stamp n' l' shown' a) = stamp n l shown a"
  by (simp_all add: stamp_def)

lemma stamp_updates:
  "(stamp n l shown a)\<lparr>pm_out := out\<rparr> = stamp n l shown (a\<lparr>pm_out := out\<rparr>)"
  "(stamp n l shown a)\<lparr>pm_runState := runs\<rparr> = stamp n l shown (a\<lparr>pm_runState := runs\<rparr>)"
  by (simp_all add: stamp_def)

lemma ensureRun_stamp: "ensureRun runId agent time (stamp n l shown a) = map_prod (stamp n l shown) id (ensureRun runId agent time a)"
  by (simp add: ensureRun_def Let_def stamp_updates split: option.split)

lemma write_block_stamp: "write_block runId st f i c (stamp n l shown a) = map_prod (stamp n l shown) id (write_block runId st f i c a)"
  by (simp add: write_block_def Let_def stamp_updates split: derived_message.split)

lemma with_run_stamp: "with_run runId agent time g f (stamp n l shown a) = map_prod (stamp n l shown) id (with_run runId agent time g f a)"
  by (simp add: with_run_def ensureRun_stamp write_block_stamp split: prod.split option.split)

lemma show_started_stamp: "show_started e time (stamp n l shown a) = map_prod (stamp n l shown) id (show_started e time a)"
  by (simp add: show_started_def ensureRun_stamp stamp_updates split: prod.split derived_message.split)

lemma show_artifact_stamp: "show_artifact tr t i time art (stamp n l shown a) = map_prod (stamp n l shown) id (show_artifact tr t i time art a)"
  by (simp add: show_artifact_def push_message_def write_block_stamp stamp_updates split: prod.split option.split derived_message.split)

lemma apply_message_stamp:
  "apply_message_event parse tr t ev (stamp n l shown a) = map_prod (stamp n l shown) id (apply_message_event parse tr t ev a)"
  by (cases "ev_payload ev") (simp_all add: apply_message_event_def with_run_stamp show_started_stamp show_artifact_stamp push_message_def stamp_updates)

lemma apply_messages_stamp:
  "apply_message_events parse tr t evs (stamp n l shown a, c) = map_prod (stamp n l shown) id (apply_message_events parse tr t evs (a, c))"
  by (induction evs arbitrary: a c) (simp_all add: apply_message_events_def apply_message_stamp split: prod.split)

text \<open>An event that reports no change has changed no message.\<close>

lemma ensureRun_unchanged: "ensureRun runId agent time a = (b, i, False) \<Longrightarrow> b = a"
  by (auto simp: ensureRun_def Let_def split: option.splits)

lemma with_run_unchanged: "with_run runId agent time g f a = (b, False) \<Longrightarrow> pm_out b = pm_out a"
  by (auto simp: with_run_def write_block_def Let_def split: prod.splits option.splits derived_message.splits dest: ensureRun_unchanged)

lemma apply_message_unchanged: "apply_message_event parse tr t ev a = (b, False) \<Longrightarrow> pm_out b = pm_out a"
  by (cases "ev_payload ev")
    (auto simp: apply_message_event_def push_message_def show_started_def show_artifact_def write_block_def Let_def
      split: prod.splits option.splits derived_message.splits if_splits dest: ensureRun_unchanged with_run_unchanged)

lemma apply_messages_unchanged: "apply_message_events parse tr t evs (a, c) = (b, False) \<Longrightarrow> \<not> c \<and> pm_out b = pm_out a"
proof (induction evs arbitrary: a c)
  case (Cons ev evs)
  obtain a' c' where step: "apply_message_event parse tr t ev a = (a', c')" by fastforce
  with Cons.prems have "apply_message_events parse tr t evs (a', c' \<or> c) = (b, False)" by (simp add: apply_message_events_def)
  from Cons.IH [OF this] step show ?case by (auto dest: apply_message_unchanged)
qed (simp add: apply_message_events_def)

lemma apply_messages_flag: "fst (apply_message_events parse tr t evs (a, c)) = fst (apply_message_events parse tr t evs (a, d))"
  by (induction evs arbitrary: a c d) (simp_all add: apply_message_events_def split: prod.split)

lemma apply_messages_changed: "snd (apply_message_events parse tr t evs (a, True))"
  by (induction evs arbitrary: a) (simp_all add: apply_message_events_def split: prod.split)

text \<open>The accumulator after a session, whatever it held before.\<close>

definition projected :: "json_parser \<Rightarrow> 't translator \<Rightarrow> relay_session \<Rightarrow> 't \<Rightarrow> 't message_accumulator" where
  "projected parse tr s t =
     (let c = fst (apply_message_events parse tr t (rs_events s) (initialize s t, True))
      in stamp (length (rs_events s)) (if rs_events s = [] then None else Some (ev_id (last (rs_events s)))) (pm_out c) c)"

lemma projected_fresh:
  "\<not> events_appended s t a \<Longrightarrow> update_messages parse tr (Some s) t a = (projected parse tr s t, pm_out (projected parse tr s t))"
  using apply_messages_changed [of parse tr t "rs_events s" "initialize s t"]
  by (auto simp: update_messages_def projected_def Let_def stamp_def initialize_def split: prod.splits)

lemma apply_messages_append:
  "apply_message_events parse tr t (xs @ ys) r = apply_message_events parse tr t ys (apply_message_events parse tr t xs r)"
  by (simp add: apply_message_events_def)

definition session_of :: "'t message_accumulator \<Rightarrow> string option \<times> string \<times> string \<times> 't option" where
  "session_of a = (pm_sessionId a, pm_taskGoal a, pm_createdAt a, pm_translator a)"

lemma ensureRun_session: "ensureRun runId agent time a = (b, r) \<Longrightarrow> session_of b = session_of a"
  by (auto simp: ensureRun_def Let_def session_of_def split: option.splits)

lemma with_run_session: "with_run runId agent time g f a = (b, c) \<Longrightarrow> session_of b = session_of a"
  by (auto simp: with_run_def write_block_def Let_def split: prod.splits option.splits derived_message.splits dest!: ensureRun_session)
    (auto simp: session_of_def)

lemma show_started_session: "show_started e time a = (b, c) \<Longrightarrow> session_of b = session_of a"
  by (auto simp: show_started_def split: prod.splits derived_message.splits if_splits dest!: ensureRun_session) (auto simp: session_of_def)

lemma apply_message_session: "session_of (fst (apply_message_event parse tr t ev a)) = session_of a"
proof -
  obtain b c where r: "apply_message_event parse tr t ev a = (b, c)" by fastforce
  then show ?thesis
    by (cases "ev_payload ev")
      (auto simp: apply_message_event_def dest: with_run_session show_started_session,
       auto simp: session_of_def push_message_def show_artifact_def write_block_def Let_def
         split: prod.splits option.splits derived_message.splits if_splits)
qed

lemma apply_messages_session: "session_of (fst (apply_message_events parse tr t evs (a, c))) = session_of a"
proof (induction evs arbitrary: a c)
  case (Cons ev evs)
  then show ?case using apply_message_session [of parse tr t ev a] by (simp add: apply_message_events_def split: prod.split) (metis fst_conv)
qed (simp add: apply_message_events_def)

lemma projected_session: "session_of (projected parse tr s t) = (Some (rs_id s), rs_taskGoal s, rs_createdAt s, Some t)"
  using apply_messages_session [of parse tr t "rs_events s" "initialize s t" True]
  by (simp add: projected_def Let_def session_of_def) (simp add: initialize_def Let_def)

lemma projected_more:
  assumes only: "events_appended s t (projected parse tr s0 t0)" and more: "prefix (rs_events s0) (rs_events s)"
  shows "update_messages parse tr (Some s) t (projected parse tr s0 t0) = (projected parse tr s t, pm_out (projected parse tr s t))"
proof -
  have same: "rs_id s0 = rs_id s" "rs_taskGoal s0 = rs_taskGoal s" "rs_createdAt s0 = rs_createdAt s" "t0 = t"
    using only projected_session [of parse tr s0 t0] by (auto simp: events_appended_def session_of_def)
  then have init: "initialize s0 u = initialize s u" for u by (simp add: initialize_def)
  obtain zs where zs: "rs_events s = rs_events s0 @ zs" using more by (auto simp: prefix_def)
  obtain c0 f where c0: "apply_message_events parse tr t (rs_events s0) (initialize s t, True) = (c0, f)" by fastforce
  obtain c1 g where c1: "apply_message_events parse tr t zs (c0, False) = (c1, g)" by fastforce
  have all: "fst (apply_message_events parse tr t (rs_events s) (initialize s t, True)) = c1"
    using apply_messages_flag [of parse tr t zs c0 f False] by (simp add: zs apply_messages_append c0 c1)
  have shown: "(if g then pm_out c1 else pm_out c0) = pm_out c1"
    using apply_messages_unchanged [of parse tr t zs c0 False c1] c1 by auto
  have p0: "projected parse tr s0 t0 =
      stamp (length (rs_events s0)) (if rs_events s0 = [] then None else Some (ev_id (last (rs_events s0)))) (pm_out c0) c0"
    using c0 by (auto simp: projected_def Let_def init same(4))
  have p1: "projected parse tr s t =
      stamp (length (rs_events s)) (if rs_events s = [] then None else Some (ev_id (last (rs_events s)))) (pm_out c1) c1"
    by (simp add: projected_def Let_def all)
  have "drop (length (rs_events s0)) (rs_events s) = zs" by (simp add: zs)
  with only shown show ?thesis
    unfolding p0 p1 update_messages_def by (simp add: apply_messages_stamp c1) (auto simp: stamp_def)
qed

text \<open>The updates of a transcript that is kept while sessions are polled, changed and left.\<close>

fun message_updates ::
  "json_parser \<Rightarrow> 't translator \<Rightarrow> (relay_session option \<times> 't) list \<Rightarrow> 't message_accumulator \<Rightarrow> derived_message list list" where
  "message_updates parse tr [] a = []"
| "message_updates parse tr ((session, t) # us) a =
     (case update_messages parse tr session t a of (b, messages) \<Rightarrow> messages # message_updates parse tr us b)"

definition logs_grow :: "relay_session list \<Rightarrow> bool" where
  "logs_grow ss \<longleftrightarrow>
     list_all (\<lambda>s. list_all (\<lambda>s'. rs_id s = rs_id s' \<longrightarrow> prefix (rs_events s) (rs_events s') \<or> prefix (rs_events s') (rs_events s)) ss) ss"

lemma updates_projected:
  assumes "a = new_message_accumulator \<or> (\<exists>s0 t0. a = projected parse tr s0 t0 \<and> s0 \<in> set known)"
    and "logs_grow (known @ List.map_filter fst us)"
  shows "message_updates parse tr us a = map (\<lambda>(s, t). projectMessages parse tr s t) us"
  using assms
proof (induction us arbitrary: a known)
  case (Cons u us)
  obtain session t where u: "u = (session, t)" by fastforce
  show ?case
  proof (cases session)
    case None
    with Cons.prems show ?thesis
      using Cons.IH [of new_message_accumulator known] by (simp add: u update_messages_def projectMessages_def List.map_filter_simps)
  next
    case (Some s)
    have fresh: "projectMessages parse tr (Some s) t = pm_out (projected parse tr s t)"
      by (simp add: projectMessages_def projected_fresh events_appended_def new_message_accumulator_def)
    have "update_messages parse tr (Some s) t a = (projected parse tr s t, pm_out (projected parse tr s t))"
    proof (cases "events_appended s t a")
      case True
      then obtain s0 t0 where a: "a = projected parse tr s0 t0" "s0 \<in> set known"
        using Cons.prems(1) by (auto simp: events_appended_def new_message_accumulator_def)
      have "rs_id s0 = rs_id s" "length (rs_events s0) \<le> length (rs_events s)"
        using True projected_session [of parse tr s0 t0] by (auto simp: events_appended_def session_of_def a projected_def Let_def)
      moreover have "rs_id s0 = rs_id s \<longrightarrow> prefix (rs_events s0) (rs_events s) \<or> prefix (rs_events s) (rs_events s0)"
        using Cons.prems(2) a(2) by (auto simp: logs_grow_def list_all_iff u Some List.map_filter_simps)
      ultimately have "prefix (rs_events s0) (rs_events s)" by (auto simp: prefix_def)
      with True show ?thesis unfolding a(1) by (rule projected_more)
    qed (rule projected_fresh)
    moreover have "logs_grow ((s # known) @ List.map_filter fst us)"
      using Cons.prems(2) by (auto simp: logs_grow_def list_all_iff u Some List.map_filter_simps)
    ultimately show ?thesis
      using Cons.IH [of "projected parse tr s t" "s # known"] by (auto simp: u Some fresh)
  qed
qed simp

text \<open>C9. A transcript that is kept while the sessions shown change, their logs grow, poll results arrive late and translators are
replaced always shows what projecting the whole session anew would show.\<close>

theorem transcript_incremental:
  assumes "logs_grow (List.map_filter fst us)"
  shows "message_updates parse tr us new_message_accumulator = map (\<lambda>(s, t). projectMessages parse tr s t) us"
  using assms by (intro updates_projected [where known = "[]"]) simp_all

definition sample_thread :: "relay_event list \<Rightarrow> relay_session" where
  "sample_thread evs =
     (initial_session \<lparr>ev_id = ''e'', ev_sessionId = ''s'', ev_timestamp = ''t'', ev_payload = SessionArchived\<rparr>
        \<lparr>sc_workspacePath = ''/w'', sc_workspaceLayout = None, sc_projectId = None, sc_workspaceSubpath = None, sc_computerId = None,
         sc_daemonNodeId = None, sc_managedNodeId = None, sc_ownerEmployeeId = None, sc_teamId = None, sc_taskGoal = ''goal'',
         sc_participants = []\<rparr>)\<lparr>rs_events := evs\<rparr>"

theorem transcript_incremental_witness:
  "let e1 = \<lparr>ev_id = ''a'', ev_sessionId = ''s'', ev_timestamp = ''1'', ev_payload = AgentOutput ''r'' Pi ast_stdout ''x'' None\<rparr>;
       e2 = \<lparr>ev_id = ''b'', ev_sessionId = ''s'', ev_timestamp = ''2'', ev_payload = AgentOutput ''r'' Pi ast_stdout ''y'' None\<rparr>;
       us = [(Some (sample_thread [e1]), True), (Some (sample_thread [e1, e2]), True), (None, True), (Some (sample_thread [e1]), False)]
   in message_updates (\<lambda>_. None) (\<lambda>_ k _. k) us new_message_accumulator =
      map (\<lambda>(s, t). projectMessages (\<lambda>_. None) (\<lambda>_ k _. k) s t) us"
  unfolding Let_def
  by (rule transcript_incremental) (simp add: logs_grow_def sample_thread_def List.map_filter_simps)

section \<open>The log of the daemon is read back\<close>

abbreviation (input) LFC :: char where "LFC \<equiv> CHR 0x0A"

text \<open>No line but the first is the header of a stream.\<close>

definition marker_lines :: "string set" where "marker_lines = {''stdout:'', ''stderr:''}"

definition no_marker_line :: "string \<Rightarrow> bool" where
  "no_marker_line s \<longleftrightarrow> set (tl (split_at LFC s)) \<inter> marker_lines = {}"

lemma first_line: "hd (split_at d s) = takeWhile (\<lambda>c. c \<noteq> d) s"
  by (induction s) (auto split: list.split)

lemma header_line: "header_at s = Some st \<Longrightarrow> takeWhile (\<lambda>c. c \<noteq> LFC) s \<in> marker_lines"
  by (auto simp: header_at_def prefix_def newline_def marker_lines_def split: if_splits)

lemma header_found: "header_at (stream_header st @ y) = Some st"
  by (cases st) (simp_all add: header_at_def newline_def)

lemma length_header [simp]: "length (stream_header st) = 8"
  by (cases st) (simp_all add: newline_def)

lemma no_marker_Cons: "no_marker_line (c # x) \<Longrightarrow> no_marker_line x"
  by (cases "c = LFC"; cases "split_at LFC x") (auto simp: no_marker_line_def)

lemma no_marker_here:
  assumes "no_marker_line (LFC # x)"
  shows "header_at x = None" and "header_at (x @ LFC # y) = None"
proof -
  have "takeWhile (\<lambda>c. c \<noteq> LFC) x \<in> set (split_at LFC x)" unfolding first_line [symmetric] by (rule hd_in_set) simp
  then have line: "takeWhile (\<lambda>c. c \<noteq> LFC) x \<notin> marker_lines"
    using assms by (auto simp: no_marker_line_def)
  moreover have "takeWhile (\<lambda>c. c \<noteq> LFC) (x @ LFC # y) = takeWhile (\<lambda>c. c \<noteq> LFC) x"
    by (induction x) auto
  ultimately show "header_at x = None" "header_at (x @ LFC # y) = None"
    using header_line [of x] header_line [of "x @ LFC # y"] by (cases "header_at x"; cases "header_at (x @ LFC # y)"; simp)+
qed

lemma scan_to_marker:
  assumes "no_marker_line x" and "i = 0 \<longrightarrow> header_at (x @ LFC # stream_header st @ y) = None"
  shows "log_markers i (x @ LFC # stream_header st @ y) =
         (st, i + length x, i + length x + 9) # log_markers (i + length x + 9) y"
  using assms
proof (induction x arbitrary: i)
  case Nil
  then show ?case by (subst log_markers.simps) (simp add: marker_at_def header_found)
next
  case (Cons c x)
  have "marker_at i (c # x @ LFC # stream_header st @ y) = None"
    using Cons.prems no_marker_here(2) [of x "stream_header st @ y"] by (auto simp: marker_at_def split: option.splits)
  then show ?case
    using Cons.IH [of "Suc i"] no_marker_Cons [OF Cons.prems(1)] by (subst log_markers.simps) simp
qed

lemma scan_to_end: "no_marker_line x \<Longrightarrow> 0 < i \<Longrightarrow> log_markers i x = []"
proof (induction x arbitrary: i)
  case (Cons c x)
  have "marker_at i (c # x) = None"
    using Cons.prems no_marker_here(1) [of x] by (auto simp: marker_at_def split: option.splits)
  then show ?case using Cons.IH [of "Suc i"] Cons.prems no_marker_Cons by (subst log_markers.simps) auto
qed (simp add: log_markers.simps marker_at_def)

definition shown_log :: "int \<Rightarrow> string \<Rightarrow> string" where
  "shown_log limit s = (if js_trim s \<noteq> [] then js_slice (- limit) s else [])"

definition log_title :: "string \<Rightarrow> exec_result \<Rightarrow> string" where
  "log_title label r =
     ''['' @ label @ '' Exit '' @ show_int (exit_code r) @ '']'' @
     (if js_truthy (error_message r) then LFC # ''Error: '' @ the (error_message r) else [])"

lemma agentResultLog_parts:
  "agentResultLog label r limit =
     log_title label r @
     (if js_trim (exec_stderr r) \<noteq> [] then LFC # stream_header ast_stderr @ js_slice (- limit) (exec_stderr r) else []) @
     (if js_trim (exec_stdout r) \<noteq> [] then LFC # stream_header ast_stdout @ js_slice (- limit) (exec_stdout r) else [])"
  by (simp add: agentResultLog_def log_title_def newline_def)

lemma no_marker_append:
  "LFC \<notin> set x \<Longrightarrow> no_marker_line (x @ y) \<longleftrightarrow> no_marker_line y"
proof (induction x)
  case (Cons c x)
  then show ?case by (cases "split_at LFC (x @ y)"; cases "split_at LFC y") (auto simp: no_marker_line_def)
qed simp

lemma show_int_line: "LFC \<notin> set (show_int i)"
  using show_nat_chars [of LFC "nat i"] show_nat_chars [of LFC "nat (- i)"] by (auto simp: show_int_def digit_def)

lemma log_title_plain:
  assumes "LFC \<notin> set label" and "js_truthy (error_message r) \<longrightarrow> no_marker_line (the (error_message r))"
  shows "no_marker_line (log_title label r)"
proof -
  let ?t = "''['' @ label @ '' Exit '' @ show_int (exit_code r) @ '']''"
  have t: "LFC \<notin> set ?t" using assms(1) show_int_line by simp
  have "no_marker_line (LFC # ''Error: '' @ m)" if "no_marker_line m" for m
    using that no_marker_append [of "''Error: ''" m] by (cases "split_at LFC m") (auto simp: no_marker_line_def marker_lines_def)
  moreover have "no_marker_line []" by (simp add: no_marker_line_def)
  ultimately show ?thesis
    using assms(2) no_marker_append [OF t] unfolding log_title_def append_assoc [symmetric] by (simp del: append_assoc)
qed

lemma trim_empty: "js_trim s = [] \<longleftrightarrow> (\<forall>c \<in> set s. js_space c)"
proof -
  have "(\<forall>c \<in> set (dropWhile js_space s). js_space c) \<longleftrightarrow> dropWhile js_space s = []"
    using hd_dropWhile [of js_space s] by (cases "dropWhile js_space s") (auto dest: set_dropWhileD)
  then have "js_trim s = [] \<longleftrightarrow> dropWhile js_space s = []"
    by (simp only: js_trim_def rev_is_Nil_conv dropWhile_eq_Nil_conv set_rev)
  then show ?thesis by (simp add: dropWhile_eq_Nil_conv)
qed

lemma log_read_back:
  assumes label: "LFC \<notin> set label" and message: "js_truthy (error_message r) \<longrightarrow> no_marker_line (the (error_message r))"
    and err: "no_marker_line (shown_log limit (exec_stderr r))" and out: "no_marker_line (shown_log limit (exec_stdout r))"
    and some: "js_trim (exec_stderr r) \<noteq> [] \<or> js_trim (exec_stdout r) \<noteq> []"
  shows "streamsFromAgentLog parse (agentResultLog label r limit) = (shown_log limit (exec_stdout r), shown_log limit (exec_stderr r))"
proof -
  let ?h = "log_title label r" and ?o = "js_slice (- limit) (exec_stdout r)" and ?e = "js_slice (- limit) (exec_stderr r)"
  have h: "no_marker_line ?h" using label message by (rule log_title_plain)
  have drop_header: "drop 8 (stream_header st @ s) = s" for st s by (cases st) (simp_all add: newline_def)
  have drop_both: "drop (18 + length e) (LFC # stream_header st @ e @ LFC # stream_header st' @ s) = s" for e st st' s
  proof -
    let ?x = "LFC # stream_header st @ e @ LFC # stream_header st'"
    have "drop (length ?x) (?x @ s) = s" by (simp only: drop_append drop_all diff_self_eq_0 drop_0 order_refl append_Nil)
    moreover have "length ?x = 18 + length e" by simp
    ultimately show ?thesis by simp
  qed
  have start: "header_at (?h @ s) = None" for s by (simp add: log_title_def header_at_def newline_def)
  have "CHR ''['' \<in> set (agentResultLog label r limit)" by (simp add: agentResultLog_parts log_title_def)
  then have solid: "js_trim (agentResultLog label r limit) \<noteq> []" unfolding trim_empty by (intro notI) (drule (1) bspec, simp add: js_space_def)
  have scan: "log_markers 0 (?h @ LFC # stream_header st @ s) = (st, length ?h, length ?h + 9) # log_markers (length ?h + 9) s" for st s
    using scan_to_marker [OF h, of 0 st s] start [of "LFC # stream_header st @ s"] by simp
  consider "js_trim (exec_stderr r) = []" "js_trim (exec_stdout r) \<noteq> []" | "js_trim (exec_stderr r) \<noteq> []" "js_trim (exec_stdout r) = []"
    | "js_trim (exec_stderr r) \<noteq> []" "js_trim (exec_stdout r) \<noteq> []" using some by blast
  then show ?thesis
  proof cases
    case 1
    then show ?thesis using solid out
      by (simp add: streamsFromAgentLog_def agentResultLog_parts scan scan_to_end shown_log_def Let_def drop_header drop_both del: stream_header.simps)
  next
    case 2
    then show ?thesis using solid err
      by (simp add: streamsFromAgentLog_def agentResultLog_parts scan scan_to_end shown_log_def Let_def drop_header drop_both del: stream_header.simps)
  next
    case 3
    then show ?thesis using solid err out scan_to_marker [of ?e "length ?h + 9" ast_stdout ?o]
      by (simp add: streamsFromAgentLog_def agentResultLog_parts scan scan_to_end shown_log_def Let_def drop_header drop_both del: stream_header.simps)
  qed
qed

text \<open>C11. The web client reads back the log that the daemon writes of a completed run: both streams, within the limit, exactly -
unless a line of the output is itself the header of a stream.\<close>

theorem agent_log_roundtrip:
  assumes label: "LFC \<notin> set label" and message: "js_truthy (error_message r) \<longrightarrow> no_marker_line (the (error_message r))"
    and err: "no_marker_line (shown_log limit (exec_stderr r))" and out: "no_marker_line (shown_log limit (exec_stdout r))"
    and some: "js_trim (exec_stderr r) \<noteq> [] \<or> js_trim (exec_stdout r) \<noteq> []"
  shows "streamsFromAgentLog parse (agentResultLog label r limit) = (shown_log limit (exec_stdout r), shown_log limit (exec_stderr r))"
  using assms by (rule log_read_back)

theorem agent_log_roundtrip_witness:
  "streamsFromAgentLog (\<lambda>_. None)
     (agentResultLog ''Pi'' \<lparr>exit_code = 1, exec_stdout = ''done'', exec_stderr = ''warn'' @ newline, error_message = Some ''slow''\<rparr> 100) =
   (''done'', ''warn'' @ newline)"
  by (subst agent_log_roundtrip)
    (simp_all add: newline_def no_marker_line_def marker_lines_def shown_log_def js_slice_def js_trim_def js_space_def)

text \<open>A line of the output that is the header of a stream tears it.\<close>

lemma marker_line_tears:
  "streamsFromAgentLog (\<lambda>_. None)
     (agentResultLog ''Pi'' \<lparr>exit_code = 0, exec_stdout = ''a'' @ newline @ ''stderr:'' @ newline @ ''b'', exec_stderr = [], error_message = None\<rparr> 100) =
   (''a'', ''b'')"
  by (simp add: agentResultLog_parts streamsFromAgentLog_def log_title_def log_markers.simps marker_at_def header_at_def newline_def
      js_slice_def js_trim_def js_space_def show_int_def show_nat.simps Let_def)

section \<open>A completed run is shown once\<close>

lemma split_at_chars: "l \<in> set (split_at d s) \<Longrightarrow> set l \<subseteq> set s"
proof (induction s arbitrary: l)
  case (Cons c s)
  then show ?case by (cases "split_at d s") (auto split: if_splits, fastforce+)
qed simp

lemma crlf_chars: "l \<in> set (crlf_lines s) \<Longrightarrow> set l \<subseteq> set s"
proof -
  assume "l \<in> set (crlf_lines s)"
  then consider p where "p \<in> set (butlast (split_at LFC s))" "l = drop_return p" | "l = last (split_at LFC s)"
    by (auto simp: crlf_lines_def Let_def)
  then obtain p where "p \<in> set (split_at LFC s)" "set l \<subseteq> set p"
  proof cases
    case 1
    then show ?thesis using that [of p] by (auto simp: drop_return_def split: if_splits dest: in_set_butlastD)
  next
    case 2
    then show ?thesis using that [of l] last_in_set [of "split_at LFC s"] by simp
  qed
  then show ?thesis using split_at_chars by blast
qed

lemma visible_blank: "js_trim s = [] \<Longrightarrow> filter (\<lambda>x. x \<noteq> []) (map (line_text parse) (crlf_lines s)) = []"
proof -
  assume "js_trim s = []"
  then have "js_trim l = []" if "l \<in> set (crlf_lines s)" for l using crlf_chars [OF that] by (auto simp: trim_empty)
  then show ?thesis by (auto simp: filter_empty_conv line_text_def)
qed

lemma trim_Nil [simp]: "js_trim [] = []"
  by (simp add: js_trim_def)

lemma visible_shown: "visibleLogText parse (if js_trim s \<noteq> [] then s else []) (if js_trim e \<noteq> [] then e else []) = visibleLogText parse s e"
  using visible_blank [of s parse] visible_blank [of "[]" parse] by (simp add: visibleLogText_def)

lemma includes_self: "js_includes s s"
  unfolding js_includes_iff by (intro exI [where x = "[]"]) simp

lemma completed_log_adds_nothing:
  assumes "LFC \<notin> set label" and "js_truthy (error_message r) \<longrightarrow> no_marker_line (the (error_message r))"
    and "no_marker_line (exec_stderr r)" and "no_marker_line (exec_stdout r)"
    and "js_trim (exec_stderr r) \<noteq> [] \<or> js_trim (exec_stdout r) \<noteq> []"
    and "0 < n" and "length (exec_stdout r) \<le> n" and "length (exec_stderr r) \<le> n"
  shows "applyCompletedLogFallback parse (agentResultLog label r (int n)) (exec_stdout r, exec_stderr r) = (exec_stdout r, exec_stderr r)"
proof -
  have empty: "no_marker_line []" by (simp add: no_marker_line_def)
  have shown: "shown_log (int n) (exec_stdout r) = (if js_trim (exec_stdout r) \<noteq> [] then exec_stdout r else [])"
      "shown_log (int n) (exec_stderr r) = (if js_trim (exec_stderr r) \<noteq> [] then exec_stderr r else [])"
    using assms(6-8) by (simp_all add: shown_log_def js_slice_neg_short)
  have "streamsFromAgentLog parse (agentResultLog label r (int n)) = (shown_log (int n) (exec_stdout r), shown_log (int n) (exec_stderr r))"
    by (rule log_read_back) (use assms empty in \<open>simp_all add: shown\<close>)
  then show ?thesis by (simp add: applyCompletedLogFallback_def Let_def shown visible_shown includes_self)
qed

text \<open>When a run ends with the log of the output it has streamed, its message keeps exactly that output: nothing is shown twice and
nothing is lost. The message stops streaming and gets the token usage of the run.\<close>

theorem completed_run_shown_once:
  assumes run: "pm_runState a runId = Some st" and block: "pm_out a ! rn_index st = AgentTurn b"
    and streamed: "exec_stdout r = rn_stdout st" "exec_stderr r = rn_stderr st"
    and lines: "LFC \<notin> set label" "js_truthy (error_message r) \<longrightarrow> no_marker_line (the (error_message r))"
      "no_marker_line (rn_stderr st)" "no_marker_line (rn_stdout st)"
    and some: "js_trim (rn_stderr st) \<noteq> [] \<or> js_trim (rn_stdout st) \<noteq> []"
    and limit: "0 < n" "length (rn_stdout st) \<le> n" "length (rn_stderr st) \<le> n"
  shows "pm_out (fst (apply_message_payload parse tr t i time
           (AgentCompleted runId assignment agent status code (Some (agentResultLog label r (int n))) (Some usage)) a)) =
         (pm_out a)[rn_index st :=
           AgentTurn (b\<lparr>tn_stdout := rn_stdout st, tn_stderr := rn_stderr st, tn_streaming := False, tn_tokenUsage := Some usage\<rparr>)]"
proof -
  have "applyCompletedLogFallback parse (agentResultLog label r (int n)) (rn_stdout st, rn_stderr st) = (rn_stdout st, rn_stderr st)"
    using completed_log_adds_nothing [of label r n parse] assms by simp
  moreover have "agentResultLog label r (int n) \<noteq> []" by (simp add: agentResultLog_parts log_title_def)
  ultimately show ?thesis
    by (simp add: with_run_def ensureRun_def run block write_block_def complete_log_def truthy_or_none_def show_completed_def show_streams_def
        Let_def)
qed

theorem completed_run_shown_once_witness:
  "let st = \<lparr>rn_index = 0, rn_attachmentIds = [], rn_stdout = ''hello'', rn_stderr = [], rn_collaborations = []\<rparr>;
       b = (new_turn (Some ''s'') ''r'' Pi ''t'')\<lparr>tn_stdout := ''hello''\<rparr>;
       usage = \<lparr>tu_input = 1, tu_output = 2, tu_cache = 0, tu_total = 3, tu_source = None\<rparr>
   in pm_out (fst (apply_message_payload (\<lambda>_. None) (\<lambda>_ k _. k) () ''e'' ''t''
        (AgentCompleted ''r'' None Pi run_completed 0
          (Some (agentResultLog ''Pi'' \<lparr>exit_code = 0, exec_stdout = ''hello'', exec_stderr = [], error_message = None\<rparr> (int 100))) (Some usage))
        (new_message_accumulator\<lparr>pm_out := [AgentTurn b], pm_runState := [''r'' \<mapsto> st]\<rparr>))) =
      [AgentTurn (b\<lparr>tn_stdout := ''hello'', tn_stderr := [], tn_streaming := False, tn_tokenUsage := Some usage\<rparr>)]"
  unfolding Let_def
  by (subst completed_run_shown_once [where b = "(new_turn (Some ''s'') ''r'' Pi ''t'')\<lparr>tn_stdout := ''hello''\<rparr>" and
        st = "\<lparr>rn_index = 0, rn_attachmentIds = [], rn_stdout = ''hello'', rn_stderr = [], rn_collaborations = []\<rparr>"])
    (simp_all add: new_message_accumulator_def no_marker_line_def trim_empty js_space_def)

section \<open>A transcript only grows\<close>

definition sync :: "string \<Rightarrow> message_run \<Rightarrow> agent_turn \<Rightarrow> bool" where
  "sync runId st b \<longleftrightarrow>
     tn_runId b = runId \<and> tn_stdout b = rn_stdout st \<and> tn_stderr b = rn_stderr st \<and> tn_collaborations b = rn_collaborations st"

text \<open>Every run has one block, which shows its state.\<close>

definition blocks_ok :: "'t message_accumulator \<Rightarrow> bool" where
  "blocks_ok a \<longleftrightarrow>
     (\<forall>r st. pm_runState a r = Some st \<longrightarrow>
        rn_index st < length (pm_out a) \<and> (\<exists>b. pm_out a ! rn_index st = AgentTurn b \<and> sync r st b)) \<and>
     (\<forall>i b. i < length (pm_out a) \<longrightarrow> pm_out a ! i = AgentTurn b \<longrightarrow> (\<exists>st. pm_runState a (tn_runId b) = Some st \<and> rn_index st = i))"

lemma blocks_okI:
  "(\<And>r st. pm_runState a r = Some st \<Longrightarrow> rn_index st < length (pm_out a) \<and> (\<exists>b. pm_out a ! rn_index st = AgentTurn b \<and> sync r st b)) \<Longrightarrow>
   (\<And>i b. i < length (pm_out a) \<Longrightarrow> pm_out a ! i = AgentTurn b \<Longrightarrow> \<exists>st. pm_runState a (tn_runId b) = Some st \<and> rn_index st = i) \<Longrightarrow>
   blocks_ok a"
  unfolding blocks_ok_def by blast

lemma blocks_okD:
  "blocks_ok a \<Longrightarrow> pm_runState a r = Some st \<Longrightarrow>
   rn_index st < length (pm_out a) \<and> (\<exists>b. pm_out a ! rn_index st = AgentTurn b \<and> sync r st b)"
  unfolding blocks_ok_def by blast

lemma blocks_ok_stateD:
  "blocks_ok a \<Longrightarrow> i < length (pm_out a) \<Longrightarrow> pm_out a ! i = AgentTurn b \<Longrightarrow>
   \<exists>st. pm_runState a (tn_runId b) = Some st \<and> rn_index st = i"
  unfolding blocks_ok_def by blast

definition turn_grows :: "agent_turn \<Rightarrow> agent_turn \<Rightarrow> bool" where
  "turn_grows b c \<longleftrightarrow>
     tn_id b = tn_id c \<and> tn_runId b = tn_runId c \<and> tn_agent b = tn_agent c \<and> tn_timestamp b = tn_timestamp c \<and>
     prefix (tn_stdout b) (tn_stdout c) \<and> prefix (tn_stderr b) (tn_stderr c) \<and>
     prefix (tn_collaborations b) (tn_collaborations c) \<and> prefix (tn_attachments b) (tn_attachments c) \<and>
     (tn_streaming c \<longrightarrow> tn_streaming b)"

fun message_grows :: "derived_message \<Rightarrow> derived_message \<Rightarrow> bool" where
  "message_grows (AgentTurn b) (AgentTurn c) = turn_grows b c"
| "message_grows m m' = (m = m')"

definition transcript_grows :: "derived_message list \<Rightarrow> derived_message list \<Rightarrow> bool" where
  "transcript_grows ms ms' \<longleftrightarrow> length ms \<le> length ms' \<and> list_all2 message_grows ms (take (length ms) ms')"

lemma turn_grows_refl [simp]: "turn_grows b b"
  by (simp add: turn_grows_def)

lemma message_grows_refl [simp]: "message_grows m m"
  by (cases m) simp_all

lemma message_grows_trans: "message_grows l m \<Longrightarrow> message_grows m n \<Longrightarrow> message_grows l n"
  by (cases l; cases m; cases n) (auto simp: turn_grows_def dest: prefix_order.trans)

lemma transcript_grows_refl [simp]: "transcript_grows ms ms"
  by (simp add: transcript_grows_def list.rel_refl)

lemma transcript_grows_trans: "transcript_grows l m \<Longrightarrow> transcript_grows m n \<Longrightarrow> transcript_grows l n"
  by (auto simp: transcript_grows_def list_all2_conv_all_nth intro: message_grows_trans)

lemma transcript_grows_push [simp]: "transcript_grows ms (ms @ ns)"
  by (simp add: transcript_grows_def list.rel_refl)

lemma transcript_grows_update: "i < length ms \<Longrightarrow> message_grows (ms ! i) m \<Longrightarrow> transcript_grows ms (ms[i := m])"
  by (auto simp: transcript_grows_def list_all2_conv_all_nth nth_list_update)

definition sound_step :: "'t message_accumulator \<Rightarrow> 't message_accumulator \<Rightarrow> bool" where
  "sound_step a b \<longleftrightarrow> (blocks_ok a \<longrightarrow> blocks_ok b \<and> transcript_grows (pm_out a) (pm_out b))"

lemma sound_step_refl [simp]: "sound_step a a"
  by (simp add: sound_step_def)

lemma sound_step_trans: "sound_step a b \<Longrightarrow> sound_step b c \<Longrightarrow> sound_step a c"
  by (auto simp: sound_step_def intro: transcript_grows_trans)

lemma push_sound: "(case m of AgentTurn _ \<Rightarrow> False | _ \<Rightarrow> True) \<Longrightarrow> sound_step a (fst (push_message m a))"
  by (auto simp: sound_step_def push_message_def blocks_ok_def nth_append less_Suc_eq split: derived_message.splits)

lemma ensureRun_sound:
  assumes "ensureRun runId agent time a = (b, i, c)" and "blocks_ok a"
  shows "sound_step a b \<and> (\<exists>st blk. pm_runState b runId = Some st \<and> rn_index st = i \<and> pm_out b ! i = AgentTurn blk \<and> sync runId st blk)"
proof (cases "pm_runState a runId")
  case None
  have free: "tn_runId blk \<noteq> runId" if "j < length (pm_out a)" "pm_out a ! j = AgentTurn blk" for j blk
    using assms(2) that None by (force simp: blocks_ok_def)
  have b: "b = a\<lparr>pm_out := pm_out a @ [AgentTurn (new_turn (pm_sessionId a) runId agent time)],
      pm_runState := (pm_runState a)(runId \<mapsto>
        \<lparr>rn_index = length (pm_out a), rn_attachmentIds = [], rn_stdout = [], rn_stderr = [], rn_collaborations = []\<rparr>)\<rparr>"
    and i: "i = length (pm_out a)" using assms(1) None by (auto simp: ensureRun_def Let_def)
  have "blocks_ok b"
    using assms(2) free by (fastforce simp: b blocks_ok_def nth_append less_Suc_eq sync_def new_turn_def)
  then show ?thesis by (simp add: b i sound_step_def sync_def new_turn_def)
next
  case (Some st)
  then show ?thesis using assms by (fastforce simp: ensureRun_def blocks_ok_def)
qed

lemma write_block_sound:
  assumes st: "pm_runState a runId = Some st" and blk: "pm_out a ! rn_index st = AgentTurn blk"
    and f: "sync runId st blk \<Longrightarrow> rn_index st' = rn_index st \<and> sync runId st' (f blk) \<and> turn_grows blk (f blk)"
  shows "sound_step a (fst (write_block runId st' f (rn_index st) c a))"
proof -
  have "blocks_ok (a\<lparr>pm_runState := (pm_runState a)(runId \<mapsto> st'), pm_out := (pm_out a)[rn_index st := AgentTurn (f blk)]\<rparr>) \<and>
      transcript_grows (pm_out a) ((pm_out a)[rn_index st := AgentTurn (f blk)])" if ok: "blocks_ok a"
  proof -
    have i: "rn_index st < length (pm_out a)" and sync: "sync runId st blk" using blocks_okD [OF ok st] blk by auto
    have g: "rn_index st' = rn_index st" "sync runId st' (f blk)" "turn_grows blk (f blk)" using f [OF sync] by auto
    have other: "rn_index s \<noteq> rn_index st" if "pm_runState a r = Some s" "r \<noteq> runId" for r s
      using blocks_okD [OF ok that(1)] that(2) blk sync by (auto simp: sync_def)
    let ?a = "a\<lparr>pm_runState := (pm_runState a)(runId \<mapsto> st'), pm_out := (pm_out a)[rn_index st := AgentTurn (f blk)]\<rparr>"
    have "blocks_ok ?a"
    proof (rule blocks_okI)
      fix r s assume "pm_runState ?a r = Some s"
      then show "rn_index s < length (pm_out ?a) \<and> (\<exists>b. pm_out ?a ! rn_index s = AgentTurn b \<and> sync r s b)"
        using g i other [of r s] blocks_okD [OF ok, of r s] by (auto split: if_splits)
    next
      fix j b assume "j < length (pm_out ?a)" "pm_out ?a ! j = AgentTurn b"
      then show "\<exists>s. pm_runState ?a (tn_runId b) = Some s \<and> rn_index s = j"
        using g i st blk sync blocks_ok_stateD [OF ok, of j b] by (auto simp: nth_list_update sync_def split: if_splits)
    qed
    moreover have "transcript_grows (pm_out a) ((pm_out a)[rn_index st := AgentTurn (f blk)])"
      using i blk g(3) by (intro transcript_grows_update) simp_all
    ultimately show ?thesis by blast
  qed
  then show ?thesis by (simp add: sound_step_def write_block_def blk)
qed

lemma with_run_sound:
  assumes f: "\<And>st blk. sync runId st blk \<Longrightarrow>
      rn_index (g st) = rn_index st \<and> sync runId (g st) (f (g st) blk) \<and> turn_grows blk (f (g st) blk)"
  shows "sound_step a (fst (with_run runId agent time g f a))"
proof (cases "blocks_ok a")
  case True
  obtain b i c where r: "ensureRun runId agent time a = (b, i, c)" by (metis prod_cases3)
  with ensureRun_sound [OF r True] obtain st blk where s: "sound_step a b" "pm_runState b runId = Some st" "rn_index st = i"
      "pm_out b ! rn_index st = AgentTurn blk" by auto
  have "sound_step b (fst (write_block runId (g st) (f (g st)) (rn_index st) c b))"
    using s(2,4) f by (rule write_block_sound)
  then show ?thesis using s by (auto simp: with_run_def r intro: sound_step_trans)
qed (simp add: sound_step_def)


text \<open>What a step does to the state of a run: the streams grow, the rest stays.\<close>

definition streams_grow :: "message_run \<Rightarrow> message_run \<Rightarrow> bool" where
  "streams_grow st st' \<longleftrightarrow>
     rn_index st' = rn_index st \<and> rn_collaborations st' = rn_collaborations st \<and>
     prefix (rn_stdout st) (rn_stdout st') \<and> prefix (rn_stderr st) (rn_stderr st')"

lemma add_output_grows: "streams_grow st (add_output stream s st)"
  by (cases stream) (simp_all add: streams_grow_def add_output_def)

lemma streams_grow_trans: "streams_grow st st' \<Longrightarrow> streams_grow st' st'' \<Longrightarrow> streams_grow st st''"
  unfolding streams_grow_def using prefix_order.trans by metis

lemma add_outputs_grow: "streams_grow st (fold (\<lambda>e. add_output (oe_stream e) (oe_text e)) entries st)"
proof (induction entries arbitrary: st)
  case (Cons e entries)
  then show ?case
    using streams_grow_trans [OF add_output_grows [of st "oe_stream e" "oe_text e"] Cons.IH] by simp
qed (simp add: streams_grow_def)

lemma append_missing_prefix: "prefix current (appendMissingStream current fallback)"
  by (simp add: appendMissingStream_def)

lemma complete_log_grows: "streams_grow st (complete_log parse lg st)"
  using append_missing_prefix
  by (auto simp: streams_grow_def complete_log_def applyCompletedLogFallback_def Let_def split: option.split)

lemma show_streams_sound:
  "streams_grow st st' \<Longrightarrow> sync r st blk \<Longrightarrow> rn_index st' = rn_index st \<and> sync r st' (show_streams st' blk) \<and> turn_grows blk (show_streams st' blk)"
  by (auto simp: streams_grow_def sync_def show_streams_def turn_grows_def)

lemma show_completed_sound:
  "streams_grow st st' \<Longrightarrow> sync r st blk \<Longrightarrow>
   rn_index st' = rn_index st \<and> sync r st' (show_completed usage st' blk) \<and> turn_grows blk (show_completed usage st' blk)"
  by (auto simp: streams_grow_def sync_def show_completed_def show_streams_def turn_grows_def)

lemma show_started_sound: "sound_step a (fst (show_started e time a))"
proof (cases "blocks_ok a")
  case True
  obtain b i c where r: "ensureRun (st_runId e) (st_agent e) time a = (b, i, c)" by (metis prod_cases3)
  with ensureRun_sound [OF r True] obtain st blk where s: "sound_step a b" "pm_runState b (st_runId e) = Some st" "rn_index st = i"
      "pm_out b ! rn_index st = AgentTurn blk" by auto
  let ?f = "\<lambda>b. if js_truthy (st_logicalAgentId e) then b\<lparr>tn_agentId := st_logicalAgentId e\<rparr> else b"
  have "sound_step b (fst (write_block (st_runId e) st ?f (rn_index st) True b))"
    by (rule write_block_sound [OF s(2,4)]) (auto simp: sync_def turn_grows_def)
  moreover have "b\<lparr>pm_runState := (pm_runState b)(st_runId e \<mapsto> st)\<rparr> = b" using s(2) by (simp add: fun_upd_idem)
  ultimately have "sound_step b (b\<lparr>pm_out := (pm_out b)[rn_index st := AgentTurn (?f blk)]\<rparr>)"
    by (simp add: write_block_def s(4) Let_def)
  then show ?thesis using s by (auto simp: show_started_def r intro: sound_step_trans)
qed (simp add: sound_step_def)

lemma show_artifact_sound: "sound_step a (fst (show_artifact tr t i time art a))"
proof -
  have noted: "sound_step a (fst (push_message (artifact_note tr t i time art) a))"
    by (rule push_sound) (simp add: artifact_note_def Let_def)
  have attach: "sound_step a (fst (write_block r (st\<lparr>rn_attachmentIds := ids\<rparr>) (\<lambda>b. b\<lparr>tn_attachments := tn_attachments b @ [art]\<rparr>) (rn_index st) c a))"
    if "pm_runState a r = Some st" "pm_out a ! rn_index st = AgentTurn blk" for r st ids blk c
    by (rule write_block_sound [OF that]) (auto simp: sync_def turn_grows_def)
  show ?thesis
    using noted by (auto simp: show_artifact_def bind_eq_Some_conv intro: attach split: option.split derived_message.split)
qed

lemma apply_message_sound: "sound_step a (fst (apply_message_event parse tr t ev a))"
proof (cases "ev_payload ev")
  case (AgentCollaboration r x1 x2 x3 agent x4 c)
  show ?thesis
    unfolding apply_message_event_def AgentCollaboration apply_message_payload.simps
    by (rule with_run_sound) (auto simp: sync_def turn_grows_def)
next
  case (HumanDecisionMade d)
  show ?thesis
    unfolding apply_message_event_def HumanDecisionMade apply_message_payload.simps
    by (rule push_sound) (simp add: decision_note_def Let_def)
qed (auto simp: apply_message_event_def push_sound show_started_sound show_artifact_sound
    intro!: with_run_sound show_streams_sound show_completed_sound add_output_grows add_outputs_grow complete_log_grows)

lemma apply_messages_sound: "sound_step a (fst (apply_message_events parse tr t evs (a, c)))"
proof (induction evs arbitrary: a c)
  case (Cons ev evs)
  obtain b d where r: "apply_message_event parse tr t ev a = (b, d)" by fastforce
  have "sound_step a b" using apply_message_sound [of a parse tr t ev] by (simp add: r)
  then show ?case using Cons.IH [of b "d \<or> c"] by (auto simp: apply_message_events_def r intro: sound_step_trans)
qed (simp add: apply_message_events_def)

lemma initialize_ok: "blocks_ok (initialize s t)"
  by (simp add: blocks_ok_def initialize_def Let_def less_Suc_eq)

lemma project_messages: "projectMessages parse tr (Some s) t = pm_out (fst (apply_message_events parse tr t (rs_events s) (initialize s t, True)))"
  by (simp add: projectMessages_def projected_fresh events_appended_def new_message_accumulator_def) (simp add: projected_def Let_def)

text \<open>C10. When the log of a thread grows its transcript only grows: every message keeps its place, its id and its text, the streams,
sub-agent calls and attachments of a run are extended, and a settled run does not stream again.\<close>

theorem transcript_only_grows:
  assumes same: "rs_id s' = rs_id s" "rs_taskGoal s' = rs_taskGoal s" "rs_createdAt s' = rs_createdAt s"
    and more: "prefix (rs_events s) (rs_events s')"
  shows "transcript_grows (projectMessages parse tr (Some s) t) (projectMessages parse tr (Some s') t)"
proof -
  obtain zs where zs: "rs_events s' = rs_events s @ zs" using more by (auto simp: prefix_def)
  have init: "initialize s' t = initialize s t" using same by (simp add: initialize_def)
  let ?c = "apply_message_events parse tr t (rs_events s) (initialize s t, True)"
  have "blocks_ok (fst ?c)" using apply_messages_sound [of "initialize s t" parse tr t "rs_events s" True] initialize_ok [of s t] unfolding sound_step_def by blast
  moreover have "sound_step (fst ?c) (fst (apply_message_events parse tr t zs ?c))"
    using apply_messages_sound [of "fst ?c" parse tr t zs "snd ?c"] by simp
  ultimately show ?thesis by (simp add: project_messages init zs apply_messages_append sound_step_def)
qed

theorem transcript_only_grows_witness:
  "transcript_grows (projectMessages (\<lambda>_. None) (\<lambda>_ k _. k) (Some (sample_thread [])) ())
     (projectMessages (\<lambda>_. None) (\<lambda>_ k _. k) (Some (sample_thread [\<lparr>ev_id = ''a'', ev_sessionId = ''s'', ev_timestamp = ''1'',
        ev_payload = AgentOutput ''r'' Pi ast_stdout ''x'' None\<rparr>])) ())"
  by (rule transcript_only_grows) (simp_all add: sample_thread_def)

end
