(* ===== verification/Calendar_Dates.thy ===== *)
theory Calendar_Dates
  imports Decimal_Text Task_Events
begin

text \<open>
  Calendar days: the date arithmetic of \<open>nextRoutineRunDate\<close> (\<open>web/src/lib/taskBoardForm.ts\<close>) and the keys \<open>yyyy-mm-dd\<close> that
  \<open>localDateKey\<close> writes (also in \<open>backlog.ts\<close> and \<open>routine.ts\<close>). A local date is a year, a month from 0 and a day from 1; a
  \<open>Date\<close> built or set with other numbers is normalised. Keys are compared as text.
\<close>

section \<open>Dates\<close>

type_synonym local_date = "int \<times> int \<times> int"

definition leap_year :: "int \<Rightarrow> bool" where
  "leap_year y \<longleftrightarrow> 4 dvd y \<and> (\<not> 100 dvd y \<or> 400 dvd y)"

definition days_in_month :: "int \<Rightarrow> int \<Rightarrow> int" where
  "days_in_month y m = (if m = 1 then (if leap_year y then 29 else 28) else if m \<in> {3, 5, 8, 10} then 30 else 31)"

lemma days_in_month_bounds: "28 \<le> days_in_month y m" "days_in_month y m \<le> 31"
  by (simp_all add: days_in_month_def)

definition month_after :: "int \<Rightarrow> int \<Rightarrow> int \<times> int" where
  "month_after y m = (if m = 11 then (y + 1, 0) else (y, m + 1))"

definition month_before :: "int \<Rightarrow> int \<Rightarrow> int \<times> int" where
  "month_before y m = (if m = 0 then (y - 1, 11) else (y, m - 1))"

text \<open>A day outside its month is counted on into the next months or back into the previous ones.\<close>

function carry_days :: "int \<Rightarrow> int \<Rightarrow> int \<Rightarrow> local_date" where
  "carry_days y m d =
     (if d < 1 then (case month_before y m of (y', m') \<Rightarrow> carry_days y' m' (d + days_in_month y' m'))
      else if days_in_month y m < d then (case month_after y m of (y', m') \<Rightarrow> carry_days y' m' (d - days_in_month y m))
      else (y, m, d))"
  by pat_completeness auto

termination
proof (relation "measures [\<lambda>(y, m, d). if d < 1 then 1 else 0, \<lambda>(y, m, d). nat (if d < 1 then 1 - d else d)]", goal_cases)
  case (2 y m d y' m')
  then show ?case using days_in_month_bounds [of y' m'] by auto
next
  case (3 y m d y' m')
  then show ?case using days_in_month_bounds [of y m] by auto
qed simp

declare carry_days.simps [simp del]

definition make_date :: "int \<Rightarrow> int \<Rightarrow> int \<Rightarrow> local_date" where
  "make_date y m d = carry_days (y + m div 12) (m mod 12) d"

fun set_day :: "local_date \<Rightarrow> int \<Rightarrow> local_date" where
  "set_day (y, m, _) d = make_date y m d"

fun set_month :: "local_date \<Rightarrow> int \<Rightarrow> local_date" where
  "set_month (y, _, d) m = make_date y m d"

definition pad2 :: "int \<Rightarrow> string" where
  "pad2 n = (let s = show_int n in replicate (2 - length s) CHR ''0'' @ s)"

fun localDateKey :: "local_date \<Rightarrow> string" where
  "localDateKey (y, m, d) = show_int y @ ''-'' @ pad2 (m + 1) @ ''-'' @ pad2 d"

text \<open>\<open>new Date(year, month + 1, 0)\<close> is the last day of the month.\<close>

fun nextRoutineRunDate :: "TaskRoutineCadence \<Rightarrow> local_date \<Rightarrow> string" where
  "nextRoutineRunDate cadence (y0, m0, d0) =
     (case make_date y0 m0 d0 of (y, m, d) \<Rightarrow>
        (case cadence of
           custom \<Rightarrow> []
         | daily \<Rightarrow> localDateKey (set_day (y, m, d) (d + 1))
         | weekly \<Rightarrow> localDateKey (set_day (y, m, d) (d + 7))
         | monthly \<Rightarrow>
             (case make_date y (m + 1 + 1) 0 of (_, _, lastDay) \<Rightarrow>
                localDateKey (set_month (set_day (y, m, d) (min d lastDay)) (m + 1)))))"

section \<open>The next run\<close>

fun valid_date :: "local_date \<Rightarrow> bool" where
  "valid_date (y, m, d) \<longleftrightarrow> 0 \<le> m \<and> m \<le> 11 \<and> 1 \<le> d \<and> d \<le> days_in_month y m"

fun day_after :: "local_date \<Rightarrow> local_date" where
  "day_after (y, m, d) = (if d < days_in_month y m then (y, m, d + 1) else (case month_after y m of (y', m') \<Rightarrow> (y', m', 1)))"

fun date_before :: "local_date \<Rightarrow> local_date \<Rightarrow> bool" where
  "date_before (y, m, d) (y', m', d') \<longleftrightarrow> y < y' \<or> y = y' \<and> (m < m' \<or> m = m' \<and> d < d')"

lemma carry_valid: "1 \<le> d \<Longrightarrow> d \<le> days_in_month y m \<Longrightarrow> carry_days y m d = (y, m, d)"
  by (subst carry_days.simps) simp

lemma carry_over:
  "1 \<le> d \<Longrightarrow> days_in_month y m < d \<Longrightarrow> carry_days y m d = (case month_after y m of (y', m') \<Rightarrow> carry_days y' m' (d - days_in_month y m))"
  by (subst carry_days.simps) simp

lemma carry_back:
  "d < 1 \<Longrightarrow> carry_days y m d = (case month_before y m of (y', m') \<Rightarrow> carry_days y' m' (d + days_in_month y' m'))"
  by (subst carry_days.simps) simp

lemma make_valid: "valid_date (y, m, d) \<Longrightarrow> make_date y m d = (y, m, d)"
  by (simp add: make_date_def carry_valid)

lemma month_after_valid: "0 \<le> m \<Longrightarrow> m \<le> 11 \<Longrightarrow> month_after y m = (y', m') \<Longrightarrow> 0 \<le> m' \<and> m' \<le> 11"
  by (auto simp: month_after_def split: if_splits)

lemma day_after_valid: "valid_date a \<Longrightarrow> valid_date (day_after a)"
  using days_in_month_bounds(1) [of "fst (month_after (fst a) (fst (snd a)))" "snd (month_after (fst a) (fst (snd a)))"]
  by (cases a) (auto simp: month_after_def)

lemma day_after_later: "valid_date a \<Longrightarrow> date_before a (day_after a)"
  by (cases a) (auto simp: month_after_def)

lemma date_before_trans: "date_before a b \<Longrightarrow> date_before b c \<Longrightarrow> date_before a c"
  by (cases a; cases b; cases c) auto

lemma carry_shift:
  assumes "valid_date (y, m, d)" and "0 < k" and "k \<le> 7"
  shows "carry_days y m (d + k) = (case day_after (y, m, d) of (y', m', d') \<Rightarrow> carry_days y' m' (d' + (k - 1)))"
  using assms days_in_month_bounds(1) [of y m]
  by (cases "d < days_in_month y m") (auto simp: carry_over algebra_simps split: prod.split)

lemma carry_days_after:
  "valid_date a \<Longrightarrow> k \<le> 7 \<Longrightarrow> (case a of (y, m, d) \<Rightarrow> carry_days y m (d + int k)) = (day_after ^^ k) a"
proof (induction k arbitrary: a)
  case 0
  then show ?case by (cases a) (simp add: carry_valid)
next
  case (Suc k)
  obtain y m d where a: "a = (y, m, d)" by (cases a) auto
  have "carry_days y m (d + int (Suc k)) = (case day_after a of (y', m', d') \<Rightarrow> carry_days y' m' (d' + int k))"
    using carry_shift [of y m d "int (Suc k)"] Suc.prems by (simp add: a)
  also have "\<dots> = (day_after ^^ k) (day_after a)" using Suc day_after_valid by simp
  finally show ?case by (simp add: a funpow_swap1)
qed

definition month_later :: "local_date \<Rightarrow> local_date" where
  "month_later a = (case a of (y, m, d) \<Rightarrow> case month_after y m of (y', m') \<Rightarrow> (y', m', min d (days_in_month y' m')))"

lemma month_later_valid: "valid_date a \<Longrightarrow> valid_date (month_later a)"
  using days_in_month_bounds(1) [of "fst (month_after (fst a) (fst (snd a)))" "snd (month_after (fst a) (fst (snd a)))"]
  by (cases a) (auto simp: month_later_def month_after_def)

lemma month_later_later: "valid_date a \<Longrightarrow> date_before a (month_later a)"
  by (cases a) (auto simp: month_later_def month_after_def)

lemma make_month_after: "0 \<le> m \<Longrightarrow> m \<le> 11 \<Longrightarrow> make_date y (m + 1) d = (case month_after y m of (y', m') \<Rightarrow> carry_days y' m' d)"
  by (cases "m = 11") (auto simp: make_date_def month_after_def)

lemma last_day:
  assumes "0 \<le> m" and "m \<le> 11"
  shows "make_date y (m + 1) 0 = (y, m, days_in_month y m)"
proof -
  have undo: "case month_after y m of (y', m') \<Rightarrow> month_before y' m' = (y, m)"
    using assms by (simp add: month_after_def month_before_def)
  have "valid_date (y, m, days_in_month y m)" using assms days_in_month_bounds(1) [of y m] by simp
  then show ?thesis
    using undo by (simp add: make_month_after [OF assms] carry_back carry_valid split: prod.splits)
qed

text \<open>A daily routine runs on the next day, a weekly one seven days later, across the ends of months, years and leap Februaries; a
monthly one in the very next month, on the same day or on the last day of a shorter month.\<close>

theorem next_run_date:
  assumes "valid_date a"
  shows "nextRoutineRunDate daily a = localDateKey (day_after a) \<and>
         nextRoutineRunDate weekly a = localDateKey ((day_after ^^ 7) a) \<and>
         nextRoutineRunDate monthly a = localDateKey (month_later a)"
proof -
  obtain y m d where a: "a = (y, m, d)" by (cases a) auto
  have m: "0 \<le> m" "m \<le> 11" and d: "1 \<le> d" using assms by (auto simp: a)
  have set: "set_day (y, m, d) (d + int k) = (day_after ^^ k) a" if "k \<le> 7" for k
    using carry_days_after [OF assms that] m by (simp add: a make_date_def)
  obtain y' m' where after: "month_after y m = (y', m')" by fastforce
  have m': "0 \<le> m'" "m' \<le> 11" using month_after_valid [OF m after] by auto
  have last: "make_date y (m + 1 + 1) 0 = (y', m', days_in_month y' m')"
    using last_day [OF m', of y'] m after by (auto simp: month_after_def make_date_def split: if_splits)
  then have last': "make_date y (2 + m) 0 = (y', m', days_in_month y' m')" by (simp add: add.commute)
  have small: "valid_date (y, m, min d (days_in_month y' m'))" and small': "1 \<le> min d (days_in_month y' m')" "min d (days_in_month y' m') \<le> days_in_month y' m'"
    using assms m' days_in_month_bounds(1) [of y' m'] by (auto simp: a)
  have "set_month (set_day (y, m, d) (min d (days_in_month y' m'))) (m + 1) = (y', m', min d (days_in_month y' m'))"
    using make_month_after [OF m, of y "min d (days_in_month y' m')"] carry_valid [OF small']
    by (simp add: make_valid [OF small] after)
  then have "nextRoutineRunDate monthly a = localDateKey (month_later a)"
    using make_valid [of y m d] assms by (simp add: a last' month_later_def after)
  moreover have "nextRoutineRunDate daily a = localDateKey (day_after a)" "nextRoutineRunDate weekly a = localDateKey ((day_after ^^ 7) a)"
    using make_valid [of y m d] assms set [of 1] set [of 7] by (simp_all add: a)
  ultimately show ?thesis by blast
qed

theorem next_run_date_witness:
  "nextRoutineRunDate daily (2023, 11, 31) = ''2024-01-01'' \<and> nextRoutineRunDate monthly (2024, 0, 31) = ''2024-02-29''"
  using next_run_date [of "(2023, 11, 31)"] next_run_date [of "(2024, 0, 31)"]
  by (simp add: days_in_month_def month_after_def month_later_def leap_year_def pad2_def show_int_def show_nat.simps
      char_of_def bit_0)

section \<open>Keys are compared as text\<close>

text \<open>\<open>s < t\<close> on strings.\<close>

fun js_before :: "string \<Rightarrow> string \<Rightarrow> bool" where
  "js_before s [] = False"
| "js_before [] (c # cs) = True"
| "js_before (c # cs) (d # ds) = ((of_char c :: nat) < of_char d \<or> c = d \<and> js_before cs ds)"

lemma js_before_irrefl [simp]: "\<not> js_before s s"
  by (induction s) auto

lemma js_before_append:
  "length s = length t \<Longrightarrow> js_before (s @ u) (t @ v) \<longleftrightarrow> js_before s t \<or> s = t \<and> js_before u v"
  by (induction s t rule: list_induct2) auto

text \<open>A number in a fixed number of digits.\<close>

fun fixed :: "nat \<Rightarrow> nat \<Rightarrow> string" where
  "fixed 0 n = []"
| "fixed (Suc w) n = fixed w (n div 10) @ [char_of (48 + n mod 10)]"

lemma length_fixed [simp]: "length (fixed w n) = w"
  by (induction w arbitrary: n) simp_all

lemma digit_value: "(of_char (char_of (48 + n mod 10) :: char) :: nat) = 48 + n mod 10" for n :: nat
  by (simp add: of_char_of take_bit_nat_eq_self)

lemma ten_less: "a < b \<longleftrightarrow> a div 10 < b div 10 \<or> a div 10 = b div 10 \<and> a mod 10 < b mod 10"
  and ten_eq: "a = b \<longleftrightarrow> a div 10 = b div 10 \<and> a mod 10 = b mod 10" for a b :: nat
proof -
  have "r < 10 \<Longrightarrow> r' < 10 \<Longrightarrow> (10 * q + r < 10 * q' + r' \<longleftrightarrow> q < q' \<or> q = q' \<and> r < r') \<and> (10 * q + r = 10 * q' + r' \<longleftrightarrow> q = q' \<and> r = r')"
    for q r q' r' :: nat by (cases q q' rule: linorder_cases) auto
  from this [of "a mod 10" "b mod 10" "a div 10" "b div 10"]
  show "a < b \<longleftrightarrow> a div 10 < b div 10 \<or> a div 10 = b div 10 \<and> a mod 10 < b mod 10"
    "a = b \<longleftrightarrow> a div 10 = b div 10 \<and> a mod 10 = b mod 10" by simp_all
qed

lemma fixed_eq: "a < 10 ^ w \<Longrightarrow> b < 10 ^ w \<Longrightarrow> fixed w a = fixed w b \<longleftrightarrow> a = b"
proof (induction w arbitrary: a b)
  case (Suc w)
  have "a div 10 < 10 ^ w" "b div 10 < 10 ^ w" using Suc.prems by (simp_all add: less_mult_imp_div_less mult.commute)
  moreover have "char_of (48 + a mod 10) = (char_of (48 + b mod 10) :: char) \<longleftrightarrow> a mod 10 = b mod 10"
    by (metis digit_value add_left_cancel)
  ultimately show ?case using Suc.IH [of "a div 10" "b div 10"] ten_eq [of a b] by simp
qed simp

lemma fixed_before: "a < 10 ^ w \<Longrightarrow> b < 10 ^ w \<Longrightarrow> js_before (fixed w a) (fixed w b) \<longleftrightarrow> a < b"
proof (induction w arbitrary: a b)
  case (Suc w)
  have small: "a div 10 < 10 ^ w" "b div 10 < 10 ^ w" using Suc.prems by (simp_all add: less_mult_imp_div_less mult.commute)
  show ?case
    using Suc.IH [OF small] fixed_eq [OF small] ten_less [of a b] by (simp add: js_before_append digit_value)
qed simp

lemma show_fixed_step: "10 \<le> n \<Longrightarrow> show_nat (n div 10) = fixed w (n div 10) \<Longrightarrow> show_nat n = fixed (Suc w) n"
  by (subst show_nat.simps) simp

lemma show_fixed: "10 ^ w \<le> n \<Longrightarrow> n < 10 ^ Suc w \<Longrightarrow> show_nat n = fixed (Suc w) n"
proof (induction w arbitrary: n)
  case 0
  then show ?case by (simp add: show_nat.simps)
next
  case (Suc w)
  have "10 ^ w \<le> n div 10" "n div 10 < 10 ^ Suc w" using Suc.prems by (simp_all add: less_eq_div_iff_mult_less_eq less_mult_imp_div_less mult.commute)
  moreover have "10 \<le> n" using Suc.prems(1) by (metis le_trans one_le_numeral one_le_power mult_le_mono2 nat_mult_1_right power_Suc)
  ultimately show ?case using Suc.IH show_fixed_step by blast
qed

lemma year_fixed:
  assumes "1000 \<le> y" and "y \<le> 9999"
  shows "show_int y = fixed 4 (nat y)"
proof -
  have "10 ^ 3 \<le> nat y" "nat y < 10 ^ Suc 3" using assms by simp_all
  from show_fixed [OF this] have "show_nat (nat y) = fixed (Suc 3) (nat y)" .
  moreover have "Suc 3 = (4 :: nat)" by simp
  ultimately show ?thesis using assms(1) by (simp only: show_int_def) simp
qed

lemma pad2_fixed:
  assumes "0 \<le> n" and "n \<le> 99"
  shows "pad2 n = fixed 2 (nat n)"
proof (cases "n < 10")
  case True
  then have "show_nat (nat n) = [char_of (48 + nat n)]" using assms(1) by (subst show_nat.simps) simp
  moreover have "fixed 2 (nat n) = [char_of (48 :: nat), char_of (48 + nat n)]" using True assms(1) by (simp add: numeral_2_eq_2)
  ultimately show ?thesis using assms(1) by (simp add: pad2_def show_int_def char_of_def bit_0)
next
  case False
  have "10 ^ 1 \<le> nat n" "nat n < 10 ^ Suc 1" using False assms by simp_all
  from show_fixed [OF this] have "show_nat (nat n) = fixed 2 (nat n)" by (simp only: numeral_2_eq_2 One_nat_def)
  then show ?thesis using assms(1) by (simp add: pad2_def show_int_def Let_def del: fixed.simps)
qed

text \<open>Keys of calendar days with years of four digits are ordered as text as the days are in time; so a routine compared with
today's key is overdue exactly when its day has passed.\<close>

theorem keys_order_days:
  assumes "valid_date a" and "valid_date b" and "1000 \<le> fst a" and "fst a \<le> 9999" and "1000 \<le> fst b" and "fst b \<le> 9999"
  shows "(js_before (localDateKey a) (localDateKey b) \<longleftrightarrow> date_before a b) \<and> (localDateKey a = localDateKey b \<longleftrightarrow> a = b)"
proof -
  obtain y m d y' m' d' where ab: "a = (y, m, d)" "b = (y', m', d')" by (cases a; cases b) auto
  have bounds: "0 \<le> m" "m \<le> 11" "1 \<le> d" "d \<le> 31" "0 \<le> m'" "m' \<le> 11" "1 \<le> d'" "d' \<le> 31"
    using assms(1,2) days_in_month_bounds(2) [of y m] days_in_month_bounds(2) [of y' m'] by (auto simp: ab)
  have keys: "localDateKey a = fixed 4 (nat y) @ ''-'' @ fixed 2 (nat (m + 1)) @ ''-'' @ fixed 2 (nat d)"
      "localDateKey b = fixed 4 (nat y') @ ''-'' @ fixed 2 (nat (m' + 1)) @ ''-'' @ fixed 2 (nat d')"
    using assms(3-6) bounds by (simp_all add: ab year_fixed pad2_fixed del: fixed.simps)
  have years: "nat y < 10 ^ 4" "nat y' < 10 ^ 4" using assms(3-6) by (simp_all add: ab)
  have months: "nat (m + 1) < 10 ^ 2" "nat (m' + 1) < 10 ^ 2" and days: "nat d < 10 ^ 2" "nat d' < 10 ^ 2" using bounds by simp_all
  note before = fixed_before [OF years] fixed_before [OF months] fixed_before [OF days]
  note same = fixed_eq [OF years] fixed_eq [OF months] fixed_eq [OF days]
  have "js_before (localDateKey a) (localDateKey b) \<longleftrightarrow>
      nat y < nat y' \<or> nat y = nat y' \<and> (nat (m + 1) < nat (m' + 1) \<or> nat (m + 1) = nat (m' + 1) \<and> nat d < nat d')"
    unfolding keys by (simp add: js_before_append before same del: fixed.simps)
  moreover have "localDateKey a = localDateKey b \<longleftrightarrow> nat y = nat y' \<and> nat (m + 1) = nat (m' + 1) \<and> nat d = nat d'"
    unfolding keys by (simp add: append_eq_append_conv same del: fixed.simps)
  ultimately show ?thesis using bounds assms(3-6) by (auto simp: ab)
qed

theorem keys_order_days_witness:
  "js_before (localDateKey (2024, 1, 29)) (localDateKey (2024, 9, 1))"
  using keys_order_days [of "(2024, 1, 29)" "(2024, 9, 1)"] by (simp add: days_in_month_def leap_year_def)

end
