(* ===== verification/Task_Board.thy ===== *)
theory Task_Board
  imports List_Sort Calendar_Dates Message_Address Session_Events
begin

text \<open>
  The task boards of the web client: filters, columns and orders of the backlog (\<open>web/src/lib/backlog.ts\<close>) and of the routines
  (\<open>routine.ts\<close>), selection and batches (\<open>taskSelection.ts\<close>), assignment (\<open>taskAssignment.ts\<close>), runs (\<open>taskRuns.ts\<close>) and the
  form (\<open>taskBoardForm.ts\<close>). A task of a list is the task of the log without its events. A set of ids is a set.
\<close>

section \<open>Backlog\<close>

definition TASK_STATUSES :: "TaskStatus list" where
  "TASK_STATUSES = [ts_backlog, ts_assigned, ts_running, ts_waiting_for_human, ts_review, ts_blocked, ts_done]"

definition TASK_PRIORITIES :: "TaskPriority list" where
  "TASK_PRIORITIES = [high, normal_priority, low]"

datatype due_filter = due_all | due_overdue | due_today | due_unscheduled
datatype source_filter = source_all | source_direct | source_routine

record backlog_filters =
  bf_query :: string
  bf_status :: "TaskStatus option" \<comment> \<open>\<open>None\<close> is \<open>all\<close>\<close>
  bf_priority :: "TaskPriority option"
  bf_agent :: string
  bf_assignee :: string
  bf_due :: due_filter
  bf_source :: source_filter

definition lowered :: "string \<Rightarrow> string" where
  "lowered = map js_lower"

definition search_text_of :: "string \<Rightarrow> string" where
  "search_text_of q = lowered (js_trim q)"

definition task_assignee :: "relay_task \<Rightarrow> string" where
  "task_assignee t = or_empty (js_coalesce (rt_assigneeEmployeeId t) (rt_ownerEmployeeId t))"

definition matches_people :: "string \<Rightarrow> string \<Rightarrow> string \<Rightarrow> relay_task \<Rightarrow> bool" where
  "matches_people agent assignee query t \<longleftrightarrow>
     (agent = ''all'' \<or> rt_assignedAgentId t = Some agent) \<and>
     (assignee = [] \<or> js_includes (lowered (task_assignee t)) assignee) \<and>
     (query = [] \<or> js_includes (lowered (rt_title t @ '' '' @ rt_description t @ '' '' @ rt_id t)) query)"

definition matches_due :: "due_filter \<Rightarrow> string \<Rightarrow> relay_task \<Rightarrow> bool" where
  "matches_due due today t =
     (case due of
        due_all \<Rightarrow> True
      | due_overdue \<Rightarrow> (case truthy_or_none (rt_dueDate t) of Some d \<Rightarrow> js_before d today \<and> rt_status t \<noteq> ts_done | None \<Rightarrow> False)
      | due_today \<Rightarrow> rt_dueDate t = Some today
      | due_unscheduled \<Rightarrow> \<not> js_truthy (rt_dueDate t))"

definition shown_in_backlog :: "backlog_filters \<Rightarrow> string \<Rightarrow> relay_task \<Rightarrow> bool" where
  "shown_in_backlog f today t \<longleftrightarrow>
     \<not> rt_isRoutine t \<and>
     (bf_source f = source_direct \<longrightarrow> \<not> js_truthy (rt_sourceRoutineId t)) \<and>
     (bf_source f = source_routine \<longrightarrow> js_truthy (rt_sourceRoutineId t)) \<and>
     (case bf_status f of Some s \<Rightarrow> rt_status t = s | None \<Rightarrow> True) \<and>
     (case bf_priority f of Some p \<Rightarrow> rt_priority t = p | None \<Rightarrow> True) \<and>
     matches_people (bf_agent f) (search_text_of (bf_assignee f)) (search_text_of (bf_query f)) t \<and>
     matches_due (bf_due f) today t"

fun priorityRank :: "TaskPriority \<Rightarrow> int" where
  "priorityRank high = 0"
| "priorityRank normal_priority = 1"
| "priorityRank low = 2"

text \<open>\<open>a || b || c\<close> on the results of comparators.\<close>

definition first_nonzero :: "int list \<Rightarrow> int" where
  "first_nonzero ks = (case filter (\<lambda>k. k \<noteq> 0) ks of k # _ \<Rightarrow> k | [] \<Rightarrow> 0)"

definition date_or_last :: "string option \<Rightarrow> string" where
  "date_or_last d = (case d of Some s \<Rightarrow> s | None \<Rightarrow> ''9999-12-31'')"

definition compareTasks :: "collation \<Rightarrow> relay_task js_compare" where
  "compareTasks co l r =
     first_nonzero [priorityRank (rt_priority l) - priorityRank (rt_priority r),
       co_plain co (date_or_last (rt_dueDate l)) (date_or_last (rt_dueDate r)),
       co_plain co (rt_updatedAt r) (rt_updatedAt l)]"

definition filterTasks :: "collation \<Rightarrow> relay_task list \<Rightarrow> backlog_filters \<Rightarrow> string \<Rightarrow> relay_task list" where
  "filterTasks co tasks f today = js_sort (compareTasks co) (filter (shown_in_backlog f today) tasks)"

definition named_column :: "string \<Rightarrow> 'a js_compare \<Rightarrow> ('a \<Rightarrow> bool) option \<Rightarrow> 'a sort_column" where
  "named_column key cmp missing = \<lparr>sl_key = key, sl_compare = cmp, sl_defaultDirection = None, sl_isMissing = missing\<rparr>"

definition backlogSortColumns :: "collation \<Rightarrow> (relay_task \<Rightarrow> string) \<Rightarrow> relay_task sort_column list" where
  "backlogSortColumns co assigneeName =
     [named_column ''title'' (byText co (\<lambda>t. Some (rt_title t))) None,
      named_column ''status'' (byRank (\<lambda>t. Some (rt_status t)) TASK_STATUSES) None,
      named_column ''priority'' (byRank (\<lambda>t. Some (rt_priority t)) TASK_PRIORITIES) None,
      named_column ''assignee'' (byText co (\<lambda>t. Some (assigneeName t))) (Some (\<lambda>t. js_trim (assigneeName t) = [])),
      named_column ''due'' (byDate co rt_dueDate) (Some (\<lambda>t. \<not> js_truthy (rt_dueDate t)))]"

definition tasksByStatus :: "relay_task list \<Rightarrow> (TaskStatus \<times> relay_task list) list" where
  "tasksByStatus tasks = map (\<lambda>s. (s, filter (\<lambda>t. rt_status t = s) tasks)) TASK_STATUSES"

definition agentReadyForTask :: "relay_task \<Rightarrow> employee_agent list \<Rightarrow> bool" where
  "agentReadyForTask t agents \<longleftrightarrow>
     js_truthy (rt_assignedAgentId t) \<and>
     list_ex (\<lambda>a. Some (ea_id a) = rt_assignedAgentId t \<and> ea_enabled a \<and> ea_availability a = AvReady) agents"

definition discussionAgentsForTask :: "employee_agent list \<Rightarrow> AgentName list" where
  "discussionAgentsForTask agents =
     rev (remdups (rev (map ea_executorKind (filter (\<lambda>a. ea_enabled a \<and> ea_availability a = AvReady) agents))))"

definition canDiscussTask :: "relay_task \<Rightarrow> bool" where
  "canDiscussTask t \<longleftrightarrow> \<not> js_truthy (rt_assignedTeamId t)"

datatype due_tone = due_neutral | due_warn | due_bad

definition date_tone :: "string option \<Rightarrow> string \<Rightarrow> due_tone" where
  "date_tone d today =
     (case truthy_or_none d of
        None \<Rightarrow> due_neutral
      | Some s \<Rightarrow> if js_before s today then due_bad else if s = today then due_warn else due_neutral)"

definition dueTone :: "relay_task \<Rightarrow> string \<Rightarrow> due_tone" where
  "dueTone t today = (if rt_status t = ts_done then due_neutral else date_tone (rt_dueDate t) today)"

section \<open>Routines\<close>

datatype routine_state = routine_running | routine_overdue | routine_due | routine_unscheduled | routine_scheduled | routine_paused

definition ROUTINE_STATE_ORDER :: "routine_state list" where
  "ROUTINE_STATE_ORDER = [routine_running, routine_overdue, routine_due, routine_scheduled, routine_unscheduled, routine_paused]"

definition routineState :: "relay_task \<Rightarrow> string set \<Rightarrow> string \<Rightarrow> routine_state" where
  "routineState r running today =
     (if rt_id r \<in> running then routine_running
      else if \<not> rt_routineEnabled r then routine_paused
      else case truthy_or_none (rt_routineNextRunDate r) of
             None \<Rightarrow> routine_unscheduled
           | Some d \<Rightarrow> if js_before d today then routine_overdue else if d = today then routine_due else routine_scheduled)"

definition runningRoutineIds :: "relay_task list \<Rightarrow> string set" where
  "runningRoutineIds tasks =
     set (List.map_filter (\<lambda>t. if \<not> rt_isRoutine t \<and> (rt_status t = ts_running \<or> rt_status t = ts_review)
                               then truthy_or_none (rt_sourceRoutineId t) else None) tasks)"

definition runningRoutineCount :: "relay_task list \<Rightarrow> relay_task list \<Rightarrow> nat" where
  "runningRoutineCount routines tasks = length (filter (\<lambda>r. rt_id r \<in> runningRoutineIds tasks) routines)"

record routine_filters =
  rl_query :: string
  rl_type :: "TaskRoutineType option"
  rl_cadence :: "TaskRoutineCadence option"
  rl_agent :: string
  rl_assignee :: string
  rl_state :: "routine_state option"

definition shown_as_routine :: "routine_filters \<Rightarrow> string set \<Rightarrow> string \<Rightarrow> relay_task \<Rightarrow> bool" where
  "shown_as_routine f running today t \<longleftrightarrow>
     rt_isRoutine t \<and>
     (rl_type f = None \<or> rt_routineType t = rl_type f) \<and>
     (rl_cadence f = None \<or> rt_routineCadence t = rl_cadence f) \<and>
     matches_people (rl_agent f) (search_text_of (rl_assignee f)) (search_text_of (rl_query f)) t \<and>
     (case rl_state f of Some st \<Rightarrow> routineState t running today = st | None \<Rightarrow> True)"

definition compareRoutineTasks :: "collation \<Rightarrow> relay_task js_compare" where
  "compareRoutineTasks co l r =
     first_nonzero [(if rt_routineEnabled l then 0 else 1) - (if rt_routineEnabled r then 0 else 1),
       co_plain co (date_or_last (rt_routineNextRunDate l)) (date_or_last (rt_routineNextRunDate r)),
       co_plain co (rt_updatedAt r) (rt_updatedAt l)]"

definition filterRoutineTasks :: "collation \<Rightarrow> relay_task list \<Rightarrow> routine_filters \<Rightarrow> string \<Rightarrow> relay_task list" where
  "filterRoutineTasks co tasks f today =
     js_sort (compareRoutineTasks co) (filter (shown_as_routine f (runningRoutineIds tasks) today) tasks)"

definition routinesByState :: "relay_task list \<Rightarrow> string set \<Rightarrow> string \<Rightarrow> (routine_state \<times> relay_task list) list" where
  "routinesByState routines running today =
     map (\<lambda>st. (st, filter (\<lambda>r. routineState r running today = st) routines)) ROUTINE_STATE_ORDER"

definition routineSortColumns :: "collation \<Rightarrow> string set \<Rightarrow> (relay_task \<Rightarrow> string) \<Rightarrow> string \<Rightarrow> relay_task sort_column list" where
  "routineSortColumns co running assigneeName today =
     [named_column ''title'' (byText co (\<lambda>t. Some (rt_title t))) None,
      named_column ''state'' (byRank (\<lambda>t. Some (routineState t running today)) ROUTINE_STATE_ORDER) None,
      named_column ''priority'' (byRank (\<lambda>t. Some (rt_priority t)) TASK_PRIORITIES) None,
      named_column ''assignee'' (byText co (\<lambda>t. Some (assigneeName t))) (Some (\<lambda>t. js_trim (assigneeName t) = [])),
      named_column ''nextRun'' (byDate co rt_routineNextRunDate) (Some (\<lambda>t. \<not> js_truthy (rt_routineNextRunDate t)))]"

definition routineDueTone :: "relay_task \<Rightarrow> string \<Rightarrow> due_tone" where
  "routineDueTone t today = (if rt_routineEnabled t then date_tone (rt_routineNextRunDate t) today else due_neutral)"

definition occurrence_of :: "relay_task \<Rightarrow> relay_task \<Rightarrow> bool" where
  "occurrence_of routine t \<longleftrightarrow> rt_id t \<in> set (rt_occurrenceIds routine) \<or> rt_sourceRoutineId t = Some (rt_id routine)"

definition occurrence_date :: "relay_task \<Rightarrow> string" where
  "occurrence_date t = (case rt_scheduledFor t of Some d \<Rightarrow> d | None \<Rightarrow> rt_createdAt t)"

definition latestRoutineSession :: "collation \<Rightarrow> relay_task \<Rightarrow> relay_task list \<Rightarrow> relay_session list \<Rightarrow> relay_session option" where
  "latestRoutineSession co routine tasks sessions =
     (let occurrences = js_sort (\<lambda>l r. first_nonzero [co_plain co (occurrence_date l) (occurrence_date r),
                                                      co_plain co (rt_createdAt l) (rt_createdAt r)])
                          (filter (occurrence_of routine) tasks);
          linked = rt_linkedSessionIds routine @ concat (map rt_linkedSessionIds occurrences)
      in case List.map_filter (map_of (map (\<lambda>s. (rs_id s, s)) (rev sessions))) (rev linked) of
           s # _ \<Rightarrow> Some s
         | [] \<Rightarrow> None)"

section \<open>Selection and batches\<close>

datatype selection_check = check_none | check_some | check_all

definition toggleSelected :: "string set \<Rightarrow> string \<Rightarrow> string set" where
  "toggleSelected selection i = (if i \<in> selection then selection - {i} else insert i selection)"

definition pruneSelection :: "string set \<Rightarrow> string list \<Rightarrow> string set" where
  "pruneSelection selection visibleIds = selection \<inter> set visibleIds"

definition selectionCheckState :: "string set \<Rightarrow> string list \<Rightarrow> selection_check" where
  "selectionCheckState selection visibleIds =
     (if visibleIds = [] \<or> selection = {} then check_none
      else let selected = length (filter (\<lambda>i. i \<in> selection) visibleIds)
           in if selected = 0 then check_none else if selected = length visibleIds then check_all else check_some)"

definition toggleAllSelected :: "string set \<Rightarrow> string list \<Rightarrow> string set" where
  "toggleAllSelected selection visibleIds = (if selectionCheckState selection visibleIds = check_all then {} else set visibleIds)"

definition selectedTasks :: "relay_task list \<Rightarrow> string set \<Rightarrow> relay_task list" where
  "selectedTasks tasks selection = filter (\<lambda>t. rt_id t \<in> selection) tasks"

text \<open>A settled promise is fulfilled or rejected with an error; a missing result counts as a failure.\<close>

type_synonym settled = "string + unit"

record batch_outcome =
  bo_succeeded :: "string list"
  bo_failed :: "(string \<times> string option) list"

definition result_at :: "settled list \<Rightarrow> nat \<Rightarrow> settled option" where
  "result_at results i = (if i < length results then Some (results ! i) else None)"

definition batchOutcome :: "string list \<Rightarrow> settled list \<Rightarrow> batch_outcome" where
  "batchOutcome ids results =
     (let settled = map (\<lambda>(i, k). (i, result_at results k)) (zip ids [0..<length ids])
      in \<lparr>batch_outcome.bo_succeeded = List.map_filter (\<lambda>(i, r). case r of Some (Inr _) \<Rightarrow> Some i | _ \<Rightarrow> None) settled,
          bo_failed = List.map_filter (\<lambda>(i, r). case r of Some (Inr _) \<Rightarrow> None | Some (Inl e) \<Rightarrow> Some (i, Some e) | None \<Rightarrow> Some (i, None)) settled\<rparr>)"

section \<open>Teams and assignees\<close>

record team_member =
  tm_id :: string
  tm_displayName :: string
  tm_profileImageUrl :: "string option"
  tm_executorKind :: AgentName
  tm_enabled :: bool
  tm_availability :: agent_availability

record agent_team =
  tg_id :: string
  tg_ownerEmployeeId :: string
  tg_name :: string
  tg_profileImageUrl :: "string option"
  tg_leadAgentId :: "string option"
  tg_memberAgentIds :: "string list"
  tg_enabled :: bool
  tg_members :: "team_member list"
  tg_lead :: "team_member option"
  tg_createdAt :: string
  tg_updatedAt :: string
  tg_deletedAt :: "string option"

datatype user_role = role_admin | role_user
datatype theme = theme_light | theme_dark | theme_system

record signed_in_user =
  cu_id :: string
  cu_username :: string
  cu_email :: "string option"
  cu_role :: user_role
  cu_employeeId :: "string option"
  cu_displayName :: "string option"
  cu_theme :: "theme option"
  cu_language :: "string option"
  cu_maxLocalComputers :: "int option"
  cu_effectiveMaxLocalComputers :: "int option"
  cu_localComputerCount :: "int option"

definition assignmentOptionVisible :: "string option \<Rightarrow> string \<Rightarrow> bool \<Rightarrow> bool" where
  "assignmentOptionVisible ownerEmployeeId assigneeEmployeeId selected \<longleftrightarrow>
     selected \<or> assigneeEmployeeId = [] \<or> ownerEmployeeId = Some assigneeEmployeeId"

definition teamAvailability :: "agent_team \<Rightarrow> agent_availability" where
  "teamAvailability t =
     (if \<not> tg_enabled t \<or> tg_members t = [] then AvOffline
      else if list_ex (\<lambda>m. \<not> tm_enabled m \<or> tm_availability m = AvOffline) (tg_members t) then AvOffline
      else if list_ex (\<lambda>m. tm_availability m = AvPending) (tg_members t) then AvPending
      else if list_ex (\<lambda>m. tm_availability m = AvBusy) (tg_members t) then AvBusy
      else AvReady)"

definition teamReady :: "agent_team \<Rightarrow> bool" where
  "teamReady t \<longleftrightarrow> teamAvailability t = AvReady"

definition isTeamRoutable :: "agent_team \<Rightarrow> bool" where
  "isTeamRoutable t \<longleftrightarrow> tg_enabled t \<and> \<not> js_truthy (tg_deletedAt t) \<and> isLogicalAgentRoutable (teamAvailability t)"

definition task_owner :: "relay_task \<Rightarrow> string option" where
  "task_owner t = truthy_or_none (js_coalesce (rt_assigneeEmployeeId t) (rt_ownerEmployeeId t))"

definition is_user :: "signed_in_user \<Rightarrow> string \<Rightarrow> bool" where
  "is_user u employeeId \<longleftrightarrow> Some employeeId = cu_employeeId u \<or> employeeId = cu_id u"

definition taskAssigneeDisplayName :: "relay_task \<Rightarrow> signed_in_user \<Rightarrow> (string \<rightharpoonup> string) \<Rightarrow> string option" where
  "taskAssigneeDisplayName t u employeeNames =
     (case task_owner t of
        None \<Rightarrow> None
      | Some e \<Rightarrow>
          if is_user u e
          then Some (case truthy_or_none (map_option js_trim (cu_displayName u)) of Some d \<Rightarrow> d | None \<Rightarrow> cu_username u)
          else Some (case employeeNames e of Some d \<Rightarrow> d | None \<Rightarrow> e))"

definition isTaskAssigneeCurrentUser :: "relay_task \<Rightarrow> signed_in_user \<Rightarrow> bool" where
  "isTaskAssigneeCurrentUser t u = (case task_owner t of None \<Rightarrow> False | Some e \<Rightarrow> is_user u e)"

section \<open>Runs\<close>

datatype ledger_outcome = outcome_done | outcome_failed | outcome_running | outcome_pending

fun runOutcome :: "TaskStatus \<Rightarrow> ledger_outcome" where
  "runOutcome ts_done = outcome_done"
| "runOutcome ts_blocked = outcome_failed"
| "runOutcome ts_running = outcome_running"
| "runOutcome ts_review = outcome_running"
| "runOutcome ts_waiting_for_human = outcome_running"
| "runOutcome _ = outcome_pending"

definition runDurationMs :: "(string \<Rightarrow> int option) \<Rightarrow> string option \<Rightarrow> string option \<Rightarrow> int option" where
  "runDurationMs parse startedAt endedAt =
     (case (truthy_or_none startedAt, truthy_or_none endedAt) of
        (Some s, Some e) \<Rightarrow>
          (case (parse s, parse e) of
             (Some started, Some stopped) \<Rightarrow> if stopped < started then None else Some (stopped - started)
           | _ \<Rightarrow> None)
      | _ \<Rightarrow> None)"

text \<open>\<open>Math.round\<close> rounds halves up.\<close>

definition formatRunDuration :: "int \<Rightarrow> string" where
  "formatRunDuration ms =
     (let seconds = max 0 ((ms + 500) div 1000); minutes = seconds div 60
      in if seconds < 60 then show_int seconds @ ''s''
         else if minutes < 60 then show_int minutes @ ''m''
         else show_int (minutes div 60) @ ''h '' @ show_int (minutes mod 60) @ ''m'')"

section \<open>The form\<close>

record board_form =
  fm_id :: "string option"
  fm_title :: string
  fm_description :: string
  fm_priority :: TaskPriority
  fm_assigneeEmployeeId :: string
  fm_assignedAgent :: "AgentName option" \<comment> \<open>\<open>None\<close> is the empty string\<close>
  fm_assignedAgentId :: "string option"
  fm_assignedTeamId :: "string option"

datatype form_variant =
    BacklogForm TaskStatus string
  | RoutineForm TaskRoutineType TaskRoutineCadence string bool

record task_form = board_form + fm_variant :: form_variant

definition empty_form :: "signed_in_user \<Rightarrow> form_variant \<Rightarrow> task_form" where
  "empty_form u v =
     \<lparr>fm_id = None, fm_title = [], fm_description = [], fm_priority = normal_priority,
      fm_assigneeEmployeeId = (case cu_employeeId u of Some e \<Rightarrow> e | None \<Rightarrow> cu_username u),
      fm_assignedAgent = None, fm_assignedAgentId = Some [], fm_assignedTeamId = Some [], fm_variant = v\<rparr>"

definition emptyBacklogForm :: "signed_in_user \<Rightarrow> task_form" where
  "emptyBacklogForm u = empty_form u (BacklogForm ts_backlog [])"

definition emptyRoutineForm :: "signed_in_user \<Rightarrow> local_date \<Rightarrow> task_form" where
  "emptyRoutineForm u date = empty_form u (RoutineForm routine_task weekly (nextRoutineRunDate weekly date) False)"

definition taskBoardFormsEqual :: "task_form \<Rightarrow> task_form \<Rightarrow> bool" where
  "taskBoardFormsEqual a b \<longleftrightarrow>
     fm_id a = fm_id b \<and> fm_title a = fm_title b \<and> fm_description a = fm_description b \<and> fm_priority a = fm_priority b \<and>
     fm_assigneeEmployeeId a = fm_assigneeEmployeeId b \<and> fm_assignedAgent a = fm_assignedAgent b \<and>
     fm_assignedAgentId a = fm_assignedAgentId b \<and> fm_assignedTeamId a = fm_assignedTeamId b \<and>
     (case (fm_variant a, fm_variant b) of
        (BacklogForm s d, BacklogForm s' d') \<Rightarrow> s = s' \<and> d = d'
      | (RoutineForm t c d e, RoutineForm t' c' d' e') \<Rightarrow> t = t' \<and> c = c' \<and> d = d' \<and> e = e'
      | _ \<Rightarrow> False)"

datatype assignment_selection = NoAssignment | AgentAssignment string | TeamAssignment string

definition parseTaskAssignmentValue :: "string \<Rightarrow> assignment_selection" where
  "parseTaskAssignmentValue v =
     (if js_starts_with v ''team:'' \<and> 5 < length v then TeamAssignment (drop 5 v)
      else if js_starts_with v ''agent:'' \<and> 6 < length v then AgentAssignment (drop 6 v)
      else NoAssignment)"

definition taskAssignmentValue :: "task_form \<Rightarrow> string" where
  "taskAssignmentValue f =
     (case truthy_or_none (fm_assignedTeamId f) of
        Some i \<Rightarrow> ''team:'' @ i
      | None \<Rightarrow> (case truthy_or_none (fm_assignedAgentId f) of Some i \<Rightarrow> ''agent:'' @ i | None \<Rightarrow> ''__none__''))"

definition taskAssignmentMutationFields :: "task_form \<Rightarrow> string option \<times> string option" where
  "taskAssignmentMutationFields f = (truthy_or_none (fm_assignedAgentId f), truthy_or_none (fm_assignedTeamId f))"

text \<open>The assignments of a start: the agents with their id and, for a fallback, their kind.\<close>

definition taskStartAssignments :: "relay_task \<Rightarrow> (string option \<times> AgentName option) list option" where
  "taskStartAssignments t =
     (if js_truthy (rt_assignedTeamId t) \<or> \<not> js_truthy (rt_assignedAgentId t) then None else Some [(rt_assignedAgentId t, None)])"

definition taskStartMutationInput ::
  "relay_task \<Rightarrow> (string option \<times> AgentName option) list option \<Rightarrow> string \<times> (string option \<times> AgentName option) list option" where
  "taskStartMutationInput t fallback =
     (rt_id t,
      case taskStartAssignments t of
        Some a \<Rightarrow> Some a
      | None \<Rightarrow> if \<not> js_truthy (rt_assignedAgentId t) \<and> \<not> js_truthy (rt_assignedTeamId t) then fallback else None)"

definition clearTaskAssignment :: "task_form \<Rightarrow> task_form" where
  "clearTaskAssignment f =
     f\<lparr>fm_assignedAgent := None, fm_assignedAgentId := Some [], fm_assignedTeamId := Some [],
       fm_variant := (case fm_variant f of
           RoutineForm t c d e \<Rightarrow> RoutineForm t c d False
         | BacklogForm s d \<Rightarrow> BacklogForm (if s = ts_assigned then ts_backlog else s) d)\<rparr>"

definition assign_team :: "string \<Rightarrow> task_form \<Rightarrow> task_form" where
  "assign_team teamId f = f\<lparr>fm_assignedAgent := None, fm_assignedAgentId := Some [], fm_assignedTeamId := Some teamId\<rparr>"

section \<open>Columns, lists and batches\<close>

text \<open>Comparing by one key and then by another.\<close>

lemma first_nonzero_Cons: "first_nonzero (k # ks) = (if k = 0 then first_nonzero ks else k)"
  by (simp add: first_nonzero_def)

lemma first_nonzero_Nil [simp]: "first_nonzero [] = 0"
  by (simp add: first_nonzero_def)

lemma comparator_or:
  assumes "comparator f" and "comparator g"
  shows "comparator (\<lambda>x y. if f x y = 0 then g x y else f x y)"
proof
  show "sgn (if f y x = 0 then g y x else f y x) = - sgn (if f x y = 0 then g x y else f x y)" for x y
    using comparator.opposite [OF assms(1), of y x] comparator.opposite [OF assms(2), of y x] comparator.same_opposite [OF assms(1), of x y]
    by simp
  fix x y z
  assume le: "(if f x y = 0 then g x y else f x y) \<le> 0" "(if f y z = 0 then g y z else f y z) \<le> 0"
  have f: "f x z \<le> 0" using le comparator.trans [OF assms(1), of x y z] by (auto split: if_splits)
  have "g x z \<le> 0" if "f x z = 0"
  proof -
    have undo: "f z x \<le> 0" using that comparator.same_opposite [OF assms(1), of x z] by simp
    have "f y x \<le> 0" using le(2) undo comparator.trans [OF assms(1), of y z x] by (auto split: if_splits)
    moreover have "f z y \<le> 0" using le(1) undo comparator.trans [OF assms(1), of z x y] by (auto split: if_splits)
    moreover have "f x y \<le> 0" "f y z \<le> 0" using le by (auto split: if_splits)
    ultimately have "f x y = 0" "f y z = 0" using comparator.le_opposite [OF assms(1)] by (meson antisym)+
    then show ?thesis using le comparator.trans [OF assms(2), of x y z] by simp
  qed
  with f show "(if f x z = 0 then g x z else f x z) \<le> 0" by auto
qed

lemma comparator_flip: "comparator cmp \<Longrightarrow> comparator (\<lambda>x y. cmp y x)"
  unfolding comparator_def by (metis minus_minus)

lemma comparator_tasks:
  assumes "comparator (co_plain co)"
  shows "comparator (compareTasks co)"
proof -
  have "compareTasks co = (\<lambda>l r. if priorityRank (rt_priority l) - priorityRank (rt_priority r) = 0
      then (if co_plain co (date_or_last (rt_dueDate l)) (date_or_last (rt_dueDate r)) = 0 then co_plain co (rt_updatedAt r) (rt_updatedAt l)
            else co_plain co (date_or_last (rt_dueDate l)) (date_or_last (rt_dueDate r)))
      else priorityRank (rt_priority l) - priorityRank (rt_priority r))"
    by (intro ext) (simp add: compareTasks_def first_nonzero_Cons)
  then show ?thesis
    using comparator_or [OF comparator_int [of "\<lambda>t. priorityRank (rt_priority t)"]
        comparator_or [OF comparator_key [OF assms, of "\<lambda>t. date_or_last (rt_dueDate t)"]
          comparator_flip [OF comparator_key [OF assms, of rt_updatedAt]]]]
    by simp
qed

text \<open>The backlog shows exactly the tasks its filters ask for, each once, those of a higher priority first and within a priority the
earlier due dates first; no routine is among them.\<close>

theorem backlog_shows_exactly:
  assumes "comparator (co_plain co)"
  shows "mset (filterTasks co tasks f today) = filter_mset (shown_in_backlog f today) (mset tasks) \<and>
         sorted_wrt (\<lambda>a b. priorityRank (rt_priority a) < priorityRank (rt_priority b) \<or>
           rt_priority a = rt_priority b \<and> co_plain co (date_or_last (rt_dueDate a)) (date_or_last (rt_dueDate b)) \<le> 0)
           (filterTasks co tasks f today) \<and>
         (\<forall>t \<in> set (filterTasks co tasks f today). \<not> rt_isRoutine t)"
proof -
  have "sorted_wrt (\<lambda>a b. compareTasks co a b \<le> 0) (filterTasks co tasks f today)"
    unfolding filterTasks_def using comparator_tasks [OF assms] by (rule comparator.sorted)
  moreover have "priorityRank (rt_priority a) < priorityRank (rt_priority b) \<or>
      rt_priority a = rt_priority b \<and> co_plain co (date_or_last (rt_dueDate a)) (date_or_last (rt_dueDate b)) \<le> 0"
    if "compareTasks co a b \<le> 0" for a b
    using that by (cases "rt_priority a"; cases "rt_priority b") (auto simp: compareTasks_def first_nonzero_Cons split: if_splits)
  ultimately have "sorted_wrt (\<lambda>a b. priorityRank (rt_priority a) < priorityRank (rt_priority b) \<or>
      rt_priority a = rt_priority b \<and> co_plain co (date_or_last (rt_dueDate a)) (date_or_last (rt_dueDate b)) \<le> 0)
      (filterTasks co tasks f today)" by (rule sorted_wrt_mono_rel [rotated])
  moreover have "mset (filterTasks co tasks f today) = filter_mset (shown_in_backlog f today) (mset tasks)"
    by (simp add: filterTasks_def)
  moreover have "\<forall>t \<in> set (filterTasks co tasks f today). \<not> rt_isRoutine t" by (auto simp: filterTasks_def shown_in_backlog_def)
  ultimately show ?thesis by blast
qed

text \<open>Every task of a board is in exactly one of its columns, and every routine in exactly one band.\<close>

lemma columns_partition:
  assumes "distinct ks" and "\<forall>x \<in> set xs. f x \<in> set ks"
  shows "mset (concat (map snd (map (\<lambda>k. (k, filter (\<lambda>x. f x = k) xs)) ks))) = mset xs"
  using assms
proof (induction ks arbitrary: xs)
  case (Cons k ks)
  have "mset (concat (map snd (map (\<lambda>k'. (k', filter (\<lambda>x. f x = k') (filter (\<lambda>x. f x \<noteq> k) xs))) ks))) = mset (filter (\<lambda>x. f x \<noteq> k) xs)"
    using Cons.prems by (intro Cons.IH) auto
  moreover have "filter (\<lambda>x. f x = k') (filter (\<lambda>x. f x \<noteq> k) xs) = filter (\<lambda>x. f x = k') xs" if "k' \<in> set ks" for k'
    using that Cons.prems(1) by (auto intro: filter_cong)
  ultimately have "mset (concat (map (\<lambda>k'. filter (\<lambda>x. f x = k') xs) ks)) = mset (filter (\<lambda>x. f x \<noteq> k) xs)"
    by (simp add: comp_def cong: map_cong)
  then show ?case by (simp add: comp_def)
qed simp

lemma board_columns: "mset (concat (map snd (tasksByStatus tasks))) = mset tasks"
proof -
  have "rt_status t \<in> set TASK_STATUSES" for t by (cases "rt_status t") (simp_all add: TASK_STATUSES_def)
  then have "\<forall>t \<in> set tasks. rt_status t \<in> set TASK_STATUSES" by blast
  moreover have "distinct TASK_STATUSES" by (simp add: TASK_STATUSES_def)
  ultimately show ?thesis unfolding tasksByStatus_def by (rule columns_partition [rotated])
qed

lemma routine_bands: "mset (concat (map snd (routinesByState routines running today))) = mset routines"
proof -
  have "routineState r running today \<in> set ROUTINE_STATE_ORDER" for r
    by (cases "routineState r running today") (simp_all add: ROUTINE_STATE_ORDER_def)
  then have "\<forall>r \<in> set routines. routineState r running today \<in> set ROUTINE_STATE_ORDER" by blast
  moreover have "distinct ROUTINE_STATE_ORDER" by (simp add: ROUTINE_STATE_ORDER_def)
  ultimately show ?thesis unfolding routinesByState_def by (rule columns_partition [rotated])
qed

text \<open>A batch reports every record, as a success or as a failure.\<close>

lemma batch_reports_all: "mset (bo_succeeded (batchOutcome ids results)) + mset (map fst (bo_failed (batchOutcome ids results))) = mset ids"
proof -
  have "mset (List.map_filter (\<lambda>(i, r). case r of Some (Inr _) \<Rightarrow> Some i | _ \<Rightarrow> None) ps) +
      mset (map fst (List.map_filter (\<lambda>(i, r). case r of Some (Inr _) \<Rightarrow> None | Some (Inl e) \<Rightarrow> Some (i, Some e) | None \<Rightarrow> Some (i, None)) ps)) =
      mset (map fst ps)" for ps :: "(string \<times> settled option) list"
    by (induction ps) (auto simp: List.map_filter_simps split: option.splits sum.splits)
  from this [of "map (\<lambda>(i, k). (i, result_at results k)) (zip ids [0..<length ids])"]
  have "mset (bo_succeeded (batchOutcome ids results)) + mset (map fst (bo_failed (batchOutcome ids results))) =
      mset (map fst (map (\<lambda>(i, k). (i, result_at results k)) (zip ids [0..<length ids])))"
    by (simp only: batchOutcome_def Let_def batch_outcome.simps)
  also have "map fst (map (\<lambda>(i, k). (i, result_at results k)) (zip ids [0..<length ids])) = ids"
    by (simp add: comp_def case_prod_unfold)
  finally show ?thesis .
qed

text \<open>The value of the assignment picker is read back as the assignment of the form.\<close>

lemma assignment_value_roundtrip:
  "parseTaskAssignmentValue (taskAssignmentValue f) =
     (case taskAssignmentMutationFields f of
        (_, Some team) \<Rightarrow> TeamAssignment team
      | (Some agent, None) \<Rightarrow> AgentAssignment agent
      | (None, None) \<Rightarrow> NoAssignment)"
  by (auto simp: parseTaskAssignmentValue_def taskAssignmentValue_def taskAssignmentMutationFields_def truthy_or_none_def
      split: option.split)

lemma cleared_assignment:
  "parseTaskAssignmentValue (taskAssignmentValue (clearTaskAssignment f)) = NoAssignment"
  by (simp add: parseTaskAssignmentValue_def taskAssignmentValue_def clearTaskAssignment_def truthy_or_none_def)

section \<open>When a routine is due\<close>

definition first_run :: "TaskRoutineCadence \<Rightarrow> local_date \<Rightarrow> local_date" where
  "first_run cadence a = (case cadence of daily \<Rightarrow> day_after a | weekly \<Rightarrow> (day_after ^^ 7) a | _ \<Rightarrow> month_later a)"

lemma days_after_valid: "valid_date a \<Longrightarrow> valid_date ((day_after ^^ n) a)"
  by (induction n) (simp_all add: day_after_valid del: valid_date.simps day_after.simps)

lemma days_after_later: "valid_date a \<Longrightarrow> date_before a ((day_after ^^ Suc n) a)"
proof (induction n)
  case (Suc n)
  have "date_before ((day_after ^^ Suc n) a) (day_after ((day_after ^^ Suc n) a))"
    using Suc.prems by (intro day_after_later days_after_valid)
  with Suc show ?case using date_before_trans by simp
qed (simp add: day_after_later)

lemma first_run_facts:
  assumes a: "valid_date a" and "cadence \<noteq> custom"
  shows "valid_date (first_run cadence a) \<and> date_before a (first_run cadence a) \<and>
         nextRoutineRunDate cadence a = localDateKey (first_run cadence a)"
proof -
  have "Suc 6 = (7 :: nat)" by simp
  note week = days_after_later [OF a, of 6, unfolded this]
  note keys = next_run_date [OF a]
  consider "cadence = daily" | "cadence = weekly" | "cadence = monthly" using assms(2) by (cases cadence) auto
  then show ?thesis
  proof cases
    case 1
    show ?thesis unfolding 1 first_run_def TaskRoutineCadence.case
      using day_after_valid [OF a] day_after_later [OF a] keys by blast
  next
    case 2
    show ?thesis unfolding 2 first_run_def TaskRoutineCadence.case
      using days_after_valid [OF a, of 7] week keys by blast
  next
    case 3
    show ?thesis unfolding 3 first_run_def TaskRoutineCadence.case
      using month_later_valid [OF a] month_later_later [OF a] keys by blast
  qed
qed

lemma date_before_total: "date_before a b \<or> a = b \<or> date_before b a"
  by (cases a; cases b) auto

lemma date_before_asym: "date_before a b \<Longrightarrow> \<not> date_before b a \<and> a \<noteq> b"
  by (cases a; cases b) auto

lemma key_not_empty: "localDateKey a \<noteq> []"
  by (cases a) simp

text \<open>C40. A routine that is enabled with the date the form proposes is scheduled until that day, due on it and overdue after it, in the
order of the calendar.\<close>

theorem routine_becomes_due:
  assumes cadence: "cadence \<noteq> custom" and routine: "rt_routineEnabled r" "rt_id r \<notin> running"
      "rt_routineNextRunDate r = Some (nextRoutineRunDate cadence a)"
    and dates: "valid_date a" "1000 \<le> fst a" "fst (first_run cadence a) \<le> 9999" "valid_date t" "1000 \<le> fst t" "fst t \<le> 9999"
  shows "routineState r running (localDateKey t) =
           (if date_before t (first_run cadence a) then routine_scheduled
            else if t = first_run cadence a then routine_due else routine_overdue) \<and>
         date_before a (first_run cadence a)"
proof -
  let ?n = "first_run cadence a"
  note facts = first_run_facts [OF dates(1) cadence]
  note n = facts [THEN conjunct1] facts [THEN conjunct2, THEN conjunct1] facts [THEN conjunct2, THEN conjunct2]
  have "1000 \<le> fst ?n" using n(2) dates(2) by (cases a; cases ?n) auto
  then have keys: "(js_before (localDateKey ?n) (localDateKey t) \<longleftrightarrow> date_before ?n t) \<and> (localDateKey ?n = localDateKey t \<longleftrightarrow> ?n = t)"
    using keys_order_days [OF n(1) dates(4)] dates(3,5,6) by simp
  have "rt_routineNextRunDate r = Some (localDateKey ?n)" using routine(3) n(3) by simp
  then have "routineState r running (localDateKey t) =
      (if date_before ?n t then routine_overdue else if ?n = t then routine_due else routine_scheduled)"
    using routine keys key_not_empty [of ?n] by (auto simp: routineState_def truthy_or_none_def)
  also have "\<dots> = (if date_before t ?n then routine_scheduled else if t = ?n then routine_due else routine_overdue)"
    using date_before_total [of ?n t] date_before_asym by (auto dest: date_before_asym)
  finally show ?thesis using n(2) by simp
qed

definition sample_routine :: relay_task where
  "sample_routine =
     (initial_task \<lparr>te_id = ''e'', te_taskId = ''r'', te_timestamp = ''t'', te_payload = TaskDeleted\<rparr>
        \<lparr>tc_title = ''Report'', tc_description = [], tc_priority = low, tc_ownerEmployeeId = None, tc_projectId = None,
         tc_assigneeEmployeeId = None, tc_dueDate = None,
         tc_routine = \<lparr>rf_isRoutine = Some True, rf_routineType = None, rf_routineCadence = Some weekly, rf_routineNextRunDate = None,
                       rf_routineEnabled = Some True\<rparr>,
         tc_sourceRoutineId = None, tc_scheduledFor = None\<rparr>)
     \<lparr>rt_routineNextRunDate := Some (nextRoutineRunDate monthly (2024, 0, 31))\<rparr>"

theorem routine_becomes_due_witness:
  "routineState sample_routine {} (localDateKey (2024, 1, 29)) = routine_due \<and>
   routineState sample_routine {} (localDateKey (2024, 2, 1)) = routine_overdue"
proof -
  have run: "first_run monthly (2024, 0, 31) = (2024, 1, 29)"
    by (simp add: first_run_def month_later_def month_after_def days_in_month_def leap_year_def)
  have routine: "rt_routineEnabled sample_routine" "rt_id sample_routine \<notin> {}"
      "rt_routineNextRunDate sample_routine = Some (nextRoutineRunDate monthly (2024, 0, 31))"
    by (simp_all add: sample_routine_def initial_task_def applyRoutineFields_def apply_routine_settings_def del: nextRoutineRunDate.simps)
  show ?thesis
    using routine_becomes_due [OF _ routine, of "(2024, 1, 29)"] routine_becomes_due [OF _ routine, of "(2024, 2, 1)"]
    by (simp add: run days_in_month_def leap_year_def del: localDateKey.simps nextRoutineRunDate.simps)
qed

theorem backlog_shows_exactly_witness:
  "mset (filterTasks \<lparr>co_base = (\<lambda>_ _. 0), co_plain = (\<lambda>s t. int (length s) - int (length t))\<rparr> [sample_routine]
     \<lparr>bf_query = [], bf_status = None, bf_priority = None, bf_agent = ''all'', bf_assignee = [], bf_due = due_all, bf_source = source_all\<rparr>
     ''2024-01-01'') = {#}"
proof -
  have "comparator (co_plain \<lparr>co_base = (\<lambda>_ _. 0), co_plain = (\<lambda>s t. int (length s) - int (length t))\<rparr>)"
    using comparator_int [of "\<lambda>s. int (length s)"] by simp
  from backlog_shows_exactly [OF this] show ?thesis
    by (simp add: shown_in_backlog_def sample_routine_def initial_task_def applyRoutineFields_def apply_routine_settings_def
        del: nextRoutineRunDate.simps)
qed

end
