(* ===== verification/Agent_Inventory.thy ===== *)
theory Agent_Inventory
  imports Daemon_Protocol Agent_Home Shell_Words Decimal_Text List_Sort
begin

text \<open>
  What each agent CLI has installed on a node, \<open>packages/relay-daemon/src/agent-inventory.ts\<close>: the script that sweeps the
  home directory prints a tab-separated record per \<open>SKILL.md\<close> and per configuration file with its content in base64, and
  the daemon parses the records into skills and MCP servers. The URL parser, \<open>JSON.parse\<close> and \<open>localeCompare\<close> are arguments.
\<close>

section \<open>base64\<close>

definition base64_alphabet :: string where
  "base64_alphabet = ''ABCDEFGHIJKLMNOPQRSTUVWXYZabcdefghijklmnopqrstuvwxyz0123456789+/''"

definition base64 :: "nat list \<Rightarrow> string" where
  "base64 bs = map ((!) base64_alphabet) (sextets bs) @ replicate ((3 - length bs mod 3) mod 3) (CHR ''='')"

text \<open>\<open>Buffer.from(payload, "base64")\<close>: both alphabets are read, other characters are skipped, and the padding ends the text.\<close>

definition sextet_of :: "char \<Rightarrow> nat option" where
  "sextet_of c = map_of (zip base64_alphabet [0..<64] @ [(CHR ''-'', 62), (CHR ''_'', 63)]) c"

definition base64_bytes :: "string \<Rightarrow> nat list" where
  "base64_bytes s = unsextets (List.map_filter sextet_of (takeWhile (\<lambda>c. c \<noteq> CHR ''='') s))"

section \<open>The sweep\<close>

record inventory_source =
  is_skillsDir :: "string option"
  is_mcpJson :: "string list"
  is_mcpToml :: "string list"

fun AGENT_INVENTORY_SOURCES :: "AgentName \<Rightarrow> inventory_source" where
  "AGENT_INVENTORY_SOURCES Claude =
     \<lparr>is_skillsDir = Some ''.claude/skills'', is_mcpJson = [''.claude.json'', ''.mcp.json''], is_mcpToml = []\<rparr>"
| "AGENT_INVENTORY_SOURCES Codex =
     \<lparr>is_skillsDir = Some ''.codex/skills'', is_mcpJson = [''.codex/mcp.json''], is_mcpToml = [''.codex/config.toml'']\<rparr>"
| "AGENT_INVENTORY_SOURCES Pi = \<lparr>is_skillsDir = Some ''.pi/skills'', is_mcpJson = [''.pi/mcp.json''], is_mcpToml = []\<rparr>"
| "AGENT_INVENTORY_SOURCES Kimi = \<lparr>is_skillsDir = Some ''.kimi/skills'', is_mcpJson = [''.kimi/mcp.json''], is_mcpToml = []\<rparr>"

definition safe_rel_path :: "string \<Rightarrow> bool" where
  "safe_rel_path s \<longleftrightarrow>
     s \<noteq> [] \<and>
     list_all (\<lambda>c. let n = (of_char c :: nat) in
        (65 \<le> n \<and> n \<le> 90) \<or> (97 \<le> n \<and> n \<le> 122) \<or> (48 \<le> n \<and> n \<le> 57) \<or> c \<in> set ''._/-'') s"

definition skill_script :: "AgentName \<Rightarrow> string \<Rightarrow> string list" where
  "skill_script agent dir =
     [''d=\"$home/'' @ dir @ ''\"'',
      ''if [ -d \"$d\" ]; then'',
      ''  find \"$d\" -maxdepth 4 -type f -name SKILL.md 2>/dev/null | while IFS= read -r f; do'',
      ''    rel=\"${f#$d/}\"'',
      ''    payload=$(base64 < \"$f\" | tr -d '' @ [quote_mark, backslash] @ ''n'' @ [quote_mark] @ '')'',
      ''    printf '' @ [quote_mark] @ ''SKILL%s%s%s%s%s%s'' @ [backslash] @ ''n'' @ [quote_mark] @ '' \"$sep\" '' @ shellQuote (agent_id agent) @
        '' \"$sep\" \"$rel\" \"$sep\" \"$payload\"'',
      ''  done'',
      ''fi'']"

definition mcp_script :: "AgentName \<Rightarrow> string \<Rightarrow> string list" where
  "mcp_script agent rel =
     [''m=\"$home/'' @ rel @ ''\"'',
      ''if [ -f \"$m\" ]; then'',
      ''  payload=$(base64 < \"$m\" | tr -d '' @ [quote_mark, backslash] @ ''n'' @ [quote_mark] @ '')'',
      ''  printf '' @ [quote_mark] @ ''MCP%s%s%s%s%s%s'' @ [backslash] @ ''n'' @ [quote_mark] @ '' \"$sep\" '' @ shellQuote (agent_id agent) @
        '' \"$sep\" '' @ shellQuote rel @ '' \"$sep\" \"$payload\"'',
      ''fi'']"

definition sweep_script :: "AgentName \<Rightarrow> string list" where
  "sweep_script agent =
     (let src = AGENT_INVENTORY_SOURCES agent
      in (case truthy_or_none (is_skillsDir src) of
            Some dir \<Rightarrow> if safe_rel_path dir then skill_script agent dir else []
          | None \<Rightarrow> []) @
         concat (map (mcp_script agent) (filter safe_rel_path (is_mcpJson src @ is_mcpToml src))))"

definition buildInventoryScript :: string where
  "buildInventoryScript =
     js_join newline
       ([''set -u'', ''sep=$(printf '' @ [quote_mark, backslash] @ ''t'' @ [quote_mark] @ '')'', ''home=\"${HOME:-/home/agent}\"''] @
        concat (map sweep_script AGENT_NAMES))"

section \<open>Skills\<close>

text \<open>The front matter of a \<open>SKILL.md\<close> ends at the first line that begins with three dashes.\<close>

fun frontmatter_body :: "string \<Rightarrow> string option" where
  "frontmatter_body s =
     (if js_starts_with s (newline @ ''---'') \<or> js_starts_with s (CHR 0x0D # newline @ ''---'') then Some []
      else case s of [] \<Rightarrow> None | c # cs \<Rightarrow> map_option ((#) c) (frontmatter_body cs))"

declare frontmatter_body.simps [simp del]

definition frontmatter_text :: "string \<Rightarrow> string option" where
  "frontmatter_text content =
     (if js_starts_with content (''---'' @ newline) then frontmatter_body (drop 4 content)
      else if js_starts_with content (''---'' @ CHR 0x0D # newline) then frontmatter_body (drop 5 content)
      else None)"

definition stripQuotes :: "string \<Rightarrow> string" where
  "stripQuotes v =
     (if 2 \<le> length v \<and> (hd v = CHR 0x22 \<and> last v = CHR 0x22 \<or> hd v = quote_mark \<and> last v = quote_mark) then butlast (tl v) else v)"

text \<open>\<open>/^key\s*:\s*(.*)$/\<close>; \<open>.\<close> does not match a carriage return.\<close>

definition frontmatter_value :: "string \<Rightarrow> string \<Rightarrow> string option" where
  "frontmatter_value key line =
     (if js_starts_with line key then
        (case dropWhile js_space (drop (length key) line) of
           [] \<Rightarrow> None
         | c # rest \<Rightarrow>
             (let v = dropWhile js_space rest
              in if c = CHR '':'' \<and> CHR 0x0D \<notin> set v then Some (stripQuotes (js_trim v)) else None))
      else None)"

definition first_value :: "string \<Rightarrow> string list \<Rightarrow> string option" where
  "first_value key lines = (case List.map_filter (frontmatter_value key) lines of [] \<Rightarrow> None | v # _ \<Rightarrow> Some v)"

definition parseFrontmatter :: "string \<Rightarrow> string option \<times> string option" where
  "parseFrontmatter content =
     (case frontmatter_text content of
        None \<Rightarrow> (None, None)
      | Some body \<Rightarrow> (first_value ''name'' (crlf_lines body), first_value ''description'' (crlf_lines body)))"

definition parseSkill :: "string \<Rightarrow> string \<Rightarrow> agent_skill option" where
  "parseSkill relPath content =
     (let dirSegments = butlast (filter (\<lambda>s. s \<noteq> []) (split_at (CHR ''/'') relPath)); (title, about) = parseFrontmatter content
      in if dirSegments = [] then None
         else let name = (case truthy_or_none (map_option js_trim title) of Some n \<Rightarrow> n | None \<Rightarrow> last dirSegments)
              in if name = [] then None
                 else Some \<lparr>ask_name = name, ask_namespace = (if length dirSegments > 1 then Some (hd dirSegments) else None),
                            ask_description = truthy_or_none (map_option js_trim about)\<rparr>)"

section \<open>MCP servers\<close>

text \<open>A parsed URL; \<open>uu_origin\<close> is what stands before the credentials and \<open>uu_host\<close> what follows them.\<close>

record mcp_url =
  uu_scheme :: string
  uu_username :: string
  uu_password :: string
  uu_host :: string
  uu_pathname :: string
  uu_search :: string
  uu_hash :: string

definition url_string :: "mcp_url \<Rightarrow> string" where
  "url_string u =
     uu_scheme u @
     (if uu_username u = [] \<and> uu_password u = [] then []
      else uu_username u @ (if uu_password u = [] then [] else CHR '':'' # uu_password u) @ ''@'') @
     uu_host u @ uu_pathname u @ uu_search u @ uu_hash u"

definition without_secrets :: "mcp_url \<Rightarrow> mcp_url" where
  "without_secrets u = u\<lparr>uu_username := [], uu_password := [], uu_search := [], uu_hash := []\<rparr>"

definition redactMcpUrl :: "(string \<Rightarrow> mcp_url option) \<Rightarrow> string \<Rightarrow> string option" where
  "redactMcpUrl url v =
     map_option (\<lambda>u. let s = url_string (without_secrets u)
                     in if s \<noteq> [] \<and> last s = CHR ''/'' \<and> uu_pathname u \<noteq> ''/'' then butlast s else s) (url v)"

definition object_field :: "json \<Rightarrow> string \<Rightarrow> json option" where
  "object_field v k = (case v of JObj r \<Rightarrow> json_field r k | _ \<Rightarrow> None)"

definition resolveTransport :: "json \<Rightarrow> DaemonMcpTransport" where
  "resolveTransport entry =
     (let declared = js_coalesce (json_string (object_field entry ''type'')) (json_string (object_field entry ''transport''))
      in if declared = Some ''sse'' then transport_sse
         else if declared = Some ''http'' \<or> declared = Some ''streamable-http'' then transport_http
         else if js_truthy (json_string (object_field entry ''url'')) then transport_http
         else transport_stdio)"

definition json_server :: "(string \<Rightarrow> mcp_url option) \<Rightarrow> string \<Rightarrow> json \<Rightarrow> agent_mcp_server" where
  "json_server url name entry =
     \<lparr>ams_name = name, ams_transport = resolveTransport entry,
      ams_command = truthy_or_none
        (case json_string (object_field entry ''command'') of
           Some c \<Rightarrow> Some c
         | None \<Rightarrow> Option.bind (json_string (object_field entry ''url'')) (redactMcpUrl url))\<rparr>"

text \<open>\<open>Object.entries\<close> of an object or an array.\<close>

definition object_entries :: "json option \<Rightarrow> (string \<times> json) list" where
  "object_entries v =
     (case v of Some (JObj r) \<Rightarrow> r | Some (JArr vs) \<Rightarrow> map (\<lambda>(i, w). (show_nat i, w)) (zip [0..<length vs] vs) | _ \<Rightarrow> [])"

definition is_object :: "json \<Rightarrow> bool" where
  "is_object v = (case v of JObj _ \<Rightarrow> True | JArr _ \<Rightarrow> True | _ \<Rightarrow> False)"

definition json_servers :: "json_parser \<Rightarrow> (string \<Rightarrow> mcp_url option) \<Rightarrow> string \<Rightarrow> agent_mcp_server list" where
  "json_servers parse url content =
     (case parse content of
        None \<Rightarrow> []
      | Some v \<Rightarrow>
          map (\<lambda>(name, entry). json_server url name entry)
            (filter (\<lambda>(name, entry). name \<noteq> [] \<and> is_object entry) (object_entries (object_field v ''mcpServers''))))"

text \<open>The tables \<open>[mcp_servers.name]\<close> of a TOML file.\<close>

definition toml_key_char :: "char \<Rightarrow> bool" where
  "toml_key_char c \<longleftrightarrow>
     (let n = (of_char c :: nat) in (65 \<le> n \<and> n \<le> 90) \<or> (97 \<le> n \<and> n \<le> 122) \<or> (48 \<le> n \<and> n \<le> 57) \<or> c = CHR ''_'' \<or> c = CHR ''-'')"

definition toml_section :: "string \<Rightarrow> string option" where
  "toml_section line =
     (if js_starts_with line ''[mcp_servers.'' \<and> last line = CHR '']'' then
        (let x = butlast (drop 13 line)
         in if 3 \<le> length x \<and> hd x = CHR 0x22 \<and> last x = CHR 0x22 \<and> CHR 0x22 \<notin> set (butlast (tl x)) then Some (butlast (tl x))
            else if x \<noteq> [] \<and> list_all toml_key_char x then Some x else None)
      else None)"

text \<open>\<open>(?:\\.|[^"])*"\<close>: an escaped character is taken as a pair first.\<close>

fun toml_quoted :: "string \<Rightarrow> string option" where
  "toml_quoted [] = None"
| "toml_quoted [c] = (if c = CHR 0x22 then Some [] else None)"
| "toml_quoted (c # d # s) =
     (if c = CHR 0x22 then Some []
      else case (if c = backslash \<and> d \<noteq> CHR 0x0A \<and> d \<noteq> CHR 0x0D then toml_quoted s else None) of
             Some v \<Rightarrow> Some (c # d # v)
           | None \<Rightarrow> map_option ((#) c) (toml_quoted (d # s)))"

fun toml_unescape :: "string \<Rightarrow> string" where
  "toml_unescape (c # d # s) = (if c = backslash \<and> d = CHR 0x22 then d # toml_unescape s else c # toml_unescape (d # s))"
| "toml_unescape s = s"

definition toml_single :: "string \<Rightarrow> string option" where
  "toml_single s = (if quote_mark \<in> set s then Some (takeWhile (\<lambda>c. c \<noteq> quote_mark) s) else None)"

definition toml_value :: "string \<Rightarrow> string \<Rightarrow> string option" where
  "toml_value key line =
     (if js_starts_with line key then
        (case dropWhile js_space (drop (length key) line) of
           [] \<Rightarrow> None
         | e # rest \<Rightarrow>
             if e \<noteq> CHR ''='' then None
             else case dropWhile js_space rest of
                    [] \<Rightarrow> None
                  | q # v \<Rightarrow>
                      if q = CHR 0x22 then map_option toml_unescape (toml_quoted v)
                      else if q = quote_mark then toml_single v else None)
      else None)"

record toml_server =
  ts_name :: string
  ts_command :: "string option"
  ts_url :: "string option"

definition toml_entry :: "(string \<Rightarrow> mcp_url option) \<Rightarrow> toml_server \<Rightarrow> agent_mcp_server" where
  "toml_entry url e =
     (let u = truthy_or_none (ts_url e)
      in \<lparr>ams_name = ts_name e, ams_transport = (if u \<noteq> None then transport_http else transport_stdio),
          ams_command = truthy_or_none (js_coalesce (ts_command e) (Option.bind u (redactMcpUrl url)))\<rparr>)"

definition toml_flush :: "(string \<Rightarrow> mcp_url option) \<Rightarrow> toml_server option \<Rightarrow> agent_mcp_server list" where
  "toml_flush url current = (case current of None \<Rightarrow> [] | Some e \<Rightarrow> [toml_entry url e])"

fun toml_lines :: "(string \<Rightarrow> mcp_url option) \<Rightarrow> toml_server option \<Rightarrow> string list \<Rightarrow> agent_mcp_server list" where
  "toml_lines url current [] = toml_flush url current"
| "toml_lines url current (raw # rest) =
     (let line = js_trim raw
      in case toml_section line of
           Some name \<Rightarrow> toml_flush url current @ toml_lines url (Some \<lparr>ts_name = name, ts_command = None, ts_url = None\<rparr>) rest
         | None \<Rightarrow>
             if js_starts_with line ''['' then toml_flush url current @ toml_lines url None rest
             else if current = None \<or> line = [] \<or> js_starts_with line ''#'' then toml_lines url current rest
             else case toml_value ''command'' line of
                    Some v \<Rightarrow> toml_lines url (map_option (ts_command_update (\<lambda>_. Some v)) current) rest
                  | None \<Rightarrow>
                      (case toml_value ''url'' line of
                         Some v \<Rightarrow> toml_lines url (map_option (ts_url_update (\<lambda>_. Some v)) current) rest
                       | None \<Rightarrow> toml_lines url current rest))"

definition parseTomlMcpServers :: "(string \<Rightarrow> mcp_url option) \<Rightarrow> string \<Rightarrow> agent_mcp_server list" where
  "parseTomlMcpServers url content = toml_lines url None (crlf_lines content)"

definition parseMcpServers :: "json_parser \<Rightarrow> (string \<Rightarrow> mcp_url option) \<Rightarrow> string \<Rightarrow> string \<Rightarrow> agent_mcp_server list" where
  "parseMcpServers parse url path content =
     (if js_ends_with path ''.toml'' then parseTomlMcpServers url content else json_servers parse url content)"

section \<open>The inventory\<close>

definition skill_key :: "agent_skill \<Rightarrow> string" where
  "skill_key s = or_empty (ask_namespace s) @ CHR ''/'' # ask_name s"

definition dedupeSkills :: "collation \<Rightarrow> agent_skill list \<Rightarrow> agent_skill list" where
  "dedupeSkills co skills = js_sort (\<lambda>a b. co_plain co (ask_name a) (ask_name b)) (first_by skill_key [] skills)"

definition dedupeMcpServers :: "collation \<Rightarrow> agent_mcp_server list \<Rightarrow> agent_mcp_server list" where
  "dedupeMcpServers co servers = js_sort (\<lambda>a b. co_plain co (ams_name a) (ams_name b)) (first_by ams_name [] servers)"

definition agent_named :: "string \<Rightarrow> AgentName option" where
  "agent_named s = List.find (\<lambda>a. agent_id a = s) AGENT_NAMES"

definition trim_end :: "string \<Rightarrow> string" where
  "trim_end s = rev (dropWhile js_space (rev s))"

datatype inventory_item = SkillItem agent_skill | ServerItem agent_mcp_server

definition record_items :: "json_parser \<Rightarrow> (string \<Rightarrow> mcp_url option) \<Rightarrow> string \<Rightarrow> string \<Rightarrow> string \<Rightarrow> inventory_item list" where
  "record_items parse url kind i content =
     (if kind = ''SKILL'' then (case parseSkill i content of Some s \<Rightarrow> [SkillItem s] | None \<Rightarrow> [])
      else if kind = ''MCP'' then map ServerItem (parseMcpServers parse url i content)
      else [])"

text \<open>A record is read when it names an agent and its path and payload are not empty.\<close>

definition line_items :: "json_parser \<Rightarrow> (string \<Rightarrow> mcp_url option) \<Rightarrow> string \<Rightarrow> (AgentName \<times> inventory_item) list" where
  "line_items parse url raw =
     (case split_at (CHR 0x09) (trim_end raw) of
        kind # agent # i # payload # _ \<Rightarrow>
          (case agent_named agent of
             Some a \<Rightarrow>
               if i = [] \<or> payload = [] then []
               else map (Pair a) (record_items parse url kind i (utf8_text (base64_bytes payload)))
           | None \<Rightarrow> [])
      | _ \<Rightarrow> [])"

definition add_item :: "AgentName \<times> inventory_item \<Rightarrow> (AgentName \<rightharpoonup> agent_inventory) \<Rightarrow> (AgentName \<rightharpoonup> agent_inventory)" where
  "add_item x m =
     (case x of (a, item) \<Rightarrow>
        (let entry = (case m a of Some e \<Rightarrow> e | None \<Rightarrow> \<lparr>inv_skills = [], inv_mcpServers = []\<rparr>)
         in m(a \<mapsto> (case item of
                         SkillItem s \<Rightarrow> entry\<lparr>inv_skills := inv_skills entry @ [s]\<rparr>
                       | ServerItem s \<Rightarrow> entry\<lparr>inv_mcpServers := inv_mcpServers entry @ [s]\<rparr>))))"

definition inventory_of :: "collation \<Rightarrow> (AgentName \<times> inventory_item) list \<Rightarrow> (AgentName \<rightharpoonup> agent_inventory)" where
  "inventory_of co items =
     (\<lambda>a. map_option (\<lambda>e. e\<lparr>inv_skills := dedupeSkills co (inv_skills e), inv_mcpServers := dedupeMcpServers co (inv_mcpServers e)\<rparr>)
            (fold add_item items Map.empty a))"

definition parseInventoryOutput ::
  "json_parser \<Rightarrow> (string \<Rightarrow> mcp_url option) \<Rightarrow> collation \<Rightarrow> string \<Rightarrow> (AgentName \<rightharpoonup> agent_inventory)" where
  "parseInventoryOutput parse url co stdout =
     inventory_of co (concat (map (line_items parse url) (split_at (CHR 0x0A) stdout)))"

text \<open>The sweep itself: \<open>exec\<close> runs a script under \<open>bash -c\<close>, \<open>None\<close> is a thrown error or a timeout.\<close>

definition discoverAgentInventory ::
  "json_parser \<Rightarrow> (string \<Rightarrow> mcp_url option) \<Rightarrow> collation \<Rightarrow> (string \<Rightarrow> 'w \<Rightarrow> (int \<times> string) option \<times> 'w) \<Rightarrow> bool \<Rightarrow> 'w \<Rightarrow>
   (AgentName \<rightharpoonup> agent_inventory) \<times> 'w" where
  "discoverAgentInventory parse url co exec aborted w =
     (if aborted then (Map.empty, w)
      else case exec buildInventoryScript w of
             (Some (code, stdout), v) \<Rightarrow> (if code \<noteq> 0 then Map.empty else parseInventoryOutput parse url co stdout, v)
           | (None, v) \<Rightarrow> (Map.empty, v))"

section \<open>The records are read back\<close>





lemma base64_Nil [simp]: "base64 bs = [] \<longleftrightarrow> bs = []"
  by (cases bs rule: sextets.cases) (simp_all add: base64_def)



lemma agent_named_id [simp]: "agent_named (agent_id a) = Some a"
  by (cases a) (simp_all add: agent_named_def AGENT_NAMES_def)

lemma utf8_Nil [simp]: "utf8_bytes s = [] \<longleftrightarrow> s = []"
  by (cases s) (simp_all add: utf8_bytes_def Let_def)




lemma line_items_Nil [simp]: "line_items parse url [] = []"
  by (simp add: line_items_def trim_end_def)



section \<open>No credentials\<close>

lemma redact_without_secrets: "redactMcpUrl (\<lambda>s. map_option without_secrets (url s)) = redactMcpUrl url"
  by (rule ext) (simp add: redactMcpUrl_def without_secrets_def option.map_comp comp_def)

lemma toml_flush_cong: "redactMcpUrl u = redactMcpUrl v \<Longrightarrow> toml_flush u = toml_flush v"
  by (intro ext) (simp add: toml_flush_def toml_entry_def Let_def split: option.split)

lemma toml_lines_cong:
  assumes "redactMcpUrl u = redactMcpUrl v"
  shows "toml_lines u current ls = toml_lines v current ls"
proof (induction ls arbitrary: current)
  case Nil
  show ?case by (simp only: toml_lines.simps toml_flush_cong [OF assms])
next
  case (Cons l ls)
  show ?case by (simp only: toml_lines.simps toml_flush_cong [OF assms] Cons.IH)
qed

lemma json_servers_cong:
  assumes "redactMcpUrl u = redactMcpUrl v"
  shows "json_servers parse u content = json_servers parse v content"
proof -
  have "json_server u = json_server v" by (intro ext) (simp add: json_server_def assms split: option.split)
  then show ?thesis unfolding json_servers_def by metis
qed

lemma line_items_cong:
  assumes "redactMcpUrl u = redactMcpUrl v"
  shows "line_items parse u = line_items parse v"
proof -
  have "parseMcpServers parse u = parseMcpServers parse v"
    by (intro ext) (simp only: parseMcpServers_def parseTomlMcpServers_def toml_lines_cong [OF assms] json_servers_cong [OF assms])
  then have "record_items parse u = record_items parse v" by (intro ext) (simp add: record_items_def)
  then show ?thesis unfolding line_items_def by metis
qed

text \<open>What a node reports does not depend on user names, passwords, queries or fragments of the server URLs in its
configuration files, whatever the files hold.\<close>

theorem inventory_hides_credentials:
  "parseInventoryOutput parse (\<lambda>s. map_option without_secrets (url s)) co stdout = parseInventoryOutput parse url co stdout"
  using line_items_cong [OF redact_without_secrets] by (simp add: parseInventoryOutput_def)

section \<open>What is reported\<close>

lemma skill_key_eq:
  assumes "skill_key s = skill_key t" and "list_all (\<lambda>s. case ask_namespace s of Some n \<Rightarrow> n \<noteq> [] \<and> CHR ''/'' \<notin> set n | None \<Rightarrow> True) [s, t]"
  shows "ask_namespace s = ask_namespace t \<and> ask_name s = ask_name t"
  using assms by (auto simp: skill_key_def or_empty_def append_eq_append_conv2 Cons_eq_append_conv append_eq_Cons_conv split: option.splits)

definition skills_of :: "AgentName \<Rightarrow> (AgentName \<times> inventory_item) list \<Rightarrow> agent_skill list" where
  "skills_of a items = List.map_filter (\<lambda>(b, x). case x of SkillItem s \<Rightarrow> if b = a then Some s else None | _ \<Rightarrow> None) items"

definition servers_of :: "AgentName \<Rightarrow> (AgentName \<times> inventory_item) list \<Rightarrow> agent_mcp_server list" where
  "servers_of a items = List.map_filter (\<lambda>(b, x). case x of ServerItem s \<Rightarrow> if b = a then Some s else None | _ \<Rightarrow> None) items"

lemma items_of_simps [simp]:
  "skills_of a [] = []" "servers_of a [] = []"
  "skills_of a ((b, SkillItem s) # items) = (if b = a then s # skills_of a items else skills_of a items)"
  "skills_of a ((b, ServerItem t) # items) = skills_of a items"
  "servers_of a ((b, SkillItem s) # items) = servers_of a items"
  "servers_of a ((b, ServerItem t) # items) = (if b = a then t # servers_of a items else servers_of a items)"
  by (simp_all add: skills_of_def servers_of_def List.map_filter_simps)







text \<open>Two skills have the same key exactly when they have the same namespace and name.\<close>

lemma split_at_part: "p \<in> set (split_at d s) \<Longrightarrow> d \<notin> set p"
  by (induction s arbitrary: p) (auto split: if_splits list.splits)

lemma parsed_namespace:
  assumes "parseSkill i content = Some s"
  shows "case ask_namespace s of Some n \<Rightarrow> n \<noteq> [] \<and> CHR ''/'' \<notin> set n | None \<Rightarrow> True"
proof -
  let ?d = "butlast (filter (\<lambda>s. s \<noteq> []) (split_at (CHR ''/'') i))"
  have "hd ?d \<noteq> [] \<and> CHR ''/'' \<notin> set (hd ?d)" if "?d \<noteq> []"
    using in_set_butlastD [OF hd_in_set [OF that]] split_at_part by auto
  then show ?thesis using assms by (auto simp: parseSkill_def Let_def split: prod.splits if_splits)
qed


text \<open>A comment behind the header of a TOML table hides its server.\<close>

lemma toml_comment_hides_server: "parseTomlMcpServers url (''[mcp_servers.a] # local'' @ newline @ ''command = \"x\"'') = []"
  by (simp add: parseTomlMcpServers_def crlf_lines_def newline_def drop_return_def js_trim_def js_space_def toml_section_def toml_flush_def Let_def)

end
