(* ===== verification/Node_Identity.thy ===== *)
theory Node_Identity
  imports Agent_Home
begin

text \<open>
  The persistent identities of a computer: the token of a daemon node (\<open>packages/relay-core/src/daemon-node-token.ts\<close>) and the
  machine id (\<open>machine-id.ts\<close>). Files are an explicit store of contents and modes, any call of the file system may fail, and a
  failing write may leave anything behind.
\<close>

section \<open>The file system\<close>

datatype file_call = MakeDir string | ChangeMode string | ReadFile string | WriteFile string | Unlink string

record disk_fault =
  df_error :: fs_error
  df_left :: "string option"

record node_disk =
  nd_files :: "string \<rightharpoonup> string \<times> int"
  nd_dirs :: "string \<rightharpoonup> int"
  nd_calls :: nat

record disk_env =
  de_fault :: "nat \<Rightarrow> file_call \<Rightarrow> disk_fault option"
  de_random :: "nat \<Rightarrow> nat list"

type_synonym 'a disk_effect = "(node_disk, fs_error, 'a) effect"

definition put_file :: "string \<Rightarrow> string \<Rightarrow> int \<Rightarrow> node_disk \<Rightarrow> node_disk" where
  "put_file p v mode s =
     s\<lparr>nd_files := (nd_files s)(p \<mapsto> (v, case nd_files s p of Some (_, m) \<Rightarrow> m | None \<Rightarrow> mode))\<rparr>"

definition disk_call :: "disk_env \<Rightarrow> file_call \<Rightarrow> 'a disk_effect \<Rightarrow> 'a disk_effect" where
  "disk_call env c m s =
     (let t = s\<lparr>nd_calls := Suc (nd_calls s)\<rparr>
      in case de_fault env (nd_calls s) c of
           None \<Rightarrow> m t
         | Some f \<Rightarrow>
             (Inl (df_error f),
              case c of
                WriteFile p \<Rightarrow> (case df_left f of Some v \<Rightarrow> put_file p v 384 t | None \<Rightarrow> t)
              | _ \<Rightarrow> t))"

definition read_file :: "disk_env \<Rightarrow> string \<Rightarrow> string disk_effect" where
  "read_file env p = disk_call env (ReadFile p) (\<lambda>s. case nd_files s p of Some (v, _) \<Rightarrow> (Inr v, s) | None \<Rightarrow> (Inl ENOENT, s))"

definition write_file :: "disk_env \<Rightarrow> string \<Rightarrow> string \<Rightarrow> int \<Rightarrow> unit disk_effect" where
  "write_file env p v mode = disk_call env (WriteFile p) (eff_modify (put_file p v mode))"

definition unlink_file :: "disk_env \<Rightarrow> string \<Rightarrow> unit disk_effect" where
  "unlink_file env p =
     disk_call env (Unlink p)
       (\<lambda>s. if nd_files s p = None then (Inl ENOENT, s) else (Inr (), s\<lparr>nd_files := (nd_files s)(p := None)\<rparr>))"

definition make_dir :: "disk_env \<Rightarrow> string \<Rightarrow> int \<Rightarrow> unit disk_effect" where
  "make_dir env p mode =
     disk_call env (MakeDir p)
       (\<lambda>s. if nd_files s p \<noteq> None then (Inl (FsError ''EEXIST''), s)
             else (Inr (), s\<lparr>nd_dirs := (nd_dirs s)(p \<mapsto> (case nd_dirs s p of Some m \<Rightarrow> m | None \<Rightarrow> mode))\<rparr>))"

definition change_mode :: "disk_env \<Rightarrow> string \<Rightarrow> int \<Rightarrow> unit disk_effect" where
  "change_mode env p mode =
     disk_call env (ChangeMode p)
       (\<lambda>s. case nd_files s p of
              Some (v, _) \<Rightarrow> (Inr (), s\<lparr>nd_files := (nd_files s)(p \<mapsto> (v, mode))\<rparr>)
            | None \<Rightarrow> if nd_dirs s p = None then (Inl ENOENT, s) else (Inr (), s\<lparr>nd_dirs := (nd_dirs s)(p \<mapsto> mode)\<rparr>))"

section \<open>The token of a node\<close>

datatype token_source = token_explicit | token_file | token_generated

record token_resolution =
  tr_token :: string
  tr_source :: token_source
  tr_path :: "string option"

record token_input =
  ti_credentialDirectory :: string
  ti_legacyWorkspacePath :: "string option"
  ti_employeeId :: string
  ti_token :: "string option"

definition file_name_char :: "char \<Rightarrow> bool" where
  "file_name_char c \<longleftrightarrow>
     (let n = (of_char c :: nat) in (65 \<le> n \<and> n \<le> 90) \<or> (97 \<le> n \<and> n \<le> 122) \<or> (48 \<le> n \<and> n \<le> 57) \<or> c \<in> set ''._-'')"

definition safeTokenFileName :: "string \<Rightarrow> string" where
  "safeTokenFileName v =
     (let safe = map (\<lambda>c. if file_name_char c then c else CHR ''_'') (js_trim v) in if safe = [] then ''local'' else safe)"

definition daemonNodeTokenPath :: "string \<Rightarrow> string \<Rightarrow> string" where
  "daemonNodeTokenPath credentialDirectory employeeId = path_join credentialDirectory (safeTokenFileName employeeId @ ''.token'')"

text \<open>A missing file reads as nothing; other errors are thrown.\<close>

definition read_trimmed :: "disk_env \<Rightarrow> string \<Rightarrow> string option disk_effect" where
  "read_trimmed env p =
     eff_bind (eff_try (read_file env p))
       (\<lambda>r. case r of
              Inr v \<Rightarrow> eff_return (truthy_or_none (Some (js_trim v)))
            | Inl e \<Rightarrow> if e = ENOENT then eff_return None else eff_throw e)"

definition readDaemonNodeToken :: "disk_env \<Rightarrow> string \<Rightarrow> string \<Rightarrow> string option disk_effect" where
  "readDaemonNodeToken env credentialDirectory employeeId = read_trimmed env (daemonNodeTokenPath credentialDirectory employeeId)"

definition writeDaemonNodeToken :: "disk_env \<Rightarrow> string \<Rightarrow> string \<Rightarrow> string \<Rightarrow> string disk_effect" where
  "writeDaemonNodeToken env credentialDirectory employeeId token =
     (let path = daemonNodeTokenPath credentialDirectory employeeId
      in eff_bind (make_dir env credentialDirectory 448) (\<lambda>_.
         eff_bind (change_mode env credentialDirectory 448) (\<lambda>_.
         eff_bind (write_file env path (js_trim token @ newline) 384) (\<lambda>_.
         eff_bind (change_mode env path 384) (\<lambda>_.
         eff_return path)))))"

definition newDaemonNodeToken :: "disk_env \<Rightarrow> string disk_effect" where
  "newDaemonNodeToken env s = (Inr (''tok_'' @ base64url (de_random env (nd_calls s))), s\<lparr>nd_calls := Suc (nd_calls s)\<rparr>)"

definition legacyTokenPath :: "token_input \<Rightarrow> string option" where
  "legacyTokenPath i =
     map_option (\<lambda>w. path_join w (''.relay/daemon-nodes/'' @ safeTokenFileName (ti_employeeId i) @ ''.token''))
       (truthy_or_none (ti_legacyWorkspacePath i))"

definition readLegacyToken :: "disk_env \<Rightarrow> token_input \<Rightarrow> string option disk_effect" where
  "readLegacyToken env i = (case legacyTokenPath i of None \<Rightarrow> eff_return None | Some p \<Rightarrow> read_trimmed env p)"

definition removeLegacyToken :: "disk_env \<Rightarrow> token_input \<Rightarrow> unit disk_effect" where
  "removeLegacyToken env i =
     (case legacyTokenPath i of
        None \<Rightarrow> eff_return ()
      | Some p \<Rightarrow> eff_catch (unlink_file env p) (\<lambda>e. if e = ENOENT then eff_return () else eff_throw e))"

definition ensureDaemonNodeToken :: "disk_env \<Rightarrow> token_input \<Rightarrow> token_resolution disk_effect" where
  "ensureDaemonNodeToken env i =
     (let dir = ti_credentialDirectory i; path = daemonNodeTokenPath dir (ti_employeeId i)
      in case truthy_or_none (map_option js_trim (ti_token i)) of
           Some explicit \<Rightarrow>
             eff_bind (writeDaemonNodeToken env dir (ti_employeeId i) explicit) (\<lambda>_.
             eff_bind (removeLegacyToken env i) (\<lambda>_.
             eff_return \<lparr>tr_token = explicit, tr_source = token_explicit, tr_path = None\<rparr>))
         | None \<Rightarrow>
             eff_bind (readDaemonNodeToken env dir (ti_employeeId i)) (\<lambda>existing.
               case existing of
                 Some tok \<Rightarrow> eff_return \<lparr>tr_token = tok, tr_source = token_file, tr_path = Some path\<rparr>
               | None \<Rightarrow>
                   eff_bind (readLegacyToken env i) (\<lambda>legacy.
                     case legacy of
                       Some tok \<Rightarrow>
                         eff_bind (writeDaemonNodeToken env dir (ti_employeeId i) tok) (\<lambda>_.
                         eff_bind (removeLegacyToken env i) (\<lambda>_.
                         eff_return \<lparr>tr_token = tok, tr_source = token_file, tr_path = Some path\<rparr>))
                     | None \<Rightarrow>
                         eff_bind (newDaemonNodeToken env) (\<lambda>tok.
                         eff_bind (writeDaemonNodeToken env dir (ti_employeeId i) tok) (\<lambda>_.
                         eff_return \<lparr>tr_token = tok, tr_source = token_generated, tr_path = Some path\<rparr>)))))"

section \<open>The id of a machine\<close>

datatype machine_source = machine_explicit | machine_file | machine_generated | machine_fallback

record machine_resolution =
  mr_machineId :: string
  mr_source :: machine_source
  mr_path :: "string option"

definition machineIdPath :: "string \<Rightarrow> string" where
  "machineIdPath home = path_join home ''.relay/machine-id''"

definition readMachineId :: "disk_env \<Rightarrow> string \<Rightarrow> string option disk_effect" where
  "readMachineId env home = read_trimmed env (machineIdPath home)"

definition newMachineId :: "disk_env \<Rightarrow> string disk_effect" where
  "newMachineId env s = (Inr (''mch_'' @ base64url (de_random env (nd_calls s))), s\<lparr>nd_calls := Suc (nd_calls s)\<rparr>)"

definition sanitizeHostname :: "string \<Rightarrow> string" where
  "sanitizeHostname v =
     (let safe = map (\<lambda>c. if file_name_char c \<and> \<not> (65 \<le> (of_char c :: nat) \<and> (of_char c :: nat) \<le> 90) then c else CHR ''_'')
                   (map js_lower (js_trim v))
      in if safe = [] then ''local'' else safe)"

definition ensureMachineId :: "disk_env \<Rightarrow> string \<Rightarrow> string option \<Rightarrow> string \<Rightarrow> machine_resolution disk_effect" where
  "ensureMachineId env hostname explicit home =
     (case truthy_or_none (map_option js_trim explicit) of
        Some provided \<Rightarrow> eff_return \<lparr>mr_machineId = provided, mr_source = machine_explicit, mr_path = None\<rparr>
      | None \<Rightarrow>
          (let path = machineIdPath home
           in eff_catch
                (eff_bind (readMachineId env home) (\<lambda>existing.
                   case existing of
                     Some i \<Rightarrow> eff_return \<lparr>mr_machineId = i, mr_source = machine_file, mr_path = Some path\<rparr>
                   | None \<Rightarrow>
                       eff_bind (newMachineId env) (\<lambda>generated.
                       eff_bind (make_dir env (path_join home ''.relay'') 511) (\<lambda>_.
                       eff_bind (write_file env path (generated @ newline) 384) (\<lambda>_.
                       eff_bind (change_mode env path 384) (\<lambda>_.
                       eff_return \<lparr>mr_machineId = generated, mr_source = machine_generated, mr_path = Some path\<rparr>))))))
                (\<lambda>_. eff_return \<lparr>mr_machineId = ''host_'' @ sanitizeHostname hostname, mr_source = machine_fallback, mr_path = None\<rparr>)))"

section \<open>What the calls leave\<close>

lemmas disk_defs = eff_defs eff_try_def disk_call_def read_file_def write_file_def unlink_file_def make_dir_def change_mode_def put_file_def Let_def

lemma trim_cases: "js_trim s = [] \<or> \<not> js_space (hd (js_trim s)) \<and> \<not> js_space (last (js_trim s))"
proof -
  let ?d = "dropWhile js_space s"
  let ?e = "dropWhile js_space (rev ?d)"
  have "\<not> js_space (hd ?e) \<and> \<not> js_space (last ?e)" if "?e \<noteq> []"
  proof -
    have "last ?e = last (rev ?d)" using that by (metis append_is_Nil_conv last_appendR takeWhile_dropWhile_id)
    moreover have "?d \<noteq> []" using that by (metis dropWhile.simps(1) rev.simps(1))
    ultimately show ?thesis using that hd_dropWhile [of js_space] by (simp add: last_rev)
  qed
  then show ?thesis by (auto simp: js_trim_def hd_rev last_rev)
qed

lemma trim_plain: "s = [] \<or> \<not> js_space (hd s) \<and> \<not> js_space (last s) \<Longrightarrow> js_trim s = s"
proof -
  assume s: "s = [] \<or> \<not> js_space (hd s) \<and> \<not> js_space (last s)"
  then have "dropWhile js_space s = s" "dropWhile js_space (rev s) = rev s" by (auto simp: dropWhile_eq_self_iff hd_rev)
  then show ?thesis by (simp add: js_trim_def)
qed

lemma trim_trim [simp]: "js_trim (js_trim s) = js_trim s"
  using trim_cases by (rule trim_plain)

lemma trim_newline [simp]: "js_trim (js_trim s @ newline) = js_trim s"
proof (cases "js_trim s = []")
  case False
  then have ends: "\<not> js_space (hd (js_trim s))" "\<not> js_space (last (js_trim s))" using trim_cases [of s] by auto
  let ?t = "js_trim s"
  have "dropWhile js_space (?t @ newline) = ?t @ newline" using ends False by (simp add: dropWhile_eq_self_iff)
  moreover have "dropWhile js_space (rev (?t @ newline)) = rev ?t"
    using ends False by (simp add: newline_def js_space_def [of "CHR 0x0A"] dropWhile_eq_self_iff hd_rev)
  ultimately show ?thesis unfolding js_trim_def [of "?t @ newline"] by simp
next
  case True
  then show ?thesis by (simp add: newline_def) (simp add: js_trim_def js_space_def)
qed

lemma read_trimmed_ok:
  assumes "read_trimmed env p s = (Inr r, t)"
  shows "nd_files t = nd_files s \<and> (\<forall>v. r = Some v \<longrightarrow> v \<noteq> [] \<and> (\<exists>w m. nd_files s p = Some (w, m) \<and> js_trim w = v))"
  using assms by (auto simp: read_trimmed_def disk_defs truthy_or_none_def split: prod.splits sum.splits option.splits if_splits)

lemma read_trimmed_again:
  assumes "nd_files s p = Some (w, m)" and "js_trim w \<noteq> []" and "de_fault env (nd_calls s) (ReadFile p) = None"
  shows "read_trimmed env p s = (Inr (Some (js_trim w)), s\<lparr>nd_calls := Suc (nd_calls s)\<rparr>)"
  using assms by (simp add: read_trimmed_def disk_defs truthy_or_none_def)

lemma write_token_ok:
  assumes "writeDaemonNodeToken env dir emp tok s = (Inr p, t)"
  shows "nd_files t = (nd_files s)(daemonNodeTokenPath dir emp \<mapsto> (js_trim tok @ newline, 384))"
  using assms by (auto simp: writeDaemonNodeToken_def disk_defs split: prod.splits sum.splits option.splits if_splits)

lemma remove_legacy_ok:
  assumes "removeLegacyToken env i s = (Inr u, t)" and "legacyTokenPath i \<noteq> Some p"
  shows "nd_files t p = nd_files s p"
  using assms by (auto simp: removeLegacyToken_def disk_defs split: prod.splits sum.splits option.splits if_splits)


lemma token_no_space: "list_all (\<lambda>b. b < 256) bs \<Longrightarrow> c \<in> set (base64url bs) \<Longrightarrow> \<not> js_space c"
proof -
  have "list_all (\<lambda>c. \<not> js_space c) base64url_alphabet" by code_simp
  then show "list_all (\<lambda>b. b < 256) bs \<Longrightarrow> c \<in> set (base64url bs) \<Longrightarrow> \<not> js_space c"
    using base64url_chars [of bs c] by (auto simp: list_all_iff)
qed

lemma new_token_plain:
  assumes "list_all (\<lambda>b. b < 256) bs" and "head \<noteq> []" "list_all (\<lambda>c. \<not> js_space c) head"
  shows "js_trim (head @ base64url bs) = head @ base64url bs"
proof (rule trim_plain)
  have "\<not> js_space c" if "c \<in> set (head @ base64url bs)" for c
    using that token_no_space [OF assms(1)] assms(3) by (auto simp: list_all_iff)
  then show "head @ base64url bs = [] \<or> \<not> js_space (hd (head @ base64url bs)) \<and> \<not> js_space (last (head @ base64url bs))"
    using assms(2) by (metis append_is_Nil_conv hd_in_set last_in_set)
qed

section \<open>Identities are stable\<close>

lemma token_stored:
  assumes start: "ensureDaemonNodeToken env i s = (Inr r, t)" and bytes: "\<forall>n. list_all (\<lambda>b. b < 256) (de_random env n)"
    and path: "path = daemonNodeTokenPath (ti_credentialDirectory i) (ti_employeeId i)" "legacyTokenPath i \<noteq> Some path"
  shows "\<exists>v m. nd_files t path = Some (v, m) \<and> js_trim v = tr_token r \<and> tr_token r \<noteq> [] \<and> (nd_files t path = nd_files s path \<or> m = 384)"
proof -
  let ?dir = "ti_credentialDirectory i"
  have written: "nd_files w path = Some (js_trim tok @ newline, 384)"
    if "writeDaemonNodeToken env ?dir (ti_employeeId i) tok v = (Inr p, v')" "removeLegacyToken env i v' = (Inr x, w)" for tok v v' w p x
    using write_token_ok [OF that(1)] remove_legacy_ok [OF that(2) path(2)] by (simp add: path(1))
  show ?thesis
  proof (cases "truthy_or_none (map_option js_trim (ti_token i))")
    case (Some tok)
    then have tok: "js_trim tok = tok" "tok \<noteq> []"
      by (cases "ti_token i"; auto simp: truthy_or_none_def split: if_splits)+
    obtain p v x where "writeDaemonNodeToken env ?dir (ti_employeeId i) tok s = (Inr p, v)" "removeLegacyToken env i v = (Inr x, t)"
        "tr_token r = tok"
      using start by (auto simp: ensureDaemonNodeToken_def Let_def Some eff_bind_def eff_return_def split: prod.splits sum.splits)
    then show ?thesis using written tok trim_newline [of tok] by auto
  next
    case None
    obtain e v where read: "readDaemonNodeToken env ?dir (ti_employeeId i) s = (Inr e, v)"
      using start by (auto simp: ensureDaemonNodeToken_def Let_def None eff_bind_def split: prod.splits sum.splits)
    note read_ok = read_trimmed_ok [OF read [unfolded readDaemonNodeToken_def]]
    show ?thesis
    proof (cases e)
      case (Some tok)
      then have "t = v" "tr_token r = tok"
        using start read by (auto simp: ensureDaemonNodeToken_def Let_def None eff_bind_def eff_return_def)
      then show ?thesis using read_ok Some by (auto simp: path(1))
    next
      case no_file: None
      obtain l w where legacy: "readLegacyToken env i v = (Inr l, w)"
        using start read no_file by (auto simp: ensureDaemonNodeToken_def Let_def None eff_bind_def split: prod.splits sum.splits)
      show ?thesis
      proof (cases l)
        case (Some tok)
        then have tok: "js_trim tok = tok" "tok \<noteq> []"
          using legacy by (auto simp: readLegacyToken_def eff_return_def split: option.splits dest!: read_trimmed_ok)
        obtain p v' x where "writeDaemonNodeToken env ?dir (ti_employeeId i) tok w = (Inr p, v')"
            "removeLegacyToken env i v' = (Inr x, t)" "tr_token r = tok"
          using start read no_file legacy Some
          by (auto simp: ensureDaemonNodeToken_def Let_def None eff_bind_def eff_return_def split: prod.splits sum.splits)
        then show ?thesis using written tok trim_newline [of tok] by auto
      next
        case no_legacy: None
        let ?tok = "''tok_'' @ base64url (de_random env (nd_calls w))"
        have tok: "js_trim ?tok = ?tok" using bytes by (intro new_token_plain) (simp_all add: js_space_def)
        obtain p v' where "writeDaemonNodeToken env ?dir (ti_employeeId i) ?tok v' = (Inr p, t)" "tr_token r = ?tok"
          using start read no_file legacy no_legacy
          by (auto simp: ensureDaemonNodeToken_def newDaemonNodeToken_def Let_def None eff_bind_def eff_return_def split: prod.splits sum.splits)
        then show ?thesis using write_token_ok tok trim_newline [of ?tok] by (auto simp: path(1))
      qed
    qed
  qed
qed

text \<open>C35. The token a daemon starts with is in its credential file when start-up succeeds, whichever calls of the file system fail on
the way: the file is unchanged or was written for the owner alone, and as long as it stays the next start without an explicit token
gets the same token.\<close>

theorem node_token_kept:
  assumes start: "ensureDaemonNodeToken env i s = (Inr r, t)" and bytes: "\<forall>n. list_all (\<lambda>b. b < 256) (de_random env n)"
    and path: "path = daemonNodeTokenPath (ti_credentialDirectory i) (ti_employeeId i)" "legacyTokenPath i \<noteq> Some path"
    and later: "nd_files u path = nd_files t path" "de_fault env' (nd_calls u) (ReadFile path) = None"
  shows "(nd_files t path = nd_files s path \<or> (\<exists>v. nd_files t path = Some (v, 384))) \<and>
         fst (ensureDaemonNodeToken env' (i\<lparr>ti_token := None\<rparr>) u) = Inr \<lparr>tr_token = tr_token r, tr_source = token_file, tr_path = Some path\<rparr>"
proof -
  let ?dir = "ti_credentialDirectory i"
  from token_stored [OF start bytes path]
  obtain v m where kept: "nd_files t path = Some (v, m)" "js_trim v = tr_token r" "js_trim v \<noteq> []"
      and mode: "nd_files t path = nd_files s path \<or> m = 384" by auto
  have "readDaemonNodeToken env' ?dir (ti_employeeId i) u = (Inr (Some (tr_token r)), u\<lparr>nd_calls := Suc (nd_calls u)\<rparr>)"
    using read_trimmed_again [of u path v m env'] kept later by (simp add: readDaemonNodeToken_def path(1))
  then show ?thesis
    using kept mode by (auto simp: ensureDaemonNodeToken_def Let_def eff_bind_def eff_return_def truthy_or_none_def path(1))
qed

text \<open>The witness: a first start on an empty disk.\<close>

definition calm_disk :: disk_env where
  "calm_disk = \<lparr>de_fault = (\<lambda>_ _. None), de_random = (\<lambda>_. [0, 0, 0])\<rparr>"

definition first_input :: token_input where
  "first_input = \<lparr>ti_credentialDirectory = ''/c'', ti_legacyWorkspacePath = None, ti_employeeId = ''e'', ti_token = Some ''secret''\<rparr>"

definition first_start :: node_disk where
  "first_start = snd (ensureDaemonNodeToken calm_disk first_input \<lparr>nd_files = Map.empty, nd_dirs = Map.empty, nd_calls = 0\<rparr>)"

theorem node_token_kept_witness:
  "fst (ensureDaemonNodeToken calm_disk (first_input\<lparr>ti_token := None\<rparr>) first_start) =
   Inr \<lparr>tr_token = ''secret'', tr_source = token_file, tr_path = Some (daemonNodeTokenPath ''/c'' ''e'')\<rparr>"
proof -
  have run: "ensureDaemonNodeToken calm_disk first_input \<lparr>nd_files = Map.empty, nd_dirs = Map.empty, nd_calls = 0\<rparr> =
      (Inr \<lparr>tr_token = ''secret'', tr_source = token_explicit, tr_path = None\<rparr>, first_start)"
    unfolding first_start_def
    by (simp add: ensureDaemonNodeToken_def writeDaemonNodeToken_def removeLegacyToken_def legacyTokenPath_def calm_disk_def first_input_def
        disk_defs truthy_or_none_def js_trim_def js_space_def)
  show ?thesis
    using node_token_kept [OF run, of "daemonNodeTokenPath ''/c'' ''e''" first_start calm_disk]
    by (simp add: calm_disk_def first_input_def legacyTokenPath_def truthy_or_none_def)
qed

text \<open>A machine id that was stored or read is the id of every later start.\<close>

lemma machine_id_stable:
  assumes start: "ensureMachineId env host None home s = (Inr r, t)" and stored: "mr_source r \<noteq> machine_fallback"
    and bytes: "\<forall>n. list_all (\<lambda>b. b < 256) (de_random env n)"
    and later: "nd_files u (machineIdPath home) = nd_files t (machineIdPath home)" "de_fault env' (nd_calls u) (ReadFile (machineIdPath home)) = None"
  shows "fst (ensureMachineId env' host' None home u) =
         Inr \<lparr>mr_machineId = mr_machineId r, mr_source = machine_file, mr_path = Some (machineIdPath home)\<rparr>"
proof -
  let ?p = "machineIdPath home"
  have "\<exists>v m. nd_files t ?p = Some (v, m) \<and> js_trim v = mr_machineId r \<and> js_trim v \<noteq> []"
  proof (cases "readMachineId env home s")
    case (Pair e v)
    note read = this
    show ?thesis
    proof (cases e)
      case (Inl f)
      then show ?thesis using start read stored by (auto simp: ensureMachineId_def Let_def truthy_or_none_def eff_catch_def eff_bind_def eff_return_def)
    next
      case (Inr x)
      note read_ok = read_trimmed_ok [OF read [unfolded Inr readMachineId_def]]
      show ?thesis
      proof (cases x)
        case (Some i)
        then have "t = v" "mr_machineId r = i"
          using start read Inr by (auto simp: ensureMachineId_def Let_def truthy_or_none_def eff_catch_def eff_bind_def eff_return_def)
        then show ?thesis using read_ok Some by auto
      next
        case None
        let ?i = "''mch_'' @ base64url (de_random env (nd_calls v))"
        have i: "js_trim ?i = ?i" using bytes by (intro new_token_plain) (simp_all add: js_space_def)
        have "mr_machineId r = ?i \<and> (\<exists>m. nd_files t ?p = Some (?i @ newline, m))"
          using start read Inr None stored
          by (auto simp: ensureMachineId_def newMachineId_def Let_def truthy_or_none_def disk_defs split: prod.splits sum.splits option.splits if_splits)
        moreover have "js_trim (?i @ newline) = ?i" using trim_newline [of ?i] by (simp only: i)
        ultimately show ?thesis by auto
      qed
    qed
  qed
  then obtain v m where "nd_files t ?p = Some (v, m)" "js_trim v = mr_machineId r" "js_trim v \<noteq> []" by blast
  then have "readMachineId env' home u = (Inr (Some (mr_machineId r)), u\<lparr>nd_calls := Suc (nd_calls u)\<rparr>)"
    using read_trimmed_again [of u ?p v m env'] later by (simp add: readMachineId_def)
  then show ?thesis by (simp add: ensureMachineId_def Let_def truthy_or_none_def eff_catch_def eff_bind_def eff_return_def)
qed

section \<open>Where identities are not stable\<close>

text \<open>When only the last \<open>chmod\<close> fails the first start is named after the host, and the next one after the id it has stored.\<close>

definition chmod_fails :: disk_env where
  "chmod_fails =
     \<lparr>de_fault = (\<lambda>n c. if n = 4 then Some \<lparr>df_error = FsError ''EPERM'', df_left = None\<rparr> else None), de_random = (\<lambda>_. [0, 0, 0])\<rparr>"

lemma machine_id_changes:
  "case ensureMachineId chmod_fails ''box'' None ''/h'' \<lparr>nd_files = Map.empty, nd_dirs = Map.empty, nd_calls = 0\<rparr> of
     (r, t) \<Rightarrow> map_sum id mr_machineId r = Inr ''host_box'' \<and>
               map_sum id mr_machineId (fst (ensureMachineId chmod_fails ''box'' None ''/h'' t)) = Inr ''mch_AAAA''"
  by code_simp

text \<open>Two employees may have one token file, and a token left in the workspace stays there once the credential file exists.\<close>

lemma token_files_collide: "daemonNodeTokenPath dir ''a b'' = daemonNodeTokenPath dir ''a_b''"
  by (simp add: daemonNodeTokenPath_def safeTokenFileName_def js_trim_def js_space_def file_name_char_def)

lemma legacy_token_left:
  "case ensureDaemonNodeToken calm_disk
          \<lparr>ti_credentialDirectory = ''/c'', ti_legacyWorkspacePath = Some ''/w'', ti_employeeId = ''e'', ti_token = None\<rparr>
          \<lparr>nd_files = [''/c/e.token'' \<mapsto> (''new'', 384), ''/w/.relay/daemon-nodes/e.token'' \<mapsto> (''old'', 420)], nd_dirs = Map.empty, nd_calls = 0\<rparr> of
     (r, t) \<Rightarrow> map_sum id tr_token r = Inr ''new'' \<and> nd_files t ''/w/.relay/daemon-nodes/e.token'' = Some (''old'', 420)"
  by code_simp

end
