(* ===== verification/Spec2Isabelle.thy ===== *)
theory Spec2Isabelle
  imports Output_Buffer Text_Capture Codex_Collaboration Token_Usage Agent_State Session_Events
    Task_Events Daemon_Protocol Managed_Safety Supervisor_Reconcile Daemon_Retry Output_Delivery
    Thread_Workspace Workspace_Read Generated_Files Run_Gate Daemon_Loop Agent_Command Sandbox_Session
    Local_Provider Stream_Renderers Agent_Transcript Agent_Display Session_Cache List_Paging App_Route
    Chat_Dispatch Message_Address Thread_Runtime Project_Messages Task_Board Agent_Inventory Node_Identity
begin

text \<open>
  A verification development of the TypeScript part of Relay: the protocol and event logs its programs share
  (\<open>packages/relay-core\<close>), the daemon that runs coding agents on a computer (\<open>packages/relay-daemon\<close>), the supervisor
  that keeps computers running (\<open>packages/relay-supervisor\<close>), the gateway for chat providers (\<open>packages/relay-chat\<close>)
  and the logic of the web client (\<open>web/src/lib\<close>). Paths below are relative to \<open>src\<close>.

  \<^bold>\<open>How the program works.\<close> The backend (Python, not part of this development) keeps sessions and tasks as event logs
  and a queue of commands per computer. A daemon registers its computer, renews leases, polls commands and starts a
  run for each \<open>run.start\<close>: it checks the workspace, waits its turn at the gate of that workspace, builds the command line
  of the agent, starts it as a local process or in a guest, posts the output in numbered batches and ends with one
  terminal event. The supervisor compares the computers that are wanted with those the backend and a provider report
  and starts, retires and deletes instances. The web client and the chat gateway read the logs: the client keeps
  sessions current from polls and streamed events, projects them to transcripts and lists and addresses messages to
  agents; the gateway turns chat messages into runs.

  \<^bold>\<open>Conventions.\<close> A record stands for an object type, a datatype for a union, \<open>option\<close> for an optional value;
  functions keep the names of the source where HOL allows it. A text is a \<open>string\<close>, so its code units are below 256;
  where the code looks at UTF-16 units (\<open>Output_Buffer\<close>) it is a list of 16-bit words. An asynchronous handler is an
  \<open>effect\<close>: a function from a state to an error or a result, and the state (\<open>Relay_Prelude\<close>, with weakest preconditions
  and triples). Code outside the repository and the outside world are arguments: HTTP requests, processes, files,
  clocks, \<open>JSON.parse\<close>, the URL parser, \<open>localeCompare\<close>. They may answer anything and fail at every call, unless a
  theorem says otherwise in its assumptions. \<open>Array.prototype.sort\<close> is a stable insertion sort (\<open>js_sort\<close>).

  \<^bold>\<open>Libraries.\<close> \<open>Relay_Prelude\<close> (strings, effects), \<open>Js_Json\<close>, \<open>Decimal_Text\<close>, \<open>Utf8_Text\<close>, \<open>Url_Text\<close>, \<open>File_Paths\<close>
  (\<open>node:path\<close>), \<open>Pattern_Match\<close> (regular expressions), \<open>Shell_Words\<close> (quoting and a reference scanner of POSIX words),
  \<open>Line_Stream\<close> (locale \<open>line_handler\<close>: chunking is irrelevant), \<open>Event_Log\<close> (locale \<open>event_log\<close>: a record is the fold of its
  log), \<open>Step_Machine\<close> (locale \<open>guarded_machine\<close>: invariants of event-driven components), \<open>List_Sort\<close> (locale \<open>comparator\<close>).
  Further locales state single contracts: \<open>capped_backoff\<close>, \<open>checkpointed\<close> and \<open>cached_transcript\<close>, \<open>last_writer\<close>,
  \<open>chat_reports\<close>, \<open>receipts\<close>. Each is interpreted on the definitions of the components that provide it.

  \<^bold>\<open>Core\<close> (\<open>packages/relay-core/src\<close>).
  \<^item> \<open>Session_Events\<close> (\<open>session-store.ts\<close>), \<open>Task_Events\<close> (\<open>task-store.ts\<close>): the types, \<open>materializeEvents\<close> and
    \<open>materializeTaskEvents\<close>; every log is rejected or gives a record satisfying its invariant, replay is incremental and
    only extends what was recorded.
  \<^item> \<open>Daemon_Protocol\<close>: the wire types. \<open>Codex_Collaboration\<close>, \<open>Token_Usage\<close>, \<open>Agent_State\<close>: what is read from the output
    of an agent. \<open>Stream_Renderers\<close> (\<open>renderers.ts\<close>): the output of a renderer is that of the complete lines.
  \<^item> \<open>Agent_Environment\<close>, \<open>Agent_Command\<close> (\<open>env.ts\<close>, \<open>guest.ts\<close>, \<open>prompts.ts\<close>, \<open>agents.ts\<close>): what an agent process is given; its
    command line is read by a shell as the intended words, and credentials of other agents are not in its environment.
  \<^item> \<open>Node_Identity\<close> (\<open>daemon-node-token.ts\<close>, \<open>machine-id.ts\<close>): the persistent token and id of a computer.

  \<^bold>\<open>Daemon\<close> (\<open>packages/relay-daemon/src\<close>).
  \<^item> \<open>Output_Buffer\<close>, \<open>Text_Capture\<close>, \<open>Output_Delivery\<close>, \<open>Daemon_Retry\<close>: batching, bounded capture, the queue of posts and the
    retry loops; nothing is lost or reordered, what the backend has is a prefix, or a failure is recorded.
  \<^item> \<open>Thread_Workspace\<close>, \<open>Workspace_Read\<close>, \<open>Generated_Files\<close>, \<open>Agent_Home\<close>, \<open>Round_Result\<close>, \<open>Run_Gate\<close>: where a run works, which
    files are shown or collected, and the exclusion of runs within a process and between processes.
  \<^item> \<open>Execute_Command\<close>, \<open>Daemon_Loop\<close> (\<open>index.ts\<close>): a run from command to terminal event, and the poll loop as a machine.
  \<^item> \<open>Sandbox_Session\<close> (\<open>sandbox-session.ts\<close>): the life cycle of the guest. \<open>Agent_Inventory\<close>: the skills and servers a node
    reports.

  \<^bold>\<open>Supervisor\<close> (\<open>packages/relay-supervisor/src\<close>). \<open>Managed_Reconcile\<close> with \<open>Managed_Safety\<close>, \<open>Supervisor_Reconcile\<close>,
  \<open>Local_Provider\<close>: every trace of calls satisfies a safety monitor, a restarted supervisor adopts what runs, only
  identified processes are signalled, and \<open>stop\<close> returns.

  \<^bold>\<open>Chat\<close> (\<open>packages/relay-chat/src\<close>). \<open>Chat_Command\<close>, \<open>Chat_Gateway\<close>, \<open>Event_Receipts\<close>, \<open>Chat_Dispatch\<close>: commands, the gateway
  acting for the linked employee only, the receipts of provider events and the webhook that starts a run at most once.

  \<^bold>\<open>Web client\<close> (\<open>web/src/lib\<close>). \<open>Client_Projection\<close> and \<open>Session_Cache\<close>: the cached session is a prefix of the log of the
  server, whatever the interleaving. \<open>Stream_Records\<close>, \<open>Agent_Segments\<close>, \<open>Agent_Transcript\<close>, \<open>Agent_Display\<close>, \<open>Project_Messages\<close>:
  transcripts, where the incremental and cached versions equal the recomputed ones. \<open>App_Route\<close>, \<open>List_Paging\<close>, \<open>List_Sort\<close>,
  \<open>Calendar_Dates\<close>, \<open>Task_Board\<close>, \<open>Web_Agents\<close>, \<open>Thread_Runtime\<close>, \<open>Message_Address\<close>: addresses, pages, orders, boards, rosters and
  whom a message reaches.

  \<^bold>\<open>Bounds and termination.\<close> The retry loops of \<open>Daemon_Retry\<close> and the push loop of \<open>Output_Buffer\<close> are
  \<open>partial_function (option)\<close>, and the theorems say when they return. \<open>waitUntilStopped\<close> and the retries of the dispatch carry
  fuel; \<open>stop_returns\<close> shows that some fuel suffices when every delay advances the clock and that the result does not
  depend on it. The other loops are total functions with a measure (line splitting, scans, record cutting, decoding,
  mentions, stream markers, calendar carries).

  \<^bold>\<open>Assumptions worth knowing.\<close> In \<open>Session_Cache\<close> a snapshot of the server is what \<open>materializeEvents\<close> gives for a prefix
  of its log and a poll lists the session once. In \<open>Event_Receipts\<close>, \<open>Sandbox_Session\<close> and \<open>Local_Provider\<close> an operation runs
  to its end before the next one. Base64 padding ends a payload (\<open>Agent_Inventory\<close>).

  \<^bold>\<open>Not modelled.\<close> React components and hooks, the HTTP client \<open>web/src/api.ts\<close> and the remaining helpers of the web client
  (storage, shortcuts, syntax colouring, markdown, formatting): they render or call what is modelled here. The command
  lines, start-up and shutdown of the programs, loggers and launchers: input and output around the modelled machines. The
  BoxLite bindings (\<open>box.ts\<close>), the signature and decryption of the Discord and Lark webhooks and the HTTP clients of the
  chat gateway and the supervisor: calls into libraries. The Python backend is another language.
\<close>

end
